(* ===== verification/Prelude.thy ===== *)
theory Prelude
  imports Main "HOL-Library.Word"
begin

text \<open>
  Shared vocabulary of the One-KVM development: the widths of Rust's unsigned
  integers, little- and big-endian byte strings, the \<open>std\<close> formatting and UTF-8
  checks the sources call, and the generic facts on words and lists that the
  component theories use.  Two collections carry those facts: \<open>byte_simps\<close> for the
  byte-string codecs, \<open>bit_simps\<close> for tests of single bits of an octet.
\<close>

unbundle bit_operations_syntax

type_synonym u8 = "8 word"
type_synonym u16 = "16 word"
type_synonym u32 = "32 word"
type_synonym u64 = "64 word"
type_synonym bytes = "8 word list"

named_theorems byte_simps
named_theorems bit_simps

section \<open>Byte strings of numbers\<close>

text \<open>
  \<open>le_bytes n x\<close> is the low \<open>n\<close> octets of \<open>x\<close>, least significant first
  (\<open>to_le_bytes\<close>); \<open>le_val\<close> reads such a string back (\<open>from_le_bytes\<close>).
\<close>

fun le_bytes :: "nat \<Rightarrow> nat \<Rightarrow> bytes" where
  "le_bytes 0 x = []"
| "le_bytes (Suc n) x = of_nat (x mod 256) # le_bytes n (x div 256)"

fun le_val :: "bytes \<Rightarrow> nat" where
  "le_val [] = 0"
| "le_val (b # bs) = unat b + 256 * le_val bs"

definition be_bytes :: "nat \<Rightarrow> nat \<Rightarrow> bytes" where
  "be_bytes n x = rev (le_bytes n x)"

definition be_val :: "bytes \<Rightarrow> nat" where
  "be_val bs = le_val (rev bs)"

lemma unat_u8_less [simp]: "unat (b :: u8) < 256"
  using unsigned_less [of b] by simp

lemma unat_of_nat_u8 [simp]: "unat (of_nat x :: u8) = x mod 256"
  by (simp add: unat_of_nat)

lemma of_nat_unat_u8 [simp]: "of_nat (unat (b :: u8)) = b"
  by simp

lemma length_le_bytes [simp, byte_simps]: "length (le_bytes n x) = n"
  by (induction n arbitrary: x) auto

lemma length_be_bytes [simp, byte_simps]: "length (be_bytes n x) = n"
  by (simp add: be_bytes_def)

lemma le_val_le_bytes [byte_simps]: "le_val (le_bytes n x) = x mod 256 ^ n"
proof (induction n arbitrary: x)
  case 0
  then show ?case by simp
next
  case (Suc n)
  then show ?case by (simp add: mod_mult2_eq)
qed

lemma le_val_less: "le_val bs < 256 ^ length bs"
proof (induction bs)
  case Nil
  then show ?case by simp
next
  case (Cons b bs)
  have "unat b + 256 * le_val bs < 256 + 256 * le_val bs"
    by simp
  also have "\<dots> = 256 * (le_val bs + 1)"
    by simp
  also have "\<dots> \<le> 256 * 256 ^ length bs"
    using Cons by (simp add: Suc_le_eq)
  finally show ?case by simp
qed

lemma le_bytes_le_val [byte_simps]: "le_bytes (length bs) (le_val bs) = bs"
proof (induction bs)
  case Nil
  then show ?case by simp
next
  case (Cons b bs)
  have "(unat b + 256 * le_val bs) mod 256 = unat b"
    by simp
  moreover have "(unat b + 256 * le_val bs) div 256 = le_val bs"
    by simp
  ultimately show ?case using Cons by simp
qed

lemma be_val_be_bytes [byte_simps]: "be_val (be_bytes n x) = x mod 256 ^ n"
  by (simp add: be_val_def be_bytes_def le_val_le_bytes)

lemma be_bytes_be_val [byte_simps]: "be_bytes (length bs) (be_val bs) = bs"
  using le_bytes_le_val [of "rev bs"] by (simp add: be_val_def be_bytes_def)

lemma be_val_less: "be_val bs < 256 ^ length bs"
  using le_val_less [of "rev bs"] by (simp add: be_val_def)

text \<open>The fixed widths: \<open>u16\<close>, \<open>u32\<close> and \<open>u64\<close> in both byte orders.\<close>

lemma word_of_le_bytes [byte_simps]:
  fixes w :: "'a :: len word"
  assumes "LENGTH('a) = 8 * n"
  shows "of_nat (le_val (le_bytes n (unat w))) = w"
proof -
  have "unat w < 2 ^ (8 * n)"
    using unsigned_less [of w] assms by simp
  then have "unat w < 256 ^ n"
    by (simp add: power_mult)
  then show ?thesis by (simp add: le_val_le_bytes)
qed

lemma word_of_be_bytes [byte_simps]:
  fixes w :: "'a :: len word"
  assumes "LENGTH('a) = 8 * n"
  shows "of_nat (be_val (be_bytes n (unat w))) = w"
  using word_of_le_bytes [OF assms, of w]
  by (simp add: be_val_def be_bytes_def)

lemma le_bytes_of_nat:
  assumes "LENGTH('a) = 8 * n" and "length bs = n"
  shows "le_bytes n (unat (of_nat (le_val bs) :: 'a :: len word)) = bs"
proof -
  have "le_val bs < 2 ^ LENGTH('a)"
    using le_val_less [of bs] assms by (simp add: power_mult)
  then have "unat (of_nat (le_val bs) :: 'a word) = le_val bs"
    by (simp add: unat_of_nat)
  then show ?thesis using le_bytes_le_val [of bs] assms by simp
qed

section \<open>Bits of an octet\<close>

lemma bit_mask_0 [bit_simps]: "(b :: u8) AND 0x01 \<noteq> 0 \<longleftrightarrow> bit b 0"
  by (simp add: and_one_eq mod_2_eq_odd bit_0)

lemma and_push_bit_neq_0: "(b :: 'a :: len word) AND push_bit n 1 \<noteq> 0 \<longleftrightarrow> bit b n"
  by (metis and_exp_eq_0_iff_not_bit push_bit_eq_mult mult.left_neutral)

lemma bit_mask_1 [bit_simps]: "(b :: u8) AND 0x02 \<noteq> 0 \<longleftrightarrow> bit b (Suc 0)"
  using and_push_bit_neq_0 [of b 1] by (simp add: push_bit_eq_mult)

lemma bit_mask_2 [bit_simps]: "(b :: u8) AND 0x04 \<noteq> 0 \<longleftrightarrow> bit b 2"
  using and_push_bit_neq_0 [of b 2] by (simp add: push_bit_eq_mult)

lemma bit_mask_3 [bit_simps]: "(b :: u8) AND 0x08 \<noteq> 0 \<longleftrightarrow> bit b 3"
  using and_push_bit_neq_0 [of b 3] by (simp add: push_bit_eq_mult)

lemma bit_mask_4 [bit_simps]: "(b :: u8) AND 0x10 \<noteq> 0 \<longleftrightarrow> bit b 4"
  using and_push_bit_neq_0 [of b 4] by (simp add: push_bit_eq_mult)

lemma bit_mask_5 [bit_simps]: "(b :: u8) AND 0x20 \<noteq> 0 \<longleftrightarrow> bit b 5"
  using and_push_bit_neq_0 [of b 5] by (simp add: push_bit_eq_mult)

lemma bit_mask_6 [bit_simps]: "(b :: u8) AND 0x40 \<noteq> 0 \<longleftrightarrow> bit b 6"
  using and_push_bit_neq_0 [of b 6] by (simp add: push_bit_eq_mult)

lemma bit_mask_7 [bit_simps]: "(b :: u8) AND 0x80 \<noteq> 0 \<longleftrightarrow> bit b 7"
  using and_push_bit_neq_0 [of b 7] by (simp add: push_bit_eq_mult)

lemma all_less_8: "(\<forall>n < (8 :: nat). P n) \<longleftrightarrow> P 0 \<and> P 1 \<and> P 2 \<and> P 3 \<and> P 4 \<and> P 5 \<and> P 6 \<and> P 7"
  by (simp add: numeral_eq_Suc All_less_Suc conj_ac)

lemma u8_eq_iff_bits: "(a :: u8) = b \<longleftrightarrow> (\<forall>n < 8. bit a n \<longleftrightarrow> bit b n)"
  by (auto intro!: bit_word_eqI)

text \<open>Two octets are equal when their eight bits are.\<close>

lemmas u8_eq_iff = u8_eq_iff_bits [unfolded all_less_8 One_nat_def]

section \<open>Formatting\<close>

text \<open>\<open>format!("{}")\<close> of an unsigned integer and \<open>{:02x}\<close>, \<open>{:02X}\<close> of an octet.\<close>

definition digit_char :: "nat \<Rightarrow> char" where
  "digit_char d = char_of (48 + d)"

fun dec_of_nat :: "nat \<Rightarrow> string" where
  "dec_of_nat n = (if n < 10 then [digit_char n] else dec_of_nat (n div 10) @ [digit_char (n mod 10)])"

declare dec_of_nat.simps [simp del]

definition hex_char_lower :: "nat \<Rightarrow> char" where
  "hex_char_lower d = (if d < 10 then char_of (48 + d) else char_of (87 + d))"

definition hex_char_upper :: "nat \<Rightarrow> char" where
  "hex_char_upper d = (if d < 10 then char_of (48 + d) else char_of (55 + d))"

definition hex02_lower :: "u8 \<Rightarrow> string" where
  "hex02_lower b = [hex_char_lower (unat b div 16), hex_char_lower (unat b mod 16)]"

definition hex02_upper :: "u8 \<Rightarrow> string" where
  "hex02_upper b = [hex_char_upper (unat b div 16), hex_char_upper (unat b mod 16)]"

section \<open>Strings as their UTF-8 octets\<close>

text \<open>
  A Rust \<open>String\<close> is a vector of octets that is valid UTF-8.  The model keeps a
  string as its octets (one \<open>char\<close> each); \<open>string_bytes\<close> is \<open>as_bytes\<close>, and
  \<open>from_utf8\<close> is \<open>String::from_utf8\<close>, which accepts exactly the well-formed
  sequences of the Unicode standard (table 3-7).
\<close>

definition string_bytes :: "string \<Rightarrow> bytes" where
  "string_bytes s = map (\<lambda>c. of_nat (of_char c)) s"

definition bytes_string :: "bytes \<Rightarrow> string" where
  "bytes_string bs = map (\<lambda>b. char_of (unat b)) bs"

definition in_range :: "u8 \<Rightarrow> u8 \<Rightarrow> u8 \<Rightarrow> bool" where
  "in_range lo hi b \<longleftrightarrow> lo \<le> b \<and> b \<le> hi"

definition is_cont :: "u8 \<Rightarrow> bool" where
  "is_cont b \<longleftrightarrow> in_range 0x80 0xBF b"

definition utf8_second3 :: "u8 \<Rightarrow> u8 \<Rightarrow> bool" where
  "utf8_second3 a b \<longleftrightarrow>
     (if a = 0xE0 then in_range 0xA0 0xBF b
      else if a = 0xED then in_range 0x80 0x9F b else is_cont b)"

definition utf8_second4 :: "u8 \<Rightarrow> u8 \<Rightarrow> bool" where
  "utf8_second4 a b \<longleftrightarrow>
     (if a = 0xF0 then in_range 0x90 0xBF b
      else if a = 0xF4 then in_range 0x80 0x8F b else is_cont b)"

function valid_utf8 :: "bytes \<Rightarrow> bool" where
  "valid_utf8 bs =
     (case bs of [] \<Rightarrow> True
      | a # r \<Rightarrow>
          if a \<le> 0x7F then valid_utf8 r
          else if in_range 0xC2 0xDF a then
            (case r of b # r' \<Rightarrow> is_cont b \<and> valid_utf8 r' | _ \<Rightarrow> False)
          else if in_range 0xE0 0xEF a then
            (case r of b # c # r' \<Rightarrow> utf8_second3 a b \<and> is_cont c \<and> valid_utf8 r' | _ \<Rightarrow> False)
          else if in_range 0xF0 0xF4 a then
            (case r of b # c # d # r' \<Rightarrow>
               utf8_second4 a b \<and> is_cont c \<and> is_cont d \<and> valid_utf8 r' | _ \<Rightarrow> False)
          else False)"
  by pat_completeness auto
termination
  by (relation "measure length") auto

declare valid_utf8.simps [simp del]

definition from_utf8 :: "bytes \<Rightarrow> string option" where
  "from_utf8 bs = (if valid_utf8 bs then Some (bytes_string bs) else None)"

definition utf8_string :: "string \<Rightarrow> bool" where
  "utf8_string s \<longleftrightarrow> valid_utf8 (string_bytes s)"

lemma bytes_string_bytes [simp]: "bytes_string (string_bytes s) = s"
  by (simp add: bytes_string_def string_bytes_def o_def unat_of_nat)

lemma string_bytes_string [simp]: "string_bytes (bytes_string bs) = bs"
  by (simp add: bytes_string_def string_bytes_def o_def map_idI)

lemma length_string_bytes [simp]: "length (string_bytes s) = length s"
  by (simp add: string_bytes_def)

lemma from_utf8_string_bytes: "utf8_string s \<Longrightarrow> from_utf8 (string_bytes s) = Some s"
  by (simp add: from_utf8_def utf8_string_def)

lemma valid_utf8_ascii: "\<forall>b \<in> set bs. b \<le> 0x7F \<Longrightarrow> valid_utf8 bs"
proof (induction bs)
  case Nil
  show ?case by (simp add: valid_utf8.simps [of "[]"])
next
  case (Cons a bs)
  then show ?case by (simp add: valid_utf8.simps [of "a # bs"])
qed

section \<open>Lists\<close>

text \<open>\<open>copy_from_slice\<close> into \<open>xs[i..i + ys.len()]\<close>, for a slice that is in range.\<close>

definition copy_slice :: "nat \<Rightarrow> 'a list \<Rightarrow> 'a list \<Rightarrow> 'a list" where
  "copy_slice i ys xs = take i xs @ ys @ drop (i + length ys) xs"

definition slice_of :: "nat \<Rightarrow> nat \<Rightarrow> 'a list \<Rightarrow> 'a list" where
  "slice_of i j xs = take (j - i) (drop i xs)"

lemma length_copy_slice [simp]:
  "i + length ys \<le> length xs \<Longrightarrow> length (copy_slice i ys xs) = length xs"
  by (simp add: copy_slice_def)

lemma nth_copy_slice:
  assumes "i + length ys \<le> length xs" and "k < length xs"
  shows "copy_slice i ys xs ! k = (if i \<le> k \<and> k < i + length ys then ys ! (k - i) else xs ! k)"
  using assms by (auto simp: copy_slice_def nth_append)

lemma length_slice_of [simp]: "length (slice_of i j xs) = min (j - i) (length xs - i)"
  by (simp add: slice_of_def)

lemma nth_slice_of: "i + k < j \<Longrightarrow> j \<le> length xs \<Longrightarrow> slice_of i j xs ! k = xs ! (i + k)"
  by (simp add: slice_of_def)

lemma nth_prefix: "n \<le> length xs \<Longrightarrow> i < n \<Longrightarrow> (xs @ ys) ! i = xs ! i"
  by (simp add: nth_append)

section \<open>White space\<close>

text \<open>\<open>str::trim\<close> on ASCII text.\<close>

definition is_space :: "char \<Rightarrow> bool" where
  "is_space c \<longleftrightarrow> (of_char c :: nat) \<in> {9, 10, 11, 12, 13, 32}"

definition trim :: "string \<Rightarrow> string" where
  "trim s = rev (dropWhile is_space (rev (dropWhile is_space s)))"

end
