(* ===== verification/HashMaps.thy ===== *)
theory HashMaps
  imports Prelude "HOL-Library.AList"
begin

text \<open>
  The hash maps of the standard library as association lists with distinct keys; the
  order of the list stands for the unspecified order of iteration.  The locale
  \<open>hash_map\<close> states what the clients rely on: lookups after \<open>insert\<close>, \<open>remove\<close>,
  \<open>retain\<close> and \<open>clear\<close>, and the keys that iteration visits.
\<close>

section \<open>Operations\<close>

type_synonym ('k, 'v) hashmap = "('k \<times> 'v) list"

definition hm_get :: "('k, 'v) hashmap \<Rightarrow> 'k \<Rightarrow> 'v option" where
  "hm_get m k = map_of m k"

definition hm_insert :: "'k \<Rightarrow> 'v \<Rightarrow> ('k, 'v) hashmap \<Rightarrow> ('k, 'v) hashmap" where
  "hm_insert k v m = AList.update k v m"

definition hm_remove :: "'k \<Rightarrow> ('k, 'v) hashmap \<Rightarrow> ('k, 'v) hashmap" where
  "hm_remove k m = AList.delete k m"

definition hm_retain :: "('k \<Rightarrow> 'v \<Rightarrow> bool) \<Rightarrow> ('k, 'v) hashmap \<Rightarrow> ('k, 'v) hashmap" where
  "hm_retain P m = filter (\<lambda>(k, v). P k v) m"

definition hm_keys :: "('k, 'v) hashmap \<Rightarrow> 'k list" where
  "hm_keys m = map fst m"

text \<open>\<open>values().find(p)\<close>.\<close>

definition hm_find :: "('v \<Rightarrow> bool) \<Rightarrow> ('k, 'v) hashmap \<Rightarrow> 'v option" where
  "hm_find p m = List.find p (map snd m)"

definition hm_wf :: "('k, 'v) hashmap \<Rightarrow> bool" where
  "hm_wf m \<longleftrightarrow> distinct (map fst m)"

section \<open>The interface\<close>

locale hash_map =
  fixes invar :: "'m \<Rightarrow> bool"
    and get :: "'m \<Rightarrow> 'k \<Rightarrow> 'v option"
    and insert :: "'k \<Rightarrow> 'v \<Rightarrow> 'm \<Rightarrow> 'm"
    and remove :: "'k \<Rightarrow> 'm \<Rightarrow> 'm"
    and retain :: "('k \<Rightarrow> 'v \<Rightarrow> bool) \<Rightarrow> 'm \<Rightarrow> 'm"
    and keys :: "'m \<Rightarrow> 'k list"
    and empty :: 'm
  assumes invar_empty: "invar empty"
    and invar_insert: "invar m \<Longrightarrow> invar (insert k v m)"
    and invar_remove: "invar m \<Longrightarrow> invar (remove k m)"
    and invar_retain: "invar m \<Longrightarrow> invar (retain P m)"
    and get_empty: "get empty k = None"
    and get_insert: "invar m \<Longrightarrow> get (insert k v m) l = (if l = k then Some v else get m l)"
    and get_remove: "invar m \<Longrightarrow> get (remove k m) l = (if l = k then None else get m l)"
    and get_retain: "invar m \<Longrightarrow> get (retain P m) l =
      (case get m l of None \<Rightarrow> None | Some v \<Rightarrow> if P l v then Some v else None)"
    and set_keys: "set (keys m) = {k. get m k \<noteq> None}"
    and distinct_keys: "invar m \<Longrightarrow> distinct (keys m)"
begin

text \<open>Modifying the entry of a key in place, as \<open>get_mut\<close> does.\<close>

definition modify :: "'k \<Rightarrow> ('v \<Rightarrow> 'v) \<Rightarrow> 'm \<Rightarrow> 'm" where
  "modify k f m = (case get m k of None \<Rightarrow> m | Some v \<Rightarrow> insert k (f v) m)"

lemma invar_modify: "invar m \<Longrightarrow> invar (modify k f m)"
  by (simp add: modify_def invar_insert split: option.split)

lemma get_modify: "invar m \<Longrightarrow> get (modify k f m) l = (if l = k then map_option f (get m l) else get m l)"
  by (simp add: modify_def get_insert split: option.split)

text \<open>Retaining the other keys is removing the key.\<close>

lemma retain_other: "invar m \<Longrightarrow> get (retain (\<lambda>l _. l \<noteq> k) m) = get (remove k m)"
  by (rule ext) (simp add: get_retain get_remove split: option.split)

lemma keys_insert: "invar m \<Longrightarrow> set (keys (insert k v m)) = {k} \<union> set (keys m)"
  by (auto simp: set_keys get_insert)

lemma keys_remove: "invar m \<Longrightarrow> set (keys (remove k m)) = set (keys m) - {k}"
  by (auto simp: set_keys get_remove)

lemma length_keys: "invar m \<Longrightarrow> length (keys m) = card {k. get m k \<noteq> None}"
  using distinct_card [OF distinct_keys] by (simp add: set_keys)

end

section \<open>The association list is one\<close>

lemma map_of_filter_distinct:
  "distinct (map fst m) \<Longrightarrow> map_of (filter (\<lambda>(k, v). P k v) m) l =
     (case map_of m l of None \<Rightarrow> None | Some v \<Rightarrow> if P l v then Some v else None)"
  by (induction m) (auto simp: map_of_eq_None_iff split: option.splits)

interpretation hm: hash_map hm_wf hm_get hm_insert hm_remove hm_retain hm_keys "[]"
proof
  fix m :: "('k, 'v) hashmap" and k l :: 'k and v :: 'v and P
  show "hm_wf ([] :: ('k, 'v) hashmap)" by (simp add: hm_wf_def)
  show "hm_get [] k = None" by (simp add: hm_get_def)
  show "set (hm_keys m) = {k. hm_get m k \<noteq> None}"
    by (auto simp: hm_keys_def hm_get_def map_of_eq_None_iff)
  assume wf: "hm_wf m"
  then show "distinct (hm_keys m)" by (simp add: hm_wf_def hm_keys_def)
  show "hm_wf (hm_insert k v m)" using wf by (simp add: hm_wf_def hm_insert_def distinct_update)
  show "hm_wf (hm_remove k m)" using wf by (simp add: hm_wf_def hm_remove_def distinct_delete)
  show "hm_wf (hm_retain P m)" using wf by (simp add: hm_wf_def hm_retain_def distinct_map_filter)
  show "hm_get (hm_insert k v m) l = (if l = k then Some v else hm_get m l)"
    by (simp add: hm_get_def hm_insert_def update_conv')
  show "hm_get (hm_remove k m) l = (if l = k then None else hm_get m l)"
    by (simp add: hm_get_def hm_remove_def delete_conv')
  show "hm_get (hm_retain P m) l =
      (case hm_get m l of None \<Rightarrow> None | Some v \<Rightarrow> if P l v then Some v else None)"
    using wf by (simp add: hm_get_def hm_retain_def hm_wf_def map_of_filter_distinct)
qed

lemmas hm_invars [simp] = hm.invar_empty hm.invar_insert hm.invar_remove hm.invar_retain hm.invar_modify
lemmas hm_gets = hm.get_empty hm.get_insert hm.get_remove hm.get_retain hm.get_modify

lemma hm_keys_Nil [simp]: "hm_keys [] = []"
  by (simp add: hm_keys_def)

lemma hm_find_Some:
  assumes "hm_find p m = Some v"
  shows "p v \<and> (\<exists>k. (k, v) \<in> set m)"
proof -
  obtain i where i: "i < length m" "p (snd (m ! i))" "v = snd (m ! i)"
    using assms by (auto simp: hm_find_def find_Some_iff)
  then have "(fst (m ! i), v) \<in> set m" by simp
  then show ?thesis using i(2,3) by blast
qed

lemma hm_mem_get: "hm_wf m \<Longrightarrow> (k, v) \<in> set m \<longleftrightarrow> hm_get m k = Some v"
  by (simp add: hm_wf_def hm_get_def)

lemma hm_find_None: "hm_find p m = None \<longleftrightarrow> (\<forall>(k, v) \<in> set m. \<not> p v)"
  by (auto simp: hm_find_def find_None_iff)

text \<open>The value with a property found is the only one, if only one has it.\<close>

lemma hm_find_unique:
  assumes "hm_wf m" and "hm_get m k = Some v" and "p v" and "\<And>l w. hm_get m l = Some w \<Longrightarrow> p w \<Longrightarrow> w = v"
  shows "hm_find p m = Some v"
proof (cases "hm_find p m")
  case None
  moreover have "(k, v) \<in> set m" using assms(1,2) by (simp add: hm_mem_get)
  ultimately have "\<not> p v" unfolding hm_find_None by blast
  then show ?thesis using assms(3) by blast
next
  case (Some w)
  then obtain l where "p w" "hm_get m l = Some w"
    using hm_find_Some [OF Some] assms(1) by (auto simp: hm_mem_get)
  then show ?thesis using Some assms(4) by blast
qed

end
