(* ===== verification/Sessions.thy ===== *)
theory Sessions
  imports HashMaps "HOL-Library.Multiset"
begin

text \<open>
  The session store of \<open>auth/session.rs\<close>.  Times are nanoseconds; the clock reading, and
  the random identifier of a new session, are arguments.  The store keeps expired
  sessions until somebody looks at them; the abstract view at a time is the map of the
  sessions that have not expired, and every operation acts on that view as its
  specification \<open>view_op\<close> says.  The limiter of \<open>utils/throttle.rs\<close> follows, with its
  two critical sections as separate steps.
\<close>

section \<open>The store\<close>

record Session =
  session_id :: string
  session_user :: string
  created_at :: int
  expires_at :: int
  session_data :: "string option"

definition is_expired :: "int \<Rightarrow> Session \<Rightarrow> bool" where
  "is_expired now s \<longleftrightarrow> now > expires_at s"

record SessionStore =
  sessions_inner :: "(string, Session) hashmap"
  default_ttl :: int

definition NANOS :: int where "NANOS = 1000000000"

definition SessionStore_new :: "int \<Rightarrow> SessionStore" where
  "SessionStore_new ttl_secs = \<lparr>sessions_inner = [], default_ttl = ttl_secs * NANOS\<rparr>"

definition new_session :: "int \<Rightarrow> string \<Rightarrow> string \<Rightarrow> SessionStore \<Rightarrow> Session" where
  "new_session now uuid user_id st =
     \<lparr>session_id = uuid, session_user = user_id, created_at = now,
      expires_at = now + default_ttl st, session_data = None\<rparr>"

definition sessions_create :: "int \<Rightarrow> string \<Rightarrow> string \<Rightarrow> SessionStore \<Rightarrow> Session \<times> SessionStore" where
  "sessions_create now uuid user_id st =
     (let session = new_session now uuid user_id st
      in (session, st\<lparr>sessions_inner := hm_insert (session_id session) session (sessions_inner st)\<rparr>))"

definition create_for_login ::
  "int \<Rightarrow> string \<Rightarrow> string \<Rightarrow> bool \<Rightarrow> SessionStore \<Rightarrow> (Session \<times> string list) \<times> SessionStore" where
  "create_for_login now uuid user_id allow_multiple_sessions st =
     (let session = new_session now uuid user_id st;
          (revoked, guard) =
            (if allow_multiple_sessions then ([], sessions_inner st)
             else (hm_keys (sessions_inner st), []));
          guard = hm_insert (session_id session) session guard
      in ((session, revoked), st\<lparr>sessions_inner := guard\<rparr>))"

definition sessions_get :: "int \<Rightarrow> string \<Rightarrow> SessionStore \<Rightarrow> Session option \<times> SessionStore" where
  "sessions_get now sid st =
     (case hm_get (sessions_inner st) sid of
        None \<Rightarrow> (None, st)
      | Some session \<Rightarrow>
          if is_expired now session
          then (None, st\<lparr>sessions_inner := hm_remove sid (sessions_inner st)\<rparr>)
          else (Some session, st))"

definition sessions_delete :: "string \<Rightarrow> SessionStore \<Rightarrow> SessionStore" where
  "sessions_delete sid st = st\<lparr>sessions_inner := hm_remove sid (sessions_inner st)\<rparr>"

definition cleanup_expired :: "int \<Rightarrow> SessionStore \<Rightarrow> nat \<times> SessionStore" where
  "cleanup_expired now st =
     (let before = length (sessions_inner st);
          guard = hm_retain (\<lambda>_ s. \<not> is_expired now s) (sessions_inner st)
      in (before - length guard, st\<lparr>sessions_inner := guard\<rparr>))"

definition sessions_delete_all :: "SessionStore \<Rightarrow> nat \<times> SessionStore" where
  "sessions_delete_all st = (length (sessions_inner st), st\<lparr>sessions_inner := []\<rparr>)"

definition delete_all_except :: "string \<Rightarrow> SessionStore \<Rightarrow> string list \<times> SessionStore" where
  "delete_all_except sid st =
     (filter (\<lambda>i. i \<noteq> sid) (hm_keys (sessions_inner st)),
      st\<lparr>sessions_inner := hm_retain (\<lambda>i _. i = sid) (sessions_inner st)\<rparr>)"

definition list_ids :: "SessionStore \<Rightarrow> string list" where
  "list_ids st = hm_keys (sessions_inner st)"

definition sessions_extend :: "int \<Rightarrow> string \<Rightarrow> SessionStore \<Rightarrow> SessionStore" where
  "sessions_extend now sid st =
     (case hm_get (sessions_inner st) sid of
        None \<Rightarrow> st
      | Some session \<Rightarrow>
          if is_expired now session
          then st\<lparr>sessions_inner := hm_remove sid (sessions_inner st)\<rparr>
          else st\<lparr>sessions_inner := hm_insert sid (session\<lparr>expires_at := now + default_ttl st\<rparr>) (sessions_inner st)\<rparr>)"

lemmas session_defs =
  new_session_def sessions_create_def create_for_login_def sessions_get_def sessions_delete_def
  cleanup_expired_def sessions_delete_all_def delete_all_except_def sessions_extend_def

section \<open>The view of the live sessions\<close>

type_synonym view = "string \<Rightarrow> Session option"

definition age :: "int \<Rightarrow> view \<Rightarrow> view" where
  "age t V i = (case V i of None \<Rightarrow> None | Some s \<Rightarrow> if is_expired t s then None else Some s)"

definition live :: "int \<Rightarrow> SessionStore \<Rightarrow> view" where
  "live t st = age t (hm_get (sessions_inner st))"

datatype SessionOp =
    OpCreate string string
  | OpLogin string string bool
  | OpGet string
  | OpDelete string
  | OpCleanup
  | OpDeleteAll
  | OpDeleteAllExcept string
  | OpExtend string

primrec apply_op :: "int \<Rightarrow> SessionOp \<Rightarrow> SessionStore \<Rightarrow> SessionStore" where
  "apply_op now (OpCreate uuid user) st = snd (sessions_create now uuid user st)"
| "apply_op now (OpLogin uuid user multi) st = snd (create_for_login now uuid user multi st)"
| "apply_op now (OpGet sid) st = snd (sessions_get now sid st)"
| "apply_op now (OpDelete sid) st = sessions_delete sid st"
| "apply_op now OpCleanup st = snd (cleanup_expired now st)"
| "apply_op now OpDeleteAll st = snd (sessions_delete_all st)"
| "apply_op now (OpDeleteAllExcept sid) st = snd (delete_all_except sid st)"
| "apply_op now (OpExtend sid) st = sessions_extend now sid st"

definition opened :: "int \<Rightarrow> int \<Rightarrow> string \<Rightarrow> string \<Rightarrow> Session" where
  "opened ttl now uuid user =
     \<lparr>session_id = uuid, session_user = user, created_at = now, expires_at = now + ttl, session_data = None\<rparr>"

primrec view_op :: "int \<Rightarrow> int \<Rightarrow> SessionOp \<Rightarrow> view \<Rightarrow> view" where
  "view_op ttl now (OpCreate uuid user) V = V(uuid \<mapsto> opened ttl now uuid user)"
| "view_op ttl now (OpLogin uuid user multi) V = (if multi then V else Map.empty)(uuid \<mapsto> opened ttl now uuid user)"
| "view_op ttl now (OpGet sid) V = V"
| "view_op ttl now (OpDelete sid) V = V(sid := None)"
| "view_op ttl now OpCleanup V = V"
| "view_op ttl now OpDeleteAll V = Map.empty"
| "view_op ttl now (OpDeleteAllExcept sid) V = V |` {sid}"
| "view_op ttl now (OpExtend sid) V =
     (case V sid of None \<Rightarrow> V | Some s \<Rightarrow> V(sid \<mapsto> s\<lparr>expires_at := now + ttl\<rparr>))"

definition store_wf :: "SessionStore \<Rightarrow> bool" where
  "store_wf st \<longleftrightarrow> hm_wf (sessions_inner st)"

lemma apply_op_wf [simp]: "store_wf st \<Longrightarrow> store_wf (apply_op now op st)"
  by (cases op) (auto simp: store_wf_def session_defs Let_def split: option.splits)

lemma apply_op_ttl [simp]: "default_ttl (apply_op now op st) = default_ttl st"
  by (cases op) (auto simp: session_defs Let_def split: option.splits)

lemma expired_mono: "is_expired n s \<Longrightarrow> n \<le> t \<Longrightarrow> is_expired t s"
  by (simp add: is_expired_def)

lemma live_get: "live t st i =
  (case hm_get (sessions_inner st) i of None \<Rightarrow> None | Some s \<Rightarrow> if is_expired t s then None else Some s)"
  by (simp add: live_def age_def)

lemma age_live: "n \<le> t \<Longrightarrow> age t (live n st) = live t st"
  by (rule ext) (auto simp: age_def live_get dest: expired_mono split: option.split)

text \<open>Every operation refines its specification on the view, now and later.\<close>

lemma apply_op_refines:
  assumes "store_wf st" and "n \<le> t"
  shows "live t (apply_op n op st) = age t (view_op (default_ttl st) n op (live n st))"
proof (rule ext)
  fix i
  show "live t (apply_op n op st) i = age t (view_op (default_ttl st) n op (live n st)) i"
    using assms
    by (cases op)
      (auto simp: live_get age_def session_defs Let_def hm_gets opened_def store_wf_def restrict_map_def
        dest: expired_mono split: option.splits if_splits)
qed

section \<open>Runs\<close>

definition store_run :: "(int \<times> SessionOp) list \<Rightarrow> SessionStore \<Rightarrow> SessionStore" where
  "store_run ops st = foldl (\<lambda>st (n, op). apply_op n op st) st ops"

definition view_run :: "int \<Rightarrow> (int \<times> SessionOp) list \<Rightarrow> view \<Rightarrow> view" where
  "view_run ttl ops V = foldl (\<lambda>V (n, op). view_op ttl n op (age n V)) V ops"

lemma age_age: "n \<le> t \<Longrightarrow> age t (age n V) = age t V"
  by (rule ext) (auto simp: age_def dest: expired_mono split: option.split)

lemma store_run_refines:
  assumes "store_wf st" and "sorted (n0 # map fst ops @ [t])" and "live n0 st = age n0 V"
  shows "live t (store_run ops st) = age t (view_run (default_ttl st) ops V)"
  using assms
proof (induction ops arbitrary: st n0 V)
  case Nil
  then have "live t st = age t (age n0 V)" using age_live [of n0 t st] by simp
  then show ?case using Nil.prems(2) by (simp add: store_run_def view_run_def age_age)
next
  case (Cons x ops)
  obtain n op where x: "x = (n, op)" by force
  have s: "n0 \<le> n" "sorted (n # map fst ops @ [t])" using Cons.prems(2) x by auto
  have "live n st = age n V"
    using age_live [OF s(1), of st] age_age [OF s(1), of V] Cons.prems(3) by simp
  then have "live n (apply_op n op st) = age n (view_op (default_ttl st) n op (age n V))"
    using apply_op_refines [OF Cons.prems(1), of n n op] by simp
  from Cons.IH [OF apply_op_wf [OF Cons.prems(1)] s(2) this] show ?case
    using x by (simp add: store_run_def view_run_def)
qed

section \<open>The limiter for log lines\<close>

record LogThrottler =
  last_logged :: "(string, nat) hashmap"
  throttle_interval :: nat

definition LogThrottler_new :: "nat \<Rightarrow> LogThrottler" where
  "LogThrottler_new interval = \<lparr>last_logged = [], throttle_interval = interval\<rparr>"

definition with_secs :: "nat \<Rightarrow> LogThrottler" where
  "with_secs secs = LogThrottler_new (secs * 1000000000)"

text \<open>
  \<open>should_log\<close> looks under the read lock and decides again under the write lock; other
  threads may run in between.  \<open>duration_since\<close> is zero when the argument is later, as
  the subtraction of naturals is.
\<close>

definition recently_logged :: "nat \<Rightarrow> string \<Rightarrow> LogThrottler \<Rightarrow> bool" where
  "recently_logged now key t =
     (case hm_get (last_logged t) key of None \<Rightarrow> False | Some prev \<Rightarrow> now - prev < throttle_interval t)"

definition should_log_write :: "nat \<Rightarrow> string \<Rightarrow> LogThrottler \<Rightarrow> bool \<times> LogThrottler" where
  "should_log_write now key t =
     (if recently_logged now key t then (False, t)
      else (True, t\<lparr>last_logged := hm_insert key now (last_logged t)\<rparr>))"

definition should_log :: "nat \<Rightarrow> string \<Rightarrow> LogThrottler \<Rightarrow> bool \<times> LogThrottler" where
  "should_log now key t =
     (if recently_logged now key t then (False, t) else should_log_write now key t)"

definition throttle_clear :: "string \<Rightarrow> LogThrottler \<Rightarrow> LogThrottler" where
  "throttle_clear key t = t\<lparr>last_logged := hm_remove key (last_logged t)\<rparr>"

definition throttle_clear_all :: "LogThrottler \<Rightarrow> LogThrottler" where
  "throttle_clear_all t = t\<lparr>last_logged := []\<rparr>"

definition throttle_clone :: "LogThrottler \<Rightarrow> LogThrottler" where
  "throttle_clone t = \<lparr>last_logged = [], throttle_interval = throttle_interval t\<rparr>"

definition throttle_default :: LogThrottler where
  "throttle_default = with_secs 5"

text \<open>
  Threads: a thread that passed the first look with reading \<open>now\<close> is waiting; the log is
  the list of lines emitted, latest first.
\<close>

type_synonym throttle_state = "LogThrottler \<times> (nat \<times> string) multiset \<times> (string \<times> nat) list"

inductive throttle_step :: "throttle_state \<Rightarrow> throttle_state \<Rightarrow> bool" where
  look: "\<not> recently_logged now key t \<Longrightarrow> throttle_step (t, W, es) (t, add_mset (now, key) W, es)"
| decide: "should_log_write now key t = (ok, t') \<Longrightarrow>
    throttle_step (t, add_mset (now, key) W, es) (t', W, if ok then (key, now) # es else es)"

definition spaced :: "nat \<Rightarrow> (string \<times> nat) list \<Rightarrow> bool" where
  "spaced d es \<longleftrightarrow> sorted_wrt (\<lambda>(k, n) (k', n'). k = k' \<longrightarrow> n' + d \<le> n) es"

definition throttle_inv :: "nat \<Rightarrow> throttle_state \<Rightarrow> bool" where
  "throttle_inv d s \<longleftrightarrow> (case s of (t, W, es) \<Rightarrow>
     hm_wf (last_logged t) \<and> throttle_interval t = d \<and> spaced d es \<and>
     (\<forall>k n. (k, n) \<in> set es \<longrightarrow> (\<exists>l. hm_get (last_logged t) k = Some l \<and> n \<le> l)))"

lemma throttle_step_inv: "throttle_step s s' \<Longrightarrow> 0 < d \<Longrightarrow> throttle_inv d s \<Longrightarrow> throttle_inv d s'"
proof (induction rule: throttle_step.induct)
  case (look now key t W es)
  then show ?case by (simp add: throttle_inv_def)
next
  case (decide now key t ok t' W es)
  have inv: "hm_wf (last_logged t)" "throttle_interval t = d" "spaced d es"
    and last: "\<And>k n. (k, n) \<in> set es \<Longrightarrow> \<exists>l. hm_get (last_logged t) k = Some l \<and> n \<le> l"
    using decide.prems by (auto simp: throttle_inv_def)
  show ?case
  proof (cases "recently_logged now key t")
    case True
    then show ?thesis using decide by (auto simp: should_log_write_def throttle_inv_def)
  next
    case False
    then have t': "ok" "t' = t\<lparr>last_logged := hm_insert key now (last_logged t)\<rparr>"
      using decide.hyps by (auto simp: should_log_write_def)
    have gap: "n + d \<le> now" if "(key, n) \<in> set es" for n
      using last [OF that] False inv(2) \<open>0 < d\<close> by (auto simp: recently_logged_def)
    then have "spaced d ((key, now) # es)"
      using inv(3) by (auto simp: spaced_def)
    moreover have "\<exists>l. hm_get (last_logged t') k = Some l \<and> n \<le> l" if "(k, n) \<in> set ((key, now) # es)" for k n
      using that last [of k n] gap [of n] inv(1) t'(2) by (auto simp: hm_gets)
    ultimately show ?thesis
      using inv t' by (simp add: throttle_inv_def)
  qed
qed

lemma throttle_runs_inv:
  "throttle_step\<^sup>*\<^sup>* s s' \<Longrightarrow> 0 < d \<Longrightarrow> throttle_inv d s \<Longrightarrow> throttle_inv d s'"
  by (induction rule: rtranclp_induct) (auto intro: throttle_step_inv)

section \<open>Properties\<close>

text \<open>C24: Over any sequence of operations at non-decreasing times, the sessions that \<open>get\<close> can
  return are exactly those of the abstract view: a session lives from its creation or
  last extension for the configured time, unless it, all, or all others were deleted or a
  single-session login replaced it.\<close>

theorem session_store_refines_view:
  assumes "sorted (n0 # map fst ops @ [t])"
  shows "fst (sessions_get t sid (store_run ops (SessionStore_new ttl))) =
    age t (view_run (ttl * NANOS) ops Map.empty) sid"
proof -
  have "live n0 (SessionStore_new ttl) = age n0 Map.empty"
    by (rule ext) (simp add: live_get age_def SessionStore_new_def hm_gets)
  then have "live t (store_run ops (SessionStore_new ttl)) = age t (view_run (ttl * NANOS) ops Map.empty)"
    using store_run_refines [of "SessionStore_new ttl" n0 ops t] assms
    by (simp add: SessionStore_new_def store_wf_def)
  moreover have "fst (sessions_get t sid st) = live t st sid" for st
    by (simp add: sessions_get_def live_get split: option.split)
  ultimately show ?thesis by simp
qed

theorem session_store_refines_view_witness:
  "fst (sessions_get 5 ''a'' (store_run [(1, OpLogin ''a'' ''u'' False), (3, OpLogin ''b'' ''u'' False)]
     (SessionStore_new 60))) = None"
  using session_store_refines_view [of 0 "[(1, OpLogin ''a'' ''u'' False), (3, OpLogin ''b'' ''u'' False)]" 5 "''a''" 60]
  by (simp add: view_run_def age_def)

text \<open>The identifiers that a login or a revocation reports as revoked are exactly the stored
  sessions it removed, and when only one session is allowed the new one is the only one
  left.\<close>

theorem revocation_exact:
  assumes "store_wf st" and "hm_get (sessions_inner st) uuid = None"
  shows "(case create_for_login now uuid user multi st of ((s, revoked), st') \<Rightarrow>
      distinct revoked \<and> set revoked = set (list_ids st) - set (list_ids st') \<and>
      session_user s = user \<and> hm_get (sessions_inner st') uuid = Some s \<and>
      (\<not> multi \<longrightarrow> set (list_ids st') = {uuid})) \<and>
    (case delete_all_except sid st of (revoked, st') \<Rightarrow>
      distinct revoked \<and> set revoked = set (list_ids st) - {sid} \<and>
      set (list_ids st') = set (list_ids st) \<inter> {sid})"
proof -
  have wf: "hm_wf (sessions_inner st)" using assms(1) by (simp add: store_wf_def)
  have fresh: "uuid \<notin> set (hm_keys (sessions_inner st))" using assms(2) by (simp add: hm.set_keys)
  have ret: "set (hm_keys (hm_retain (\<lambda>i _. i = sid) (sessions_inner st))) = set (hm_keys (sessions_inner st)) \<inter> {sid}"
    using wf by (auto simp: hm.set_keys hm_gets split: option.splits)
  let ?s = "new_session now uuid user st"
  let ?m = "hm_insert uuid ?s (if multi then sessions_inner st else [])"
  have login: "create_for_login now uuid user multi st =
      ((?s, if multi then [] else hm_keys (sessions_inner st)), st\<lparr>sessions_inner := ?m\<rparr>)"
    by (simp add: create_for_login_def Let_def new_session_def)
  have m: "set (hm_keys ?m) = {uuid} \<union> (if multi then set (hm_keys (sessions_inner st)) else {})"
    "hm_get ?m uuid = Some ?s"
    using wf by (simp_all add: hm.keys_insert hm_gets)
  show ?thesis
  proof
    show "case create_for_login now uuid user multi st of ((s, revoked), st') \<Rightarrow>
      distinct revoked \<and> set revoked = set (list_ids st) - set (list_ids st') \<and>
      session_user s = user \<and> hm_get (sessions_inner st') uuid = Some s \<and>
      (\<not> multi \<longrightarrow> set (list_ids st') = {uuid})"
      unfolding login using m fresh hm.distinct_keys [OF wf]
      by (cases multi) (auto simp: list_ids_def new_session_def)
    show "case delete_all_except sid st of (revoked, st') \<Rightarrow>
      distinct revoked \<and> set revoked = set (list_ids st) - {sid} \<and>
      set (list_ids st') = set (list_ids st) \<inter> {sid}"
      using ret hm.distinct_keys [OF wf] by (auto simp: delete_all_except_def list_ids_def)
  qed
qed

theorem revocation_exact_witness:
  "set (list_ids (snd (create_for_login 9 ''n'' ''u'' False (snd (sessions_create 1 ''o'' ''u'' (SessionStore_new 60)))))) = {''n''}"
proof -
  have "store_wf (snd (sessions_create 1 ''o'' ''u'' (SessionStore_new 60)))"
    "hm_get (sessions_inner (snd (sessions_create 1 ''o'' ''u'' (SessionStore_new 60)))) ''n'' = None"
    by (simp_all add: store_wf_def sessions_create_def new_session_def SessionStore_new_def hm_gets Let_def)
  from revocation_exact [OF this, where now = 9 and user = "''u''" and multi = False] show ?thesis by (simp add: case_prod_beta)
qed

text \<open>However threads interleave, two emitted lines with one key are at least the interval
  apart, as long as the key is not cleared.\<close>

theorem throttle_spacing:
  assumes "throttle_step\<^sup>*\<^sup>* (LogThrottler_new d, {#}, []) (t, W, es)" and "0 < d"
  shows "sorted_wrt (\<lambda>(k, n) (k', n'). k = k' \<longrightarrow> n' + d \<le> n) es"
  using throttle_runs_inv [OF assms] by (simp add: throttle_inv_def LogThrottler_new_def spaced_def)


theorem throttle_spacing_witness:
  "sorted_wrt (\<lambda>(k, n) (k', n'). k = k' \<longrightarrow> n' + 10 \<le> n) [(''a'', 15 :: nat), (''a'', 5)]"
proof -
  let ?t0 = "LogThrottler_new 10"
  let ?t1 = "snd (should_log_write 5 ''a'' ?t0)"
  let ?t2 = "snd (should_log_write 15 ''a'' ?t1)"
  have "throttle_step (?t0, {#}, []) (?t0, add_mset (5, ''a'') {#}, [])"
    by (rule look) (simp add: recently_logged_def LogThrottler_new_def hm_gets)
  moreover have "throttle_step (?t0, add_mset (5, ''a'') {#}, []) (?t1, {#}, [(''a'', 5)])"
    using decide [of 5 "''a''" ?t0 True ?t1 "{#}" "[]"]
    by (simp add: should_log_write_def recently_logged_def LogThrottler_new_def hm_gets)
  moreover have "throttle_step (?t1, {#}, [(''a'', 5)]) (?t1, add_mset (15, ''a'') {#}, [(''a'', 5)])"
    by (rule look) (simp add: should_log_write_def recently_logged_def LogThrottler_new_def hm_gets)
  moreover have "throttle_step (?t1, add_mset (15, ''a'') {#}, [(''a'', 5)]) (?t2, {#}, [(''a'', 15), (''a'', 5)])"
    using decide [of 15 "''a''" ?t1 True ?t2 "{#}" "[(''a'', 5)]"]
    by (simp add: should_log_write_def recently_logged_def LogThrottler_new_def hm_gets)
  ultimately have "throttle_step\<^sup>*\<^sup>* (?t0, {#}, []) (?t2, {#}, [(''a'', 15), (''a'', 5)])"
    by (meson rtranclp.rtrancl_refl rtranclp.rtrancl_into_rtrancl)
  from throttle_spacing [OF this] show ?thesis by simp
qed

end
