(* ===== verification/AppErrors.thy ===== *)
theory AppErrors
  imports Prelude
begin

text \<open>
  The error type of the program, \<open>error.rs\<close>, and its translation to an HTTP answer,
  \<open>web/error.rs\<close>.  Payloads of foreign error types (\<open>std::io::Error\<close>,
  \<open>serde_json::Error\<close>) are kept as their displayed text.
\<close>

section \<open>Virtual media errors\<close>

datatype MsdErrorCode =
    MsdUnavailable
  | MsdOperationInProgress
  | MsdOperationFailed
  | MsdInvalidRequest
  | MsdResourceNotFound
  | MsdResourceAlreadyExists
  | MsdMediaSlotsFull
  | MsdMediaAlreadyMounted
  | MsdMediaInUse
  | MsdImageTooLarge
  | MsdInvalidUrl
  | MsdRemoteDownloadFailed
  | MsdDownloadIncomplete
  | MsdDriveNotInitialized
  | MsdDriveConnected
  | MsdDriveFilesystemUnsupported
  | MsdDriveSizeInvalid
  | MsdStorageSpaceUnavailable
  | MsdStorageFull
  | MsdStorageReadOnly
  | MsdStoragePermissionDenied
  | MsdMediumRemovalPrevented
  | MsdDisconnectFailed

definition MsdErrorCode_ALL :: "MsdErrorCode list" where
  "MsdErrorCode_ALL =
    [MsdUnavailable,
     MsdOperationInProgress,
     MsdOperationFailed,
     MsdInvalidRequest,
     MsdResourceNotFound,
     MsdResourceAlreadyExists,
     MsdMediaSlotsFull,
     MsdMediaAlreadyMounted,
     MsdMediaInUse,
     MsdImageTooLarge,
     MsdInvalidUrl,
     MsdRemoteDownloadFailed,
     MsdDownloadIncomplete,
     MsdDriveNotInitialized,
     MsdDriveConnected,
     MsdDriveFilesystemUnsupported,
     MsdDriveSizeInvalid,
     MsdStorageSpaceUnavailable,
     MsdStorageFull,
     MsdStorageReadOnly,
     MsdStoragePermissionDenied,
     MsdMediumRemovalPrevented,
     MsdDisconnectFailed]"

primrec msd_as_str :: "MsdErrorCode \<Rightarrow> string" where
  "msd_as_str MsdUnavailable = ''MSD_UNAVAILABLE''"
| "msd_as_str MsdOperationInProgress = ''MSD_OPERATION_IN_PROGRESS''"
| "msd_as_str MsdOperationFailed = ''MSD_OPERATION_FAILED''"
| "msd_as_str MsdInvalidRequest = ''MSD_INVALID_REQUEST''"
| "msd_as_str MsdResourceNotFound = ''MSD_RESOURCE_NOT_FOUND''"
| "msd_as_str MsdResourceAlreadyExists = ''MSD_RESOURCE_ALREADY_EXISTS''"
| "msd_as_str MsdMediaSlotsFull = ''MSD_MEDIA_SLOTS_FULL''"
| "msd_as_str MsdMediaAlreadyMounted = ''MSD_MEDIA_ALREADY_MOUNTED''"
| "msd_as_str MsdMediaInUse = ''MSD_MEDIA_IN_USE''"
| "msd_as_str MsdImageTooLarge = ''MSD_IMAGE_TOO_LARGE''"
| "msd_as_str MsdInvalidUrl = ''MSD_INVALID_URL''"
| "msd_as_str MsdRemoteDownloadFailed = ''MSD_REMOTE_DOWNLOAD_FAILED''"
| "msd_as_str MsdDownloadIncomplete = ''MSD_DOWNLOAD_INCOMPLETE''"
| "msd_as_str MsdDriveNotInitialized = ''MSD_DRIVE_NOT_INITIALIZED''"
| "msd_as_str MsdDriveConnected = ''MSD_DRIVE_CONNECTED''"
| "msd_as_str MsdDriveFilesystemUnsupported = ''MSD_DRIVE_FILESYSTEM_UNSUPPORTED''"
| "msd_as_str MsdDriveSizeInvalid = ''MSD_DRIVE_SIZE_INVALID''"
| "msd_as_str MsdStorageSpaceUnavailable = ''MSD_STORAGE_SPACE_UNAVAILABLE''"
| "msd_as_str MsdStorageFull = ''MSD_STORAGE_FULL''"
| "msd_as_str MsdStorageReadOnly = ''MSD_STORAGE_READ_ONLY''"
| "msd_as_str MsdStoragePermissionDenied = ''MSD_STORAGE_PERMISSION_DENIED''"
| "msd_as_str MsdMediumRemovalPrevented = ''MSD_MEDIUM_REMOVAL_PREVENTED''"
| "msd_as_str MsdDisconnectFailed = ''MSD_DISCONNECT_FAILED''"

primrec msd_message :: "MsdErrorCode \<Rightarrow> string" where
  "msd_message MsdUnavailable = ''Virtual media service is unavailable.''"
| "msd_message MsdOperationInProgress = ''Another virtual media operation is in progress.''"
| "msd_message MsdOperationFailed = ''The virtual media operation failed.''"
| "msd_message MsdInvalidRequest = ''The virtual media request is invalid.''"
| "msd_message MsdResourceNotFound = ''The requested virtual media resource was not found.''"
| "msd_message MsdResourceAlreadyExists = ''The virtual media resource already exists.''"
| "msd_message MsdMediaSlotsFull = ''All virtual media slots are in use.''"
| "msd_message MsdMediaAlreadyMounted = ''The virtual medium is already mounted.''"
| "msd_message MsdMediaInUse = ''The virtual medium is currently in use.''"
| "msd_message MsdImageTooLarge = ''The virtual media image is too large.''"
| "msd_message MsdInvalidUrl = ''The download URL is invalid.''"
| "msd_message MsdRemoteDownloadFailed = ''The remote image download failed.''"
| "msd_message MsdDownloadIncomplete = ''The remote image download was incomplete.''"
| "msd_message MsdDriveNotInitialized = ''The virtual drive is not initialized.''"
| "msd_message MsdDriveConnected = ''The virtual drive is connected to the controlled computer.''"
| "msd_message MsdDriveFilesystemUnsupported = ''The virtual drive filesystem is unsupported.''"
| "msd_message MsdDriveSizeInvalid = ''The virtual drive size is invalid.''"
| "msd_message MsdStorageSpaceUnavailable = ''Available virtual media storage space could not be determined.''"
| "msd_message MsdStorageFull = ''Virtual media storage does not have enough free space.''"
| "msd_message MsdStorageReadOnly = ''Virtual media storage is read-only.''"
| "msd_message MsdStoragePermissionDenied = ''Permission to access virtual media storage was denied.''"
| "msd_message MsdMediumRemovalPrevented = ''The controlled computer prevented removal of the virtual medium.''"
| "msd_message MsdDisconnectFailed = ''The virtual medium could not be disconnected.''"

primrec msd_redfish_key :: "MsdErrorCode \<Rightarrow> string" where
  "msd_redfish_key MsdUnavailable = ''MsdUnavailable''"
| "msd_redfish_key MsdOperationInProgress = ''MsdOperationInProgress''"
| "msd_redfish_key MsdOperationFailed = ''MsdOperationFailed''"
| "msd_redfish_key MsdInvalidRequest = ''MsdInvalidRequest''"
| "msd_redfish_key MsdResourceNotFound = ''MsdResourceNotFound''"
| "msd_redfish_key MsdResourceAlreadyExists = ''MsdResourceAlreadyExists''"
| "msd_redfish_key MsdMediaSlotsFull = ''MsdMediaSlotsFull''"
| "msd_redfish_key MsdMediaAlreadyMounted = ''MsdMediaAlreadyMounted''"
| "msd_redfish_key MsdMediaInUse = ''MsdMediaInUse''"
| "msd_redfish_key MsdImageTooLarge = ''MsdImageTooLarge''"
| "msd_redfish_key MsdInvalidUrl = ''MsdInvalidUrl''"
| "msd_redfish_key MsdRemoteDownloadFailed = ''MsdRemoteDownloadFailed''"
| "msd_redfish_key MsdDownloadIncomplete = ''MsdDownloadIncomplete''"
| "msd_redfish_key MsdDriveNotInitialized = ''MsdDriveNotInitialized''"
| "msd_redfish_key MsdDriveConnected = ''MsdDriveConnected''"
| "msd_redfish_key MsdDriveFilesystemUnsupported = ''MsdDriveFilesystemUnsupported''"
| "msd_redfish_key MsdDriveSizeInvalid = ''MsdDriveSizeInvalid''"
| "msd_redfish_key MsdStorageSpaceUnavailable = ''MsdStorageSpaceUnavailable''"
| "msd_redfish_key MsdStorageFull = ''MsdStorageFull''"
| "msd_redfish_key MsdStorageReadOnly = ''MsdStorageReadOnly''"
| "msd_redfish_key MsdStoragePermissionDenied = ''MsdStoragePermissionDenied''"
| "msd_redfish_key MsdMediumRemovalPrevented = ''MsdMediumRemovalPrevented''"
| "msd_redfish_key MsdDisconnectFailed = ''MsdDisconnectFailed''"

fun msd_severity :: "MsdErrorCode \<Rightarrow> string" where
  "msd_severity MsdUnavailable = ''Critical''"
| "msd_severity MsdOperationFailed = ''Critical''"
| "msd_severity MsdDisconnectFailed = ''Critical''"
| "msd_severity _ = ''Warning''"

primrec msd_resolution :: "MsdErrorCode \<Rightarrow> string" where
  "msd_resolution MsdUnavailable = ''Enable or restore the virtual media service, then retry.''"
| "msd_resolution MsdOperationInProgress = ''Wait for the current virtual media operation to finish, then retry.''"
| "msd_resolution MsdOperationFailed = ''Retry the operation. If the problem persists, check the One-KVM system logs.''"
| "msd_resolution MsdInvalidRequest = ''Correct the request and retry.''"
| "msd_resolution MsdResourceNotFound = ''Verify that the requested virtual media resource exists, then retry.''"
| "msd_resolution MsdResourceAlreadyExists = ''Use a different resource name or remove the existing resource, then retry.''"
| "msd_resolution MsdMediaSlotsFull = ''Eject an inserted virtual medium, then retry.''"
| "msd_resolution MsdMediaAlreadyMounted = ''Eject the existing virtual medium before mounting it again.''"
| "msd_resolution MsdMediaInUse = ''Eject or unmount the virtual medium on the controlled computer, then retry.''"
| "msd_resolution MsdImageTooLarge = ''Use a supported image or virtual drive size, then retry.''"
| "msd_resolution MsdInvalidUrl = ''Correct the request and retry.''"
| "msd_resolution MsdRemoteDownloadFailed = ''Verify the remote server and network connection, then retry.''"
| "msd_resolution MsdDownloadIncomplete = ''Verify the remote server and network connection, then retry.''"
| "msd_resolution MsdDriveNotInitialized = ''Verify that the requested virtual media resource exists, then retry.''"
| "msd_resolution MsdDriveConnected = ''Eject or unmount the virtual medium on the controlled computer, then retry.''"
| "msd_resolution MsdDriveFilesystemUnsupported = ''Reinitialize the virtual drive with a supported filesystem, then retry.''"
| "msd_resolution MsdDriveSizeInvalid = ''Use a supported image or virtual drive size, then retry.''"
| "msd_resolution MsdStorageSpaceUnavailable = ''Verify that virtual media storage is available, then retry.''"
| "msd_resolution MsdStorageFull = ''Free space in virtual media storage or select a smaller image, then retry.''"
| "msd_resolution MsdStorageReadOnly = ''Make virtual media storage writable, then retry.''"
| "msd_resolution MsdStoragePermissionDenied = ''Correct virtual media storage permissions, then retry.''"
| "msd_resolution MsdMediumRemovalPrevented = ''Eject or unmount the virtual medium on the controlled computer, then retry.''"
| "msd_resolution MsdDisconnectFailed = ''Retry the operation. If the problem persists, check the One-KVM system logs.''"

section \<open>Application errors\<close>

datatype AppError =
    AuthError string
  | Unauthorized
  | NotFound string
  | BadRequest string
  | Conflict string
  | RateLimited string
  | Persistence string
  | Internal string
  | Msd MsdErrorCode
  | Config string
  | Io string
  | Serialization string
  | VideoError string
  | CaptureNoSignal string
  | AudioError string
  | HidError string string string
  | WebRtcError string
  | ServiceUnavailable string

type_synonym 'a app_result = "AppError + 'a"

text \<open>The \<open>Display\<close> text that \<open>thiserror\<close> derives from the attributes of the variants.\<close>

primrec AppError_fmt :: "AppError \<Rightarrow> string" where
  "AppError_fmt (AuthError s) = ''Authentication failed: '' @ s"
| "AppError_fmt Unauthorized = ''Not authenticated''"
| "AppError_fmt (NotFound s) = ''Not found: '' @ s"
| "AppError_fmt (BadRequest s) = ''Bad request: '' @ s"
| "AppError_fmt (Conflict s) = ''Conflict: '' @ s"
| "AppError_fmt (RateLimited s) = ''Too many attempts: '' @ s"
| "AppError_fmt (Persistence s) = ''Persistence error: '' @ s"
| "AppError_fmt (Internal s) = ''Internal error: '' @ s"
| "AppError_fmt (Msd code) = msd_message code"
| "AppError_fmt (Config s) = ''Configuration error: '' @ s"
| "AppError_fmt (Io s) = ''IO error: '' @ s"
| "AppError_fmt (Serialization s) = ''Serialization error: '' @ s"
| "AppError_fmt (VideoError s) = ''Video error: '' @ s"
| "AppError_fmt (CaptureNoSignal kind) = ''Capture has no valid signal: '' @ kind"
| "AppError_fmt (AudioError s) = ''Audio error: '' @ s"
| "AppError_fmt (HidError backend reason code) =
     ''HID error ['' @ backend @ '']: '' @ reason @ '' (code: '' @ code @ '')''"
| "AppError_fmt (WebRtcError s) = ''WebRTC error: '' @ s"
| "AppError_fmt (ServiceUnavailable s) = ''Service unavailable: '' @ s"

section \<open>HTTP answers\<close>

definition UNAUTHORIZED :: nat where "UNAUTHORIZED = 401"
definition BAD_REQUEST :: nat where "BAD_REQUEST = 400"
definition CONFLICT :: nat where "CONFLICT = 409"
definition TOO_MANY_REQUESTS :: nat where "TOO_MANY_REQUESTS = 429"
definition NOT_FOUND :: nat where "NOT_FOUND = 404"
definition SERVICE_UNAVAILABLE :: nat where "SERVICE_UNAVAILABLE = 503"
definition INTERNAL_SERVER_ERROR :: nat where "INTERNAL_SERVER_ERROR = 500"

lemmas status_consts =
  UNAUTHORIZED_def BAD_REQUEST_def CONFLICT_def TOO_MANY_REQUESTS_def NOT_FOUND_def
  SERVICE_UNAVAILABLE_def INTERNAL_SERVER_ERROR_def

primrec msd_status_code :: "MsdErrorCode \<Rightarrow> nat" where
  "msd_status_code MsdUnavailable = SERVICE_UNAVAILABLE"
| "msd_status_code MsdOperationInProgress = CONFLICT"
| "msd_status_code MsdOperationFailed = INTERNAL_SERVER_ERROR"
| "msd_status_code MsdInvalidRequest = BAD_REQUEST"
| "msd_status_code MsdResourceNotFound = NOT_FOUND"
| "msd_status_code MsdResourceAlreadyExists = CONFLICT"
| "msd_status_code MsdMediaSlotsFull = CONFLICT"
| "msd_status_code MsdMediaAlreadyMounted = CONFLICT"
| "msd_status_code MsdMediaInUse = CONFLICT"
| "msd_status_code MsdImageTooLarge = BAD_REQUEST"
| "msd_status_code MsdInvalidUrl = BAD_REQUEST"
| "msd_status_code MsdRemoteDownloadFailed = INTERNAL_SERVER_ERROR"
| "msd_status_code MsdDownloadIncomplete = INTERNAL_SERVER_ERROR"
| "msd_status_code MsdDriveNotInitialized = NOT_FOUND"
| "msd_status_code MsdDriveConnected = CONFLICT"
| "msd_status_code MsdDriveFilesystemUnsupported = BAD_REQUEST"
| "msd_status_code MsdDriveSizeInvalid = BAD_REQUEST"
| "msd_status_code MsdStorageSpaceUnavailable = BAD_REQUEST"
| "msd_status_code MsdStorageFull = BAD_REQUEST"
| "msd_status_code MsdStorageReadOnly = BAD_REQUEST"
| "msd_status_code MsdStoragePermissionDenied = BAD_REQUEST"
| "msd_status_code MsdMediumRemovalPrevented = CONFLICT"
| "msd_status_code MsdDisconnectFailed = INTERNAL_SERVER_ERROR"

fun status_code :: "AppError \<Rightarrow> nat" where
  "status_code (AuthError _) = UNAUTHORIZED"
| "status_code Unauthorized = UNAUTHORIZED"
| "status_code (BadRequest _) = BAD_REQUEST"
| "status_code (Conflict _) = CONFLICT"
| "status_code (RateLimited _) = TOO_MANY_REQUESTS"
| "status_code (NotFound _) = NOT_FOUND"
| "status_code (ServiceUnavailable _) = SERVICE_UNAVAILABLE"
| "status_code (Msd code) = msd_status_code code"
| "status_code _ = INTERNAL_SERVER_ERROR"

fun http_error_code :: "AppError \<Rightarrow> string option" where
  "http_error_code (Msd code) = Some (msd_as_str code)"
| "http_error_code _ = None"

fun public_message :: "AppError \<Rightarrow> string" where
  "public_message (Msd code) = msd_message code"
| "public_message error = AppError_fmt error"

record ErrorResponse =
  er_success :: bool
  er_code :: "string option"
  er_message :: string

definition into_response :: "AppError \<Rightarrow> nat \<times> ErrorResponse" where
  "into_response error =
     (status_code error,
      \<lparr>er_success = False, er_code = http_error_code error, er_message = public_message error\<rparr>)"

section \<open>Lemmas\<close>

lemma MsdErrorCode_ALL_complete: "c \<in> set MsdErrorCode_ALL"
  by (cases c) (simp_all add: MsdErrorCode_ALL_def)

lemma MsdErrorCode_ALL_distinct: "distinct MsdErrorCode_ALL"
  by (simp add: MsdErrorCode_ALL_def)

text \<open>The stable codes identify the error.\<close>

lemma msd_as_str_inj: "msd_as_str a = msd_as_str b \<longleftrightarrow> a = b"
  by (cases a; cases b) simp_all

lemma msd_redfish_key_inj: "msd_redfish_key a = msd_redfish_key b \<longleftrightarrow> a = b"
  by (cases a; cases b) simp_all

text \<open>No path, which would contain a slash, is in the public text of a media error.\<close>

lemma msd_message_no_slash: "CHR ''/'' \<notin> set (msd_message c)"
  by (cases c) simp_all

lemma status_code_is_error: "400 \<le> status_code e \<and> status_code e < 600"
proof (cases e)
  case (Msd c)
  then show ?thesis by (cases c) (simp_all add: status_consts)
qed (simp_all add: status_consts)

section \<open>Properties\<close>

text \<open>C19: No two error codes of the virtual media share a wire name or a Redfish key, every code
  is listed once, and no public message of one leaks a path; every error becomes a
  response in the 4xx--5xx range whose body reports a failure, carrying the stable code
  of a virtual media error and no code otherwise.\<close>

theorem error_responses_distinguish:
  "(msd_as_str a = msd_as_str b \<longleftrightarrow> a = b) \<and> (msd_redfish_key a = msd_redfish_key b \<longleftrightarrow> a = b) \<and>
   count_list MsdErrorCode_ALL a = 1 \<and> CHR ''/'' \<notin> set (er_message (snd (into_response (Msd a)))) \<and>
   400 \<le> fst (into_response e) \<and> fst (into_response e) < 600 \<and> \<not> er_success (snd (into_response e)) \<and>
   (er_code (snd (into_response e)) = Some (msd_as_str a) \<longleftrightarrow> e = Msd a)"
proof -
  have "count_list MsdErrorCode_ALL a = 1"
    by (cases a) (simp_all add: MsdErrorCode_ALL_def)
  moreover have "http_error_code e = Some (msd_as_str a) \<longleftrightarrow> e = Msd a"
    by (cases e) (simp_all add: msd_as_str_inj)
  ultimately show ?thesis
    using status_code_is_error [of e]
    by (simp add: into_response_def msd_as_str_inj msd_redfish_key_inj msd_message_no_slash)
qed

end
