(* ===== verification/StateError.thy ===== *)
theory StateError
  imports AppErrors HashMaps
begin

text \<open>
  Operations that change a state and may fail: \<open>'s\<close> to a result and the new state, with
  the \<open>?\<close> operator as \<open>sx_bind\<close>.  A failed operation keeps the changes made before it
  failed, as the source does.  \<open>sx_zoom\<close> runs an operation of a component on the field
  of a larger state.  The lemmas of the collection \<open>sx_simps\<close> evaluate such programs.
\<close>

type_synonym ('e, 's, 'a) rx = "'s \<Rightarrow> ('e + 'a) \<times> 's"

type_synonym ('s, 'a) sx = "(AppError, 's, 'a) rx"

named_theorems sx_simps

definition sx_return :: "'a \<Rightarrow> ('e, 's, 'a) rx" where
  "sx_return a s = (Inr a, s)"

definition sx_fail :: "'e \<Rightarrow> ('e, 's, 'a) rx" where
  "sx_fail e s = (Inl e, s)"

definition sx_bind :: "('e, 's, 'a) rx \<Rightarrow> ('a \<Rightarrow> ('e, 's, 'b) rx) \<Rightarrow> ('e, 's, 'b) rx" where
  "sx_bind m f s = (case m s of (Inl e, s') \<Rightarrow> (Inl e, s') | (Inr a, s') \<Rightarrow> f a s')"

definition sx_lift :: "'e + 'a \<Rightarrow> ('e, 's, 'a) rx" where
  "sx_lift r s = (r, s)"

definition sx_update :: "('s \<Rightarrow> 's) \<Rightarrow> ('e, 's, unit) rx" where
  "sx_update f s = (Inr (), f s)"

definition sx_read :: "('s \<Rightarrow> 'a) \<Rightarrow> ('e, 's, 'a) rx" where
  "sx_read f s = (Inr (f s), s)"

definition sx_ok_or :: "'e \<Rightarrow> 'a option \<Rightarrow> ('e, 's, 'a) rx" where
  "sx_ok_or e r s = ((case r of None \<Rightarrow> Inl e | Some a \<Rightarrow> Inr a), s)"

definition sx_zoom :: "('s \<Rightarrow> 't) \<Rightarrow> ('t \<Rightarrow> 's \<Rightarrow> 's) \<Rightarrow> ('e, 't, 'a) rx \<Rightarrow> ('e, 's, 'a) rx" where
  "sx_zoom get put m s = (case m (get s) of (r, t) \<Rightarrow> (r, put t s))"

lemma sx_apply [sx_simps]:
  "sx_return a s = (Inr a, s)" "sx_fail e s = (Inl e, s)" "sx_lift r s = (r, s)"
  "sx_update f s = (Inr (), f s)" "sx_read g s = (Inr (g s), s)"
  "sx_ok_or e o1 s = ((case o1 of None \<Rightarrow> Inl e | Some a \<Rightarrow> Inr a), s)"
  by (simp_all add: sx_return_def sx_fail_def sx_lift_def sx_update_def sx_read_def sx_ok_or_def)

lemma sx_bind_apply [sx_simps]:
  "sx_bind m f s = (case m s of (Inl e, s') \<Rightarrow> (Inl e, s') | (Inr a, s') \<Rightarrow> f a s')"
  by (simp add: sx_bind_def)

lemma sx_bind_Inr: "sx_bind m f s = (Inr b, s'') \<longleftrightarrow> (\<exists>a s'. m s = (Inr a, s') \<and> f a s' = (Inr b, s''))"
  by (auto simp: sx_bind_def split: prod.splits sum.splits)

lemma sx_Inr:
  "sx_return a s = (Inr b, s') \<longleftrightarrow> a = b \<and> s' = s" "sx_fail e s = (Inr b, s') \<longleftrightarrow> False"
  "sx_lift r s = (Inr b, s') \<longleftrightarrow> r = Inr b \<and> s' = s" "sx_update f s = (Inr u, s') \<longleftrightarrow> s' = f s"
  "sx_read g s = (Inr b, s') \<longleftrightarrow> b = g s \<and> s' = s" "sx_ok_or e o1 s = (Inr b, s') \<longleftrightarrow> o1 = Some b \<and> s' = s"
  by (auto simp: sx_apply split: option.splits)

text \<open>An invariant that every part keeps is kept by the whole, also when it fails.\<close>

definition sx_keeps :: "('s \<Rightarrow> bool) \<Rightarrow> ('e, 's, 'a) rx \<Rightarrow> bool" where
  "sx_keeps I m \<longleftrightarrow> (\<forall>s. I s \<longrightarrow> I (snd (m s)))"

named_theorems sx_keeps_intros

lemma sx_keeps_basic [sx_keeps_intros]:
  "sx_keeps I (sx_return a)" "sx_keeps I (sx_fail e)" "sx_keeps I (sx_lift r)" "sx_keeps I (sx_read g)"
  "sx_keeps I (sx_ok_or e o1)"
  by (simp_all add: sx_keeps_def sx_apply)

lemma sx_keeps_update [sx_keeps_intros]: "(\<And>s. I s \<Longrightarrow> I (f s)) \<Longrightarrow> sx_keeps I (sx_update f)"
  by (simp add: sx_keeps_def sx_apply)

lemma sx_keeps_bind [sx_keeps_intros]:
  assumes "sx_keeps I m" and "\<And>a. sx_keeps I (f a)"
  shows "sx_keeps I (sx_bind m f)"
  unfolding sx_keeps_def
proof (intro allI impI)
  fix s
  assume s: "I s"
  show "I (snd (sx_bind m f s))"
  proof (cases "m s")
    case (Pair r s')
    then have "I s'" using assms(1) s by (auto simp: sx_keeps_def)
    then show ?thesis using Pair assms(2) by (cases r) (auto simp: sx_bind_def sx_keeps_def)
  qed
qed

lemma sx_keeps_if [sx_keeps_intros]: "sx_keeps I m \<Longrightarrow> sx_keeps I m' \<Longrightarrow> sx_keeps I (if b then m else m')"
  by simp

lemma sx_keepsD: "sx_keeps I m \<Longrightarrow> I s \<Longrightarrow> m s = (r, s') \<Longrightarrow> I s'"
  by (metis snd_conv sx_keeps_def)

end
