(* ===== verification/TwoFactor.thy ===== *)
theory TwoFactor
  imports StateError
begin

text \<open>
  The second factor, \<open>auth/two_factor.rs\<close>: login challenges, enrolment, verification of
  codes and the limit on failed attempts.  The table \<open>user_totp_credentials\<close> is a map;
  \<open>db_results\<close> says which of the coming statements fail, and how.  The \<open>totp_rs\<close> crate
  is the record \<open>totp_lib\<close> of the functions the source calls.  Readings of the monotonic
  clock are nanoseconds, and the random identifiers are arguments.  The sections that
  hold a lock are operations of their own, so that interleavings can be stated.
\<close>

section \<open>State\<close>

definition LOGIN_TTL :: nat where "LOGIN_TTL = 5 * 60 * 1000000000"
definition ENROLLMENT_TTL :: nat where "ENROLLMENT_TTL = 10 * 60 * 1000000000"
definition FAILURE_WINDOW :: nat where "FAILURE_WINDOW = 60 * 1000000000"
definition MAX_FAILURES :: nat where "MAX_FAILURES = 5"

record LoginChallenge =
  lc_id :: string
  lc_user_id :: string
  lc_expires_at :: nat
  lc_expires_at_unix_ms :: nat
  lc_failures :: nat

record EnrollmentChallenge =
  ec_id :: string
  ec_user_id :: string
  ec_secret :: string
  ec_expires_at :: nat
  ec_expires_at_unix_ms :: nat
  ec_failures :: nat

record ChallengeInfo =
  ci_id :: string
  ci_expires_at_unix_ms :: nat

record EnrollmentInfo =
  ei_id :: string
  ei_secret :: string
  ei_otpauth_uri :: string
  ei_expires_at_unix_ms :: nat

record TwoFactorService =
  credentials :: "(string, string) hashmap"
  db_results :: "AppError option list"
  login_challenges :: "(string, LoginChallenge) hashmap"
  enrollment_challenges :: "(string, EnrollmentChallenge) hashmap"
  failures :: "(string, nat list) hashmap"

definition TwoFactorService_new :: "(string, string) hashmap \<Rightarrow> AppError option list \<Rightarrow> TwoFactorService" where
  "TwoFactorService_new creds db =
     \<lparr>credentials = creds, db_results = db, login_challenges = [], enrollment_challenges = [], failures = []\<rparr>"

text \<open>The clock readings of one request, in the order they are taken.\<close>

record tf_clock =
  expiry_now :: nat
  limit_now :: nat
  failure_now :: nat
  now_unix_ms :: nat

record 't totp_lib =
  lib_bytes :: "string \<Rightarrow> string + bytes"
  lib_new :: "nat \<Rightarrow> nat \<Rightarrow> nat \<Rightarrow> bytes \<Rightarrow> string \<Rightarrow> string \<Rightarrow> string + 't"
  lib_check :: "'t \<Rightarrow> string \<Rightarrow> nat \<Rightarrow> bool"
  lib_url :: "'t \<Rightarrow> string"

section \<open>Codes\<close>

definition totp :: "'t totp_lib \<Rightarrow> string \<Rightarrow> string \<Rightarrow> 't app_result" where
  "totp lib secret account =
     (let account_name = map (\<lambda>c. if c = CHR '':'' then CHR ''_'' else c) account
      in case lib_bytes lib secret of
           Inl e \<Rightarrow> Inl (Internal e)
         | Inr bs \<Rightarrow>
             (case lib_new lib 6 1 30 bs ''One-KVM'' account_name of
                Inl e \<Rightarrow> Inl (Internal e)
              | Inr t \<Rightarrow> Inr t))"

definition is_ascii_digit :: "char \<Rightarrow> bool" where
  "is_ascii_digit c \<longleftrightarrow> 48 \<le> (of_char c :: nat) \<and> (of_char c :: nat) \<le> 57"

definition validate_code_format :: "string \<Rightarrow> unit app_result" where
  "validate_code_format code =
     (if length code \<noteq> 6 \<or> \<not> list_all is_ascii_digit code
      then Inl (BadRequest ''TOTP code must contain exactly 6 digits'') else Inr ())"

definition verify_at :: "'t totp_lib \<Rightarrow> string \<Rightarrow> string \<Rightarrow> nat \<Rightarrow> bool app_result" where
  "verify_at lib secret code unix_time =
     (case validate_code_format code of
        Inl e \<Rightarrow> Inl e
      | Inr _ \<Rightarrow>
          (case totp lib secret ''user'' of
             Inl e \<Rightarrow> Inl e
           | Inr t \<Rightarrow> Inr (lib_check lib t code unix_time)))"

definition unix_time_secs :: "tf_clock \<Rightarrow> nat" where
  "unix_time_secs clk = now_unix_ms clk div 1000"

text \<open>\<open>saturating_add\<close> on \<open>u64\<close>.\<close>

definition expires_at_unix_ms :: "tf_clock \<Rightarrow> nat \<Rightarrow> nat" where
  "expires_at_unix_ms clk ttl = min (now_unix_ms clk + ttl div 1000000) (2 ^ 64 - 1)"

section \<open>The database\<close>

type_synonym 'a tf = "(TwoFactorService, 'a) sx"

text \<open>A statement: it fails as \<open>db_results\<close> says; afterwards statements succeed.\<close>

definition tf_query :: "unit tf" where
  "tf_query s =
     ((case db_results s of Some e # _ \<Rightarrow> Inl e | _ \<Rightarrow> Inr ()), s\<lparr>db_results := tl (db_results s)\<rparr>)"

definition is_enabled :: "string \<Rightarrow> bool tf" where
  "is_enabled user_id = sx_bind tf_query (\<lambda>_. sx_read (\<lambda>s. hm_get (credentials s) user_id \<noteq> None))"

definition credential_secret :: "string \<Rightarrow> string option tf" where
  "credential_secret user_id = sx_bind tf_query (\<lambda>_. sx_read (\<lambda>s. hm_get (credentials s) user_id))"

section \<open>Failed attempts\<close>

definition enforce_failure_limit :: "nat \<Rightarrow> string \<Rightarrow> unit tf" where
  "enforce_failure_limit now user_id s =
     (let attempts = (case hm_get (failures s) user_id of None \<Rightarrow> [] | Some q \<Rightarrow> q);
          attempts = dropWhile (\<lambda>attempt. now - attempt \<ge> FAILURE_WINDOW) attempts;
          s' = s\<lparr>failures := hm_insert user_id attempts (failures s)\<rparr>
      in if length attempts \<ge> MAX_FAILURES
         then (Inl (RateLimited ''TOTP verification is temporarily limited''), s')
         else (Inr (), s'))"

definition record_failure :: "nat \<Rightarrow> string \<Rightarrow> unit tf" where
  "record_failure now user_id s =
     (let attempts = (case hm_get (failures s) user_id of None \<Rightarrow> [] | Some q \<Rightarrow> q)
      in (Inr (), s\<lparr>failures := hm_insert user_id (attempts @ [now]) (failures s)\<rparr>))"

definition clear_user_challenges :: "string \<Rightarrow> unit tf" where
  "clear_user_challenges user_id s =
     (Inr (), s\<lparr>login_challenges := hm_remove user_id (login_challenges s),
               enrollment_challenges :=
                 hm_retain (\<lambda>_ challenge. ec_user_id challenge \<noteq> user_id) (enrollment_challenges s),
               failures := hm_remove user_id (failures s)\<rparr>)"

section \<open>Login\<close>

definition begin_login :: "tf_clock \<Rightarrow> string \<Rightarrow> string \<Rightarrow> ChallengeInfo option tf" where
  "begin_login clk uuid user_id =
     sx_bind (is_enabled user_id) (\<lambda>enabled.
       if \<not> enabled then sx_return None
       else
         (let challenge =
                \<lparr>lc_id = uuid, lc_user_id = user_id, lc_expires_at = expiry_now clk + LOGIN_TTL,
                 lc_expires_at_unix_ms = expires_at_unix_ms clk LOGIN_TTL, lc_failures = 0\<rparr>;
              info = \<lparr>ci_id = lc_id challenge, ci_expires_at_unix_ms = lc_expires_at_unix_ms challenge\<rparr>
          in sx_bind (sx_update (\<lambda>s. s\<lparr>login_challenges := hm_insert user_id challenge (login_challenges s)\<rparr>))
               (\<lambda>_. sx_return (Some info))))"

definition challenge_expired :: AppError where
  "challenge_expired = AuthError ''TOTP challenge expired''"

definition drop_challenge :: "string \<Rightarrow> unit tf" where
  "drop_challenge user_id = sx_update (\<lambda>s. s\<lparr>login_challenges := hm_remove user_id (login_challenges s)\<rparr>)"

text \<open>The section that finds the challenge.\<close>

definition login_lookup :: "nat \<Rightarrow> string \<Rightarrow> (string \<times> bool) tf" where
  "login_lookup now challenge_id =
     sx_bind (sx_read (\<lambda>s. hm_find (\<lambda>c. lc_id c = challenge_id) (login_challenges s))) (\<lambda>found.
     sx_bind (sx_ok_or challenge_expired found) (\<lambda>challenge.
     sx_return (lc_user_id challenge, now \<ge> lc_expires_at challenge)))"

text \<open>The section that counts a wrong code; the last one removes the challenge.\<close>

definition login_wrong_code :: "string \<Rightarrow> string tf" where
  "login_wrong_code user_id s =
     (case hm_get (login_challenges s) user_id of
        None \<Rightarrow> (Inl (AuthError ''Invalid TOTP code''), s)
      | Some challenge \<Rightarrow>
          (let challenge = challenge\<lparr>lc_failures := lc_failures challenge + 1\<rparr>
           in if lc_failures challenge \<ge> MAX_FAILURES
              then (Inl challenge_expired, s\<lparr>login_challenges := hm_remove user_id (login_challenges s)\<rparr>)
              else (Inl (AuthError ''Invalid TOTP code''),
                    s\<lparr>login_challenges := hm_insert user_id challenge (login_challenges s)\<rparr>)))"

text \<open>The section that consumes the challenge.\<close>

definition login_consume :: "string \<Rightarrow> string \<Rightarrow> string tf" where
  "login_consume user_id challenge_id s =
     (let consumed =
            (case hm_get (login_challenges s) user_id of
               None \<Rightarrow> False
             | Some challenge \<Rightarrow> lc_id challenge = challenge_id);
          s' = s\<lparr>login_challenges := hm_remove user_id (login_challenges s)\<rparr>
      in if \<not> consumed then (Inl challenge_expired, s') else (Inr user_id, s'))"

definition complete_login :: "'t totp_lib \<Rightarrow> tf_clock \<Rightarrow> string \<Rightarrow> string \<Rightarrow> string tf" where
  "complete_login lib clk challenge_id code =
     sx_bind (sx_lift (validate_code_format code)) (\<lambda>_.
     sx_bind (login_lookup (expiry_now clk) challenge_id) (\<lambda>(user_id, expired).
       if expired then sx_bind (drop_challenge user_id) (\<lambda>_. sx_fail challenge_expired)
       else
         sx_bind (enforce_failure_limit (limit_now clk) user_id) (\<lambda>_.
         sx_bind (credential_secret user_id) (\<lambda>secret.
         sx_bind
           (case secret of
              Some secret \<Rightarrow> sx_lift (verify_at lib secret code (unix_time_secs clk))
            | None \<Rightarrow> sx_bind (drop_challenge user_id) (\<lambda>_. sx_fail challenge_expired)) (\<lambda>valid.
           if \<not> valid
           then sx_bind (record_failure (failure_now clk) user_id) (\<lambda>_. login_wrong_code user_id)
           else login_consume user_id challenge_id)))))"

section \<open>Enrolment\<close>

definition enrollment_expired :: AppError where
  "enrollment_expired = AuthError ''TOTP enrollment expired''"

definition drop_enrollment :: "string \<Rightarrow> unit tf" where
  "drop_enrollment sid = sx_update (\<lambda>s. s\<lparr>enrollment_challenges := hm_remove sid (enrollment_challenges s)\<rparr>)"

definition begin_enrollment ::
  "'t totp_lib \<Rightarrow> tf_clock \<Rightarrow> string \<Rightarrow> string \<Rightarrow> string \<Rightarrow> string \<Rightarrow> string \<Rightarrow> EnrollmentInfo tf" where
  "begin_enrollment lib clk uuid generated sid user_id username =
     sx_bind (is_enabled user_id) (\<lambda>enabled.
       if enabled then sx_fail (Conflict ''TOTP is already enabled'')
       else
         sx_bind (sx_lift (totp lib generated username)) (\<lambda>t.
           (let challenge =
                  \<lparr>ec_id = uuid, ec_user_id = user_id, ec_secret = generated,
                   ec_expires_at = expiry_now clk + ENROLLMENT_TTL,
                   ec_expires_at_unix_ms = expires_at_unix_ms clk ENROLLMENT_TTL, ec_failures = 0\<rparr>;
                info =
                  \<lparr>ei_id = ec_id challenge, ei_secret = ec_secret challenge, ei_otpauth_uri = lib_url lib t,
                   ei_expires_at_unix_ms = ec_expires_at_unix_ms challenge\<rparr>
            in sx_bind (sx_update (\<lambda>s. s\<lparr>enrollment_challenges :=
                   hm_insert sid challenge (enrollment_challenges s)\<rparr>))
                 (\<lambda>_. sx_return info))))"

definition enrollment_lookup :: "nat \<Rightarrow> string \<Rightarrow> string \<Rightarrow> string \<Rightarrow> (string \<times> bool) tf" where
  "enrollment_lookup now sid user_id enrollment_id =
     sx_bind (sx_read (\<lambda>s. hm_get (enrollment_challenges s) sid)) (\<lambda>found.
     sx_bind (sx_ok_or enrollment_expired
         (case found of
            None \<Rightarrow> None
          | Some c \<Rightarrow> if ec_id c = enrollment_id \<and> ec_user_id c = user_id then Some c else None)) (\<lambda>challenge.
     sx_return (ec_secret challenge, now \<ge> ec_expires_at challenge)))"

definition enrollment_wrong_code :: "string \<Rightarrow> unit tf" where
  "enrollment_wrong_code sid s =
     (case hm_get (enrollment_challenges s) sid of
        None \<Rightarrow> (Inl (AuthError ''Invalid TOTP code''), s)
      | Some challenge \<Rightarrow>
          (let challenge = challenge\<lparr>ec_failures := ec_failures challenge + 1\<rparr>
           in if ec_failures challenge \<ge> MAX_FAILURES
              then (Inl enrollment_expired, s\<lparr>enrollment_challenges := hm_remove sid (enrollment_challenges s)\<rparr>)
              else (Inl (AuthError ''Invalid TOTP code''),
                    s\<lparr>enrollment_challenges := hm_insert sid challenge (enrollment_challenges s)\<rparr>)))"

text \<open>
  The transaction: \<open>begin\<close>, the \<open>INSERT\<close>, \<open>commit\<close>.  A second row for the user violates the
  primary key; a transaction that is dropped is rolled back.
\<close>

definition insert_credential :: "string \<Rightarrow> string \<Rightarrow> unit tf" where
  "insert_credential user_id secret =
     sx_bind tf_query (\<lambda>_.
     sx_bind tf_query (\<lambda>_.
     sx_bind (sx_read (\<lambda>s. hm_get (credentials s) user_id)) (\<lambda>row.
       if row \<noteq> None then sx_fail (Conflict ''TOTP is already enabled'')
       else
         sx_bind tf_query (\<lambda>_.
         sx_update (\<lambda>s. s\<lparr>credentials := hm_insert user_id secret (credentials s)\<rparr>)))))"

definition confirm_enrollment ::
  "'t totp_lib \<Rightarrow> tf_clock \<Rightarrow> string \<Rightarrow> string \<Rightarrow> string \<Rightarrow> string \<Rightarrow> unit tf" where
  "confirm_enrollment lib clk sid user_id enrollment_id code =
     sx_bind (sx_lift (validate_code_format code)) (\<lambda>_.
     sx_bind (enforce_failure_limit (limit_now clk) user_id) (\<lambda>_.
     sx_bind (enrollment_lookup (expiry_now clk) sid user_id enrollment_id) (\<lambda>(secret, expired).
       if expired then sx_bind (drop_enrollment sid) (\<lambda>_. sx_fail enrollment_expired)
       else
         sx_bind (sx_lift (verify_at lib secret code (unix_time_secs clk))) (\<lambda>valid.
           if \<not> valid
           then sx_bind (record_failure (failure_now clk) user_id) (\<lambda>_. enrollment_wrong_code sid)
           else sx_bind (insert_credential user_id secret) (\<lambda>_. drop_enrollment sid)))))"

section \<open>Switching it off\<close>

text \<open>\<open>DELETE\<close> with the number of rows affected.\<close>

definition delete_credential :: "string \<Rightarrow> nat tf" where
  "delete_credential user_id =
     sx_bind tf_query (\<lambda>_.
     sx_bind (sx_read (\<lambda>s. hm_get (credentials s) user_id)) (\<lambda>row.
     sx_bind (sx_update (\<lambda>s. s\<lparr>credentials := hm_remove user_id (credentials s)\<rparr>)) (\<lambda>_.
     sx_return (if row = None then 0 else 1))))"

definition disable :: "'t totp_lib \<Rightarrow> tf_clock \<Rightarrow> string \<Rightarrow> string \<Rightarrow> unit tf" where
  "disable lib clk user_id code =
     sx_bind (sx_lift (validate_code_format code)) (\<lambda>_.
     sx_bind (enforce_failure_limit (limit_now clk) user_id) (\<lambda>_.
     sx_bind (credential_secret user_id) (\<lambda>row.
     sx_bind (sx_ok_or (Conflict ''TOTP is not enabled'') row) (\<lambda>secret.
     sx_bind (sx_lift (verify_at lib secret code (unix_time_secs clk))) (\<lambda>valid.
       if \<not> valid
       then sx_bind (record_failure (failure_now clk) user_id) (\<lambda>_. sx_fail (AuthError ''Invalid TOTP code''))
       else
         sx_bind (delete_credential user_id) (\<lambda>rows.
           if rows = 0 then sx_fail (Conflict ''TOTP is not enabled'')
           else clear_user_challenges user_id))))))"

definition disable_without_code :: "string \<Rightarrow> bool tf" where
  "disable_without_code user_id =
     sx_bind (delete_credential user_id) (\<lambda>rows.
     sx_bind (clear_user_challenges user_id) (\<lambda>_.
     sx_return (rows > 0)))"

section \<open>The invariant\<close>

text \<open>
  A login challenge is filed under its user, and no challenge survives five wrong codes.
\<close>

definition tf_wf :: "TwoFactorService \<Rightarrow> bool" where
  "tf_wf s \<longleftrightarrow>
     hm_wf (credentials s) \<and> hm_wf (login_challenges s) \<and> hm_wf (enrollment_challenges s) \<and> hm_wf (failures s) \<and>
     (\<forall>u c. hm_get (login_challenges s) u = Some c \<longrightarrow> lc_user_id c = u \<and> lc_failures c < MAX_FAILURES) \<and>
     (\<forall>u c. hm_get (enrollment_challenges s) u = Some c \<longrightarrow> ec_failures c < MAX_FAILURES)"

lemma tf_wf_new: "hm_wf creds \<Longrightarrow> tf_wf (TwoFactorService_new creds db)"
  by (simp add: tf_wf_def TwoFactorService_new_def hm_gets)

lemma keeps_query [sx_keeps_intros]: "sx_keeps tf_wf tf_query"
  by (simp add: sx_keeps_def tf_query_def tf_wf_def)

lemma keeps_sections [sx_keeps_intros]:
  "sx_keeps tf_wf (enforce_failure_limit now u)" "sx_keeps tf_wf (record_failure now u)"
  "sx_keeps tf_wf (clear_user_challenges u)" "sx_keeps tf_wf (login_wrong_code u)"
  "sx_keeps tf_wf (login_consume u c)" "sx_keeps tf_wf (enrollment_wrong_code sid)"
  "sx_keeps tf_wf (drop_challenge u)" "sx_keeps tf_wf (drop_enrollment sid)"
  by (auto simp: sx_keeps_def enforce_failure_limit_def record_failure_def clear_user_challenges_def
      login_wrong_code_def login_consume_def enrollment_wrong_code_def drop_challenge_def drop_enrollment_def
      sx_apply tf_wf_def Let_def hm_gets not_le split: option.splits if_splits)

lemma keeps_lookups [sx_keeps_intros]:
  "sx_keeps tf_wf (is_enabled u)" "sx_keeps tf_wf (credential_secret u)" "sx_keeps tf_wf (login_lookup now c)"
  "sx_keeps tf_wf (enrollment_lookup now sid u c)"
  unfolding is_enabled_def credential_secret_def login_lookup_def enrollment_lookup_def
  by (intro sx_keeps_intros)+

lemma keeps_credentials [sx_keeps_intros]:
  "sx_keeps tf_wf (insert_credential u secret)" "sx_keeps tf_wf (delete_credential u)"
  unfolding insert_credential_def delete_credential_def
  by (intro sx_keeps_intros; simp add: tf_wf_def)+

lemma keeps_operations:
  "sx_keeps tf_wf (begin_login clk uuid u)" "sx_keeps tf_wf (complete_login lib clk c code)"
  "sx_keeps tf_wf (begin_enrollment lib clk uuid g sid u name)"
  "sx_keeps tf_wf (confirm_enrollment lib clk sid u c code)"
  "sx_keeps tf_wf (disable lib clk u code)" "sx_keeps tf_wf (disable_without_code u)"
  unfolding begin_login_def complete_login_def begin_enrollment_def confirm_enrollment_def disable_def
    disable_without_code_def Let_def case_prod_beta
  by (intro sx_keeps_intros; (simp add: tf_wf_def hm_gets MAX_FAILURES_def split: option.split)?;
      intro sx_keeps_intros allI impI conjI)+

section \<open>Successful operations\<close>

definition recent_failures :: "nat \<Rightarrow> string \<Rightarrow> TwoFactorService \<Rightarrow> nat list" where
  "recent_failures now u s =
     dropWhile (\<lambda>a. now - a \<ge> FAILURE_WINDOW) (case hm_get (failures s) u of None \<Rightarrow> [] | Some q \<Rightarrow> q)"

lemma tf_query_Inr: "tf_query s = (Inr r, s') \<Longrightarrow> s' = s\<lparr>db_results := tl (db_results s)\<rparr>"
  by (auto simp: tf_query_def)

lemma credential_secret_Inr:
  "credential_secret u s = (Inr r, s') \<Longrightarrow>
     r = hm_get (credentials s) u \<and> s' = s\<lparr>db_results := tl (db_results s)\<rparr>"
  by (auto simp: credential_secret_def sx_bind_Inr sx_Inr dest!: tf_query_Inr)

lemma enforce_Inr:
  "enforce_failure_limit now u s = (Inr r, s') \<Longrightarrow>
     length (recent_failures now u s) < MAX_FAILURES \<and>
     s' = s\<lparr>failures := hm_insert u (recent_failures now u s) (failures s)\<rparr>"
  by (auto simp: enforce_failure_limit_def recent_failures_def Let_def split: if_splits)

lemma login_lookup_Inr:
  assumes "login_lookup now cid s = (Inr (u, expired), s')" and "tf_wf s"
  shows "s' = s \<and> (\<exists>c. hm_get (login_challenges s) u = Some c \<and> lc_id c = cid \<and> (expired \<longleftrightarrow> now \<ge> lc_expires_at c))"
proof -
  from assms(1) obtain c where c: "hm_find (\<lambda>c. lc_id c = cid) (login_challenges s) = Some c"
    "u = lc_user_id c" "expired \<longleftrightarrow> now \<ge> lc_expires_at c" "s' = s"
    by (auto simp: login_lookup_def sx_bind_Inr sx_Inr)
  moreover obtain k where k: "(k, c) \<in> set (login_challenges s)" and "lc_id c = cid"
    using hm_find_Some [OF c(1)] by blast
  moreover have "hm_get (login_challenges s) k = Some c"
    using k assms(2) by (simp add: hm_mem_get tf_wf_def)
  moreover from this have "k = u" using assms(2) c(2) by (auto simp: tf_wf_def)
  ultimately show ?thesis by blast
qed

lemma login_consume_Inr:
  "login_consume u cid s = (Inr r, s') \<longleftrightarrow>
     r = u \<and> (\<exists>c. hm_get (login_challenges s) u = Some c \<and> lc_id c = cid) \<and>
     s' = s\<lparr>login_challenges := hm_remove u (login_challenges s)\<rparr>"
  by (auto simp: login_consume_def Let_def split: option.splits if_splits)

lemma login_wrong_code_Inl: "login_wrong_code u s \<noteq> (Inr r, s')"
  by (auto simp: login_wrong_code_def Let_def split: option.splits)

lemma complete_login_Inr:
  assumes "complete_login lib clk cid code s = (Inr u, s')" and wf: "tf_wf s"
  shows "\<exists>c secret. hm_get (login_challenges s) u = Some c \<and> lc_id c = cid \<and>
    expiry_now clk < lc_expires_at c \<and> hm_get (credentials s) u = Some secret \<and>
    verify_at lib secret code (unix_time_secs clk) = Inr True \<and>
    length (recent_failures (limit_now clk) u s) < MAX_FAILURES \<and>
    login_challenges s' = hm_remove u (login_challenges s) \<and> credentials s' = credentials s \<and>
    enrollment_challenges s' = enrollment_challenges s"
proof -
  from assms(1) obtain v expired s1 where look: "login_lookup (expiry_now clk) cid s = (Inr (v, expired), s1)"
    and rest: "(if expired then sx_bind (drop_challenge v) (\<lambda>_. sx_fail challenge_expired)
       else
         sx_bind (enforce_failure_limit (limit_now clk) v) (\<lambda>_.
         sx_bind (credential_secret v) (\<lambda>secret.
         sx_bind
           (case secret of
              Some secret \<Rightarrow> sx_lift (verify_at lib secret code (unix_time_secs clk))
            | None \<Rightarrow> sx_bind (drop_challenge v) (\<lambda>_. sx_fail challenge_expired)) (\<lambda>valid.
           if \<not> valid
           then sx_bind (record_failure (failure_now clk) v) (\<lambda>_. login_wrong_code v)
           else login_consume v cid)))) s1 = (Inr u, s')"
    by (auto simp: complete_login_def sx_bind_Inr sx_Inr)
  obtain c where c: "s1 = s" "hm_get (login_challenges s) v = Some c" "lc_id c = cid"
    "expired \<longleftrightarrow> expiry_now clk \<ge> lc_expires_at c"
    using login_lookup_Inr [OF look wf] by blast
  have "\<not> expired" using rest by (auto simp: sx_bind_Inr sx_Inr split: if_splits)
  with rest c(1) obtain s2 row s3 valid s4 where e: "enforce_failure_limit (limit_now clk) v s = (Inr (), s2)"
    and q: "credential_secret v s2 = (Inr row, s3)"
    and chk: "(case row of
              Some secret \<Rightarrow> sx_lift (verify_at lib secret code (unix_time_secs clk))
            | None \<Rightarrow> sx_bind (drop_challenge v) (\<lambda>_. sx_fail challenge_expired)) s3 = (Inr valid, s4)"
    and fin: "(if \<not> valid
           then sx_bind (record_failure (failure_now clk) v) (\<lambda>_. login_wrong_code v)
           else login_consume v cid) s4 = (Inr u, s')"
    by (auto simp: sx_bind_Inr)
  have s3: "row = hm_get (credentials s) v" "login_challenges s3 = login_challenges s"
    "credentials s3 = credentials s" "enrollment_challenges s3 = enrollment_challenges s"
    using enforce_Inr [OF e] credential_secret_Inr [OF q] by auto
  obtain secret where row: "row = Some secret" and s4: "s4 = s3"
    and val: "verify_at lib secret code (unix_time_secs clk) = Inr valid"
    using chk by (auto simp: sx_bind_Inr sx_Inr split: option.splits)
  have "valid" using fin by (auto simp: sx_bind_Inr login_wrong_code_Inl split: if_splits)
  then have "u = v" "s' = s3\<lparr>login_challenges := hm_remove v (login_challenges s3)\<rparr>"
    using fin s4 by (auto simp: login_consume_Inr)
  moreover have "hm_get (credentials s) v = Some secret" using s3(1) row by simp
  ultimately show ?thesis
    using c s3 val \<open>valid\<close> \<open>\<not> expired\<close> enforce_Inr [OF e] by auto
qed

lemma enrollment_lookup_Inr:
  "enrollment_lookup now sid u eid s = (Inr (secret, expired), s') \<Longrightarrow>
     s' = s \<and> (\<exists>c. hm_get (enrollment_challenges s) sid = Some c \<and> ec_id c = eid \<and> ec_user_id c = u \<and>
       secret = ec_secret c \<and> (expired \<longleftrightarrow> now \<ge> ec_expires_at c))"
  by (auto simp: enrollment_lookup_def sx_bind_Inr sx_Inr split: option.splits if_splits)

lemma insert_credential_Inr:
  "insert_credential u secret s = (Inr r, s') \<Longrightarrow>
     hm_get (credentials s) u = None \<and> credentials s' = hm_insert u secret (credentials s) \<and>
     login_challenges s' = login_challenges s \<and> enrollment_challenges s' = enrollment_challenges s"
  by (auto simp: insert_credential_def sx_bind_Inr sx_Inr split: if_splits dest!: tf_query_Inr)

lemma enrollment_wrong_code_Inl: "enrollment_wrong_code sid s \<noteq> (Inr r, s')"
  by (auto simp: enrollment_wrong_code_def Let_def split: option.splits)

lemma confirm_enrollment_Inr:
  assumes "confirm_enrollment lib clk sid u eid code s = (Inr (), s')"
  shows "\<exists>c. hm_get (enrollment_challenges s) sid = Some c \<and> ec_id c = eid \<and> ec_user_id c = u \<and>
    expiry_now clk < ec_expires_at c \<and> verify_at lib (ec_secret c) code (unix_time_secs clk) = Inr True \<and>
    hm_get (credentials s) u = None \<and> credentials s' = hm_insert u (ec_secret c) (credentials s) \<and>
    enrollment_challenges s' = hm_remove sid (enrollment_challenges s)"
proof -
  from assms obtain s1 secret expired s2 where e: "enforce_failure_limit (limit_now clk) u s = (Inr (), s1)"
    and look: "enrollment_lookup (expiry_now clk) sid u eid s1 = (Inr (secret, expired), s2)"
    and rest: "(if expired then sx_bind (drop_enrollment sid) (\<lambda>_. sx_fail enrollment_expired)
       else
         sx_bind (sx_lift (verify_at lib secret code (unix_time_secs clk))) (\<lambda>valid.
           if \<not> valid
           then sx_bind (record_failure (failure_now clk) u) (\<lambda>_. enrollment_wrong_code sid)
           else sx_bind (insert_credential u secret) (\<lambda>_. drop_enrollment sid))) s2 = (Inr (), s')"
    by (auto simp: confirm_enrollment_def sx_bind_Inr sx_Inr)
  obtain c where c: "s2 = s1" "hm_get (enrollment_challenges s1) sid = Some c" "ec_id c = eid" "ec_user_id c = u"
    "secret = ec_secret c" "expired \<longleftrightarrow> expiry_now clk \<ge> ec_expires_at c"
    using enrollment_lookup_Inr [OF look] by blast
  have s1: "enrollment_challenges s1 = enrollment_challenges s" "credentials s1 = credentials s"
    using enforce_Inr [OF e] by auto
  have "\<not> expired" using rest by (auto simp: sx_bind_Inr sx_Inr split: if_splits)
  with rest obtain s3 where v: "verify_at lib secret code (unix_time_secs clk) = Inr True"
    and ins: "insert_credential u secret s2 = (Inr (), s3)" and fin: "drop_enrollment sid s3 = (Inr (), s')"
    by (auto simp: sx_bind_Inr sx_Inr enrollment_wrong_code_Inl split: if_splits)
  show ?thesis
    using c v insert_credential_Inr [OF ins] fin \<open>\<not> expired\<close> s1
    by (auto simp: drop_enrollment_def sx_Inr)
qed

lemma disable_Inr:
  assumes "disable lib clk u code s = (Inr (), s')"
  shows "\<exists>secret. hm_get (credentials s) u = Some secret \<and>
    verify_at lib secret code (unix_time_secs clk) = Inr True \<and>
    credentials s' = hm_remove u (credentials s) \<and>
    login_challenges s' = hm_remove u (login_challenges s) \<and>
    enrollment_challenges s' = hm_retain (\<lambda>_ c. ec_user_id c \<noteq> u) (enrollment_challenges s)"
  using assms
  by (auto simp: disable_def sx_bind_Inr sx_Inr delete_credential_def clear_user_challenges_def
      split: if_splits dest!: enforce_Inr credential_secret_Inr tf_query_Inr)

section \<open>Interleavings\<close>

text \<open>
  The state with two records of the past: the challenge identifiers handed out and those
  that completed a login.  Requests run concurrently; a step is one section under the
  lock of the login challenges, of any request, or anything that leaves them alone.
\<close>

type_synonym tf_state = "TwoFactorService \<times> string list \<times> string list"

inductive tf_step :: "tf_state \<Rightarrow> tf_state \<Rightarrow> bool" where
  issue: "begin_login clk uuid u s = (r, s') \<Longrightarrow> uuid \<notin> set issued \<Longrightarrow>
    tf_step (s, issued, used) (s', uuid # issued, used)"
| consume: "login_consume u cid s = (r, s') \<Longrightarrow>
    tf_step (s, issued, used) (s', issued, case r of Inr _ \<Rightarrow> cid # used | Inl _ \<Rightarrow> used)"
| wrong: "login_wrong_code u s = (r, s') \<Longrightarrow> tf_step (s, issued, used) (s', issued, used)"
| drop: "drop_challenge u s = (r, s') \<Longrightarrow> tf_step (s, issued, used) (s', issued, used)"
| clear: "clear_user_challenges u s = (r, s') \<Longrightarrow> tf_step (s, issued, used) (s', issued, used)"
| other: "login_challenges s' = login_challenges s \<Longrightarrow> tf_step (s, issued, used) (s', issued, used)"

definition ids_ok :: "(string, LoginChallenge) hashmap \<Rightarrow> string list \<Rightarrow> string list \<Rightarrow> bool" where
  "ids_ok m issued used \<longleftrightarrow> hm_wf m \<and> distinct used \<and> set used \<subseteq> set issued \<and>
     (\<forall>u c. hm_get m u = Some c \<longrightarrow> lc_id c \<in> set issued \<and> lc_id c \<notin> set used) \<and>
     (\<forall>u v c d. hm_get m u = Some c \<longrightarrow> hm_get m v = Some d \<longrightarrow> lc_id c = lc_id d \<longrightarrow> u = v)"

definition tf_inv :: "tf_state \<Rightarrow> bool" where
  "tf_inv st \<longleftrightarrow> (case st of (s, issued, used) \<Rightarrow> ids_ok (login_challenges s) issued used)"

lemma ids_ok_remove: "ids_ok m issued used \<Longrightarrow> ids_ok (hm_remove u m) issued used"
  by (auto simp: ids_ok_def hm_gets split: if_splits)

lemma ids_ok_update:
  "ids_ok m issued used \<Longrightarrow> hm_get m u = Some c \<Longrightarrow> lc_id c' = lc_id c \<Longrightarrow> ids_ok (hm_insert u c' m) issued used"
  unfolding ids_ok_def by (auto simp: hm_gets split: if_splits)

lemma ids_ok_issue:
  "ids_ok m issued used \<Longrightarrow> lc_id c \<notin> set issued \<Longrightarrow> ids_ok (hm_insert u c m) (lc_id c # issued) used"
  unfolding ids_ok_def by (auto simp: hm_gets split: if_splits) metis

lemma ids_ok_more: "ids_ok m issued used \<Longrightarrow> uuid \<notin> set issued \<Longrightarrow> ids_ok m (uuid # issued) used"
  by (auto simp: ids_ok_def)

lemma ids_ok_consume:
  assumes "ids_ok m issued used" and "hm_get m u = Some c"
  shows "ids_ok (hm_remove u m) issued (lc_id c # used)"
  using assms unfolding ids_ok_def by (auto simp: hm_gets split: if_splits)

lemma begin_login_challenges:
  assumes "begin_login clk uuid u s = (r, s')"
  shows "login_challenges s' = login_challenges s \<or>
    login_challenges s' = hm_insert u
      \<lparr>lc_id = uuid, lc_user_id = u, lc_expires_at = expiry_now clk + LOGIN_TTL,
       lc_expires_at_unix_ms = expires_at_unix_ms clk LOGIN_TTL, lc_failures = 0\<rparr> (login_challenges s)"
  using assms
  by (auto simp: begin_login_def is_enabled_def tf_query_def sx_simps Let_def
      split: list.splits option.splits if_splits prod.splits sum.splits)

lemma tf_step_inv: "tf_step st st' \<Longrightarrow> tf_inv st \<Longrightarrow> tf_inv st'"
proof (induction rule: tf_step.induct)
  case (issue clk uuid u s r s' issued used)
  then show ?case
    using begin_login_challenges [OF issue.hyps(1)]
      ids_ok_issue [where c = "\<lparr>lc_id = uuid, lc_user_id = u, lc_expires_at = expiry_now clk + LOGIN_TTL,
        lc_expires_at_unix_ms = expires_at_unix_ms clk LOGIN_TTL, lc_failures = 0\<rparr>"]
    by (auto simp: tf_inv_def ids_ok_more)
next
  case (consume u cid s r s' issued used)
  show ?case
  proof (cases r)
    case (Inr v)
    then obtain c where c: "hm_get (login_challenges s) u = Some c" "lc_id c = cid"
      "login_challenges s' = hm_remove u (login_challenges s)"
      using consume.hyps by (auto simp: login_consume_Inr)
    have "ids_ok (hm_remove u (login_challenges s)) issued (lc_id c # used)"
      using consume.prems c(1) by (intro ids_ok_consume) (simp_all add: tf_inv_def)
    then show ?thesis using Inr c by (simp add: tf_inv_def)
  next
    case (Inl e)
    then show ?thesis
      using consume by (auto simp: tf_inv_def login_consume_def Let_def ids_ok_remove split: option.splits if_splits)
  qed
next
  case (wrong u s r s' issued used)
  then show ?case
    by (auto simp: tf_inv_def login_wrong_code_def Let_def ids_ok_remove split: option.splits if_splits
        intro!: ids_ok_update)
qed (auto simp: tf_inv_def drop_challenge_def clear_user_challenges_def sx_apply ids_ok_remove)

lemma tf_steps_inv: "tf_step\<^sup>*\<^sup>* st st' \<Longrightarrow> tf_inv st \<Longrightarrow> tf_inv st'"
  by (induction rule: rtranclp_induct) (auto intro: tf_step_inv)

text \<open>A whole request is a run of such steps: it uses its challenge exactly when it succeeds.\<close>

definition quiet :: "'a tf \<Rightarrow> bool" where
  "quiet m \<longleftrightarrow> (\<forall>s issued used. tf_step\<^sup>*\<^sup>* (s, issued, used) (snd (m s), issued, used))"

definition traced :: "string \<Rightarrow> 'a tf \<Rightarrow> bool" where
  "traced cid m \<longleftrightarrow> (\<forall>s issued used. tf_step\<^sup>*\<^sup>* (s, issued, used)
     (snd (m s), issued, case fst (m s) of Inr _ \<Rightarrow> cid # used | Inl _ \<Rightarrow> used))"

named_theorems quiet_intros

lemma quiet_same [quiet_intros]:
  "quiet (sx_return a)" "quiet (sx_fail e)" "quiet (sx_lift r)" "quiet (sx_read g)" "quiet (sx_ok_or e o1)"
  "quiet tf_query" "quiet (enforce_failure_limit n u)" "quiet (record_failure n u)"
  by (auto simp: quiet_def sx_apply tf_query_def enforce_failure_limit_def record_failure_def Let_def
      intro!: r_into_rtranclp other)

lemma quiet_sections [quiet_intros]: "quiet (drop_challenge u)" "quiet (login_wrong_code u)"
  unfolding quiet_def by (auto intro!: r_into_rtranclp intro: drop wrong prod.collapse [symmetric])

lemma quiet_bind [quiet_intros]:
  assumes "quiet m" and "\<And>a. quiet (f a)"
  shows "quiet (sx_bind m f)"
  unfolding quiet_def
proof (intro allI)
  fix s issued used
  obtain r s' where m: "m s = (r, s')" by force
  have *: "tf_step\<^sup>*\<^sup>* (s, issued, used) (s', issued, used)"
    using assms(1) m unfolding quiet_def by (metis snd_conv)
  show "tf_step\<^sup>*\<^sup>* (s, issued, used) (snd (sx_bind m f s), issued, used)"
  proof (cases r)
    case (Inl e)
    then show ?thesis using * m by (simp add: sx_bind_def)
  next
    case (Inr a)
    then show ?thesis
      using rtranclp_trans [OF *] assms(2) [of a] m by (simp add: sx_bind_def quiet_def)
  qed
qed

lemma traced_bind:
  assumes "quiet m" and "\<And>a. traced cid (f a)"
  shows "traced cid (sx_bind m f)"
  unfolding traced_def
proof (intro allI)
  fix s issued used
  obtain r s' where m: "m s = (r, s')" by force
  have *: "tf_step\<^sup>*\<^sup>* (s, issued, used) (s', issued, used)"
    using assms(1) m unfolding quiet_def by (metis snd_conv)
  show "tf_step\<^sup>*\<^sup>* (s, issued, used)
     (snd (sx_bind m f s), issued, case fst (sx_bind m f s) of Inr _ \<Rightarrow> cid # used | Inl _ \<Rightarrow> used)"
  proof (cases r)
    case (Inl e)
    then show ?thesis using * m by (simp add: sx_bind_def)
  next
    case (Inr a)
    then show ?thesis
      using rtranclp_trans [OF *] assms(2) [of a] m by (simp add: sx_bind_def traced_def)
  qed
qed

lemma traced_fails:
  assumes "quiet m" and "\<And>s r s'. m s \<noteq> (Inr r, s')"
  shows "traced cid m"
  unfolding traced_def
proof (intro allI)
  fix s issued used
  obtain e s' where "m s = (Inl e, s')" using assms(2) by (metis sum.exhaust surj_pair)
  then show "tf_step\<^sup>*\<^sup>* (s, issued, used) (snd (m s), issued, case fst (m s) of Inr _ \<Rightarrow> cid # used | Inl _ \<Rightarrow> used)"
    using assms(1) unfolding quiet_def by (metis fst_conv snd_conv sum.simps(5))
qed

lemma traced_consume: "traced cid (login_consume u cid)"
  unfolding traced_def by (auto intro!: r_into_rtranclp intro: consume prod.collapse [symmetric])

lemma complete_login_traced: "traced cid (complete_login lib clk cid code)"
proof -
  have fail: "traced cid (sx_bind (drop_challenge u) (\<lambda>_. sx_fail challenge_expired))" for u
    by (rule traced_fails) (auto intro!: quiet_intros simp: sx_bind_Inr sx_Inr)
  have bad: "traced cid (sx_bind (record_failure n u) (\<lambda>_. login_wrong_code u))" for n u
    by (rule traced_fails) (auto intro!: quiet_intros simp: sx_bind_Inr login_wrong_code_Inl)
  have chk: "quiet (case row of Some secret \<Rightarrow> sx_lift (verify_at lib secret code n)
      | None \<Rightarrow> sx_bind (drop_challenge u) (\<lambda>_. sx_fail challenge_expired))" for row u n
    by (cases row) (auto intro!: quiet_intros)
  have final: "traced cid (if \<not> valid then sx_bind (record_failure n u) (\<lambda>_. login_wrong_code u)
      else login_consume u cid)" for valid n u
    using bad traced_consume by simp
  have "traced cid (if expired then sx_bind (drop_challenge u) (\<lambda>_. sx_fail challenge_expired)
       else
         sx_bind (enforce_failure_limit (limit_now clk) u) (\<lambda>_.
         sx_bind (credential_secret u) (\<lambda>secret.
         sx_bind
           (case secret of
              Some secret \<Rightarrow> sx_lift (verify_at lib secret code (unix_time_secs clk))
            | None \<Rightarrow> sx_bind (drop_challenge u) (\<lambda>_. sx_fail challenge_expired)) (\<lambda>valid.
           if \<not> valid
           then sx_bind (record_failure (failure_now clk) u) (\<lambda>_. login_wrong_code u)
           else login_consume u cid))))" for expired u
  proof (cases expired)
    case True
    then show ?thesis using fail by simp
  next
    case False
    then show ?thesis
      by (simp add: credential_secret_def) (intro traced_bind quiet_intros chk final)
  qed
  then show ?thesis
    unfolding complete_login_def login_lookup_def
    by (intro traced_bind quiet_intros) (simp add: case_prod_beta)
qed

section \<open>The limit on wrong codes\<close>

text \<open>
  What a request with a wrong code does to the list of failures: the check, at time \<open>l\<close>,
  and, if it passes, the entry, at time \<open>f\<close>.  The result is the list of the times at
  which wrong codes were accepted for verification.
\<close>

fun wrong_attempts :: "string \<Rightarrow> (nat \<times> nat) list \<Rightarrow> TwoFactorService \<Rightarrow> nat list \<times> TwoFactorService" where
  "wrong_attempts u [] s = ([], s)"
| "wrong_attempts u ((l, f) # xs) s =
     (case sx_bind (enforce_failure_limit l u) (\<lambda>_. record_failure f u) s of
        (Inl _, s') \<Rightarrow> wrong_attempts u xs s'
      | (Inr _, s') \<Rightarrow> (let (log, s'') = wrong_attempts u xs s' in (f # log, s'')))"

definition pending_failures :: "string \<Rightarrow> TwoFactorService \<Rightarrow> nat list" where
  "pending_failures u s = (case hm_get (failures s) u of None \<Rightarrow> [] | Some q \<Rightarrow> q)"

lemma attempt_eq:
  fixes u l
  assumes "hm_wf (failures s)"
  defines "q \<equiv> dropWhile (\<lambda>a. l - a \<ge> FAILURE_WINDOW) (pending_failures u s)"
  shows "\<exists>s'. hm_wf (failures s') \<and>
    (if length q < 5
     then sx_bind (enforce_failure_limit l u) (\<lambda>_. record_failure f u) s = (Inr (), s') \<and>
       pending_failures u s' = q @ [f]
     else \<exists>e. sx_bind (enforce_failure_limit l u) (\<lambda>_. record_failure f u) s = (Inl e, s') \<and>
       pending_failures u s' = q)"
proof (cases "length q < 5")
  case True
  then show ?thesis
    using assms(1)
    by (simp add: q_def sx_bind_def enforce_failure_limit_def record_failure_def pending_failures_def
        MAX_FAILURES_def Let_def hm_gets)
next
  case False
  then show ?thesis
    using assms(1)
    by (simp add: q_def sx_bind_def enforce_failure_limit_def record_failure_def pending_failures_def
        MAX_FAILURES_def Let_def hm_gets)
qed

text \<open>The times accepted so far: the list kept is its end, and what was dropped is old.\<close>

definition log_ok :: "nat list \<Rightarrow> bool" where
  "log_ok L \<longleftrightarrow> (\<forall>i. i + 5 < length L \<longrightarrow> L ! i + FAILURE_WINDOW \<le> L ! (i + 5))"

definition log_at :: "nat list \<Rightarrow> nat list \<Rightarrow> nat \<Rightarrow> bool" where
  "log_at L q now \<longleftrightarrow> (\<exists>k \<le> length L. q = drop k L \<and> (\<forall>i < k. L ! i + FAILURE_WINDOW \<le> now))"

lemma log_at_drop:
  assumes "log_at L q n" and "n \<le> l"
  shows "log_at L (dropWhile (\<lambda>a. l - a \<ge> FAILURE_WINDOW) q) l"
proof -
  obtain k where k: "k \<le> length L" "q = drop k L" "\<forall>i < k. L ! i + FAILURE_WINDOW \<le> n"
    using assms(1) by (auto simp: log_at_def)
  let ?p = "\<lambda>a. l - a \<ge> FAILURE_WINDOW"
  let ?j = "length (takeWhile ?p q)"
  have old: "L ! i + FAILURE_WINDOW \<le> l" if "i < k + ?j" for i
  proof (cases "i < k")
    case True
    then show ?thesis using k(3) assms(2) by fastforce
  next
    case False
    then have "i - k < ?j" using that by simp
    then have "?p (takeWhile ?p q ! (i - k))" by (metis nth_mem set_takeWhileD)
    then have "?p (q ! (i - k))" using \<open>i - k < ?j\<close> by (simp add: takeWhile_nth)
    moreover have "q ! (i - k) = L ! i"
      using False k(1,2) by simp
    ultimately show ?thesis by (simp add: FAILURE_WINDOW_def)
  qed
  have "dropWhile ?p q = drop (k + ?j) L" "k + ?j \<le> length L"
    using k(1,2) length_takeWhile_le [of ?p q] by (simp_all add: dropWhile_eq_drop add.commute)
  then show ?thesis using old unfolding log_at_def by blast
qed

lemma log_extend:
  assumes "log_ok L" and "log_at L q l" and "length q < 5" and "l \<le> f"
  shows "log_ok (L @ [f]) \<and> log_at (L @ [f]) (q @ [f]) f"
proof -
  obtain k where k: "k \<le> length L" "q = drop k L" "\<forall>i < k. L ! i + FAILURE_WINDOW \<le> l"
    using assms(2) by (auto simp: log_at_def)
  have "(L @ [f]) ! i + FAILURE_WINDOW \<le> (L @ [f]) ! (i + 5)" if "i + 5 < length (L @ [f])" for i
  proof (cases "i + 5 < length L")
    case True
    then show ?thesis using assms(1) by (simp add: log_ok_def nth_append)
  next
    case False
    then have i: "i + 5 = length L" using that by simp
    then have "i < k" using assms(3) k(2) by simp
    then show ?thesis using i k(3) assms(4) by (fastforce simp: nth_append)
  qed
  moreover have "log_at (L @ [f]) (q @ [f]) f"
    unfolding log_at_def using k assms(4) by (intro exI [of _ k]) (force simp: nth_append)
  ultimately show ?thesis by (simp add: log_ok_def)
qed

lemma wrong_attempts_log:
  assumes "hm_wf (failures s)" and "log_ok L" and "log_at L (pending_failures u s) n"
    and "sorted (n # concat (map (\<lambda>(l, f). [l, f]) xs))"
  shows "log_ok (L @ fst (wrong_attempts u xs s))"
  using assms
proof (induction xs arbitrary: s L n)
  case Nil
  then show ?case by simp
next
  case (Cons x xs)
  obtain l f where x: "x = (l, f)" by force
  let ?m = "sx_bind (enforce_failure_limit l u) (\<lambda>_. record_failure f u) s"
  let ?q = "dropWhile (\<lambda>a. l - a \<ge> FAILURE_WINDOW) (pending_failures u s)"
  have le: "n \<le> l" "l \<le> f" "sorted (f # concat (map (\<lambda>(l, f). [l, f]) xs))"
    "sorted (l # concat (map (\<lambda>(l, f). [l, f]) xs))"
    using Cons.prems(4) x by auto
  have at: "log_at L ?q l" by (rule log_at_drop [OF Cons.prems(3) le(1)])
  obtain s' where wf': "hm_wf (failures s')"
    and res: "if length ?q < 5 then ?m = (Inr (), s') \<and> pending_failures u s' = ?q @ [f]
      else \<exists>e. ?m = (Inl e, s') \<and> pending_failures u s' = ?q"
    using attempt_eq [OF Cons.prems(1), of l u f] by blast
  show ?case
  proof (cases "length ?q < 5")
    case True
    then have m: "?m = (Inr (), s')" "pending_failures u s' = ?q @ [f]" using res by auto
    have "log_ok (L @ [f]) \<and> log_at (L @ [f]) (?q @ [f]) f"
      by (rule log_extend [OF Cons.prems(2) at True le(2)])
    then have "log_ok ((L @ [f]) @ fst (wrong_attempts u xs s'))"
      using Cons.IH [OF wf', of "L @ [f]" f] le(3) m(2) by simp
    then show ?thesis using m(1) x by (simp add: case_prod_beta)
  next
    case False
    then obtain e where m: "?m = (Inl e, s')" "pending_failures u s' = ?q" using res by auto
    have "log_ok (L @ fst (wrong_attempts u xs s'))"
      using Cons.IH [OF wf' Cons.prems(2), of l] at le(4) m(2) by simp
    then show ?thesis using m(1) x by simp
  qed
qed

section \<open>Properties\<close>

text \<open>C21: A login completes only for the user of a pending, unexpired challenge with that
  identifier, with a code that the secret stored for that user verifies, and with fewer
  than five recent failures; the challenge is gone afterwards and nothing else changed.\<close>

theorem login_needs_second_factor:
  assumes "tf_wf s" and "complete_login lib clk cid code s = (Inr u, s')"
  shows "\<exists>c secret. hm_get (login_challenges s) u = Some c \<and> lc_id c = cid \<and>
    expiry_now clk < lc_expires_at c \<and> lc_failures c < 5 \<and> hm_get (credentials s) u = Some secret \<and>
    verify_at lib secret code (unix_time_secs clk) = Inr True \<and>
    length (recent_failures (limit_now clk) u s) < 5 \<and>
    hm_get (login_challenges s') u = None \<and> credentials s' = credentials s \<and> tf_wf s'"
proof -
  have "lc_failures c < 5" if "hm_get (login_challenges s) u = Some c" for c
    using assms(1) that by (auto simp: tf_wf_def MAX_FAILURES_def)
  moreover have "hm_get (hm_remove u (login_challenges s)) u = None"
    using assms(1) by (simp add: tf_wf_def hm_gets)
  moreover have "tf_wf s'"
    by (rule sx_keepsD [OF keeps_operations(2) assms])
  ultimately show ?thesis
    using complete_login_Inr [OF assms(2,1)] by (auto simp: MAX_FAILURES_def)
qed

text \<open>
  A library for the witnesses: a code is right when it is the stored secret.
\<close>

definition toy_lib :: "bytes totp_lib" where
  "toy_lib = \<lparr>lib_bytes = (\<lambda>s. Inr (string_bytes s)), lib_new = (\<lambda>_ _ _ bs _ _. Inr bs),
     lib_check = (\<lambda>bs code _. string_bytes code = bs), lib_url = bytes_string\<rparr>"

definition toy_clock :: "nat \<Rightarrow> tf_clock" where
  "toy_clock n = \<lparr>expiry_now = n, limit_now = n, failure_now = n, now_unix_ms = n\<rparr>"

definition toy_service :: TwoFactorService where
  "toy_service = snd (begin_login (toy_clock 0) ''c1'' ''u'' (TwoFactorService_new [(''u'', ''123456'')] []))"

lemma toy_service_wf: "tf_wf toy_service"
proof -
  have "tf_wf (TwoFactorService_new [(''u'', ''123456'')] [])"
    by (rule tf_wf_new) (simp add: hm_wf_def)
  then show ?thesis
    using keeps_operations(1) unfolding toy_service_def sx_keeps_def by blast
qed

lemma toy_service_eq: "toy_service =
  \<lparr>credentials = [(''u'', ''123456'')], db_results = [],
   login_challenges = [(''u'', \<lparr>lc_id = ''c1'', lc_user_id = ''u'', lc_expires_at = LOGIN_TTL,
     lc_expires_at_unix_ms = expires_at_unix_ms (toy_clock 0) LOGIN_TTL, lc_failures = 0\<rparr>)],
   enrollment_challenges = [], failures = []\<rparr>"
  by (simp add: toy_service_def begin_login_def is_enabled_def tf_query_def sx_simps TwoFactorService_new_def
      hm_get_def hm_insert_def toy_clock_def Let_def)

lemma toy_format: "validate_code_format ''123456'' = Inr ()"
  by (simp add: validate_code_format_def is_ascii_digit_def of_char_def)

lemma toy_verify: "verify_at toy_lib ''123456'' ''123456'' n = Inr True"
  by (simp add: verify_at_def toy_format totp_def toy_lib_def Let_def)

lemmas toy_eval = sx_simps hm_get_def hm_insert_def hm_remove_def hm_find_def tf_query_def toy_verify toy_format
  toy_clock_def LOGIN_TTL_def
  enforce_failure_limit_def credential_secret_def MAX_FAILURES_def Let_def

lemma toy_login: "fst (complete_login toy_lib (toy_clock 1) ''c1'' ''123456'' toy_service) = Inr ''u''"
  by (simp add: complete_login_def login_lookup_def login_consume_def toy_service_eq toy_eval)

theorem login_needs_second_factor_witness:
  "\<exists>c secret. hm_get (login_challenges toy_service) ''u'' = Some c \<and> lc_id c = ''c1'' \<and>
    hm_get (credentials toy_service) ''u'' = Some secret \<and>
    verify_at toy_lib secret ''123456'' (unix_time_secs (toy_clock 1)) = Inr True"
proof -
  obtain s' where "complete_login toy_lib (toy_clock 1) ''c1'' ''123456'' toy_service = (Inr ''u'', s')"
    using toy_login by (metis prod.collapse)
  from login_needs_second_factor [OF toy_service_wf this] show ?thesis by blast
qed

text \<open>C22: However requests interleave, no challenge completes two logins; a request that
  succeeds uses its challenge, one that fails does not.\<close>

theorem challenge_used_once:
  assumes "tf_step\<^sup>*\<^sup>* (TwoFactorService_new creds db, [], []) (s, issued, used)"
  shows "distinct used \<and> (\<forall>lib clk cid code r s'. complete_login lib clk cid code s = (r, s') \<longrightarrow>
    (case r of Inr _ \<Rightarrow> cid \<notin> set used | Inl _ \<Rightarrow> True) \<and>
    tf_step\<^sup>*\<^sup>* (s, issued, used) (s', issued, case r of Inr _ \<Rightarrow> cid # used | Inl _ \<Rightarrow> used))"
proof (intro conjI allI impI)
  have start: "tf_inv (TwoFactorService_new creds db, [], [])"
    by (simp add: tf_inv_def ids_ok_def TwoFactorService_new_def hm_gets)
  then show "distinct used"
    using tf_steps_inv [OF assms] by (simp add: tf_inv_def ids_ok_def)
  fix lib clk cid code r s'
  assume m: "complete_login (lib :: 't totp_lib) clk cid code s = (r, s')"
  show run: "tf_step\<^sup>*\<^sup>* (s, issued, used) (s', issued, case r of Inr _ \<Rightarrow> cid # used | Inl _ \<Rightarrow> used)"
    using complete_login_traced [of cid lib clk code] m unfolding traced_def by (metis fst_conv snd_conv)
  from tf_steps_inv [OF rtranclp_trans [OF assms run] start]
  show "case r of Inr _ \<Rightarrow> cid \<notin> set used | Inl _ \<Rightarrow> True"
    by (auto simp: tf_inv_def ids_ok_def split: sum.splits)
qed

theorem challenge_used_once_witness:
  "distinct [''c1''] \<and> (case fst (complete_login toy_lib (toy_clock 1) ''c1'' ''123456'' toy_service) of
     Inr _ \<Rightarrow> ''c1'' \<notin> set [] | Inl _ \<Rightarrow> True)"
proof -
  have "tf_step (TwoFactorService_new [(''u'', ''123456'')] [], [], []) (toy_service, [''c1''], [])"
    unfolding toy_service_def by (rule issue [OF prod.collapse [symmetric]]) simp
  then have 1: "tf_step\<^sup>*\<^sup>* (TwoFactorService_new [(''u'', ''123456'')] [], [], []) (toy_service, [''c1''], [])"
    by (rule r_into_rtranclp)
  obtain s' where m: "complete_login toy_lib (toy_clock 1) ''c1'' ''123456'' toy_service = (Inr ''u'', s')"
    using toy_login by (metis prod.collapse)
  have 2: "tf_step\<^sup>*\<^sup>* (toy_service, [''c1''], []) (s', [''c1''], [''c1''])"
    using challenge_used_once [OF 1] m by fastforce
  from challenge_used_once [OF rtranclp_trans [OF 1 2]] show ?thesis using m by simp
qed



text \<open>An enrolment is confirmed only in the session and for the user it was begun for, before
  it expires, with a code of the offered secret, and it stores that secret; switching the
  second factor off needs a valid code and removes the secret and every challenge of the
  user.\<close>

theorem enrolment_and_disable:
  assumes "tf_wf s"
  shows "(confirm_enrollment lib clk sid u eid code s = (Inr (), s') \<longrightarrow>
      (\<exists>c. hm_get (enrollment_challenges s) sid = Some c \<and> ec_id c = eid \<and> ec_user_id c = u \<and>
        expiry_now clk < ec_expires_at c \<and> verify_at lib (ec_secret c) code (unix_time_secs clk) = Inr True \<and>
        hm_get (credentials s) u = None \<and> hm_get (credentials s') u = Some (ec_secret c) \<and>
        hm_get (enrollment_challenges s') sid = None)) \<and>
    (disable lib clk u code s = (Inr (), s') \<longrightarrow>
      (\<exists>secret. hm_get (credentials s) u = Some secret \<and> verify_at lib secret code (unix_time_secs clk) = Inr True \<and>
        hm_get (credentials s') u = None \<and> hm_get (login_challenges s') u = None \<and>
        (\<forall>sid c. hm_get (enrollment_challenges s') sid = Some c \<longrightarrow> ec_user_id c \<noteq> u)))"
  using assms
  by (auto simp: tf_wf_def hm_gets dest!: confirm_enrollment_Inr disable_Inr split: option.splits if_splits)


theorem enrolment_and_disable_witness:
  "\<exists>secret. hm_get (credentials toy_service) ''u'' = Some secret \<and>
     verify_at toy_lib secret ''123456'' (unix_time_secs (toy_clock 1)) = Inr True"
proof -
  have "fst (disable toy_lib (toy_clock 1) ''u'' ''123456'' toy_service) = Inr ()"
    by (simp add: disable_def toy_service_eq toy_eval delete_credential_def clear_user_challenges_def)
  then obtain s' where "disable toy_lib (toy_clock 1) ''u'' ''123456'' toy_service = (Inr (), s')"
    by (metis prod.collapse)
  then show ?thesis
    using enrolment_and_disable [OF toy_service_wf, of toy_lib "toy_clock 1" "[]" "''u''" "[]" "''123456''" s'] by blast
qed

end
