(* ===== verification/WebAuth.thy ===== *)
theory WebAuth
  imports Sessions TwoFactor
begin

text \<open>
  Authentication of the web interface: the user table (\<open>auth/user.rs\<close>, \<open>auth/password.rs\<close>),
  the gate in front of the API (\<open>auth/middleware.rs\<close>), login and logout
  (\<open>web/handlers/auth.rs\<close>), the account handlers (\<open>web/handlers/account.rs\<close>) and the
  Redfish gate and sessions (\<open>redfish/auth.rs\<close>, \<open>redfish/routes/session.rs\<close>).  They share
  the session store, the second factor and the list of revoked sessions of \<open>state.rs\<close>.
  The password hash is a record of functions, as are the code library and base64.
\<close>

section \<open>Users\<close>

record User =
  user_id :: string
  username :: string
  password_hash :: string

record UserStore =
  user_rows :: "User list"
  user_db :: "AppError option list"

record 'h pw_lib =
  pw_hash :: "string \<Rightarrow> string \<Rightarrow> string + string"
  pw_parse :: "string \<Rightarrow> string + 'h"
  pw_matches :: "string \<Rightarrow> 'h \<Rightarrow> bool"

definition hash_password :: "'h pw_lib \<Rightarrow> string \<Rightarrow> string \<Rightarrow> string app_result" where
  "hash_password lib salt password =
     (case pw_hash lib password salt of
        Inl e \<Rightarrow> Inl (Internal (''Password hashing failed: '' @ e))
      | Inr h \<Rightarrow> Inr h)"

definition verify_password :: "'h pw_lib \<Rightarrow> string \<Rightarrow> string \<Rightarrow> bool app_result" where
  "verify_password lib password hash =
     (case pw_parse lib hash of
        Inl e \<Rightarrow> Inl (Internal (''Invalid password hash: '' @ e))
      | Inr h \<Rightarrow> Inr (pw_matches lib password h))"

type_synonym 'a us = "(UserStore, 'a) sx"

definition us_query :: "unit us" where
  "us_query s =
     ((case user_db s of Some e # _ \<Rightarrow> Inl e | _ \<Rightarrow> Inr ()), s\<lparr>user_db := tl (user_db s)\<rparr>)"

definition single_user :: "User option us" where
  "single_user =
     sx_bind us_query (\<lambda>_.
     sx_bind (sx_read (\<lambda>s. take 2 (user_rows s))) (\<lambda>rows.
       case rows of
         [] \<Rightarrow> sx_return None
       | [row] \<Rightarrow> sx_return (Some row)
       | _ \<Rightarrow> sx_fail (Internal ''Multiple user accounts in database; this build supports only one'')))"

definition create_first_user :: "'h pw_lib \<Rightarrow> string \<Rightarrow> string \<Rightarrow> string \<Rightarrow> string \<Rightarrow> User us" where
  "create_first_user lib salt uuid name password =
     sx_bind single_user (\<lambda>existing.
       if existing \<noteq> None then sx_fail (BadRequest ''A user account already exists'')
       else
         sx_bind (sx_lift (hash_password lib salt password)) (\<lambda>hash.
           (let user = \<lparr>user_id = uuid, username = name, password_hash = hash\<rparr>
            in sx_bind us_query (\<lambda>_.
               sx_bind (sx_update (\<lambda>s. s\<lparr>user_rows := user_rows s @ [user]\<rparr>)) (\<lambda>_.
               sx_return user)))))"

definition users_verify :: "'h pw_lib \<Rightarrow> string \<Rightarrow> string \<Rightarrow> User option us" where
  "users_verify lib name password =
     sx_bind single_user (\<lambda>found.
       case found of
         None \<Rightarrow> sx_return None
       | Some user \<Rightarrow>
           if username user \<noteq> name then sx_return None
           else sx_bind (sx_lift (verify_password lib password (password_hash user))) (\<lambda>ok.
             sx_return (if ok then Some user else None)))"

text \<open>\<open>UPDATE users SET ... WHERE id\<close> with the number of rows affected.\<close>

definition update_rows :: "string \<Rightarrow> (User \<Rightarrow> User) \<Rightarrow> nat us" where
  "update_rows uid f =
     sx_bind us_query (\<lambda>_.
     sx_bind (sx_read (\<lambda>s. length (filter (\<lambda>u. user_id u = uid) (user_rows s)))) (\<lambda>n.
     sx_bind (sx_update (\<lambda>s. s\<lparr>user_rows := map (\<lambda>u. if user_id u = uid then f u else u) (user_rows s)\<rparr>)) (\<lambda>_.
     sx_return n)))"

definition update_password :: "'h pw_lib \<Rightarrow> string \<Rightarrow> string \<Rightarrow> string \<Rightarrow> unit us" where
  "update_password lib salt uid new_password =
     sx_bind single_user (\<lambda>found.
     sx_bind (sx_ok_or (NotFound ''User not found'') found) (\<lambda>user.
       if user_id user \<noteq> uid then sx_fail (AuthError ''Invalid session'')
       else
         sx_bind (sx_lift (hash_password lib salt new_password)) (\<lambda>hash.
         sx_bind (update_rows uid (\<lambda>u. u\<lparr>password_hash := hash\<rparr>)) (\<lambda>n.
           if n = 0 then sx_fail (NotFound ''User not found'') else sx_return ()))))"

definition update_username :: "string \<Rightarrow> string \<Rightarrow> unit us" where
  "update_username uid new_username =
     sx_bind single_user (\<lambda>found.
     sx_bind (sx_ok_or (NotFound ''User not found'') found) (\<lambda>user.
       if user_id user \<noteq> uid then sx_fail (AuthError ''Invalid session'')
       else if new_username = username user then sx_return ()
       else
         sx_bind (update_rows uid (\<lambda>u. u\<lparr>username := new_username\<rparr>)) (\<lambda>n.
           if n = 0 then sx_fail (NotFound ''User not found'') else sx_return ())))"

section \<open>The shared state\<close>

record AppState =
  cfg_initialized :: bool
  allow_multiple_sessions :: bool
  session_timeout_secs :: nat
  app_sessions :: SessionStore
  app_users :: UserStore
  app_two_factor :: TwoFactorService
  revoked_sessions :: "string list"

type_synonym 'a app = "(AppState, 'a) sx"

definition on_users :: "'a us \<Rightarrow> 'a app" where
  "on_users = sx_zoom app_users (\<lambda>u s. s\<lparr>app_users := u\<rparr>)"

definition on_two_factor :: "'a tf \<Rightarrow> 'a app" where
  "on_two_factor = sx_zoom app_two_factor (\<lambda>t s. s\<lparr>app_two_factor := t\<rparr>)"

definition on_sessions :: "(SessionStore \<Rightarrow> 'a \<times> SessionStore) \<Rightarrow> 'a app" where
  "on_sessions f s = (let (a, st) = f (app_sessions s) in (Inr a, s\<lparr>app_sessions := st\<rparr>))"

definition remember_revoked_sessions :: "string list \<Rightarrow> AppState \<Rightarrow> AppState" where
  "remember_revoked_sessions ids s =
     (if ids = [] then s
      else
        (let guard = revoked_sessions s @ ids
         in s\<lparr>revoked_sessions := drop (length guard - 32) guard\<rparr>))"

definition is_session_revoked :: "string \<Rightarrow> AppState \<Rightarrow> bool" where
  "is_session_revoked sid s \<longleftrightarrow> list_ex (\<lambda>i. i = sid) (revoked_sessions s)"

text \<open>What a request takes from its environment.\<close>

record ('t, 'h) web_env =
  env_totp :: "'t totp_lib"
  env_pw :: "'h pw_lib"
  env_clock :: tf_clock
  env_now_utc :: int
  env_uuid :: string
  env_secret :: string
  env_salt :: string

section \<open>The gate of the API\<close>

definition strip_prefix :: "string \<Rightarrow> string \<Rightarrow> string option" where
  "strip_prefix p s = (if take (length p) s = p then Some (drop (length p) s) else None)"

definition starts_with :: "string \<Rightarrow> string \<Rightarrow> bool" where
  "starts_with p s \<longleftrightarrow> take (length p) s = p"

definition ends_with :: "string \<Rightarrow> string \<Rightarrow> bool" where
  "ends_with p s \<longleftrightarrow> length p \<le> length s \<and> drop (length s - length p) s = p"

record web_request =
  req_path :: string
  req_cookie :: "string option"
  req_authorization :: "string option"

definition extract_session_id :: "web_request \<Rightarrow> string option" where
  "extract_session_id req =
     (case req_cookie req of
        Some value \<Rightarrow> Some value
      | None \<Rightarrow>
          (case req_authorization req of
             Some auth \<Rightarrow> strip_prefix ''Bearer '' auth
           | None \<Rightarrow> None))"

definition is_public_endpoint :: "string \<Rightarrow> bool" where
  "is_public_endpoint path \<longleftrightarrow>
     path \<in> {''/'', ''/auth/login'', ''/auth/login/totp'', ''/health'', ''/setup'', ''/setup/init''} \<or>
     starts_with ''/assets/'' path \<or> starts_with ''/static/'' path \<or>
     ends_with ''.js'' path \<or> ends_with ''.css'' path \<or> ends_with ''.ico'' path \<or>
     ends_with ''.png'' path \<or> ends_with ''.svg'' path"

definition is_setup_public_endpoint :: "string \<Rightarrow> bool" where
  "is_setup_public_endpoint path \<longleftrightarrow>
     path \<in> {''/setup'', ''/setup/init'', ''/devices'', ''/video/input-status'', ''/stream/codecs'',
             ''/video/codecs''}"

text \<open>The handler runs, with the session the gate attached, or the gate answers.\<close>

datatype gate = RunHandler "Session option" | Answer nat ErrorResponse

definition unauthorized_response :: "string \<Rightarrow> gate" where
  "unauthorized_response message =
     Answer UNAUTHORIZED \<lparr>er_success = False, er_code = None, er_message = message\<rparr>"

definition auth_middleware :: "int \<Rightarrow> web_request \<Rightarrow> AppState \<Rightarrow> gate \<times> AppState" where
  "auth_middleware now req s =
     (let raw_path = req_path req;
          path = (case strip_prefix ''/api'' raw_path of Some p \<Rightarrow> p | None \<Rightarrow> raw_path)
      in if \<not> cfg_initialized s \<and> is_setup_public_endpoint path then (RunHandler None, s)
         else if is_public_endpoint path then (RunHandler None, s)
         else
           (case extract_session_id req of
              Some sid \<Rightarrow>
                (let (found, st) = sessions_get now sid (app_sessions s);
                     s = s\<lparr>app_sessions := st\<rparr>
                 in case found of
                      Some session \<Rightarrow> (RunHandler (Some session), s)
                    | None \<Rightarrow>
                        (unauthorized_response
                           (if is_session_revoked sid s then ''Logged in elsewhere'' else ''Session expired''), s))
            | None \<Rightarrow> (unauthorized_response ''Not authenticated'', s)))"

section \<open>Login and logout\<close>

record Cookie =
  cookie_name :: string
  cookie_value :: string
  cookie_path :: string
  cookie_http_only :: bool
  cookie_same_site_lax :: bool
  cookie_max_age :: int

datatype cookie_change = CookieKeep | CookieAdd Cookie | CookieRemove Cookie

definition SESSION_COOKIE :: string where "SESSION_COOKIE = ''one_kvm_session''"

record AuthLoginResponse =
  alr_next :: string
  alr_challenge_id :: "string option"
  alr_expires_at_unix_ms :: "nat option"

record LoginResponse =
  lr_success :: bool
  lr_message :: "string option"

definition create_authenticated_session ::
  "('t, 'h) web_env \<Rightarrow> string \<Rightarrow> (cookie_change \<times> AuthLoginResponse) app" where
  "create_authenticated_session env uid =
     sx_bind (sx_read (\<lambda>s. (allow_multiple_sessions s, session_timeout_secs s))) (\<lambda>(multi, timeout).
     sx_bind (on_sessions (create_for_login (env_now_utc env) (env_uuid env) uid multi)) (\<lambda>(session, revoked_ids).
     sx_bind (sx_update (remember_revoked_sessions revoked_ids)) (\<lambda>_.
     sx_return
       (CookieAdd
          \<lparr>cookie_name = SESSION_COOKIE, cookie_value = session_id session, cookie_path = ''/'',
           cookie_http_only = True, cookie_same_site_lax = True, cookie_max_age = int timeout\<rparr>,
        \<lparr>alr_next = ''authenticated'', alr_challenge_id = None, alr_expires_at_unix_ms = None\<rparr>))))"

definition login ::
  "('t, 'h) web_env \<Rightarrow> string \<Rightarrow> string \<Rightarrow> (cookie_change \<times> AuthLoginResponse) app" where
  "login env name password =
     sx_bind (sx_read cfg_initialized) (\<lambda>initialized.
       if \<not> initialized then sx_fail (BadRequest ''System not initialized'')
       else
         sx_bind (on_users (users_verify (env_pw env) name password)) (\<lambda>found.
         sx_bind (sx_ok_or (AuthError ''Invalid username or password'') found) (\<lambda>user.
         sx_bind (on_two_factor (begin_login (env_clock env) (env_uuid env) (user_id user))) (\<lambda>challenge.
           case challenge of
             Some challenge \<Rightarrow>
               sx_return (CookieKeep,
                 \<lparr>alr_next = ''totp'', alr_challenge_id = Some (ci_id challenge),
                  alr_expires_at_unix_ms = Some (ci_expires_at_unix_ms challenge)\<rparr>)
           | None \<Rightarrow> create_authenticated_session env (user_id user)))))"

definition login_totp ::
  "('t, 'h) web_env \<Rightarrow> string \<Rightarrow> string \<Rightarrow> (cookie_change \<times> AuthLoginResponse) app" where
  "login_totp env challenge_id code =
     sx_bind (on_two_factor (complete_login (env_totp env) (env_clock env) challenge_id code)) (\<lambda>uid.
     create_authenticated_session env uid)"

definition logout :: "string option \<Rightarrow> (cookie_change \<times> LoginResponse) app" where
  "logout cookie =
     sx_bind
       (case cookie of
          Some value \<Rightarrow> on_sessions (\<lambda>st. ((), sessions_delete value st))
        | None \<Rightarrow> sx_return ()) (\<lambda>_.
     sx_return
       (CookieRemove
          \<lparr>cookie_name = SESSION_COOKIE, cookie_value = [], cookie_path = ''/'', cookie_http_only = False,
           cookie_same_site_lax = False, cookie_max_age = 0\<rparr>,
        \<lparr>lr_success = True, lr_message = Some ''Logged out''\<rparr>))"

text \<open>\<open>auth_check\<close> answers with the name of the session's user, if it is the one of the table.\<close>

definition auth_check :: "Session \<Rightarrow> AppState \<Rightarrow> string option \<times> AppState" where
  "auth_check session s =
     (case on_users single_user s of
        (Inr (Some user), s') \<Rightarrow> (if user_id user = session_user session then Some (username user) else None, s')
      | (_, s') \<Rightarrow> (None, s'))"

section \<open>The account\<close>

record TotpStatusResponse =
  tsr_enabled :: bool
  tsr_server_time_unix_ms :: nat

definition totp_status :: "('t, 'h) web_env \<Rightarrow> Session \<Rightarrow> TotpStatusResponse app" where
  "totp_status env session =
     sx_bind (on_two_factor (is_enabled (session_user session))) (\<lambda>enabled.
     sx_return \<lparr>tsr_enabled = enabled, tsr_server_time_unix_ms = now_unix_ms (env_clock env)\<rparr>)"

definition authenticated_user :: "Session \<Rightarrow> User app" where
  "authenticated_user session =
     sx_bind (on_users single_user) (\<lambda>found.
     sx_ok_or (AuthError ''Invalid session'')
       (case found of
          None \<Rightarrow> None
        | Some user \<Rightarrow> if user_id user = session_user session then Some user else None))"

definition verify_current_password :: "('t, 'h) web_env \<Rightarrow> User \<Rightarrow> string \<Rightarrow> unit app" where
  "verify_current_password env user password =
     sx_bind (on_users (users_verify (env_pw env) (username user) password)) (\<lambda>found.
       if found = None then sx_fail (AuthError ''Current password is incorrect'') else sx_return ())"

definition revoke_other_sessions :: "string \<Rightarrow> unit app" where
  "revoke_other_sessions current_session_id =
     sx_bind (on_sessions (delete_all_except current_session_id)) (\<lambda>revoked.
     sx_update (remember_revoked_sessions revoked))"

definition begin_totp_enrollment :: "('t, 'h) web_env \<Rightarrow> Session \<Rightarrow> string \<Rightarrow> EnrollmentInfo app" where
  "begin_totp_enrollment env session current_password =
     sx_bind (authenticated_user session) (\<lambda>user.
     sx_bind (verify_current_password env user current_password) (\<lambda>_.
     on_two_factor (begin_enrollment (env_totp env) (env_clock env) (env_uuid env) (env_secret env)
       (session_id session) (user_id user) (username user))))"

definition confirm_totp_enrollment ::
  "('t, 'h) web_env \<Rightarrow> Session \<Rightarrow> string \<Rightarrow> string \<Rightarrow> LoginResponse app" where
  "confirm_totp_enrollment env session enrollment_id code =
     sx_bind (authenticated_user session) (\<lambda>_.
     sx_bind (on_two_factor (confirm_enrollment (env_totp env) (env_clock env) (session_id session)
       (session_user session) enrollment_id code)) (\<lambda>_.
     sx_bind (revoke_other_sessions (session_id session)) (\<lambda>_.
     sx_return \<lparr>lr_success = True, lr_message = None\<rparr>)))"

definition disable_totp :: "('t, 'h) web_env \<Rightarrow> Session \<Rightarrow> string \<Rightarrow> string \<Rightarrow> LoginResponse app" where
  "disable_totp env session current_password code =
     sx_bind (authenticated_user session) (\<lambda>user.
     sx_bind (verify_current_password env user current_password) (\<lambda>_.
     sx_bind (on_two_factor (disable (env_totp env) (env_clock env) (user_id user) code)) (\<lambda>_.
     sx_bind (revoke_other_sessions (session_id session)) (\<lambda>_.
     sx_return \<lparr>lr_success = True, lr_message = None\<rparr>))))"

definition current_user_of :: "Session \<Rightarrow> User app" where
  "current_user_of session =
     sx_bind (on_users single_user) (\<lambda>found.
     sx_bind (sx_ok_or (AuthError ''User not found'') found) (\<lambda>current_user.
       if user_id current_user \<noteq> session_user session then sx_fail (AuthError ''Invalid session'')
       else sx_return current_user))"

definition change_password :: "('t, 'h) web_env \<Rightarrow> Session \<Rightarrow> string \<Rightarrow> string \<Rightarrow> LoginResponse app" where
  "change_password env session current_password new_password =
     sx_bind (current_user_of session) (\<lambda>current_user.
       if length new_password < 4 then sx_fail (BadRequest ''Password must be at least 4 characters'')
       else
         sx_bind (verify_current_password env current_user current_password) (\<lambda>_.
         sx_bind (on_users (update_password (env_pw env) (env_salt env) (session_user session) new_password)) (\<lambda>_.
         sx_return \<lparr>lr_success = True, lr_message = Some ''Password changed successfully''\<rparr>)))"

definition change_username :: "('t, 'h) web_env \<Rightarrow> Session \<Rightarrow> string \<Rightarrow> string \<Rightarrow> LoginResponse app" where
  "change_username env session new_username current_password =
     sx_bind (current_user_of session) (\<lambda>current_user.
       if length new_username < 2 then sx_fail (BadRequest ''Username must be at least 2 characters'')
       else
         sx_bind (verify_current_password env current_user current_password) (\<lambda>_.
         sx_bind
           (if username current_user \<noteq> new_username
            then on_users (update_username (session_user session) new_username) else sx_return ()) (\<lambda>_.
         sx_return \<lparr>lr_success = True, lr_message = Some ''Username changed successfully''\<rparr>)))"

section \<open>Redfish\<close>

datatype http_method = GET | POST | PUT | PATCH | DELETE

record redfish_request =
  rf_path :: string
  rf_method :: http_method
  rf_token :: "string option"
  rf_authorization :: "string option"

datatype redfish_error =
    RfServiceUnavailable string
  | RfInvalidCredentials
  | RfAuthenticationRequired
  | RfResourceNotFound
  | RfGeneralError string

datatype redfish_gate = RfRunPublic | RfRunSession Session | RfRunUser User | RfAnswer nat redfish_error

definition is_redfish_public_endpoint :: "string \<Rightarrow> http_method \<Rightarrow> bool" where
  "is_redfish_public_endpoint path method \<longleftrightarrow>
     path \<in> {''/'', ''/v1'', ''/v1/'', ''/v1/odata''} \<or>
     starts_with ''/v1/$metadata'' path \<or>
     path = ''/v1/SessionService/Sessions'' \<and> method = POST"

text \<open>\<open>b64\<close> is the decoder of the \<open>base64\<close> crate.\<close>

definition decode_basic_auth :: "(string \<Rightarrow> bytes option) \<Rightarrow> string \<Rightarrow> (string \<times> string) option" where
  "decode_basic_auth b64 encoded =
     (case b64 encoded of
        None \<Rightarrow> None
      | Some decoded \<Rightarrow>
          (case from_utf8 decoded of
             None \<Rightarrow> None
           | Some creds \<Rightarrow>
               (let name = takeWhile (\<lambda>c. c \<noteq> CHR '':'') creds
                in case dropWhile (\<lambda>c. c \<noteq> CHR '':'') creds of
                     [] \<Rightarrow> None
                   | _ # password \<Rightarrow> if name = [] then None else Some (name, password))))"

text \<open>The second half of the gate: basic credentials.\<close>

definition redfish_basic ::
  "(string \<Rightarrow> bytes option) \<Rightarrow> 'h pw_lib \<Rightarrow> string option \<Rightarrow> AppState \<Rightarrow> redfish_gate \<times> AppState" where
  "redfish_basic b64 lib authorization s =
     (case Option.bind (Option.bind authorization (strip_prefix ''Basic '')) (decode_basic_auth b64) of
        None \<Rightarrow> (RfAnswer UNAUTHORIZED RfAuthenticationRequired, s)
      | Some (name, password) \<Rightarrow>
          (case on_users (users_verify lib name password) s of
             (Inr (Some user), s') \<Rightarrow> (RfRunUser user, s')
           | (_, s') \<Rightarrow> (RfAnswer UNAUTHORIZED RfInvalidCredentials, s')))"

definition redfish_auth_middleware ::
  "(string \<Rightarrow> bytes option) \<Rightarrow> 'h pw_lib \<Rightarrow> int \<Rightarrow> redfish_request \<Rightarrow> AppState \<Rightarrow> redfish_gate \<times> AppState" where
  "redfish_auth_middleware b64 lib now req s =
     (if \<not> cfg_initialized s then
        (RfAnswer SERVICE_UNAVAILABLE (RfServiceUnavailable ''System not initialized''), s)
      else if is_redfish_public_endpoint (rf_path req) (rf_method req) then (RfRunPublic, s)
      else
        (case rf_token req of
           None \<Rightarrow> redfish_basic b64 lib (rf_authorization req) s
         | Some token \<Rightarrow>
             if is_session_revoked token s then (RfAnswer UNAUTHORIZED RfInvalidCredentials, s)
             else
               (let (found, st) = sessions_get now token (app_sessions s);
                    s = s\<lparr>app_sessions := st\<rparr>
                in case found of
                     Some session \<Rightarrow> (RfRunSession session, s)
                   | None \<Rightarrow> redfish_basic b64 lib (rf_authorization req) s)))"

datatype redfish_answer = RfCreated string string string | RfError nat redfish_error | RfNoContent

definition CREATED :: nat where "CREATED = 201"
definition NO_CONTENT :: nat where "NO_CONTENT = 204"

text \<open>\<open>session_create\<close>: the answer carries the token, the location and the user's name.\<close>

definition redfish_session_create ::
  "('t, 'h) web_env \<Rightarrow> string \<Rightarrow> string \<Rightarrow> AppState \<Rightarrow> redfish_answer \<times> AppState" where
  "redfish_session_create env name password s =
     (case on_users (users_verify (env_pw env) name password) s of
        (Inr (Some user), s) \<Rightarrow>
          (let s = (if \<not> allow_multiple_sessions s then
                      (let revoked_ids = list_ids (app_sessions s);
                           s = s\<lparr>app_sessions := snd (sessions_delete_all (app_sessions s))\<rparr>
                       in remember_revoked_sessions revoked_ids s)
                    else s);
               (session, st) = sessions_create (env_now_utc env) (env_uuid env) (user_id user) (app_sessions s);
               location = ''/redfish/v1/SessionService/Sessions/'' @ session_id session
           in (RfCreated (session_id session) location (username user), s\<lparr>app_sessions := st\<rparr>))
      | (_, s) \<Rightarrow> (RfError UNAUTHORIZED RfInvalidCredentials, s))"

definition redfish_session_delete :: "int \<Rightarrow> string \<Rightarrow> AppState \<Rightarrow> redfish_answer \<times> AppState" where
  "redfish_session_delete now sid s =
     (let (found, st) = sessions_get now sid (app_sessions s);
          s = s\<lparr>app_sessions := st\<rparr>
      in case found of
           Some _ \<Rightarrow> (RfNoContent, s\<lparr>app_sessions := sessions_delete sid (app_sessions s)\<rparr>)
         | None \<Rightarrow> (RfError NOT_FOUND RfResourceNotFound, s))"

text \<open>\<open>session_list\<close>: the identifiers that still resolve, each looked up in turn.\<close>

fun live_ids :: "int \<Rightarrow> string list \<Rightarrow> SessionStore \<Rightarrow> string list \<times> SessionStore" where
  "live_ids now [] st = ([], st)"
| "live_ids now (i # is) st =
     (let (found, st) = sessions_get now i st;
          (rest, st) = live_ids now is st
      in (if found \<noteq> None then i # rest else rest, st))"

definition redfish_session_list :: "int \<Rightarrow> AppState \<Rightarrow> string list \<times> AppState" where
  "redfish_session_list now s =
     (let (ids, st) = live_ids now (list_ids (app_sessions s)) (app_sessions s)
      in (map (\<lambda>i. ''/redfish/v1/SessionService/Sessions/'' @ i) ids, s\<lparr>app_sessions := st\<rparr>))"

section \<open>Parts of the state\<close>

lemma on_users_eq: "on_users m s = (fst (m (app_users s)), s\<lparr>app_users := snd (m (app_users s))\<rparr>)"
  by (simp add: on_users_def sx_zoom_def case_prod_beta)

lemma on_two_factor_eq:
  "on_two_factor m s = (fst (m (app_two_factor s)), s\<lparr>app_two_factor := snd (m (app_two_factor s))\<rparr>)"
  by (simp add: on_two_factor_def sx_zoom_def case_prod_beta)

lemma on_sessions_eq:
  "on_sessions f s = (Inr (fst (f (app_sessions s))), s\<lparr>app_sessions := snd (f (app_sessions s))\<rparr>)"
  by (simp add: on_sessions_def case_prod_beta)

lemmas app_parts = on_users_eq on_two_factor_eq on_sessions_eq

lemma on_Inr:
  "on_users m s = (Inr a, s') \<longleftrightarrow> (\<exists>u. m (app_users s) = (Inr a, u) \<and> s' = s\<lparr>app_users := u\<rparr>)"
  "on_two_factor n s = (Inr b, s') \<longleftrightarrow> (\<exists>t. n (app_two_factor s) = (Inr b, t) \<and> s' = s\<lparr>app_two_factor := t\<rparr>)"
  "on_sessions f s = (Inr c, s') \<longleftrightarrow> (\<exists>st. f (app_sessions s) = (c, st) \<and> s' = s\<lparr>app_sessions := st\<rparr>)"
  by (auto simp: app_parts prod_eq_iff)

lemma us_query_Inr: "us_query s = (Inr r, s') \<Longrightarrow> s' = s\<lparr>user_db := tl (user_db s)\<rparr>"
  by (auto simp: us_query_def)

lemma single_user_Inr:
  assumes "single_user us = (Inr found, us')"
  shows "user_rows us' = user_rows us \<and>
    (case found of None \<Rightarrow> user_rows us = [] | Some user \<Rightarrow> user_rows us = [user])"
proof -
  obtain us1 where q: "us_query us = (Inr (), us1)"
    and rest: "(case take 2 (user_rows us1) of [] \<Rightarrow> sx_return None | [row] \<Rightarrow> sx_return (Some row)
       | _ \<Rightarrow> sx_fail (Internal ''Multiple user accounts in database; this build supports only one'')) us1 =
      (Inr found, us')"
    using assms by (auto simp: single_user_def sx_bind_Inr sx_Inr)
  have us1: "user_rows us1 = user_rows us" using us_query_Inr [OF q] by simp
  consider "user_rows us = []" | u where "user_rows us = [u]" | u v r where "user_rows us = u # v # r"
    by (metis neq_Nil_conv)
  then show ?thesis
    using rest us1 by cases (auto simp: sx_Inr)
qed

definition password_ok :: "'h pw_lib \<Rightarrow> User \<Rightarrow> string \<Rightarrow> bool" where
  "password_ok lib user password \<longleftrightarrow> verify_password lib password (password_hash user) = Inr True"

lemma users_verify_Inr:
  assumes "users_verify lib name password us = (Inr (Some user), us')"
  shows "user_rows us = [user] \<and> user_rows us' = user_rows us \<and> username user = name \<and> password_ok lib user password"
proof -
  obtain found us1 where f: "single_user us = (Inr found, us1)"
    and rest: "(case found of None \<Rightarrow> sx_return None
       | Some user \<Rightarrow> if username user \<noteq> name then sx_return None
           else sx_bind (sx_lift (verify_password lib password (password_hash user))) (\<lambda>ok.
             sx_return (if ok then Some user else None))) us1 = (Inr (Some user), us')"
    using assms by (auto simp: users_verify_def sx_bind_Inr)
  then show ?thesis
    using single_user_Inr [OF f]
    by (auto simp: sx_bind_Inr sx_Inr password_ok_def split: option.splits if_splits)
qed

lemma sessions_get_live: "fst (sessions_get now sid st) = live now st sid"
  by (simp add: sessions_get_def live_get split: option.split)

section \<open>Login\<close>

lemma create_authenticated_session_eq:
  "create_authenticated_session env uid s =
     (let ((session, revoked), st) =
        create_for_login (env_now_utc env) (env_uuid env) uid (allow_multiple_sessions s) (app_sessions s)
      in (Inr (CookieAdd
            \<lparr>cookie_name = SESSION_COOKIE, cookie_value = session_id session, cookie_path = ''/'',
             cookie_http_only = True, cookie_same_site_lax = True, cookie_max_age = int (session_timeout_secs s)\<rparr>,
           \<lparr>alr_next = ''authenticated'', alr_challenge_id = None, alr_expires_at_unix_ms = None\<rparr>),
          remember_revoked_sessions revoked (s\<lparr>app_sessions := st\<rparr>)))"
  by (simp add: create_authenticated_session_def sx_simps on_sessions_eq case_prod_beta Let_def)

lemma remember_revoked_frame [simp]:
  "app_sessions (remember_revoked_sessions ids s) = app_sessions s"
  "app_users (remember_revoked_sessions ids s) = app_users s"
  "app_two_factor (remember_revoked_sessions ids s) = app_two_factor s"
  "length (revoked_sessions s) \<le> 32 \<Longrightarrow> length (revoked_sessions (remember_revoked_sessions ids s)) \<le> 32"
  by (simp_all add: remember_revoked_sessions_def Let_def del: drop_append) linarith

lemma begin_login_Inr:
  "begin_login clk uuid u t = (Inr r, t') \<Longrightarrow>
     credentials t' = credentials t \<and> (r = None \<longleftrightarrow> hm_get (credentials t) u = None) \<and>
     (\<forall>i. r = Some i \<longrightarrow> ci_id i = uuid)"
  by (auto simp: begin_login_def is_enabled_def sx_bind_Inr sx_Inr Let_def split: if_splits dest!: tf_query_Inr)

lemma sx_bind_sessions:
  assumes "app_sessions (snd (m s)) = app_sessions s"
    and "\<And>a s'. m s = (Inr a, s') \<Longrightarrow> fst (f a s') = Inl e \<Longrightarrow> app_sessions (snd (f a s')) = app_sessions s'"
    and "fst (sx_bind m f s) = Inl e"
  shows "app_sessions (snd (sx_bind m f s)) = app_sessions s"
proof (cases "m s")
  case (Pair r s')
  then show ?thesis using assms by (cases r) (auto simp: sx_bind_def)
qed

text \<open>The session a login hands out.\<close>

definition session_created :: "('t, 'h) web_env \<Rightarrow> string \<Rightarrow> AppState \<Rightarrow> AppState \<Rightarrow> bool" where
  "session_created env uid s s' \<longleftrightarrow>
     app_sessions s' =
       snd (create_for_login (env_now_utc env) (env_uuid env) uid (allow_multiple_sessions s) (app_sessions s))"

lemma login_Inr:
  assumes "login env name password s = (Inr (ck, resp), s')"
  shows "cfg_initialized s \<and> (\<exists>user. user_rows (app_users s) = [user] \<and> username user = name \<and>
    password_ok (env_pw env) user password \<and>
    (if hm_get (credentials (app_two_factor s)) (user_id user) \<noteq> None
     then ck = CookieKeep \<and> alr_next resp = ''totp'' \<and> alr_challenge_id resp = Some (env_uuid env) \<and>
       app_sessions s' = app_sessions s
     else alr_next resp = ''authenticated'' \<and> session_created env (user_id user) s s'))"
proof -
  from assms obtain s1 user s2 ch where init: "cfg_initialized s"
    and v: "on_users (users_verify (env_pw env) name password) s = (Inr (Some user), s1)"
    and b: "on_two_factor (begin_login (env_clock env) (env_uuid env) (user_id user)) s1 = (Inr ch, s2)"
    and rest: "(case ch of
             Some challenge \<Rightarrow>
               sx_return (CookieKeep,
                 \<lparr>alr_next = ''totp'', alr_challenge_id = Some (ci_id challenge),
                  alr_expires_at_unix_ms = Some (ci_expires_at_unix_ms challenge)\<rparr>)
           | None \<Rightarrow> create_authenticated_session env (user_id user)) s2 = (Inr (ck, resp), s')"
    by (auto simp: login_def sx_bind_Inr sx_Inr split: if_splits)
  obtain us t where s1: "users_verify (env_pw env) name password (app_users s) = (Inr (Some user), us)"
      "s1 = s\<lparr>app_users := us\<rparr>"
    and s2: "begin_login (env_clock env) (env_uuid env) (user_id user) (app_two_factor s1) = (Inr ch, t)"
      "s2 = s1\<lparr>app_two_factor := t\<rparr>"
    using v b by (auto simp: on_Inr)
  have ch: "ch = None \<longleftrightarrow> hm_get (credentials (app_two_factor s)) (user_id user) = None"
    "\<And>i. ch = Some i \<Longrightarrow> ci_id i = env_uuid env"
    using begin_login_Inr [OF s2(1)] s1(2) by auto
  have "if hm_get (credentials (app_two_factor s)) (user_id user) \<noteq> None
     then ck = CookieKeep \<and> alr_next resp = ''totp'' \<and> alr_challenge_id resp = Some (env_uuid env) \<and>
       app_sessions s' = app_sessions s
     else alr_next resp = ''authenticated'' \<and> session_created env (user_id user) s s'"
    using rest ch s1(2) s2(2)
    by (cases ch) (auto simp: sx_Inr create_authenticated_session_eq session_created_def case_prod_beta Let_def)
  then show ?thesis using init users_verify_Inr [OF s1(1)] by blast
qed

lemma login_Inl:
  assumes "login env name password s = (Inl e, s')"
  shows "app_sessions s' = app_sessions s"
  using assms
  by (auto simp: login_def sx_simps app_parts create_authenticated_session_eq Let_def case_prod_beta
      split: if_splits option.splits sum.splits prod.splits)

lemma login_totp_Inr:
  assumes "login_totp env cid code s = (Inr x, s')"
  shows "\<exists>u t. complete_login (env_totp env) (env_clock env) cid code (app_two_factor s) = (Inr u, t) \<and>
    session_created env u s s' \<and> app_two_factor s' = t \<and> alr_next (snd x) = ''authenticated''"
  using assms
  by (auto simp: login_totp_def sx_bind_Inr on_Inr create_authenticated_session_eq session_created_def
      case_prod_beta Let_def)

lemma login_totp_Inl:
  "login_totp env cid code s = (Inl e, s') \<Longrightarrow> app_sessions s' = app_sessions s"
  by (auto simp: login_totp_def sx_simps app_parts create_authenticated_session_eq Let_def case_prod_beta
      split: sum.splits prod.splits)

section \<open>Account changes\<close>

lemma revoke_other_sessions_eq:
  "revoke_other_sessions sid s =
     (Inr (), remember_revoked_sessions (fst (delete_all_except sid (app_sessions s)))
        (s\<lparr>app_sessions := snd (delete_all_except sid (app_sessions s))\<rparr>))"
  by (simp add: revoke_other_sessions_def sx_simps on_sessions_eq)

lemma delete_all_except_live:
  "store_wf st \<Longrightarrow> live t (snd (delete_all_except sid st)) i = (if i = sid then live t st i else None)"
  by (auto simp: delete_all_except_def live_get store_wf_def hm_gets split: option.split)

lemma on_single_user_Inr:
  assumes "on_users single_user s = (Inr found, s')"
  shows "(case found of None \<Rightarrow> user_rows (app_users s) = [] | Some user \<Rightarrow> user_rows (app_users s) = [user]) \<and>
    user_rows (app_users s') = user_rows (app_users s) \<and> app_sessions s' = app_sessions s \<and>
    app_two_factor s' = app_two_factor s"
proof -
  obtain us where u: "single_user (app_users s) = (Inr found, us)" "s' = s\<lparr>app_users := us\<rparr>"
    using assms by (auto simp: on_Inr)
  then show ?thesis using single_user_Inr [OF u(1)] by simp
qed

lemma authenticated_user_Inr:
  assumes "authenticated_user session s = (Inr user, s')"
  shows "user_rows (app_users s) = [user] \<and> user_id user = session_user session \<and>
     user_rows (app_users s') = user_rows (app_users s) \<and> app_sessions s' = app_sessions s \<and>
     app_two_factor s' = app_two_factor s"
proof -
  obtain found where "on_users single_user s = (Inr found, s')"
    "(case found of None \<Rightarrow> None | Some user \<Rightarrow> if user_id user = session_user session then Some user else None) = Some user"
    using assms by (auto simp: authenticated_user_def sx_bind_Inr sx_Inr)
  then show ?thesis
    using on_single_user_Inr [of s found s'] by (auto split: option.splits if_splits)
qed

lemma verify_current_password_Inr:
  assumes "verify_current_password env user password s = (Inr r, s')"
  shows "(\<exists>u. user_rows (app_users s) = [u] \<and> username u = username user \<and> password_ok (env_pw env) u password) \<and>
     user_rows (app_users s') = user_rows (app_users s) \<and> app_sessions s' = app_sessions s \<and>
     app_two_factor s' = app_two_factor s"
proof -
  obtain u us where u: "users_verify (env_pw env) (username user) password (app_users s) = (Inr (Some u), us)"
    "s' = s\<lparr>app_users := us\<rparr>"
    using assms by (auto simp: verify_current_password_def sx_bind_Inr sx_Inr on_Inr split: if_splits)
  then show ?thesis using users_verify_Inr [OF u(1)] by auto
qed

lemma current_user_of_Inr:
  assumes "current_user_of session s = (Inr user, s')"
  shows "user_rows (app_users s) = [user] \<and> user_id user = session_user session \<and>
     user_rows (app_users s') = user_rows (app_users s) \<and> app_sessions s' = app_sessions s \<and>
     app_two_factor s' = app_two_factor s"
proof -
  have "on_users single_user s = (Inr (Some user), s')" "user_id user = session_user session"
    using assms by (auto simp: current_user_of_def sx_bind_Inr sx_Inr split: if_splits)
  then show ?thesis using on_single_user_Inr [of s "Some user" s'] by simp
qed

lemma update_rows_Inr:
  "update_rows uid f us = (Inr n, us') \<Longrightarrow>
     user_rows us' = map (\<lambda>u. if user_id u = uid then f u else u) (user_rows us)"
  by (auto simp: update_rows_def sx_bind_Inr sx_Inr dest!: us_query_Inr)

lemma update_password_Inr:
  assumes "update_password lib salt uid pw us = (Inr r, us')"
  shows "\<exists>user hash. user_rows us = [user] \<and> user_id user = uid \<and> hash_password lib salt pw = Inr hash \<and>
    user_rows us' = [user\<lparr>password_hash := hash\<rparr>]"
  using assms
  by (auto simp: update_password_def sx_bind_Inr sx_Inr split: if_splits dest!: single_user_Inr update_rows_Inr)

lemma disable_totp_Inr:
  assumes "disable_totp env session pw code s = (Inr r, s')"
  shows "\<exists>user t. user_rows (app_users s) = [user] \<and> user_id user = session_user session \<and>
    password_ok (env_pw env) user pw \<and>
    disable (env_totp env) (env_clock env) (user_id user) code (app_two_factor s) = (Inr (), t) \<and>
    app_two_factor s' = t \<and> app_sessions s' = snd (delete_all_except (session_id session) (app_sessions s))"
proof -
  obtain user s1 s2 s3 where a: "authenticated_user session s = (Inr user, s1)"
    and v: "verify_current_password env user pw s1 = (Inr (), s2)"
    and d: "on_two_factor (disable (env_totp env) (env_clock env) (user_id user) code) s2 = (Inr (), s3)"
    and r: "revoke_other_sessions (session_id session) s3 = (Inr (), s')"
    using assms by (auto simp: disable_totp_def sx_bind_Inr sx_Inr)
  obtain t where t: "disable (env_totp env) (env_clock env) (user_id user) code (app_two_factor s2) = (Inr (), t)"
    "s3 = s2\<lparr>app_two_factor := t\<rparr>"
    using d by (auto simp: on_Inr)
  have s': "app_sessions s' = snd (delete_all_except (session_id session) (app_sessions s3))"
    "app_two_factor s' = app_two_factor s3"
    using r by (auto simp: revoke_other_sessions_eq)
  show ?thesis
    using authenticated_user_Inr [OF a] verify_current_password_Inr [OF v] t s' by auto
qed

lemma confirm_totp_enrollment_Inr:
  assumes "confirm_totp_enrollment env session eid code s = (Inr r, s')"
  shows "\<exists>t. confirm_enrollment (env_totp env) (env_clock env) (session_id session) (session_user session) eid code
      (app_two_factor s) = (Inr (), t) \<and>
    app_two_factor s' = t \<and> app_sessions s' = snd (delete_all_except (session_id session) (app_sessions s))"
proof -
  obtain user s1 s2 where a: "authenticated_user session s = (Inr user, s1)"
    and d: "on_two_factor (confirm_enrollment (env_totp env) (env_clock env) (session_id session)
      (session_user session) eid code) s1 = (Inr (), s2)"
    and r: "revoke_other_sessions (session_id session) s2 = (Inr (), s')"
    using assms by (auto simp: confirm_totp_enrollment_def sx_bind_Inr sx_Inr)
  obtain t where t: "confirm_enrollment (env_totp env) (env_clock env) (session_id session) (session_user session) eid code
      (app_two_factor s1) = (Inr (), t)" "s2 = s1\<lparr>app_two_factor := t\<rparr>"
    using d by (auto simp: on_Inr)
  have s': "app_sessions s' = snd (delete_all_except (session_id session) (app_sessions s2))"
    "app_two_factor s' = app_two_factor s2"
    using r by (auto simp: revoke_other_sessions_eq)
  show ?thesis using authenticated_user_Inr [OF a] t s' by auto
qed

lemma change_password_Inr:
  assumes "change_password env session old new s = (Inr r, s')"
  shows "\<exists>user hash. user_rows (app_users s) = [user] \<and> user_id user = session_user session \<and>
    password_ok (env_pw env) user old \<and> 4 \<le> length new \<and>
    hash_password (env_pw env) (env_salt env) new = Inr hash \<and>
    user_rows (app_users s') = [user\<lparr>password_hash := hash\<rparr>] \<and> app_sessions s' = app_sessions s"
proof -
  obtain user s1 s2 s3 where c: "current_user_of session s = (Inr user, s1)" and len: "4 \<le> length new"
    and v: "verify_current_password env user old s1 = (Inr (), s2)"
    and u: "on_users (update_password (env_pw env) (env_salt env) (session_user session) new) s2 = (Inr (), s3)"
    and s': "s' = s3"
    using assms by (auto simp: change_password_def sx_bind_Inr sx_Inr split: if_splits)
  obtain us where us: "update_password (env_pw env) (env_salt env) (session_user session) new (app_users s2) = (Inr (), us)"
    "s3 = s2\<lparr>app_users := us\<rparr>"
    using u by (auto simp: on_Inr)
  obtain user' hash where "user_rows (app_users s2) = [user']"
    "hash_password (env_pw env) (env_salt env) new = Inr hash" "user_rows us = [user'\<lparr>password_hash := hash\<rparr>]"
    using update_password_Inr [OF us(1)] by blast
  then show ?thesis
    using current_user_of_Inr [OF c] verify_current_password_Inr [OF v] len us(2) s' by auto
qed

section \<open>Redfish\<close>

lemma redfish_session_create_eq:
  assumes "user_rows (app_users s) = [user]" and "user_db (app_users s) = []"
    and "username user = name" and "password_ok (env_pw env) user password"
  shows "\<exists>loc s'. redfish_session_create env name password s = (RfCreated (env_uuid env) loc name, s') \<and>
    cfg_initialized s' = cfg_initialized s \<and> app_two_factor s' = app_two_factor s \<and>
    (store_wf (app_sessions s) \<longrightarrow> hm_get (sessions_inner (app_sessions s')) (env_uuid env) =
       Some (new_session (env_now_utc env) (env_uuid env) (user_id user) (app_sessions s)))"
proof -
  have "users_verify (env_pw env) name password (app_users s) = (Inr (Some user), app_users s)"
    using assms
    by (simp add: users_verify_def single_user_def us_query_def sx_simps password_ok_def)
  then show ?thesis
    using assms(3)
    by (auto simp: redfish_session_create_def on_users_eq sessions_create_def sessions_delete_all_def new_session_def
        remember_revoked_sessions_def store_wf_def hm_gets Let_def)
qed

lemma redfish_basic_run:
  assumes "redfish_basic b64 lib auth s = (RfRunUser user, s')"
  shows "\<exists>name password. user_rows (app_users s) = [user] \<and> username user = name \<and> password_ok lib user password \<and>
    Option.bind (Option.bind auth (strip_prefix ''Basic '')) (decode_basic_auth b64) = Some (name, password)"
proof -
  obtain name password where np:
      "Option.bind (Option.bind auth (strip_prefix ''Basic '')) (decode_basic_auth b64) = Some (name, password)"
      "on_users (users_verify lib name password) s = (Inr (Some user), s')"
    using assms by (auto simp: redfish_basic_def split: option.splits prod.splits sum.splits)
  then obtain us where "users_verify lib name password (app_users s) = (Inr (Some user), us)"
    by (auto simp: on_Inr)
  from users_verify_Inr [OF this] show ?thesis using np(1) by blast
qed

lemma redfish_basic_other: "fst (redfish_basic b64 lib auth s) \<noteq> RfRunSession x" "fst (redfish_basic b64 lib auth s) \<noteq> RfRunPublic"
  by (auto simp: redfish_basic_def split: option.splits prod.splits sum.splits)

section \<open>Properties\<close>

definition api_path :: "web_request \<Rightarrow> string" where
  "api_path req = (case strip_prefix ''/api'' (req_path req) of Some p \<Rightarrow> p | None \<Rightarrow> req_path req)"

definition open_path :: "AppState \<Rightarrow> string \<Rightarrow> bool" where
  "open_path s path \<longleftrightarrow> is_public_endpoint path \<or> \<not> cfg_initialized s \<and> is_setup_public_endpoint path"

lemma auth_middleware_eq:
  "auth_middleware now req s =
     (if open_path s (api_path req) then (RunHandler None, s)
      else
        (case extract_session_id req of
           None \<Rightarrow> (unauthorized_response ''Not authenticated'', s)
         | Some sid \<Rightarrow>
             (case live now (app_sessions s) sid of
                Some session \<Rightarrow> RunHandler (Some session)
              | None \<Rightarrow> unauthorized_response
                  (if is_session_revoked sid s then ''Logged in elsewhere'' else ''Session expired''),
              s\<lparr>app_sessions := snd (sessions_get now sid (app_sessions s))\<rparr>)))"
  unfolding auth_middleware_def Let_def api_path_def [symmetric] open_path_def
  by (simp add: case_prod_beta sessions_get_live is_session_revoked_def split: option.split)

text \<open>C20: The gate lets a request through without a session exactly on the paths of its two
  lists; on every other path it lets it through exactly when the cookie, or else the
  bearer token, names a session that is stored and has not expired, attaches that
  session, and answers 401 otherwise.\<close>

theorem gate_requires_session:
  "(fst (auth_middleware now req s) = RunHandler None \<longleftrightarrow> open_path s (api_path req)) \<and>
   (fst (auth_middleware now req s) = RunHandler (Some session) \<longleftrightarrow> \<not> open_path s (api_path req) \<and>
     (\<exists>sid. extract_session_id req = Some sid \<and> live now (app_sessions s) sid = Some session)) \<and>
   (case fst (auth_middleware now req s) of Answer code body \<Rightarrow> code = 401 \<and> \<not> er_success body | RunHandler _ \<Rightarrow> True)"
  by (auto simp: auth_middleware_eq unauthorized_response_def UNAUTHORIZED_def split: option.splits)

text \<open>The lists of the gate are wider than they look: a path of the drive whose file name
  ends like a picture runs its handler, the download or the deletion of that file, for a
  request without any credentials.\<close>

theorem gate_opens_by_suffix:
  "fst (auth_middleware now
     \<lparr>req_path = ''/api/msd/drive/files/backup.png'', req_cookie = None, req_authorization = None\<rparr> s) = RunHandler None"
proof -
  have "is_public_endpoint (api_path
      \<lparr>req_path = ''/api/msd/drive/files/backup.png'', req_cookie = None, req_authorization = None\<rparr>)"
    by (simp add: is_public_endpoint_def api_path_def strip_prefix_def ends_with_def)
  then show ?thesis by (simp add: auth_middleware_eq open_path_def)
qed

text \<open>A login with the password creates a session only when the name and the password are
  those of the single user and no second factor is enabled for it; with one enabled it
  only hands out a challenge, and a failed login leaves the sessions alone.\<close>

theorem password_login:
  "case login env name password s of
     (Inl _, s') \<Rightarrow> app_sessions s' = app_sessions s
   | (Inr (ck, resp), s') \<Rightarrow> cfg_initialized s \<and>
       (\<exists>user. user_rows (app_users s) = [user] \<and> username user = name \<and> password_ok (env_pw env) user password \<and>
         (if hm_get (credentials (app_two_factor s)) (user_id user) \<noteq> None
          then ck = CookieKeep \<and> alr_next resp = ''totp'' \<and> alr_challenge_id resp = Some (env_uuid env) \<and>
            app_sessions s' = app_sessions s
          else alr_next resp = ''authenticated'' \<and> session_created env (user_id user) s s'))"
proof (cases "login env name password s")
  case (Pair r s')
  show ?thesis
  proof (cases r)
    case (Inl e)
    then show ?thesis using Pair login_Inl [of env name password s e s'] by simp
  next
    case (Inr x)
    obtain ck resp where x: "x = (ck, resp)" by force
    from login_Inr [of env name password s ck resp s'] show ?thesis
      unfolding Pair Inr x prod.case sum.case using Pair Inr x by blast
  qed
qed

text \<open>A state for the witnesses; the hash of a password is the password.\<close>

definition toy_pw :: "string pw_lib" where
  "toy_pw = \<lparr>pw_hash = (\<lambda>p _. Inr p), pw_parse = Inr, pw_matches = (=)\<rparr>"

definition toy_env :: "(bytes, string) web_env" where
  "toy_env = \<lparr>env_totp = toy_lib, env_pw = toy_pw, env_clock = toy_clock 1, env_now_utc = 1, env_uuid = ''s2'',
     env_secret = [], env_salt = []\<rparr>"

definition toy_user :: User where
  "toy_user = \<lparr>user_id = ''u'', username = ''admin'', password_hash = ''pass''\<rparr>"

definition toy_app :: AppState where
  "toy_app = \<lparr>cfg_initialized = True, allow_multiple_sessions = False, session_timeout_secs = 60,
     app_sessions = snd (sessions_create 0 ''s1'' ''u'' (SessionStore_new 60)),
     app_users = \<lparr>user_rows = [toy_user], user_db = []\<rparr>, app_two_factor = toy_service, revoked_sessions = []\<rparr>"

definition toy_session :: Session where
  "toy_session = fst (sessions_create 0 ''s1'' ''u'' (SessionStore_new 60))"

lemma toy_app_parts:
  "app_two_factor toy_app = toy_service" "app_users toy_app = \<lparr>user_rows = [toy_user], user_db = []\<rparr>"
  "env_totp toy_env = toy_lib" "env_clock toy_env = toy_clock 1" "env_pw toy_env = toy_pw" "env_uuid toy_env = ''s2''"
  by (simp_all add: toy_app_def toy_env_def)

lemma toy_password: "password_ok toy_pw toy_user ''pass''"
  by (simp add: password_ok_def verify_password_def toy_pw_def toy_user_def)

lemma toy_single_user: "on_users single_user toy_app = (Inr (Some toy_user), toy_app)"
  by (simp add: on_users_eq single_user_def us_query_def sx_simps toy_app_def)

lemma toy_verify_password: "verify_current_password toy_env toy_user ''pass'' toy_app = (Inr (), toy_app)"
proof -
  have "users_verify toy_pw (username toy_user) ''pass'' (app_users toy_app) = (Inr (Some toy_user), app_users toy_app)"
    using toy_password
    by (simp add: users_verify_def single_user_def us_query_def sx_simps toy_app_parts password_ok_def)
  then show ?thesis by (simp add: verify_current_password_def sx_simps on_users_eq toy_app_parts(5))
qed

text \<open>Completing a login with a code creates a session exactly for the user whose pending
  challenge and stored secret the code was checked against, and spends the challenge; a
  failure leaves the sessions alone.\<close>

theorem code_login:
  assumes "tf_wf (app_two_factor s)"
  shows "case login_totp env cid code s of
     (Inl _, s') \<Rightarrow> app_sessions s' = app_sessions s
   | (Inr (ck, resp), s') \<Rightarrow> \<exists>u c secret.
       hm_get (login_challenges (app_two_factor s)) u = Some c \<and> lc_id c = cid \<and>
       hm_get (credentials (app_two_factor s)) u = Some secret \<and>
       verify_at (env_totp env) secret code (unix_time_secs (env_clock env)) = Inr True \<and>
       session_created env u s s' \<and> hm_get (login_challenges (app_two_factor s')) u = None"
proof (cases "login_totp env cid code s")
  case (Pair r s')
  show ?thesis
  proof (cases r)
    case (Inl e)
    then show ?thesis using Pair login_totp_Inl [of env cid code s e s'] by simp
  next
    case (Inr x)
    then obtain u t where u: "complete_login (env_totp env) (env_clock env) cid code (app_two_factor s) = (Inr u, t)"
      "session_created env u s s'" "app_two_factor s' = t"
      using Pair login_totp_Inr [of env cid code s x s'] by blast
    have gone: "hm_get (hm_remove u (login_challenges (app_two_factor s))) u = None"
      using assms by (simp add: tf_wf_def hm_gets)
    obtain c secret where "hm_get (login_challenges (app_two_factor s)) u = Some c" "lc_id c = cid"
      "hm_get (credentials (app_two_factor s)) u = Some secret"
      "verify_at (env_totp env) secret code (unix_time_secs (env_clock env)) = Inr True"
      "login_challenges t = hm_remove u (login_challenges (app_two_factor s))"
      using complete_login_Inr [OF u(1) assms] by blast
    then have "\<exists>u c secret.
       hm_get (login_challenges (app_two_factor s)) u = Some c \<and> lc_id c = cid \<and>
       hm_get (credentials (app_two_factor s)) u = Some secret \<and>
       verify_at (env_totp env) secret code (unix_time_secs (env_clock env)) = Inr True \<and>
       session_created env u s s' \<and> hm_get (login_challenges (app_two_factor s')) u = None"
      using u gone by (intro exI [of _ u] exI [of _ c] exI [of _ secret]) simp
    then show ?thesis unfolding Pair Inr by (cases x) simp
  qed
qed

theorem code_login_witness:
  "\<exists>u c. hm_get (login_challenges toy_service) u = Some c \<and> lc_id c = ''c1'' \<and>
     session_created toy_env u toy_app (snd (login_totp toy_env ''c1'' ''123456'' toy_app))"
proof -
  have "fst (on_two_factor (complete_login toy_lib (toy_clock 1) ''c1'' ''123456'') toy_app) = Inr ''u''"
    using toy_login by (simp add: on_two_factor_eq toy_app_parts)
  then obtain x s' where "login_totp toy_env ''c1'' ''123456'' toy_app = (Inr x, s')"
    by (auto simp: login_totp_def sx_bind_def toy_app_parts create_authenticated_session_eq case_prod_beta Let_def
        split: prod.splits)
  then show ?thesis
    using code_login [where s = toy_app and env = toy_env and cid = "''c1''" and code = "''123456''"] toy_service_wf by (cases x) (auto simp: toy_app_parts)
qed



text \<open>After a change of the password, given the old one, the table accepts the new password
  and no session is touched.\<close>

theorem password_change_takes_effect:
  assumes "change_password env session old new s = (Inr r, s')"
    and hash_verifies: "\<And>password salt h. pw_hash (env_pw env) password salt = Inr h \<Longrightarrow>
      (\<exists>x. pw_parse (env_pw env) h = Inr x \<and> pw_matches (env_pw env) password x)"
  shows "\<exists>before after. user_rows (app_users s) = [before] \<and> password_ok (env_pw env) before old \<and>
    user_rows (app_users s') = [after] \<and> password_ok (env_pw env) after new \<and>
    username after = username before \<and> app_sessions s' = app_sessions s \<and> 4 \<le> length new"
proof -
  obtain user hash where h: "user_rows (app_users s) = [user]" "password_ok (env_pw env) user old" "4 \<le> length new"
    "hash_password (env_pw env) (env_salt env) new = Inr hash"
    "user_rows (app_users s') = [user\<lparr>password_hash := hash\<rparr>]" "app_sessions s' = app_sessions s"
    using change_password_Inr [OF assms(1)] by blast
  have "pw_hash (env_pw env) new (env_salt env) = Inr hash"
    using h(4) by (auto simp: hash_password_def split: sum.splits)
  then have "password_ok (env_pw env) (user\<lparr>password_hash := hash\<rparr>) new"
    using hash_verifies by (fastforce simp: password_ok_def verify_password_def)
  then show ?thesis using h by auto
qed

theorem password_change_takes_effect_witness:
  "\<exists>after. user_rows (app_users (snd (change_password toy_env toy_session ''pass'' ''word'' toy_app))) = [after] \<and>
     password_ok toy_pw after ''word''"
proof -
  have u: "on_users (update_password toy_pw [] ''u'' ''word'') toy_app =
      (Inr (), toy_app\<lparr>app_users := \<lparr>user_rows = [toy_user\<lparr>password_hash := ''word''\<rparr>], user_db = []\<rparr>\<rparr>)"
    by (simp add: on_users_eq update_password_def single_user_def us_query_def update_rows_def sx_simps toy_app_parts
        toy_user_def hash_password_def toy_pw_def)
  have "\<exists>r. change_password toy_env toy_session ''pass'' ''word'' toy_app =
      (Inr r, toy_app\<lparr>app_users := \<lparr>user_rows = [toy_user\<lparr>password_hash := ''word''\<rparr>], user_db = []\<rparr>\<rparr>)"
    using u toy_verify_password toy_single_user
    by (simp add: change_password_def current_user_of_def sx_simps toy_session_def sessions_create_def
        new_session_def Let_def toy_user_def toy_env_def)
  then obtain r s' where "change_password toy_env toy_session ''pass'' ''word'' toy_app = (Inr r, s')" by blast
  with password_change_takes_effect [OF this] show ?thesis by (auto simp: toy_app_parts toy_pw_def)
qed

text \<open>C26: The Redfish gate runs a protected handler only with a token of a live session that was
  not revoked, or with basic credentials of the single user.\<close>

theorem redfish_gate:
  "case fst (redfish_auth_middleware b64 lib now req s) of
     RfRunPublic \<Rightarrow> cfg_initialized s \<and> is_redfish_public_endpoint (rf_path req) (rf_method req)
   | RfRunSession session \<Rightarrow> cfg_initialized s \<and> (\<exists>token. rf_token req = Some token \<and> \<not> is_session_revoked token s \<and>
       live now (app_sessions s) token = Some session)
   | RfRunUser user \<Rightarrow> cfg_initialized s \<and> user_rows (app_users s) = [user] \<and> (\<exists>password. password_ok lib user password \<and>
       Option.bind (Option.bind (rf_authorization req) (strip_prefix ''Basic '')) (decode_basic_auth b64) =
         Some (username user, password))
   | RfAnswer code _ \<Rightarrow> code = 401 \<or> code = 503 \<and> \<not> cfg_initialized s"
proof -
  have basic: "case fst (redfish_basic b64 lib (rf_authorization req) s0) of
     RfRunPublic \<Rightarrow> False | RfRunSession session \<Rightarrow> False
   | RfRunUser user \<Rightarrow> user_rows (app_users s) = [user] \<and> (\<exists>password. password_ok lib user password \<and>
       Option.bind (Option.bind (rf_authorization req) (strip_prefix ''Basic '')) (decode_basic_auth b64) =
         Some (username user, password))
   | RfAnswer code _ \<Rightarrow> code = 401" if "app_users s0 = app_users s" for s0
  proof (cases "redfish_basic b64 lib (rf_authorization req) s0")
    case (Pair g s1)
    show ?thesis
    proof (cases g)
      case (RfAnswer code e)
      then show ?thesis
        using Pair by (auto simp: redfish_basic_def UNAUTHORIZED_def split: option.splits prod.splits sum.splits)
    next
      case (RfRunUser user)
      then show ?thesis using Pair redfish_basic_run [of b64 lib "rf_authorization req" s0 user s1] that by auto
    qed (use Pair redfish_basic_other [of b64 lib "rf_authorization req" s0] in auto)
  qed
  have basic': "case fst (redfish_basic b64 lib (rf_authorization req) s0) of
     RfRunPublic \<Rightarrow> cfg_initialized s \<and> is_redfish_public_endpoint (rf_path req) (rf_method req)
   | RfRunSession session \<Rightarrow> cfg_initialized s \<and> (\<exists>token. rf_token req = Some token \<and> \<not> is_session_revoked token s \<and>
       live now (app_sessions s) token = Some session)
   | RfRunUser user \<Rightarrow> cfg_initialized s \<and> user_rows (app_users s) = [user] \<and> (\<exists>password. password_ok lib user password \<and>
       Option.bind (Option.bind (rf_authorization req) (strip_prefix ''Basic '')) (decode_basic_auth b64) =
         Some (username user, password))
   | RfAnswer code _ \<Rightarrow> code = 401 \<or> code = 503 \<and> \<not> cfg_initialized s"
    if "app_users s0 = app_users s" "cfg_initialized s" for s0
    using basic [OF that(1)] that(2) by (auto split: redfish_gate.splits)
  show ?thesis
    using basic' [of s] basic' [of "s\<lparr>app_sessions := snd (sessions_get now tok (app_sessions s))\<rparr>" for tok]
    by (simp add: redfish_auth_middleware_def case_prod_beta Let_def sessions_get_live UNAUTHORIZED_def
        SERVICE_UNAVAILABLE_def split: option.split)
qed

text \<open>C27: A Redfish session needs only the password, also for a user with the second factor
  enabled, and its token opens every path of the web API as that user.\<close>

theorem redfish_session_skips_second_factor:
  assumes "user_rows (app_users s) = [user]" and "user_db (app_users s) = []" and "username user = name"
    and "password_ok (env_pw env) user password" and "store_wf (app_sessions s)"
    and "hm_get (credentials (app_two_factor s)) (user_id user) = Some secret"
    and "now \<le> env_now_utc env + default_ttl (app_sessions s)" and "\<not> open_path s (api_path req)"
    and "req_cookie req = None" and "req_authorization req = Some (''Bearer '' @ env_uuid env)"
  shows "\<exists>loc s' session. redfish_session_create env name password s = (RfCreated (env_uuid env) loc name, s') \<and>
    fst (auth_middleware now req s') = RunHandler (Some session) \<and> session_user session = user_id user \<and>
    hm_get (credentials (app_two_factor s')) (user_id user) = Some secret"
proof -
  obtain loc s' where c: "redfish_session_create env name password s = (RfCreated (env_uuid env) loc name, s')"
    "cfg_initialized s' = cfg_initialized s" "app_two_factor s' = app_two_factor s"
    "hm_get (sessions_inner (app_sessions s')) (env_uuid env) =
       Some (new_session (env_now_utc env) (env_uuid env) (user_id user) (app_sessions s))"
    using redfish_session_create_eq [OF assms(1-4)] assms(5) by blast
  have "extract_session_id req = Some (env_uuid env)"
    using assms(9,10) by (simp add: extract_session_id_def strip_prefix_def)
  moreover have "\<not> open_path s' (api_path req)" using assms(8) c(2) by (simp add: open_path_def)
  ultimately have "fst (auth_middleware now req s') =
      RunHandler (Some (new_session (env_now_utc env) (env_uuid env) (user_id user) (app_sessions s)))"
    using c(4) assms(7) by (simp add: auth_middleware_eq live_get is_expired_def new_session_def)
  then show ?thesis using c assms(6) by (simp add: new_session_def)
qed


theorem redfish_session_skips_second_factor_witness:
  "\<exists>loc s' session. redfish_session_create toy_env ''admin'' ''pass'' toy_app = (RfCreated ''s2'' loc ''admin'', s') \<and>
    fst (auth_middleware 2 \<lparr>req_path = ''/api/config'', req_cookie = None, req_authorization = Some (''Bearer '' @ ''s2'')\<rparr> s') =
      RunHandler (Some session) \<and>
    session_user session = ''u'' \<and> hm_get (credentials (app_two_factor s')) ''u'' = Some ''123456''"
proof -
  let ?req = "\<lparr>req_path = ''/api/config'', req_cookie = None, req_authorization = Some (''Bearer '' @ ''s2'')\<rparr>"
  have u: "user_id toy_user = ''u''" by (simp add: toy_user_def)
  have "\<exists>loc s' session. redfish_session_create toy_env ''admin'' ''pass'' toy_app = (RfCreated (env_uuid toy_env) loc ''admin'', s') \<and>
    fst (auth_middleware 2 ?req s') = RunHandler (Some session) \<and> session_user session = user_id toy_user \<and>
    hm_get (credentials (app_two_factor s')) (user_id toy_user) = Some ''123456''"
  proof (rule redfish_session_skips_second_factor)
    show "user_rows (app_users toy_app) = [toy_user]" "user_db (app_users toy_app) = []" "username toy_user = ''admin''"
      by (simp_all add: toy_app_parts toy_user_def)
    show "password_ok (env_pw toy_env) toy_user ''pass''" using toy_password by (simp add: toy_app_parts)
    show "store_wf (app_sessions toy_app)"
      by (simp add: toy_app_def store_wf_def sessions_create_def SessionStore_new_def Let_def)
    show "hm_get (credentials (app_two_factor toy_app)) (user_id toy_user) = Some ''123456''"
      by (simp add: toy_app_parts toy_service_eq hm_get_def u)
    show "2 \<le> env_now_utc toy_env + default_ttl (app_sessions toy_app)"
      by (simp add: toy_env_def toy_app_def sessions_create_def SessionStore_new_def NANOS_def Let_def)
    show "\<not> open_path toy_app (api_path ?req)"
      by (simp add: open_path_def api_path_def strip_prefix_def is_public_endpoint_def starts_with_def ends_with_def
          toy_app_def)
    show "req_cookie ?req = None" "req_authorization ?req = Some (''Bearer '' @ env_uuid toy_env)"
      by (simp_all add: toy_app_parts)
  qed
  then show ?thesis by (simp only: u toy_app_parts)
qed

end
