(* ===== verification/StreamDecoder.thy ===== *)
theory StreamDecoder
  imports Prelude
begin

text \<open>
  The interface of the incremental decoders of the repository: the frame codec and the asynchronous reader of
  \<open>rustdesk/bytes_codec.rs\<close> and the message decoder of \<open>vnc/rfb.rs\<close> are its interpretations.  What a decoder of
  this kind gives does not depend on how its input is cut.
\<close>

section \<open>Incremental decoders\<close>

text \<open>
  \<open>dec\<close> takes the decoder state and the buffered octets and gives an error, a message, or
  nothing yet.  The laws: what it did not consume is carried over unchanged whatever
  arrives later, waiting loses nothing, and every message makes progress.  \<open>drain\<close> calls
  \<open>dec\<close> until it has nothing more, \<open>feed\<close> does so after each chunk of input.
\<close>

type_synonym ('e, 's, 'm) decoded = "'m list \<times> 'e option \<times> 's \<times> bytes"

definition prepend :: "'m list \<Rightarrow> ('e, 's, 'm) decoded \<Rightarrow> ('e, 's, 'm) decoded" where
  "prepend ms d = (ms @ fst d, snd d)"

lemma prepend_simps [simp]:
  "prepend ms (ns, r) = (ms @ ns, r)" "prepend [] d = d"
  "prepend ms (prepend ns d) = prepend (ms @ ns) d"
  by (simp_all add: prepend_def)

locale stream_decoder =
  fixes dec :: "'s \<Rightarrow> bytes \<Rightarrow> ('e + 'm option) \<times> 's \<times> bytes"
    and weight :: "'s \<Rightarrow> nat"
    and drain :: "'s \<Rightarrow> bytes \<Rightarrow> ('e, 's, 'm) decoded"
    and feed :: "'s \<Rightarrow> bytes \<Rightarrow> bytes list \<Rightarrow> ('e, 's, 'm) decoded"
  assumes dec_fail: "dec s b = (Inl e, s', b') \<Longrightarrow> dec s (b @ x) = (Inl e, s', b' @ x)"
    and dec_emit: "dec s b = (Inr (Some m), s', b') \<Longrightarrow> dec s (b @ x) = (Inr (Some m), s', b' @ x)"
    and dec_wait: "dec s b = (Inr None, s', b') \<Longrightarrow> dec s (b @ x) = dec s' (b' @ x)"
    and progress: "dec s b = (Inr (Some m), s', b') \<Longrightarrow>
      weight s' + 2 * length b' < weight s + 2 * length b"
    and drain_eq: "drain s b =
      (case dec s b of
         (Inl e, s', b') \<Rightarrow> ([], Some e, s', b')
       | (Inr None, s', b') \<Rightarrow> ([], None, s', b')
       | (Inr (Some m), s', b') \<Rightarrow> prepend [m] (drain s' b'))"
    and feed_Nil: "feed s b [] = ([], None, s, b)"
    and feed_Cons: "feed s b (x # xs) =
      (case drain s (b @ x) of
         (ms, Some e, s', b') \<Rightarrow> (ms, Some e, s', b' @ concat xs)
       | (ms, None, s', b') \<Rightarrow> prepend ms (feed s' b' xs))"
begin

lemma drain_append:
  "drain s (b @ x) =
     (case drain s b of
        (ms, Some e, s', b') \<Rightarrow> (ms, Some e, s', b' @ x)
      | (ms, None, s', b') \<Rightarrow> prepend ms (drain s' (b' @ x)))"
proof (induction "weight s + 2 * length b" arbitrary: s b rule: less_induct)
  case less
  consider (fail) e s' b' where "dec s b = (Inl e, s', b')"
    | (wait) s' b' where "dec s b = (Inr None, s', b')"
    | (emit) m s' b' where "dec s b = (Inr (Some m), s', b')"
    by (cases "dec s b"; metis sumE option.exhaust prod_cases3)
  then show ?case
  proof cases
    case fail
    then show ?thesis
      using dec_fail [OF fail, of x] by (simp add: drain_eq)
  next
    case wait
    then have "drain s (b @ x) = drain s' (b' @ x)"
      using dec_wait [OF wait, of x] by (simp add: drain_eq)
    then show ?thesis
      using wait by (subst (2) drain_eq) simp
  next
    case emit
    then have "drain s (b @ x) = prepend [m] (drain s' (b' @ x))"
      using dec_emit [OF emit, of x] by (subst drain_eq) simp
    moreover have "drain s b = prepend [m] (drain s' b')"
      using emit by (subst drain_eq) simp
    ultimately show ?thesis
      using less [OF progress [OF emit]]
      by (cases "drain s' b'") (auto split: option.splits)
  qed
qed

text \<open>Draining twice is draining once, and so the cuts between the chunks do not matter.\<close>

lemma feed_drain:
  assumes "drain s b = ([], None, s, b)"
  shows "feed s b xs = drain s (b @ concat xs)"
  using assms
proof (induction xs arbitrary: s b)
  case Nil
  then show ?case by (simp add: feed_Nil)
next
  case (Cons x xs)
  obtain ms r s' b' where d: "drain s (b @ x) = (ms, r, s', b')"
    by (metis prod_cases4)
  have split: "drain s (b @ concat (x # xs)) = (case drain s (b @ x) of
      (ms, Some e, s', b') \<Rightarrow> (ms, Some e, s', b' @ concat xs)
    | (ms, None, s', b') \<Rightarrow> prepend ms (drain s' (b' @ concat xs)))"
    using drain_append [of s "b @ x" "concat xs"] by simp
  show ?case
  proof (cases r)
    case None
    then have "drain s (b @ x) = prepend ms (drain s' b')"
      using drain_append [of s "b @ x" "[]"] d by simp
    then have "drain s' b' = ([], None, s', b')"
      using d None by (cases "drain s' b'") simp
    then show ?thesis
      using Cons.IH d None split by (simp add: feed_Cons)
  next
    case (Some e)
    then show ?thesis
      using d split by (simp add: feed_Cons)
  qed
qed

end

end
