(* ===== verification/RustdeskCodec.thy ===== *)
theory RustdeskCodec
  imports StreamDecoder
begin

text \<open>
  The framing of the RustDesk connection (\<open>src/rustdesk/bytes_codec.rs\<close>): the three
  encoders, the header decoder, the streaming decoder \<open>BytesCodec\<close>, and the asynchronous
  reader \<open>read_frame\<close> as the resumable computation the executor polls, together with the
  read branch of the \<open>select!\<close> loop that drives it (\<open>handle_tcp\<close> in
  \<open>src/rustdesk/connection.rs\<close>).  \<open>usize\<close> values are lengths of buffers in memory and
  are kept as \<open>nat\<close>; the header words keep their width.  The locale \<open>stream_decoder\<close>
  states what makes an incremental decoder independent of how its input is cut into
  chunks; it is interpreted on \<open>BytesCodec\<close>.
\<close>

unbundle bit_operations_syntax

section \<open>Frames\<close>

datatype CodecError = InvalidInput string | InvalidData string | UnexpectedEof

definition MAX_PACKET_LENGTH :: nat where
  "MAX_PACKET_LENGTH = 0x3FFFFFFF"

text \<open>\<open>to_le_bytes\<close> of \<open>u16\<close> and \<open>u32\<close>, also the body of \<open>put_u16_le\<close> and \<open>put_u32_le\<close>.\<close>

definition le_u16 :: "u16 \<Rightarrow> bytes" where
  "le_u16 h = le_bytes 2 (unat h)"

definition le_u32 :: "u32 \<Rightarrow> bytes" where
  "le_u32 h = le_bytes 4 (unat h)"

definition encode_frame :: "bytes \<Rightarrow> CodecError + bytes" where
  "encode_frame data =
     (let len = length data in
      if len \<le> 0x3F then Inr ([of_nat (push_bit 2 len)] @ data)
      else if len \<le> 0x3FFF then
        (let h = (of_nat (push_bit 2 len) :: u16) OR 0x1 in Inr (le_u16 h @ data))
      else if len \<le> 0x3FFFFF then
        (let h = (of_nat (push_bit 2 len) :: u32) OR 0x2 in
         Inr ([ucast (h AND 0xFF), ucast (drop_bit 8 h AND 0xFF), ucast (drop_bit 16 h AND 0xFF)] @ data))
      else if len \<le> MAX_PACKET_LENGTH then
        (let h = (of_nat (push_bit 2 len) :: u32) OR 0x3 in Inr (le_u32 h @ data))
      else Inl (InvalidInput ''Message too large''))"

text \<open>\<open>encode_frame_into\<close> appends to the buffer it is given, or leaves it as it is.\<close>

definition encode_frame_into :: "bytes \<Rightarrow> bytes \<Rightarrow> (CodecError + unit) \<times> bytes" where
  "encode_frame_into data buf =
     (let len = length data in
      if len \<le> 0x3F then (Inr (), buf @ [of_nat (push_bit 2 len)] @ data)
      else if len \<le> 0x3FFF then
        (Inr (), buf @ le_u16 ((of_nat (push_bit 2 len) :: u16) OR 0x1) @ data)
      else if len \<le> 0x3FFFFF then
        (let h = (of_nat (push_bit 2 len) :: u32) OR 0x2 in
         (Inr (), buf @ [ucast (h AND 0xFF)] @ [ucast (drop_bit 8 h AND 0xFF)]
                      @ [ucast (drop_bit 16 h AND 0xFF)] @ data))
      else if len \<le> MAX_PACKET_LENGTH then
        (Inr (), buf @ le_u32 ((of_nat (push_bit 2 len) :: u32) OR 0x3) @ data)
      else (Inl (InvalidInput ''Message too large''), buf))"

text \<open>The writers: what they put on the wire, or the error before anything is written.\<close>

definition write_frame :: "bytes \<Rightarrow> bytes \<Rightarrow> (CodecError + unit) \<times> bytes" where
  "write_frame data wire =
     (case encode_frame data of
        Inl e \<Rightarrow> (Inl e, wire)
      | Inr frame \<Rightarrow> (Inr (), wire @ frame))"

definition write_frame_buffered ::
  "bytes \<Rightarrow> bytes \<Rightarrow> bytes \<Rightarrow> (CodecError + unit) \<times> bytes \<times> bytes" where
  "write_frame_buffered data buf wire =
     (case encode_frame_into data [] of
        (Inl e, buf') \<Rightarrow> (Inl e, buf', wire)
      | (Inr _, buf') \<Rightarrow> (Inr (), buf', wire @ buf'))"

definition decode_header :: "u8 \<Rightarrow> bytes \<Rightarrow> nat \<times> nat" where
  "decode_header first_byte header_bytes =
     (let head_len = unat ((first_byte AND 0x3) + 1);
          n = unat first_byte;
          n = (if head_len > 1 \<and> header_bytes \<noteq> []
               then n OR push_bit 8 (unat (header_bytes ! 0)) else n);
          n = (if head_len > 2 \<and> length header_bytes \<ge> 2
               then n OR push_bit 16 (unat (header_bytes ! 1)) else n);
          n = (if head_len > 3 \<and> length header_bytes \<ge> 3
               then n OR push_bit 24 (unat (header_bytes ! 2)) else n)
      in (head_len, drop_bit 2 n))"

section \<open>The streaming decoder\<close>

datatype DecodeState = Head | Data nat

record BytesCodec =
  state :: DecodeState
  max_packet_length :: nat

definition BytesCodec_new :: BytesCodec where
  "BytesCodec_new = \<lparr>state = Head, max_packet_length = MAX_PACKET_LENGTH\<rparr>"

definition set_max_packet_length :: "nat \<Rightarrow> BytesCodec \<Rightarrow> BytesCodec" where
  "set_max_packet_length n c = c\<lparr>max_packet_length := n\<rparr>"

definition decode_head :: "BytesCodec \<Rightarrow> bytes \<Rightarrow> (CodecError + nat option) \<times> bytes" where
  "decode_head c src =
     (if src = [] then (Inr None, src)
      else
        let head_len = unat ((src ! 0 AND 0x3) + 1) in
        if length src < head_len then (Inr None, src)
        else
          let n = unat (src ! 0);
              n = (if head_len > 1 then n OR push_bit 8 (unat (src ! 1)) else n);
              n = (if head_len > 2 then n OR push_bit 16 (unat (src ! 2)) else n);
              n = (if head_len > 3 then n OR push_bit 24 (unat (src ! 3)) else n);
              n = drop_bit 2 n
          in if n > max_packet_length c then (Inl (InvalidData ''Message too large''), src)
             else (Inr (Some n), drop head_len src))"

definition decode_data :: "nat \<Rightarrow> bytes \<Rightarrow> (CodecError + bytes option) \<times> bytes" where
  "decode_data n src =
     (if length src < n then (Inr None, src) else (Inr (Some (take n src)), drop n src))"

definition decode_rest ::
  "nat \<Rightarrow> BytesCodec \<Rightarrow> bytes \<Rightarrow> (CodecError + bytes option) \<times> BytesCodec \<times> bytes" where
  "decode_rest n c src =
     (case decode_data n src of
        (Inl e, src') \<Rightarrow> (Inl e, c, src')
      | (Inr (Some data), src') \<Rightarrow> (Inr (Some data), c\<lparr>state := Head\<rparr>, src')
      | (Inr None, src') \<Rightarrow> (Inr None, c, src'))"

definition decode ::
  "BytesCodec \<Rightarrow> bytes \<Rightarrow> (CodecError + bytes option) \<times> BytesCodec \<times> bytes" where
  "decode c src =
     (case state c of
        Head \<Rightarrow>
          (case decode_head c src of
             (Inl e, src') \<Rightarrow> (Inl e, c, src')
           | (Inr (Some n), src') \<Rightarrow> decode_rest n (c\<lparr>state := Data n\<rparr>) src'
           | (Inr None, src') \<Rightarrow> (Inr None, c, src'))
      | Data n \<Rightarrow> decode_rest n c src)"

definition encode :: "bytes \<Rightarrow> bytes \<Rightarrow> (CodecError + unit) \<times> bytes" where
  "encode data buf =
     (let len = length data in
      if len \<le> 0x3F then (Inr (), buf @ [of_nat (push_bit 2 len)] @ data)
      else if len \<le> 0x3FFF then
        (Inr (), buf @ le_u16 ((of_nat (push_bit 2 len) :: u16) OR 0x1) @ data)
      else if len \<le> 0x3FFFFF then
        (let h = (of_nat (push_bit 2 len) :: u32) OR 0x2 in
         (Inr (), buf @ le_u16 (ucast (h AND 0xFFFF)) @ [ucast (drop_bit 16 h)] @ data))
      else if len \<le> MAX_PACKET_LENGTH then
        (Inr (), buf @ le_u32 ((of_nat (push_bit 2 len) :: u32) OR 0x3) @ data)
      else (Inl (InvalidInput ''Message too large''), buf))"

section \<open>The asynchronous reader\<close>

text \<open>
  \<open>read_frame\<close> has three \<open>read_exact(..).await\<close> points.  A pending computation is the
  point it waits at with what it has already taken off the socket; \<open>poll_read_frame\<close>
  resumes it on the octets now available.  \<open>None\<close> is \<open>Pending\<close>.
\<close>

datatype ReadFrame = AtFirst | AtHeader u8 bytes | AtBody nat bytes

type_synonym polled = "(CodecError + bytes) option \<times> ReadFrame \<times> bytes"

definition poll_body :: "nat \<Rightarrow> bytes \<Rightarrow> bytes \<Rightarrow> polled" where
  "poll_body msg_len got avail =
     (let got' = got @ take (msg_len - length got) avail;
          avail' = drop (msg_len - length got) avail
      in if length got' < msg_len then (None, AtBody msg_len got', avail')
         else (Some (Inr got'), AtFirst, avail'))"

definition after_header :: "u8 \<Rightarrow> bytes \<Rightarrow> bytes \<Rightarrow> polled" where
  "after_header first_byte got avail =
     (let header_rest = got @ replicate (3 - length got) 0;
          msg_len = snd (decode_header first_byte header_rest)
      in if msg_len > MAX_PACKET_LENGTH
         then (Some (Inl (InvalidData ''Message too large'')), AtFirst, avail)
         else poll_body msg_len [] avail)"

definition poll_header :: "u8 \<Rightarrow> bytes \<Rightarrow> bytes \<Rightarrow> polled" where
  "poll_header first_byte got avail =
     (let head_len = unat ((first_byte AND 0x3) + 1);
          got' = got @ take (head_len - 1 - length got) avail;
          avail' = drop (head_len - 1 - length got) avail
      in if length got' < head_len - 1 then (None, AtHeader first_byte got', avail')
         else after_header first_byte got' avail')"

fun poll_read_frame :: "ReadFrame \<Rightarrow> bytes \<Rightarrow> polled" where
  "poll_read_frame AtFirst [] = (None, AtFirst, [])"
| "poll_read_frame AtFirst (b # avail) =
     (if unat ((b AND 0x3) + 1) > 1 then poll_header b [] avail else after_header b [] avail)"
| "poll_read_frame (AtHeader b got) avail = poll_header b got avail"
| "poll_read_frame (AtBody n got) avail = poll_body n got avail"

text \<open>At the end of the stream a \<open>read_exact\<close> that still misses octets fails.\<close>

definition read_frame :: "bytes \<Rightarrow> (CodecError + bytes) \<times> bytes" where
  "read_frame stream =
     (case poll_read_frame AtFirst stream of
        (Some r, _, rest) \<Rightarrow> (r, rest)
      | (None, _, rest) \<Rightarrow> (Inl UnexpectedEof, rest))"

section \<open>The read branch of the connection loop\<close>

text \<open>
  One iteration of the \<open>select!\<close> in \<open>handle_tcp\<close> creates a fresh \<open>read_frame\<close> future next
  to the branches for video, audio, the delay timer and the shutdown signal.  The step
  \<open>Arrive\<close> is the network filling the socket, \<open>PollRead\<close> the executor polling the read
  branch (which delivers a message and starts the next iteration when a frame is
  complete), \<open>OtherBranch\<close> another branch completing first: \<open>select!\<close> then drops the read
  future and the next iteration starts a new one.
\<close>

record conn_reader =
  socket :: bytes
  future :: ReadFrame
  delivered :: "bytes list"
  closed :: bool

datatype conn_event = Arrive bytes | PollRead | OtherBranch

definition conn_new :: conn_reader where
  "conn_new = \<lparr>socket = [], future = AtFirst, delivered = [], closed = False\<rparr>"

fun conn_step :: "conn_event \<Rightarrow> conn_reader \<Rightarrow> conn_reader" where
  "conn_step (Arrive c) s = s\<lparr>socket := socket s @ c\<rparr>"
| "conn_step PollRead s =
     (if closed s then s
      else case poll_read_frame (future s) (socket s) of
        (None, f, rest) \<Rightarrow> s\<lparr>future := f, socket := rest\<rparr>
      | (Some (Inr m), f, rest) \<Rightarrow>
          s\<lparr>future := AtFirst, socket := rest, delivered := delivered s @ [m]\<rparr>
      | (Some (Inl e), f, rest) \<Rightarrow> s\<lparr>future := AtFirst, socket := rest, closed := True\<rparr>)"
| "conn_step OtherBranch s = (if closed s then s else s\<lparr>future := AtFirst\<rparr>)"

definition conn_run :: "conn_event list \<Rightarrow> conn_reader \<Rightarrow> conn_reader" where
  "conn_run es s = foldl (\<lambda>s e. conn_step e s) s es"


section \<open>What the headers hold\<close>

text \<open>The header of a message of \<open>len\<close> octets: the length times four plus the number of
  further header octets, little-endian.\<close>

definition frame_head :: "nat \<Rightarrow> bytes" where
  "frame_head len =
     (if len \<le> 0x3F then le_bytes 1 (4 * len)
      else if len \<le> 0x3FFF then le_bytes 2 (4 * len + 1)
      else if len \<le> 0x3FFFFF then le_bytes 3 (4 * len + 2)
      else le_bytes 4 (4 * len + 3))"

lemma or_push_bit_nat:
  assumes "a < 2 ^ k"
  shows "a OR push_bit k b = a + 2 ^ k * (b :: nat)"
proof -
  have "\<not> (bit a n \<and> k \<le> n)" for n
    using assms by (metis bit_take_bit_iff take_bit_nat_eq_self linorder_not_less)
  then have "a AND push_bit k b = 0"
    by (intro bit_eqI) (auto simp: bit_and_iff bit_push_bit_iff)
  then show ?thesis
    by (simp add: disjunctive_add_eq_or [symmetric] push_bit_eq_mult mult.commute)
qed

lemma or_mult4_nat: "k < 4 \<Longrightarrow> (4 * n) OR k = 4 * n + (k :: nat)"
  using or_push_bit_nat [of k 2 n] by (simp add: push_bit_eq_mult or.commute mult.commute add.commute)

lemma unat_or_tag:
  assumes "4 * n + k < 2 ^ LENGTH('a)" and "k < 4" and "unat (t :: 'a word) = k"
  shows "unat ((of_nat (push_bit 2 n) :: 'a :: len word) OR t) = 4 * n + k"
proof -
  have "unat (of_nat (push_bit 2 n) :: 'a word) = 4 * n"
    using assms(1) by (simp only: unat_of_nat) (simp add: push_bit_eq_mult)
  then show ?thesis
    using assms by (simp only: unsigned_or_eq or_mult4_nat)
qed

lemma head_tags:
  "(of_nat (push_bit 2 n) :: u8) = of_nat (4 * n)"
  "n \<le> 0x3FFF \<Longrightarrow> unat ((of_nat (push_bit 2 n) :: u16) OR 1) = 4 * n + 1"
  "n \<le> 0x3FFFFF \<Longrightarrow> unat ((of_nat (push_bit 2 n) :: u32) OR 2) = 4 * n + 2"
  "n \<le> 0x3FFFFFFF \<Longrightarrow> unat ((of_nat (push_bit 2 n) :: u32) OR 3) = 4 * n + 3"
proof -
  show "(of_nat (push_bit 2 n) :: u8) = of_nat (4 * n)"
    by (simp add: push_bit_eq_mult)
qed (rule unat_or_tag, simp, simp, simp)+

lemma of_nat_mod_u8 [simp]: "(of_nat (x mod 256) :: u8) = of_nat x"
  using of_nat_unat_u8 [of "of_nat x"] by (simp only: unat_of_nat_u8)

lemma low_octet: "(ucast ((w :: u32) AND 0xFF) :: u8) = of_nat (unat w)"
proof -
  have "w AND 0xFF = take_bit 8 w"
    by (simp add: take_bit_eq_mask mask_eq_exp_minus_1)
  then have "(ucast (w AND 0xFF) :: u8) = ucast w"
    by (auto intro!: bit_word_eqI simp: bit_ucast_iff bit_take_bit_iff)
  then show ?thesis by simp
qed

lemma take_bit_unat_u32: "take_bit 32 (unat (h :: u32)) = unat h"
proof -
  have "unat h < 2 ^ LENGTH(32)"
    by (rule unsigned_less)
  then show ?thesis by (simp add: take_bit_nat_eq_self)
qed

lemma octets_of_u32:
  "[ucast ((h :: u32) AND 0xFF), ucast (drop_bit 8 h AND 0xFF), ucast (drop_bit 16 h AND 0xFF) :: u8] =
   le_bytes 3 (unat h)"
proof -
  show ?thesis
    by (simp only: low_octet numeral_3_eq_3 le_bytes.simps of_nat_mod_u8 unsigned_drop_bit_eq)
       (simp add: take_bit_unat_u32 drop_bit_eq_div div_mult2_eq [symmetric])
qed

lemma octets_of_u32_split:
  "le_u16 (ucast ((h :: u32) AND 0xFFFF)) @ [ucast (drop_bit 16 h)] = le_bytes 3 (unat h)"
proof -
  have "h AND 0xFFFF = take_bit 16 h"
    by (simp add: take_bit_eq_mask mask_eq_exp_minus_1)
  then have "(ucast (h AND 0xFFFF) :: u16) = ucast h"
    by (auto intro!: bit_word_eqI simp: bit_ucast_iff bit_take_bit_iff)
  then have low: "unat (ucast (h AND 0xFFFF) :: u16) = unat h mod 65536"
    by (simp add: unsigned_ucast_eq take_bit_eq_mod)
  have "(ucast (drop_bit 16 h) :: u8) = of_nat (unat (drop_bit 16 h))"
    by simp
  moreover have "unat (drop_bit 16 h) = unat h div 65536"
    by (simp only: unsigned_drop_bit_eq) (simp add: take_bit_unat_u32 drop_bit_eq_div)
  ultimately have high: "(ucast (drop_bit 16 h) :: u8) = of_nat (unat h div 65536)"
    by simp
  show ?thesis
    unfolding le_u16_def low high
    by (simp add: numeral_2_eq_2 numeral_3_eq_3 div_mult2_eq [symmetric] mod_mult2_eq [of _ 256 256, simplified])
qed

lemma encode_frame_eq:
  "encode_frame data =
     (if length data \<le> MAX_PACKET_LENGTH then Inr (frame_head (length data) @ data)
      else Inl (InvalidInput ''Message too large''))"
  unfolding encode_frame_def Let_def frame_head_def MAX_PACKET_LENGTH_def octets_of_u32
  by (simp add: le_u16_def le_u32_def head_tags)

lemma encode_frame_into_eq:
  "encode_frame_into data buf =
     (if length data \<le> MAX_PACKET_LENGTH then (Inr (), buf @ frame_head (length data) @ data)
      else (Inl (InvalidInput ''Message too large''), buf))"
  using octets_of_u32 [of "(of_nat (push_bit 2 (length data)) :: u32) OR 2"]
  by (simp add: encode_frame_into_def Let_def frame_head_def MAX_PACKET_LENGTH_def le_u16_def le_u32_def head_tags)

lemma encode_eq:
  "encode data buf =
     (if length data \<le> MAX_PACKET_LENGTH then (Inr (), buf @ frame_head (length data) @ data)
      else (Inl (InvalidInput ''Message too large''), buf))"
  using octets_of_u32_split [of "(of_nat (push_bit 2 (length data)) :: u32) OR 2"]
  by (simp add: encode_def Let_def frame_head_def MAX_PACKET_LENGTH_def le_u16_def le_u32_def head_tags)

lemma head_len_eq: "unat (((b :: u8) AND 0x3) + 1) = unat b mod 4 + 1"
proof -
  have "b AND 0x3 = take_bit 2 b"
    by (simp add: take_bit_eq_mask mask_eq_exp_minus_1)
  then have "unat (b AND 0x3) = take_bit 2 (unat b)"
    by (simp only: unsigned_take_bit_eq)
  then have "unat (b AND 0x3) = unat b mod 4"
    by (simp add: take_bit_eq_mod)
  moreover have "unat b mod 4 < 4"
    by simp
  ultimately show ?thesis
    by (simp add: unat_word_ariths)
qed

lemma or_octets:
  "unat (a :: u8) OR push_bit 8 (unat (b :: u8)) = le_val [a, b]"
  "le_val [a, b] OR push_bit 16 (unat (c :: u8)) = le_val [a, b, c]"
  "le_val [a, b, c] OR push_bit 24 (unat (d :: u8)) = le_val [a, b, c, d]"
  using le_val_less [of "[a]"] le_val_less [of "[a, b]"] le_val_less [of "[a, b, c]"]
    or_push_bit_nat [of "unat a" 8 "unat b"] or_push_bit_nat [of "le_val [a, b]" 16 "unat c"]
    or_push_bit_nat [of "le_val [a, b, c]" 24 "unat d"]
  by simp_all

text \<open>The length a header announces: the first \<open>head_len\<close> octets read little-endian, without
  the two tag bits.\<close>

definition announced :: "bytes \<Rightarrow> nat" where
  "announced src = le_val (take (unat (src ! 0) mod 4 + 1) src) div 4"

lemma mod4_cases:
  fixes b :: u8
  obtains "unat b mod 4 = 0" | "unat b mod 4 = 1" | "unat b mod 4 = 2" | "unat b mod 4 = 3"
  by linarith

lemma head_value:
  fixes src :: bytes
  assumes "src \<noteq> []" and "unat (src ! 0) mod 4 + 1 \<le> length src"
  defines "h \<equiv> unat (src ! 0) mod 4 + 1"
  shows "drop_bit 2
    (let n = unat (src ! 0);
         n = (if h > 1 then n OR push_bit 8 (unat (src ! 1)) else n);
         n = (if h > 2 then n OR push_bit 16 (unat (src ! 2)) else n)
     in (if h > 3 then n OR push_bit 24 (unat (src ! 3)) else n)) = announced src"
proof -
  have one: "take (Suc 0) src = [src ! 0]"
    using assms(1) by (cases src) auto
  have "Suc (Suc 0) \<le> length src \<Longrightarrow> take (Suc (Suc 0)) src = [src ! 0, src ! 1]"
    and "3 \<le> length src \<Longrightarrow> take 3 src = [src ! 0, src ! 1, src ! 2]"
    and "4 \<le> length src \<Longrightarrow> take 4 src = [src ! 0, src ! 1, src ! 2, src ! 3]"
    by (simp_all add: one take_Suc_conv_app_nth numeral_eq_Suc)
  with one show ?thesis
    using assms(2) unfolding h_def announced_def Let_def
    by (cases rule: mod4_cases [of "src ! 0"])
       (simp_all add: drop_bit_eq_div or_octets del: le_val.simps(2), simp)
qed

lemma decode_head_eq:
  "decode_head c src =
     (if src = [] \<or> length src < unat (src ! 0) mod 4 + 1 then (Inr None, src)
      else if announced src > max_packet_length c then (Inl (InvalidData ''Message too large''), src)
      else (Inr (Some (announced src)), drop (unat (src ! 0) mod 4 + 1) src))"
  using head_value [of src]
  by (simp add: decode_head_def Let_def head_len_eq not_less)

lemma decode_header_eq:
  assumes "length rest = 3"
  shows "decode_header b rest = (unat b mod 4 + 1, announced (b # rest))"
  using head_value [of "b # rest"] assms
  by (simp add: decode_header_def Let_def head_len_eq) (auto simp: nth_Cons')

lemma announced_append:
  "src \<noteq> [] \<Longrightarrow> unat (src ! 0) mod 4 + 1 \<le> length src \<Longrightarrow> announced (src @ x) = announced src"
  by (simp add: announced_def nth_append)

lemma announced_bound: "announced src \<le> MAX_PACKET_LENGTH"
proof -
  let ?h = "take (unat (src ! 0) mod 4 + 1) src"
  have "(256 :: nat) ^ length ?h \<le> 256 ^ 4"
    by (rule power_increasing) auto
  then have "le_val ?h < 256 ^ 4"
    using le_val_less [of ?h] by linarith
  then show ?thesis
    by (simp add: announced_def MAX_PACKET_LENGTH_def)
qed

lemma frame_head_first:
  assumes "len \<le> MAX_PACKET_LENGTH"
  shows "frame_head len \<noteq> []" and "unat (frame_head len ! 0) mod 4 + 1 = length (frame_head len)"
    and "le_val (frame_head len) div 4 = len"
proof -
  have first: "0 < n \<Longrightarrow> unat (le_bytes n x ! 0) mod 4 = x mod 4" for n x
    by (cases n) (simp_all add: mod_mod_cancel)
  have quarter: "k < 4 \<Longrightarrow> (4 * len + k) div 4 = len" for k
    by simp
  have "0 < n \<Longrightarrow> le_bytes n x \<noteq> []" for n x
    by (cases n) simp_all
  then show "frame_head len \<noteq> []"
    by (simp add: frame_head_def)
  show "unat (frame_head len ! 0) mod 4 + 1 = length (frame_head len)"
    by (simp add: frame_head_def first mod_Suc del: le_bytes.simps)
  show "le_val (frame_head len) div 4 = len"
    using assms quarter [of 0] quarter [of 1] quarter [of 2] quarter [of 3]
    by (simp add: frame_head_def le_val_le_bytes MAX_PACKET_LENGTH_def del: le_bytes.simps)
qed

lemma announced_frame_head:
  assumes "len \<le> MAX_PACKET_LENGTH"
  shows "announced (frame_head len @ x) = len"
proof -
  have "announced (frame_head len @ x) = announced (frame_head len)"
    using frame_head_first [OF assms] by (intro announced_append) auto
  then show ?thesis
    using frame_head_first [OF assms] by (simp add: announced_def)
qed


section \<open>\<open>BytesCodec\<close> is such a decoder\<close>

fun state_weight :: "DecodeState \<Rightarrow> nat" where
  "state_weight Head = 0"
| "state_weight (Data n) = 1"

lemma decode_rest_eq:
  "decode_rest n c src =
     (if length src < n then (Inr None, c, src)
      else (Inr (Some (take n src)), c\<lparr>state := Head\<rparr>, drop n src))"
  by (simp add: decode_rest_def decode_data_def)

lemma decode_eq:
  "decode c src =
     (case state c of
        Head \<Rightarrow>
          if src = [] \<or> length src < unat (src ! 0) mod 4 + 1 then (Inr None, c, src)
          else if announced src > max_packet_length c
          then (Inl (InvalidData ''Message too large''), c, src)
          else decode_rest (announced src) (c\<lparr>state := Data (announced src)\<rparr>)
                 (drop (unat (src ! 0) mod 4 + 1) src)
      | Data n \<Rightarrow> decode_rest n c src)"
  by (simp add: decode_def decode_head_eq split: DecodeState.split)

lemma decode_progress:
  assumes "decode c src = (Inr (Some m), c', src')"
  shows "state_weight (state c') + 2 * length src' < state_weight (state c) + 2 * length src"
  using assms
  by (auto simp: decode_eq decode_rest_eq split: DecodeState.splits if_splits)

lemma decode_Head:
  assumes "state c = Head" and "b \<noteq> []" and "unat (b ! 0) mod 4 + 1 \<le> length b"
    and "announced b \<le> max_packet_length c"
  shows "decode c (b @ x) =
    decode (c\<lparr>state := Data (announced b)\<rparr>) (drop (unat (b ! 0) mod 4 + 1) b @ x)"
proof -
  have "(b @ x) ! 0 = b ! 0" and "announced (b @ x) = announced b"
    using assms by (auto simp: nth_append announced_append)
  with assms show ?thesis by (simp add: decode_eq)
qed

lemma decode_wait:
  assumes "decode c b = (Inr None, c', b')"
  shows "decode c (b @ x) = decode c' (b' @ x)"
proof (cases "state c = Head \<and> b \<noteq> [] \<and> unat (b ! 0) mod 4 + 1 \<le> length b \<and>
    announced b \<le> max_packet_length c")
  case True
  then have "c' = c\<lparr>state := Data (announced b)\<rparr>" and "b' = drop (unat (b ! 0) mod 4 + 1) b"
    using assms by (simp_all add: decode_eq decode_rest_eq split: if_splits)
  then show ?thesis
    using decode_Head True by simp
next
  case False
  then have "c' = c" and "b' = b"
    using assms by (cases "state c"; force simp: decode_eq decode_rest_eq split: if_splits)+
  then show ?thesis by simp
qed

function decode_all :: "BytesCodec \<Rightarrow> bytes \<Rightarrow> (CodecError, BytesCodec, bytes) decoded" where
  "decode_all c src =
     (case decode c src of
        (Inl e, c', src') \<Rightarrow> ([], Some e, c', src')
      | (Inr None, c', src') \<Rightarrow> ([], None, c', src')
      | (Inr (Some m), c', src') \<Rightarrow> prepend [m] (decode_all c' src'))"
  by pat_completeness auto
termination
  by (relation "measure (\<lambda>(c, src). state_weight (state c) + 2 * length src)")
     (auto dest!: decode_progress [OF sym])

declare decode_all.simps [simp del]

fun decode_chunks :: "BytesCodec \<Rightarrow> bytes \<Rightarrow> bytes list \<Rightarrow> (CodecError, BytesCodec, bytes) decoded" where
  "decode_chunks c buf [] = ([], None, c, buf)"
| "decode_chunks c buf (x # xs) =
     (case decode_all c (buf @ x) of
        (ms, Some e, c', buf') \<Rightarrow> (ms, Some e, c', buf' @ concat xs)
      | (ms, None, c', buf') \<Rightarrow> prepend ms (decode_chunks c' buf' xs))"

interpretation codec: stream_decoder decode "state_weight \<circ> state" decode_all decode_chunks
proof
  fix c b e c' b' x
  assume "decode c b = (Inl e, c', b')"
  then show "decode c (b @ x) = (Inl e, c', b' @ x)"
    by (cases "state c") (auto simp: decode_eq decode_rest_eq announced_append nth_append split: if_splits)
next
  fix c b m c' b' x
  assume "decode c b = (Inr (Some m), c', b')"
  then show "decode c (b @ x) = (Inr (Some m), c', b' @ x)"
    by (cases "state c") (auto simp: decode_eq decode_rest_eq announced_append nth_append split: if_splits)
next
  fix c b c' b' x
  assume "decode c b = (Inr None, c', b')"
  then show "decode c (b @ x) = decode c' (b' @ x)"
    by (rule decode_wait)
next
  fix c b m c' b'
  assume "decode c b = (Inr (Some m), c', b')"
  then show "(state_weight \<circ> state) c' + 2 * length b' < (state_weight \<circ> state) c + 2 * length b"
    using decode_progress by simp
qed (simp_all add: decode_all.simps)

section \<open>The asynchronous reader is such a decoder\<close>

fun future_weight :: "ReadFrame \<Rightarrow> nat" where
  "future_weight AtFirst = 0"
| "future_weight _ = 1"

definition poll_result :: "ReadFrame \<Rightarrow> bytes \<Rightarrow> (CodecError + bytes option) \<times> ReadFrame \<times> bytes" where
  "poll_result f src =
     (case poll_read_frame f src of
        (None, f', rest) \<Rightarrow> (Inr None, f', rest)
      | (Some (Inr m), f', rest) \<Rightarrow> (Inr (Some m), f', rest)
      | (Some (Inl e), f', rest) \<Rightarrow> (Inl e, f', rest))"

lemma after_header_eq:
  assumes "length got = unat b mod 4"
  shows "after_header b got avail = poll_body (announced (b # got)) [] avail"
proof -
  have "announced (b # got @ replicate (3 - length got) 0) = announced (b # got)"
    using announced_append [of "b # got"] assms by simp
  then show ?thesis
    using assms announced_bound [of "b # got"] mod_less_divisor [of 4 "unat b"]
    by (simp add: after_header_def decode_header_eq)
qed

text \<open>A pending computation resumed later behaves as if it had seen all octets at once.\<close>

definition resumes :: "(bytes \<Rightarrow> polled) \<Rightarrow> bytes \<Rightarrow> bool" where
  "resumes p a \<longleftrightarrow>
     (\<forall>x. case p a of
        (Some r, f, rest) \<Rightarrow> f = AtFirst \<and> length rest \<le> length a \<and> p (a @ x) = (Some r, AtFirst, rest @ x)
      | (None, f, rest) \<Rightarrow> p (a @ x) = poll_read_frame f (rest @ x))"

lemma resumes_via:
  assumes "\<And>y. p (a @ y) = q (b @ y)" and "length b \<le> length a" and "resumes q b"
  shows "resumes p a"
  using assms(2,3) assms(1) [of "[]"]
  by (auto simp: resumes_def assms(1) split: option.splits prod.splits)

lemma resumes_body: "resumes (poll_body n got) a"
  by (auto simp: resumes_def poll_body_def Let_def)

lemma resumes_after_header: "resumes (after_header b got) a"
proof (cases "snd (decode_header b (got @ replicate (3 - length got) 0)) > MAX_PACKET_LENGTH")
  case True
  then show ?thesis by (simp add: resumes_def after_header_def Let_def)
next
  case False
  then show ?thesis
    by (intro resumes_via [OF _ order_refl resumes_body]) (simp add: after_header_def Let_def)
qed

lemma resumes_header: "resumes (poll_header b got) a"
proof (cases "length a < unat ((b AND 3) + 1) - 1 - length got")
  case True
  then have "length got + length a < unat ((b AND 3) + 1) - 1"
    by linarith
  with True show ?thesis by (simp add: resumes_def poll_header_def Let_def)
next
  case False
  let ?k = "unat ((b AND 3) + 1) - 1 - length got"
  have "poll_header b got (a @ y) = after_header b (got @ take ?k a) (drop ?k a @ y)" for y
    using False by (auto simp: poll_header_def Let_def)
  then show ?thesis
    by (rule resumes_via [OF _ _ resumes_after_header]) simp
qed

lemma resumes_poll: "resumes (poll_read_frame f) a"
proof (cases f)
  case AtFirst
  show ?thesis
  proof (cases a)
    case Nil
    then show ?thesis using AtFirst by (simp add: resumes_def)
  next
    case (Cons b l)
    show ?thesis
    proof (cases "unat ((b AND 0x3) + 1) > 1")
      case True
      then have "poll_read_frame f (a @ y) = poll_header b [] (l @ y)" for y
        using AtFirst Cons by simp
      then show ?thesis
        by (rule resumes_via [OF _ _ resumes_header]) (simp add: Cons)
    next
      case False
      then have "poll_read_frame f (a @ y) = after_header b [] (l @ y)" for y
        using AtFirst Cons by simp
      then show ?thesis
        by (rule resumes_via [OF _ _ resumes_after_header]) (simp add: Cons)
    qed
  qed
next
  case (AtHeader b got)
  then show ?thesis
    by (intro resumes_via [OF _ order_refl resumes_header]) simp
next
  case (AtBody n got)
  then show ?thesis
    by (intro resumes_via [OF _ order_refl resumes_body]) simp
qed

lemma poll_Some:
  "poll_read_frame f a = (Some r, f', rest) \<Longrightarrow>
    f' = AtFirst \<and> length rest \<le> length a \<and> poll_read_frame f (a @ x) = (Some r, AtFirst, rest @ x)"
  using resumes_poll [of f a] by (auto simp: resumes_def)

lemma poll_None:
  "poll_read_frame f a = (None, f', rest) \<Longrightarrow> poll_read_frame f (a @ x) = poll_read_frame f' (rest @ x)"
  using resumes_poll [of f a] by (auto simp: resumes_def)

lemma poll_progress:
  assumes "poll_read_frame f a = (Some r, f', rest)"
  shows "future_weight f' + 2 * length rest < future_weight f + 2 * length a"
proof (cases f)
  case AtFirst
  then obtain b l where a: "a = b # l"
    using assms by (cases a) auto
  then have "length rest \<le> length l"
    using assms AtFirst resumes_header [of b "[]" l] resumes_after_header [of b "[]" l]
    by (auto simp: resumes_def split: if_splits)
  then show ?thesis
    using poll_Some [OF assms] AtFirst a by simp
qed (use poll_Some [OF assms, of "[]"] in simp_all)

lemma poll_result_iff:
  "poll_result f a = (Inl e, f', rest) \<longleftrightarrow> poll_read_frame f a = (Some (Inl e), f', rest)"
  "poll_result f a = (Inr (Some m), f', rest) \<longleftrightarrow> poll_read_frame f a = (Some (Inr m), f', rest)"
  "poll_result f a = (Inr None, f', rest) \<longleftrightarrow> poll_read_frame f a = (None, f', rest)"
  by (auto simp: poll_result_def split: prod.splits option.splits sum.splits)

lemma poll_progress':
  "poll_result f a = (Inr (Some m), f', rest) \<Longrightarrow>
    future_weight f' + 2 * length rest < future_weight f + 2 * length a"
  using poll_progress by (simp add: poll_result_iff)

text \<open>The reader called again and again on one stream, and on a stream that arrives in chunks.\<close>

function read_all :: "ReadFrame \<Rightarrow> bytes \<Rightarrow> (CodecError, ReadFrame, bytes) decoded" where
  "read_all f src =
     (case poll_result f src of
        (Inl e, f', rest) \<Rightarrow> ([], Some e, f', rest)
      | (Inr None, f', rest) \<Rightarrow> ([], None, f', rest)
      | (Inr (Some m), f', rest) \<Rightarrow> prepend [m] (read_all f' rest))"
  by pat_completeness auto
termination
  by (relation "measure (\<lambda>(f, src). future_weight f + 2 * length src)")
     (auto dest!: poll_progress' [OF sym])

declare read_all.simps [simp del]

fun read_chunks :: "ReadFrame \<Rightarrow> bytes \<Rightarrow> bytes list \<Rightarrow> (CodecError, ReadFrame, bytes) decoded" where
  "read_chunks f buf [] = ([], None, f, buf)"
| "read_chunks f buf (x # xs) =
     (case read_all f (buf @ x) of
        (ms, Some e, f', buf') \<Rightarrow> (ms, Some e, f', buf' @ concat xs)
      | (ms, None, f', buf') \<Rightarrow> prepend ms (read_chunks f' buf' xs))"

interpretation reader: stream_decoder poll_result future_weight read_all read_chunks
proof
  fix f a e f' rest x
  assume "poll_result f a = (Inl e, f', rest)"
  then show "poll_result f (a @ x) = (Inl e, f', rest @ x)"
    using poll_Some [of f a "Inl e" f' rest x] by (simp add: poll_result_iff)
next
  fix f a m f' rest x
  assume "poll_result f a = (Inr (Some m), f', rest)"
  then show "poll_result f (a @ x) = (Inr (Some m), f', rest @ x)"
    using poll_Some [of f a "Inr m" f' rest x] by (simp add: poll_result_iff)
next
  fix f a f' rest x
  assume "poll_result f a = (Inr None, f', rest)"
  then show "poll_result f (a @ x) = poll_result f' (rest @ x)"
    using poll_None [of f a f' rest x] by (simp add: poll_result_iff) (simp add: poll_result_def)
next
  fix f a m f' rest
  assume "poll_result f a = (Inr (Some m), f', rest)"
  then show "future_weight f' + 2 * length rest < future_weight f + 2 * length a"
    by (rule poll_progress')
qed (simp_all add: read_all.simps)


section \<open>Frames through both decoders\<close>

definition frame_of :: "bytes \<Rightarrow> bytes" where
  "frame_of data = frame_head (length data) @ data"

lemma encode_frame_Inr:
  "encode_frame data = Inr f \<longleftrightarrow> length data \<le> MAX_PACKET_LENGTH \<and> f = frame_of data"
  by (auto simp: encode_frame_eq frame_of_def)

lemma frame_start:
  assumes "length data \<le> MAX_PACKET_LENGTH"
  shows "frame_of data @ r \<noteq> []"
    and "unat ((frame_of data @ r) ! 0) mod 4 + 1 = length (frame_head (length data))"
    and "announced (frame_of data @ r) = length data"
proof -
  note first = frame_head_first [OF assms]
  show "frame_of data @ r \<noteq> []"
    using first(1) by (simp add: frame_of_def)
  have "(frame_of data @ r) ! 0 = frame_head (length data) ! 0"
    using first(1) by (simp add: frame_of_def nth_append)
  then show "unat ((frame_of data @ r) ! 0) mod 4 + 1 = length (frame_head (length data))"
    using first(2) by simp
  show "announced (frame_of data @ r) = length data"
    using announced_frame_head [OF assms] by (simp add: frame_of_def)
qed

lemma decode_frame:
  assumes "state c = Head" and "length data \<le> max_packet_length c" and "length data \<le> MAX_PACKET_LENGTH"
  shows "decode c (frame_of data @ r) = (Inr (Some data), c, r)"
proof -
  have "decode c (frame_of data @ r) =
      decode_rest (length data) (c\<lparr>state := Data (length data)\<rparr>) (data @ r)"
    using assms frame_start [OF assms(3), of r] frame_head_first(1) [OF assms(3)]
    by (simp add: decode_eq) (simp add: frame_of_def)
  then show ?thesis
    using assms(1) by (simp add: decode_rest_eq)
qed

lemma decode_all_frames:
  assumes "state c = Head"
    and "\<And>m. m \<in> set ms \<Longrightarrow> length m \<le> max_packet_length c \<and> length m \<le> MAX_PACKET_LENGTH"
  shows "decode_all c (concat (map frame_of ms) @ r) = prepend ms (decode_all c r)"
  using assms(2)
proof (induction ms)
  case Nil
  show ?case by simp
next
  case (Cons m ms)
  have "decode c (frame_of m @ concat (map frame_of ms) @ r) = (Inr (Some m), c, concat (map frame_of ms) @ r)"
    using Cons.prems [of m] by (intro decode_frame [OF assms(1)]) simp_all
  then show ?case
    using Cons.IH Cons.prems by (simp add: decode_all.simps [of c "frame_of m @ _"])
qed

lemma poll_frame:
  assumes "length data \<le> MAX_PACKET_LENGTH"
  shows "poll_read_frame AtFirst (frame_of data @ r) = (Some (Inr data), AtFirst, r)"
proof -
  obtain b got where h: "frame_head (length data) = b # got"
    using frame_head_first(1) [OF assms] by (cases "frame_head (length data)") auto
  then have got: "length got = unat b mod 4"
    using frame_head_first(2) [OF assms] by simp
  have "announced (b # got) = length data"
    using announced_frame_head [OF assms, of "[]"] h by simp
  then have "after_header b got (data @ r) = (Some (Inr data), AtFirst, r)"
    using after_header_eq [OF got] by (simp add: poll_body_def)
  moreover have "poll_read_frame AtFirst (frame_of data @ r) = after_header b got (data @ r)"
    using got by (auto simp: frame_of_def h head_len_eq poll_header_def)
  ultimately show ?thesis by simp
qed

lemma read_all_frames:
  assumes "\<And>m. m \<in> set ms \<Longrightarrow> length m \<le> MAX_PACKET_LENGTH"
  shows "read_all AtFirst (concat (map frame_of ms) @ r) = prepend ms (read_all AtFirst r)"
  using assms
proof (induction ms)
  case Nil
  show ?case by simp
next
  case (Cons m ms)
  have "poll_result AtFirst (frame_of m @ concat (map frame_of ms) @ r) =
      (Inr (Some m), AtFirst, concat (map frame_of ms) @ r)"
    using Cons.prems [of m] by (simp add: poll_result_iff poll_frame)
  then show ?case
    using Cons by (simp add: read_all.simps [of AtFirst "frame_of m @ _"])
qed

lemma decode_all_Nil: "state c = Head \<Longrightarrow> decode_all c [] = ([], None, c, [])"
  by (simp add: decode_all.simps decode_eq)

lemma read_all_Nil: "read_all AtFirst [] = ([], None, AtFirst, [])"
  by (simp add: read_all.simps poll_result_def)

lemma frames_of_messages:
  assumes "list_all2 (\<lambda>m f. encode_frame m = Inr f) ms fs"
  shows "fs = map frame_of ms" and "\<And>m. m \<in> set ms \<Longrightarrow> length m \<le> MAX_PACKET_LENGTH"
  using assms by (induction) (auto simp: encode_frame_Inr)

section \<open>The read branch without cancellation\<close>

fun future_ok :: "ReadFrame \<Rightarrow> bool" where
  "future_ok AtFirst = True"
| "future_ok (AtHeader b got) = (length got \<le> unat b mod 4)"
| "future_ok (AtBody n got) = (length got \<le> n)"

text \<open>A pending read has emptied the socket, and no header announces more than the limit.\<close>

lemma poll_body_ok:
  assumes "poll_body n got a = (r, f, rest)" and "length got \<le> n"
  shows "future_ok f \<and> (\<forall>e. r \<noteq> Some (Inl e)) \<and> (r = None \<longrightarrow> rest = [])"
  using assms by (auto simp: poll_body_def Let_def split: if_splits)

lemma poll_header_ok:
  assumes "poll_header b got a = (r, f, rest)" and "length got \<le> unat b mod 4"
  shows "future_ok f \<and> (\<forall>e. r \<noteq> Some (Inl e)) \<and> (r = None \<longrightarrow> rest = [])"
proof (cases "length a < unat b mod 4 - length got")
  case True
  then show ?thesis
    using assms by (auto simp: poll_header_def head_len_eq Let_def split: if_splits)
next
  case False
  let ?k = "unat b mod 4 - length got"
  have "poll_header b got a = poll_body (announced (b # got @ take ?k a)) [] (drop ?k a)"
    using False assms(2) after_header_eq [of "got @ take ?k a" b]
    by (simp add: poll_header_def head_len_eq)
  with assms(1) have "poll_body (announced (b # got @ take ?k a)) [] (drop ?k a) = (r, f, rest)"
    by simp
  then show ?thesis
    by (rule poll_body_ok) simp
qed

lemma poll_ok:
  assumes "poll_read_frame f a = (r, f', rest)" and "future_ok f"
  shows "future_ok f' \<and> (\<forall>e. r \<noteq> Some (Inl e)) \<and> (r = None \<longrightarrow> rest = [])"
proof (cases f)
  case AtFirst
  show ?thesis
  proof (cases a)
    case Nil
    then show ?thesis using assms AtFirst by auto
  next
    case (Cons b l)
    have "poll_read_frame f a = poll_header b [] l"
      using AtFirst Cons by (simp add: poll_header_def head_len_eq)
    then have "poll_header b [] l = (r, f', rest)"
      using assms(1) by simp
    then show ?thesis
      by (rule poll_header_ok) simp
  qed
next
  case (AtHeader b got)
  then show ?thesis using assms poll_header_ok by simp
next
  case (AtBody n got)
  then show ?thesis using assms poll_body_ok by simp
qed

lemma read_all_ok: "future_ok f \<Longrightarrow> fst (snd (read_all f a)) = None"
proof (induction f a rule: read_all.induct)
  case (1 f a)
  obtain r f' rest where p: "poll_read_frame f a = (r, f', rest)"
    by (metis prod_cases3)
  note ok = poll_ok [OF p "1.prems"]
  show ?case
  proof (cases r)
    case None
    then have "poll_result f a = (Inr None, f', rest)"
      using p by (simp add: poll_result_iff)
    then show ?thesis by (simp add: read_all.simps)
  next
    case (Some v)
    then obtain m where "poll_result f a = (Inr (Some m), f', rest)"
      using p ok by (cases v) (auto simp: poll_result_iff)
    then show ?thesis
      using "1.IH" ok by (simp add: read_all.simps [of f a] prepend_def)
  qed
qed


fun arrived :: "conn_event list \<Rightarrow> bytes" where
  "arrived [] = []"
| "arrived (Arrive c # es) = c @ arrived es"
| "arrived (_ # es) = arrived es"

lemma arrived_append [simp]: "arrived (es @ es') = arrived es @ arrived es'"
  by (induction es rule: arrived.induct) auto

definition conn_inv :: "bytes \<Rightarrow> conn_reader \<Rightarrow> bool" where
  "conn_inv bs s \<longleftrightarrow> \<not> closed s \<and> future_ok (future s) \<and>
     read_all AtFirst bs = prepend (delivered s) (read_all (future s) (socket s))"

lemma conn_inv_step:
  assumes "conn_inv bs s" and "e \<noteq> OtherBranch"
  shows "conn_inv (bs @ arrived [e]) (conn_step e s)"
proof (cases e)
  case (Arrive c)
  obtain ns f b where r: "read_all (future s) (socket s) = (ns, None, f, b)"
    using read_all_ok [of "future s" "socket s"] assms(1)
    by (cases "read_all (future s) (socket s)") (auto simp: conn_inv_def)
  then have "read_all AtFirst bs = (delivered s @ ns, None, f, b)"
    using assms(1) by (simp add: conn_inv_def)
  then show ?thesis
    using assms(1) r Arrive reader.drain_append [of AtFirst bs c] reader.drain_append [of "future s" "socket s" c]
    by (simp add: conn_inv_def)
next
  case PollRead
  obtain r f rest where p: "poll_read_frame (future s) (socket s) = (r, f, rest)"
    by (metis prod_cases3)
  have ok: "future_ok f" "\<And>e. r \<noteq> Some (Inl e)" "r = None \<Longrightarrow> rest = []"
    using poll_ok [OF p] assms(1) by (auto simp: conn_inv_def)
  show ?thesis
  proof (cases r)
    case None
    then have "read_all (future s) (socket s) = ([], None, f, rest)"
      using p by (subst read_all.simps) (simp add: poll_result_def)
    then have "read_all (future s) (socket s) = read_all f rest"
      using reader.drain_append [of "future s" "socket s" "[]"] by simp
    then show ?thesis
      using assms(1) PollRead p None ok by (simp add: conn_inv_def)
  next
    case (Some v)
    then obtain m where m: "v = Inr m"
      using ok(2) by (cases v) auto
    then have "read_all (future s) (socket s) = prepend [m] (read_all AtFirst rest)"
      using p Some poll_Some [of "future s" "socket s" v f rest "[]"]
      by (subst read_all.simps) (simp add: poll_result_def)
    then show ?thesis
      using assms(1) PollRead p Some m by (simp add: conn_inv_def)
  qed
qed (use assms in simp)

lemma conn_inv_run:
  assumes "OtherBranch \<notin> set es"
  shows "conn_inv (arrived es) (conn_run es conn_new)"
  using assms
proof (induction es rule: rev_induct)
  case Nil
  show ?case by (simp add: conn_inv_def conn_run_def conn_new_def)
next
  case (snoc e es)
  then show ?case
    using conn_inv_step [of "arrived es" "conn_run es conn_new" e] by (auto simp: conn_run_def)
qed

lemma partial_frame_pending:
  assumes "frame_of data = a @ b" and "b \<noteq> []" and "length data \<le> MAX_PACKET_LENGTH"
  shows "\<exists>f. poll_read_frame AtFirst a = (None, f, [])"
proof -
  obtain r f rest where p: "poll_read_frame AtFirst a = (r, f, rest)"
    by (metis prod_cases3)
  have "poll_read_frame AtFirst (a @ b) = (Some (Inr data), AtFirst, [])"
    using poll_frame [OF assms(3), of "[]"] assms(1) by simp
  then have "r = None"
    using poll_Some [of AtFirst a _ f rest b] p assms(2) by (cases r) auto
  then show ?thesis
    using poll_ok [OF p] p by simp
qed


section \<open>Properties\<close>

text \<open>All encoders produce the same octets: \<open>encode_frame_into\<close> and the codec's \<open>encode\<close>
  append exactly the frame of \<open>encode_frame\<close>, the two writers put it on the wire, and a
  message above the limit is refused by all of them before anything is written.\<close>

theorem encoders_agree:
  "encode_frame_into data buf =
     (case encode_frame data of Inl e \<Rightarrow> (Inl e, buf) | Inr f \<Rightarrow> (Inr (), buf @ f)) \<and>
   encode data buf = encode_frame_into data buf \<and>
   write_frame data wire = encode_frame_into data wire \<and>
   write_frame_buffered data buf wire =
     (fst (encode_frame_into data wire), snd (encode_frame_into data []), snd (encode_frame_into data wire)) \<and>
   (encode_frame data = Inl (InvalidInput ''Message too large'') \<longleftrightarrow> length data > MAX_PACKET_LENGTH)"
  by (simp add: encode_frame_eq encode_frame_into_eq encode_eq write_frame_def write_frame_buffered_def)

text \<open>C30: A stream of frames cut into chunks at any places: the streaming decoder returns
  exactly the messages, in order, ends in its initial state with nothing left, and so does
  the asynchronous reader resumed after every chunk.\<close>

theorem chunked_stream_decodes:
  assumes "list_all2 (\<lambda>m f. encode_frame m = Inr f) ms fs" and "concat chunks = concat fs"
    and "state c = Head" and "max_packet_length c = MAX_PACKET_LENGTH"
  shows "decode_chunks c [] chunks = (ms, None, c, []) \<and>
    read_chunks AtFirst [] chunks = (ms, None, AtFirst, [])"
proof -
  note fs = frames_of_messages [OF assms(1)]
  have "decode_chunks c [] chunks = decode_all c (concat fs)"
    using codec.feed_drain [of c "[]" chunks] decode_all_Nil [OF assms(3)] assms(2) by simp
  moreover have "read_chunks AtFirst [] chunks = read_all AtFirst (concat fs)"
    using reader.feed_drain [of AtFirst "[]" chunks] read_all_Nil assms(2) by simp
  ultimately show ?thesis
    using decode_all_frames [of c ms "[]"] read_all_frames [of ms "[]"] fs assms(3,4)
      decode_all_Nil [OF assms(3)] read_all_Nil by simp
qed

theorem chunked_stream_decodes_witness:
  "decode_chunks BytesCodec_new [] [[12, 7], [8], [9, 0, 4], [5]] = ([[7, 8, 9], [], [5]], None, BytesCodec_new, []) \<and>
   read_chunks AtFirst [] [[12, 7], [8], [9, 0, 4], [5]] = ([[7, 8, 9], [], [5]], None, AtFirst, [])"
  by (rule chunked_stream_decodes [where fs = "[[12, 7, 8, 9], [0], [4, 5]]"])
     (simp_all add: encode_frame_Inr frame_of_def frame_head_def BytesCodec_new_def MAX_PACKET_LENGTH_def)

text \<open>As long as no other branch of the connection loop completes while a read is
  pending, the loop delivers the messages sent, in order, whatever the timing of arrivals
  and polls; what is not yet delivered is still in the pending read and the socket.\<close>

theorem connection_delivers_frames:
  assumes "OtherBranch \<notin> set es"
    and "list_all2 (\<lambda>m f. encode_frame m = Inr f) ms fs" and "arrived es = concat fs"
  defines "s \<equiv> conn_run es conn_new"
  shows "ms = delivered s @ fst (read_all (future s) (socket s)) \<and> \<not> closed s"
proof -
  have "read_all AtFirst (concat fs) = (ms, None, AtFirst, [])"
    using read_all_frames [of ms "[]"] frames_of_messages [OF assms(2)] read_all_Nil by simp
  then show ?thesis
    using conn_inv_run [OF assms(1)] assms(3) unfolding conn_inv_def s_def
    by (cases "read_all (future s) (socket s)") (auto simp: prepend_def s_def)
qed

theorem connection_delivers_frames_witness:
  "[[7, 8]] = delivered (conn_run [Arrive [8], PollRead, Arrive [7, 8], PollRead] conn_new) @
     fst (read_all (future (conn_run [Arrive [8], PollRead, Arrive [7, 8], PollRead] conn_new))
       (socket (conn_run [Arrive [8], PollRead, Arrive [7, 8], PollRead] conn_new))) \<and>
   \<not> closed (conn_run [Arrive [8], PollRead, Arrive [7, 8], PollRead] conn_new)"
  by (rule connection_delivers_frames [where fs = "[[8, 7, 8]]"])
     (simp_all add: encode_frame_Inr frame_of_def frame_head_def MAX_PACKET_LENGTH_def)

text \<open>C31: When another branch completes while a frame has arrived only in part, the part
  already taken off the socket is lost: the connection continues as if only the rest had
  been sent, although the same arrivals without the interruption deliver the message.\<close>

theorem interrupted_read_loses_octets:
  assumes "encode_frame data = Inr (a @ b)" and "b \<noteq> []"
  shows "delivered (conn_run [Arrive a, PollRead, Arrive b, PollRead] conn_new) = [data] \<and>
    conn_run ([Arrive a, PollRead, OtherBranch] @ es) conn_new = conn_run es conn_new"
proof -
  have frame: "frame_of data = a @ b" and len: "length data \<le> MAX_PACKET_LENGTH"
    using assms(1) by (auto simp: encode_frame_Inr)
  obtain f where p: "poll_read_frame AtFirst a = (None, f, [])"
    using partial_frame_pending [OF frame assms(2) len] by blast
  have "poll_read_frame f b = (Some (Inr data), AtFirst, [])"
    using poll_None [OF p, of b] poll_frame [OF len, of "[]"] frame by simp
  then show ?thesis
    using p by (simp add: conn_run_def conn_new_def)
qed

text \<open>The rest is then read as frames of its own: here the three octets of a message are
  taken as a frame of two.\<close>

theorem interrupted_read_loses_octets_witness:
  "delivered (conn_run [Arrive [12], PollRead, Arrive [8, 2, 3], PollRead] conn_new) = [[8, 2, 3]] \<and>
   delivered (conn_run ([Arrive [12], PollRead, OtherBranch] @ [Arrive [8, 2, 3], PollRead]) conn_new) = [[2, 3]]"
proof -
  have "encode_frame [8, 2, 3] = Inr ([12] @ [8, 2, 3])"
    by (simp add: encode_frame_Inr frame_of_def frame_head_def MAX_PACKET_LENGTH_def)
  note w = interrupted_read_loses_octets [OF this, of "[Arrive [8, 2, 3], PollRead]"]
  have "delivered (conn_run [Arrive [8, 2, 3], PollRead] conn_new) = [[2, 3]]"
    using poll_frame [of "[2, 3]" "[]"]
    by (simp add: conn_run_def conn_new_def frame_of_def frame_head_def MAX_PACKET_LENGTH_def)
  with w show ?thesis by simp
qed

end
