(* ===== verification/AnnexB.thy ===== *)
theory AnnexB
  imports Prelude
begin

text \<open>
  H.264 bitstream helpers (\<open>src/video/codec/h264_bitstream.rs\<close>) and the Annex-B splitter of
  the RTSP service (\<open>src/rtsp/bitstream.rs\<close>).  Every loop of the source is a function on
  the same index variables, with the conditions in the order the code tests them; indices
  are \<open>usize\<close> positions of a buffer in memory and are kept as \<open>nat\<close>.  The lemmas relate
  each scanner to one reference reading of the stream as a list of NAL units.
\<close>

unbundle bit_operations_syntax

section \<open>Scanners of \<open>h264_bitstream.rs\<close>\<close>

definition FALLBACK_WEBRTC_PROFILE_LEVEL_ID :: string where
  "FALLBACK_WEBRTC_PROFILE_LEVEL_ID = ''42e01f''"

definition webrtc_fmtp_line :: "string \<Rightarrow> string" where
  "webrtc_fmtp_line profile_level_id =
     ''level-asymmetry-allowed=1;packetization-mode=1;profile-level-id='' @ profile_level_id"

definition fallback_webrtc_fmtp_line :: string where
  "fallback_webrtc_fmtp_line = webrtc_fmtp_line FALLBACK_WEBRTC_PROFILE_LEVEL_ID"

text \<open>The test at the head of the three scanning loops.\<close>

definition start_code_len :: "bytes \<Rightarrow> nat \<Rightarrow> nat option" where
  "start_code_len data i =
     (if i + 4 \<le> length data \<and> data ! i = 0 \<and> data ! (i + 1) = 0 \<and> data ! (i + 2) = 0 \<and> data ! (i + 3) = 1
      then Some 4
      else if i + 3 \<le> length data \<and> data ! i = 0 \<and> data ! (i + 1) = 0 \<and> data ! (i + 2) = 1
      then Some 3
      else None)"

text \<open>The inner loop over \<open>j\<close> that looks for the end of the NAL unit.\<close>

function find_nal_end :: "bytes \<Rightarrow> nat \<Rightarrow> nat" where
  "find_nal_end data j =
     (if j + 3 \<le> length data then
        if (data ! j = 0 \<and> data ! (j + 1) = 0 \<and> data ! (j + 2) = 1) \<or>
           (j + 4 \<le> length data \<and> data ! j = 0 \<and> data ! (j + 1) = 0 \<and> data ! (j + 2) = 0 \<and> data ! (j + 3) = 1)
        then j
        else find_nal_end data (j + 1)
      else length data)"
  by pat_completeness auto
termination
  by (relation "measure (\<lambda>(data, j). length data - j)") auto

declare find_nal_end.simps [simp del]

lemma find_nal_end_bounds:
  "j \<le> length data \<Longrightarrow> j \<le> find_nal_end data j \<and> find_nal_end data j \<le> length data"
proof (induction data j rule: find_nal_end.induct)
  case (1 data j)
  then show ?case by (subst (1 2) find_nal_end.simps) auto
qed

lemma start_code_len_bound: "start_code_len data i = Some k \<Longrightarrow> i + k \<le> length data \<and> 3 \<le> k"
  by (auto simp: start_code_len_def split: if_splits)

lemma find_nal_end_progress:
  "start_code_len data i = Some k \<Longrightarrow> \<not> length data \<le> i + k \<Longrightarrow>
     length data - find_nal_end data (Suc (i + k)) < length data - i"
  using find_nal_end_bounds [of "Suc (i + k)" data] by auto

function strip_loop :: "bytes \<Rightarrow> nat \<Rightarrow> bytes \<Rightarrow> bytes" where
  "strip_loop data i result =
     (if i < length data then
        case start_code_len data i of
          None \<Rightarrow> strip_loop data (i + 1) result
        | Some code_len \<Rightarrow>
            let nal_start = i + code_len in
            if nal_start \<ge> length data then result
            else
              let nal_type = data ! nal_start AND 0x1F;
                  nal_end = find_nal_end data (nal_start + 1)
              in strip_loop data nal_end
                   (if nal_type \<noteq> 9 \<and> nal_type \<noteq> 12 then result @ slice_of i nal_end data else result)
      else result)"
  by pat_completeness auto
termination
  by (relation "measure (\<lambda>(data, i, _). length data - i)") (auto simp: find_nal_end_progress)

definition strip_aud_nal_units :: "bytes \<Rightarrow> bytes" where
  "strip_aud_nal_units data =
     (let result = strip_loop data 0 [] in
      if result = [] \<and> data \<noteq> [] then data else result)"

function extract_loop :: "bytes \<Rightarrow> nat \<Rightarrow> bytes option \<Rightarrow> bytes option \<Rightarrow> bytes option \<times> bytes option" where
  "extract_loop data i sps pps =
     (if i < length data then
        case start_code_len data i of
          None \<Rightarrow> extract_loop data (i + 1) sps pps
        | Some code_len \<Rightarrow>
            let nal_start = i + code_len in
            if nal_start \<ge> length data then (sps, pps)
            else
              let nal_type = data ! nal_start AND 0x1F;
                  nal_end = find_nal_end data (nal_start + 1)
              in if nal_type = 7 then extract_loop data nal_end (Some (slice_of nal_start nal_end data)) pps
                 else if nal_type = 8 then extract_loop data nal_end sps (Some (slice_of nal_start nal_end data))
                 else extract_loop data nal_end sps pps
      else (sps, pps))"
  by pat_completeness auto
termination
  by (relation "measure (\<lambda>(data, i, _). length data - i)") (auto simp: find_nal_end_progress)

definition extract_sps_pps :: "bytes \<Rightarrow> bytes option \<times> bytes option" where
  "extract_sps_pps data = extract_loop data 0 None None"

function has_loop :: "bytes \<Rightarrow> nat \<Rightarrow> bool \<Rightarrow> bool \<Rightarrow> bool" where
  "has_loop data i has_sps has_pps =
     (if i < length data then
        case start_code_len data i of
          None \<Rightarrow> has_loop data (i + 1) has_sps has_pps
        | Some code_len \<Rightarrow>
            let nal_start = i + code_len in
            if nal_start \<ge> length data then has_sps \<and> has_pps
            else
              let nal_type = data ! nal_start AND 0x1F;
                  has_sps = (if nal_type = 7 then True else has_sps);
                  has_pps = (if nal_type = 7 then has_pps else if nal_type = 8 then True else has_pps)
              in if has_sps \<and> has_pps then True
                 else has_loop data (nal_start + 1) has_sps has_pps
      else has_sps \<and> has_pps)"
  by pat_completeness auto
termination
  by (relation "measure (\<lambda>(data, i, _). length data - i)") auto

definition has_sps_pps :: "bytes \<Rightarrow> bool" where
  "has_sps_pps data = has_loop data 0 False False"

function keyframe_loop :: "bytes \<Rightarrow> nat \<Rightarrow> bool" where
  "keyframe_loop data i =
     (if i < length data then
        if i + 3 < length data \<and> data ! i = 0 \<and> data ! (i + 1) = 0 then
          if data ! (i + 2) = 1 then
            (if i + 3 < length data \<and> data ! (i + 3) AND 0x1F = 5 then True else keyframe_loop data (i + 3))
          else if i + 4 < length data \<and> data ! (i + 2) = 0 \<and> data ! (i + 3) = 1 then
            (if i + 4 < length data \<and> data ! (i + 4) AND 0x1F = 5 then True else keyframe_loop data (i + 4))
          else keyframe_loop data (i + 1)
        else keyframe_loop data (i + 1)
      else False)"
  by pat_completeness auto
termination
  by (relation "measure (\<lambda>(data, i). length data - i)") auto

definition is_keyframe :: "bytes \<Rightarrow> bool" where
  "is_keyframe data = keyframe_loop data 0"

declare strip_loop.simps [simp del] extract_loop.simps [simp del]
  has_loop.simps [simp del] keyframe_loop.simps [simp del]

definition parse_profile_level_id_from_sps :: "bytes \<Rightarrow> string option" where
  "parse_profile_level_id_from_sps sps =
     (if length sps < 4 then None
      else Some (hex02_lower (sps ! 1) @ hex02_lower (sps ! 2) @ hex02_lower (sps ! 3)))"

definition extract_profile_level_id :: "bytes \<Rightarrow> string option" where
  "extract_profile_level_id data =
     (case extract_sps_pps data of (sps, _) \<Rightarrow> Option.bind sps parse_profile_level_id_from_sps)"

definition is_annex_b :: "bytes \<Rightarrow> bool" where
  "is_annex_b data \<longleftrightarrow> take 3 data = [0, 0, 1] \<or> take 4 data = [0, 0, 0, 1]"

text \<open>\<open>pos + nalu_len\<close> stays below \<open>2 ^ 33\<close> beyond a buffer position and does not wrap.\<close>

function avcc_loop :: "bytes \<Rightarrow> nat \<Rightarrow> bytes \<Rightarrow> nat \<Rightarrow> (bytes \<times> nat \<times> nat) option" where
  "avcc_loop data pos output nalu_count =
     (if pos + 4 \<le> length data then
        let nalu_len = be_val (slice_of pos (pos + 4) data);
            pos = pos + 4
        in if nalu_len = 0 \<or> pos + nalu_len > length data then None
           else
             let nal_type = data ! pos AND 0x1F;
                 output = (if nal_type \<noteq> 9 \<and> nal_type \<noteq> 12
                           then output @ [0, 0, 0, 1] @ slice_of pos (pos + nalu_len) data else output)
             in avcc_loop data (pos + nalu_len) output (nalu_count + 1)
      else Some (output, pos, nalu_count))"
  by pat_completeness auto
termination
  by (relation "measure (\<lambda>(data, pos, _). length data - pos)") auto

declare avcc_loop.simps [simp del]

definition avcc_to_annex_b :: "bytes \<Rightarrow> bytes option" where
  "avcc_to_annex_b data =
     (case avcc_loop data 0 [] 0 of
        None \<Rightarrow> None
      | Some (output, pos, nalu_count) \<Rightarrow>
          if pos = length data \<and> nalu_count > 0 \<and> output \<noteq> [] then Some output else None)"

definition normalize_for_webrtc :: "bytes \<Rightarrow> bytes" where
  "normalize_for_webrtc data =
     (if is_annex_b data then strip_aud_nal_units data
      else case avcc_to_annex_b data of
        Some annex_b \<Rightarrow> strip_aud_nal_units annex_b
      | None \<Rightarrow> data)"

section \<open>The splitter of \<open>rtsp/bitstream.rs\<close>\<close>

function find_code_loop :: "bytes \<Rightarrow> nat \<Rightarrow> (nat \<times> nat) option" where
  "find_code_loop data i =
     (if i + 3 \<le> length data then
        if i + 4 \<le> length data \<and> data ! i = 0 \<and> data ! (i + 1) = 0 \<and> data ! (i + 2) = 0 \<and> data ! (i + 3) = 1
        then Some (i, 4)
        else if data ! i = 0 \<and> data ! (i + 1) = 0 \<and> data ! (i + 2) = 1
        then Some (i, 3)
        else find_code_loop data (i + 1)
      else None)"
  by pat_completeness auto
termination
  by (relation "measure (\<lambda>(data, i). length data - i)") auto

declare find_code_loop.simps [simp del]

definition find_annexb_start_code :: "bytes \<Rightarrow> nat \<Rightarrow> (nat \<times> nat) option" where
  "find_annexb_start_code data start = (if start \<ge> length data then None else find_code_loop data start)"

lemma find_annexb_start_code_eq: "find_annexb_start_code = find_code_loop"
  by (intro ext) (simp add: find_annexb_start_code_def find_code_loop.simps)

lemma find_code_loop_Some:
  "find_code_loop data i = Some (p, k) \<Longrightarrow> i \<le> p \<and> p + k \<le> length data \<and> 3 \<le> k"
proof (induction data i rule: find_code_loop.induct)
  case (1 data i)
  show ?case
    using "1.prems" "1.IH" by (subst (asm) find_code_loop.simps) (auto split: if_splits)
qed

text \<open>The loop that drops the zero octets before the next start code.\<close>

fun trim_nal_end :: "bytes \<Rightarrow> nat \<Rightarrow> nat \<Rightarrow> nat" where
  "trim_nal_end data nal_start 0 = 0"
| "trim_nal_end data nal_start (Suc e) =
     (if Suc e > nal_start \<and> data ! e = 0 then trim_nal_end data nal_start e else Suc e)"

function split_loop :: "bytes \<Rightarrow> nat \<Rightarrow> bytes list \<Rightarrow> bytes list" where
  "split_loop data cursor nal_units =
     (case find_annexb_start_code data cursor of
        None \<Rightarrow> nal_units
      | Some (start, code_len) \<Rightarrow>
          let nal_start = start + code_len in
          if nal_start \<ge> length data then nal_units
          else
            let next_start = (case find_annexb_start_code data nal_start of
                                Some (idx, _) \<Rightarrow> idx | None \<Rightarrow> length data);
                nal_end = trim_nal_end data nal_start next_start
            in split_loop data next_start
                 (if nal_end > nal_start then nal_units @ [slice_of nal_start nal_end data] else nal_units))"
  by pat_completeness auto
termination
  by (relation "measure (\<lambda>(data, cursor, _). length data - cursor)")
     (auto simp: find_annexb_start_code_eq dest!: find_code_loop_Some split: option.splits)

declare split_loop.simps [simp del]

definition split_annexb_nal_units :: "bytes \<Rightarrow> bytes list" where
  "split_annexb_nal_units data = split_loop data 0 []"

definition h264_nal_type :: "bytes \<Rightarrow> u8 option" where
  "h264_nal_type nal = (case nal of [] \<Rightarrow> None | v # _ \<Rightarrow> Some (v AND 0x1f))"

definition h265_nal_type :: "bytes \<Rightarrow> u8 option" where
  "h265_nal_type nal = (case nal of [] \<Rightarrow> None | v # _ \<Rightarrow> Some (drop_bit 1 v AND 0x3f))"

datatype VideoEncoderType = H264 | H265 | VP8 | VP9

record ParameterSets =
  h264_sps :: "bytes option"
  h264_pps :: "bytes option"
  h265_vps :: "bytes option"
  h265_sps :: "bytes option"
  h265_pps :: "bytes option"

definition note_h264_nal :: "bytes \<Rightarrow> ParameterSets \<Rightarrow> ParameterSets" where
  "note_h264_nal nal params =
     (if h264_nal_type nal = Some 7 then params\<lparr>h264_sps := Some nal\<rparr>
      else if h264_nal_type nal = Some 8 then params\<lparr>h264_pps := Some nal\<rparr>
      else params)"

definition note_h265_nal :: "bytes \<Rightarrow> ParameterSets \<Rightarrow> ParameterSets" where
  "note_h265_nal nal params =
     (if h265_nal_type nal = Some 32 then params\<lparr>h265_vps := Some nal\<rparr>
      else if h265_nal_type nal = Some 33 then params\<lparr>h265_sps := Some nal\<rparr>
      else if h265_nal_type nal = Some 34 then params\<lparr>h265_pps := Some nal\<rparr>
      else params)"

definition update_parameter_sets :: "VideoEncoderType \<Rightarrow> bytes \<Rightarrow> ParameterSets \<Rightarrow> ParameterSets" where
  "update_parameter_sets codec data params =
     (let nal_units = split_annexb_nal_units data in
      case codec of
        H264 \<Rightarrow> fold note_h264_nal nal_units params
      | H265 \<Rightarrow> fold note_h265_nal nal_units params
      | _ \<Rightarrow> params)"


section \<open>The reference reading of a stream\<close>

text \<open>\<open>code_of\<close> is the length of the start code at the front, \<open>nal_len\<close> the number of octets
  before the next start code or the end, and \<open>nal_units\<close> the start codes with their NAL
  units; octets before the first start code are skipped, and a start code with nothing
  behind it ends the stream.\<close>

fun code_of :: "bytes \<Rightarrow> nat option" where
  "code_of (a # b # c # d # _) =
     (if a = 0 \<and> b = 0 \<and> c = 0 \<and> d = 1 then Some 4
      else if a = 0 \<and> b = 0 \<and> c = 1 then Some 3 else None)"
| "code_of [a, b, c] = (if a = 0 \<and> b = 0 \<and> c = 1 then Some 3 else None)"
| "code_of _ = None"

fun nal_len :: "bytes \<Rightarrow> nat" where
  "nal_len [] = 0"
| "nal_len (x # xs) = (if code_of (x # xs) \<noteq> None then 0 else Suc (nal_len xs))"

lemma nal_len_le: "nal_len xs \<le> length xs"
  by (induction xs) auto

lemma code_of_pos: "code_of xs = Some k \<Longrightarrow> 3 \<le> k \<and> k \<le> length xs"
  by (induction xs rule: code_of.induct) (auto split: if_splits)

function nal_units :: "bytes \<Rightarrow> (bytes \<times> bytes) list" where
  "nal_units xs =
     (case code_of xs of
        None \<Rightarrow> (case xs of [] \<Rightarrow> [] | _ # ys \<Rightarrow> nal_units ys)
      | Some k \<Rightarrow>
          (case drop k xs of
             [] \<Rightarrow> []
           | b # ys \<Rightarrow> (take k xs, b # take (nal_len ys) ys) # nal_units (drop (nal_len ys) ys)))"
  by pat_completeness auto
termination
proof (relation "measure length")
  fix xs :: bytes and k b ys
  assume "code_of xs = Some k" and "drop k xs = b # ys"
  then have "length xs = k + Suc (length ys)"
    using code_of_pos [of xs k] by (metis le_add_diff_inverse length_Cons length_drop)
  then show "(drop (nal_len ys) ys, xs) \<in> measure length"
    by simp
qed auto

declare nal_units.simps [simp del]

definition nal_type :: "bytes \<Rightarrow> u8" where
  "nal_type nal = hd nal AND 0x1F"

lemma start_code_len_drop: "start_code_len data i = code_of (drop i data)"
proof -
  have d: "drop i data ! 0 = data ! i" "drop i data ! 1 = data ! (i + 1)" "drop i data ! 2 = data ! (i + 2)"
    "drop i data ! 3 = data ! (i + 3)" if "i \<le> length data"
    using that by simp_all
  have l: "length (drop i data) = length data - i" by simp
  show ?thesis
    by (cases "drop i data" rule: code_of.cases)
       (use d l in \<open>auto simp: start_code_len_def numeral_eq_Suc\<close>)
qed

lemma find_nal_end_step:
  "find_nal_end data j =
     (if j < length data then if code_of (drop j data) \<noteq> None then j else find_nal_end data (Suc j)
      else length data)"
proof (cases "j + 3 \<le> length data")
  case True
  then show ?thesis
    by (subst find_nal_end.simps) (auto simp: start_code_len_drop [symmetric] start_code_len_def)
next
  case False
  then have "code_of (drop j data) = None"
    by (auto simp: start_code_len_drop [symmetric] start_code_len_def)
  then show ?thesis
    using False by (simp add: find_nal_end.simps)
qed

lemma find_nal_end_eq: "j \<le> length data \<Longrightarrow> find_nal_end data j = j + nal_len (drop j data)"
proof (induction "length data - j" arbitrary: j)
  case 0
  then show ?case by (simp add: find_nal_end_step)
next
  case (Suc n)
  then have "drop j data = data ! j # drop (Suc j) data"
    by (simp add: Cons_nth_drop_Suc)
  moreover have "j < length data"
    using Suc.hyps(2) by simp
  ultimately show ?case
    using Suc by (simp add: find_nal_end_step [of data j])
qed

lemma nal_units_skip: "nal_units (drop (nal_len ys) ys) = nal_units ys"
proof (induction ys)
  case (Cons y ys)
  then show ?case
    by (auto simp: nal_units.simps [of "y # ys"])
qed simp

lemma nal_units_Nil [simp]: "nal_units [] = []"
  by (simp add: nal_units.simps)

text \<open>One step of the scanning loops, on the units that are left.\<close>

lemma nal_units_at:
  "nal_units (drop i data) =
     (if i < length data then
        case start_code_len data i of
          None \<Rightarrow> nal_units (drop (Suc i) data)
        | Some k \<Rightarrow>
            if length data \<le> i + k then []
            else
              let e = find_nal_end data (Suc (i + k)) in
              (take k (drop i data), slice_of (i + k) e data) # nal_units (drop e data)
      else [])"
proof (cases "i < length data")
  case True
  note front = Cons_nth_drop_Suc [OF True, symmetric]
  show ?thesis
  proof (cases "code_of (drop i data)")
    case None
    then show ?thesis
      using True by (subst nal_units.simps) (simp add: start_code_len_drop front)
  next
    case (Some k)
    show ?thesis
    proof (cases "length data \<le> i + k")
      case True
      then show ?thesis
        using Some by (subst nal_units.simps) (simp add: start_code_len_drop)
    next
      case False
      then have d: "drop (i + k) data = data ! (i + k) # drop (Suc (i + k)) data"
        by (simp add: Cons_nth_drop_Suc)
      have "find_nal_end data (Suc (i + k)) = Suc (i + k) + nal_len (drop (Suc (i + k)) data)"
        using False by (intro find_nal_end_eq) simp
      then show ?thesis
        using True Some False d
        by (subst nal_units.simps) (simp add: start_code_len_drop slice_of_def add.commute)
    qed
  qed
qed simp

lemma nal_units_after:
  assumes "i < length data"
  shows "nal_units (drop (find_nal_end data (Suc i)) data) = nal_units (drop (Suc i) data)"
  using assms nal_units_skip [of "drop (Suc i) data"] find_nal_end_eq [of "Suc i" data]
  by (simp add: add.commute)

definition is_delimiter :: "bytes \<times> bytes \<Rightarrow> bool" where
  "is_delimiter u \<longleftrightarrow> nal_type (snd u) = 9 \<or> nal_type (snd u) = 12"

definition annexb :: "(bytes \<times> bytes) list \<Rightarrow> bytes" where
  "annexb us = concat (map (\<lambda>(c, n). c @ n) us)"

definition last_of_type :: "u8 \<Rightarrow> (bytes \<times> bytes) list \<Rightarrow> bytes option \<Rightarrow> bytes option" where
  "last_of_type t us = fold (\<lambda>u a. if nal_type (snd u) = t then Some (snd u) else a) us"

lemma annexb_simps [simp]:
  "annexb [] = []" "annexb ((c, n) # us) = c @ n @ annexb us" "annexb (us @ vs) = annexb us @ annexb vs"
  by (simp_all add: annexb_def)

lemma slice_of_front: "i + k \<le> e \<Longrightarrow> slice_of i e xs = take k (drop i xs) @ slice_of (i + k) e xs"
  using take_add [of k "e - (i + k)" "drop i xs"] by (simp add: slice_of_def add.commute)

lemma hd_slice_of: "i < j \<Longrightarrow> j \<le> length xs \<Longrightarrow> hd (slice_of i j xs) = xs ! i"
  by (simp add: slice_of_def hd_drop_conv_nth)

text \<open>The four ways an iteration of a scanning loop goes.\<close>

lemma scan_cases:
  obtains (ended) "\<not> i < length data" "nal_units (drop i data) = []"
  | (skip) "i < length data" "start_code_len data i = None"
      "nal_units (drop i data) = nal_units (drop (Suc i) data)"
  | (tail) k where "i < length data" "start_code_len data i = Some k" "length data \<le> i + k"
      "nal_units (drop i data) = []"
  | (unit) k e where "i < length data" "start_code_len data i = Some k" "\<not> length data \<le> i + k"
      "e = find_nal_end data (Suc (i + k))" "Suc (i + k) \<le> e" "e \<le> length data"
      "nal_units (drop i data) = (take k (drop i data), slice_of (i + k) e data) # nal_units (drop e data)"
      "nal_type (slice_of (i + k) e data) = data ! (i + k) AND 0x1F"
proof (cases "i < length data")
  case True
  show ?thesis
  proof (cases "start_code_len data i")
    case None
    with True that(2) show ?thesis by (simp add: nal_units_at [of i])
  next
    case (Some k)
    show ?thesis
    proof (cases "length data \<le> i + k")
      case True
      with Some \<open>i < length data\<close> that(3) show ?thesis by (simp add: nal_units_at [of i])
    next
      case False
      then have "Suc (i + k) \<le> find_nal_end data (Suc (i + k)) \<and> find_nal_end data (Suc (i + k)) \<le> length data"
        by (intro find_nal_end_bounds) simp
      with False Some \<open>i < length data\<close> that(4) show ?thesis
        by (simp add: nal_units_at [of i] Let_def nal_type_def hd_slice_of)
    qed
  qed
qed (use that(1) in simp)

lemma strip_loop_eq:
  "strip_loop data i result = result @ annexb (filter (\<lambda>u. \<not> is_delimiter u) (nal_units (drop i data)))"
proof (induction data i result rule: strip_loop.induct)
  case (1 data i result)
  show ?case
  proof (cases rule: scan_cases [of i data])
    case (unit k e)
    then have "slice_of i e data = take k (drop i data) @ slice_of (i + k) e data"
      by (intro slice_of_front) simp
    with unit 1 show ?thesis
      by (subst strip_loop.simps) (simp add: Let_def is_delimiter_def)
  qed (use 1 in \<open>simp_all add: strip_loop.simps [of data i]\<close>)
qed

lemma extract_loop_eq:
  "extract_loop data i sps pps =
     (last_of_type 7 (nal_units (drop i data)) sps, last_of_type 8 (nal_units (drop i data)) pps)"
proof (induction data i sps pps rule: extract_loop.induct)
  case (1 data i sps pps)
  show ?case
  proof (cases rule: scan_cases [of i data])
    case (unit k e)
    with 1 show ?thesis
      by (subst extract_loop.simps) (auto simp: Let_def last_of_type_def)
  qed (use 1 in \<open>simp_all add: extract_loop.simps [of data i] last_of_type_def\<close>)
qed

definition has_type :: "u8 \<Rightarrow> (bytes \<times> bytes) list \<Rightarrow> bool" where
  "has_type t us \<longleftrightarrow> (\<exists>u \<in> set us. nal_type (snd u) = t)"

lemma has_loop_eq:
  "has_loop data i a b \<longleftrightarrow>
     (a \<or> has_type 7 (nal_units (drop i data))) \<and> (b \<or> has_type 8 (nal_units (drop i data)))"
proof (induction data i a b rule: has_loop.induct)
  case (1 data i a b)
  show ?case
  proof (cases rule: scan_cases [of i data])
    case (unit k e)
    with 1 nal_units_after [of "i + k" data] show ?thesis
      by (subst has_loop.simps) (auto simp: Let_def has_type_def)
  qed (use 1 in \<open>auto simp: has_loop.simps [of data i] has_type_def\<close>)
qed

lemma last_of_type_None:
  "last_of_type t us a = None \<longleftrightarrow> a = None \<and> \<not> has_type t us"
  by (induction us arbitrary: a) (auto simp: last_of_type_def has_type_def split: if_splits)

lemma last_of_type_Some:
  "last_of_type t us None = Some n \<Longrightarrow> \<exists>u \<in> set us. nal_type (snd u) = t \<and> snd u = n"
proof (induction us rule: rev_induct)
  case (snoc u us)
  then show ?case by (auto simp: last_of_type_def split: if_splits)
qed (simp add: last_of_type_def)

text \<open>What the scanners of the H.264 module compute, over the units of the stream.\<close>

lemma strip_aud_eq:
  "strip_aud_nal_units data =
     (let r = annexb (filter (\<lambda>u. \<not> is_delimiter u) (nal_units data)) in
      if r = [] \<and> data \<noteq> [] then data else r)"
  by (simp add: strip_aud_nal_units_def strip_loop_eq)

lemma extract_sps_pps_eq:
  "extract_sps_pps data = (last_of_type 7 (nal_units data) None, last_of_type 8 (nal_units data) None)"
  by (simp add: extract_sps_pps_def extract_loop_eq)

lemma has_sps_pps_eq: "has_sps_pps data \<longleftrightarrow> has_type 7 (nal_units data) \<and> has_type 8 (nal_units data)"
  by (simp add: has_sps_pps_def has_loop_eq)


lemma has_sps_pps_extract:
  "has_sps_pps data \<longleftrightarrow> fst (extract_sps_pps data) \<noteq> None \<and> snd (extract_sps_pps data) \<noteq> None"
  by (simp add: has_sps_pps_eq extract_sps_pps_eq last_of_type_None)

section \<open>Well-formed streams\<close>

text \<open>A NAL unit as an encoder writes it: not empty, no start code inside, the last octet not
  zero.  A stream is a list of such units, each behind a start code of three or four octets.\<close>

definition nal_ok :: "bytes \<Rightarrow> bool" where
  "nal_ok n \<longleftrightarrow> n \<noteq> [] \<and> nal_len n = length n \<and> last n \<noteq> 0"

definition unit_ok :: "bytes \<times> bytes \<Rightarrow> bool" where
  "unit_ok u \<longleftrightarrow> (fst u = [0, 0, 1] \<or> fst u = [0, 0, 0, 1]) \<and> nal_ok (snd u)"

lemma code_of_cross:
  assumes "code_of (y # ys) = None" and "last (y # ys) \<noteq> 0 \<or> (\<exists>t. r = 0 # 0 # 0 # 1 # t)"
  shows "code_of (y # ys @ r) = None"
proof (cases ys rule: code_of.cases)
  case (1 a b c d e)
  with assms(1) show ?thesis by (auto split: if_splits)
next
  case (2 a b c)
  with assms show ?thesis by (cases r) (auto split: if_splits)
qed (use assms in \<open>cases r rule: code_of.cases; auto split: if_splits\<close>)+

text \<open>Such a unit contains no start code and none begins in it and ends behind it.\<close>

lemma code_free_append:
  assumes "nal_len n = length n" and "n \<noteq> [] \<Longrightarrow> last n \<noteq> 0 \<or> (\<exists>t. r = 0 # 0 # 0 # 1 # t)"
  shows "nal_len (n @ r) = length n + nal_len r"
  using assms
proof (induction n)
  case (Cons x n)
  then have "code_of (x # n) = None" and "nal_len n = length n"
    by (auto split: if_splits)
  moreover have "code_of (x # n @ r) = None"
    using code_of_cross [of x n r] calculation Cons.prems(2) by blast
  ultimately show ?case
    using Cons by (cases n) auto
qed simp

lemma code_of_unit:
  assumes "unit_ok (c, n)"
  shows "code_of (c @ n @ r) = Some (length c)"
  using assms by (cases n) (auto simp: unit_ok_def nal_ok_def)

lemma nal_len_units: "\<forall>u \<in> set us. unit_ok u \<Longrightarrow> nal_len (annexb us) = 0"
proof (cases us)
  case (Cons u us')
  moreover obtain c n where "u = (c, n)" by (cases u)
  moreover assume "\<forall>u \<in> set us. unit_ok u"
  ultimately have "code_of (annexb us) = Some (length c)"
    using code_of_unit [of c n] by simp
  then show ?thesis by (cases "annexb us") simp_all
qed simp

lemma nal_len_ok:
  assumes "nal_ok n" and "\<forall>u \<in> set us. unit_ok u"
  shows "nal_len (n @ annexb us) = length n" and "nal_len (tl n @ annexb us) = length (tl n)"
proof -
  show "nal_len (n @ annexb us) = length n"
    using assms code_free_append [of n "annexb us"] nal_len_units by (simp add: nal_ok_def)
  have "nal_len (tl n) = length (tl n)" and "tl n \<noteq> [] \<Longrightarrow> last (tl n) \<noteq> 0"
    using assms(1) by (cases n; auto simp: nal_ok_def split: if_splits)+
  then show "nal_len (tl n @ annexb us) = length (tl n)"
    using code_free_append [of "tl n" "annexb us"] nal_len_units [OF assms(2)] by simp
qed

lemma nal_units_annexb: "\<forall>u \<in> set us. unit_ok u \<Longrightarrow> nal_units (annexb us) = us"
proof (induction us)
  case (Cons u us)
  obtain c n where u: "u = (c, n)" by (cases u)
  then have ok: "unit_ok (c, n)" "nal_ok n"
    using Cons.prems by (auto simp: unit_ok_def)
  then obtain b m where n: "n = b # m"
    by (cases n) (auto simp: nal_ok_def)
  have "nal_len (m @ annexb us) = length m"
    using nal_len_ok(2) [OF ok(2), of us] Cons.prems n by simp
  then show ?case
    using Cons code_of_unit [OF ok(1), of "annexb us"] u n
    by (subst nal_units.simps) simp
qed simp

text \<open>\<open>is_keyframe\<close> looks for a three-octet start code with an IDR octet behind it anywhere.\<close>

fun idr_front :: "bytes \<Rightarrow> bool" where
  "idr_front (a # b # c # d # _) \<longleftrightarrow> a = 0 \<and> b = 0 \<and> c = 1 \<and> d AND 0x1F = 5"
| "idr_front _ \<longleftrightarrow> False"

fun idr_in :: "bytes \<Rightarrow> bool" where
  "idr_in [] \<longleftrightarrow> False"
| "idr_in (x # xs) \<longleftrightarrow> idr_front (x # xs) \<or> idr_in xs"

lemma idr_front_drop:
  "idr_front (drop i data) \<longleftrightarrow> i + 3 < length data \<and> data ! i = 0 \<and> data ! (i + 1) = 0 \<and> data ! (i + 2) = 1 \<and>
     data ! (i + 3) AND 0x1F = 5"
proof (cases "i + 3 < length data")
  case True
  then have "drop i data = data ! i # data ! (i + 1) # data ! (i + 2) # data ! (i + 3) # drop (i + 4) data"
    by (simp add: Cons_nth_drop_Suc numeral_eq_Suc)
  with True show ?thesis by simp
next
  case False
  then have "length (drop i data) < 4" by simp
  then show ?thesis
    using False by (cases "drop i data" rule: idr_front.cases) auto
qed

lemma idr_in_drop:
  "idr_in (drop i data) \<longleftrightarrow> i < length data \<and> (idr_front (drop i data) \<or> idr_in (drop (Suc i) data))"
proof (cases "i < length data")
  case True
  then have "drop i data = data ! i # drop (Suc i) data"
    by (simp add: Cons_nth_drop_Suc)
  then show ?thesis using True by simp
qed simp

lemma keyframe_loop_eq: "keyframe_loop data i \<longleftrightarrow> idr_in (drop i data)"
proof (induction data i rule: keyframe_loop.induct)
  case (1 data i)
  have skip: "\<not> idr_front (drop j data)" if "data ! j \<noteq> 0 \<or> data ! (j + 1) \<noteq> 0 \<or> data ! (j + 2) \<noteq> 1" for j
    using that by (auto simp: idr_front_drop)
  consider "\<not> i < length data"
    | "i < length data" "\<not> (i + 3 < length data \<and> data ! i = 0 \<and> data ! (i + 1) = 0)"
    | "i + 3 < length data" "data ! i = 0" "data ! (i + 1) = 0" "data ! (i + 2) = 1"
    | "i + 3 < length data" "data ! i = 0" "data ! (i + 1) = 0" "data ! (i + 2) \<noteq> 1"
      "i + 4 < length data \<and> data ! (i + 2) = 0 \<and> data ! (i + 3) = 1"
    | "i + 3 < length data" "data ! i = 0" "data ! (i + 1) = 0" "data ! (i + 2) \<noteq> 1"
      "\<not> (i + 4 < length data \<and> data ! (i + 2) = 0 \<and> data ! (i + 3) = 1)"
    by linarith
  then show ?case
  proof cases
    case 1
    then show ?thesis by (simp add: keyframe_loop.simps)
  next
    case 2
    then show ?thesis
      using "1.IH" by (subst keyframe_loop.simps, subst idr_in_drop) (auto simp: idr_front_drop)
  next
    case 3
    then have "idr_in (drop i data) \<longleftrightarrow> data ! (i + 3) AND 0x1F = 5 \<or> idr_in (drop (i + 3) data)"
      using idr_in_drop [of i data] idr_in_drop [of "Suc i" data] idr_in_drop [of "Suc (Suc i)" data]
        idr_front_drop [of i data] skip [of "i + 1"] skip [of "i + 2"] by (simp add: numeral_3_eq_3)
    then show ?thesis
      using 3 "1.IH" by (subst keyframe_loop.simps) auto
  next
    case 4
    then have "idr_in (drop i data) \<longleftrightarrow> data ! (i + 4) AND 0x1F = 5 \<or> idr_in (drop (i + 4) data)"
      using idr_in_drop [of i data] idr_in_drop [of "Suc i" data] idr_in_drop [of "Suc (Suc i)" data]
        idr_in_drop [of "Suc (Suc (Suc i))" data] idr_front_drop [of "i + 1" data] skip [of i]
        skip [of "i + 2"] skip [of "i + 3"] by (simp add: numeral_eq_Suc)
    then show ?thesis
      using 4 "1.IH" by (subst keyframe_loop.simps) auto
  next
    case 5
    then show ?thesis
      using "1.IH" skip [of i] by (subst keyframe_loop.simps, subst idr_in_drop) auto
  qed
qed

lemma is_keyframe_eq: "is_keyframe data = idr_in data"
  by (simp add: is_keyframe_def keyframe_loop_eq)

lemma idr_front_one [simp]: "\<not> idr_front (a # 1 # t)" "\<not> idr_front (1 # t)"
  by (cases "a # 1 # t" rule: idr_front.cases; simp) (cases "1 # t" rule: idr_front.cases; simp)

lemma idr_front_code: "idr_front xs \<Longrightarrow> code_of xs \<noteq> None"
  by (cases xs rule: idr_front.cases) auto

lemma idr_in_code_free:
  assumes "nal_len n = length n" and "n \<noteq> [] \<Longrightarrow> last n \<noteq> 0 \<or> (\<exists>t. r = 0 # 0 # 0 # 1 # t)"
  shows "idr_in (n @ r) = idr_in r"
  using assms
proof (induction n)
  case (Cons x n)
  then have "code_of (x # n) = None" and "nal_len n = length n"
    by (auto split: if_splits)
  moreover have "code_of (x # n @ r) = None"
    using code_of_cross [of x n r] calculation Cons.prems(2) by blast
  ultimately show ?case
    using Cons idr_front_code [of "x # n @ r"] by (cases n) auto
qed simp

lemma idr_in_annexb: "\<forall>u \<in> set us. unit_ok u \<Longrightarrow> idr_in (annexb us) \<longleftrightarrow> has_type 5 us"
proof (induction us)
  case (Cons u us)
  obtain c n where u: "u = (c, n)" by (cases u)
  then have ok: "unit_ok (c, n)" "nal_ok n"
    using Cons.prems by (auto simp: unit_ok_def)
  then have rest: "idr_in (n @ annexb us) = idr_in (annexb us)"
    by (intro idr_in_code_free) (auto simp: nal_ok_def)
  obtain b m where n: "n = b # m"
    using ok(2) by (cases n) (auto simp: nal_ok_def)
  have "idr_in (annexb (u # us)) \<longleftrightarrow> nal_type n = 5 \<or> idr_in (n @ annexb us)"
    using ok(1) u n by (auto simp: unit_ok_def nal_type_def)
  then show ?case
    using Cons rest u by (simp add: has_type_def)
qed (simp add: has_type_def)

text \<open>The RTSP splitter.\<close>

lemma find_code_loop_step:
  "find_code_loop data i =
     (if i < length data
      then case code_of (drop i data) of Some k \<Rightarrow> Some (i, k) | None \<Rightarrow> find_code_loop data (Suc i)
      else None)"
proof (cases "i + 3 \<le> length data")
  case True
  then show ?thesis
    by (subst find_code_loop.simps) (auto simp: start_code_len_drop [symmetric] start_code_len_def)
next
  case False
  then have "code_of (drop i data) = None"
    by (auto simp: start_code_len_drop [symmetric] start_code_len_def)
  then show ?thesis
    using False by (simp add: find_code_loop.simps)
qed

lemma find_code_loop_eq:
  "i \<le> length data \<Longrightarrow> find_code_loop data i =
     (let p = i + nal_len (drop i data) in
      if p < length data then map_option (Pair p) (code_of (drop p data)) else None)"
proof (induction "length data - i" arbitrary: i)
  case 0
  then show ?case by (simp add: find_code_loop_step)
next
  case (Suc n)
  then have "i < length data" by simp
  then have "drop i data = data ! i # drop (Suc i) data"
    by (simp add: Cons_nth_drop_Suc)
  then show ?case
    using Suc \<open>i < length data\<close> by (subst find_code_loop_step) (auto simp: Let_def split: option.splits)
qed

lemma trim_nal_end_last:
  "nal_start < e \<Longrightarrow> data ! (e - 1) \<noteq> 0 \<Longrightarrow> trim_nal_end data nal_start e = e"
  by (cases e) auto

lemma split_loop_annexb:
  assumes "\<forall>u \<in> set us. unit_ok u" and "data = pre @ annexb us"
  shows "split_loop data (length pre) acc = acc @ map snd us"
  using assms
proof (induction us arbitrary: pre acc)
  case Nil
  then show ?case
    by (simp add: split_loop.simps find_annexb_start_code_def)
next
  case (Cons u us)
  obtain c n where u: "u = (c, n)" by (cases u)
  then have ok: "unit_ok (c, n)" "nal_ok n" and us: "\<forall>u \<in> set us. unit_ok u"
    using Cons.prems by (auto simp: unit_ok_def)
  have data: "data = pre @ c @ n @ annexb us"
    using Cons.prems u by simp
  have ne: "n \<noteq> []" "c \<noteq> []"
    using ok by (auto simp: nal_ok_def unit_ok_def)
  let ?s = "length pre + length c" and ?e = "length pre + length c + length n"
  have code: "code_of (c @ n @ annexb us) = Some (length c)"
    by (rule code_of_unit [OF ok(1)])
  then have "find_annexb_start_code data (length pre) = Some (length pre, length c)"
    using ne by (simp add: find_annexb_start_code_eq find_code_loop_step data)
  moreover have "(case find_annexb_start_code data ?s of Some (i, _) \<Rightarrow> i | None \<Rightarrow> length data) = ?e"
  proof -
    have "nal_len (drop ?s data) = length n"
      using nal_len_ok(1) [OF ok(2) us] data by simp
    moreover have "us = [] \<or> code_of (annexb us) \<noteq> None"
      using us code_of_unit by (cases us) auto
    ultimately show ?thesis
      using find_code_loop_eq [of ?s data] data
      by (cases us) (auto simp: find_annexb_start_code_eq Let_def split: option.splits)
  qed
  moreover have "trim_nal_end data ?s ?e = ?e"
  proof (rule trim_nal_end_last)
    obtain m x where "n = m @ [x]"
      using ne(1) by (metis append_butlast_last_id)
    then show "data ! (?e - 1) \<noteq> 0"
      using nth_append_length [of "pre @ c @ m" x "annexb us"] ok(2) by (simp add: data nal_ok_def add.assoc)
  qed (use ne in simp)
  moreover have "slice_of ?s ?e data = n"
    by (simp add: slice_of_def data)
  ultimately have "split_loop data (length pre) acc = split_loop data ?e (acc @ [n])"
    using ne(1) by (subst split_loop.simps) (simp add: Let_def data)
  then show ?case
    using Cons.IH [OF us, of "pre @ c @ n" "acc @ [n]"] data u by (simp add: add.assoc)
qed

lemma split_annexb_eq: "\<forall>u \<in> set us. unit_ok u \<Longrightarrow> split_annexb_nal_units (annexb us) = map snd us"
  using split_loop_annexb [of us "annexb us" "[]" "[]"] by (simp add: split_annexb_nal_units_def)

text \<open>Length-prefixed units (AVCC).\<close>

definition avcc :: "bytes list \<Rightarrow> bytes" where
  "avcc ns = concat (map (\<lambda>n. be_bytes 4 (length n) @ n) ns)"

definition avcc_ok :: "bytes \<Rightarrow> bool" where
  "avcc_ok n \<longleftrightarrow> n \<noteq> [] \<and> length n < 2 ^ 32"

definition coded :: "bytes \<Rightarrow> bytes \<times> bytes" where
  "coded n = ([0, 0, 0, 1], n)"

lemma avcc_loop_avcc:
  assumes "\<forall>n \<in> set ns. avcc_ok n" and "data = pre @ avcc ns"
  shows "avcc_loop data (length pre) out cnt =
    Some (out @ annexb (filter (\<lambda>u. \<not> is_delimiter u) (map coded ns)), length data, cnt + length ns)"
  using assms
proof (induction ns arbitrary: pre out cnt)
  case Nil
  then show ?case by (simp add: avcc_loop.simps avcc_def)
next
  case (Cons n ns)
  have data: "data = pre @ be_bytes 4 (length n) @ n @ avcc ns"
    using Cons.prems by (simp add: avcc_def)
  have ok: "n \<noteq> []" "length n < 2 ^ 32"
    using Cons.prems by (auto simp: avcc_ok_def)
  have "slice_of (length pre) (length pre + 4) data = be_bytes 4 (length n)"
    by (simp add: slice_of_def data)
  then have len: "be_val (slice_of (length pre) (length pre + 4) data) = length n"
    using ok(2) by (simp add: be_val_be_bytes)
  have nal: "slice_of (length pre + 4) (length pre + 4 + length n) data = n"
    by (simp add: slice_of_def data)
  have first: "data ! (length pre + 4) = hd n"
    using nth_append [of "pre @ be_bytes 4 (length n)" "n @ avcc ns" "length pre + 4"] ok(1)
    by (simp add: data hd_conv_nth nth_append)
  let ?out = "out @ annexb (filter (\<lambda>u. \<not> is_delimiter u) [coded n])"
  have "avcc_loop data (length pre) out cnt = avcc_loop data (length pre + 4 + length n) ?out (cnt + 1)"
    using ok(1) len nal first
    by (subst avcc_loop.simps) (simp add: Let_def data is_delimiter_def coded_def nal_type_def)
  moreover have "data = (pre @ be_bytes 4 (length n) @ n) @ avcc ns"
    by (simp add: data)
  ultimately show ?case
    using Cons.IH [of "pre @ be_bytes 4 (length n) @ n" ?out "cnt + 1"] Cons.prems(1)
      annexb_simps(3) [of "[coded n]" "filter (\<lambda>u. \<not> is_delimiter u) (map coded ns)"]
    by (simp add: add.assoc del: annexb_simps(3))
qed

lemma avcc_to_annex_b_eq:
  assumes "\<forall>n \<in> set ns. avcc_ok n"
  shows "avcc_to_annex_b (avcc ns) =
    (let us = filter (\<lambda>u. \<not> is_delimiter u) (map coded ns) in
     if us = [] then None else Some (annexb us))"
proof -
  have "filter (\<lambda>u. \<not> is_delimiter u) (map coded ns) = [] \<longleftrightarrow>
      annexb (filter (\<lambda>u. \<not> is_delimiter u) (map coded ns)) = []"
    by (induction ns) (auto simp: coded_def)
  moreover have "ns = [] \<Longrightarrow> filter (\<lambda>u. \<not> is_delimiter u) (map coded ns) = []"
    by simp
  ultimately show ?thesis
    using avcc_loop_avcc [OF assms, of "avcc ns" "[]" "[]" 0]
    by (auto simp: avcc_to_annex_b_def Let_def)
qed

lemma mod_u8: "(of_nat (x mod 256) :: u8) = of_nat x"
  using of_nat_unat_u8 [of "of_nat x"] by (simp only: unat_of_nat_u8)

lemma be_bytes_4:
  "be_bytes 4 x = [of_nat (x div 16777216), of_nat (x div 65536), of_nat (x div 256), of_nat x]"
proof -
  have "le_bytes 4 x = le_bytes (Suc (Suc (Suc (Suc 0)))) x"
    by (simp only: numeral_eq_Suc pred_numeral_simps BitM.simps numeral_One One_nat_def)
  then show ?thesis
    by (simp add: be_bytes_def div_mult2_eq [symmetric] mod_u8)
qed

lemma is_annex_b_avcc:
  assumes "length n < 2 ^ 32"
  shows "is_annex_b (avcc (n # ns)) \<longleftrightarrow> length n = 1 \<or> 256 \<le> length n \<and> length n < 512"
proof -
  have octet: "(of_nat x :: u8) = of_nat y \<longleftrightarrow> x mod 256 = y mod 256" for x y
    by (metis mod_u8 unat_of_nat_u8)
  have zero: "(of_nat x :: u8) = 0 \<longleftrightarrow> x mod 256 = 0" and one: "(of_nat x :: u8) = 1 \<longleftrightarrow> x mod 256 = 1" for x
    using octet [of x 0] octet [of x 1] by simp_all
  have "take 3 (avcc (n # ns)) = take 3 (be_bytes 4 (length n))" and
    "take 4 (avcc (n # ns)) = be_bytes 4 (length n)"
    by (simp_all add: avcc_def)
  then have "is_annex_b (avcc (n # ns)) \<longleftrightarrow>
      length n div 16777216 mod 256 = 0 \<and> length n div 65536 mod 256 = 0 \<and>
      (length n div 256 mod 256 = 1 \<or> length n div 256 mod 256 = 0 \<and> length n mod 256 = 1)"
    by (auto simp: is_annex_b_def be_bytes_4 zero one)
  also have "\<dots> \<longleftrightarrow> length n = 1 \<or> 256 \<le> length n \<and> length n < 512"
  proof (cases "length n < 65536")
    case True
    then have "length n div 16777216 = 0" "length n div 65536 = 0" "length n div 256 mod 256 = length n div 256"
      by simp_all
    moreover have "length n div 256 = 1 \<longleftrightarrow> 256 \<le> length n \<and> length n < 512"
      "length n div 256 = 0 \<and> length n mod 256 = 1 \<longleftrightarrow> length n = 1"
      by auto
    ultimately show ?thesis by (simp, blast)
  next
    case False
    have "length n div 65536 mod 256 \<noteq> 0" if "length n div 16777216 mod 256 = 0"
    proof -
      have "length n div 16777216 < 256"
        using assms by simp
      with that have "length n < 16777216"
        by (simp add: div_eq_0_iff)
      then have "length n div 65536 mod 256 = length n div 65536"
        by simp
      then show ?thesis
        using False by (simp add: div_eq_0_iff)
    qed
    with False show ?thesis by auto
  qed
  finally show ?thesis .
qed

lemma normalize_annexb:
  assumes "\<forall>u \<in> set us. unit_ok u" and "us \<noteq> []"
  shows "normalize_for_webrtc (annexb us) = strip_aud_nal_units (annexb us)"
proof -
  obtain c n us' where "us = (c, n) # us'" "c = [0, 0, 1] \<or> c = [0, 0, 0, 1]"
    using assms by (cases us) (auto simp: unit_ok_def)
  then have "is_annex_b (annexb us)"
    by (auto simp: is_annex_b_def)
  then show ?thesis by (simp add: normalize_for_webrtc_def)
qed

lemma strip_aud_annexb:
  assumes "\<forall>u \<in> set us. unit_ok u" and "\<exists>u \<in> set us. \<not> is_delimiter u"
  shows "strip_aud_nal_units (annexb us) = annexb (filter (\<lambda>u. \<not> is_delimiter u) us)"
proof -
  obtain v vs where v: "filter (\<lambda>u. \<not> is_delimiter u) us = v # vs"
    using assms(2) by (metis empty_filter_conv list.exhaust)
  then have "unit_ok v"
    using assms(1) by (metis Cons_eq_filterD in_set_conv_decomp)
  then have "annexb (filter (\<lambda>u. \<not> is_delimiter u) us) \<noteq> []"
    using v by (cases v) (auto simp: unit_ok_def)
  then show ?thesis
    by (simp add: strip_aud_eq nal_units_annexb [OF assms(1)] Let_def)
qed

lemma coded_ok: "\<forall>n \<in> set ns. nal_ok n \<Longrightarrow> \<forall>u \<in> set (map coded ns). unit_ok u"
  by (auto simp: coded_def unit_ok_def)

section \<open>Properties\<close>

text \<open>The cheap test and the extraction agree on every octet string: \<open>has_sps_pps\<close> holds
  exactly when \<open>extract_sps_pps\<close> finds both parameter sets, although the two loops continue
  their scans at different positions.\<close>

theorem sps_pps_test_exact:
  "has_sps_pps data \<longleftrightarrow> fst (extract_sps_pps data) \<noteq> None \<and> snd (extract_sps_pps data) \<noteq> None"
  by (rule has_sps_pps_extract)

text \<open>On a well-formed Annex-B stream, with start codes of three or four octets, all
  scanners read the same units: the RTSP splitter returns the NAL units, the extraction the
  last parameter sets, the key-frame test looks for an IDR unit, and stripping removes
  exactly the delimiters and fillers.\<close>

theorem scanners_agree:
  assumes "\<forall>u \<in> set us. unit_ok u" and "\<exists>u \<in> set us. \<not> is_delimiter u"
  shows "split_annexb_nal_units (annexb us) = map snd us \<and>
    extract_sps_pps (annexb us) = (last_of_type 7 us None, last_of_type 8 us None) \<and>
    (is_keyframe (annexb us) \<longleftrightarrow> has_type 5 us) \<and>
    strip_aud_nal_units (annexb us) = annexb (filter (\<lambda>u. \<not> is_delimiter u) us) \<and>
    normalize_for_webrtc (annexb us) = strip_aud_nal_units (annexb us)"
proof -
  have "us \<noteq> []"
    using assms(2) by auto
  then show ?thesis
    using split_annexb_eq [OF assms(1)] strip_aud_annexb [OF assms] normalize_annexb [OF assms(1)]
      idr_in_annexb [OF assms(1)] nal_units_annexb [OF assms(1)]
    by (simp add: extract_sps_pps_eq is_keyframe_eq)
qed

theorem scanners_agree_witness:
  "split_annexb_nal_units (annexb [([0, 0, 0, 1], [9, 16]), ([0, 0, 1], [0x65, 0, 0, 3])]) = [[9, 16], [0x65, 0, 0, 3]] \<and>
   is_keyframe (annexb [([0, 0, 0, 1], [9, 16]), ([0, 0, 1], [0x65, 0, 0, 3])]) \<and>
   strip_aud_nal_units (annexb [([0, 0, 0, 1], [9, 16]), ([0, 0, 1], [0x65, 0, 0, 3])]) = [0, 0, 1, 0x65, 0, 0, 3]"
  using scanners_agree [of "[([0, 0, 0, 1], [9, 16]), ([0, 0, 1], [0x65, 0, 0, 3])]"]
  by (simp add: unit_ok_def nal_ok_def is_delimiter_def nal_type_def has_type_def)

text \<open>A frame of length-prefixed units is converted: normalising gives the units that are
  not delimiters behind four-octet start codes, provided the length of the first unit is
  neither one nor between 256 and 511.\<close>

theorem normalize_converts_avcc:
  assumes "\<forall>n \<in> set (m # ns). nal_ok n \<and> length n < 2 ^ 32"
    and "\<exists>n \<in> set (m # ns). \<not> is_delimiter (coded n)"
    and "length m \<noteq> 1" and "\<not> (256 \<le> length m \<and> length m < 512)"
  shows "normalize_for_webrtc (avcc (m # ns)) = annexb (filter (\<lambda>u. \<not> is_delimiter u) (map coded (m # ns)))"
proof -
  let ?us = "map coded (m # ns)" and ?vs = "filter (\<lambda>u. \<not> is_delimiter u) (map coded (m # ns))"
  have ok: "\<forall>n \<in> set (m # ns). avcc_ok n"
    using assms(1) by (auto simp: avcc_ok_def nal_ok_def)
  have "\<forall>u \<in> set ?us. unit_ok u"
    using assms(1) by (intro coded_ok) blast
  then have vs: "\<forall>u \<in> set ?vs. unit_ok u" "\<exists>u \<in> set ?vs. \<not> is_delimiter u" "?vs \<noteq> []"
    using assms(2) by (auto simp: filter_empty_conv)
  have "avcc_to_annex_b (avcc (m # ns)) = Some (annexb ?vs)"
    using avcc_to_annex_b_eq [OF ok] vs(3) by (simp only: Let_def if_False)
  moreover have "\<not> is_annex_b (avcc (m # ns))"
    using is_annex_b_avcc [of m ns] assms by simp
  ultimately show ?thesis
    using strip_aud_annexb [OF vs(1,2)] by (simp only: normalize_for_webrtc_def) simp
qed

theorem normalize_converts_avcc_witness:
  "normalize_for_webrtc (avcc [[9, 16], [0x41, 7]]) = [0, 0, 0, 1, 0x41, 7]"
  using normalize_converts_avcc [of "[9, 16]" "[[0x41, 7]]"]
  by (simp add: nal_ok_def is_delimiter_def coded_def nal_type_def)

text \<open>A length prefix between 256 and 511 looks like a three-octet start code: such a
  frame is a correct length-prefixed frame, but normalising leaves it unconverted, length
  prefix included.\<close>

theorem normalize_mistakes_avcc:
  assumes "nal_ok n" and "\<not> is_delimiter (coded n)" and "256 \<le> length n" and "length n < 512"
  shows "avcc_to_annex_b (avcc [n]) = Some ([0, 0, 0, 1] @ n) \<and> normalize_for_webrtc (avcc [n]) = avcc [n]"
proof -
  have "avcc_to_annex_b (avcc [n]) = Some ([0, 0, 0, 1] @ n)"
    using avcc_to_annex_b_eq [of "[n]"] assms by (simp add: avcc_ok_def nal_ok_def Let_def coded_def)
  moreover have "is_annex_b (avcc [n])"
    using is_annex_b_avcc [of n "[]"] assms by simp
  moreover have "strip_aud_nal_units (avcc [n]) = avcc [n]"
  proof -
    have "length n div 16777216 = 0" "length n div 65536 = 0" "length n div 256 = 1"
      using assms by auto
    then have prefix: "avcc [n] = [0, 0, 1] @ of_nat (length n) # n"
      by (simp add: avcc_def be_bytes_4)
    have "nal_units (avcc [n]) = [([0, 0, 1], of_nat (length n) # n)]"
      using assms(1) unfolding prefix by (subst nal_units.simps) (auto simp: nal_ok_def)
    then show ?thesis
      by (simp add: strip_aud_eq prefix Let_def)
  qed
  ultimately show ?thesis
    by (simp add: normalize_for_webrtc_def)
qed

lemma nal_len_ones: "nal_len (replicate k 1) = k"
proof (induction k)
  case (Suc k)
  have "code_of (1 # xs) = None" for xs :: bytes
    by (cases "1 # xs" rule: code_of.cases) auto
  with Suc show ?case by simp
qed simp

theorem normalize_mistakes_avcc_witness:
  "avcc_to_annex_b (avcc [replicate 300 1]) = Some ([0, 0, 0, 1] @ replicate 300 1) \<and>
   normalize_for_webrtc (avcc [replicate 300 1]) = avcc [replicate 300 1]"
  by (rule normalize_mistakes_avcc)
     (simp_all add: nal_ok_def nal_len_ones is_delimiter_def coded_def nal_type_def)

end
