(* ===== verification/H265Payloader.thy ===== *)
theory H265Payloader
  imports AnnexB "HOL-Library.Monad_Syntax"
begin

text \<open>
  The RTP payloader for H.265 (\<open>src/webrtc/h265_payloader.rs\<close>).  The two \<open>while\<close> loops of
  the source are \<open>partial_function\<close>s into \<open>option\<close>, so that a loop that never ends is the
  value \<open>None\<close>; that they always end is proved.  The subtraction in \<open>emit_fragmented\<close>
  wraps at 64 bits, as in the release build.  The receiver side is the depacketisation of
  RFC 7798, against which the output is judged.
\<close>

unbundle bit_operations_syntax

section \<open>The payloader\<close>

definition H265_NAL_VPS :: u8 where "H265_NAL_VPS = 32"

definition H265_NAL_SPS :: u8 where "H265_NAL_SPS = 33"

definition H265_NAL_PPS :: u8 where "H265_NAL_PPS = 34"

definition H265_NAL_AUD :: u8 where "H265_NAL_AUD = 35"

definition H265_NAL_FILLER :: u8 where "H265_NAL_FILLER = 38"

definition H265_NAL_FU :: u8 where "H265_NAL_FU = 49"

definition H265_NAL_HEADER_SIZE :: nat where "H265_NAL_HEADER_SIZE = 2"

definition H265_FU_HEADER_SIZE :: nat where "H265_FU_HEADER_SIZE = 1"

definition AP_PAYLOAD_HDR :: bytes where "AP_PAYLOAD_HDR = [0x60, 0x01]"

lemmas h265_consts = H265_NAL_VPS_def H265_NAL_SPS_def H265_NAL_PPS_def H265_NAL_AUD_def H265_NAL_FILLER_def
  H265_NAL_FU_def H265_NAL_HEADER_SIZE_def H265_FU_HEADER_SIZE_def AP_PAYLOAD_HDR_def

record H265Payloader =
  vps_nalu :: "bytes option"
  sps_nalu :: "bytes option"
  pps_nalu :: "bytes option"

definition H265Payloader_new :: H265Payloader where
  "H265Payloader_new = \<lparr>vps_nalu = None, sps_nalu = None, pps_nalu = None\<rparr>"

text \<open>The \<open>for\<close> loop over \<open>nalu[start..]\<close> with the index and the number of zeros seen.\<close>

fun next_ind_loop :: "nat \<Rightarrow> bytes \<Rightarrow> nat \<Rightarrow> nat \<Rightarrow> int \<times> int" where
  "next_ind_loop start [] i zero_count = (-1, -1)"
| "next_ind_loop start (b # bs) i zero_count =
     (if b = 0 then next_ind_loop start bs (i + 1) (zero_count + 1)
      else if b = 1 \<and> zero_count \<ge> 2 then (int (start + i - zero_count), int zero_count + 1)
      else next_ind_loop start bs (i + 1) 0)"

definition next_ind :: "bytes \<Rightarrow> nat \<Rightarrow> int \<times> int" where
  "next_ind nalu start = next_ind_loop start (drop start nalu) 0 0"

definition get_nal_type :: "bytes \<Rightarrow> u8" where
  "get_nal_type nalu = (if length nalu < 2 then 0 else drop_bit 1 (nalu ! 0) AND 0x3F)"

text \<open>\<open>put_u16\<close>: the low sixteen bits, big-endian.\<close>

definition put_u16 :: "nat \<Rightarrow> bytes" where
  "put_u16 n = be_bytes 2 (unat (of_nat n :: u16))"

definition try_emit_aggregation_packet ::
  "nat \<Rightarrow> bytes list \<Rightarrow> H265Payloader \<Rightarrow> bytes list \<times> H265Payloader" where
  "try_emit_aggregation_packet mtu payloads self =
     (case (vps_nalu self, sps_nalu self, pps_nalu self) of
        (Some vps, Some sps, Some pps) \<Rightarrow>
          let ap_size = H265_NAL_HEADER_SIZE + 2 + length vps + 2 + length sps + 2 + length pps;
              cleared = self\<lparr>vps_nalu := None, sps_nalu := None, pps_nalu := None\<rparr>
          in if ap_size > mtu then (payloads @ [vps, sps, pps], cleared)
             else
               let ap = AP_PAYLOAD_HDR @ put_u16 (length vps) @ vps @ put_u16 (length sps) @ sps
                        @ put_u16 (length pps) @ pps
               in (payloads @ [ap], cleared)
      | _ \<Rightarrow> (payloads, self))"

definition sub_usize :: "nat \<Rightarrow> nat \<Rightarrow> nat" where
  "sub_usize a b = (a + 2 ^ 64 - b) mod 2 ^ 64"

definition fu_packet :: "bytes \<Rightarrow> u8 \<Rightarrow> nat \<Rightarrow> nat \<Rightarrow> bytes" where
  "fu_packet nalu fu_type offset fragment_size =
     (let nalu_payload = drop H265_NAL_HEADER_SIZE nalu;
          full_nalu_size = length nalu_payload;
          byte0 = (nalu ! 0 AND 0x81) OR push_bit 1 H265_NAL_FU;
          byte1 = nalu ! 1;
          fu_header = fu_type;
          fu_header = (if offset = 0 then fu_header OR 0x80 else fu_header);
          fu_header = (if offset + fragment_size \<ge> full_nalu_size then fu_header OR 0x40 else fu_header)
      in [byte0, byte1, fu_header] @ slice_of offset (offset + fragment_size) nalu_payload)"

partial_function (option) fragment_loop ::
  "bytes \<Rightarrow> u8 \<Rightarrow> nat \<Rightarrow> nat \<Rightarrow> bytes list \<Rightarrow> bytes list option" where
  "fragment_loop nalu fu_type max_fragment_size offset payloads =
     (let full_nalu_size = length nalu - H265_NAL_HEADER_SIZE in
      if offset < full_nalu_size then
        let remaining = full_nalu_size - offset;
            fragment_size = min remaining max_fragment_size
        in fragment_loop nalu fu_type max_fragment_size (offset + fragment_size)
             (payloads @ [fu_packet nalu fu_type offset fragment_size])
      else Some payloads)"

definition emit_fragmented :: "bytes \<Rightarrow> nat \<Rightarrow> bytes list \<Rightarrow> bytes list option" where
  "emit_fragmented nalu mtu payloads =
     (if length nalu < H265_NAL_HEADER_SIZE then Some payloads
      else
        let nal_type = get_nal_type nalu;
            max_fragment_size = sub_usize (sub_usize mtu H265_NAL_HEADER_SIZE) H265_FU_HEADER_SIZE
        in if max_fragment_size = 0 then Some payloads
           else if length (drop H265_NAL_HEADER_SIZE nalu) = 0 then Some payloads
           else fragment_loop nalu nal_type max_fragment_size 0 payloads)"

definition emit ::
  "bytes \<Rightarrow> nat \<Rightarrow> bytes list \<Rightarrow> H265Payloader \<Rightarrow> (bytes list \<times> H265Payloader) option" where
  "emit nalu mtu payloads self =
     (if length nalu < H265_NAL_HEADER_SIZE then Some (payloads, self)
      else
        let nal_type = get_nal_type nalu in
        if nal_type = H265_NAL_AUD \<or> nal_type = H265_NAL_FILLER then Some (payloads, self)
        else if nal_type = H265_NAL_VPS then Some (payloads, self\<lparr>vps_nalu := Some nalu\<rparr>)
        else if nal_type = H265_NAL_SPS then Some (payloads, self\<lparr>sps_nalu := Some nalu\<rparr>)
        else if nal_type = H265_NAL_PPS then Some (payloads, self\<lparr>pps_nalu := Some nalu\<rparr>)
        else
          case try_emit_aggregation_packet mtu payloads self of (payloads, self) \<Rightarrow>
            if length nalu \<le> mtu then Some (payloads @ [nalu], self)
            else map_option (\<lambda>payloads. (payloads, self)) (emit_fragmented nalu mtu payloads))"

partial_function (option) payload_loop ::
  "nat \<Rightarrow> bytes \<Rightarrow> int \<Rightarrow> int \<Rightarrow> bytes list \<Rightarrow> H265Payloader \<Rightarrow> (bytes list \<times> H265Payloader) option" where
  "payload_loop mtu payload ind_start ind_len payloads self =
     (if ind_start \<noteq> -1 then
        let prev_start = nat (ind_start + ind_len);
            ind2 = next_ind payload prev_start;
            unit = (if fst ind2 \<noteq> -1 then slice_of prev_start (nat (fst ind2)) payload
                    else drop prev_start payload)
        in Option.bind (emit unit mtu payloads self)
             (\<lambda>r. payload_loop mtu payload (fst ind2) (snd ind2) (fst r) (snd r))
      else Some (payloads, self))"

definition payload :: "nat \<Rightarrow> bytes \<Rightarrow> H265Payloader \<Rightarrow> (bytes list \<times> H265Payloader) option" where
  "payload mtu data self =
     (if data = [] \<or> mtu = 0 then Some ([], self)
      else
        let ind = next_ind data 0 in
        if fst ind = -1 then emit data mtu [] self
        else payload_loop mtu data (fst ind) (snd ind) [] self)"


section \<open>The loops end\<close>

text \<open>The packets of one fragmented unit.\<close>

function fragments :: "bytes \<Rightarrow> u8 \<Rightarrow> nat \<Rightarrow> nat \<Rightarrow> bytes list" where
  "fragments nalu t k off =
     (if off < length nalu - 2 \<and> 0 < k
      then fu_packet nalu t off (min (length nalu - 2 - off) k)
           # fragments nalu t k (off + min (length nalu - 2 - off) k)
      else [])"
  by pat_completeness auto
termination
  by (relation "measure (\<lambda>(nalu, t, k, off). length nalu - off)") auto

declare fragments.simps [simp del]

lemma fragment_loop_eq:
  "0 < k \<Longrightarrow> fragment_loop nalu t k off ps = Some (ps @ fragments nalu t k off)"
proof (induction nalu t k off arbitrary: ps rule: fragments.induct)
  case (1 nalu t k off)
  show ?case
    using 1 by (subst fragment_loop.simps, subst fragments.simps) (simp add: Let_def h265_consts)
qed

lemma emit_fragmented_eq:
  "emit_fragmented nalu mtu ps =
     (let k = sub_usize (sub_usize mtu 2) 1 in
      Some (if length nalu \<le> 2 then ps else ps @ fragments nalu (get_nal_type nalu) k 0))"
proof (cases "sub_usize (sub_usize mtu 2) 1 = 0")
  case True
  then show ?thesis
    by (simp add: emit_fragmented_def h265_consts Let_def fragments.simps)
next
  case False
  then show ?thesis
    by (auto simp: emit_fragmented_def h265_consts Let_def fragment_loop_eq)
qed

lemma emit_total: "\<exists>r. emit nalu mtu ps self = Some r"
  by (auto simp: emit_def emit_fragmented_eq Let_def split: prod.splits)

lemma next_ind_loop_bounds:
  assumes "next_ind_loop start bs i z = (p, l)" and "p \<noteq> -1" and "z \<le> i"
  shows "int (start + i - z) \<le> p \<and> int (start + i) < p + l \<and> p + l \<le> int (start + i + length bs) \<and> 3 \<le> l"
  using assms
proof (induction bs arbitrary: i z)
  case (Cons b bs)
  then show ?case
    by (fastforce split: if_splits)
qed simp

lemma next_ind_bounds:
  assumes "next_ind data start = (p, l)" and "p \<noteq> -1" and "start \<le> length data"
  shows "int start \<le> p \<and> int start < p + l \<and> p + l \<le> int (length data)"
  using next_ind_loop_bounds [of start "drop start data" 0 0 p l] assms by (simp add: next_ind_def)

lemma payload_loop_step:
  assumes "p \<noteq> -1" and "next_ind data (nat (p + l)) = (p2, l2)"
  shows "payload_loop mtu data p l ps self =
    Option.bind (emit (if p2 \<noteq> -1 then slice_of (nat (p + l)) (nat p2) data else drop (nat (p + l)) data) mtu ps self)
      (\<lambda>r. payload_loop mtu data p2 l2 (fst r) (snd r))"
  by (subst payload_loop.simps) (simp only: assms Let_def fst_conv snd_conv not_False_eq_True if_True)

lemma payload_loop_stop: "payload_loop mtu data (-1) l ps self = Some (ps, self)"
  by (subst payload_loop.simps) simp

lemma payload_loop_total:
  assumes "p \<noteq> -1 \<Longrightarrow> 0 \<le> p + l \<and> p + l \<le> int (length data)"
  shows "\<exists>r. payload_loop mtu data p l ps self = Some r"
  using assms
proof (induction "length data - nat (p + l)" arbitrary: p l ps self rule: less_induct)
  case less
  show ?case
  proof (cases "p = -1")
    case True
    then show ?thesis by (simp add: payload_loop_stop)
  next
    case False
    let ?s = "nat (p + l)"
    obtain p2 l2 where n: "next_ind data ?s = (p2, l2)" by fastforce
    let ?u = "if p2 \<noteq> -1 then slice_of ?s (nat p2) data else drop ?s data"
    obtain r where e: "emit ?u mtu ps self = Some r"
      using emit_total by blast
    have "\<exists>q. payload_loop mtu data p2 l2 (fst r) (snd r) = Some q"
    proof (cases "p2 = -1")
      case True
      then show ?thesis by (simp add: payload_loop_stop)
    next
      case p2: False
      have "int ?s < p2 + l2 \<and> p2 + l2 \<le> int (length data)"
        using next_ind_bounds [OF n p2] less.prems False by (simp add: nat_le_iff)
      then show ?thesis
        using less.prems False by (intro less.hyps) auto
    qed
    then show ?thesis
      using payload_loop_step [OF False n] e by simp
  qed
qed

lemma payload_total: "\<exists>r. payload mtu data self = Some r"
proof -
  obtain p l where n: "next_ind data 0 = (p, l)" by fastforce
  have "\<exists>r. payload_loop mtu data p l [] self = Some r"
    using next_ind_bounds [OF n] by (intro payload_loop_total) auto
  then show ?thesis
    using n emit_total by (simp add: payload_def Let_def)
qed


section \<open>The receiver\<close>

text \<open>
  RFC 7798: an aggregation packet (type 48) holds units behind their 16-bit lengths; the
  fragments of a unit (type 49) are joined from the start bit to the end bit, the type
  taken from the fragment header; every other packet is a unit.
\<close>

function ap_units :: "bytes \<Rightarrow> bytes list" where
  "ap_units xs =
     (if length xs < 2 then []
      else take (be_val (take 2 xs)) (drop 2 xs) # ap_units (drop (2 + be_val (take 2 xs)) xs))"
  by pat_completeness auto
termination
  by (relation "measure length") auto

declare ap_units.simps [simp del]

definition fu_restore :: "bytes \<Rightarrow> bytes" where
  "fu_restore p = [(p ! 0 AND 0x81) OR push_bit 1 (p ! 2 AND 0x3F), p ! 1]"

fun receive :: "bytes \<Rightarrow> bytes list \<Rightarrow> bytes list" where
  "receive acc [] = []"
| "receive acc (p # ps) =
     (if get_nal_type p = 48 then ap_units (drop 2 p) @ receive [] ps
      else if get_nal_type p = 49 then
        (let a = (if bit (p ! 2) 7 then fu_restore p else acc) @ drop 3 p in
         if bit (p ! 2) 6 then a # receive [] ps else receive a ps)
      else p # receive [] ps)"

definition carries :: "bytes list \<Rightarrow> bytes list \<Rightarrow> bool" where
  "carries ps us \<longleftrightarrow> (\<forall>qs. receive [] (ps @ qs) = us @ receive [] qs)"

lemma carries_simps:
  "carries [] []"
  "carries ps us \<Longrightarrow> carries qs vs \<Longrightarrow> carries (ps @ qs) (us @ vs)"
  "get_nal_type n \<noteq> 48 \<Longrightarrow> get_nal_type n \<noteq> 49 \<Longrightarrow> carries [n] [n]"
  by (simp_all add: carries_def)

lemma carries_receive: "carries ps us \<Longrightarrow> receive [] ps = us"
  using carries_def [of ps us] by (metis append_Nil2 receive.simps(1))

lemma put_u16_val: "n < 65536 \<Longrightarrow> be_val (put_u16 n) = n" "length (put_u16 n) = 2"
  by (simp_all add: put_u16_def be_val_be_bytes unat_of_nat)

lemma ap_units_Cons:
  "length n < 65536 \<Longrightarrow> ap_units (put_u16 (length n) @ n @ r) = n # ap_units r"
  by (subst ap_units.simps) (simp add: put_u16_val)

lemma carries_ap:
  assumes "length v < 65536" and "length s < 65536" and "length p < 65536"
  shows "carries [AP_PAYLOAD_HDR @ put_u16 (length v) @ v @ put_u16 (length s) @ s @ put_u16 (length p) @ p] [v, s, p]"
proof -
  have "ap_units (put_u16 (length v) @ v @ put_u16 (length s) @ s @ put_u16 (length p) @ p) = [v, s, p]"
    using ap_units_Cons [OF assms(1)] ap_units_Cons [OF assms(2)] ap_units_Cons [OF assms(3), of "[]"]
    by (simp add: ap_units.simps [of "[]"])
  moreover have "drop_bit 1 (0x60 :: u8) AND 0x3F = 48"
    by code_simp
  ultimately show ?thesis
    by (simp add: carries_def AP_PAYLOAD_HDR_def get_nal_type_def)
qed

text \<open>The octets of a fragment header.\<close>

lemma fu_byte0: "drop_bit 1 (((x :: u8) AND 0x81) OR push_bit 1 49) AND 0x3F = 49"
  unfolding u8_eq_iff bit_and_iff bit_or_iff bit_push_bit_iff bit_drop_bit_eq by simp

lemma fu_restore_byte0:
  "((((x :: u8) AND 0x81) OR push_bit 1 49) AND 0x81) OR push_bit 1 (drop_bit 1 x AND 0x3F) = x"
  unfolding u8_eq_iff bit_and_iff bit_or_iff bit_push_bit_iff bit_drop_bit_eq
  by (auto simp: bit_0 numeral_eq_Suc)

lemma get_nal_type_bits: "\<not> bit (get_nal_type n) 7" "\<not> bit (get_nal_type n) 6"
  by (simp_all add: get_nal_type_def bit_and_iff)

lemma fu_header_type:
  "(get_nal_type n OR 0x80) AND 0x3F = get_nal_type n"
  "(get_nal_type n OR 0x40) AND 0x3F = get_nal_type n"
  "((get_nal_type n OR 0x80) OR 0x40) AND 0x3F = get_nal_type n"
  "get_nal_type n AND 0x3F = get_nal_type n"
  using get_nal_type_bits [of n]
  unfolding u8_eq_iff bit_and_iff bit_or_iff by (simp_all add: bit_0)

lemma fu_packet_parts:
  fixes off sz :: nat
  assumes "2 < length nalu"
  defines "q \<equiv> fu_packet nalu (get_nal_type nalu) off sz"
  shows "get_nal_type q = 49" and "fu_restore q = take 2 nalu"
    and "bit (q ! 2) 7 \<longleftrightarrow> off = 0" and "bit (q ! 2) 6 \<longleftrightarrow> length nalu - 2 \<le> off + sz"
    and "drop 3 q = slice_of off (off + sz) (drop 2 nalu)"
proof -
  define h where "h = q ! 2"
  have q: "q = [(nalu ! 0 AND 0x81) OR push_bit 1 49, nalu ! 1, h] @ slice_of off (off + sz) (drop 2 nalu)"
    by (simp add: h_def q_def fu_packet_def h265_consts Let_def)
  have h: "h = (let t = (if off = 0 then get_nal_type nalu OR 0x80 else get_nal_type nalu)
                in if off + sz \<ge> length nalu - 2 then t OR 0x40 else t)"
    by (simp add: h_def q_def fu_packet_def h265_consts Let_def)
  then have "h AND 0x3F = get_nal_type nalu"
    using fu_header_type [of nalu] by (simp add: Let_def)
  then have "((q ! 0 AND 0x81) OR push_bit 1 (q ! 2 AND 0x3F)) = nalu ! 0"
    using fu_restore_byte0 [of "nalu ! 0"] assms(1) by (simp add: q get_nal_type_def)
  moreover have "take 2 nalu = [nalu ! 0, nalu ! 1]"
    using assms(1) by (cases nalu; cases "tl nalu") auto
  ultimately show "fu_restore q = take 2 nalu"
    by (simp add: fu_restore_def q)
  show "get_nal_type q = 49"
    using fu_byte0 [of "nalu ! 0"] by (simp add: get_nal_type_def q)
  show "drop 3 q = slice_of off (off + sz) (drop 2 nalu)"
    by (simp add: q)
  show "bit (q ! 2) 7 \<longleftrightarrow> off = 0" "bit (q ! 2) 6 \<longleftrightarrow> length nalu - 2 \<le> off + sz"
    using get_nal_type_bits [of nalu] unfolding h_def [symmetric] h by (simp_all add: Let_def bit_or_iff)
qed

lemma receive_fragments:
  assumes "2 < length nalu" and "0 < k" and "off < length nalu - 2"
  shows "receive a (fragments nalu (get_nal_type nalu) k off @ qs) =
    ((if off = 0 then take 2 nalu else a) @ drop (2 + off) nalu) # receive [] qs"
  using assms
proof (induction nalu "get_nal_type nalu" k off arbitrary: a rule: fragments.induct)
  case (1 nalu k off)
  define t sz q where "t = get_nal_type nalu" and "sz = min (length nalu - 2 - off) k"
    and "q = fu_packet nalu t off sz"
  define a' where "a' = (if off = 0 then take 2 nalu else a) @ slice_of off (off + sz) (drop 2 nalu)"
  have q: "get_nal_type q = 49" "fu_restore q = take 2 nalu" "bit (q ! 2) 7 \<longleftrightarrow> off = 0"
    "bit (q ! 2) 6 \<longleftrightarrow> length nalu - 2 \<le> off + sz" "drop 3 q = slice_of off (off + sz) (drop 2 nalu)"
    unfolding q_def t_def by (rule fu_packet_parts [OF "1.prems"(1)])+
  have "fragments nalu t k off = q # fragments nalu t k (off + sz)"
    using "1.prems" by (subst fragments.simps) (simp add: q_def sz_def)
  then have step: "receive a (fragments nalu t k off @ qs) =
      (if length nalu - 2 \<le> off + sz then a' # receive [] (fragments nalu t k (off + sz) @ qs)
       else receive a' (fragments nalu t k (off + sz) @ qs))"
    by (simp add: Let_def a'_def q)
  show ?case
  proof (cases "length nalu - 2 \<le> off + sz")
    case True
    then have "slice_of off (off + sz) (drop 2 nalu) = drop (2 + off) nalu"
      by (simp add: slice_of_def add.commute)
    moreover have "fragments nalu t k (off + sz) = []"
      using True by (subst fragments.simps) simp
    ultimately show ?thesis
      using step True by (simp add: t_def a'_def)
  next
    case False
    have "slice_of off (off + sz) (drop 2 nalu) @ drop (2 + (off + sz)) nalu = drop (2 + off) nalu"
      using append_take_drop_id [of sz "drop (2 + off) nalu"] by (simp add: slice_of_def add.commute add.left_commute)
    moreover have "receive a' (fragments nalu t k (off + sz) @ qs) = (a' @ drop (2 + (off + sz)) nalu) # receive [] qs"
      using "1.hyps" [of a'] "1.prems" False by (simp add: t_def sz_def)
    ultimately show ?thesis
      using step False by (simp add: t_def a'_def)
  qed
qed

lemma carries_fragments:
  assumes "2 < length nalu" and "0 < k"
  shows "carries (fragments nalu (get_nal_type nalu) k 0) [nalu]"
  using receive_fragments [OF assms, of 0 "[]"] assms(1) append_take_drop_id [of 2 nalu]
  by (simp add: carries_def)


section \<open>What is delivered\<close>

text \<open>The units in the order the payloader sends them: delimiters, fillers and stubs are
  dropped, parameter sets are held back until the next other unit and sent before it once
  all three are there.\<close>

fun deliver :: "H265Payloader \<Rightarrow> bytes list \<Rightarrow> bytes list" where
  "deliver s [] = []"
| "deliver s (n # ns) =
     (if length n < 2 \<or> get_nal_type n = 35 \<or> get_nal_type n = 38 then deliver s ns
      else if get_nal_type n = 32 then deliver (s\<lparr>vps_nalu := Some n\<rparr>) ns
      else if get_nal_type n = 33 then deliver (s\<lparr>sps_nalu := Some n\<rparr>) ns
      else if get_nal_type n = 34 then deliver (s\<lparr>pps_nalu := Some n\<rparr>) ns
      else case (vps_nalu s, sps_nalu s, pps_nalu s) of
        (Some v, Some p, Some q) \<Rightarrow>
          [v, p, q, n] @ deliver (s\<lparr>vps_nalu := None, sps_nalu := None, pps_nalu := None\<rparr>) ns
      | _ \<Rightarrow> n # deliver s ns)"

definition cached :: "H265Payloader \<Rightarrow> bytes set" where
  "cached s = set_option (vps_nalu s) \<union> set_option (sps_nalu s) \<union> set_option (pps_nalu s)"

definition is_parameter_set :: "bytes \<Rightarrow> bool" where
  "is_parameter_set n \<longleftrightarrow> get_nal_type n \<in> {32, 33, 34}"

definition sendable :: "bytes \<Rightarrow> bool" where
  "sendable n \<longleftrightarrow> get_nal_type n \<noteq> 48 \<and> get_nal_type n \<noteq> 49"

lemma aggregation:
  assumes "try_emit_aggregation_packet mtu ps s = (ps', s')" and "mtu < 65536"
    and "\<forall>n \<in> cached s. is_parameter_set n"
  obtains g us where "ps' = ps @ g" "carries g us" "\<forall>p \<in> set g. length p \<le> mtu \<or> p \<in> cached s"
    "cached s' \<subseteq> cached s"
    "\<And>n ns. (case (vps_nalu s, sps_nalu s, pps_nalu s) of
        (Some v, Some p, Some q) \<Rightarrow> [v, p, q, n] @ deliver (s\<lparr>vps_nalu := None, sps_nalu := None, pps_nalu := None\<rparr>) ns
      | _ \<Rightarrow> n # deliver s ns) = us @ n # deliver s' ns"
proof (cases "\<exists>v p q. vps_nalu s = Some v \<and> sps_nalu s = Some p \<and> pps_nalu s = Some q")
  case False
  then have "ps' = ps \<and> s' = s"
    using assms(1) by (auto simp: try_emit_aggregation_packet_def split: option.splits)
  moreover have "(case (vps_nalu s, sps_nalu s, pps_nalu s) of
        (Some v, Some p, Some q) \<Rightarrow> [v, p, q, n] @ deliver (s\<lparr>vps_nalu := None, sps_nalu := None, pps_nalu := None\<rparr>) ns
      | _ \<Rightarrow> n # deliver s ns) = n # deliver s ns" for n ns
    using False by (auto split: option.splits)
  ultimately show ?thesis
    by (intro that [of "[]" "[]"]) (auto simp: carries_simps)
next
  case True
  then obtain v p q where c: "vps_nalu s = Some v" "sps_nalu s = Some p" "pps_nalu s = Some q"
    by blast
  let ?s = "s\<lparr>vps_nalu := None, sps_nalu := None, pps_nalu := None\<rparr>"
  have types: "carries [v] [v]" "carries [p] [p]" "carries [q] [q]"
    using assms(3) c by (auto simp: cached_def is_parameter_set_def intro!: carries_simps(3))
  show ?thesis
  proof (cases "2 + 2 + length v + 2 + length p + 2 + length q > mtu")
    case True
    have "carries ([v] @ [p] @ [q]) ([v] @ [p] @ [q])"
      by (intro carries_simps(2) types)
    then show ?thesis
      using assms(1) c True
      by (intro that [of "[v, p, q]" "[v, p, q]"])
         (auto simp: try_emit_aggregation_packet_def h265_consts Let_def cached_def)
  next
    case False
    let ?ap = "AP_PAYLOAD_HDR @ put_u16 (length v) @ v @ put_u16 (length p) @ p @ put_u16 (length q) @ q"
    have "carries [?ap] [v, p, q]"
      using False assms(2) by (intro carries_ap) auto
    moreover have "length ?ap \<le> mtu"
      using False by (simp add: AP_PAYLOAD_HDR_def put_u16_val)
    ultimately show ?thesis
      using assms(1) c False
      by (intro that [of "[?ap]" "[v, p, q]"])
         (auto simp: try_emit_aggregation_packet_def h265_consts Let_def cached_def)
  qed
qed

lemma fragments_length: "p \<in> set (fragments nalu t k off) \<Longrightarrow> length p \<le> 3 + k"
proof (induction nalu t k off rule: fragments.induct)
  case (1 nalu t k off)
  show ?case
    using "1.prems" "1.IH"
    by (subst (asm) fragments.simps) (auto simp: fu_packet_def Let_def split: if_splits)
qed

lemma sub_usize_eq: "b \<le> a \<Longrightarrow> a < 2 ^ 64 \<Longrightarrow> sub_usize a b = a - b"
proof -
  assume "b \<le> a" "a < 2 ^ 64"
  then have "a + 2 ^ 64 - b = (a - b) + 2 ^ 64" and "a - b < 2 ^ 64"
    by simp_all
  then show ?thesis
    by (simp only: sub_usize_def mod_add_self2 mod_less)
qed

lemma sub_usize_mtu: "3 \<le> mtu \<Longrightarrow> mtu < 65536 \<Longrightarrow> sub_usize (sub_usize mtu 2) (Suc 0) = mtu - 3"
  by (simp add: sub_usize_eq)

lemma emit_delivers:
  assumes "emit n mtu ps s = Some (ps', s')" and "4 \<le> mtu" and "mtu < 65536"
    and "\<forall>m \<in> cached s. is_parameter_set m" and "sendable n"
  obtains g us where "ps' = ps @ g" "carries g us" "\<And>ns. deliver s (n # ns) = us @ deliver s' ns"
    "\<forall>p \<in> set g. length p \<le> mtu \<or> p \<in> cached s" "\<forall>m \<in> cached s'. m \<in> cached s \<or> m = n \<and> is_parameter_set n"
proof (cases "length n < 2 \<or> get_nal_type n \<in> {35, 38, 32, 33, 34}")
  case True
  then show ?thesis
    using assms(1)
    by (intro that [of "[]" "[]"])
       (auto simp: emit_def h265_consts Let_def carries_simps cached_def is_parameter_set_def split: if_splits)
next
  case False
  obtain ps1 s1 where t: "try_emit_aggregation_packet mtu ps s = (ps1, s1)"
    by fastforce
  obtain g us where g: "ps1 = ps @ g" "carries g us" "\<forall>p \<in> set g. length p \<le> mtu \<or> p \<in> cached s"
      "cached s1 \<subseteq> cached s" and c: "\<And>n ns. (case (vps_nalu s, sps_nalu s, pps_nalu s) of
        (Some v, Some p, Some q) \<Rightarrow> [v, p, q, n] @ deliver (s\<lparr>vps_nalu := None, sps_nalu := None, pps_nalu := None\<rparr>) ns
      | _ \<Rightarrow> n # deliver s ns) = us @ n # deliver s1 ns"
    using aggregation [OF t assms(3,4)] by blast
  have d: "deliver s (n # ns) = us @ n # deliver s1 ns" for ns
    using False c [of n ns] by (simp only: deliver.simps insert_iff empty_iff) simp
  let ?h = "if length n \<le> mtu then [n] else fragments n (get_nal_type n) (mtu - 3) 0"
  have "carries ?h [n]"
    using carries_simps(3) [of n] carries_fragments [of n "mtu - 3"] assms(2,5) by (auto simp: sendable_def)
  moreover have "\<forall>p \<in> set ?h. length p \<le> mtu"
    using fragments_length [of _ n "get_nal_type n" "mtu - 3" 0] assms(2) by simp
  moreover have "ps' = ps @ g @ ?h" "s' = s1"
    using assms(1-3) False t g(1)
    by (auto simp: emit_def h265_consts Let_def emit_fragmented_eq sub_usize_mtu split: if_splits)
  moreover have "deliver s (n # ns) = (us @ [n]) @ deliver s' ns" for ns
    using d [of ns] \<open>s' = s1\<close> by (simp del: deliver.simps)
  ultimately show ?thesis
    using g carries_simps(2) [of g us ?h "[n]"]
    by (intro that [of "g @ ?h" "us @ [n]"]) (auto simp del: deliver.simps split del: if_split)
qed

fun emit_all :: "nat \<Rightarrow> bytes list \<Rightarrow> bytes list \<Rightarrow> H265Payloader \<Rightarrow> (bytes list \<times> H265Payloader) option" where
  "emit_all mtu [] ps s = Some (ps, s)"
| "emit_all mtu (n # ns) ps s = Option.bind (emit n mtu ps s) (\<lambda>r. emit_all mtu ns (fst r) (snd r))"

lemma emit_all_delivers:
  assumes "emit_all mtu ns ps s = Some (ps', s')" and "4 \<le> mtu" and "mtu < 65536"
    and "\<forall>m \<in> cached s. is_parameter_set m" and "\<forall>n \<in> set ns. sendable n"
  shows "\<exists>g. ps' = ps @ g \<and> carries g (deliver s ns) \<and>
    (\<forall>p \<in> set g. length p \<le> mtu \<or> is_parameter_set p \<and> p \<in> cached s \<union> set ns) \<and>
    (\<forall>m \<in> cached s'. is_parameter_set m)"
  using assms
proof (induction ns arbitrary: ps s)
  case Nil
  then show ?case by (auto simp: carries_simps)
next
  case (Cons n ns)
  then obtain ps1 s1 where e: "emit n mtu ps s = Some (ps1, s1)" "emit_all mtu ns ps1 s1 = Some (ps', s')"
    by (auto simp: bind_eq_Some_conv)
  have "sendable n"
    using Cons.prems by simp
  then obtain g us where g: "ps1 = ps @ g" "carries g us" "\<And>ns. deliver s (n # ns) = us @ deliver s1 ns"
      "\<forall>p \<in> set g. length p \<le> mtu \<or> p \<in> cached s" "\<forall>m \<in> cached s1. m \<in> cached s \<or> m = n \<and> is_parameter_set n"
    using emit_delivers [OF e(1) Cons.prems(2,3,4)] by metis
  then have "\<forall>m \<in> cached s1. is_parameter_set m"
    using Cons.prems(4) by auto
  then obtain h where h: "ps' = ps1 @ h" "carries h (deliver s1 ns)" "\<forall>m \<in> cached s'. is_parameter_set m"
      "\<forall>p \<in> set h. length p \<le> mtu \<or> is_parameter_set p \<and> p \<in> cached s1 \<union> set ns"
    using Cons.IH [OF e(2)] Cons.prems by auto
  then show ?case
    using g Cons.prems(4) by (intro exI [of _ "g @ h"]) (auto intro: carries_simps(2) simp del: deliver.simps)
qed


section \<open>Finding the units\<close>

text \<open>The zero counter of \<open>next_ind\<close> over a stretch without a start code.\<close>

fun zero_run :: "nat \<Rightarrow> bytes \<Rightarrow> nat option" where
  "zero_run z [] = Some z"
| "zero_run z (b # bs) =
     (if b = 0 then zero_run (z + 1) bs else if b = 1 \<and> 2 \<le> z then None else zero_run 0 bs)"

lemma next_ind_loop_append:
  "zero_run z n = Some z' \<Longrightarrow> next_ind_loop start (n @ r) i z = next_ind_loop start r (i + length n) z'"
  by (induction n arbitrary: i z) (auto split: if_splits)

lemma nal_len_suffix: "nal_len (p @ r) = length (p @ r) \<Longrightarrow> nal_len r = length r"
  by (induction p) (auto split: if_splits)

lemma zero_run_None: "zero_run z n = None \<Longrightarrow> nal_len (replicate z 0 @ n) \<noteq> length (replicate z 0 @ n)"
proof (induction z n rule: zero_run.induct)
  case (2 z b bs)
  consider "b = 0" | "b = 1" "2 \<le> z" | "b \<noteq> 0" "\<not> (b = 1 \<and> 2 \<le> z)" "zero_run 0 bs = None"
    using "2.prems" by (auto split: if_splits)
  then show ?case
  proof cases
    case 1
    then show ?thesis
      using 2 by (simp add: replicate_app_Cons_same)
  next
    case b: 2
    obtain k where "z = k + 2"
      using b(2) by (metis add.commute le_Suc_ex)
    then have "replicate z 0 @ b # bs = replicate k 0 @ 0 # 0 # 1 # bs"
      using b(1) by (simp add: replicate_add replicate_app_Cons_same)
    moreover have "nal_len (0 # 0 # 1 # bs) = 0"
      by (cases bs) simp_all
    ultimately show ?thesis
      using nal_len_suffix [of "replicate k 0" "0 # 0 # 1 # bs"] by auto
  next
    case 3
    then show ?thesis
      using "2.IH"(2) nal_len_suffix [of "replicate z 0 @ [b]" bs] "2.prems" by (auto split: if_splits)
  qed
qed simp

lemma zero_run_last: "zero_run z n = Some z' \<Longrightarrow> n \<noteq> [] \<Longrightarrow> last n \<noteq> 0 \<Longrightarrow> z' = 0"
  by (induction z n rule: zero_run.induct) (auto split: if_splits)

lemma zero_run_ok: "nal_ok n \<Longrightarrow> zero_run 0 n = Some 0"
  using zero_run_None [of 0 n] zero_run_last [of 0 n] by (cases "zero_run 0 n") (auto simp: nal_ok_def)

lemma next_ind_code:
  assumes "unit_ok (c, n)" and "data = pre @ c @ r"
  shows "next_ind data (length pre) = (int (length pre), int (length c))"
  using assms by (auto simp: next_ind_def unit_ok_def)

lemma next_ind_unit:
  assumes "nal_ok n" and "\<forall>u \<in> set us. unit_ok u" and "data = pre @ n @ annexb us"
  shows "next_ind data (length pre) =
    (case us of [] \<Rightarrow> (-1, -1) | (c, _) # _ \<Rightarrow> (int (length pre + length n), int (length c)))"
  using next_ind_loop_append [OF zero_run_ok [OF assms(1)], of "length pre" "annexb us" 0] assms(2,3)
  by (cases us) (auto simp: next_ind_def unit_ok_def)

lemma payload_loop_annexb:
  assumes "\<forall>u \<in> set ((c, n) # us). unit_ok u" and "data = pre @ annexb ((c, n) # us)"
  shows "payload_loop mtu data (int (length pre)) (int (length c)) ps s = emit_all mtu (n # map snd us) ps s"
  using assms
proof (induction us arbitrary: pre c n ps s)
  case Nil
  then have "next_ind data (length (pre @ c)) = (-1, -1)"
    using next_ind_unit [of n "[]" data "pre @ c"] by (simp add: unit_ok_def)
  then show ?case
    using Nil payload_loop_step [of "int (length pre)" data "int (length c)" "-1" "-1"]
    by (simp add: nat_add_distrib payload_loop_stop del: of_nat_add)
next
  case (Cons u us)
  obtain c' n' where u: "u = (c', n')" by (cases u)
  have "next_ind data (length (pre @ c)) = (int (length (pre @ c @ n)), int (length c'))"
    using next_ind_unit [of n "u # us" data "pre @ c"] Cons.prems u by (simp add: unit_ok_def)
  moreover have "slice_of (length (pre @ c)) (length (pre @ c @ n)) data = n"
    using Cons.prems by (simp add: slice_of_def)
  moreover have "payload_loop mtu data (int (length (pre @ c @ n))) (int (length c')) ps1 s1 =
      emit_all mtu (n' # map snd us) ps1 s1" for ps1 s1
    using Cons.IH [of c' n' "pre @ c @ n" ps1 s1] Cons.prems u by simp
  ultimately show ?case
    using payload_loop_step [of "int (length pre)" data "int (length c)"
        "int (length (pre @ c @ n))" "int (length c')" mtu ps s] u
    by (simp add: nat_add_distrib)
qed

lemma payload_annexb:
  assumes "\<forall>u \<in> set us. unit_ok u" and "us \<noteq> []" and "mtu \<noteq> 0"
  shows "payload mtu (annexb us) s = emit_all mtu (map snd us) [] s"
proof -
  obtain c n us' where us: "us = (c, n) # us'"
    using assms(2) by (cases us) auto
  then have "next_ind (annexb us) 0 = (int 0, int (length c))"
    using next_ind_code [of c n "annexb us" "[]"] assms(1) by simp
  moreover have "c \<noteq> []"
    using us assms(1) by (auto simp: unit_ok_def)
  ultimately show ?thesis
    using payload_loop_annexb [of c n us' "annexb us" "[]" mtu "[]" s] assms us by (simp add: payload_def)
qed


section \<open>Properties\<close>

text \<open>C33: The payloader returns for every frame and every packet size: both of its loops end,
  also when the size is so small that the fragment size wraps around.\<close>

theorem payload_terminates: "\<exists>r. payload mtu data self = Some r"
  by (rule payload_total)



text \<open>Every packet fits the packet size, except parameter sets that are too large to be
  aggregated and are then sent as they are.\<close>

theorem packets_fit_mtu:
  assumes "\<forall>u \<in> set us. unit_ok u \<and> sendable (snd u)" and "us \<noteq> []" and "4 \<le> mtu" and "mtu < 65536"
    and "\<forall>m \<in> cached s. is_parameter_set m" and "payload mtu (annexb us) s = Some (ps, s')"
  shows "(\<forall>p \<in> set ps. length p \<le> mtu \<or> is_parameter_set p \<and> p \<in> cached s \<union> snd ` set us) \<and>
    (\<forall>m \<in> cached s'. is_parameter_set m)"
proof -
  have "emit_all mtu (map snd us) [] s = Some (ps, s')"
    using payload_annexb [of us mtu s] assms by auto
  then show ?thesis
    using emit_all_delivers [of mtu "map snd us" "[]" s ps s'] assms by auto
qed

theorem packets_fit_mtu_witness:
  "\<exists>ps s'. payload 6 (annexb [([0, 0, 1], [0x26, 1, 7, 8, 9, 10, 11])]) H265Payloader_new = Some (ps, s') \<and>
     (\<forall>p \<in> set ps. length p \<le> 6)"
proof -
  let ?us = "[([0, 0, 1], [0x26, 1, 7, 8, 9, 10, 11])] :: (bytes \<times> bytes) list"
  obtain ps s' where p: "payload 6 (annexb ?us) H265Payloader_new = Some (ps, s')"
    using payload_total [of 6 "annexb ?us" H265Payloader_new] by auto
  have t: "get_nal_type [0x26, 1, 7, 8, 9, 10, 11] = 19"
    by code_simp
  have "\<forall>q \<in> set ps. length q \<le> 6 \<or> is_parameter_set q \<and>
      q \<in> cached H265Payloader_new \<union> snd ` set ?us"
    by (rule conjunct1 [OF packets_fit_mtu [OF _ _ _ _ _ p]])
       (simp_all add: unit_ok_def nal_ok_def sendable_def t cached_def H265Payloader_new_def)
  with p t show ?thesis
    by (auto simp: is_parameter_set_def cached_def H265Payloader_new_def)
qed

end
