(* ===== verification/VideoTrack.thy ===== *)
theory VideoTrack
  imports H265Payloader AppErrors
begin

text \<open>
  The WebRTC video track (\<open>src/webrtc/video_track.rs\<close>) and the video adapter of the RustDesk
  service (\<open>src/rustdesk/frame_adapters.rs\<close>): how an encoded frame becomes a sample, a run of
  RTP packets or a RustDesk message.  The writers of the WebRTC stack are parameters: they
  take a sample or a packet and may answer with an error text.  A call gives its result,
  what it handed to the stack in order, and the new track; \<open>None\<close> would be a call that does
  not return.
\<close>

unbundle bit_operations_syntax

section \<open>The track\<close>

definition RTP_MTU :: nat where "RTP_MTU = 1200"

datatype TrackCodec = TrackH264 | TrackH265 | TrackVP8 | TrackVP9

fun mime_type :: "TrackCodec \<Rightarrow> string" where
  "mime_type TrackH264 = ''video/H264''"
| "mime_type TrackH265 = ''video/H265''"
| "mime_type TrackVP8 = ''video/VP8''"
| "mime_type TrackVP9 = ''video/VP9''"

definition clock_rate :: "TrackCodec \<Rightarrow> u32" where
  "clock_rate c = 90000"

fun default_payload_type :: "TrackCodec \<Rightarrow> u8" where
  "default_payload_type TrackH264 = 96"
| "default_payload_type TrackVP8 = 97"
| "default_payload_type TrackVP9 = 98"
| "default_payload_type TrackH265 = 99"

fun sdp_fmtp :: "TrackCodec \<Rightarrow> string" where
  "sdp_fmtp TrackH264 = fallback_webrtc_fmtp_line"
| "sdp_fmtp TrackH265 = ''level-id=180;profile-id=1;tier-flag=0;tx-mode=SRST''"
| "sdp_fmtp TrackVP8 = ''''"
| "sdp_fmtp TrackVP9 = ''profile-id=0''"

fun display_name :: "TrackCodec \<Rightarrow> string" where
  "display_name TrackH264 = ''H.264''"
| "display_name TrackH265 = ''H.265/HEVC''"
| "display_name TrackVP8 = ''VP8''"
| "display_name TrackVP9 = ''VP9''"

datatype TrackType = SampleTrack | RtpTrack

record H265RtpState =
  payloader :: H265Payloader
  sequence_number :: u16
  timestamp :: u32
  timestamp_increment :: u32

record H264TrackState =
  track_sps :: "bytes option"
  track_pps :: "bytes option"

record UniversalVideoTrack =
  track :: TrackType
  track_codec :: TrackCodec
  track_fps :: u32
  h265_state :: "H265RtpState option"
  h264_state :: H264TrackState

record RtpPacket =
  rtp_marker :: bool
  rtp_payload_type :: u8
  rtp_sequence_number :: u16
  rtp_timestamp :: u32
  rtp_payload :: bytes

text \<open>\<open>new\<close>: the two random starting values are arguments.\<close>

definition UniversalVideoTrack_new :: "TrackCodec \<Rightarrow> u32 \<Rightarrow> u16 \<Rightarrow> u32 \<Rightarrow> UniversalVideoTrack" where
  "UniversalVideoTrack_new codec fps rand_seq rand_ts =
     (if codec = TrackH265
      then \<lparr>track = RtpTrack, track_codec = codec, track_fps = fps,
            h265_state = Some \<lparr>payloader = H265Payloader_new, sequence_number = rand_seq,
              timestamp = rand_ts, timestamp_increment = 90000 div max fps 1\<rparr>,
            h264_state = \<lparr>track_sps = None, track_pps = None\<rparr>\<rparr>
      else \<lparr>track = SampleTrack, track_codec = codec, track_fps = fps, h265_state = None,
            h264_state = \<lparr>track_sps = None, track_pps = None\<rparr>\<rparr>)"

datatype track_output = OutSample bytes nat | OutRtp RtpPacket

type_synonym track_result = "unit app_result \<times> track_output list \<times> UniversalVideoTrack"

definition frame_duration :: "UniversalVideoTrack \<Rightarrow> nat" where
  "frame_duration t = 1000000 div unat (max (track_fps t) 1)"

definition add_parameter_sets :: "bytes \<Rightarrow> bytes \<Rightarrow> bytes \<Rightarrow> bytes" where
  "add_parameter_sets sps pps data = [0, 0, 0, 1] @ sps @ [0, 0, 0, 1] @ pps @ data"

text \<open>The part of \<open>write_h264_frame\<close> up to the sample: normalise, remember the parameter sets,
  put them in front of an IDR frame that lacks them.\<close>

definition h264_sample :: "bytes \<Rightarrow> H264TrackState \<Rightarrow> bytes \<times> H264TrackState" where
  "h264_sample frame st =
     (let data = normalize_for_webrtc frame;
          idr = is_keyframe data;
          has_parameter_sets = has_sps_pps data;
          sets = extract_sps_pps data;
          st = (case fst sets of Some sps \<Rightarrow> st\<lparr>track_sps := Some sps\<rparr> | None \<Rightarrow> st);
          st = (case snd sets of Some pps \<Rightarrow> st\<lparr>track_pps := Some pps\<rparr> | None \<Rightarrow> st);
          data = (if idr \<and> \<not> has_parameter_sets
                  then case (track_sps st, track_pps st) of
                         (Some sps, Some pps) \<Rightarrow> add_parameter_sets sps pps data
                       | _ \<Rightarrow> data
                  else data)
      in (data, st))"

definition write_sample_result ::
  "string \<Rightarrow> (bytes \<Rightarrow> nat \<Rightarrow> string option) \<Rightarrow> bytes \<Rightarrow> UniversalVideoTrack \<Rightarrow> track_result" where
  "write_sample_result name write_sample data t =
     (case track t of
        SampleTrack \<Rightarrow>
          (case write_sample data (frame_duration t) of
             Some e \<Rightarrow> (Inl (WebRtcError (name @ '' write_sample failed: '' @ e)), [], t)
           | None \<Rightarrow> (Inr (), [OutSample data (frame_duration t)], t))
      | RtpTrack \<Rightarrow> (Inr (), [], t))"

definition write_h264_frame ::
  "(bytes \<Rightarrow> nat \<Rightarrow> string option) \<Rightarrow> bytes \<Rightarrow> UniversalVideoTrack \<Rightarrow> track_result" where
  "write_h264_frame write_sample frame t =
     (case h264_sample frame (h264_state t) of (data, st) \<Rightarrow>
        write_sample_result ''H264'' write_sample data (t\<lparr>h264_state := st\<rparr>))"

definition write_vp8_frame ::
  "(bytes \<Rightarrow> nat \<Rightarrow> string option) \<Rightarrow> bytes \<Rightarrow> UniversalVideoTrack \<Rightarrow> track_result" where
  "write_vp8_frame write_sample frame t = write_sample_result ''VP8'' write_sample frame t"

definition write_vp9_frame ::
  "(bytes \<Rightarrow> nat \<Rightarrow> string option) \<Rightarrow> bytes \<Rightarrow> UniversalVideoTrack \<Rightarrow> track_result" where
  "write_vp9_frame write_sample frame t = write_sample_result ''VP9'' write_sample frame t"

text \<open>The loop over the payloads; the first failing write ends the call.\<close>

fun send_payloads ::
  "(RtpPacket \<Rightarrow> string option) \<Rightarrow> u32 \<Rightarrow> u16 \<Rightarrow> nat \<Rightarrow> nat \<Rightarrow> bytes list \<Rightarrow> unit app_result \<times> track_output list" where
  "send_payloads write_rtp ts seq_start num_payloads i [] = (Inr (), [])"
| "send_payloads write_rtp ts seq_start num_payloads i (p # ps) =
     (let packet = \<lparr>rtp_marker = (i = num_payloads - 1), rtp_payload_type = 49,
                    rtp_sequence_number = seq_start + of_nat i, rtp_timestamp = ts, rtp_payload = p\<rparr>
      in case write_rtp packet of
           Some e \<Rightarrow> (Inl (WebRtcError (''H265 write_rtp failed: '' @ e)), [])
         | None \<Rightarrow>
             (case send_payloads write_rtp ts seq_start num_payloads (i + 1) ps of
                (r, out) \<Rightarrow> (r, OutRtp packet # out)))"

definition send_h265_rtp ::
  "(RtpPacket \<Rightarrow> string option) \<Rightarrow> bytes \<Rightarrow> UniversalVideoTrack \<Rightarrow> track_result option" where
  "send_h265_rtp write_rtp frame t =
     (case track t of
        SampleTrack \<Rightarrow> Some (Inr (), [], t)
      | RtpTrack \<Rightarrow>
          (case h265_state t of
             None \<Rightarrow> Some (Inr (), [], t)
           | Some st \<Rightarrow>
               (case payload RTP_MTU frame (payloader st) of
                  None \<Rightarrow> None
                | Some (payloads, pl) \<Rightarrow>
                    if payloads = [] then Some (Inr (), [], t\<lparr>h265_state := Some (st\<lparr>payloader := pl\<rparr>)\<rparr>)
                    else
                      let st' = st\<lparr>payloader := pl,
                                   sequence_number := sequence_number st + of_nat (length payloads),
                                   timestamp := timestamp st + timestamp_increment st\<rparr>
                      in case send_payloads write_rtp (timestamp st) (sequence_number st) (length payloads) 0 payloads of
                           (r, out) \<Rightarrow> Some (r, out, t\<lparr>h265_state := Some st'\<rparr>))))"

definition write_frame_bytes ::
  "(bytes \<Rightarrow> nat \<Rightarrow> string option) \<Rightarrow> (RtpPacket \<Rightarrow> string option) \<Rightarrow> bytes \<Rightarrow> UniversalVideoTrack \<Rightarrow>
     track_result option" where
  "write_frame_bytes write_sample write_rtp frame t =
     (if frame = [] then Some (Inr (), [], t)
      else case track_codec t of
        TrackH264 \<Rightarrow> Some (write_h264_frame write_sample frame t)
      | TrackH265 \<Rightarrow> send_h265_rtp write_rtp frame t
      | TrackVP8 \<Rightarrow> Some (write_vp8_frame write_sample frame t)
      | TrackVP9 \<Rightarrow> Some (write_vp9_frame write_sample frame t))"

section \<open>The RustDesk video adapter\<close>

datatype RdCodec = RdH264 | RdH265 | RdVP8 | RdVP9 | RdAV1

fun to_codec_id :: "RdCodec \<Rightarrow> int" where
  "to_codec_id RdH264 = 0"
| "to_codec_id RdH265 = 1"
| "to_codec_id RdVP8 = 2"
| "to_codec_id RdVP9 = 3"
| "to_codec_id RdAV1 = 4"

record VideoFrameAdapter =
  rd_codec :: RdCodec
  rd_seq :: u32
  timestamp_base :: u64
  rd_sps :: "bytes option"
  rd_pps :: "bytes option"

text \<open>The message: the union case is the codec, with one frame in it.\<close>

record VideoMessage =
  vm_union :: RdCodec
  vm_data :: bytes
  vm_key :: bool
  vm_pts :: int

definition VideoFrameAdapter_new :: "RdCodec \<Rightarrow> VideoFrameAdapter" where
  "VideoFrameAdapter_new codec =
     \<lparr>rd_codec = codec, rd_seq = 0, timestamp_base = 0, rd_sps = None, rd_pps = None\<rparr>"

definition set_codec :: "RdCodec \<Rightarrow> VideoFrameAdapter \<Rightarrow> VideoFrameAdapter" where
  "set_codec codec a = a\<lparr>rd_codec := codec\<rparr>"

definition prepare_h264_frame :: "bytes \<Rightarrow> bool \<Rightarrow> VideoFrameAdapter \<Rightarrow> bytes \<times> VideoFrameAdapter" where
  "prepare_h264_frame data is_key a =
     (if rd_codec a \<noteq> RdH264 then (data, a)
      else
        let sets = extract_sps_pps data;
            a = (case fst sets of Some sps \<Rightarrow> a\<lparr>rd_sps := Some sps\<rparr> | None \<Rightarrow> a);
            a = (case snd sets of Some pps \<Rightarrow> a\<lparr>rd_pps := Some pps\<rparr> | None \<Rightarrow> a);
            has_sps = (fst sets \<noteq> None); has_pps = (snd sets \<noteq> None)
        in if is_key \<and> (\<not> has_sps \<or> \<not> has_pps)
           then case (rd_sps a, rd_pps a) of
                  (Some sps, Some pps) \<Rightarrow> (add_parameter_sets sps pps data, a)
                | _ \<Rightarrow> (data, a)
           else (data, a))"

text \<open>\<open>(timestamp_ms - timestamp_base) as i64\<close> wraps at 64 bits and is read as signed.\<close>

definition encode_frame_from_bytes ::
  "bytes \<Rightarrow> bool \<Rightarrow> u64 \<Rightarrow> VideoFrameAdapter \<Rightarrow> VideoMessage \<times> VideoFrameAdapter" where
  "encode_frame_from_bytes data is_key timestamp_ms a =
     (case prepare_h264_frame data is_key a of (data, a) \<Rightarrow>
        let a = (if rd_seq a = 0 then a\<lparr>timestamp_base := timestamp_ms\<rparr> else a);
            pts = sint (timestamp_ms - timestamp_base a)
        in (\<lparr>vm_union = rd_codec a, vm_data = data, vm_key = is_key, vm_pts = pts\<rparr>,
            a\<lparr>rd_seq := rd_seq a + 1\<rparr>))"


section \<open>Parameter sets\<close>

text \<open>A remembered parameter set: a unit of the given type without a start code inside.\<close>

definition set_ok :: "u8 \<Rightarrow> bytes option \<Rightarrow> bool" where
  "set_ok t x \<longleftrightarrow> (\<forall>n. x = Some n \<longrightarrow> n \<noteq> [] \<and> nal_type n = t \<and> nal_len (tl n) = length (tl n))"

lemma code_of_append: "code_of p \<noteq> None \<Longrightarrow> code_of (p @ r) \<noteq> None"
  by (cases p rule: code_of.cases; cases r) (auto split: if_splits)

lemma nal_len_take: "nal_len (take (nal_len ys) ys) = length (take (nal_len ys) ys)"
proof (induction ys)
  case (Cons y ys)
  have "code_of (y # take (nal_len ys) ys) = None" if "code_of (y # ys) = None"
    using code_of_append [of "y # take (nal_len ys) ys" "drop (nal_len ys) ys"] that
    by (cases "code_of (y # take (nal_len ys) ys)") auto
  then show ?case
    using Cons by auto
qed simp

lemma nal_units_ok: "(c, n) \<in> set (nal_units xs) \<Longrightarrow> n \<noteq> [] \<and> nal_len (tl n) = length (tl n)"
proof (induction xs rule: nal_units.induct)
  case (1 xs)
  show ?case
  proof (cases "code_of xs")
    case None
    then have "nal_units xs = (case xs of [] \<Rightarrow> [] | _ # ys \<Rightarrow> nal_units ys)"
      by (subst nal_units.simps) simp
    then show ?thesis
      using "1.prems" "1.IH"(1) None by (cases xs) auto
  next
    case (Some k)
    show ?thesis
    proof (cases "drop k xs")
      case Nil
      then show ?thesis
        using "1.prems" Some by (simp add: nal_units.simps [of xs])
    next
      case (Cons b ys)
      then consider "n = b # take (nal_len ys) ys" | "(c, n) \<in> set (nal_units (drop (nal_len ys) ys))"
        using "1.prems" Some by (auto simp: nal_units.simps [of xs])
      then show ?thesis
        using "1.IH"(2) [OF Some Cons] nal_len_take [of ys] by cases auto
    qed
  qed
qed

lemma extracted_ok:
  "set_ok 7 (fst (extract_sps_pps data))" "set_ok 8 (snd (extract_sps_pps data))"
proof -
  have "set_ok t (last_of_type t (nal_units data) None)" for t
    using last_of_type_Some [of t "nal_units data"] nal_units_ok [of _ _ data] by (auto simp: set_ok_def)
  then show "set_ok 7 (fst (extract_sps_pps data))" "set_ok 8 (snd (extract_sps_pps data))"
    by (simp_all add: extract_sps_pps_eq)
qed

lemma nal_units_code4:
  "nal_units (0 # 0 # 0 # 1 # b # ys) = ([0, 0, 0, 1], b # take (nal_len ys) ys) # nal_units (drop (nal_len ys) ys)"
  by (subst nal_units.simps) simp

lemma nal_len_code4: "nal_len m = length m \<Longrightarrow> nal_len (m @ 0 # 0 # 0 # 1 # r) = length m"
  using code_free_append [of m "0 # 0 # 0 # 1 # r"] by simp

lemma added_sets_found:
  assumes "set_ok 7 (Some sps)" and "set_ok 8 (Some pps)"
  shows "has_sps_pps (add_parameter_sets sps pps data)"
proof -
  obtain b m where s: "sps = b # m" "b AND 0x1F = 7" "nal_len m = length m"
    using assms(1) by (cases sps) (auto simp: set_ok_def nal_type_def)
  obtain c k where p: "pps = c # k" "c AND 0x1F = 8"
    using assms(2) by (cases pps) (auto simp: set_ok_def nal_type_def)
  have "nal_units (add_parameter_sets sps pps data) =
      ([0, 0, 0, 1], b # m) # nal_units (0 # 0 # 0 # 1 # c # k @ data)"
    using nal_units_code4 [of b "m @ 0 # 0 # 0 # 1 # c # k @ data"] nal_len_code4 [OF s(3)]
    by (simp add: add_parameter_sets_def s(1) p(1))
  then show ?thesis
    using s(2) p(2) nal_units_code4 [of c "k @ data"] by (auto simp: has_sps_pps_eq has_type_def nal_type_def)
qed

lemma added_sets_keyframe: "is_keyframe data \<Longrightarrow> is_keyframe (add_parameter_sets sps pps data)"
proof -
  have "idr_in xs \<Longrightarrow> idr_in (p @ xs)" for p xs
    by (induction p) auto
  then show "is_keyframe data \<Longrightarrow> is_keyframe (add_parameter_sets sps pps data)"
    by (simp only: is_keyframe_eq add_parameter_sets_def)
qed

lemma has_iff_extracted:
  "extract_sps_pps data = (x, y) \<Longrightarrow> has_sps_pps data \<longleftrightarrow> x \<noteq> None \<and> y \<noteq> None"
  by (simp add: has_sps_pps_extract)

definition h264_ok :: "H264TrackState \<Rightarrow> bool" where
  "h264_ok st \<longleftrightarrow> set_ok 7 (track_sps st) \<and> set_ok 8 (track_pps st)"

definition adapter_ok :: "VideoFrameAdapter \<Rightarrow> bool" where
  "adapter_ok a \<longleftrightarrow> set_ok 7 (rd_sps a) \<and> set_ok 8 (rd_pps a)"

lemma h264_sample_ok:
  assumes "h264_ok st"
  shows "case h264_sample frame st of (sample, st') \<Rightarrow>
      h264_ok st' \<and> (track_sps st \<noteq> None \<longrightarrow> track_sps st' \<noteq> None) \<and> (track_pps st \<noteq> None \<longrightarrow> track_pps st' \<noteq> None) \<and>
      (is_keyframe sample \<and> track_sps st' \<noteq> None \<and> track_pps st' \<noteq> None \<longrightarrow> has_sps_pps sample)"
proof -
  define data where "data = normalize_for_webrtc frame"
  obtain x y where e: "extract_sps_pps data = (x, y)" by fastforce
  have "set_ok 7 x" "set_ok 8 y"
    using extracted_ok [of data] e by simp_all
  then show ?thesis
    using assms e has_iff_extracted [OF e] added_sets_found
    by (cases x; cases y; cases "track_sps st"; cases "track_pps st")
       (simp_all add: h264_sample_def h264_ok_def Let_def data_def [symmetric])
qed

lemma prepare_h264_ok:
  assumes "adapter_ok a" and "rd_codec a = RdH264"
  shows "case prepare_h264_frame frame True a of (data, a') \<Rightarrow>
      adapter_ok a' \<and> (rd_sps a \<noteq> None \<longrightarrow> rd_sps a' \<noteq> None) \<and> (rd_pps a \<noteq> None \<longrightarrow> rd_pps a' \<noteq> None) \<and>
      (rd_sps a' \<noteq> None \<and> rd_pps a' \<noteq> None \<longrightarrow> has_sps_pps data)"
proof -
  obtain x y where e: "extract_sps_pps frame = (x, y)" by fastforce
  have "set_ok 7 x" "set_ok 8 y"
    using extracted_ok [of frame] e by simp_all
  then show ?thesis
    using assms e has_iff_extracted [OF e] added_sets_found
    by (cases x; cases y; cases "rd_sps a"; cases "rd_pps a")
       (simp_all add: prepare_h264_frame_def adapter_ok_def Let_def)
qed

section \<open>RTP numbering\<close>

lemma send_payloads_all:
  assumes "\<forall>p. write_rtp p = None"
  shows "send_payloads write_rtp ts seq n i ps =
    (Inr (), map (\<lambda>(j, p). OutRtp \<lparr>rtp_marker = (j = n - 1), rtp_payload_type = 49,
       rtp_sequence_number = seq + of_nat j, rtp_timestamp = ts, rtp_payload = p\<rparr>) (enumerate i ps))"
  by (induction ps arbitrary: i) (simp_all add: assms Let_def)

fun track_run :: "(bytes \<Rightarrow> nat \<Rightarrow> string option) \<Rightarrow> (RtpPacket \<Rightarrow> string option) \<Rightarrow> bytes list \<Rightarrow>
    UniversalVideoTrack \<Rightarrow> (track_output list list \<times> UniversalVideoTrack) option" where
  "track_run ws wr [] t = Some ([], t)"
| "track_run ws wr (f # fs) t =
     (case write_frame_bytes ws wr f t of
        None \<Rightarrow> None
      | Some (r, out, t') \<Rightarrow> map_option (\<lambda>(outs, t''). (out # outs, t'')) (track_run ws wr fs t'))"

fun rtp_of :: "track_output \<Rightarrow> RtpPacket option" where
  "rtp_of (OutRtp p) = Some p"
| "rtp_of (OutSample _ _) = None"

text \<open>What one H.265 frame hands to the stack when every write succeeds.\<close>

lemma h265_frame:
  assumes "\<forall>p. wr p = None" and "track t = RtpTrack" and "h265_state t = Some st"
  obtains ps pl where "payload RTP_MTU frame (payloader st) = Some (ps, pl)"
    "send_h265_rtp wr frame t = Some (Inr (),
       map (\<lambda>(j, p). OutRtp \<lparr>rtp_marker = (j = length ps - 1), rtp_payload_type = 49,
         rtp_sequence_number = sequence_number st + of_nat j, rtp_timestamp = timestamp st, rtp_payload = p\<rparr>)
         (enumerate 0 ps),
       t\<lparr>h265_state := Some (st\<lparr>payloader := pl, sequence_number := sequence_number st + of_nat (length ps),
         timestamp := (if ps = [] then timestamp st else timestamp st + timestamp_increment st)\<rparr>)\<rparr>)"
proof -
  obtain ps pl where p: "payload RTP_MTU frame (payloader st) = Some (ps, pl)"
    using payload_total [of RTP_MTU frame "payloader st"] by auto
  show ?thesis
  proof (rule that [OF p])
  qed (use p assms in \<open>simp add: send_h265_rtp_def send_payloads_all Let_def\<close>)
qed

definition numbered :: "u16 \<Rightarrow> track_output list \<Rightarrow> bool" where
  "numbered seq out \<longleftrightarrow> map (\<lambda>o'. map_option rtp_sequence_number (rtp_of o')) out =
     map (\<lambda>i. Some (seq + of_nat i)) [0..<length out]"

lemma numbered_append:
  "numbered seq a \<Longrightarrow> numbered (seq + of_nat (length a)) b \<Longrightarrow> numbered seq (a @ b)"
proof -
  have "map (\<lambda>i. Some (seq + of_nat (length a) + of_nat i)) [0..<length b] =
      map (\<lambda>i. Some (seq + of_nat i)) [length a..<length a + length b]"
    by (rule nth_equalityI) (simp_all add: algebra_simps)
  moreover assume "numbered seq a" "numbered (seq + of_nat (length a)) b"
  ultimately show ?thesis
    by (simp add: numbered_def upt_add_eq_append [of 0])
qed

lemma numbered_frame:
  "numbered seq (map (\<lambda>(j, p). OutRtp \<lparr>rtp_marker = (j = n), rtp_payload_type = pt,
     rtp_sequence_number = seq + of_nat j, rtp_timestamp = ts, rtp_payload = p\<rparr>) (enumerate 0 ps))"
  unfolding numbered_def by (rule nth_equalityI) (simp_all add: nth_enumerate_eq)

text \<open>The packets of one frame: a common timestamp, the marker on the last one only.\<close>

definition one_frame :: "track_output list \<Rightarrow> bool" where
  "one_frame out \<longleftrightarrow>
     (\<exists>ts. \<forall>i < length out. \<exists>p. out ! i = OutRtp p \<and> rtp_timestamp p = ts \<and>
        (rtp_marker p \<longleftrightarrow> i = length out - 1))"

lemma one_frame_packets:
  "one_frame (map (\<lambda>(j, p). OutRtp \<lparr>rtp_marker = (j = length ps - Suc 0), rtp_payload_type = pt,
     rtp_sequence_number = f j, rtp_timestamp = ts, rtp_payload = p\<rparr>) (enumerate 0 ps))"
  unfolding one_frame_def by (rule exI [of _ ts]) (simp add: nth_enumerate_eq)

lemma track_run_h265:
  assumes "\<forall>p. wr p = None" and "track t = RtpTrack" and "track_codec t = TrackH265" and "h265_state t = Some st"
  shows "\<exists>outs t' st'. track_run ws wr frames t = Some (outs, t') \<and> h265_state t' = Some st' \<and>
    numbered (sequence_number st) (concat outs) \<and>
    sequence_number st' = sequence_number st + of_nat (length (concat outs)) \<and> (\<forall>out \<in> set outs. one_frame out)"
  using assms(2-)
proof (induction frames arbitrary: t st)
  case Nil
  then show ?case by (simp add: numbered_def)
next
  case (Cons f fs)
  have "\<exists>out t1 st1. write_frame_bytes ws wr f t = Some (Inr (), out, t1) \<and> track t1 = RtpTrack \<and>
      track_codec t1 = TrackH265 \<and> h265_state t1 = Some st1 \<and> numbered (sequence_number st) out \<and>
      sequence_number st1 = sequence_number st + of_nat (length out) \<and> one_frame out"
  proof (cases "f = []")
    case True
    then show ?thesis
      using Cons.prems by (simp add: write_frame_bytes_def numbered_def one_frame_def)
  next
    case False
    then have "write_frame_bytes ws wr f t = send_h265_rtp wr f t"
      using Cons.prems by (simp add: write_frame_bytes_def)
    then show ?thesis
      using Cons.prems
      by (rule_tac h265_frame [OF assms(1) Cons.prems(1,3), of f]) (simp add: numbered_frame one_frame_packets)
  qed
  then obtain out t1 st1 where w: "write_frame_bytes ws wr f t = Some (Inr (), out, t1)" "track t1 = RtpTrack"
      "track_codec t1 = TrackH265" "h265_state t1 = Some st1" "numbered (sequence_number st) out"
      "sequence_number st1 = sequence_number st + of_nat (length out)" "one_frame out"
    by blast
  obtain outs t' st' where r: "track_run ws wr fs t1 = Some (outs, t')" "h265_state t' = Some st'"
      "numbered (sequence_number st1) (concat outs)"
      "sequence_number st' = sequence_number st1 + of_nat (length (concat outs))" "\<forall>out \<in> set outs. one_frame out"
    using Cons.IH [OF w(2-4)] by blast
  show ?case
    using w r numbered_append [OF w(5), of "concat outs"] by (simp add: algebra_simps)
qed

section \<open>Properties\<close>



text \<open>Over any run of H.265 frames whose writes succeed, empty ones included, the RTP
  packets are numbered consecutively modulo 65536 from the random start, the packets of one
  frame share their timestamp and only the last carries the marker.\<close>

theorem rtp_packets_numbered:
  assumes "\<forall>p. wr p = None" and "UniversalVideoTrack_new TrackH265 fps seq ts = t"
  shows "\<exists>outs t'. track_run ws wr frames t = Some (outs, t') \<and> numbered seq (concat outs) \<and>
    (\<forall>out \<in> set outs. one_frame out)"
proof -
  obtain st where "track t = RtpTrack" "track_codec t = TrackH265" "h265_state t = Some st" "sequence_number st = seq"
    using assms(2) by (auto simp: UniversalVideoTrack_new_def)
  then show ?thesis
    using track_run_h265 [of wr t st ws frames] assms(1) by blast
qed

theorem rtp_packets_numbered_witness:
  "\<exists>outs t'. track_run (\<lambda>_ _. None) (\<lambda>_. None) [[0x26, 1, 7], [], [2, 1, 9]]
     (UniversalVideoTrack_new TrackH265 30 65535 0) = Some (outs, t') \<and> numbered 65535 (concat outs) \<and>
     (\<forall>out \<in> set outs. one_frame out)"
  by (rule rtp_packets_numbered) simp_all

end
