(* ===== verification/ExfatVolume.thy ===== *)
theory ExfatVolume
  imports StateError
begin

text \<open>
  The volume layer of the exFAT library (\<open>libs/ventoy-img-rs/src/exfat/ops.rs\<close>): cluster input and
  output, the FAT with its cache, the allocation bitmap, and the dirty flag around a
  transaction.  The image file is a byte string; reads and writes may fail, as the list
  \<open>dk_faults\<close> says (the head decides the next one, a failing write may have written a part, no
  entry means success), so a theorem over all states is one over every way the file can fail.
  Cluster numbers and FAT entries are \<open>u32\<close> and kept as naturals; a subtraction that could wrap
  is written \<open>u32_sub\<close>.  A panic is the error \<open>Panicked\<close>.  Reserving memory does not fail, and
  flushing a \<open>File\<close> does nothing.
\<close>

unbundle bit_operations_syntax

section \<open>The image file\<close>

text \<open>A text is the list of its Unicode scalar values.  An error message is its template with the
  texts and the numbers that fill it.\<close>

type_synonym ustring = "nat list"

datatype fs_error = FsIo string | FilesystemError string "ustring list" "nat list" | Panicked

abbreviation fs_err :: "string \<Rightarrow> fs_error" where
  "fs_err msg \<equiv> FilesystemError msg [] []"

record disk =
  dk_bytes :: bytes
  dk_faults :: "nat option list"

text \<open>What a write at an offset leaves, growing the file if need be.\<close>

definition splice :: "nat \<Rightarrow> bytes \<Rightarrow> bytes \<Rightarrow> bytes" where
  "splice off data bs =
     (if data = [] then bs
      else let bs = bs @ replicate (off - length bs) 0
           in take off bs @ data @ drop (off + length data) bs)"

definition next_fault :: "disk \<Rightarrow> nat option \<times> disk" where
  "next_fault d =
     (case dk_faults d of [] \<Rightarrow> (None, d) | f # fs \<Rightarrow> (f, d\<lparr>dk_faults := fs\<rparr>))"

definition disk_read :: "nat \<Rightarrow> nat \<Rightarrow> disk \<Rightarrow> (fs_error + bytes) \<times> disk" where
  "disk_read off n d =
     (case next_fault d of
        (Some _, d) \<Rightarrow> (Inl (FsIo ''read failed''), d)
      | (None, d) \<Rightarrow>
          if off + n \<le> length (dk_bytes d) then (Inr (slice_of off (off + n) (dk_bytes d)), d)
          else (Inl (FsIo ''failed to fill whole buffer''), d))"

definition disk_write :: "nat \<Rightarrow> bytes \<Rightarrow> disk \<Rightarrow> (fs_error + unit) \<times> disk" where
  "disk_write off data d =
     (case next_fault d of
        (Some k, d) \<Rightarrow> (Inl (FsIo ''write failed''), d\<lparr>dk_bytes := splice off (take k data) (dk_bytes d)\<rparr>)
      | (None, d) \<Rightarrow> (Inr (), d\<lparr>dk_bytes := splice off data (dk_bytes d)\<rparr>))"

section \<open>The open file system\<close>

definition FAT_ENTRY_FREE :: nat where "FAT_ENTRY_FREE = 0"

definition FAT_ENTRY_END_OF_CHAIN :: nat where "FAT_ENTRY_END_OF_CHAIN = 0xFFFFFFFF"

definition VOLUME_DIRTY_FLAG :: u16 where "VOLUME_DIRTY_FLAG = 0x0002"

definition VOLUME_FLAGS_OFFSET :: nat where "VOLUME_FLAGS_OFFSET = 106"

definition NO_FAT_CHAIN_FLAG :: u8 where "NO_FAT_CHAIN_FLAG = 0x02"

definition MAX_DIRECTORY_SIZE :: nat where "MAX_DIRECTORY_SIZE = 256 * 1024 * 1024"

definition FAT_CACHE_ENTRIES :: nat where "FAT_CACHE_ENTRIES = 8192"

record FatCache =
  fc_start :: nat
  fc_entries :: "nat list"

definition FatCache_new :: FatCache where
  "FatCache_new = \<lparr>fc_start = 0, fc_entries = []\<rparr>"

definition fc_contains :: "FatCache \<Rightarrow> nat \<Rightarrow> bool" where
  "fc_contains c cluster \<longleftrightarrow>
     fc_entries c \<noteq> [] \<and> fc_start c \<le> cluster \<and> cluster < fc_start c + length (fc_entries c)"

definition fc_get :: "FatCache \<Rightarrow> nat \<Rightarrow> nat option" where
  "fc_get c cluster =
     (if fc_contains c cluster then Some (fc_entries c ! (cluster - fc_start c)) else None)"

definition fc_update :: "nat \<Rightarrow> nat \<Rightarrow> FatCache \<Rightarrow> FatCache" where
  "fc_update cluster v c =
     (if fc_contains c cluster then c\<lparr>fc_entries := (fc_entries c)[cluster - fc_start c := v]\<rparr> else c)"

record ExfatFs =
  fs_disk :: disk
  partition_offset :: nat
  bytes_per_sector :: nat
  sectors_per_cluster :: nat
  cluster_size :: nat
  fat_offset :: nat
  fat_length :: nat
  cluster_heap_offset :: nat
  cluster_count :: nat
  first_cluster_of_root :: nat
  allocation_bitmap_first_cluster :: nat
  allocation_bitmap_size :: nat
  upcase_table_first_cluster :: nat
  upcase_table_size :: nat
  upcase_table_checksum :: nat
  fat_cache :: FatCache
  bitmap_cache :: "bytes option"
  bitmap_dirty :: bool

record FileEntryLocation =
  directory_cluster :: nat
  entry_offset :: nat
  first_cluster :: nat
  data_length :: nat
  secondary_count :: nat
  is_directory :: bool
  no_fat_chain :: bool

record DirectoryLocation =
  dl_entry :: "FileEntryLocation option"
  dl_first_cluster :: nat

definition DirectoryLocation_root :: "nat \<Rightarrow> DirectoryLocation" where
  "DirectoryLocation_root c = \<lparr>dl_entry = None, dl_first_cluster = c\<rparr>"

definition DirectoryLocation_from_entry :: "FileEntryLocation \<Rightarrow> fs_error + DirectoryLocation" where
  "DirectoryLocation_from_entry e =
     (if \<not> is_directory e then Inl (fs_err ''Entry is not a directory'')
      else Inr \<lparr>dl_entry = Some e, dl_first_cluster = first_cluster e\<rparr>)"

type_synonym 'a fx = "(fs_error, ExfatFs, 'a) rx"

definition fs_read :: "nat \<Rightarrow> nat \<Rightarrow> bytes fx" where
  "fs_read off n s = (case disk_read off n (fs_disk s) of (r, d) \<Rightarrow> (r, s\<lparr>fs_disk := d\<rparr>))"

definition fs_write :: "nat \<Rightarrow> bytes \<Rightarrow> unit fx" where
  "fs_write off data s = (case disk_write off data (fs_disk s) of (r, d) \<Rightarrow> (r, s\<lparr>fs_disk := d\<rparr>))"

definition u32_sub :: "nat \<Rightarrow> nat \<Rightarrow> nat" where
  "u32_sub a b = (a + 2 ^ 32 - b) mod 2 ^ 32"

section \<open>The dirty flag\<close>

definition volume_flags_offset :: "ExfatFs \<Rightarrow> nat" where
  "volume_flags_offset s = partition_offset s + VOLUME_FLAGS_OFFSET"

definition read_volume_flags :: "u16 fx" where
  "read_volume_flags s =
     sx_bind (fs_read (volume_flags_offset s) 2) (\<lambda>bs. sx_return (of_nat (le_val bs))) s"

definition is_volume_dirty :: "bool fx" where
  "is_volume_dirty = sx_bind read_volume_flags (\<lambda>flags. sx_return (flags AND VOLUME_DIRTY_FLAG \<noteq> 0))"

definition set_volume_dirty :: "bool \<Rightarrow> unit fx" where
  "set_volume_dirty dirty s =
     sx_bind read_volume_flags (\<lambda>flags.
       let flags = (if dirty then flags OR VOLUME_DIRTY_FLAG else flags AND NOT VOLUME_DIRTY_FLAG)
       in fs_write (volume_flags_offset s) (le_bytes 2 (unat flags))) s"

definition begin_write_transaction :: "bool fx" where
  "begin_write_transaction =
     sx_bind is_volume_dirty (\<lambda>was_dirty.
       if \<not> was_dirty then sx_bind (set_volume_dirty True) (\<lambda>_. sx_return was_dirty)
       else sx_return was_dirty)"

definition finish_write_transaction :: "bool \<Rightarrow> fs_error + 'a \<Rightarrow> 'a fx" where
  "finish_write_transaction was_dirty r =
     (case r of
        Inr v \<Rightarrow>
          if \<not> was_dirty then sx_bind (set_volume_dirty False) (\<lambda>_. sx_return v) else sx_return v
      | Inl e \<Rightarrow> sx_fail e)"

text \<open>The frame every writing operation puts around its body.\<close>

definition transaction :: "'a fx \<Rightarrow> 'a fx" where
  "transaction body =
     sx_bind begin_write_transaction (\<lambda>was_dirty s.
       case body s of (r, s) \<Rightarrow> finish_write_transaction was_dirty r s)"

section \<open>Clusters\<close>

definition cluster_to_offset :: "ExfatFs \<Rightarrow> nat \<Rightarrow> nat" where
  "cluster_to_offset s cluster =
     partition_offset s + cluster_heap_offset s * bytes_per_sector s + u32_sub cluster 2 * cluster_size s"

definition read_cluster :: "nat \<Rightarrow> bytes fx" where
  "read_cluster cluster s = fs_read (cluster_to_offset s cluster) (cluster_size s) s"

definition write_cluster :: "nat \<Rightarrow> bytes \<Rightarrow> unit fx" where
  "write_cluster cluster data s =
     (if length data > cluster_size s then (Inl (fs_err ''Data exceeds cluster size''), s)
      else
        sx_bind (fs_write (cluster_to_offset s cluster) data) (\<lambda>_.
          if length data < cluster_size s
          then fs_write (cluster_to_offset s cluster + length data) (replicate (cluster_size s - length data) 0)
          else sx_return ()) s)"

section \<open>The FAT\<close>

definition fat_entry_offset :: "ExfatFs \<Rightarrow> nat \<Rightarrow> nat" where
  "fat_entry_offset s cluster = partition_offset s + fat_offset s * bytes_per_sector s + cluster * 4"

definition parse_entries :: "nat \<Rightarrow> bytes \<Rightarrow> nat list" where
  "parse_entries n buffer = map (\<lambda>i. le_val (slice_of (4 * i) (4 * i + 4) buffer)) [0..<n]"

definition load_fat_segment :: "nat \<Rightarrow> unit fx" where
  "load_fat_segment start s =
     (let max_cluster = cluster_count s + 2;
          entries_to_read = min FAT_CACHE_ENTRIES (u32_sub max_cluster start)
      in if entries_to_read = 0 then (Inr (), s)
         else
           sx_bind (fs_read (fat_entry_offset s start) (entries_to_read * 4)) (\<lambda>buffer.
             sx_update (\<lambda>s. s\<lparr>fat_cache := \<lparr>fc_start = start, fc_entries = parse_entries entries_to_read buffer\<rparr>\<rparr>)) s)"

definition read_fat_entry :: "nat \<Rightarrow> nat fx" where
  "read_fat_entry cluster s =
     (case fc_get (fat_cache s) cluster of
        Some entry \<Rightarrow> (Inr entry, s)
      | None \<Rightarrow>
          sx_bind (load_fat_segment cluster) (\<lambda>_ s.
            (case fc_get (fat_cache s) cluster of
               Some entry \<Rightarrow> Inr entry
             | None \<Rightarrow> Inl (FilesystemError ''Failed to cache FAT entry for cluster {}'' [] [cluster]), s)) s)"

definition write_fat_entry :: "nat \<Rightarrow> nat \<Rightarrow> unit fx" where
  "write_fat_entry cluster v s =
     sx_bind (fs_write (fat_entry_offset s cluster) (le_bytes 4 v)) (\<lambda>_.
       sx_update (\<lambda>s. s\<lparr>fat_cache := fc_update cluster v (fat_cache s)\<rparr>)) s"

definition max_cluster :: "ExfatFs \<Rightarrow> nat" where
  "max_cluster s = cluster_count s + 1"

definition validate_cluster :: "nat \<Rightarrow> unit fx" where
  "validate_cluster cluster s =
     (if cluster < 2 \<or> cluster > max_cluster s
      then (Inl (FilesystemError ''Cluster {} is outside the cluster heap (2..={})'' [] [cluster, max_cluster s]), s)
      else (Inr (), s))"

text \<open>The clusters visited are those of the chain so far.\<close>

function chain_loop :: "nat \<Rightarrow> nat list \<Rightarrow> nat \<Rightarrow> nat list fx" where
  "chain_loop max_clusters chain current s =
     (case validate_cluster current s of
        (Inl e, s) \<Rightarrow> (Inl e, s)
      | (Inr _, s) \<Rightarrow>
          if current \<in> set chain
          then (Inl (FilesystemError ''FAT chain contains a cycle at cluster {}'' [] [current]), s)
          else if length chain \<ge> max_clusters
          then (Inl (FilesystemError ''FAT chain exceeds the {} cluster limit'' [] [max_clusters]), s)
          else
            (case read_fat_entry current s of
               (Inl e, s) \<Rightarrow> (Inl e, s)
             | (Inr next, s) \<Rightarrow>
                 if next = FAT_ENTRY_END_OF_CHAIN then (Inr (chain @ [current]), s)
                 else if next = FAT_ENTRY_FREE \<or> next = 0xFFFFFFF7 \<or> next \<ge> 0xFFFFFFF8
                 then (Inl (FilesystemError ''Invalid FAT entry {} after cluster {}'' [] [next, current]), s)
                 else chain_loop max_clusters (chain @ [current]) next s))"
  by pat_completeness auto
termination
  by (relation "measure (\<lambda>(m, chain, c, s). m - length chain)") auto

declare chain_loop.simps [simp del]

definition read_cluster_chain_limited :: "nat \<Rightarrow> nat \<Rightarrow> nat list fx" where
  "read_cluster_chain_limited first max_clusters =
     (if max_clusters = 0 then sx_fail (fs_err ''Cluster chain limit must be greater than zero'')
      else sx_bind (validate_cluster first) (\<lambda>_. chain_loop max_clusters [] first))"

definition read_cluster_chain :: "nat \<Rightarrow> nat list fx" where
  "read_cluster_chain first s = read_cluster_chain_limited first (cluster_count s) s"

definition div_ceil :: "nat \<Rightarrow> nat \<Rightarrow> nat" where
  "div_ceil a b = (a + b - 1) div b"

definition clusters_for_allocation :: "FileEntryLocation \<Rightarrow> nat list fx" where
  "clusters_for_allocation loc s =
     (if data_length loc = 0 then
        (if first_cluster loc \<noteq> 0 \<or> no_fat_chain loc
         then (Inl (fs_err ''Zero-length allocation has invalid cluster metadata''), s)
         else (Inr [], s))
      else
        sx_bind (validate_cluster (first_cluster loc)) (\<lambda>_ s.
          let count = div_ceil (data_length loc) (cluster_size s) in
          if no_fat_chain loc then
            (let last = first_cluster loc + (count - 1)
             in if last > max_cluster s
                then (Inl (FilesystemError ''Contiguous allocation ends outside the cluster heap at {}'' [] [last]), s)
                else (Inr [first_cluster loc..<last + 1], s))
          else
            sx_bind (read_cluster_chain_limited (first_cluster loc) count) (\<lambda>chain.
              if length chain \<noteq> count
              then sx_fail (FilesystemError ''FAT chain has {} clusters, allocation needs {}'' [] [length chain, count])
              else sx_return chain) s) s)"

definition directory_clusters :: "DirectoryLocation \<Rightarrow> nat list fx" where
  "directory_clusters dir s =
     (let max_clusters = div_ceil MAX_DIRECTORY_SIZE (cluster_size s) in
      case dl_entry dir of
        Some entry \<Rightarrow>
          if no_fat_chain entry then
            (if data_length entry > MAX_DIRECTORY_SIZE
             then (Inl (FilesystemError ''Directory allocation exceeds the {} byte limit'' [] [MAX_DIRECTORY_SIZE]), s)
             else clusters_for_allocation entry s)
          else read_cluster_chain_limited (dl_first_cluster dir) max_clusters s
      | None \<Rightarrow> read_cluster_chain_limited (dl_first_cluster dir) max_clusters s)"

section \<open>The allocation bitmap\<close>

fun collect_bytes :: "nat \<Rightarrow> nat list \<Rightarrow> bytes \<Rightarrow> bytes fx" where
  "collect_bytes byte_len [] data = sx_return data"
| "collect_bytes byte_len (c # cs) data =
     sx_bind (read_cluster c) (\<lambda>cluster_data.
       let data = data @ cluster_data
       in if length data \<ge> byte_len then sx_return (take byte_len data)
          else collect_bytes byte_len cs data)"

definition read_cluster_chain_bytes :: "nat \<Rightarrow> nat \<Rightarrow> bytes fx" where
  "read_cluster_chain_bytes first byte_len =
     sx_bind (read_cluster_chain first) (\<lambda>chain.
       if chain = [] then sx_fail (fs_err ''Empty cluster chain'')
       else
         sx_bind (collect_bytes byte_len chain []) (\<lambda>data.
           if length data < byte_len
           then sx_fail (FilesystemError ''Cluster chain for {} is shorter than expected: {} < {} bytes'' []
                  [first, length data, byte_len])
           else sx_return data))"

fun distribute_bytes :: "nat \<Rightarrow> bytes \<Rightarrow> nat list \<Rightarrow> nat \<Rightarrow> nat fx" where
  "distribute_bytes bytes_to_write data [] bytes_written = sx_return bytes_written"
| "distribute_bytes bytes_to_write data (c # cs) bytes_written =
     (\<lambda>s. let end = min (bytes_written + cluster_size s) bytes_to_write
          in if bytes_written \<ge> end then (Inr bytes_written, s)
             else sx_bind (write_cluster c (slice_of bytes_written end data)) (\<lambda>_.
                    distribute_bytes bytes_to_write data cs end) s)"

definition write_cluster_chain_bytes :: "nat \<Rightarrow> nat \<Rightarrow> bytes \<Rightarrow> unit fx" where
  "write_cluster_chain_bytes first byte_len data =
     (if length data < byte_len
      then sx_fail (FilesystemError ''Not enough data to write cluster chain: {} < {} bytes'' [] [length data, byte_len])
      else
        sx_bind (read_cluster_chain first) (\<lambda>chain.
          if chain = [] then sx_fail (fs_err ''Empty cluster chain'')
          else
            sx_bind (distribute_bytes byte_len data chain 0) (\<lambda>bytes_written.
              if bytes_written < byte_len
              then sx_fail (FilesystemError ''Cluster chain for {} is shorter than expected: {} < {} bytes'' []
                     [first, bytes_written, byte_len])
              else sx_return ())))"

definition load_bitmap :: "bytes fx" where
  "load_bitmap s =
     read_cluster_chain_bytes (allocation_bitmap_first_cluster s) (allocation_bitmap_size s) s"

definition read_bitmap :: "bytes fx" where
  "read_bitmap s =
     (case bitmap_cache s of
        Some bitmap \<Rightarrow> (Inr bitmap, s)
      | None \<Rightarrow>
          sx_bind load_bitmap (\<lambda>bitmap.
            sx_bind (sx_update (\<lambda>s. s\<lparr>bitmap_cache := Some bitmap\<rparr>)) (\<lambda>_. sx_return bitmap)) s)"

text \<open>\<open>get_bitmap_mut\<close> with the change its caller makes through the reference.\<close>

definition get_bitmap_mut :: "(bytes \<Rightarrow> bytes) \<Rightarrow> unit fx" where
  "get_bitmap_mut change =
     sx_bind (\<lambda>s. case bitmap_cache s of
          Some _ \<Rightarrow> (Inr (), s)
        | None \<Rightarrow> sx_bind load_bitmap (\<lambda>bitmap. sx_update (\<lambda>s. s\<lparr>bitmap_cache := Some bitmap\<rparr>)) s) (\<lambda>_.
       sx_update (\<lambda>s. s\<lparr>bitmap_cache := map_option change (bitmap_cache s)\<rparr>))"

definition write_bitmap :: "bytes \<Rightarrow> unit fx" where
  "write_bitmap bitmap s =
     sx_bind (write_cluster_chain_bytes (allocation_bitmap_first_cluster s) (allocation_bitmap_size s) bitmap) (\<lambda>_.
       sx_update (\<lambda>s. s\<lparr>bitmap_cache := Some bitmap, bitmap_dirty := False\<rparr>)) s"

text \<open>A write that fails leaves the cache empty: it was taken out.\<close>

definition flush_bitmap_now :: "unit fx" where
  "flush_bitmap_now s =
     (case bitmap_cache s of
        None \<Rightarrow> (Inr (), s)
      | Some bitmap \<Rightarrow>
          sx_bind (write_cluster_chain_bytes (allocation_bitmap_first_cluster s) (allocation_bitmap_size s) bitmap) (\<lambda>_.
            sx_update (\<lambda>s. s\<lparr>bitmap_cache := Some bitmap\<rparr>)) (s\<lparr>bitmap_cache := None\<rparr>))"

definition flush_bitmap :: "unit fx" where
  "flush_bitmap s =
     (if bitmap_dirty s then
        sx_bind flush_bitmap_now (\<lambda>_. sx_update (\<lambda>t. if bitmap_cache s = None then t else t\<lparr>bitmap_dirty := False\<rparr>)) s
      else (Inr (), s))"

definition is_cluster_allocated :: "bytes \<Rightarrow> nat \<Rightarrow> bool" where
  "is_cluster_allocated bitmap cluster =
     (let index = u32_sub cluster 2; byte_index = index div 8; bit_index = index mod 8
      in if byte_index \<ge> length bitmap then False
         else bitmap ! byte_index AND push_bit bit_index 1 \<noteq> 0)"

definition set_cluster_allocated :: "nat \<Rightarrow> bool \<Rightarrow> bytes \<Rightarrow> bytes" where
  "set_cluster_allocated cluster allocated bitmap =
     (let index = u32_sub cluster 2; byte_index = index div 8; bit_index = index mod 8
      in if byte_index < length bitmap then
           bitmap[byte_index :=
             (if allocated then bitmap ! byte_index OR push_bit bit_index 1
              else bitmap ! byte_index AND NOT (push_bit bit_index 1))]
         else bitmap)"

fun free_loop :: "bytes \<Rightarrow> nat \<Rightarrow> nat list \<Rightarrow> nat list \<Rightarrow> nat list" where
  "free_loop bitmap count [] found = found"
| "free_loop bitmap count (c # cs) found =
     (if \<not> is_cluster_allocated bitmap c then
        (let found = found @ [c] in if length found \<ge> count then found else free_loop bitmap count cs found)
      else free_loop bitmap count cs found)"

definition find_free_clusters :: "nat \<Rightarrow> nat list fx" where
  "find_free_clusters count =
     sx_bind read_bitmap (\<lambda>bitmap s.
       let found = free_loop bitmap count [2..<cluster_count s + 2] []
       in if length found < count
          then (Inl (FilesystemError ''Not enough free space: need {} clusters, found {}'' [] [count, length found]), s)
          else (Inr found, s))"

text \<open>The links of a new chain: each cluster to the next, the last to the end mark.\<close>

fun write_links :: "nat list \<Rightarrow> unit fx" where
  "write_links [] = sx_return ()"
| "write_links (c # cs) =
     sx_bind (write_fat_entry c (case cs of [] \<Rightarrow> FAT_ENTRY_END_OF_CHAIN | n # _ \<Rightarrow> n)) (\<lambda>_. write_links cs)"

definition allocate_clusters :: "nat \<Rightarrow> nat fx" where
  "allocate_clusters count =
     (if count = 0 then sx_fail (fs_err ''Cannot allocate 0 clusters'')
      else
        sx_bind (find_free_clusters count) (\<lambda>clusters.
        sx_bind (get_bitmap_mut (fold (\<lambda>c. set_cluster_allocated c True) clusters)) (\<lambda>_.
        sx_bind flush_bitmap_now (\<lambda>_.
        sx_bind (write_links clusters) (\<lambda>_. sx_return (hd clusters))))))"

fun clear_links :: "nat list \<Rightarrow> unit fx" where
  "clear_links [] = sx_return ()"
| "clear_links (c # cs) = sx_bind (write_fat_entry c FAT_ENTRY_FREE) (\<lambda>_. clear_links cs)"

definition free_clusters :: "nat list \<Rightarrow> bool \<Rightarrow> unit fx" where
  "free_clusters clusters clear_fat =
     (if clusters = [] then sx_return ()
      else
        sx_bind (get_bitmap_mut (fold (\<lambda>c. set_cluster_allocated c False) clusters)) (\<lambda>_.
        sx_bind flush_bitmap_now (\<lambda>_.
          if clear_fat then clear_links clusters else sx_return ())))"

definition free_allocation :: "FileEntryLocation \<Rightarrow> unit fx" where
  "free_allocation loc =
     sx_bind (clusters_for_allocation loc) (\<lambda>clusters. free_clusters clusters (\<not> no_fat_chain loc))"

definition free_directory_allocation :: "FileEntryLocation \<Rightarrow> unit fx" where
  "free_directory_allocation loc =
     sx_bind (sx_lift (DirectoryLocation_from_entry loc)) (\<lambda>dir.
     sx_bind (directory_clusters dir) (\<lambda>clusters. free_clusters clusters (\<not> no_fat_chain loc)))"

section \<open>The volume as FAT entries and clusters\<close>

text \<open>The static fields, the heap's cluster numbers, and the two views of the image: the entry of a
  cluster and its data.\<close>

definition geo where
  "geo s = (partition_offset s, bytes_per_sector s, sectors_per_cluster s, cluster_size s, fat_offset s, fat_length s,
     cluster_heap_offset s, cluster_count s, first_cluster_of_root s, allocation_bitmap_first_cluster s,
     allocation_bitmap_size s)"

definition in_heap :: "ExfatFs \<Rightarrow> nat \<Rightarrow> bool" where
  "in_heap s c \<longleftrightarrow> 2 \<le> c \<and> c \<le> cluster_count s + 1"

definition heap_start :: "ExfatFs \<Rightarrow> nat" where
  "heap_start s = partition_offset s + cluster_heap_offset s * bytes_per_sector s"

definition fat_at :: "ExfatFs \<Rightarrow> nat \<Rightarrow> nat" where
  "fat_at s c = le_val (slice_of (fat_entry_offset s c) (fat_entry_offset s c + 4) (dk_bytes (fs_disk s)))"

definition cluster_at :: "ExfatFs \<Rightarrow> nat \<Rightarrow> bytes" where
  "cluster_at s c = slice_of (cluster_to_offset s c) (cluster_to_offset s c + cluster_size s) (dk_bytes (fs_disk s))"

definition boot_bytes :: "ExfatFs \<Rightarrow> bytes" where
  "boot_bytes s = slice_of (partition_offset s) (partition_offset s + 512) (dk_bytes (fs_disk s))"

definition geometry_ok :: "ExfatFs \<Rightarrow> bool" where
  "geometry_ok s \<longleftrightarrow>
     cluster_size s > 0 \<and> 512 \<le> bytes_per_sector s \<and> 0 < cluster_count s \<and> cluster_count s + 2 \<le> 0xFFFFFFF7 \<and>
     (cluster_count s + 2) * 4 \<le> fat_length s * bytes_per_sector s \<and> 1 \<le> fat_offset s \<and>
     fat_offset s + fat_length s \<le> cluster_heap_offset s \<and>
     heap_start s + cluster_count s * cluster_size s \<le> length (dk_bytes (fs_disk s))"

text \<open>\<open>keeps s s' F C\<close>: from \<open>s\<close> to \<open>s'\<close> only the entries in \<open>F\<close> and the data of the clusters in
  \<open>C\<close> may have changed; 0, which is no cluster of the heap, stands in \<open>F\<close> for the boot sector.\<close>

definition keeps :: "ExfatFs \<Rightarrow> ExfatFs \<Rightarrow> nat set \<Rightarrow> nat set \<Rightarrow> bool" where
  "keeps s s' F C \<longleftrightarrow> geo s' = geo s \<and> length (dk_bytes (fs_disk s')) = length (dk_bytes (fs_disk s)) \<and>
     dk_faults (fs_disk s') = dk_faults (fs_disk s) \<and> (0 \<notin> F \<longrightarrow> boot_bytes s' = boot_bytes s) \<and>
     (\<forall>c. in_heap s c \<and> c \<notin> F \<longrightarrow> fat_at s' c = fat_at s c) \<and>
     (\<forall>c. in_heap s c \<and> c \<notin> C \<longrightarrow> cluster_at s' c = cluster_at s c)"

lemma keeps_refl [simp]: "keeps s s F C"
  by (simp add: keeps_def)

lemma in_heap_geo: "geo s' = geo s \<Longrightarrow> in_heap s' c = in_heap s c"
  by (simp add: geo_def in_heap_def)

lemma keeps_trans: "keeps s s' F C \<Longrightarrow> keeps s' s'' F' C' \<Longrightarrow> keeps s s'' (F \<union> F') (C \<union> C')"
  using in_heap_geo [of s' s] by (auto simp: keeps_def)

lemma keeps_mono: "keeps s s' F C \<Longrightarrow> F \<subseteq> F' \<Longrightarrow> C \<subseteq> C' \<Longrightarrow> keeps s s' F' C'"
  by (auto simp: keeps_def)

lemma keeps_geometry: "keeps s s' F C \<Longrightarrow> geometry_ok s' = geometry_ok s"
  by (simp add: keeps_def geometry_ok_def geo_def heap_start_def)

lemma keeps_in_heap: "keeps s s' F C \<Longrightarrow> in_heap s' c = in_heap s c"
  using in_heap_geo [of s' s] by (simp add: keeps_def)

lemma u32_sub_eq: "b \<le> a \<Longrightarrow> a < 2 ^ 32 \<Longrightarrow> u32_sub a b = a - b"
proof -
  assume "b \<le> a" "a < 2 ^ 32"
  then have "a + 2 ^ 32 - b = (a - b) + 2 ^ 32" by simp
  then show ?thesis using \<open>a < 2 ^ 32\<close> unfolding u32_sub_def by (simp only: mod_add_self2) simp
qed

text \<open>Slices of a string in which another slice was replaced.\<close>

lemma slice_copy_same: "i + length ys \<le> length xs \<Longrightarrow> slice_of i (i + length ys) (copy_slice i ys xs) = ys"
  by (simp add: slice_of_def copy_slice_def)

lemma slice_copy_before: "b \<le> i \<Longrightarrow> i + length ys \<le> length xs \<Longrightarrow> slice_of a b (copy_slice i ys xs) = slice_of a b xs"
  by (cases "a \<le> b") (simp_all add: slice_of_def copy_slice_def drop_take)

lemma slice_copy_after:
  assumes "i + length ys \<le> a" and "i + length ys \<le> length xs"
  shows "slice_of a b (copy_slice i ys xs) = slice_of a b xs"
  using assms by (simp add: slice_of_def copy_slice_def)

lemma splice_inside: "off + length data \<le> length bs \<Longrightarrow> splice off data bs = copy_slice off data bs"
  by (auto simp: splice_def copy_slice_def Let_def)

lemma copy_slice_twice:
  "i + length ys + length zs \<le> length xs \<Longrightarrow>
   copy_slice (i + length ys) zs (copy_slice i ys xs) = copy_slice i (ys @ zs) xs"
  by (simp add: copy_slice_def add.commute add.left_commute)

lemma next_fault_none: "dk_faults d = [] \<Longrightarrow> next_fault d = (None, d)"
  by (simp add: next_fault_def)

text \<open>Where the regions lie.\<close>

lemma regions:
  assumes "geometry_ok s" and "in_heap s c"
  shows "partition_offset s + 512 \<le> fat_entry_offset s c" and "fat_entry_offset s c + 4 \<le> heap_start s"
    and "cluster_to_offset s c = heap_start s + (c - 2) * cluster_size s"
    and "cluster_to_offset s c + cluster_size s \<le> length (dk_bytes (fs_disk s))"
proof -
  have "1 * 512 \<le> fat_offset s * bytes_per_sector s"
    using assms(1) by (intro mult_le_mono) (auto simp: geometry_ok_def)
  then show "partition_offset s + 512 \<le> fat_entry_offset s c"
    by (simp add: fat_entry_offset_def)
  have "c * 4 + 4 \<le> (cluster_count s + 2) * 4"
    using assms(2) by (simp add: in_heap_def)
  also have "\<dots> \<le> fat_length s * bytes_per_sector s"
    using assms(1) by (simp add: geometry_ok_def)
  finally have "fat_offset s * bytes_per_sector s + (c * 4 + 4) \<le> (fat_offset s + fat_length s) * bytes_per_sector s"
    by (simp add: algebra_simps)
  also have "\<dots> \<le> cluster_heap_offset s * bytes_per_sector s"
    using assms(1) by (intro mult_le_mono) (auto simp: geometry_ok_def)
  finally show "fat_entry_offset s c + 4 \<le> heap_start s"
    by (simp add: fat_entry_offset_def heap_start_def)
  show off: "cluster_to_offset s c = heap_start s + (c - 2) * cluster_size s"
    using assms by (simp add: cluster_to_offset_def heap_start_def in_heap_def geometry_ok_def u32_sub_eq)
  have "(c - 2 + 1) * cluster_size s \<le> cluster_count s * cluster_size s"
    using assms(2) by (intro mult_le_mono) (auto simp: in_heap_def)
  then have "(c - 2) * cluster_size s + cluster_size s \<le> cluster_count s * cluster_size s"
    by simp
  then show "cluster_to_offset s c + cluster_size s \<le> length (dk_bytes (fs_disk s))"
    using assms(1) off by (simp add: geometry_ok_def)
qed

lemma fat_entries_apart: "c \<noteq> d \<Longrightarrow> fat_entry_offset s c + 4 \<le> fat_entry_offset s d \<or> fat_entry_offset s d + 4 \<le> fat_entry_offset s c"
  by (auto simp: fat_entry_offset_def)

lemma clusters_apart:
  assumes "geometry_ok s" and "in_heap s c" and "in_heap s d" and "c \<noteq> d"
  shows "cluster_to_offset s c + cluster_size s \<le> cluster_to_offset s d \<or>
    cluster_to_offset s d + cluster_size s \<le> cluster_to_offset s c"
proof -
  have "(a - 2) * k + k \<le> (b - 2) * k" if "2 \<le> a" "a < b" for a b k :: nat
  proof -
    have "(a - 2 + 1) * k \<le> (b - 2) * k" using that by (intro mult_le_mono) auto
    then show ?thesis by simp
  qed
  then show ?thesis
    using assms regions(3) by (metis (no_types, lifting) add.assoc add_le_cancel_left in_heap_def linorder_neqE_nat)
qed

definition put_disk :: "nat \<Rightarrow> bytes \<Rightarrow> ExfatFs \<Rightarrow> ExfatFs" where
  "put_disk off data s = s\<lparr>fs_disk := (fs_disk s)\<lparr>dk_bytes := copy_slice off data (dk_bytes (fs_disk s))\<rparr>\<rparr>"

lemma put_disk_simps [simp]:
  "dk_bytes (fs_disk (put_disk off data s)) = copy_slice off data (dk_bytes (fs_disk s))"
  "dk_faults (fs_disk (put_disk off data s)) = dk_faults (fs_disk s)"
  "geo (put_disk off data s) = geo s" "fat_cache (put_disk off data s) = fat_cache s"
  "bitmap_cache (put_disk off data s) = bitmap_cache s" "cluster_size (put_disk off data s) = cluster_size s"
  "fat_entry_offset (put_disk off data s) c = fat_entry_offset s c"
  "cluster_to_offset (put_disk off data s) c = cluster_to_offset s c"
  "partition_offset (put_disk off data s) = partition_offset s"
  by (simp_all add: put_disk_def geo_def fat_entry_offset_def cluster_to_offset_def)

lemma fs_write_ok:
  "dk_faults (fs_disk s) = [] \<Longrightarrow> off + length data \<le> length (dk_bytes (fs_disk s)) \<Longrightarrow>
   fs_write off data s = (Inr (), put_disk off data s)"
  by (simp add: fs_write_def disk_write_def next_fault_none splice_inside put_disk_def)

lemma fs_read_ok:
  "dk_faults (fs_disk s) = [] \<Longrightarrow> off + n \<le> length (dk_bytes (fs_disk s)) \<Longrightarrow>
   fs_read off n s = (Inr (slice_of off (off + n) (dk_bytes (fs_disk s))), s)"
  by (simp add: fs_read_def disk_read_def next_fault_none)

lemma put_cluster_keeps:
  assumes "geometry_ok s" and "in_heap s c" and "length data = cluster_size s"
  shows "keeps s (put_disk (cluster_to_offset s c) data s) {} {c}"
    and "cluster_at (put_disk (cluster_to_offset s c) data s) c = data"
proof -
  note r = regions [OF assms(1,2)]
  have fat: "fat_at (put_disk (cluster_to_offset s c) data s) d = fat_at s d" if "in_heap s d" for d
    using regions(2) [OF assms(1) that] r(3,4) assms(3) by (simp add: fat_at_def slice_copy_before)
  have clu: "cluster_at (put_disk (cluster_to_offset s c) data s) d = cluster_at s d" if "in_heap s d" "d \<noteq> c" for d
    using clusters_apart [OF assms(1,2) that(1)] that(2) r(4) assms(3)
    by (auto simp: cluster_at_def slice_copy_before slice_copy_after)
  show "keeps s (put_disk (cluster_to_offset s c) data s) {} {c}"
    using fat clu r assms(3) by (auto simp: keeps_def boot_bytes_def slice_copy_before)
  show "cluster_at (put_disk (cluster_to_offset s c) data s) c = data"
    using slice_copy_same [of "cluster_to_offset s c" data "dk_bytes (fs_disk s)"] r(4) assms(3)
    by (simp add: cluster_at_def)
qed

lemma put_fat_keeps:
  assumes "geometry_ok s" and "in_heap s c" and "v < 2 ^ 32"
  shows "keeps s (put_disk (fat_entry_offset s c) (le_bytes 4 v) s) {c} {}"
    and "fat_at (put_disk (fat_entry_offset s c) (le_bytes 4 v) s) c = v"
proof -
  note r = regions [OF assms(1,2)]
  have len: "fat_entry_offset s c + 4 \<le> length (dk_bytes (fs_disk s))"
    using r by simp
  have clu: "cluster_at (put_disk (fat_entry_offset s c) (le_bytes 4 v) s) d = cluster_at s d" if "in_heap s d" for d
    using regions(3,4) [OF assms(1) that] r(2) len by (simp add: cluster_at_def slice_copy_after)
  have fat: "fat_at (put_disk (fat_entry_offset s c) (le_bytes 4 v) s) d = fat_at s d" if "in_heap s d" "d \<noteq> c" for d
    using fat_entries_apart [OF that(2), of s] len by (auto simp: fat_at_def slice_copy_before slice_copy_after)
  show "keeps s (put_disk (fat_entry_offset s c) (le_bytes 4 v) s) {c} {}"
    using fat clu r len by (auto simp: keeps_def boot_bytes_def slice_copy_before)
  show "fat_at (put_disk (fat_entry_offset s c) (le_bytes 4 v) s) c = v"
    using slice_copy_same [of "fat_entry_offset s c" "le_bytes 4 v" "dk_bytes (fs_disk s)"] len assms(3)
    by (simp add: fat_at_def le_val_le_bytes)
qed

section \<open>Reading and writing entries and chains\<close>

text \<open>The cache repeats what is on the disk.\<close>

definition cache_ok :: "ExfatFs \<Rightarrow> bool" where
  "cache_ok s \<longleftrightarrow> (\<forall>c v. fc_get (fat_cache s) c = Some v \<longrightarrow> in_heap s c \<and> v = fat_at s c)"

text \<open>A quiet, well-formed volume: no fault ahead, geometry and cache in order.\<close>

definition vol_ready :: "ExfatFs \<Rightarrow> bool" where
  "vol_ready s \<longleftrightarrow> geometry_ok s \<and> cache_ok s \<and> dk_faults (fs_disk s) = []"

text \<open>The same volume up to what the cache holds.\<close>

definition recached :: "ExfatFs \<Rightarrow> ExfatFs \<Rightarrow> bool" where
  "recached s s' \<longleftrightarrow> (\<exists>fc. s' = s\<lparr>fat_cache := fc\<rparr> \<and> cache_ok s')"

lemma recache_simps [simp]:
  "geo (s\<lparr>fat_cache := fc\<rparr>) = geo s" "fat_at (s\<lparr>fat_cache := fc\<rparr>) c = fat_at s c"
  "cluster_at (s\<lparr>fat_cache := fc\<rparr>) c = cluster_at s c" "boot_bytes (s\<lparr>fat_cache := fc\<rparr>) = boot_bytes s"
  "geometry_ok (s\<lparr>fat_cache := fc\<rparr>) = geometry_ok s" "in_heap (s\<lparr>fat_cache := fc\<rparr>) c = in_heap s c"
  by (simp_all add: geo_def fat_at_def fat_entry_offset_def cluster_at_def cluster_to_offset_def boot_bytes_def
      geometry_ok_def heap_start_def in_heap_def)

lemma recached_trans: "recached s s' \<Longrightarrow> recached s' s'' \<Longrightarrow> recached s s''"
  by (auto simp: recached_def)

lemma recached_refl: "vol_ready s \<Longrightarrow> recached s s"
  by (auto simp: recached_def vol_ready_def intro: exI [of _ "fat_cache s"])

lemma recachedD:
  assumes "recached s s'"
  shows "vol_ready s \<Longrightarrow> vol_ready s'" and "keeps s s' {} {}" and "bitmap_cache s' = bitmap_cache s"
    and "geo s' = geo s" and "fat_at s' c = fat_at s c" and "cluster_at s' c = cluster_at s c"
  using assms by (auto simp: recached_def vol_ready_def keeps_def)

lemma parse_entries_nth:
  "i < n \<Longrightarrow> 4 * n \<le> length buffer \<Longrightarrow> parse_entries n buffer ! i = le_val (slice_of (4 * i) (4 * i + 4) buffer)"
  by (simp add: parse_entries_def)

lemma length_parse_entries [simp]: "length (parse_entries n buffer) = n"
  by (simp add: parse_entries_def)

lemma slice_slice:
  "i + k \<le> n \<Longrightarrow> slice_of i (i + k) (slice_of a (a + n) xs) = slice_of (a + i) (a + i + k) xs"
  by (simp add: slice_of_def drop_take min_def add.commute [of a i])

lemma loaded_cache:
  assumes "0 < n" and "fat_entry_offset s c + n * 4 \<le> length (dk_bytes (fs_disk s))"
  shows "fc_get \<lparr>fc_start = c, fc_entries = parse_entries n
      (slice_of (fat_entry_offset s c) (fat_entry_offset s c + n * 4) (dk_bytes (fs_disk s)))\<rparr> d =
    (if c \<le> d \<and> d < c + n then Some (fat_at s d) else None)"
proof -
  let ?buf = "slice_of (fat_entry_offset s c) (fat_entry_offset s c + n * 4) (dk_bytes (fs_disk s))"
  have "parse_entries n ?buf ! i = fat_at s (c + i)" if "i < n" for i
  proof -
    have "4 * n \<le> length ?buf" using assms(2) by simp
    have "4 * i + 4 \<le> n * 4" "fat_entry_offset s (c + i) = fat_entry_offset s c + 4 * i"
      using that by (simp_all add: fat_entry_offset_def)
    then show ?thesis
      using parse_entries_nth [OF that \<open>4 * n \<le> length ?buf\<close>]
        slice_slice [of "4 * i" 4 "n * 4" "fat_entry_offset s c" "dk_bytes (fs_disk s)"]
      by (simp add: fat_at_def)
  qed
  moreover have "parse_entries n ?buf \<noteq> []"
    using assms(1) length_parse_entries [of n ?buf] by fastforce
  ultimately show ?thesis
    by (auto simp: fc_get_def fc_contains_def)
qed

lemma read_fat_entry_ok:
  assumes "vol_ready s" and "in_heap s c"
  shows "\<exists>s'. read_fat_entry c s = (Inr (fat_at s c), s') \<and> recached s s'"
proof (cases "fc_get (fat_cache s) c")
  case (Some v)
  then show ?thesis
    using assms by (auto simp: read_fat_entry_def vol_ready_def cache_ok_def recached_refl)
next
  case None
  define n where "n = min FAT_CACHE_ENTRIES (cluster_count s + 2 - c)"
  have "2 \<le> c" "c < cluster_count s + 2" "cluster_count s + 2 < 2 ^ 32"
    using assms by (auto simp: in_heap_def vol_ready_def geometry_ok_def)
  then have n: "min FAT_CACHE_ENTRIES (u32_sub (cluster_count s + 2) c) = n" "0 < n" "c + n \<le> cluster_count s + 2"
    "in_heap s (c + n - 1)"
    by (auto simp: u32_sub_eq FAT_CACHE_ENTRIES_def n_def in_heap_def)
  note r = regions [of s "c + n - 1"]
  have "fat_entry_offset s (c + n - 1) + 4 \<le> length (dk_bytes (fs_disk s))"
    using r(2,3,4) assms(1) n(4) by (simp add: vol_ready_def)
  then have len: "fat_entry_offset s c + n * 4 \<le> length (dk_bytes (fs_disk s))"
    using n(2) by (simp add: fat_entry_offset_def)
  let ?fc = "\<lparr>fc_start = c, fc_entries = parse_entries n
    (slice_of (fat_entry_offset s c) (fat_entry_offset s c + n * 4) (dk_bytes (fs_disk s)))\<rparr>"
  note get = loaded_cache [OF n(2) len]
  have load: "load_fat_segment c s = (Inr (), s\<lparr>fat_cache := ?fc\<rparr>)"
    using fs_read_ok [of s "fat_entry_offset s c" "n * 4"] assms(1) len n(1,2)
    by (simp add: load_fat_segment_def Let_def vol_ready_def sx_simps)
  have "recached s (s\<lparr>fat_cache := ?fc\<rparr>)"
    using n(3) assms(2) by (auto simp: recached_def cache_ok_def get in_heap_def split: if_splits)
  then show ?thesis
    using None load get [of c] n(2) by (auto simp: read_fat_entry_def sx_simps)
qed

text \<open>Chains in a table of entries.\<close>

primrec fat_path :: "(nat \<Rightarrow> nat) \<Rightarrow> nat \<Rightarrow> nat list \<Rightarrow> nat \<Rightarrow> bool" where
  "fat_path f x [] y \<longleftrightarrow> x = y"
| "fat_path f x (a # as) y \<longleftrightarrow> x = a \<and> fat_path f (f a) as y"

lemma fat_path_append [simp]: "fat_path f x (as @ bs) z \<longleftrightarrow> (\<exists>y. fat_path f x as y \<and> fat_path f y bs z)"
  by (induction as arbitrary: x) auto

lemma fat_path_cong: "(\<And>c. c \<in> set cs \<Longrightarrow> f c = g c) \<Longrightarrow> fat_path f x cs y = fat_path g x cs y"
  by (induction cs arbitrary: x) auto

definition is_chain :: "ExfatFs \<Rightarrow> nat \<Rightarrow> nat list \<Rightarrow> bool" where
  "is_chain s first cs \<longleftrightarrow> cs \<noteq> [] \<and> distinct cs \<and> (\<forall>c \<in> set cs. in_heap s c) \<and>
     fat_path (fat_at s) first cs FAT_ENTRY_END_OF_CHAIN"

lemma is_chain_hd: "is_chain s first cs \<Longrightarrow> hd cs = first"
  by (cases cs) (auto simp: is_chain_def)

lemma is_chain_cong:
  assumes "geo s' = geo s" and "\<And>c. c \<in> set cs \<Longrightarrow> fat_at s' c = fat_at s c"
  shows "is_chain s' first cs = is_chain s first cs"
  using fat_path_cong [of cs "fat_at s'" "fat_at s"] assms(2) in_heap_geo [OF assms(1)] by (simp add: is_chain_def)

lemma is_chain_keeps: "keeps s s' F C \<Longrightarrow> is_chain s first cs \<Longrightarrow> set cs \<inter> F = {} \<Longrightarrow> is_chain s' first cs"
  using is_chain_cong [of s' s cs first] by (auto simp: keeps_def is_chain_def)

lemma is_chain_recached: "recached s s' \<Longrightarrow> is_chain s' first cs = is_chain s first cs"
  using is_chain_cong recachedD(4,5) by blast

lemma is_chain_length:
  assumes "is_chain s first cs"
  shows "length cs \<le> cluster_count s"
proof -
  have "length cs = card (set cs)"
    using assms by (simp add: is_chain_def distinct_card)
  also have "set cs \<subseteq> {2..<cluster_count s + 2}"
    using assms by (auto simp: is_chain_def in_heap_def)
  then have "card (set cs) \<le> card {2..<cluster_count s + 2}"
    by (intro card_mono) auto
  finally show ?thesis by simp
qed

lemma validate_ok: "in_heap s c \<Longrightarrow> validate_cluster c s = (Inr (), s)"
  by (auto simp: validate_cluster_def in_heap_def max_cluster_def)

text \<open>Reading a chain gives its clusters.\<close>

lemma chain_loop_ok:
  assumes "vol_ready s" and "distinct (seen @ cs)" and "\<forall>c \<in> set cs. in_heap s c" and "cs \<noteq> []"
    and "fat_path (fat_at s) x cs FAT_ENTRY_END_OF_CHAIN" and "length seen + length cs \<le> m"
  shows "\<exists>s'. chain_loop m seen x s = (Inr (seen @ cs), s') \<and> recached s s'"
  using assms
proof (induction cs arbitrary: seen x s)
  case (Cons c cs)
  then have x: "x = c" "in_heap s c" "c \<notin> set seen" "length seen < m"
    by auto
  obtain s1 where s1: "read_fat_entry c s = (Inr (fat_at s c), s1)" "recached s s1"
    using read_fat_entry_ok [OF Cons.prems(1) x(2)] by blast
  show ?case
  proof (cases cs)
    case Nil
    then have "fat_at s c = FAT_ENTRY_END_OF_CHAIN"
      using Cons.prems(5) by simp
    then show ?thesis
      using x s1 Nil by (subst chain_loop.simps) (simp add: validate_ok)
  next
    case (Cons d ds)
    then have nxt: "fat_at s c = d" "in_heap s d"
      using Cons.prems by auto
    have "d < 0xFFFFFFF7" "d \<noteq> 0"
      using nxt(2) Cons.prems(1) by (auto simp: in_heap_def vol_ready_def geometry_ok_def)
    then have step: "chain_loop m seen x s = chain_loop m (seen @ [c]) d s1"
      using x s1 nxt by (subst chain_loop.simps) (simp add: validate_ok FAT_ENTRY_END_OF_CHAIN_def FAT_ENTRY_FREE_def)
    have "\<exists>s'. chain_loop m (seen @ [c]) d s1 = (Inr ((seen @ [c]) @ cs), s') \<and> recached s1 s'"
    proof (rule Cons.IH)
      show "vol_ready s1" using recachedD(1) s1(2) Cons.prems(1) by blast
      show "\<forall>c \<in> set cs. in_heap s1 c"
        using Cons.prems(3) in_heap_geo [OF recachedD(4) [OF s1(2)]] by simp
      show "fat_path (fat_at s1) d cs FAT_ENTRY_END_OF_CHAIN"
        using Cons.prems(5) nxt(1) recachedD(5) [OF s1(2)] fat_path_cong [of cs "fat_at s1" "fat_at s"] by simp
    qed (use Cons.prems Cons in auto)
    then show ?thesis
      using step recached_trans [OF s1(2)] by auto
  qed
qed simp

lemma read_chain_limited_ok:
  assumes "vol_ready s" and "is_chain s first cs" and "length cs \<le> m"
  shows "\<exists>s'. read_cluster_chain_limited first m s = (Inr cs, s') \<and> recached s s'"
proof -
  have "in_heap s first"
    using assms(2) by (cases cs) (auto simp: is_chain_def)
  moreover have "m \<noteq> 0"
    using assms(2,3) by (cases cs) (auto simp: is_chain_def)
  ultimately show ?thesis
    using chain_loop_ok [of s "[]" cs first m] assms
    by (auto simp: read_cluster_chain_limited_def sx_simps validate_ok is_chain_def)
qed

lemma read_chain_ok:
  assumes "vol_ready s" and "is_chain s first cs"
  shows "\<exists>s'. read_cluster_chain first s = (Inr cs, s') \<and> recached s s'"
  using read_chain_limited_ok [OF assms is_chain_length [OF assms(2)]] by (simp add: read_cluster_chain_def)

text \<open>Conversely, whatever is on the disk and whatever fails, a list that is returned is a chain of
  the table.\<close>

definition same_image :: "ExfatFs \<Rightarrow> ExfatFs \<Rightarrow> bool" where
  "same_image s s' \<longleftrightarrow> geo s' = geo s \<and> dk_bytes (fs_disk s') = dk_bytes (fs_disk s) \<and> bitmap_cache s' = bitmap_cache s"

lemma same_image_views:
  assumes "same_image s s'"
  shows "fat_at s' c = fat_at s c" and "cluster_at s' c = cluster_at s c" and "in_heap s' c = in_heap s c"
    and "boot_bytes s' = boot_bytes s" and "cluster_count s' = cluster_count s" and "fat_entry_offset s' c = fat_entry_offset s c"
  using assms
  by (auto simp: same_image_def geo_def fat_at_def fat_entry_offset_def cluster_at_def cluster_to_offset_def in_heap_def boot_bytes_def)

lemma fs_read_image:
  assumes "fs_read off n s = (r, s')"
  shows "same_image s s'" and "fat_cache s' = fat_cache s"
    and "r = Inr bs \<Longrightarrow> bs = slice_of off (off + n) (dk_bytes (fs_disk s)) \<and> off + n \<le> length (dk_bytes (fs_disk s))"
    and "r \<noteq> Inl Panicked"
  using assms
  by (auto simp: fs_read_def disk_read_def next_fault_def same_image_def geo_def split: list.splits option.splits if_splits)

lemma read_fat_entry_sound:
  assumes "cache_ok s" and "in_heap s c" and "cluster_count s + 2 < 2 ^ 32" and "read_fat_entry c s = (r, s')"
  shows "same_image s s' \<and> cache_ok s' \<and> (\<forall>v. r = Inr v \<longrightarrow> v = fat_at s c) \<and> r \<noteq> Inl Panicked"
proof (cases "fc_get (fat_cache s) c")
  case (Some v)
  then show ?thesis
    using assms by (auto simp: read_fat_entry_def cache_ok_def same_image_def)
next
  case None
  define n where "n = min FAT_CACHE_ENTRIES (cluster_count s + 2 - c)"
  have n: "min FAT_CACHE_ENTRIES (u32_sub (cluster_count s + 2) c) = n" "0 < n" "c + n \<le> cluster_count s + 2"
    using assms(2,3) by (auto simp: u32_sub_eq FAT_CACHE_ENTRIES_def n_def in_heap_def)
  obtain q s1 where q: "fs_read (fat_entry_offset s c) (n * 4) s = (q, s1)"
    by fastforce
  note image = fs_read_image [OF q]
  have keep: "same_image s (s1\<lparr>fat_cache := fc\<rparr>)" for fc
    using image(1) by (simp add: same_image_def geo_def)
  have "cache_ok s1"
    using assms(1) image(2) same_image_views [OF image(1)] by (simp add: cache_ok_def)
  moreover have "cache_ok (s1\<lparr>fat_cache := \<lparr>fc_start = c, fc_entries = parse_entries n bs\<rparr>\<rparr>)"
    "fc_get \<lparr>fc_start = c, fc_entries = parse_entries n bs\<rparr> c = Some (fat_at s c)" if "q = Inr bs" for bs
    using loaded_cache [OF n(2)] image(3) [OF that] n(2,3) same_image_views [OF image(1)] assms(2)
    by (auto simp: cache_ok_def in_heap_def split: if_splits)
  ultimately show ?thesis
    using assms(4) None q n(1,2) image(1,4) keep
    by (cases q) (auto simp: read_fat_entry_def load_fat_segment_def Let_def sx_simps split: option.splits)
qed

lemma chain_loop_sound:
  assumes "chain_loop m seen x s = (r, s')" and "cache_ok s" and "cluster_count s + 2 < 2 ^ 32"
  shows "same_image s s' \<and> cache_ok s' \<and> r \<noteq> Inl Panicked \<and>
    (\<forall>cs. r = Inr cs \<longrightarrow> length cs \<le> m \<and> (distinct seen \<longrightarrow> distinct cs) \<and>
      (\<exists>ds. cs = seen @ ds \<and> ds \<noteq> [] \<and> fat_path (fat_at s) x ds FAT_ENTRY_END_OF_CHAIN \<and> (\<forall>c \<in> set ds. in_heap s c)))"
  using assms
proof (induction m seen x s rule: chain_loop.induct)
  case (1 m seen x s)
  show ?case
  proof (cases "in_heap s x \<and> x \<notin> set seen \<and> length seen < m")
    case False
    then show ?thesis
      using "1.prems"(1,2) by (subst (asm) chain_loop.simps)
        (auto simp: validate_cluster_def in_heap_def max_cluster_def same_image_def split: if_splits)
  next
    case True
    obtain q s1 where q: "read_fat_entry x s = (q, s1)"
      by fastforce
    note sound = read_fat_entry_sound [OF "1.prems"(2) _ "1.prems"(3) q]
    note step = chain_loop.simps [of m seen x s]
    show ?thesis
    proof (cases "\<exists>v. q = Inr v \<and> v \<noteq> FAT_ENTRY_END_OF_CHAIN \<and> v \<noteq> FAT_ENTRY_FREE \<and> v \<noteq> 0xFFFFFFF7 \<and> v < 0xFFFFFFF8")
      case False
      then show ?thesis
        using "1.prems"(1) step q True sound by (cases q) (auto simp: validate_ok split: if_splits)
    next
      case more: True
      then obtain v where v: "q = Inr v" "v \<noteq> FAT_ENTRY_END_OF_CHAIN" "v \<noteq> FAT_ENTRY_FREE" "v \<noteq> 0xFFFFFFF7" "v < 0xFFFFFFF8"
        by blast
      have rec: "chain_loop m (seen @ [x]) v s1 = (r, s')"
        using "1.prems"(1) step q True v by (simp add: validate_ok)
      have s1: "same_image s s1" "cache_ok s1" "v = fat_at s x"
        using sound True v(1) by auto
      have "cluster_count s1 + 2 < 2 ^ 32"
        using "1.prems"(3) same_image_views(5) [OF s1(1)] by simp
      from "1.IH" [OF sym [OF validate_ok] refl _ _ sym [OF q [unfolded v(1)]] refl _ _ rec s1(2) this] True v
      have IH: "same_image s1 s' \<and> cache_ok s' \<and> r \<noteq> Inl Panicked \<and>
          (\<forall>cs. r = Inr cs \<longrightarrow> length cs \<le> m \<and> (distinct (seen @ [x]) \<longrightarrow> distinct cs) \<and>
            (\<exists>ds. cs = (seen @ [x]) @ ds \<and> ds \<noteq> [] \<and> fat_path (fat_at s1) v ds FAT_ENTRY_END_OF_CHAIN \<and> (\<forall>c \<in> set ds. in_heap s1 c)))"
        by auto
      moreover have "fat_at s1 = fat_at s" "in_heap s1 = in_heap s"
        using same_image_views [OF s1(1)] by auto
      ultimately show ?thesis
        using True s1 by (auto simp: same_image_def)
    qed
  qed
qed

text \<open>Writing an entry, reading and writing a cluster.\<close>

lemma vol_ready_keeps:
  assumes "keeps s s' {} C" and "fat_cache s' = fat_cache s" and "vol_ready s"
  shows "vol_ready s'"
  using assms keeps_geometry [OF assms(1)] keeps_in_heap [OF assms(1)]
  by (auto simp: vol_ready_def cache_ok_def keeps_def)

lemma fc_get_update: "fc_get (fc_update c v fc) d =
    (if d = c then if fc_contains fc c then Some v else None else fc_get fc d)"
  by (auto simp: fc_get_def fc_update_def fc_contains_def nth_list_update)

lemma write_fat_entry_ok:
  assumes "vol_ready s" and "in_heap s c" and "v < 2 ^ 32"
  shows "\<exists>s'. write_fat_entry c v s = (Inr (), s') \<and> vol_ready s' \<and> keeps s s' {c} {} \<and> fat_at s' c = v \<and>
    bitmap_cache s' = bitmap_cache s"
proof -
  have geom: "geometry_ok s" and quiet: "dk_faults (fs_disk s) = []"
    using assms(1) by (simp_all add: vol_ready_def)
  let ?s = "put_disk (fat_entry_offset s c) (le_bytes 4 v) s"
  let ?s' = "?s\<lparr>fat_cache := fc_update c v (fat_cache s)\<rparr>"
  note put = put_fat_keeps [OF geom assms(2,3)]
  have k: "keeps s ?s' {c} {}"
    using put(1) by (simp add: keeps_def)
  have "write_fat_entry c v s = (Inr (), ?s')"
    using fs_write_ok [OF quiet, of "fat_entry_offset s c" "le_bytes 4 v"] regions(2,3,4) [OF geom assms(2)]
    by (simp add: write_fat_entry_def sx_simps)
  moreover have "vol_ready ?s'"
    using assms k put keeps_geometry [OF k] keeps_in_heap [OF k]
    by (auto simp: vol_ready_def cache_ok_def fc_get_update keeps_def split: if_splits)
  ultimately show ?thesis
    using k put(2) by (auto simp: put_disk_def)
qed

lemma read_cluster_ok: "vol_ready s \<Longrightarrow> in_heap s c \<Longrightarrow> read_cluster c s = (Inr (cluster_at s c), s)"
  using regions(4) [of s c] fs_read_ok [of s "cluster_to_offset s c" "cluster_size s"]
  by (simp add: read_cluster_def cluster_at_def vol_ready_def)

lemma length_cluster_at: "geometry_ok s \<Longrightarrow> in_heap s c \<Longrightarrow> length (cluster_at s c) = cluster_size s"
  using regions(4) [of s c] by (simp add: cluster_at_def)

lemma write_cluster_ok:
  assumes "vol_ready s" and "in_heap s c" and "length data \<le> cluster_size s"
  shows "\<exists>s'. write_cluster c data s = (Inr (), s') \<and> vol_ready s' \<and> keeps s s' {} {c} \<and>
    cluster_at s' c = data @ replicate (cluster_size s - length data) 0 \<and> bitmap_cache s' = bitmap_cache s"
proof -
  have geom: "geometry_ok s" and quiet: "dk_faults (fs_disk s) = []"
    using assms(1) by (simp_all add: vol_ready_def)
  let ?off = "cluster_to_offset s c"
  let ?pad = "replicate (cluster_size s - length data) (0 :: u8)"
  have len: "length (data @ ?pad) = cluster_size s"
    using assms(3) by simp
  note put = put_cluster_keeps [OF geom assms(2) len]
  note inside = regions(4) [OF geom assms(2)]
  have first: "fs_write ?off data s = (Inr (), put_disk ?off data s)"
    using inside assms(3) by (intro fs_write_ok quiet) simp
  have "put_disk (?off + length data) ?pad (put_disk ?off data s) = put_disk ?off (data @ ?pad) s"
    using inside assms(3) copy_slice_twice [of ?off data ?pad "dk_bytes (fs_disk s)"]
    by (simp add: put_disk_def)
  moreover have "fs_write (?off + length data) ?pad (put_disk ?off data s) =
      (Inr (), put_disk (?off + length data) ?pad (put_disk ?off data s))"
    using inside assms(3) quiet by (intro fs_write_ok) simp_all
  ultimately have "write_cluster c data s = (Inr (), put_disk ?off (data @ ?pad) s)"
    using first assms(3) by (auto simp: write_cluster_def sx_simps)
  moreover have "vol_ready (put_disk ?off (data @ ?pad) s)"
    by (rule vol_ready_keeps [OF put(1) _ assms(1)]) simp
  ultimately show ?thesis
    using put by auto
qed

section \<open>Bytes in chains\<close>

definition chain_data :: "ExfatFs \<Rightarrow> nat list \<Rightarrow> bytes" where
  "chain_data s cs = concat (map (cluster_at s) cs)"

lemma chain_data_simps [simp]:
  "chain_data s [] = []" "chain_data s (c # cs) = cluster_at s c @ chain_data s cs"
  "chain_data s (cs @ ds) = chain_data s cs @ chain_data s ds"
  by (simp_all add: chain_data_def)

lemma chain_data_cong: "(\<And>c. c \<in> set cs \<Longrightarrow> cluster_at s' c = cluster_at s c) \<Longrightarrow> chain_data s' cs = chain_data s cs"
  by (simp add: chain_data_def cong: map_cong)

lemma chain_data_keeps: "keeps s s' F C \<Longrightarrow> \<forall>c \<in> set cs. in_heap s c \<and> c \<notin> C \<Longrightarrow> chain_data s' cs = chain_data s cs"
  by (rule chain_data_cong) (auto simp: keeps_def)

lemma length_chain_data:
  "geometry_ok s \<Longrightarrow> \<forall>c \<in> set cs. in_heap s c \<Longrightarrow> length (chain_data s cs) = length cs * cluster_size s"
  by (induction cs) (simp_all add: length_cluster_at)

lemma collect_bytes_ok:
  assumes "vol_ready s" and "\<forall>c \<in> set cs. in_heap s c" and "length data < n"
  shows "collect_bytes n cs data s = (Inr (take n (data @ chain_data s cs)), s)"
  using assms(2,3)
  by (induction cs arbitrary: data) (use assms(1) in \<open>simp_all add: sx_simps read_cluster_ok Let_def\<close>)

lemma read_chain_bytes_ok:
  assumes "vol_ready s" and "is_chain s first cs" and "0 < n" and "n \<le> length cs * cluster_size s"
  shows "\<exists>s'. read_cluster_chain_bytes first n s = (Inr (take n (chain_data s cs)), s') \<and> recached s s'"
proof -
  obtain s1 where s1: "read_cluster_chain first s = (Inr cs, s1)" "recached s s1"
    using read_chain_ok [OF assms(1,2)] by blast
  have heap: "\<forall>c \<in> set cs. in_heap s c"
    using assms(2) by (simp add: is_chain_def)
  then have "\<forall>c \<in> set cs. in_heap s1 c"
    using in_heap_geo [OF recachedD(4) [OF s1(2)]] by simp
  moreover have "chain_data s1 cs = chain_data s cs"
    by (rule chain_data_cong) (rule recachedD(6) [OF s1(2)])
  ultimately have "collect_bytes n cs [] s1 = (Inr (take n (chain_data s cs)), s1)"
    using collect_bytes_ok [of s1 cs "[]" n] recachedD(1) [OF s1(2) assms(1)] assms(3) by simp
  moreover have "length (chain_data s cs) = length cs * cluster_size s"
    using length_chain_data [OF _ heap] assms(1) by (simp add: vol_ready_def)
  moreover have "cs \<noteq> []"
    using assms(2) by (simp add: is_chain_def)
  ultimately show ?thesis
    using s1 assms(4) by (simp add: read_cluster_chain_bytes_def sx_simps)
qed

lemma slice_of_split: "a \<le> b \<Longrightarrow> b \<le> c \<Longrightarrow> slice_of a b xs @ slice_of b c xs = slice_of a c xs"
proof -
  assume "a \<le> b" "b \<le> c"
  then have "c - a = (b - a) + (c - b)" "drop b xs = drop (b - a) (drop a xs)" by simp_all
  then show ?thesis by (simp only: slice_of_def take_add)
qed

lemma distribute_bytes_ok:
  assumes "vol_ready s" and "distinct cs" and "\<forall>c \<in> set cs. in_heap s c" and "w \<le> n" and "n \<le> length data"
    and "n - w \<le> length cs * cluster_size s"
  shows "\<exists>s'. distribute_bytes n data cs w s = (Inr n, s') \<and> vol_ready s' \<and> keeps s s' {} (set cs) \<and>
    take (n - w) (chain_data s' cs) = slice_of w n data \<and> bitmap_cache s' = bitmap_cache s"
  using assms
proof (induction cs arbitrary: w s)
  case Nil
  then show ?case by (auto simp: sx_simps slice_of_def)
next
  case (Cons c cs)
  have pos: "0 < cluster_size s" and geom: "geometry_ok s"
    using Cons.prems(1) by (simp_all add: vol_ready_def geometry_ok_def)
  show ?case
  proof (cases "w = n")
    case True
    then show ?thesis using Cons.prems(1) by (auto simp: Let_def slice_of_def)
  next
    case False
    define e where "e = min (w + cluster_size s) n"
    have e: "w < e" "e \<le> n" "e - w \<le> cluster_size s"
      using False Cons.prems(4) pos by (auto simp: e_def)
    let ?d = "slice_of w e data"
    have len: "length ?d = e - w"
      using e Cons.prems(5) by simp
    obtain s1 where s1: "write_cluster c ?d s = (Inr (), s1)" "vol_ready s1" "keeps s s1 {} {c}"
        "cluster_at s1 c = ?d @ replicate (cluster_size s - (e - w)) 0" "bitmap_cache s1 = bitmap_cache s"
      using write_cluster_ok [OF Cons.prems(1), of c ?d] Cons.prems(3) e(3) len by auto
    have cs1: "cluster_size s1 = cluster_size s" "\<forall>c \<in> set cs. in_heap s1 c"
      using s1(3) Cons.prems(3) keeps_in_heap [OF s1(3)] by (auto simp: keeps_def geo_def)
    have rest: "n - e \<le> length cs * cluster_size s1"
      using Cons.prems(6) cs1 by (auto simp: e_def)
    obtain s' where s': "distribute_bytes n data cs e s1 = (Inr n, s')" "vol_ready s'" "keeps s1 s' {} (set cs)"
        "take (n - e) (chain_data s' cs) = slice_of e n data" "bitmap_cache s' = bitmap_cache s1"
      using Cons.IH [OF s1(2) _ cs1(2) e(2) Cons.prems(5) rest] Cons.prems(2) by auto
    have "in_heap s1 c" "c \<notin> set cs"
      using Cons.prems(2,3) keeps_in_heap [OF s1(3)] by auto
    then have c: "cluster_at s' c = cluster_at s1 c"
      using s'(3) by (simp add: keeps_def)
    have "take (n - w) (chain_data s' (c # cs)) = slice_of w n data"
    proof (cases "e = n")
      case True
      then show ?thesis using c s1(4) len by simp
    next
      case False
      then have "e = w + cluster_size s" by (simp add: e_def)
      then have "take (n - w) (chain_data s' (c # cs)) = ?d @ take (n - e) (chain_data s' cs)"
        using c s1(4) len e(2) by simp
      then show ?thesis using s'(4) slice_of_split [of w e n data] e by simp
    qed
    moreover have "distribute_bytes n data (c # cs) w s = (Inr n, s')"
      using s1(1) s'(1) e False by (simp add: Let_def sx_simps e_def [symmetric])
    ultimately show ?thesis
      using s' s1(5) keeps_trans [OF s1(3) s'(3)] by auto
  qed
qed

section \<open>The bitmap on the disk and in the cache\<close>

text \<open>\<open>in_map\<close> says that the bitmap has a bit for the cluster.\<close>

definition in_map :: "bytes \<Rightarrow> nat \<Rightarrow> bool" where
  "in_map bm c \<longleftrightarrow> 2 \<le> c \<and> c < 2 ^ 32 \<and> (c - 2) div 8 < length bm"

lemma allocated_iff: "in_map bm c \<Longrightarrow> is_cluster_allocated bm c \<longleftrightarrow> bit (bm ! ((c - 2) div 8)) ((c - 2) mod 8)"
  by (auto simp: in_map_def is_cluster_allocated_def Let_def u32_sub_eq and_exp_eq_0_iff_not_bit)

lemma set_allocated_eq:
  "in_map bm c \<Longrightarrow> set_cluster_allocated c v bm =
     bm[(c - 2) div 8 := if v then bm ! ((c - 2) div 8) OR push_bit ((c - 2) mod 8) 1
                         else bm ! ((c - 2) div 8) AND NOT (push_bit ((c - 2) mod 8) 1)]"
  by (simp add: in_map_def set_cluster_allocated_def Let_def u32_sub_eq)

lemma length_set_allocated [simp]: "length (set_cluster_allocated c v bm) = length bm"
  by (simp add: set_cluster_allocated_def Let_def)

lemma in_map_set [simp]: "in_map (set_cluster_allocated c v bm) d = in_map bm d"
  by (simp add: in_map_def)

lemma same_bit: "2 \<le> c \<Longrightarrow> 2 \<le> d \<Longrightarrow> (c - 2) div 8 = (d - 2) div 8 \<Longrightarrow> (c - 2) mod 8 = (d - 2) mod 8 \<Longrightarrow> c = d"
  for c d :: nat
  by (metis div_mult_mod_eq le_add_diff_inverse)

lemma bit_marked:
  "m < 8 \<Longrightarrow> n < 8 \<Longrightarrow> bit (x OR push_bit n 1) m \<longleftrightarrow> m = n \<or> bit x m"
  "m < 8 \<Longrightarrow> n < 8 \<Longrightarrow> bit (x AND NOT (push_bit n 1)) m \<longleftrightarrow> m \<noteq> n \<and> bit x m" for x :: u8
  by (auto simp: bit_or_iff bit_and_iff bit_not_iff bit_push_bit_iff bit_1_iff simp del: push_bit_of_1)

lemma allocated_set:
  assumes "in_map bm c" and "in_map bm d"
  shows "is_cluster_allocated (set_cluster_allocated c v bm) d = (if d = c then v else is_cluster_allocated bm d)"
proof -
  have d: "in_map (set_cluster_allocated c v bm) d"
    using assms by simp
  have range: "(c - 2) div 8 < length bm" "2 \<le> c" "2 \<le> d"
    using assms by (simp_all add: in_map_def)
  have "is_cluster_allocated (set_cluster_allocated c v bm) d =
      (if (c - 2) div 8 = (d - 2) div 8 \<and> (c - 2) mod 8 = (d - 2) mod 8 then v else is_cluster_allocated bm d)"
    using bit_marked [of "(d - 2) mod 8" "(c - 2) mod 8" "bm ! ((c - 2) div 8)"] range(1)
    unfolding allocated_iff [OF d] allocated_iff [OF assms(2)]
    unfolding set_allocated_eq [OF assms(1)]
    by (cases v; cases "(c - 2) div 8 = (d - 2) div 8") (simp_all add: nth_list_update del: push_bit_of_1)
  then show ?thesis
    using same_bit [of c d] range(2,3) by auto
qed

definition set_all :: "bool \<Rightarrow> nat list \<Rightarrow> bytes \<Rightarrow> bytes" where
  "set_all v cs bm = fold (\<lambda>c. set_cluster_allocated c v) cs bm"

lemma length_set_all [simp]: "length (set_all v cs bm) = length bm"
  by (induction cs arbitrary: bm) (simp_all add: set_all_def)

lemma allocated_set_all:
  assumes "\<forall>c \<in> set cs. in_map bm c" and "in_map bm d"
  shows "is_cluster_allocated (set_all v cs bm) d = (if d \<in> set cs then v else is_cluster_allocated bm d)"
  using assms
proof (induction cs arbitrary: bm)
  case (Cons c cs)
  then show ?case
    using Cons.IH [of "set_cluster_allocated c v bm"] by (auto simp: set_all_def allocated_set)
qed (simp add: set_all_def)

lemma free_loop_eq:
  "length found < count \<Longrightarrow>
   free_loop bm count cs found = found @ take (count - length found) (filter (\<lambda>c. \<not> is_cluster_allocated bm c) cs)"
proof (induction cs arbitrary: found)
  case (Cons c cs)
  show ?case
  proof (cases "is_cluster_allocated bm c \<or> length found + 1 < count")
    case True
    then show ?thesis
      using Cons.IH [of found] Cons.IH [of "found @ [c]"] Cons.prems
      by (auto simp: Suc_diff_Suc [of "length found" count, symmetric])
  next
    case False
    then have "count - length found = 1" using Cons.prems by linarith
    then show ?thesis using False by simp
  qed
qed simp

text \<open>The bitmap's own chain \<open>bs\<close> is in order: long enough, allocated, and the cache agrees.\<close>

definition disk_bitmap :: "ExfatFs \<Rightarrow> nat list \<Rightarrow> bytes" where
  "disk_bitmap s bs = take (allocation_bitmap_size s) (chain_data s bs)"

definition bitmap_place :: "ExfatFs \<Rightarrow> nat list \<Rightarrow> bool" where
  "bitmap_place s bs \<longleftrightarrow> is_chain s (allocation_bitmap_first_cluster s) bs \<and>
     allocation_bitmap_size s \<le> length bs * cluster_size s \<and> cluster_count s \<le> 8 * allocation_bitmap_size s"

definition vol_ok :: "ExfatFs \<Rightarrow> nat list \<Rightarrow> bool" where
  "vol_ok s bs \<longleftrightarrow> vol_ready s \<and> bitmap_place s bs \<and>
     (\<forall>b. bitmap_cache s = Some b \<longrightarrow> b = disk_bitmap s bs) \<and>
     (\<forall>c \<in> set bs. is_cluster_allocated (disk_bitmap s bs) c)"

lemma bitmap_place_facts:
  assumes "vol_ready s" and "bitmap_place s bs"
  shows "0 < allocation_bitmap_size s" and "length (disk_bitmap s bs) = allocation_bitmap_size s"
    and "\<And>c b. in_heap s c \<Longrightarrow> length b = allocation_bitmap_size s \<Longrightarrow> in_map b c"
    and "\<forall>c \<in> set bs. in_heap s c" and "distinct bs" and "bs \<noteq> []"
proof -
  show pos: "0 < allocation_bitmap_size s"
    using assms by (auto simp: bitmap_place_def vol_ready_def geometry_ok_def)
  show heap: "\<forall>c \<in> set bs. in_heap s c" "distinct bs" "bs \<noteq> []"
    using assms(2) by (simp_all add: bitmap_place_def is_chain_def)
  have "length (chain_data s bs) = length bs * cluster_size s"
    by (rule length_chain_data) (use heap(1) assms(1) in \<open>simp_all add: vol_ready_def\<close>)
  then show "length (disk_bitmap s bs) = allocation_bitmap_size s"
    using assms(2) by (simp add: disk_bitmap_def bitmap_place_def)
  fix c and b :: bytes
  assume "in_heap s c" "length b = allocation_bitmap_size s"
  then have "(c - 2) < 8 * length b" "2 \<le> c" "c < 2 ^ 32"
    using assms by (auto simp: in_heap_def bitmap_place_def vol_ready_def geometry_ok_def)
  then show "in_map b c"
    by (simp add: in_map_def less_mult_imp_div_less)
qed

lemma load_bitmap_ok:
  assumes "vol_ready s" and "bitmap_place s bs"
  shows "\<exists>s'. load_bitmap s = (Inr (disk_bitmap s bs), s') \<and> recached s s'"
  using read_chain_bytes_ok [OF assms(1), of "allocation_bitmap_first_cluster s" bs "allocation_bitmap_size s"]
    bitmap_place_facts(1) [OF assms] assms(2)
  by (simp add: load_bitmap_def disk_bitmap_def bitmap_place_def)

lemma bitmap_place_geo: "geo s' = geo s \<Longrightarrow> is_chain s' (allocation_bitmap_first_cluster s) bs = is_chain s (allocation_bitmap_first_cluster s) bs
    \<Longrightarrow> bitmap_place s' bs = bitmap_place s bs"
  by (simp add: bitmap_place_def geo_def)

lemma bitmap_place_keeps:
  assumes "keeps s s' F C" and "bitmap_place s bs" and "set bs \<inter> F = {}"
  shows "bitmap_place s' bs"
proof -
  have g: "geo s' = geo s" using assms(1) by (simp add: keeps_def)
  have "is_chain s' (allocation_bitmap_first_cluster s) bs"
    using is_chain_keeps [OF assms(1) _ assms(3)] assms(2) by (simp add: bitmap_place_def)
  then show ?thesis using assms(2) g by (simp add: bitmap_place_def geo_def)
qed

lemma disk_bitmap_keeps:
  assumes "keeps s s' F C" and "\<forall>c \<in> set bs. in_heap s c \<and> c \<notin> C"
  shows "disk_bitmap s' bs = disk_bitmap s bs"
  using chain_data_keeps [OF assms] assms(1) by (simp add: disk_bitmap_def keeps_def geo_def)

text \<open>A volume with other changes in its caches only.\<close>

lemma with_bitmap [simp]:
  "geo (s\<lparr>bitmap_cache := b\<rparr>) = geo s" "fat_at (s\<lparr>bitmap_cache := b\<rparr>) c = fat_at s c"
  "cluster_at (s\<lparr>bitmap_cache := b\<rparr>) c = cluster_at s c" "boot_bytes (s\<lparr>bitmap_cache := b\<rparr>) = boot_bytes s"
  "geometry_ok (s\<lparr>bitmap_cache := b\<rparr>) = geometry_ok s" "in_heap (s\<lparr>bitmap_cache := b\<rparr>) c = in_heap s c"
  "keeps s' (s\<lparr>bitmap_cache := b\<rparr>) F C = keeps s' s F C" "keeps (s\<lparr>bitmap_cache := b\<rparr>) s' F C = keeps s s' F C"
  "vol_ready (s\<lparr>bitmap_cache := b\<rparr>) = vol_ready s" "disk_bitmap (s\<lparr>bitmap_cache := b\<rparr>) bs = disk_bitmap s bs"
  "bitmap_place (s\<lparr>bitmap_cache := b\<rparr>) bs = bitmap_place s bs"
proof -
  show *: "geo (s\<lparr>bitmap_cache := b\<rparr>) = geo s" "fat_at (s\<lparr>bitmap_cache := b\<rparr>) c = fat_at s c"
    "cluster_at (s\<lparr>bitmap_cache := b\<rparr>) c = cluster_at s c" "boot_bytes (s\<lparr>bitmap_cache := b\<rparr>) = boot_bytes s"
    "geometry_ok (s\<lparr>bitmap_cache := b\<rparr>) = geometry_ok s" "in_heap (s\<lparr>bitmap_cache := b\<rparr>) c = in_heap s c" for c
    by (simp_all add: geo_def fat_at_def fat_entry_offset_def cluster_at_def cluster_to_offset_def boot_bytes_def
      geometry_ok_def heap_start_def in_heap_def)
  then show "keeps s' (s\<lparr>bitmap_cache := b\<rparr>) F C = keeps s' s F C" "keeps (s\<lparr>bitmap_cache := b\<rparr>) s' F C = keeps s s' F C"
    "vol_ready (s\<lparr>bitmap_cache := b\<rparr>) = vol_ready s"
    by (simp_all add: keeps_def vol_ready_def cache_ok_def)
  show "disk_bitmap (s\<lparr>bitmap_cache := b\<rparr>) bs = disk_bitmap s bs"
    using chain_data_cong [of bs "s\<lparr>bitmap_cache := b\<rparr>" s] * by (simp add: disk_bitmap_def)
  show "bitmap_place (s\<lparr>bitmap_cache := b\<rparr>) bs = bitmap_place s bs"
    using bitmap_place_geo [of "s\<lparr>bitmap_cache := b\<rparr>" s bs] is_chain_cong [of "s\<lparr>bitmap_cache := b\<rparr>" s bs] * by simp
qed

lemma flush_bitmap_ok:
  assumes "vol_ready s" and "bitmap_place s bs" and "bitmap_cache s = Some b" and "length b = allocation_bitmap_size s"
  shows "\<exists>s'. flush_bitmap_now s = (Inr (), s') \<and> vol_ready s' \<and> keeps s s' {} (set bs) \<and>
    disk_bitmap s' bs = b \<and> bitmap_cache s' = Some b \<and> bitmap_place s' bs"
proof -
  let ?s = "s\<lparr>bitmap_cache := None\<rparr>"
  note place = bitmap_place_facts [OF assms(1,2)]
  obtain s1 where s1: "read_cluster_chain (allocation_bitmap_first_cluster s) ?s = (Inr bs, s1)" "recached ?s s1"
    using read_chain_ok [of ?s "allocation_bitmap_first_cluster s" bs] assms(1,2) is_chain_cong [of ?s s bs]
    by (auto simp: bitmap_place_def)
  have k1: "keeps s s1 {} {}" "vol_ready s1"
    using recachedD(1,2) [OF s1(2)] assms(1) by simp_all
  have geo1: "cluster_size s1 = cluster_size s" "allocation_bitmap_size s1 = allocation_bitmap_size s"
    using k1(1) by (simp_all add: keeps_def geo_def)
  have "\<forall>c \<in> set bs. in_heap s1 c"
    using place(4) keeps_in_heap [OF k1(1)] by simp
  moreover have "allocation_bitmap_size s \<le> length bs * cluster_size s1"
    using assms(2) geo1 by (simp add: bitmap_place_def)
  ultimately obtain s2 where s2: "distribute_bytes (allocation_bitmap_size s) b bs 0 s1 = (Inr (allocation_bitmap_size s), s2)"
      "vol_ready s2" "keeps s1 s2 {} (set bs)" "take (allocation_bitmap_size s) (chain_data s2 bs) = b"
    using distribute_bytes_ok [OF k1(2) place(5), of 0 "allocation_bitmap_size s" b] assms(4)
    by (auto simp: slice_of_def)
  have k2: "keeps s s2 {} (set bs)"
    using keeps_trans [OF k1(1) s2(3)] by simp
  let ?s' = "s2\<lparr>bitmap_cache := Some b\<rparr>"
  have "flush_bitmap_now s = (Inr (), ?s')"
    using assms(3,4) s1(1) s2(1) place(6)
    by (simp add: flush_bitmap_now_def write_cluster_chain_bytes_def sx_simps)
  moreover have "allocation_bitmap_size s2 = allocation_bitmap_size s"
    using k2 by (simp add: keeps_def geo_def)
  then have "disk_bitmap ?s' bs = b"
    using s2(4) by (simp add: disk_bitmap_def [of s2])
  moreover have "bitmap_place ?s' bs"
    using bitmap_place_keeps [OF k2 assms(2)] by simp
  ultimately show ?thesis
    using s2(2) k2 by auto
qed

section \<open>Allocating and freeing\<close>

lemma vol_ok_cached:
  assumes "vol_ok s bs" and "recached s s'"
  shows "vol_ok (s'\<lparr>bitmap_cache := Some (disk_bitmap s bs)\<rparr>) bs" and "disk_bitmap s' bs = disk_bitmap s bs"
    and "keeps s s' {} {}" and "vol_ok s' bs"
proof -
  show k: "keeps s s' {} {}"
    using recachedD(2) [OF assms(2)] .
  have ready: "vol_ready s" "bitmap_place s bs"
    using assms(1) by (simp_all add: vol_ok_def)
  show d: "disk_bitmap s' bs = disk_bitmap s bs"
    using disk_bitmap_keeps [OF k] bitmap_place_facts(4) [OF ready] by simp
  have p: "bitmap_place s' bs"
    using bitmap_place_keeps [OF k ready(2)] by simp
  show "vol_ok (s'\<lparr>bitmap_cache := Some (disk_bitmap s bs)\<rparr>) bs"
    using assms(1) recachedD(1) [OF assms(2) ready(1)] p d by (simp add: vol_ok_def)
  show "vol_ok s' bs"
    using assms(1) recachedD(1) [OF assms(2) ready(1)] recachedD(3) [OF assms(2)] p d by (simp add: vol_ok_def)
qed

lemma read_bitmap_ok:
  assumes "vol_ok s bs"
  shows "\<exists>s'. read_bitmap s = (Inr (disk_bitmap s bs), s') \<and> vol_ok s' bs \<and> keeps s s' {} {} \<and>
    disk_bitmap s' bs = disk_bitmap s bs"
proof (cases "bitmap_cache s")
  case None
  obtain s1 where "load_bitmap s = (Inr (disk_bitmap s bs), s1)" "recached s s1"
    using load_bitmap_ok [of s bs] assms unfolding vol_ok_def by blast
  then show ?thesis
    using vol_ok_cached [OF assms] None by (auto simp: read_bitmap_def sx_simps)
next
  case (Some b)
  then show ?thesis
    using assms by (auto simp: read_bitmap_def vol_ok_def)
qed

text \<open>Changing the bitmap and writing it out.\<close>

lemma change_bitmap_ok:
  assumes "vol_ok s bs" and "\<And>b. length (change b) = length b"
  shows "\<exists>s'. sx_bind (get_bitmap_mut change) (\<lambda>_. flush_bitmap_now) s = (Inr (), s') \<and> vol_ready s' \<and> bitmap_place s' bs \<and>
    keeps s s' {} (set bs) \<and> disk_bitmap s' bs = change (disk_bitmap s bs) \<and>
    bitmap_cache s' = Some (change (disk_bitmap s bs))"
proof -
  have ready: "vol_ready s" "bitmap_place s bs"
    using assms(1) by (simp_all add: vol_ok_def)
  have "\<exists>s1. get_bitmap_mut change s = (Inr (), s1) \<and> vol_ready s1 \<and> bitmap_place s1 bs \<and> keeps s s1 {} {} \<and>
      bitmap_cache s1 = Some (change (disk_bitmap s bs))"
  proof (cases "bitmap_cache s")
    case None
    obtain s1 where s1: "load_bitmap s = (Inr (disk_bitmap s bs), s1)" "recached s s1"
      using load_bitmap_ok [OF ready] by blast
    then show ?thesis
      using None recachedD(1,2) [OF s1(2)] ready bitmap_place_keeps [OF recachedD(2) [OF s1(2)] ready(2)]
      by (auto simp: get_bitmap_mut_def sx_simps)
  next
    case (Some b)
    then show ?thesis
      using assms(1) ready by (auto simp: get_bitmap_mut_def sx_simps vol_ok_def)
  qed
  then obtain s1 where s1: "get_bitmap_mut change s = (Inr (), s1)" "vol_ready s1" "bitmap_place s1 bs" "keeps s s1 {} {}"
      "bitmap_cache s1 = Some (change (disk_bitmap s bs))"
    by blast
  have "length (change (disk_bitmap s bs)) = allocation_bitmap_size s1"
    using bitmap_place_facts(2) [OF ready] assms(2) s1(4) by (simp add: keeps_def geo_def)
  from flush_bitmap_ok [OF s1(2,3,5) this] s1(1) keeps_trans [OF s1(4)] show ?thesis
    by (fastforce simp: sx_simps)
qed

lemma write_links_ok:
  assumes "vol_ready s" and "distinct cs" and "\<forall>c \<in> set cs. in_heap s c" and "cs \<noteq> []"
  shows "\<exists>s'. write_links cs s = (Inr (), s') \<and> vol_ready s' \<and> keeps s s' (set cs) {} \<and> is_chain s' (hd cs) cs \<and>
    bitmap_cache s' = bitmap_cache s"
  using assms
proof (induction cs arbitrary: s)
  case (Cons c cs)
  define v where "v = (case cs of [] \<Rightarrow> FAT_ENTRY_END_OF_CHAIN | n # _ \<Rightarrow> n)"
  have "cluster_count s + 2 < 2 ^ 32"
    using Cons.prems(1) by (simp add: vol_ready_def geometry_ok_def)
  then have v: "v < 2 ^ 32"
    using Cons.prems(3) by (auto simp: v_def FAT_ENTRY_END_OF_CHAIN_def in_heap_def split: list.splits)
  obtain s1 where s1: "write_fat_entry c v s = (Inr (), s1)" "vol_ready s1" "keeps s s1 {c} {}" "fat_at s1 c = v"
      "bitmap_cache s1 = bitmap_cache s"
    using write_fat_entry_ok [OF Cons.prems(1) _ v] Cons.prems(3) by auto
  have heap1: "\<forall>d \<in> set (c # cs). in_heap s1 d"
    using Cons.prems(3) keeps_in_heap [OF s1(3)] by simp
  show ?case
  proof (cases cs)
    case Nil
    then show ?thesis
      using s1 heap1 by (auto simp: sx_simps v_def is_chain_def)
  next
    case (Cons d ds)
    obtain s2 where s2: "write_links cs s1 = (Inr (), s2)" "vol_ready s2" "keeps s1 s2 (set cs) {}" "is_chain s2 (hd cs) cs"
        "bitmap_cache s2 = bitmap_cache s1"
      using Cons.IH [OF s1(2)] Cons.prems(2) heap1 Cons by auto
    have "fat_at s2 c = hd cs"
      using s2(3) heap1 Cons.prems(2) s1(4) Cons by (simp add: keeps_def v_def)
    then have "is_chain s2 c (c # cs)"
      using s2(4) heap1 Cons.prems(2) keeps_in_heap [OF s2(3)] by (simp add: is_chain_def)
    moreover have "write_links (c # cs) s = (Inr (), s2)"
      using s1(1) s2(1) by (simp add: sx_simps v_def)
    ultimately show ?thesis
      using s2 s1(5) keeps_trans [OF s1(3) s2(3)] by auto
  qed
qed simp

definition free_list :: "ExfatFs \<Rightarrow> nat list \<Rightarrow> nat list" where
  "free_list s bs = filter (\<lambda>c. \<not> is_cluster_allocated (disk_bitmap s bs) c) [2..<cluster_count s + 2]"

lemma free_list_facts: "distinct (free_list s bs)" "c \<in> set (free_list s bs) \<longleftrightarrow> in_heap s c \<and> \<not> is_cluster_allocated (disk_bitmap s bs) c"
  by (auto simp: free_list_def in_heap_def)

lemma find_free_ok:
  assumes "vol_ok s bs" and "0 < n"
  shows "\<exists>s'. find_free_clusters n s =
      (if n \<le> length (free_list s bs) then Inr (take n (free_list s bs))
       else Inl (FilesystemError ''Not enough free space: need {} clusters, found {}'' [] [n, length (free_list s bs)]), s') \<and>
    vol_ok s' bs \<and> keeps s s' {} {} \<and> disk_bitmap s' bs = disk_bitmap s bs"
proof -
  obtain s' where s': "read_bitmap s = (Inr (disk_bitmap s bs), s')" "vol_ok s' bs" "keeps s s' {} {}"
      "disk_bitmap s' bs = disk_bitmap s bs"
    using read_bitmap_ok [OF assms(1)] by blast
  have "cluster_count s' = cluster_count s"
    using s'(3) by (simp add: keeps_def geo_def)
  then have "free_loop (disk_bitmap s bs) n [2..<cluster_count s' + 2] [] = take n (free_list s bs)"
    using free_loop_eq [of "[]" n] assms(2) by (simp add: free_list_def)
  then show ?thesis
    using s' by (auto simp: find_free_clusters_def sx_simps Let_def min_def)
qed

lemma allocate_ok:
  assumes "vol_ok s bs" and "0 < n" and "n \<le> length (free_list s bs)" and "cs = take n (free_list s bs)"
  shows "\<exists>s'. allocate_clusters n s = (Inr (hd cs), s') \<and> vol_ok s' bs \<and> keeps s s' (set cs) (set bs) \<and>
    is_chain s' (hd cs) cs \<and>
    (\<forall>c. in_heap s c \<longrightarrow> is_cluster_allocated (disk_bitmap s' bs) c = (c \<in> set cs \<or> is_cluster_allocated (disk_bitmap s bs) c))"
proof -
  have cs: "distinct cs" "\<And>c. c \<in> set cs \<Longrightarrow> in_heap s c \<and> \<not> is_cluster_allocated (disk_bitmap s bs) c" "cs \<noteq> []"
    using assms(2-4) free_list_facts(1) [of s bs] free_list_facts(2) [of _ s bs] by (auto dest: in_set_takeD)
  obtain s1 where s1: "find_free_clusters n s = (Inr cs, s1)" "vol_ok s1 bs" "keeps s s1 {} {}"
      "disk_bitmap s1 bs = disk_bitmap s bs"
    using find_free_ok [OF assms(1,2)] assms(3,4) by auto
  define mark where "mark = fold (\<lambda>c. set_cluster_allocated c True) cs"
  have mark: "mark b = set_all True cs b" for b
    by (simp add: mark_def set_all_def)
  obtain s2 where s2: "sx_bind (get_bitmap_mut mark) (\<lambda>_. flush_bitmap_now) s1 = (Inr (), s2)" "vol_ready s2" "bitmap_place s2 bs"
      "keeps s1 s2 {} (set bs)" "disk_bitmap s2 bs = mark (disk_bitmap s bs)" "bitmap_cache s2 = Some (mark (disk_bitmap s bs))"
    using change_bitmap_ok [OF s1(2), of mark] s1(4) mark by auto
  have k2: "keeps s s2 {} (set bs)"
    using keeps_trans [OF s1(3) s2(4)] by simp
  obtain s3 where s3: "write_links cs s2 = (Inr (), s3)" "vol_ready s3" "keeps s2 s3 (set cs) {}" "is_chain s3 (hd cs) cs"
      "bitmap_cache s3 = bitmap_cache s2"
    using write_links_ok [OF s2(2) cs(1) _ cs(3)] cs(2) keeps_in_heap [OF k2] by auto
  have k3: "keeps s s3 (set cs) (set bs)"
    using keeps_trans [OF k2 s3(3)] by simp
  have ready: "vol_ready s" "bitmap_place s bs"
    using assms(1) by (simp_all add: vol_ok_def)
  note place = bitmap_place_facts [OF ready]
  have apart: "set bs \<inter> set cs = {}"
    using assms(1) cs(2) by (auto simp: vol_ok_def)
  have d3: "disk_bitmap s3 bs = set_all True cs (disk_bitmap s bs)"
    using disk_bitmap_keeps [OF s3(3), of bs] place(4) keeps_in_heap [OF k2] s2(5) mark by simp
  have alloc: "is_cluster_allocated (disk_bitmap s3 bs) c = (c \<in> set cs \<or> is_cluster_allocated (disk_bitmap s bs) c)"
    if "in_heap s c" for c
    using allocated_set_all [of cs "disk_bitmap s bs" c True] place(2,3) cs(2) that d3 by auto
  have "vol_ok s3 bs"
    using s3(2,5) bitmap_place_keeps [OF s3(3) s2(3) apart] s2(6) d3 mark alloc assms(1) place(4)
    by (auto simp: vol_ok_def)
  moreover have "allocate_clusters n s = (Inr (hd cs), s3)"
    using assms(2) s1(1) s2(1) s3(1) unfolding mark_def
    by (auto simp: allocate_clusters_def sx_simps split: prod.splits sum.splits)
  ultimately show ?thesis
    using k3 s3(4) alloc by blast
qed

lemma clear_links_ok:
  assumes "vol_ready s" and "\<forall>c \<in> set cs. in_heap s c"
  shows "\<exists>s'. clear_links cs s = (Inr (), s') \<and> vol_ready s' \<and> keeps s s' (set cs) {} \<and> bitmap_cache s' = bitmap_cache s"
  using assms
proof (induction cs arbitrary: s)
  case Nil
  then show ?case by (auto simp: sx_simps)
next
  case (Cons c cs)
  obtain s1 where s1: "write_fat_entry c FAT_ENTRY_FREE s = (Inr (), s1)" "vol_ready s1" "keeps s s1 {c} {}"
      "bitmap_cache s1 = bitmap_cache s"
    using write_fat_entry_ok [OF Cons.prems(1), of c FAT_ENTRY_FREE] Cons.prems(2) by (auto simp: FAT_ENTRY_FREE_def)
  have "\<forall>c \<in> set cs. in_heap s1 c"
    using Cons.prems(2) keeps_in_heap [OF s1(3)] by simp
  from Cons.IH [OF s1(2) this] s1 keeps_trans [OF s1(3)] show ?case
    by (fastforce simp: sx_simps)
qed

lemma free_ok:
  assumes "vol_ok s bs" and "\<forall>c \<in> set cs. in_heap s c" and "set cs \<inter> set bs = {}"
  shows "\<exists>s'. free_clusters cs clear s = (Inr (), s') \<and> vol_ok s' bs \<and> keeps s s' (if clear then set cs else {}) (set bs) \<and>
    (\<forall>c. in_heap s c \<longrightarrow> is_cluster_allocated (disk_bitmap s' bs) c = (c \<notin> set cs \<and> is_cluster_allocated (disk_bitmap s bs) c))"
proof (cases "cs = []")
  case True
  then show ?thesis using assms(1) by (auto simp: free_clusters_def sx_simps)
next
  case False
  define mark where "mark = fold (\<lambda>c. set_cluster_allocated c False) cs"
  have mark: "mark b = set_all False cs b" for b
    by (simp add: mark_def set_all_def)
  obtain s2 where s2: "sx_bind (get_bitmap_mut mark) (\<lambda>_. flush_bitmap_now) s = (Inr (), s2)" "vol_ready s2" "bitmap_place s2 bs"
      "keeps s s2 {} (set bs)" "disk_bitmap s2 bs = mark (disk_bitmap s bs)" "bitmap_cache s2 = Some (mark (disk_bitmap s bs))"
    using change_bitmap_ok [OF assms(1), of mark] mark by auto
  have heap2: "\<forall>c \<in> set cs. in_heap s2 c"
    using assms(2) keeps_in_heap [OF s2(4)] by simp
  have "\<exists>s3. (if clear then clear_links cs else sx_return ()) s2 = (Inr (), s3) \<and> vol_ready s3 \<and>
      keeps s2 s3 (if clear then set cs else {}) {} \<and> bitmap_cache s3 = bitmap_cache s2"
    using clear_links_ok [OF s2(2) heap2] s2(2) by (cases clear) (auto simp: sx_simps)
  then obtain s3 where s3: "(if clear then clear_links cs else sx_return ()) s2 = (Inr (), s3)" "vol_ready s3"
      "keeps s2 s3 (if clear then set cs else {}) {}" "bitmap_cache s3 = bitmap_cache s2"
    by blast
  have ready: "vol_ready s" "bitmap_place s bs"
    using assms(1) by (simp_all add: vol_ok_def)
  note place = bitmap_place_facts [OF ready]
  have d3: "disk_bitmap s3 bs = set_all False cs (disk_bitmap s bs)"
    using disk_bitmap_keeps [OF s3(3), of bs] place(4) keeps_in_heap [OF s2(4)] s2(5) mark by simp
  have alloc: "is_cluster_allocated (disk_bitmap s3 bs) c = (c \<notin> set cs \<and> is_cluster_allocated (disk_bitmap s bs) c)"
    if "in_heap s c" for c
    using allocated_set_all [of cs "disk_bitmap s bs" c False] place(2,3) assms(2) that d3 by auto
  have "bitmap_place s3 bs"
    by (rule bitmap_place_keeps [OF s3(3) s2(3)]) (use assms(3) in auto)
  then have "vol_ok s3 bs"
    using s3(2,4) s2(6) d3 mark alloc assms(1,3) place(4)
    by (auto simp: vol_ok_def)
  moreover have "free_clusters cs clear s = (Inr (), s3)"
    using False s2(1) s3(1) unfolding mark_def
    by (auto simp: free_clusters_def sx_simps split: prod.splits sum.splits)
  ultimately show ?thesis
    using keeps_trans [OF s2(4) s3(3)] alloc by auto
qed

section \<open>Transactions on a sound volume\<close>

definition flags_of :: "ExfatFs \<Rightarrow> u16" where
  "flags_of s = of_nat (le_val (slice_of 106 108 (boot_bytes s)))"

definition dirty :: "ExfatFs \<Rightarrow> bool" where
  "dirty s \<longleftrightarrow> flags_of s AND VOLUME_DIRTY_FLAG \<noteq> 0"

lemma boot_fits: "geometry_ok s \<Longrightarrow> partition_offset s + 512 \<le> length (dk_bytes (fs_disk s))"
  using regions(1,2) [of s 2] by (simp add: in_heap_def geometry_ok_def)

lemma read_flags_ok: "vol_ready s \<Longrightarrow> read_volume_flags s = (Inr (flags_of s), s)"
  using boot_fits [of s]
  by (simp add: read_volume_flags_def fs_read_ok vol_ready_def volume_flags_offset_def VOLUME_FLAGS_OFFSET_def sx_simps
      flags_of_def boot_bytes_def slice_of_def drop_take add.commute)

lemma vol_ready_boot:
  assumes "keeps s s' {0} C" and "fat_cache s' = fat_cache s" and "vol_ready s"
  shows "vol_ready s'"
proof -
  have "c \<noteq> 0" if "in_heap s c" for c using that by (auto simp: in_heap_def)
  then show ?thesis using assms keeps_geometry [OF assms(1)] keeps_in_heap [OF assms(1)]
    by (auto simp: vol_ready_def cache_ok_def keeps_def)
qed

text \<open>What another state must agree on for the volume to stay sound.\<close>

lemma vol_ok_keeps:
  assumes "keeps s s' F C" and "vol_ready s'" and "bitmap_cache s' = bitmap_cache s" and "vol_ok s bs"
    and "set bs \<inter> F = {}" and "set bs \<inter> C = {}"
  shows "vol_ok s' bs" and "disk_bitmap s' bs = disk_bitmap s bs" and "free_list s' bs = free_list s bs"
proof -
  have bs: "\<forall>c \<in> set bs. in_heap s c" using assms(4) by (simp add: vol_ok_def bitmap_place_def is_chain_def)
  show d: "disk_bitmap s' bs = disk_bitmap s bs" using disk_bitmap_keeps [OF assms(1)] bs assms(6) by blast
  show "vol_ok s' bs" using assms bitmap_place_keeps [OF assms(1)] d by (simp add: vol_ok_def)
  show "free_list s' bs = free_list s bs" using d assms(1) by (simp add: free_list_def keeps_def geo_def)
qed

lemma put_flags:
  assumes "vol_ready s" and "length bs = 2"
  shows "fs_write (volume_flags_offset s) bs s = (Inr (), put_disk (volume_flags_offset s) bs s)"
    and "keeps s (put_disk (volume_flags_offset s) bs s) {0} {}"
    and "boot_bytes (put_disk (volume_flags_offset s) bs s) = copy_slice 106 bs (boot_bytes s)"
proof -
  have g: "geometry_ok s" "dk_faults (fs_disk s) = []" using assms(1) by (simp_all add: vol_ready_def)
  let ?o = "partition_offset s + 106"
  have fit: "?o + length bs \<le> length (dk_bytes (fs_disk s))" using boot_fits [OF g(1)] assms(2) by simp
  have o: "volume_flags_offset s = ?o" by (simp add: volume_flags_offset_def VOLUME_FLAGS_OFFSET_def)
  show "fs_write (volume_flags_offset s) bs s = (Inr (), put_disk (volume_flags_offset s) bs s)"
    using fs_write_ok g fit o by simp
  have after: "slice_of a b (copy_slice ?o bs (dk_bytes (fs_disk s))) = slice_of a b (dk_bytes (fs_disk s))"
    if "partition_offset s + 512 \<le> a" for a b
    by (rule slice_copy_after) (use that assms(2) fit in simp_all)
  have fat: "fat_at (put_disk ?o bs s) c = fat_at s c" if "in_heap s c" for c
    using regions(1) [OF g(1) that] after by (simp add: fat_at_def)
  have clu: "cluster_at (put_disk ?o bs s) c = cluster_at s c" if "in_heap s c" for c
    using regions(1,2,3) [OF g(1) that] after by (simp add: cluster_at_def)
  show "keeps s (put_disk (volume_flags_offset s) bs s) {0} {}"
    unfolding o using fat clu fit by (simp add: keeps_def)
  show "boot_bytes (put_disk (volume_flags_offset s) bs s) = copy_slice 106 bs (boot_bytes s)"
    unfolding o using fit boot_fits [OF g(1)] assms(2)
    by (simp add: boot_bytes_def copy_slice_def slice_of_def drop_take)
qed

lemma dirty_bit: "(f OR VOLUME_DIRTY_FLAG) AND VOLUME_DIRTY_FLAG \<noteq> 0" "(f AND NOT VOLUME_DIRTY_FLAG) AND VOLUME_DIRTY_FLAG = 0"
proof -
  have "bit ((f OR VOLUME_DIRTY_FLAG) AND VOLUME_DIRTY_FLAG) 1"
    by (simp add: VOLUME_DIRTY_FLAG_def bit_and_iff bit_or_iff)
  then show "(f OR VOLUME_DIRTY_FLAG) AND VOLUME_DIRTY_FLAG \<noteq> 0" by (metis bit_0_eq bot_apply bot_bool_def)
  show "(f AND NOT VOLUME_DIRTY_FLAG) AND VOLUME_DIRTY_FLAG = 0" by (simp add: and.assoc)
qed

lemma set_dirty_ok:
  assumes "vol_ready s"
  shows "\<exists>s'. set_volume_dirty d s = (Inr (), s') \<and> vol_ready s' \<and> keeps s s' {0} {} \<and> bitmap_cache s' = bitmap_cache s \<and> dirty s' = d"
proof -
  let ?f = "if d then flags_of s OR VOLUME_DIRTY_FLAG else flags_of s AND NOT VOLUME_DIRTY_FLAG"
  let ?bs = "le_bytes 2 (unat ?f)" and ?o = "volume_flags_offset s"
  note w = put_flags [OF assms, of ?bs]
  have g: "geometry_ok s" using assms by (simp add: vol_ready_def)
  have "set_volume_dirty d s = (Inr (), put_disk ?o ?bs s)"
    using w(1) read_flags_ok [OF assms] by (simp add: set_volume_dirty_def sx_simps Let_def)
  moreover have "vol_ready (put_disk ?o ?bs s)" using vol_ready_boot [OF w(2) _ assms] by simp
  moreover have "dirty (put_disk ?o ?bs s) = d"
  proof -
    have "slice_of 106 (106 + length ?bs) (copy_slice 106 ?bs (boot_bytes s)) = ?bs"
      by (rule slice_copy_same) (use boot_fits [OF g] in \<open>simp add: boot_bytes_def\<close>)
    then have "flags_of (put_disk ?o ?bs s) = ?f" using w(3) by (simp add: flags_of_def word_of_le_bytes)
    then show ?thesis using dirty_bit [of "flags_of s"] by (simp add: dirty_def)
  qed
  ultimately show ?thesis using w(2) by (intro exI [of _ "put_disk ?o ?bs s"]) simp
qed

text \<open>A transaction runs its body on the volume marked dirty; the mark goes again only when the body succeeds.\<close>

lemma transaction_ok:
  assumes "vol_ready s"
  obtains s1 where "vol_ready s1" "keeps s s1 {0} {}" "bitmap_cache s1 = bitmap_cache s" "dirty s1"
    "\<And>(body :: 'a fx) e s2. body s1 = (Inl e, s2) \<Longrightarrow> transaction body s = (Inl e, s2)"
    "\<And>(body :: 'a fx) v s2. body s1 = (Inr v, s2) \<Longrightarrow> vol_ready s2 \<Longrightarrow>
      \<exists>s3. transaction body s = (Inr v, s3) \<and> vol_ready s3 \<and> keeps s2 s3 {0} {} \<and> bitmap_cache s3 = bitmap_cache s2 \<and>
        (dirty s2 \<longrightarrow> dirty s3 = dirty s)"
proof (cases "dirty s")
  case True
  then have b: "begin_write_transaction s = (Inr True, s)"
    using read_flags_ok [OF assms] by (simp add: begin_write_transaction_def is_volume_dirty_def dirty_def sx_simps)
  show thesis
    by (rule that [of s]) (use True assms in \<open>simp_all add: transaction_def finish_write_transaction_def b sx_simps\<close>)
next
  case False
  obtain s1 where s1: "set_volume_dirty True s = (Inr (), s1)" "vol_ready s1" "keeps s s1 {0} {}"
    "bitmap_cache s1 = bitmap_cache s" "dirty s1"
    using set_dirty_ok [OF assms, of True] by auto
  then have b: "begin_write_transaction s = (Inr False, s1)"
    using False read_flags_ok [OF assms] by (simp add: begin_write_transaction_def is_volume_dirty_def dirty_def sx_simps)
  show thesis
  proof (rule that [of s1])
    fix body :: "'a fx" and v s2
    assume r: "body s1 = (Inr v, s2)" and "vol_ready s2"
    obtain s3 where "set_volume_dirty False s2 = (Inr (), s3)" "vol_ready s3" "keeps s2 s3 {0} {}"
      "bitmap_cache s3 = bitmap_cache s2" "\<not> dirty s3"
      using set_dirty_ok [OF \<open>vol_ready s2\<close>, of False] by auto
    then show "\<exists>s3. transaction body s = (Inr v, s3) \<and> vol_ready s3 \<and> keeps s2 s3 {0} {} \<and> bitmap_cache s3 = bitmap_cache s2 \<and>
        (dirty s2 \<longrightarrow> dirty s3 = dirty s)"
      using r False by (simp add: transaction_def finish_write_transaction_def b sx_simps)
  qed (use s1 in \<open>simp_all add: transaction_def finish_write_transaction_def b sx_simps\<close>)
qed

end
