(* ===== verification/ExfatEntries.thy ===== *)
theory ExfatEntries
  imports ExfatVolume "HOL-Library.Sublist"
begin

text \<open>
  Names and directory entries of the exFAT library (\<open>exfat/unicode.rs\<close> and the entry functions of
  \<open>exfat/ops.rs\<close> in \<open>libs/ventoy-img-rs/src\<close>): the simple upper-case table and the name hash,
  UTF-16, the entry set of a file with its checksum, and how a reader takes an entry set apart.
  A name is the list of its Unicode scalar values; UTF-16 code units are \<open>u16\<close> words.
\<close>

unbundle bit_operations_syntax

section \<open>Unicode\<close>

definition upcase_pairs :: "(u16 \<times> u16) list" where
  "upcase_pairs =
     [(0x0101, 0x0100), (0x0103, 0x0102), (0x0105, 0x0104), (0x0107, 0x0106), (0x0109, 0x0108),
      (0x010B, 0x010A), (0x010D, 0x010C), (0x010F, 0x010E), (0x0111, 0x0110), (0x0113, 0x0112),
      (0x0115, 0x0114), (0x0117, 0x0116), (0x0119, 0x0118), (0x011B, 0x011A), (0x011D, 0x011C),
      (0x011F, 0x011E), (0x0121, 0x0120), (0x0123, 0x0122), (0x0125, 0x0124), (0x0127, 0x0126),
      (0x0129, 0x0128), (0x012B, 0x012A), (0x012D, 0x012C), (0x012F, 0x012E), (0x0131, 0x0049),
      (0x0133, 0x0132), (0x0135, 0x0134), (0x0137, 0x0136), (0x013A, 0x0139), (0x013C, 0x013B),
      (0x013E, 0x013D), (0x0140, 0x013F), (0x0142, 0x0141), (0x0144, 0x0143), (0x0146, 0x0145),
      (0x0148, 0x0147), (0x014B, 0x014A), (0x014D, 0x014C), (0x014F, 0x014E), (0x0151, 0x0150),
      (0x0153, 0x0152), (0x0155, 0x0154), (0x0157, 0x0156), (0x0159, 0x0158), (0x015B, 0x015A),
      (0x015D, 0x015C), (0x015F, 0x015E), (0x0161, 0x0160), (0x0163, 0x0162), (0x0165, 0x0164),
      (0x0167, 0x0166), (0x0169, 0x0168), (0x016B, 0x016A), (0x016D, 0x016C), (0x016F, 0x016E),
      (0x0171, 0x0170), (0x0173, 0x0172), (0x0175, 0x0174), (0x0177, 0x0176), (0x017A, 0x0179),
      (0x017C, 0x017B), (0x017E, 0x017D), (0x017F, 0x0053)]"

definition to_uppercase_simple :: "u16 \<Rightarrow> u16" where
  "to_uppercase_simple ch =
     (if 0x61 \<le> ch \<and> ch \<le> 0x7A then ch - 32
      else if 0xE0 \<le> ch \<and> ch \<le> 0xF6 \<or> 0xF8 \<le> ch \<and> ch \<le> 0xFE then ch - 32
      else case map_of upcase_pairs ch of
             Some u \<Rightarrow> u
           | None \<Rightarrow>
               if 0x3B1 \<le> ch \<and> ch \<le> 0x3C1 \<or> 0x3C3 \<le> ch \<and> ch \<le> 0x3C9 then ch - 32
               else if ch = 0x3C2 then 0x3A3
               else if 0x430 \<le> ch \<and> ch \<le> 0x44F then ch - 32
               else if 0x450 \<le> ch \<and> ch \<le> 0x45F then ch - 80
               else ch)"

definition generate_upcase_table :: bytes where
  "generate_upcase_table = concat (map (\<lambda>i. le_bytes 2 (unat (to_uppercase_simple (of_nat i)))) [0..<65536])"

text \<open>UTF-16 of the standard library: \<open>encode_utf16\<close>, and \<open>decode_utf16\<close> with its errors left out.\<close>

definition encode_char :: "nat \<Rightarrow> u16 list" where
  "encode_char c =
     (if c < 0x10000 then [of_nat c]
      else [of_nat (0xD800 + (c - 0x10000) div 0x400), of_nat (0xDC00 + (c - 0x10000) mod 0x400)])"

definition encode_utf16 :: "ustring \<Rightarrow> u16 list" where
  "encode_utf16 name = concat (map encode_char name)"

definition is_high :: "u16 \<Rightarrow> bool" where "is_high u \<longleftrightarrow> 0xD800 \<le> u \<and> u \<le> 0xDBFF"

definition is_low :: "u16 \<Rightarrow> bool" where "is_low u \<longleftrightarrow> 0xDC00 \<le> u \<and> u \<le> 0xDFFF"

fun decode_utf16 :: "u16 list \<Rightarrow> ustring" where
  "decode_utf16 [] = []"
| "decode_utf16 [u] = (if is_high u \<or> is_low u then [] else [unat u])"
| "decode_utf16 (u # v # us) =
     (if is_high u then
        (if is_low v then (0x10000 + (unat u - 0xD800) * 0x400 + (unat v - 0xDC00)) # decode_utf16 us
         else decode_utf16 (v # us))
      else if is_low u then decode_utf16 (v # us)
      else unat u # decode_utf16 (v # us))"

definition hash_octet :: "u16 \<Rightarrow> u8 \<Rightarrow> u16" where
  "hash_octet hash b = word_rotr 1 hash + ucast b"

definition calculate_name_hash :: "ustring \<Rightarrow> u16" where
  "calculate_name_hash name =
     fold (\<lambda>ch hash. fold (\<lambda>b h. hash_octet h b) (le_bytes 2 (unat (to_uppercase_simple ch))) hash)
       (encode_utf16 name) 0"

definition encode_utf16le :: "ustring \<Rightarrow> bytes" where
  "encode_utf16le name = concat (map (\<lambda>u. le_bytes 2 (unat u)) (encode_utf16 name))"

text \<open>\<open>str::len\<close> counts the octets of UTF-8.\<close>

definition utf8_len :: "ustring \<Rightarrow> nat" where
  "utf8_len name = sum_list (map (\<lambda>c. if c < 0x80 then 1 else if c < 0x800 then 2 else if c < 0x10000 then 3 else 4) name)"

section \<open>Entry sets\<close>

definition ENTRY_TYPE_END :: u8 where "ENTRY_TYPE_END = 0x00"
definition ENTRY_TYPE_BITMAP :: u8 where "ENTRY_TYPE_BITMAP = 0x81"
definition ENTRY_TYPE_UPCASE :: u8 where "ENTRY_TYPE_UPCASE = 0x82"
definition ENTRY_TYPE_FILE :: u8 where "ENTRY_TYPE_FILE = 0x85"
definition ENTRY_TYPE_STREAM :: u8 where "ENTRY_TYPE_STREAM = 0xC0"
definition ENTRY_TYPE_FILE_NAME :: u8 where "ENTRY_TYPE_FILE_NAME = 0xC1"
definition ENTRY_TYPE_DELETED_FILE :: u8 where "ENTRY_TYPE_DELETED_FILE = 0x05"
definition ENTRY_TYPE_DELETED_STREAM :: u8 where "ENTRY_TYPE_DELETED_STREAM = 0x40"
definition ENTRY_TYPE_DELETED_NAME :: u8 where "ENTRY_TYPE_DELETED_NAME = 0x41"
definition ATTR_DIRECTORY :: u16 where "ATTR_DIRECTORY = 0x10"
definition ATTR_ARCHIVE :: u16 where "ATTR_ARCHIVE = 0x20"

lemmas entry_types = ENTRY_TYPE_END_def ENTRY_TYPE_BITMAP_def ENTRY_TYPE_UPCASE_def ENTRY_TYPE_FILE_def
  ENTRY_TYPE_STREAM_def ENTRY_TYPE_FILE_NAME_def ENTRY_TYPE_DELETED_FILE_def ENTRY_TYPE_DELETED_STREAM_def
  ENTRY_TYPE_DELETED_NAME_def

text \<open>The checksum leaves out octets 2 and 3 of the first entry, where it is stored.\<close>

definition checksum_octets :: "bytes list \<Rightarrow> bytes" where
  "checksum_octets entries =
     (case entries of [] \<Rightarrow> []
      | e # es \<Rightarrow> take 2 e @ drop 4 e @ concat es)"

definition calculate_entry_set_checksum :: "bytes list \<Rightarrow> u16" where
  "calculate_entry_set_checksum entries = fold (\<lambda>b h. hash_octet h b) (checksum_octets entries) 0"

definition timestamp :: "nat \<Rightarrow> nat" where
  "timestamp now =
     (let now = now mod 2 ^ 32;
          dos_time = (now div 2) mod 0x20 + ((now div 60) mod 0x40) * 2 ^ 5 + ((now div 3600) mod 0x20) * 2 ^ 11;
          dos_date = 1 + 2 ^ 5 + 45 * 2 ^ 9
      in dos_date + dos_time * 2 ^ 16)"

definition file_entry :: "nat \<Rightarrow> nat \<Rightarrow> bool \<Rightarrow> bytes" where
  "file_entry now secondaries is_dir =
     (let e = replicate 32 0;
          e = copy_slice 0 [ENTRY_TYPE_FILE] e;
          e = copy_slice 1 [of_nat secondaries] e;
          e = copy_slice 4 (le_bytes 2 (unat (if is_dir then ATTR_DIRECTORY else ATTR_ARCHIVE))) e;
          e = copy_slice 8 (le_bytes 4 (timestamp now)) e;
          e = copy_slice 12 (le_bytes 4 (timestamp now)) e;
          e = copy_slice 16 (le_bytes 4 (timestamp now)) e
      in e)"

definition stream_entry :: "ustring \<Rightarrow> nat \<Rightarrow> nat \<Rightarrow> bytes" where
  "stream_entry name first file_size =
     (let e = replicate 32 0;
          e = copy_slice 0 [ENTRY_TYPE_STREAM] e;
          e = copy_slice 1 [0x01] e;
          e = copy_slice 3 [of_nat (length (encode_utf16 name))] e;
          e = copy_slice 4 (le_bytes 2 (unat (calculate_name_hash name))) e;
          e = copy_slice 8 (le_bytes 8 file_size) e;
          e = copy_slice 20 (le_bytes 4 first) e;
          e = copy_slice 24 (le_bytes 8 file_size) e
      in e)"

text \<open>A name entry holds up to fifteen code units.\<close>

definition name_entry :: "u16 list \<Rightarrow> bytes" where
  "name_entry units =
     copy_slice 2 (concat (map (\<lambda>u. le_bytes 2 (unat u)) units)) (copy_slice 0 [ENTRY_TYPE_FILE_NAME] (replicate 32 0))"

fun name_chunks :: "nat \<Rightarrow> u16 list \<Rightarrow> u16 list list" where
  "name_chunks 0 units = []"
| "name_chunks (Suc n) units = take 15 units # name_chunks n (drop 15 units)"

definition create_file_entries :: "nat \<Rightarrow> ustring \<Rightarrow> nat \<Rightarrow> nat \<Rightarrow> bool \<Rightarrow> bytes list" where
  "create_file_entries now name first file_size is_dir =
     (let units = encode_utf16 name;
          name_entries_needed = (length units + 14) div 15;
          secondary = 1 + name_entries_needed;
          entries = [file_entry now secondary is_dir, stream_entry name first file_size] @
            map name_entry (name_chunks name_entries_needed units);
          checksum = calculate_entry_set_checksum entries
      in entries[0 := copy_slice 2 (le_bytes 2 (unat checksum)) (entries ! 0)])"

text \<open>Taking an entry set apart: what the secondary entries say, up to the end of the cluster.\<close>

record set_info =
  si_name :: ustring
  si_first_cluster :: nat
  si_data_length :: nat
  si_no_fat_chain :: bool

definition set_info_init :: set_info where
  "set_info_init = \<lparr>si_name = [], si_first_cluster = 0, si_data_length = 0, si_no_fat_chain = False\<rparr>"

definition name_units :: "bytes \<Rightarrow> u16 list" where
  "name_units entry = takeWhile (\<lambda>c. c \<noteq> 0) (map (\<lambda>k. of_nat (le_val (slice_of (2 * k + 2) (2 * k + 4) entry))) [0..<15])"

definition secondary_info :: "bytes \<Rightarrow> set_info \<Rightarrow> set_info" where
  "secondary_info entry info =
     (if entry ! 0 = ENTRY_TYPE_STREAM then
        info\<lparr>si_no_fat_chain := (entry ! 1 AND NO_FAT_CHAIN_FLAG \<noteq> 0),
             si_first_cluster := le_val (slice_of 20 24 entry),
             si_data_length := le_val (slice_of 24 32 entry)\<rparr>
      else if entry ! 0 = ENTRY_TYPE_FILE_NAME then
        info\<lparr>si_name := si_name info @ decode_utf16 (name_units entry)\<rparr>
      else info)"

fun parse_secondary :: "bytes \<Rightarrow> nat \<Rightarrow> nat \<Rightarrow> set_info \<Rightarrow> set_info" where
  "parse_secondary data 0 offset info = info"
| "parse_secondary data (Suc n) offset info =
     (if offset + 32 > length data then info
      else parse_secondary data n (offset + 32) (secondary_info (slice_of offset (offset + 32) data) info))"

definition set_count :: "bytes \<Rightarrow> nat \<Rightarrow> nat" where
  "set_count data i = unat (data ! (i + 1))"

definition set_is_directory :: "bytes \<Rightarrow> nat \<Rightarrow> bool" where
  "set_is_directory data i \<longleftrightarrow> (of_nat (le_val (slice_of (i + 4) (i + 6) data)) :: u16) AND ATTR_DIRECTORY \<noteq> 0"

definition set_info_at :: "bytes \<Rightarrow> nat \<Rightarrow> set_info" where
  "set_info_at data i = parse_secondary data (set_count data i) (i + 32) set_info_init"

section \<open>What a reader gets out of a created set\<close>

text \<open>A scalar value of Unicode is neither a surrogate nor past the last plane.\<close>

definition is_scalar :: "nat \<Rightarrow> bool" where
  "is_scalar c \<longleftrightarrow> c < 0xD800 \<or> 0xE000 \<le> c \<and> c < 0x110000"

lemma surrogate_bounds:
  "is_high u \<longleftrightarrow> 0xD800 \<le> unat u \<and> unat u \<le> 0xDBFF" "is_low u \<longleftrightarrow> 0xDC00 \<le> unat u \<and> unat u \<le> 0xDFFF"
  by (simp_all add: is_high_def is_low_def word_le_nat_alt)

lemma unat_u16: "n < 0x10000 \<Longrightarrow> unat (of_nat n :: u16) = n"
  by (simp add: unat_of_nat)

lemma decode_char:
  assumes "is_scalar c"
  shows "decode_utf16 (encode_char c @ us) = c # decode_utf16 us"
proof (cases "c < 0x10000")
  case True
  then have "\<not> is_high (of_nat c)" "\<not> is_low (of_nat c)" "unat (of_nat c :: u16) = c"
    using assms unat_u16 [OF True] by (auto simp: surrogate_bounds is_scalar_def)
  then show ?thesis using True by (cases us) (simp_all add: encode_char_def)
next
  case False
  let ?h = "0xD800 + (c - 0x10000) div 0x400" and ?l = "0xDC00 + (c - 0x10000) mod 0x400"
  have c: "c - 0x10000 < 0x100000" using assms False by (auto simp: is_scalar_def)
  have hb: "(c - 0x10000) div 0x400 < 0x400" by (rule less_mult_imp_div_less) (use c in simp)
  have lb: "(c - 0x10000) mod 0x400 < 0x400" by simp
  have h: "unat (of_nat ?h :: u16) = ?h" "?h \<le> 0xDBFF" by (rule unat_u16, use hb in linarith) (use hb in linarith)
  have l: "unat (of_nat ?l :: u16) = ?l" "?l \<le> 0xDFFF" by (rule unat_u16, use lb in linarith) (use lb in linarith)
  have "is_high (of_nat ?h)" "is_low (of_nat ?l)" using h l by (simp_all only: surrogate_bounds) simp_all
  then have "decode_utf16 ([of_nat ?h, of_nat ?l] @ us) =
      (0x10000 + (?h - 0xD800) * 0x400 + (?l - 0xDC00)) # decode_utf16 us"
    using h(1) l(1) by simp
  moreover have "0x10000 + (?h - 0xD800) * 0x400 + (?l - 0xDC00) = c"
    using False div_mult_mod_eq [of "c - 0x10000" "0x400"] by (simp del: div_mult_mod_eq)
  ultimately show ?thesis using False by (simp add: encode_char_def)
qed

lemma decode_encode: "\<forall>c \<in> set name. is_scalar c \<Longrightarrow> decode_utf16 (encode_utf16 name) = name"
  by (induction name) (simp_all add: encode_utf16_def decode_char)

text \<open>Cutting the units anywhere but inside a surrogate pair does not change what they decode to.\<close>

lemma decode_append: "us = [] \<or> \<not> is_high (last us) \<Longrightarrow> decode_utf16 (us @ vs) = decode_utf16 us @ decode_utf16 vs"
proof (induction us rule: decode_utf16.induct)
  case (2 u)
  then show ?case by (cases vs) (auto simp: surrogate_bounds)
next
  case (3 u v us)
  have "us = [] \<or> \<not> is_high (last us)" if "is_high u" "is_low v" using "3.prems" by (simp split: if_splits)
  then show ?case using 3 by auto
qed auto

lemma decode_chunks:
  assumes "length units \<le> 15 * n" and "\<And>k. k < length units \<Longrightarrow> k mod 15 = 14 \<Longrightarrow> \<not> is_high (units ! k)"
  shows "concat (map decode_utf16 (name_chunks n units)) = decode_utf16 units"
  using assms
proof (induction n arbitrary: units)
  case 0
  then show ?case by simp
next
  case (Suc n)
  have last15: "last (take 15 units) = units ! 14" if "15 < length units"
    using that by (subst last_conv_nth) (auto simp: min_def)
  have "concat (map decode_utf16 (name_chunks n (drop 15 units))) = decode_utf16 (drop 15 units)"
  proof (rule Suc.IH)
    fix k
    assume "k < length (drop 15 units)" "k mod 15 = 14"
    then show "\<not> is_high (drop 15 units ! k)" using Suc.prems(2) [of "15 + k"] by simp
  qed (use Suc.prems(1) in simp)
  moreover have "take 15 units = [] \<or> \<not> is_high (last (take 15 units)) \<or> length units \<le> 15"
    using Suc.prems(2) [of 14] by (cases "length units \<le> 15") (simp_all add: last15)
  then have "decode_utf16 (take 15 units @ drop 15 units) = decode_utf16 (take 15 units) @ decode_utf16 (drop 15 units)"
    using decode_append [of "take 15 units" "drop 15 units"] by auto
  ultimately show ?case by simp
qed

text \<open>The names whose set reads back: no unit is zero, and no surrogate pair lies across two name entries.\<close>

definition storable_name :: "ustring \<Rightarrow> bool" where
  "storable_name name \<longleftrightarrow> (\<forall>c \<in> set name. is_scalar c \<and> c \<noteq> 0) \<and> length (encode_utf16 name) \<le> 255 \<and>
     (\<forall>k < length (encode_utf16 name). k mod 15 = 14 \<longrightarrow> \<not> is_high (encode_utf16 name ! k))"

lemma encode_nonzero:
  assumes "\<forall>c \<in> set name. is_scalar c \<and> c \<noteq> 0"
  shows "0 \<notin> set (encode_utf16 name)"
proof -
  have "0 \<notin> set (encode_char c)" if "is_scalar c" "c \<noteq> 0" for c
  proof (cases "c < 0x10000")
    case True
    then have "(of_nat c :: u16) \<noteq> 0" using that unat_u16 [of c] by (metis unat_0)
    then show ?thesis using True by (simp add: encode_char_def)
  next
    case False
    let ?h = "0xD800 + (c - 0x10000) div 0x400" and ?l = "0xDC00 + (c - 0x10000) mod 0x400"
    have "c - 0x10000 < 0x100000" using that False by (auto simp: is_scalar_def)
    then have "unat (of_nat ?h :: u16) = ?h" by (subst unat_u16) simp_all
    moreover have "(c - 0x10000) mod 0x400 < 0x400" by simp
    then have "unat (of_nat ?l :: u16) = ?l" by (subst unat_u16) linarith+
    ultimately have "(of_nat ?h :: u16) \<noteq> 0" "(of_nat ?l :: u16) \<noteq> 0" by (metis add_is_0 unat_0 zero_neq_numeral)+
    then show ?thesis using False by (auto simp: encode_char_def)
  qed
  then show ?thesis using assms by (auto simp: encode_utf16_def)
qed

lemma length_name_chunks [simp]: "length (name_chunks n units) = n"
  by (induction n arbitrary: units) simp_all

lemma name_chunks_length: "us \<in> set (name_chunks n units) \<Longrightarrow> length us \<le> 15 \<and> set us \<subseteq> set units"
proof (induction n arbitrary: units)
  case (Suc n)
  then show ?case using set_drop_subset [of 15 units] by (fastforce dest: in_set_takeD)
qed simp

lemma length_units: "length (concat (map (\<lambda>u. le_bytes 2 (f u)) us)) = 2 * length us"
  by (induction us) simp_all

lemma slice_units:
  assumes "k < length us"
  shows "slice_of (2 * k) (2 * k + 2) (concat (map (\<lambda>u. le_bytes 2 (f u)) us)) = le_bytes 2 (f (us ! k))"
  using assms
proof (induction us arbitrary: k)
  case (Cons u us)
  then show ?case by (cases k) (simp_all add: slice_of_def)
qed simp

lemma length_entries [simp]:
  "length (file_entry now secondaries is_dir) = 32" "length (stream_entry name first file_size) = 32"
  "length us \<le> 15 \<Longrightarrow> length (name_entry us) = 32"
  by (simp_all add: file_entry_def stream_entry_def name_entry_def Let_def length_units)

lemma slice_copy_exact: "j = i + length ys \<Longrightarrow> j \<le> length xs \<Longrightarrow> slice_of i j (copy_slice i ys xs) = ys"
  by (simp add: slice_copy_same)

lemma entry_heads:
  "file_entry now secondaries is_dir ! 0 = ENTRY_TYPE_FILE" "file_entry now secondaries is_dir ! Suc 0 = of_nat secondaries"
  "slice_of 4 6 (file_entry now secondaries is_dir) = le_bytes 2 (unat (if is_dir then ATTR_DIRECTORY else ATTR_ARCHIVE))"
  "stream_entry name first file_size ! 0 = ENTRY_TYPE_STREAM" "stream_entry name first file_size ! Suc 0 = 1"
  "slice_of 20 24 (stream_entry name first file_size) = le_bytes 4 first"
  "slice_of 24 32 (stream_entry name first file_size) = le_bytes 8 file_size"
  by (simp_all add: file_entry_def stream_entry_def Let_def nth_copy_slice slice_copy_exact slice_copy_before slice_copy_after
      del: le_bytes.simps)

lemma name_entry_head: "length us \<le> 15 \<Longrightarrow> name_entry us ! 0 = ENTRY_TYPE_FILE_NAME"
  by (simp add: name_entry_def nth_copy_slice length_units)

lemma name_units_entry:
  assumes "length us \<le> 15" and "0 \<notin> set us"
  shows "name_units (name_entry us) = us"
proof -
  let ?e = "name_entry us"
  have unit: "(of_nat (le_val (slice_of (2 * k + 2) (2 * k + 4) ?e)) :: u16) = (if k < length us then us ! k else 0)"
    if "k < 15" for k
  proof (cases "k < length us")
    case True
    have "slice_of (2 * k + 2) (2 * k + 4) ?e = slice_of (2 * k) (2 * k + 2) (concat (map (\<lambda>u. le_bytes 2 (unat u)) us))"
      using True assms(1) by (simp add: name_entry_def copy_slice_def slice_of_def length_units take_append)
    then show ?thesis using True slice_units [OF True, of unat] by (simp add: word_of_le_bytes)
  next
    case False
    have base: "copy_slice 0 [t] (replicate 32 0) = [t] @ replicate 31 (0 :: u8)" for t
      by (simp add: copy_slice_def)
    have "slice_of (2 * k + 2) (2 * k + 4) ?e = slice_of (2 * k + 2) (2 * k + 4) ([ENTRY_TYPE_FILE_NAME] @ replicate 31 0)"
      unfolding name_entry_def base by (rule slice_copy_after) (use False assms(1) in \<open>simp_all add: length_units\<close>)
    also have "\<dots> = replicate (min 2 (30 - 2 * k)) 0" by (simp add: slice_of_def)
    also have "min 2 (30 - 2 * k) = 2" using that by simp
    finally have "slice_of (2 * k + 2) (2 * k + 4) ?e = replicate 2 0" .
    moreover have "le_val (replicate 2 0) = 0" by (simp add: numeral_2_eq_2)
    ultimately show ?thesis using False by simp
  qed
  have "map (\<lambda>k. of_nat (le_val (slice_of (2 * k + 2) (2 * k + 4) ?e))) [0..<15] = us @ replicate (15 - length us) (0 :: u16)"
    by (rule nth_equalityI) (use assms(1) unit in \<open>simp_all add: nth_append\<close>)
  moreover have "takeWhile (\<lambda>c. c \<noteq> 0) (us @ replicate n 0) = us" for n
    using assms(2) by (cases n) (auto simp: takeWhile_tail)
  ultimately show ?thesis by (simp add: name_units_def)
qed

text \<open>A set is read entry by entry.\<close>

lemma parse_secondary_fold:
  assumes "off + 32 * length es \<le> length data" and "slice_of off (off + 32 * length es) data = concat es"
    and "\<forall>e \<in> set es. length e = 32"
  shows "parse_secondary data (length es) off info = fold secondary_info es info"
  using assms
proof (induction es arbitrary: off info)
  case (Cons e es)
  have "slice_of off (off + 32) data @ slice_of (off + 32) (off + 32 * Suc (length es)) data = e @ concat es"
    using Cons.prems(1,2) slice_of_split [of off "off + 32" "off + 32 * Suc (length es)" data] by simp
  then have "slice_of off (off + 32) data = e" "slice_of (off + 32) (off + 32 + 32 * length es) data = concat es"
    using Cons.prems by (simp_all add: append_eq_append_conv add.assoc)
  then show ?case using Cons by simp
qed simp

lemma fold_names:
  assumes "\<forall>us \<in> set uss. length us \<le> 15 \<and> 0 \<notin> set us"
  shows "fold secondary_info (map name_entry uss) info = info\<lparr>si_name := si_name info @ concat (map decode_utf16 uss)\<rparr>"
  using assms
proof (induction uss arbitrary: info)
  case (Cons us uss)
  then show ?case by (simp add: secondary_info_def name_entry_head name_units_entry entry_types)
qed simp

definition name_entries :: "ustring \<Rightarrow> nat" where
  "name_entries name = (length (encode_utf16 name) + 14) div 15"

definition written_info :: "ustring \<Rightarrow> nat \<Rightarrow> nat \<Rightarrow> set_info" where
  "written_info name first file_size =
     \<lparr>si_name = name, si_first_cluster = first, si_data_length = file_size, si_no_fat_chain = False\<rparr>"

lemma created_entries:
  "\<exists>head. length head = 32 \<and> head ! 0 = ENTRY_TYPE_FILE \<and> head ! Suc 0 = of_nat (1 + name_entries name) \<and>
     slice_of 4 6 head = le_bytes 2 (unat (if is_dir then ATTR_DIRECTORY else ATTR_ARCHIVE)) \<and>
     create_file_entries now name first file_size is_dir =
       head # stream_entry name first file_size # map name_entry (name_chunks (name_entries name) (encode_utf16 name))"
proof -
  let ?f = "file_entry now (1 + name_entries name) is_dir"
  have head: "length (copy_slice 2 (le_bytes 2 x) ?f) = 32" "copy_slice 2 (le_bytes 2 x) ?f ! 0 = ENTRY_TYPE_FILE"
    "copy_slice 2 (le_bytes 2 x) ?f ! Suc 0 = of_nat (1 + name_entries name)"
    "slice_of 4 6 (copy_slice 2 (le_bytes 2 x) ?f) = slice_of 4 6 ?f" for x
    by (simp_all add: nth_copy_slice entry_heads slice_copy_after del: of_nat_add of_nat_Suc)
  show ?thesis
    by (rule exI, intro conjI, rule head(1), rule head(2), rule head(3))
      (simp_all add: slice_copy_after entry_heads create_file_entries_def name_entries_def Let_def)
qed

lemma created_length [simp]: "length (create_file_entries now name first file_size is_dir) = 2 + name_entries name"
  using created_entries [of name is_dir now first file_size] by auto

lemma created_sizes: "e \<in> set (create_file_entries now name first file_size is_dir) \<Longrightarrow> length e = 32"
  using created_entries [of name is_dir now first file_size] by (force dest: name_chunks_length)

lemma name_entries_bound: "storable_name name \<Longrightarrow> name_entries name \<le> 17"
  by (clarsimp simp: storable_name_def name_entries_def) linarith

lemma created_info:
  assumes "storable_name name" and "first < 2 ^ 32" and "file_size < 2 ^ 64"
  shows "fold secondary_info (tl (create_file_entries now name first file_size is_dir)) set_info_init =
    written_info name first file_size"
proof -
  let ?uss = "name_chunks (name_entries name) (encode_utf16 name)"
  obtain head where "create_file_entries now name first file_size is_dir = head # stream_entry name first file_size # map name_entry ?uss"
    using created_entries by metis
  moreover have "\<forall>us \<in> set ?uss. length us \<le> 15 \<and> 0 \<notin> set us"
    using assms(1) encode_nonzero [of name] by (fastforce simp: storable_name_def dest: name_chunks_length)
  moreover have "length (encode_utf16 name) \<le> 15 * name_entries name" by (simp add: name_entries_def)
  then have "concat (map decode_utf16 ?uss) = name"
    using assms(1) decode_chunks [of "encode_utf16 name" "name_entries name"] decode_encode [of name]
    by (simp add: storable_name_def)
  moreover have "secondary_info (stream_entry name first file_size) set_info_init =
      \<lparr>si_name = [], si_first_cluster = first, si_data_length = file_size, si_no_fat_chain = False\<rparr>"
    using assms(2,3) by (simp add: secondary_info_def entry_heads set_info_init_def le_val_le_bytes NO_FAT_CHAIN_FLAG_def)
  ultimately show ?thesis by (simp add: fold_names written_info_def)
qed

section \<open>Round trip and its limit\<close>

lemma checksum_put:
  assumes "es \<noteq> []" and "4 \<le> length (hd es)"
  shows "checksum_octets (es[0 := copy_slice 2 [x, y] (hd es)]) = checksum_octets es"
    and "slice_of 2 4 (copy_slice 2 [x, y] (hd es)) = [x, y]"
  using assms by (cases es; simp add: checksum_octets_def copy_slice_def slice_of_def)+

text \<open>C7: The entry set written for a storable name reads back as that name, its first cluster and its length; the
  checksum it carries is the one a reader computes, and the first entry counts the others.\<close>

theorem entry_sets_read_back:
  assumes "storable_name name" and "first < 2 ^ 32" and "file_size < 2 ^ 64"
    and "entries = create_file_entries now name first file_size is_dir"
  shows "fold secondary_info (tl entries) set_info_init = written_info name first file_size \<and>
    slice_of 2 4 (hd entries) = le_bytes 2 (unat (calculate_entry_set_checksum entries)) \<and>
    unat (hd entries ! 1) = length entries - 1 \<and> (\<forall>e \<in> set entries. length e = 32)"
proof -
  let ?uss = "name_chunks (name_entries name) (encode_utf16 name)"
  let ?raw = "[file_entry now (1 + name_entries name) is_dir, stream_entry name first file_size] @ map name_entry ?uss"
  let ?sum = "calculate_entry_set_checksum ?raw"
  obtain x y where xy: "le_bytes 2 (unat ?sum) = [x, y]" by (simp add: numeral_2_eq_2)
  have e: "entries = ?raw[0 := copy_slice 2 [x, y] (hd ?raw)]"
    using assms(4) xy by (simp add: create_file_entries_def Let_def name_entries_def)
  have l4: "?raw \<noteq> []" "4 \<le> length (hd ?raw)" by (simp_all add: file_entry_def Let_def)
  have "calculate_entry_set_checksum entries = ?sum"
    unfolding calculate_entry_set_checksum_def e checksum_put(1) [OF l4] ..
  moreover have "hd entries = copy_slice 2 [x, y] (hd ?raw)" unfolding e by simp
  ultimately have sum: "slice_of 2 4 (hd entries) = le_bytes 2 (unat (calculate_entry_set_checksum entries))"
    using checksum_put(2) [OF l4, of x y] xy by simp
  have "hd entries ! 1 = of_nat (1 + name_entries name)"
    using created_entries [of name is_dir now first file_size] assms(4) by auto
  then have "unat (hd entries ! 1) = length entries - 1"
    using name_entries_bound [OF assms(1)] assms(4) by (simp add: unat_of_nat del: of_nat_add of_nat_Suc)
  then show ?thesis using created_info [OF assms(1-3)] created_sizes assms(4) sum by blast
qed

theorem entry_sets_read_back_witness:
  "slice_of 2 4 (hd (create_file_entries 0 [97] 5 3 False)) =
     le_bytes 2 (unat (calculate_entry_set_checksum (create_file_entries 0 [97] 5 3 False)))"
proof -
  have "storable_name [97]" by (simp add: storable_name_def encode_utf16_def encode_char_def is_scalar_def is_high_def)
  then show ?thesis using entry_sets_read_back [of "[97]" 5 3 _ 0 False] by simp
qed

text \<open>A name whose fifteenth and sixteenth code units are one character is cut inside it by the name entries,
  which are decoded one by one: the character is lost, so the file is not found under the name it was given.\<close>

theorem split_name_lost:
  assumes "length front = 14" and "\<forall>c \<in> set front. is_scalar c \<and> c \<noteq> 0 \<and> c < 0x10000" and "is_scalar c" and "0x10000 \<le> c"
  shows "si_name (fold secondary_info (tl (create_file_entries now (front @ [c]) first file_size is_dir)) set_info_init) = front"
proof -
  define hi where "hi = (of_nat (0xD800 + (c - 0x10000) div 0x400) :: u16)"
  define lo where "lo = (of_nat (0xDC00 + (c - 0x10000) mod 0x400) :: u16)"
  have "(c - 0x10000) div 0x400 < 0x400" by (rule less_mult_imp_div_less) (use assms(3,4) in \<open>auto simp: is_scalar_def\<close>)
  moreover have "(c - 0x10000) mod 0x400 < 0x400" by simp
  ultimately have "unat hi = 0xD800 + (c - 0x10000) div 0x400 \<and> unat hi \<le> 0xDBFF"
    "unat lo = 0xDC00 + (c - 0x10000) mod 0x400 \<and> unat lo \<le> 0xDFFF"
    unfolding hi_def lo_def by (subst (1 2) unat_u16; linarith)+
  then have hl: "is_high hi" "is_low lo" by (simp_all add: surrogate_bounds)
  then have nz: "hi \<noteq> 0" "lo \<noteq> 0" "\<not> is_high lo" by (auto simp: surrogate_bounds)
  have ef: "encode_utf16 front = map of_nat front"
    using assms(2) by (induction front) (simp_all add: encode_utf16_def encode_char_def)
  have units: "encode_utf16 (front @ [c]) = encode_utf16 front @ [hi, lo]"
    using assms(4) by (simp add: encode_utf16_def encode_char_def hi_def lo_def)
  have len: "length (encode_utf16 front) = 14" using ef assms(1) by simp
  have two: "name_entries (front @ [c]) = Suc (Suc 0)" using units len by (simp add: name_entries_def)
  have cut: "name_chunks (Suc (Suc 0)) (encode_utf16 front @ [hi, lo]) = [encode_utf16 front @ [hi], [lo]]" using len by simp
  have "\<not> is_high (of_nat x)" if "x \<in> set front" for x
  proof -
    have x: "is_scalar x" "x < 0x10000" using assms(2) that by simp_all
    show ?thesis unfolding surrogate_bounds unat_u16 [OF x(2)] using x(1) unfolding is_scalar_def by linarith
  qed
  then have "encode_utf16 front = [] \<or> \<not> is_high (last (encode_utf16 front))"
    using ef by (cases front rule: rev_cases) auto
  then have dec: "decode_utf16 (encode_utf16 front @ [hi]) = front"
    using decode_append [of "encode_utf16 front" "[hi]"] decode_encode [of front] assms(2) hl by simp
  have "0 \<notin> set (encode_utf16 front)" by (rule encode_nonzero) (use assms(2) in blast)
  then have ok: "\<forall>us \<in> set [encode_utf16 front @ [hi], [lo]]. length us \<le> 15 \<and> 0 \<notin> set us" using len nz by auto
  obtain head where "create_file_entries now (front @ [c]) first file_size is_dir =
      head # stream_entry (front @ [c]) first file_size # map name_entry [encode_utf16 front @ [hi], [lo]]"
    using created_entries [of "front @ [c]" is_dir now first file_size] unfolding two units cut by blast
  moreover have "si_name (secondary_info (stream_entry (front @ [c]) first file_size) set_info_init) = []"
    by (simp add: secondary_info_def entry_heads set_info_init_def)
  ultimately show ?thesis using fold_names [OF ok] dec hl nz by simp
qed

theorem split_name_lost_witness:
  "si_name (fold secondary_info (tl (create_file_entries 0 (replicate 14 97 @ [0x1F600]) 5 3 False)) set_info_init) = replicate 14 97"
  by (rule split_name_lost) (simp_all add: is_scalar_def)

end
