(* ===== verification/ExfatDir.thy ===== *)
theory ExfatDir
  imports ExfatEntries
begin

text \<open>
  Directories and files of the exFAT library (\<open>exfat/ops.rs\<close> in \<open>libs/ventoy-img-rs/src\<close>): looking a name
  up, walking a path, finding room for an entry set and extending a directory, creating and
  deleting entries, listing, and the whole-file operations.
  \<open>host\<close> is what the code takes from outside: \<open>str::to_lowercase\<close> and the seconds of the clock.
  A cluster size that \<open>open\<close> accepts is a multiple of 512, so an offset that is a multiple of 32 and lies
  inside a cluster leaves room for a whole entry.
\<close>

unbundle bit_operations_syntax

record host =
  hx_lower :: "ustring \<Rightarrow> ustring"
  hx_now :: nat

record FileInfo =
  fi_name :: ustring
  fi_size :: nat
  fi_is_directory :: bool
  fi_path :: ustring

record ResolvedPath =
  rp_parent :: DirectoryLocation
  rp_name :: ustring
  rp_location :: "FileEntryLocation option"

abbreviation fs_text :: "string \<Rightarrow> ustring \<Rightarrow> fs_error" where
  "fs_text msg t \<equiv> FilesystemError msg [t] []"

section \<open>Paths\<close>

definition slash :: nat where "slash = 47"

definition trim_slashes :: "ustring \<Rightarrow> ustring" where
  "trim_slashes path = rev (dropWhile (\<lambda>c. c = slash) (rev (dropWhile (\<lambda>c. c = slash) path)))"

fun split_slashes :: "ustring \<Rightarrow> ustring list" where
  "split_slashes [] = [[]]"
| "split_slashes (c # cs) =
     (if c = slash then [] # split_slashes cs
      else case split_slashes cs of [] \<Rightarrow> [[c]] | w # ws \<Rightarrow> (c # w) # ws)"

definition parse_path :: "ustring \<Rightarrow> ustring list" where
  "parse_path path = filter (\<lambda>w. w \<noteq> []) (split_slashes (trim_slashes path))"

fun join_slashes :: "ustring list \<Rightarrow> ustring" where
  "join_slashes [] = []"
| "join_slashes [w] = w"
| "join_slashes (w # ws) = w @ slash # join_slashes ws"

section \<open>Looking up\<close>

definition root_directory :: "ExfatFs \<Rightarrow> DirectoryLocation" where
  "root_directory s = DirectoryLocation_root (first_cluster_of_root s)"

text \<open>A scan of one cluster: \<open>Some\<close> is an answer, also the end mark's \<open>None\<close>; \<open>None\<close> goes on to the next cluster.\<close>

definition location_at :: "nat \<Rightarrow> bytes \<Rightarrow> nat \<Rightarrow> FileEntryLocation" where
  "location_at cluster data i =
     \<lparr>directory_cluster = cluster, entry_offset = i, first_cluster = si_first_cluster (set_info_at data i),
      data_length = si_data_length (set_info_at data i), secondary_count = set_count data i,
      is_directory = set_is_directory data i, no_fat_chain = si_no_fat_chain (set_info_at data i)\<rparr>"

function find_in_cluster :: "(ustring \<Rightarrow> ustring) \<Rightarrow> ustring \<Rightarrow> nat \<Rightarrow> bytes \<Rightarrow> nat \<Rightarrow> FileEntryLocation option option" where
  "find_in_cluster lower target cluster data i =
     (if length data \<le> i then None
      else if data ! i = ENTRY_TYPE_END then Some None
      else if data ! i = ENTRY_TYPE_FILE then
        (if lower (si_name (set_info_at data i)) = target then Some (Some (location_at cluster data i))
         else find_in_cluster lower target cluster data (i + (1 + set_count data i) * 32))
      else find_in_cluster lower target cluster data (i + 32))"
  by pat_completeness auto
termination
  by (relation "measure (\<lambda>(l, t, c, data, i). length data - i)") auto

declare find_in_cluster.simps [simp del]

fun find_in_clusters :: "(ustring \<Rightarrow> ustring) \<Rightarrow> ustring \<Rightarrow> nat list \<Rightarrow> FileEntryLocation option fx" where
  "find_in_clusters lower target [] = sx_return None"
| "find_in_clusters lower target (c # cs) =
     sx_bind (read_cluster c) (\<lambda>data.
       case find_in_cluster lower target c data 0 of
         Some found \<Rightarrow> sx_return found
       | None \<Rightarrow> find_in_clusters lower target cs)"

definition find_entry_in_directory :: "host \<Rightarrow> DirectoryLocation \<Rightarrow> ustring \<Rightarrow> FileEntryLocation option fx" where
  "find_entry_in_directory h dir name =
     sx_bind (directory_clusters dir) (\<lambda>clusters. find_in_clusters (hx_lower h) (hx_lower h name) clusters)"

definition find_file_entry :: "host \<Rightarrow> ustring \<Rightarrow> FileEntryLocation option fx" where
  "find_file_entry h name s = find_entry_in_directory h (root_directory s) name s"

section \<open>Changing entry sets\<close>

text \<open>The entries of a set as the code cuts them out.\<close>

definition chunks32 :: "bytes \<Rightarrow> bytes list" where
  "chunks32 data = map (\<lambda>k. slice_of (32 * k) (32 * k + 32) data) [0..<length data div 32]"

definition stream_offset :: "bytes \<Rightarrow> nat \<Rightarrow> nat \<Rightarrow> nat option" where
  "stream_offset data start entry_count =
     List.find (\<lambda>off. data ! off = ENTRY_TYPE_STREAM) (map (\<lambda>index. start + index * 32) [1..<entry_count])"

definition patch_stream :: "bytes \<Rightarrow> nat \<Rightarrow> bool \<Rightarrow> nat \<Rightarrow> bytes" where
  "patch_stream data so contiguous len =
     (let data = data[so + 1 := (if contiguous then data ! (so + 1) OR NO_FAT_CHAIN_FLAG
                                 else data ! (so + 1) AND NOT NO_FAT_CHAIN_FLAG)];
          data = copy_slice (so + 8) (le_bytes 8 len) data
      in copy_slice (so + 24) (le_bytes 8 len) data)"

definition update_entry_allocation :: "FileEntryLocation \<Rightarrow> bool \<Rightarrow> nat \<Rightarrow> FileEntryLocation fx" where
  "update_entry_allocation loc contiguous len =
     sx_bind (read_cluster (directory_cluster loc)) (\<lambda>data.
       let set_start = entry_offset loc; entry_count = 1 + secondary_count loc;
           set_end = set_start + entry_count * 32
       in if set_end > length data
          then sx_fail (fs_err ''Directory entry set crosses an unsupported cluster boundary'')
          else
            (case stream_offset data set_start entry_count of
               None \<Rightarrow> sx_fail (fs_err ''Stream extension entry not found'')
             | Some so \<Rightarrow>
                 let data = patch_stream data so contiguous len;
                     checksum = calculate_entry_set_checksum (chunks32 (slice_of set_start set_end data));
                     data = copy_slice (set_start + 2) (le_bytes 2 (unat checksum)) data
                 in sx_bind (write_cluster (directory_cluster loc) data) (\<lambda>_.
                      sx_return (loc\<lparr>no_fat_chain := contiguous, data_length := len\<rparr>))))"

fun link_existing :: "nat list \<Rightarrow> unit fx" where
  "link_existing (a # b # cs) = sx_bind (write_fat_entry a b) (\<lambda>_. link_existing (b # cs))"
| "link_existing cs = sx_return ()"

definition extended_length :: "DirectoryLocation \<Rightarrow> nat list \<Rightarrow> nat option fx" where
  "extended_length dir existing s =
     (case dl_entry dir of
        None \<Rightarrow> (Inr None, s)
      | Some _ \<Rightarrow>
          let len = (length existing + 1) * cluster_size s
          in if len \<ge> 2 ^ 64 then (Inl (fs_err ''Directory size overflow''), s)
             else if len > MAX_DIRECTORY_SIZE
             then (Inl (FilesystemError ''Directory exceeds the {} byte limit'' [] [MAX_DIRECTORY_SIZE]), s)
             else (Inr (Some len), s))"

definition extend_directory :: "DirectoryLocation \<Rightarrow> (nat \<times> DirectoryLocation) fx" where
  "extend_directory dir =
     sx_bind (directory_clusters dir) (\<lambda>existing.
     if existing = [] then sx_fail (fs_err ''Empty directory allocation'')
     else
       sx_bind (extended_length dir existing) (\<lambda>new_length.
       sx_bind (allocate_clusters 1) (\<lambda>new_cluster.
       sx_bind (case dl_entry dir of
           Some e \<Rightarrow> if no_fat_chain e then link_existing existing else sx_return ()
         | None \<Rightarrow> sx_return ()) (\<lambda>_.
       sx_bind (write_fat_entry (last existing) new_cluster) (\<lambda>_.
       sx_bind (case (dl_entry dir, new_length) of
           (Some e, Some len) \<Rightarrow>
             sx_bind (update_entry_allocation e False len) (\<lambda>e. sx_return (dir\<lparr>dl_entry := Some e\<rparr>))
         | _ \<Rightarrow> sx_return dir) (\<lambda>dir s.
       sx_bind (write_cluster new_cluster (replicate (cluster_size s) 0)) (\<lambda>_.
         sx_return (new_cluster, dir)) s))))))"

text \<open>The scan for a run of free entries: the entries free so far, and where they start.\<close>

definition is_free_type :: "u8 \<Rightarrow> bool" where
  "is_free_type t \<longleftrightarrow> t = ENTRY_TYPE_END \<or> t = ENTRY_TYPE_DELETED_FILE \<or> t = ENTRY_TYPE_DELETED_STREAM \<or>
     t = ENTRY_TYPE_DELETED_NAME"

function free_slot_in_cluster :: "bytes \<Rightarrow> nat \<Rightarrow> nat \<Rightarrow> nat \<Rightarrow> nat \<Rightarrow> nat option" where
  "free_slot_in_cluster data needed i consecutive_free slot_start =
     (if length data \<le> i then (if consecutive_free \<ge> needed then Some slot_start else None)
      else if is_free_type (data ! i) then
        (let slot_start = (if consecutive_free = 0 then i else slot_start)
         in if consecutive_free + 1 \<ge> needed then Some slot_start
            else free_slot_in_cluster data needed (i + 32) (consecutive_free + 1) slot_start)
      else if data ! i = ENTRY_TYPE_FILE then
        free_slot_in_cluster data needed (i + (1 + set_count data i) * 32) 0 slot_start
      else free_slot_in_cluster data needed (i + 32) 0 slot_start)"
  by pat_completeness auto
termination
  by (relation "measure (\<lambda>(data, n, i, f, t). length data - i)") auto

declare free_slot_in_cluster.simps [simp del]

fun free_slot_in_clusters :: "nat \<Rightarrow> nat list \<Rightarrow> (nat \<times> nat) option fx" where
  "free_slot_in_clusters needed [] = sx_return None"
| "free_slot_in_clusters needed (c # cs) =
     sx_bind (read_cluster c) (\<lambda>data.
       case free_slot_in_cluster data needed 0 0 0 of
         Some off \<Rightarrow> sx_return (Some (c, off))
       | None \<Rightarrow> free_slot_in_clusters needed cs)"

text \<open>Every entry that reads as the end mark becomes an unused one, whatever it belongs to.\<close>

definition clear_end_marks :: "bytes \<Rightarrow> bytes" where
  "clear_end_marks data =
     map (\<lambda>k. if k mod 32 = 0 \<and> data ! k = ENTRY_TYPE_END then ENTRY_TYPE_DELETED_FILE else data ! k) [0..<length data]"

fun clear_ends :: "nat list \<Rightarrow> unit fx" where
  "clear_ends [] = sx_return ()"
| "clear_ends (c # cs) =
     sx_bind (read_cluster c) (\<lambda>data.
     sx_bind (write_cluster c (clear_end_marks data)) (\<lambda>_. clear_ends cs))"

definition find_free_slot_in_directory :: "DirectoryLocation \<Rightarrow> nat \<Rightarrow> ((nat \<times> nat) \<times> DirectoryLocation) fx" where
  "find_free_slot_in_directory dir needed =
     sx_bind (directory_clusters dir) (\<lambda>clusters.
     sx_bind (free_slot_in_clusters needed clusters) (\<lambda>slot.
       case slot of
         Some place \<Rightarrow> sx_return (place, dir)
       | None \<Rightarrow>
           sx_bind (extend_directory dir) (\<lambda>(new_cluster, dir).
           sx_bind (clear_ends clusters) (\<lambda>_. sx_return ((new_cluster, 0), dir)))))"

text \<open>An entry set that does not fit behind the slot panics in \<open>copy_from_slice\<close>.\<close>

definition create_entry_in_directory ::
    "host \<Rightarrow> DirectoryLocation \<Rightarrow> ustring \<Rightarrow> nat \<Rightarrow> nat \<Rightarrow> bool \<Rightarrow> DirectoryLocation fx" where
  "create_entry_in_directory h dir name first len is_dir =
     (let entries = create_file_entries (hx_now h) name first len is_dir in
      sx_bind (find_free_slot_in_directory dir (length entries)) (\<lambda>((slot_cluster, slot_offset), dir).
      sx_bind (read_cluster slot_cluster) (\<lambda>data.
        if slot_offset + 32 * length entries > length data then sx_fail Panicked
        else
          sx_bind (write_cluster slot_cluster (copy_slice slot_offset (concat entries) data)) (\<lambda>_.
            sx_return dir))))"

definition create_directory_in :: "host \<Rightarrow> DirectoryLocation \<Rightarrow> ustring \<Rightarrow> DirectoryLocation fx" where
  "create_directory_in h parent name =
     (if name = [] \<or> utf8_len name > 255 then sx_fail (fs_err ''Invalid directory name length'')
      else
        sx_bind (find_entry_in_directory h parent name) (\<lambda>found.
        if found \<noteq> None then sx_fail (fs_text ''Entry '{}' already exists'' name)
        else
          sx_bind (allocate_clusters 1) (\<lambda>dir_cluster s.
          sx_bind (write_cluster dir_cluster (replicate (cluster_size s) 0)) (\<lambda>_.
          sx_bind (create_entry_in_directory h parent name dir_cluster (cluster_size s) True) (\<lambda>parent.
          sx_bind (find_entry_in_directory h parent name) (\<lambda>entry.
          sx_bind (sx_ok_or (fs_err ''Created directory not found'') entry) (\<lambda>entry.
            sx_lift (DirectoryLocation_from_entry entry))))) s)))"

definition mark_deleted :: "u8 \<Rightarrow> u8" where
  "mark_deleted t =
     (if t = ENTRY_TYPE_STREAM then ENTRY_TYPE_DELETED_STREAM
      else if t = ENTRY_TYPE_FILE_NAME then ENTRY_TYPE_DELETED_NAME
      else t AND 0x7F)"

fun mark_secondaries :: "nat list \<Rightarrow> bytes \<Rightarrow> bytes" where
  "mark_secondaries [] data = data"
| "mark_secondaries (off # offs) data =
     mark_secondaries offs (if off < length data then data[off := mark_deleted (data ! off)] else data)"

definition delete_file_entry :: "FileEntryLocation \<Rightarrow> unit fx" where
  "delete_file_entry loc =
     sx_bind (read_cluster (directory_cluster loc)) (\<lambda>data.
       let off = entry_offset loc;
           data = data[off := ENTRY_TYPE_DELETED_FILE]
       in write_cluster (directory_cluster loc)
            (mark_secondaries (map (\<lambda>i. off + i * 32) [1..<secondary_count loc + 1]) data))"

section \<open>Walking a path\<close>

fun walk_path :: "host \<Rightarrow> bool \<Rightarrow> ustring list \<Rightarrow> ustring list \<Rightarrow> DirectoryLocation \<Rightarrow> DirectoryLocation fx" where
  "walk_path h create_parents walked [] current = sx_return current"
| "walk_path h create_parents walked (component # components) current =
     sx_bind (find_entry_in_directory h current component) (\<lambda>found.
       case found of
         Some entry \<Rightarrow>
           if \<not> is_directory entry then sx_fail (fs_text '''{}' is not a directory'' component)
           else
             sx_bind (sx_lift (DirectoryLocation_from_entry entry)) (\<lambda>current.
               walk_path h create_parents (walked @ [component]) components current)
       | None \<Rightarrow>
           if create_parents then
             sx_bind (create_directory_in h current component) (\<lambda>current.
               walk_path h create_parents (walked @ [component]) components current)
           else sx_fail (fs_text ''Directory '{}' not found'' (join_slashes (walked @ [component]))))"

definition resolve_path :: "host \<Rightarrow> ustring \<Rightarrow> bool \<Rightarrow> ResolvedPath fx" where
  "resolve_path h path create_parents s =
     (let components = parse_path path in
      if components = [] then (Inl (fs_err ''Empty path''), s)
      else
        sx_bind (walk_path h create_parents [] (butlast components) (root_directory s)) (\<lambda>current.
        sx_bind (find_entry_in_directory h current (last components)) (\<lambda>location.
          sx_return \<lparr>rp_parent = current, rp_name = last components, rp_location = location\<rparr>)) s)"

end
