(* ===== verification/ExfatScan.thy ===== *)
theory ExfatScan
  imports ExfatDir
begin

text \<open>
  One cluster of a directory as the items a scan meets: end marks, unused entries, entry sets and other
  entries.  The scans of \<open>ExfatDir\<close> are functions of the items; writing a set over a run of unused
  entries, marking a set deleted and clearing end marks change the items as a list.
\<close>

text \<open>Past their end, strings of one length read alike.\<close>

lemma nth_beyond: "length xs \<le> k \<Longrightarrow> xs ! k = [] ! (k - length xs)"
proof (induction xs arbitrary: k)
  case (Cons x xs)
  then show ?case by (cases k) simp_all
qed simp

lemma same_beyond: "length ys = length xs \<Longrightarrow> length xs \<le> k \<Longrightarrow> ys ! k = xs ! k"
  using nth_beyond [of xs k] nth_beyond [of ys k] by simp

section \<open>Items\<close>

datatype item = KEnd | KFree | KFile nat | KOther

definition kind_at :: "bytes \<Rightarrow> nat \<Rightarrow> item" where
  "kind_at data i =
     (if data ! i = ENTRY_TYPE_END then KEnd
      else if is_free_type (data ! i) then KFree
      else if data ! i = ENTRY_TYPE_FILE then KFile (set_count data i)
      else KOther)"

fun item_end :: "nat \<times> item \<Rightarrow> nat" where
  "item_end (i, KFile n) = i + (1 + n) * 32"
| "item_end (i, k) = i + 32"

lemma item_end_ge: "i + 32 \<le> item_end (i, k)"
  by (cases k) simp_all

lemma item_end_mod: "item_end (i, k) mod 32 = i mod 32"
  by (cases k) (simp_all only: item_end.simps mod_mult_self1 mod_add_self2)

function items :: "bytes \<Rightarrow> nat \<Rightarrow> (nat \<times> item) list" where
  "items data i = (if length data \<le> i then [] else (i, kind_at data i) # items data (item_end (i, kind_at data i)))"
  by pat_completeness auto
termination
proof (relation "measure (\<lambda>(data, i). length data - i)", goal_cases)
  case (2 data i)
  then show ?case using item_end_ge [of i "kind_at data i"] by simp
qed simp

declare items.simps [simp del]

primrec end_of :: "nat \<Rightarrow> (nat \<times> item) list \<Rightarrow> nat" where
  "end_of i [] = i"
| "end_of i (x # xs) = end_of (item_end x) xs"

lemma end_of_append [simp]: "end_of i (xs @ ys) = end_of (end_of i xs) ys"
  by (induction xs arbitrary: i) simp_all

lemma items_split: "items data i = pre @ suf \<Longrightarrow> suf = items data (end_of i pre)"
proof (induction pre arbitrary: i)
  case (Cons x pre)
  then have "i < length data" by (auto simp: items.simps [of data i] split: if_splits)
  then show ?case using Cons by (auto simp: items.simps [of data i])
qed simp

lemma end_of_ge: "items data i = pre @ suf \<Longrightarrow> i \<le> end_of i pre"
proof (induction pre arbitrary: i)
  case (Cons x pre)
  then have "i < length data" by (auto simp: items.simps [of data i] split: if_splits)
  then have x: "x = (i, kind_at data i)" and "items data (item_end x) = pre @ suf"
    using Cons.prems by (auto simp: items.simps [of data i])
  then show ?case using Cons.IH [of "item_end x"] item_end_ge [of i "kind_at data i"] by simp
qed simp

text \<open>An item of the scan: what it is, and that the next begins behind it.\<close>

lemma items_member:
  assumes "items data i = pre @ (j, k) # suf"
  shows "j < length data" and "k = kind_at data j" and "j = end_of i pre" and "suf = items data (item_end (j, k))"
proof -
  have "items data (end_of i pre) = (j, k) # suf" using items_split [OF assms] by simp
  then show "j < length data" "k = kind_at data j" "j = end_of i pre" "suf = items data (item_end (j, k))"
    by (auto simp: items.simps [of data "end_of i pre"] split: if_splits)
qed

lemma items_aligned:
  assumes "(j, k) \<in> set (items data i)"
  shows "j mod 32 = i mod 32 \<and> i \<le> j \<and> j < length data \<and> k = kind_at data j"
  using assms
proof (induction data i rule: items.induct)
  case (1 data i)
  show ?case
  proof (cases "length data \<le> i \<or> (j, k) = (i, kind_at data i)")
    case True
    then show ?thesis using 1 by (auto simp: items.simps [of data i] split: if_splits)
  next
    case False
    then have "j mod 32 = item_end (i, kind_at data i) mod 32 \<and> item_end (i, kind_at data i) \<le> j \<and> j < length data \<and> k = kind_at data j"
      using 1 by (auto simp: items.simps [of data i] split: if_splits)
    then show ?thesis using item_end_mod [of i "kind_at data i"] item_end_ge [of i "kind_at data i"] by simp
  qed
qed

text \<open>The items up to a place only depend on the octets before it, those from a place on only on the octets
  from there on.\<close>

lemma kind_at_cong:
  assumes "data' ! i = data ! i" and "data ! i = ENTRY_TYPE_FILE \<Longrightarrow> data' ! (i + 1) = data ! (i + 1)"
  shows "kind_at data' i = kind_at data i"
  using assms by (simp add: kind_at_def set_count_def)

lemma items_before:
  assumes "items data i = pre @ suf" and "length data' = length data" and "\<And>k. k < end_of i pre \<Longrightarrow> data' ! k = data ! k"
  shows "items data' i = pre @ items data' (end_of i pre)"
  using assms
proof (induction pre arbitrary: i)
  case (Cons x pre)
  then have i: "i < length data" by (auto simp: items.simps [of data i] split: if_splits)
  then have x: "x = (i, kind_at data i)" and rest: "items data (item_end x) = pre @ suf"
    using Cons.prems(1) by (auto simp: items.simps [of data i])
  have "item_end x \<le> end_of (item_end x) pre" using end_of_ge [OF rest] .
  then have "i + 1 < end_of i (x # pre)" using item_end_ge [of i "kind_at data i"] x by simp
  then have "kind_at data' i = kind_at data i" using Cons.prems(3) by (intro kind_at_cong) simp_all
  then show ?case using Cons.IH [OF rest Cons.prems(2)] Cons.prems(2,3) i x by (simp add: items.simps [of data' i])
qed simp

lemma items_after:
  assumes "length data' = length data" and "\<And>k. i \<le> k \<Longrightarrow> data' ! k = data ! k"
  shows "items data' i = items data i"
  using assms
proof (induction data i rule: items.induct)
  case (1 data i)
  then have k: "kind_at data' i = kind_at data i" by (intro kind_at_cong) simp_all
  show ?case
  proof (cases "length data \<le> i")
    case True
    then show ?thesis using 1(2) by (simp add: items.simps)
  next
    case False
    have "items data' (item_end (i, kind_at data i)) = items data (item_end (i, kind_at data i))"
      using 1 False item_end_ge [of i "kind_at data i"] by simp
    then show ?thesis using False 1(2) k by (simp add: items.simps [of data i] items.simps [of data' i])
  qed
qed

lemma set_info_cong:
  assumes "length data' = length data" and "\<And>k. i \<le> k \<Longrightarrow> k < i + (1 + set_count data i) * 32 \<Longrightarrow> data' ! k = data ! k"
  shows "set_info_at data' i = set_info_at data i" and "set_count data' i = set_count data i"
    and "i + 32 \<le> length data \<Longrightarrow> set_is_directory data' i = set_is_directory data i"
proof -
  have slice: "slice_of a b data' = slice_of a b data"
    if "\<And>k. a \<le> k \<Longrightarrow> k < b \<Longrightarrow> data' ! k = data ! k" "b \<le> length data" for a b
    using that assms(1) by (intro nth_equalityI) (simp_all add: slice_of_def)
  have parse: "parse_secondary data' n off info = parse_secondary data n off info"
    if "\<And>k. off \<le> k \<Longrightarrow> k < off + n * 32 \<Longrightarrow> data' ! k = data ! k" for n off info
    using that
  proof (induction n arbitrary: off info)
    case (Suc n)
    show ?case
    proof (cases "off + 32 \<le> length data")
      case True
      have "slice_of off (off + 32) data' = slice_of off (off + 32) data"
        by (rule slice) (use Suc.prems True in simp_all)
      then show ?thesis using Suc.IH [of "off + 32"] Suc.prems assms(1) by simp
    qed (simp add: assms(1))
  qed simp
  show c: "set_count data' i = set_count data i" using assms(2) [of "i + 1"] by (simp add: set_count_def)
  show "set_info_at data' i = set_info_at data i"
    unfolding set_info_at_def c by (rule parse) (use assms(2) in simp)
  show "set_is_directory data' i = set_is_directory data i" if "i + 32 \<le> length data"
    unfolding set_is_directory_def by (subst slice) (use assms(2) that in simp_all)
qed

lemma pre_bounds:
  assumes "items data i = pre @ suf" and "x \<in> set pre"
  shows "i \<le> fst x \<and> item_end x \<le> end_of i pre"
proof -
  obtain as bs where pre: "pre = as @ x # bs" using split_list [OF assms(2)] by blast
  obtain j k where x: "x = (j, k)" by (cases x)
  have split: "items data i = as @ (j, k) # (bs @ suf)" using assms(1) pre x by simp
  have j: "j = end_of i as" and "bs @ suf = items data (item_end x)"
    using items_member(3,4) [OF split] x by simp_all
  then have "item_end x \<le> end_of (item_end x) bs" using end_of_ge [of data "item_end x" bs suf] by simp
  moreover have "i \<le> j" using end_of_ge [of data i as "(j, k) # bs @ suf"] assms(1) pre x j by simp
  ultimately show ?thesis using pre x j by simp
qed

section \<open>Live entries and the lookup\<close>

text \<open>The names and locations of the sets before the end mark.\<close>

primrec live_items :: "nat \<Rightarrow> bytes \<Rightarrow> (nat \<times> item) list \<Rightarrow> (ustring \<times> FileEntryLocation) list" where
  "live_items c data [] = []"
| "live_items c data (x # xs) =
     (case snd x of
        KEnd \<Rightarrow> []
      | KFile n \<Rightarrow> (si_name (set_info_at data (fst x)), location_at c data (fst x)) # live_items c data xs
      | _ \<Rightarrow> live_items c data xs)"

definition has_end :: "(nat \<times> item) list \<Rightarrow> bool" where
  "has_end xs \<longleftrightarrow> KEnd \<in> snd ` set xs"

lemma has_end_simps [simp]:
  "has_end [] = False" "has_end (x # xs) \<longleftrightarrow> snd x = KEnd \<or> has_end xs" "has_end (xs @ ys) \<longleftrightarrow> has_end xs \<or> has_end ys"
  by (auto simp: has_end_def)

lemma live_append: "live_items c data (xs @ ys) = live_items c data xs @ (if has_end xs then [] else live_items c data ys)"
  by (induction xs) (auto split: item.splits)

definition named :: "(ustring \<Rightarrow> ustring) \<Rightarrow> ustring \<Rightarrow> ustring \<times> FileEntryLocation \<Rightarrow> bool" where
  "named lower target e \<longleftrightarrow> lower (fst e) = target"

lemma find_in_cluster_items:
  "find_in_cluster lower target c data i =
     (case List.find (named lower target) (live_items c data (items data i)) of
        Some e \<Rightarrow> Some (Some (snd e))
      | None \<Rightarrow> if has_end (items data i) then Some None else None)"
proof (induction lower target c data i rule: find_in_cluster.induct)
  case (1 lower target c data i)
  show ?case
  proof (cases "length data \<le> i")
    case True
    then show ?thesis by (simp add: find_in_cluster.simps [of _ _ _ _ i] items.simps [of data i])
  next
    case False
    have end_ne: "ENTRY_TYPE_FILE \<noteq> ENTRY_TYPE_END" "\<not> is_free_type ENTRY_TYPE_FILE"
      by (simp_all add: entry_types is_free_type_def)
    consider "data ! i = ENTRY_TYPE_END" | "data ! i = ENTRY_TYPE_FILE" "lower (si_name (set_info_at data i)) = target"
      | "data ! i = ENTRY_TYPE_FILE" "lower (si_name (set_info_at data i)) \<noteq> target"
      | "data ! i \<noteq> ENTRY_TYPE_END" "data ! i \<noteq> ENTRY_TYPE_FILE"
      by blast
    then show ?thesis
    proof cases
      case 1
      then show ?thesis using False by (simp add: find_in_cluster.simps [of _ _ _ _ i] items.simps [of data i] kind_at_def)
    next
      case 2
      then show ?thesis using False end_ne
        by (simp add: find_in_cluster.simps [of _ _ _ _ i] items.simps [of data i] kind_at_def named_def)
    next
      case 3
      then show ?thesis using False end_ne 1(1)
        by (simp add: find_in_cluster.simps [of _ _ _ _ i] items.simps [of data i] kind_at_def named_def)
    next
      case 4
      then show ?thesis using False 1(2)
        by (simp add: find_in_cluster.simps [of _ _ _ _ i] items.simps [of data i] kind_at_def)
    qed
  qed
qed

section \<open>Runs of unused entries\<close>

definition unused :: "nat \<times> item \<Rightarrow> bool" where
  "unused x \<longleftrightarrow> snd x = KEnd \<or> snd x = KFree"

lemma unused_simps [simp]: "unused (i, KEnd)" "unused (i, KFree)" "\<not> unused (i, KFile n)" "\<not> unused (i, KOther)"
  by (simp_all add: unused_def)

lemma end_of_run: "\<forall>x \<in> set run. unused x \<Longrightarrow> items data i = run @ suf \<Longrightarrow> end_of i run = i + 32 * length run"
proof (induction run arbitrary: i)
  case (Cons x run)
  then have "x = (i, kind_at data i)" "items data (item_end x) = run @ suf" "item_end x = i + 32"
    by (auto simp: items.simps [of data i] unused_def split: if_splits)
  then show ?case using Cons by simp
qed simp

lemma free_type_kind: "is_free_type (data ! i) \<longleftrightarrow> unused (i, kind_at data i)"
  by (auto simp: kind_at_def unused_def is_free_type_def entry_types)

definition first_run :: "bytes \<Rightarrow> nat \<Rightarrow> nat \<Rightarrow> bool" where
  "first_run data needed off \<longleftrightarrow>
     (\<exists>pre run suf. items data 0 = pre @ run @ suf \<and> (\<forall>x \<in> set run. unused x) \<and> length run = needed \<and>
        off = end_of 0 pre \<and> (pre = [] \<or> \<not> unused (last pre)))"

lemma free_slot_sound:
  assumes "free_slot_in_cluster data needed i cf st = Some off" and "items data 0 = pre @ run @ items data i"
    and "\<forall>x \<in> set run. unused x" and "length run = cf" and "cf < needed" and "0 < cf \<longrightarrow> st = end_of 0 pre"
    and "pre = [] \<or> \<not> unused (last pre)" and "i = end_of 0 (pre @ run)"
  shows "first_run data needed off"
  using assms
proof (induction data needed i cf st arbitrary: pre run rule: free_slot_in_cluster.induct)
  case (1 data needed i cf st)
  have i: "i < length data" using 1(4,8) by (auto simp: free_slot_in_cluster.simps [of data needed i] split: if_splits)
  have it: "items data i = (i, kind_at data i) # items data (item_end (i, kind_at data i))"
    using i by (simp add: items.simps [of data i])
  let ?x = "(i, kind_at data i)"
  show ?case
  proof (cases "is_free_type (data ! i)")
    case True
    let ?st = "if cf = 0 then i else st"
    have x: "unused ?x" using True by (simp add: free_type_kind)
    then have e: "item_end ?x = i + 32" by (cases "kind_at data i") simp_all
    have st: "?st = end_of 0 pre" using 1(7,9,11) by auto
    have all: "items data 0 = pre @ (run @ [?x]) @ items data (i + 32)" using 1(5) it e by simp
    show ?thesis
    proof (cases "needed \<le> cf + 1")
      case True
      then have "off = ?st" using 1(4) i \<open>is_free_type (data ! i)\<close>
        by (simp add: free_slot_in_cluster.simps [of data needed i] split: if_splits)
      then show ?thesis unfolding first_run_def
        using all x 1(6,7,8,10) st True by (intro exI [of _ pre] exI [of _ "run @ [?x]"] exI [of _ "items data (i + 32)"]) auto
    next
      case False
      have "free_slot_in_cluster data needed (i + 32) (cf + 1) ?st = Some off"
        using 1(4) i True False by (simp add: free_slot_in_cluster.simps [of data needed i] split: if_splits)
      then show ?thesis
        using 1(1) [of ?st pre "run @ [?x]"] i True False all x 1(6,7,10,11) st e by auto
    qed
  next
    case False
    then have x: "\<not> unused ?x" by (simp add: free_type_kind)
    have all: "items data 0 = (pre @ run @ [?x]) @ [] @ items data (item_end ?x)" using 1(5) it by simp
    show ?thesis
    proof (cases "data ! i = ENTRY_TYPE_FILE")
      case True
      then have e: "item_end ?x = i + (1 + set_count data i) * 32"
        using False by (auto simp: kind_at_def entry_types is_free_type_def)
      have go: "free_slot_in_cluster data needed (item_end ?x) 0 st = Some off"
        using 1(4) i False True e by (simp add: free_slot_in_cluster.simps [of data needed i])
      show ?thesis
        by (rule 1(2) [OF _ False True go [unfolded e], of "pre @ run @ [?x]" "[]"]) (use 1(8,11) i all x e in simp_all)
    next
      case F: False
      then have e: "item_end ?x = i + 32"
        using False by (auto simp: kind_at_def entry_types is_free_type_def)
      have go: "free_slot_in_cluster data needed (item_end ?x) 0 st = Some off"
        using 1(4) i False F e by (simp add: free_slot_in_cluster.simps [of data needed i])
      show ?thesis
        by (rule 1(3) [OF _ False F go [unfolded e], of "pre @ run @ [?x]" "[]"]) (use 1(8,11) i all x e in simp_all)
    qed
  qed
qed

lemma free_slot_run: "free_slot_in_cluster data needed 0 0 0 = Some off \<Longrightarrow> 0 < needed \<Longrightarrow> first_run data needed off"
  by (erule free_slot_sound [where pre = "[]" and run = "[]"]) simp_all

section \<open>Well-formed clusters\<close>

text \<open>Every set lies inside the cluster, no secondary entry would read as the end mark when marked deleted, and
  behind an end mark there is nothing.\<close>

definition set_inside :: "bytes \<Rightarrow> nat \<times> item \<Rightarrow> bool" where
  "set_inside data x \<longleftrightarrow>
     (case x of (i, KFile n) \<Rightarrow> i + (1 + n) * 32 \<le> length data \<and> (\<forall>j \<in> {1..n}. data ! (i + 32 * j) AND 0x7F \<noteq> 0)
      | _ \<Rightarrow> True)"

definition ends_last :: "(nat \<times> item) list \<Rightarrow> bool" where
  "ends_last xs \<longleftrightarrow> (\<exists>as bs. xs = as @ bs \<and> \<not> has_end as \<and> (\<forall>x \<in> set bs. snd x = KEnd))"

definition cluster_wf :: "bytes \<Rightarrow> bool" where
  "cluster_wf data \<longleftrightarrow> length data mod 32 = 0 \<and> (\<forall>x \<in> set (items data 0). set_inside data x) \<and> ends_last (items data 0)"

lemma ends_last_appendD:
  assumes "ends_last (xs @ ys)"
  shows "ends_last xs" and "ends_last ys" and "has_end xs \<Longrightarrow> \<forall>y \<in> set ys. snd y = KEnd"
proof -
  obtain as bs where e: "xs @ ys = as @ bs" "\<not> has_end as" "\<forall>x \<in> set bs. snd x = KEnd"
    using assms by (auto simp: ends_last_def)
  then consider us where "xs = as @ us" "bs = us @ ys" | us where "as = xs @ us" "ys = us @ bs"
    by (auto simp: append_eq_append_conv2)
  then have "ends_last xs \<and> ends_last ys \<and> (has_end xs \<longrightarrow> (\<forall>y \<in> set ys. snd y = KEnd))"
  proof cases
    case 1
    then have "ends_last xs" "ends_last ys" using e unfolding ends_last_def
      by (auto intro: exI [of _ as] exI [of _ "[]"])
    then show ?thesis using 1 e by auto
  next
    case 2
    then have "\<not> has_end xs" "\<not> has_end us" using e by auto
    then show ?thesis using 2 e unfolding ends_last_def
      by (intro conjI exI [of _ xs] exI [of _ "[]"] exI [of _ us] exI [of _ bs]) auto
  qed
  then show "ends_last xs" "ends_last ys" "has_end xs \<Longrightarrow> \<forall>y \<in> set ys. snd y = KEnd" by blast+
qed

lemma ends_last_append:
  assumes "ends_last xs" and "ends_last ys" and "has_end xs \<Longrightarrow> \<forall>y \<in> set ys. snd y = KEnd"
  shows "ends_last (xs @ ys)"
proof (cases "has_end xs")
  case True
  obtain as bs where "xs = as @ bs" "\<not> has_end as" "\<forall>x \<in> set bs. snd x = KEnd" using assms(1) by (auto simp: ends_last_def)
  then show ?thesis using assms(3) [OF True] unfolding ends_last_def
    by (intro exI [of _ as] exI [of _ "bs @ ys"]) auto
next
  case False
  obtain as bs where "ys = as @ bs" "\<not> has_end as" "\<forall>x \<in> set bs. snd x = KEnd" using assms(2) by (auto simp: ends_last_def)
  then show ?thesis using False unfolding ends_last_def
    by (intro exI [of _ "xs @ as"] exI [of _ bs]) auto
qed

lemma ends_last_no_end: "\<not> has_end xs \<Longrightarrow> ends_last xs"
  unfolding ends_last_def by (intro exI [of _ xs] exI [of _ "[]"]) simp

text \<open>The slot found lies before any end mark, or at the first.\<close>

lemma run_before_end:
  assumes "ends_last (pre @ run @ suf)" and "pre = [] \<or> \<not> unused (last pre)"
  shows "\<not> has_end pre"
proof (cases "pre = []")
  case False
  have e: "ends_last (butlast pre @ [last pre])" using ends_last_appendD(1) [OF assms(1)] False by simp
  have l: "snd (last pre) \<noteq> KEnd" using assms(2) False by (auto simp: unused_def)
  then have "\<not> has_end (butlast pre)" using ends_last_appendD(3) [OF e] by auto
  then have "\<not> has_end (butlast pre @ [last pre])" using l by simp
  then show ?thesis using False by simp
qed simp

lemma live_no_sets: "\<forall>x \<in> set xs. unused x \<Longrightarrow> live_items c data xs = []"
  by (induction xs) (auto simp: unused_def)

lemma live_items_cong:
  assumes "\<And>i n. (i, KFile n) \<in> set xs \<Longrightarrow> set_info_at data' i = set_info_at data i \<and> set_count data' i = set_count data i \<and>
      set_is_directory data' i = set_is_directory data i"
  shows "live_items c data' xs = live_items c data xs"
  using assms
proof (induction xs)
  case (Cons x xs)
  obtain i k where x: "x = (i, k)" by (cases x)
  have "live_items c data' xs = live_items c data xs" using Cons by auto
  moreover have "location_at c data' i = location_at c data i \<and> set_info_at data' i = set_info_at data i" if "k = KFile n" for n
    using Cons.prems [of i n] that x by (simp add: location_at_def)
  ultimately show ?case using x by (auto split: item.splits)
qed simp

lemma aligned_room: "(i :: nat) < n \<Longrightarrow> i mod 32 = 0 \<Longrightarrow> n mod 32 = 0 \<Longrightarrow> i + 32 \<le> n"
  by presburger

text \<open>An octet inside a set is the set's.\<close>

lemma pre_info_same:
  assumes "items data 0 = pre @ suf" and "length data' = length data" and "length data mod 32 = 0"
    and "\<And>k. k < end_of 0 pre \<Longrightarrow> data' ! k = data ! k"
  shows "live_items c data' pre = live_items c data pre"
    and "\<forall>x \<in> set pre. set_inside data x \<Longrightarrow> \<forall>x \<in> set pre. set_inside data' x"
proof -
  have mem: "i + (1 + n) * 32 \<le> end_of 0 pre \<and> i + 32 \<le> length data \<and> n = set_count data i" if "(i, KFile n) \<in> set pre" for i n
  proof -
    have "i < length data \<and> i mod 32 = 0 \<and> KFile n = kind_at data i"
      using items_aligned [of i "KFile n" data 0] that assms(1) by simp
    moreover from this have "n = set_count data i" by (auto simp: kind_at_def split: if_splits)
    moreover have "i + (1 + n) * 32 \<le> end_of 0 pre" using pre_bounds [OF assms(1) that] by simp
    ultimately show ?thesis using assms(3) aligned_room [of i "length data"] by simp
  qed
  show "live_items c data' pre = live_items c data pre"
  proof (rule live_items_cong)
    fix i n
    assume "(i, KFile n) \<in> set pre"
    then show "set_info_at data' i = set_info_at data i \<and> set_count data' i = set_count data i \<and>
        set_is_directory data' i = set_is_directory data i"
      using mem [of i n] assms(2,4) by (intro conjI set_info_cong) auto
  qed
  show "\<forall>x \<in> set pre. set_inside data' x" if "\<forall>x \<in> set pre. set_inside data x"
  proof
    fix x
    assume x: "x \<in> set pre"
    obtain i k where ik: "x = (i, k)" by (cases x)
    show "set_inside data' x"
    proof (cases k)
      case (KFile n)
      have "data' ! (i + 32 * j) = data ! (i + 32 * j)" if "j \<le> n" for j
        using mem [of i n] x ik KFile that assms(4) by simp
      then show ?thesis using that x ik KFile assms(2) by (fastforce simp: set_inside_def)
    qed (simp_all add: set_inside_def ik)
  qed
qed

lemma suf_info_same:
  assumes "length data' = length data" and "length data mod 32 = 0" and "i mod 32 = 0"
    and "\<And>k. i \<le> k \<Longrightarrow> data' ! k = data ! k"
  shows "live_items c data' (items data i) = live_items c data (items data i)"
    and "\<forall>x \<in> set (items data i). set_inside data x \<Longrightarrow> \<forall>x \<in> set (items data i). set_inside data' x"
proof -
  have mem: "i \<le> j \<and> j + 32 \<le> length data" if "(j, k) \<in> set (items data i)" for j k
    using items_aligned [OF that] assms(2,3) aligned_room [of j "length data"] by simp
  show "live_items c data' (items data i) = live_items c data (items data i)"
  proof (rule live_items_cong)
    fix j n
    assume "(j, KFile n) \<in> set (items data i)"
    then show "set_info_at data' j = set_info_at data j \<and> set_count data' j = set_count data j \<and>
        set_is_directory data' j = set_is_directory data j"
      using mem [of j "KFile n"] assms(1,4) by (intro conjI set_info_cong) auto
  qed
  show "\<forall>x \<in> set (items data i). set_inside data' x" if "\<forall>x \<in> set (items data i). set_inside data x"
  proof
    fix x
    assume x: "x \<in> set (items data i)"
    obtain j k where jk: "x = (j, k)" by (cases x)
    show "set_inside data' x"
      using that x jk mem [of j k] assms(1,4) by (fastforce simp: set_inside_def split: item.splits)
  qed
qed

section \<open>Writing a set\<close>

lemma length_concat32: "\<forall>e \<in> set es. length e = 32 \<Longrightarrow> length (concat es) = 32 * length es"
  by (induction es) simp_all

lemma nth_concat32:
  assumes "\<forall>e \<in> set es. length e = 32" and "j < length es" and "b < 32"
  shows "concat es ! (32 * j + b) = es ! j ! b"
  using assms
proof (induction es arbitrary: j)
  case (Cons e es)
  then show ?case by (cases j) (simp_all add: nth_append)
qed simp

text \<open>An entry set as the code makes it: the head counts the others, whose types survive the delete mark.\<close>

definition entry_set :: "bytes list \<Rightarrow> bool" where
  "entry_set es \<longleftrightarrow> es \<noteq> [] \<and> (\<forall>e \<in> set es. length e = 32) \<and> hd es ! 0 = ENTRY_TYPE_FILE \<and> length es \<le> 256 \<and>
     hd es ! 1 = of_nat (length es - 1) \<and> (\<forall>e \<in> set (tl es). e ! 0 AND 0x7F \<noteq> 0)"

definition set_location :: "nat \<Rightarrow> nat \<Rightarrow> bytes list \<Rightarrow> FileEntryLocation" where
  "set_location c off es =
     (let info = fold secondary_info (tl es) set_info_init in
      \<lparr>directory_cluster = c, entry_offset = off, first_cluster = si_first_cluster info, data_length = si_data_length info,
       secondary_count = length es - 1,
       is_directory = ((of_nat (le_val (slice_of 4 6 (hd es))) :: u16) AND ATTR_DIRECTORY \<noteq> 0),
       no_fat_chain = si_no_fat_chain info\<rparr>)"

lemma set_read_back:
  assumes "entry_set es" and "off + 32 * length es \<le> length data" and "data' = copy_slice off (concat es) data"
  shows "data' ! off = ENTRY_TYPE_FILE" and "set_count data' off = length es - 1"
    and "set_info_at data' off = fold secondary_info (tl es) set_info_init"
    and "location_at c data' off = set_location c off es"
    and "\<And>j. 0 < j \<Longrightarrow> j < length es \<Longrightarrow> data' ! (off + 32 * j) AND 0x7F \<noteq> 0"
proof -
  obtain h secs where es: "es = h # secs" using assms(1) by (cases es) (auto simp: entry_set_def)
  have all32: "\<forall>e \<in> set es. length e = 32" using assms(1) by (simp add: entry_set_def)
  note len = length_concat32 [OF all32]
  have nth: "data' ! (off + (32 * j + b)) = es ! j ! b" if "j < length es" "b < 32" for j b
  proof -
    have "32 * j + b < 32 * length es" using that by simp
    then show ?thesis using nth_copy_slice [of off "concat es" data "off + (32 * j + b)"] len assms(2,3)
        nth_concat32 [OF all32 that] by simp
  qed
  show "data' ! off = ENTRY_TYPE_FILE" using nth [of 0 0] assms(1) es by (simp add: entry_set_def)
  show cnt: "set_count data' off = length es - 1"
    using nth [of 0 1] assms(1) es by (simp add: entry_set_def set_count_def unat_of_nat)
  have "slice_of off (off + 32 * length es) data' = concat es"
    using slice_copy_same [of off "concat es" data] len assms(2,3) by simp
  then have "slice_of off (off + 32) data' @ slice_of (off + 32) (off + 32 * length es) data' = h @ concat secs"
    using slice_of_split [of off "off + 32" "off + 32 * length es" data'] es by simp
  moreover have "length (slice_of off (off + 32) data') = length h"
    using all32 es assms(2,3) len by simp
  ultimately have head: "slice_of off (off + 32) data' = h"
    and rest: "slice_of (off + 32) (off + 32 + 32 * length secs) data' = concat secs"
    using es by (simp_all add: append_eq_append_conv add.assoc)
  show info: "set_info_at data' off = fold secondary_info (tl es) set_info_init"
    using parse_secondary_fold [OF _ rest] all32 es cnt len assms(2,3) by (simp add: set_info_at_def)
  have "slice_of 4 6 (slice_of off (off + 32) data') = slice_of (off + 4) (off + 6) data'"
    by (simp add: slice_of_def drop_take add.commute)
  then have "set_is_directory data' off \<longleftrightarrow> (of_nat (le_val (slice_of 4 6 h)) :: u16) AND ATTR_DIRECTORY \<noteq> 0"
    using head by (simp add: set_is_directory_def)
  then show "location_at c data' off = set_location c off es"
    using info cnt es by (simp add: location_at_def set_location_def Let_def)
  show "data' ! (off + 32 * j) AND 0x7F \<noteq> 0" if "0 < j" "j < length es" for j
    using nth [of j 0] that assms(1) es by (cases j) (auto simp: entry_set_def)
qed

lemma items_length_mod:
  assumes "items data i = pre @ suf" and "i mod 32 = 0"
  shows "end_of i pre mod 32 = 0"
  using assms
proof (induction pre arbitrary: i)
  case (Cons x pre)
  then have "x = (i, kind_at data i)" "items data (item_end x) = pre @ suf"
    by (auto simp: items.simps [of data i] split: if_splits)
  then show ?case using Cons item_end_mod [of i "kind_at data i"] by simp
qed simp

lemma run_room:
  assumes "length data mod 32 = 0" and "items data 0 = pre @ run @ suf" and "\<forall>x \<in> set run. unused x" and "run \<noteq> []"
  shows "end_of 0 pre + 32 * length run \<le> length data" and "end_of 0 (pre @ run) = end_of 0 pre + 32 * length run"
    and "end_of 0 pre mod 32 = 0"
proof -
  have run: "items data (end_of 0 pre) = run @ suf" using items_split [OF assms(2)] by simp
  show e: "end_of 0 (pre @ run) = end_of 0 pre + 32 * length run" using end_of_run [OF assms(3) run] by simp
  show m: "end_of 0 pre mod 32 = 0" using items_length_mod [of data 0 pre] assms(2) by simp
  obtain i k where l: "last run = (i, k)" by (cases "last run")
  have split: "items data 0 = (pre @ butlast run) @ (i, k) # suf"
    using assms(2,4) l append_butlast_last_id [OF assms(4)] by simp
  have "end_of 0 (pre @ butlast run) = end_of 0 pre + 32 * (length run - 1)"
    using end_of_run [of "butlast run" data "end_of 0 pre" "last run # suf"] assms(3,4) run
      append_butlast_last_id [OF assms(4)] by (auto dest: in_set_butlastD)
  then have "i = end_of 0 pre + 32 * (length run - 1)" "i < length data" using items_member(1,3) [OF split] by simp_all
  then show "end_of 0 pre + 32 * length run \<le> length data"
    using m assms(1,4) aligned_room [of i "length data"] by (cases run) auto
qed

lemma written_set:
  assumes wf: "cluster_wf data" and run: "first_run data (length es) off" and es: "entry_set es"
    and d: "data' = copy_slice off (concat es) data"
  shows "off + 32 * length es \<le> length data" and "off mod 32 = 0" and "cluster_wf data'"
    and "has_end (items data' 0) \<Longrightarrow> has_end (items data 0)"
    and "\<exists>A B. live_items c data (items data 0) = A @ B \<and> live_items c data' (items data' 0) =
      A @ (si_name (fold secondary_info (tl es) set_info_init), set_location c off es) # B"
proof -
  have es32: "\<forall>e \<in> set es. length e = 32" and ne: "es \<noteq> []" and l256: "length es \<le> 256" using es by (simp_all add: entry_set_def)
  note lc = length_concat32 [OF es32]
  obtain pre rn suf where its: "items data 0 = pre @ rn @ suf" and u: "\<forall>x \<in> set rn. unused x" and n: "length rn = length es"
    and off: "off = end_of 0 pre" and mx: "pre = [] \<or> \<not> unused (last pre)" using run by (auto simp: first_run_def)
  have m32: "length data mod 32 = 0" and el: "ends_last (pre @ rn @ suf)" and ins: "\<forall>x \<in> set (items data 0). set_inside data x"
    using wf its by (simp_all add: cluster_wf_def)
  have rne: "rn \<noteq> []" using n ne by (metis length_0_conv)
  note room = run_room [OF m32 its u rne]
  show fit: "off + 32 * length es \<le> length data" and "off mod 32 = 0" using room off n by simp_all
  have len: "length data' = length data" using d fit lc by simp
  have same: "data' ! k = data ! k" if "k < off \<or> off + 32 * length es \<le> k" for k
  proof (cases "k < length data")
    case True
    then show ?thesis using that d nth_copy_slice [of off "concat es" data k] fit lc by auto
  next
    case False
    then have "\<not> k < off" "\<not> k - off < length (concat es)" using fit lc by simp_all
    then show ?thesis using fit lc d by (simp add: copy_slice_def nth_append)
  qed
  note rb = set_read_back [OF es fit d]
  have suf: "suf = items data (off + 32 * length es)"
    using items_split [of data 0 "pre @ rn" suf] its room(2) off n by simp
  have "items data' 0 = pre @ items data' off"
    using items_before [OF its len] same off by simp
  moreover have "items data' off = (off, KFile (length es - 1)) # items data' (off + 32 * length es)"
  proof -
    have "kind_at data' off = KFile (length es - 1)"
      using rb(1,2) by (simp add: kind_at_def entry_types is_free_type_def)
    moreover have "off < length data'" using fit len ne by (cases es) simp_all
    ultimately show ?thesis using ne by (cases es) (simp_all add: items.simps [of data' off] algebra_simps)
  qed
  moreover have "items data' (off + 32 * length es) = suf"
    unfolding suf by (rule items_after [OF len]) (use same in simp)
  ultimately have new: "items data' 0 = pre @ (off, KFile (length es - 1)) # suf" by simp
  have noend: "\<not> has_end pre" by (rule run_before_end [OF el mx])
  have off32: "(off + 32 * length es) mod 32 = 0" using \<open>off mod 32 = 0\<close> by simp
  have pre_same: "k < end_of 0 pre \<Longrightarrow> data' ! k = data ! k" for k using same off by simp
  have suf_same: "off + 32 * length es \<le> k \<Longrightarrow> data' ! k = data ! k" for k using same by simp
  have insp: "\<forall>x \<in> set pre. set_inside data' x"
    by (rule pre_info_same(2) [OF its len m32 pre_same]) (use ins its in auto)
  have inss: "\<forall>x \<in> set suf. set_inside data' x"
    using suf_info_same(2) [OF len m32 off32 suf_same] ins its unfolding suf [symmetric] by auto
  have "set_inside data' (off, KFile (length es - 1))"
  proof -
    have "data' ! (off + 32 * j) AND 0x7F \<noteq> 0" if "j \<in> {1..length es - 1}" for j
      using rb(5) [of j] that ne by (cases es) auto
    moreover have "off + (1 + (length es - 1)) * 32 \<le> length data'" using fit len ne by (cases es) auto
    ultimately show ?thesis by (simp add: set_inside_def)
  qed
  moreover have "ends_last (pre @ (off, KFile (length es - 1)) # suf)"
  proof -
    have "ends_last suf" using ends_last_appendD(2) [of "pre @ rn" suf] el by simp
    then have "ends_last ([(off, KFile (length es - 1))] @ suf)"
      by (rule ends_last_append [OF ends_last_no_end, rotated]) simp_all
    then show ?thesis using ends_last_append [OF ends_last_no_end [OF noend]] noend by simp
  qed
  ultimately show "cluster_wf data'" using new insp inss m32 len by (auto simp: cluster_wf_def)
  show "has_end (items data' 0) \<Longrightarrow> has_end (items data 0)" using new its noend by simp
  have livesuf: "live_items c data' suf = live_items c data suf"
    using suf_info_same(1) [OF len m32 off32 suf_same] unfolding suf [symmetric] by simp
  have "live_items c data (items data 0) = live_items c data pre @ live_items c data suf"
  proof (cases "has_end rn")
    case True
    then have "\<forall>y \<in> set suf. snd y = KEnd"
      using ends_last_appendD(3) [of rn suf] ends_last_appendD(2) [of pre "rn @ suf"] el by simp
    then have "live_items c data suf = []" by (intro live_no_sets) (auto simp: unused_def)
    then show ?thesis using its noend True live_no_sets [OF u] by (simp add: live_append)
  next
    case False
    then show ?thesis using its noend live_no_sets [OF u] by (simp add: live_append)
  qed
  moreover have "live_items c data' (items data' 0) = live_items c data pre @
      (si_name (fold secondary_info (tl es) set_info_init), set_location c off es) # live_items c data suf"
    using new noend rb(3,4) livesuf pre_info_same(1) [OF its len m32 pre_same] by (simp add: live_append)
  ultimately show "\<exists>A B. live_items c data (items data 0) = A @ B \<and> live_items c data' (items data' 0) =
      A @ (si_name (fold secondary_info (tl es) set_info_init), set_location c off es) # B" by blast
qed

section \<open>Marking a set deleted\<close>

lemma length_mark_secondaries [simp]: "length (mark_secondaries offs data) = length data"
  by (induction offs data rule: mark_secondaries.induct) simp_all

lemma nth_mark_secondaries:
  assumes "distinct offs" and "k < length data"
  shows "mark_secondaries offs data ! k = (if k \<in> set offs then mark_deleted (data ! k) else data ! k)"
  using assms by (induction offs data rule: mark_secondaries.induct) (auto simp: nth_list_update)

lemma mark_deleted_kind: "t AND 0x7F \<noteq> 0 \<Longrightarrow> mark_deleted t \<noteq> ENTRY_TYPE_END \<and> mark_deleted t \<noteq> ENTRY_TYPE_FILE"
proof -
  assume t: "t AND 0x7F \<noteq> 0"
  have "t AND 0x7F \<noteq> (0x85 :: u8)"
  proof
    assume e: "t AND 0x7F = 0x85"
    have "(t AND 0x7F) AND 0x7F = t AND 0x7F" by simp
    then show False unfolding e by simp
  qed
  then show ?thesis using t by (auto simp: mark_deleted_def entry_types)
qed

lemma items_no_sets:
  assumes "\<And>j. j < m \<Longrightarrow> i + 32 * j < length data \<and> data ! (i + 32 * j) \<noteq> ENTRY_TYPE_FILE"
  shows "items data i = map (\<lambda>j. (i + 32 * j, kind_at data (i + 32 * j))) [0..<m] @ items data (i + 32 * m)"
  using assms
proof (induction m)
  case (Suc m)
  let ?j = "i + 32 * m"
  have "item_end (?j, kind_at data ?j) = i + 32 * Suc m"
    using Suc.prems [of m] by (cases "kind_at data ?j") (auto simp: kind_at_def split: if_splits)
  then have "items data ?j = (?j, kind_at data ?j) # items data (i + 32 * Suc m)"
    using Suc.prems [of m] by (simp add: items.simps [of data ?j])
  then show ?case using Suc by simp
qed simp

lemma deleted_set:
  assumes wf: "cluster_wf data" and its: "items data 0 = pre @ (off, KFile n) # suf"
    and d: "data' = mark_secondaries (map (\<lambda>i. off + i * 32) [1..<n + 1]) (data[off := ENTRY_TYPE_DELETED_FILE])"
  shows "cluster_wf data'" and "has_end (items data' 0) = has_end (items data 0)" and "off < length data"
    and "live_items c data (items data 0) =
      live_items c data pre @ (si_name (set_info_at data off), location_at c data off) # live_items c data suf"
    and "live_items c data' (items data' 0) = live_items c data pre @ live_items c data suf"
proof -
  have m32: "length data mod 32 = 0" and el: "ends_last (pre @ (off, KFile n) # suf)"
    and ins: "\<forall>x \<in> set (items data 0). set_inside data x"
    using wf its by (simp_all add: cluster_wf_def)
  note mem = items_member [OF its]
  have noend: "\<not> has_end pre" using ends_last_appendD(3) [OF el] by auto
  have off32: "off mod 32 = 0" using items_aligned [of off "KFile n" data 0] its by simp
  have fit: "off + (1 + n) * 32 \<le> length data" and types: "\<forall>j \<in> {1..n}. data ! (off + 32 * j) AND 0x7F \<noteq> 0"
    using ins its by (auto simp: set_inside_def)
  show "off < length data" using mem(1) .
  have suf: "suf = items data (off + (1 + n) * 32)" using mem(4) by simp
  have len: "length data' = length data" using d by simp
  have dist: "distinct (map (\<lambda>i. off + i * 32) [1..<n + 1])" by (simp add: distinct_map inj_on_def)
  have nth: "data' ! k = (if k \<in> (\<lambda>i. off + i * 32) ` {1..<n + 1} then mark_deleted (data[off := ENTRY_TYPE_DELETED_FILE] ! k)
      else data[off := ENTRY_TYPE_DELETED_FILE] ! k)" if "k < length data" for k
    unfolding d using nth_mark_secondaries [OF dist, of k "data[off := ENTRY_TYPE_DELETED_FILE]"] that
    by (simp only: length_list_update set_map set_upt)
  have same: "data' ! k = data ! k" if "k < off \<or> off + (1 + n) * 32 \<le> k" for k
  proof (cases "k < length data")
    case True
    have "k \<notin> (\<lambda>i. off + i * 32) ` {1..<n + 1}" using that by auto
    then show ?thesis using nth [OF True] that by (auto simp: nth_list_update)
  next
    case False
    then show ?thesis by (intro same_beyond len) simp
  qed
  have head: "data' ! off = ENTRY_TYPE_DELETED_FILE" using nth [OF mem(1)] mem(1) by auto
  have secs: "data' ! (off + 32 * j) = mark_deleted (data ! (off + 32 * j))" if "j \<in> {1..n}" for j
  proof -
    have "off + 32 * j \<in> (\<lambda>i. off + i * 32) ` {1..<n + 1}" using that by (auto intro: image_eqI [of _ _ j])
    moreover have "off + 32 * j < length data" using that fit by auto
    ultimately show ?thesis using nth [of "off + 32 * j"] that by (simp add: nth_list_update)
  qed
  have region: "off + 32 * j < length data' \<and> data' ! (off + 32 * j) \<noteq> ENTRY_TYPE_FILE \<and> data' ! (off + 32 * j) \<noteq> ENTRY_TYPE_END"
    if "j < n + 1" for j
  proof (cases "j = 0")
    case True
    then show ?thesis using head mem(1) len by (simp add: entry_types)
  next
    case False
    then have j: "j \<in> {1..n}" using that by simp
    then have "off + 32 * j < length data" using fit by auto
    then show ?thesis using secs [OF j] mark_deleted_kind types j len by simp
  qed
  define mid where "mid = map (\<lambda>j. (off + 32 * j, kind_at data' (off + 32 * j))) [0..<n + 1]"
  have pre_same: "k < end_of 0 pre \<Longrightarrow> data' ! k = data ! k" for k using same [of k] mem(1,3) by simp
  have "items data' 0 = pre @ items data' off" using items_before [OF its len pre_same] mem(3) by simp
  moreover have "items data' off = mid @ items data' (off + (1 + n) * 32)"
    using items_no_sets [of "n + 1" off data'] region by (simp add: mid_def algebra_simps)
  moreover have "items data' (off + (1 + n) * 32) = suf"
    unfolding suf by (rule items_after [OF len]) (use same in simp)
  ultimately have new: "items data' 0 = pre @ mid @ suf" by simp
  have midk: "\<not> has_end mid" "\<And>c. live_items c data' mid = []" "\<forall>x \<in> set mid. set_inside data' x"
  proof -
    have k: "kind_at data' (off + 32 * j) = KFree \<or> kind_at data' (off + 32 * j) = KOther" if "j < n + 1" for j
      using region [OF that] by (simp add: kind_at_def)
    then have "\<forall>x \<in> set mid. snd x = KFree \<or> snd x = KOther" by (auto simp: mid_def)
    then show "\<not> has_end mid" "\<forall>x \<in> set mid. set_inside data' x" "\<And>c. live_items c data' mid = []"
    proof (induction mid)
      case (Cons x xs)
      {
        case 1
        then show ?case using Cons by auto
      next
        case 2
        then show ?case using Cons by (auto simp: set_inside_def split: prod.splits)
      next
        case 3
        then show ?case using Cons by auto
      }
    qed simp_all
  qed
  have off2: "(off + (1 + n) * 32) mod 32 = 0" using off32 by (simp only: mod_mult_self1)
  have suf_same: "off + (1 + n) * 32 \<le> k \<Longrightarrow> data' ! k = data ! k" for k using same by simp
  have "\<forall>x \<in> set pre. set_inside data' x"
    by (rule pre_info_same(2) [OF its len m32 pre_same]) (use ins its in auto)
  moreover have "\<forall>x \<in> set suf. set_inside data' x"
    using suf_info_same(2) [OF len m32 off2 suf_same] ins its unfolding suf [symmetric] by auto
  moreover have "ends_last (pre @ mid @ suf)"
    using ends_last_appendD(2) [of "pre @ [(off, KFile n)]" suf] el noend midk(1)
      ends_last_append [OF ends_last_no_end, of pre "mid @ suf"] ends_last_append [OF ends_last_no_end, of mid suf]
    by simp
  ultimately show "cluster_wf data'" using new midk(3) m32 len by (auto simp: cluster_wf_def)
  show "has_end (items data' 0) = has_end (items data 0)" using new its noend midk(1) by simp
  show "live_items c data (items data 0) =
      live_items c data pre @ (si_name (set_info_at data off), location_at c data off) # live_items c data suf"
    using its noend by (simp add: live_append)
  have "live_items c data' suf = live_items c data suf"
    using suf_info_same(1) [OF len m32 off2 suf_same] unfolding suf [symmetric] by simp
  then show "live_items c data' (items data' 0) = live_items c data pre @ live_items c data suf"
    using new noend midk pre_info_same(1) [OF its len m32 pre_same] by (simp add: live_append)
qed

section \<open>Clearing end marks\<close>

lemma clear_nth: "k < length data \<Longrightarrow> clear_end_marks data ! k =
    (if k mod 32 = 0 \<and> data ! k = ENTRY_TYPE_END then ENTRY_TYPE_DELETED_FILE else data ! k)"
  by (simp add: clear_end_marks_def)

lemma length_clear [simp]: "length (clear_end_marks data) = length data"
  by (simp add: clear_end_marks_def)

definition cleared :: "nat \<times> item \<Rightarrow> nat \<times> item" where
  "cleared x = (fst x, if snd x = KEnd then KFree else snd x)"

lemma item_end_cleared: "item_end (cleared x) = item_end x"
  by (cases x; cases "snd x") (simp_all add: cleared_def)

lemma items_cleared:
  assumes "length data mod 32 = 0" and "i mod 32 = 0"
  shows "items (clear_end_marks data) i = map cleared (items data i)"
  using assms
proof (induction data i rule: items.induct)
  case (1 data i)
  show ?case
  proof (cases "length data \<le> i")
    case True
    then show ?thesis by (simp add: items.simps)
  next
    case False
    then have room: "i + 32 \<le> length data" using 1(2,3) aligned_room [of i "length data"] by simp
    have "(i + 1) mod 32 \<noteq> 0" using 1(3) by presburger
    then have c: "set_count (clear_end_marks data) i = set_count data i" using room by (simp add: set_count_def clear_nth)
    have k: "kind_at (clear_end_marks data) i = snd (cleared (i, kind_at data i))"
      using room 1(3) c by (auto simp: kind_at_def clear_nth cleared_def is_free_type_def entry_types)
    have e: "item_end (i, kind_at data i) mod 32 = 0" using item_end_mod [of i "kind_at data i"] 1(3) by simp
    have "item_end (i, snd (cleared (i, kind_at data i))) = item_end (i, kind_at data i)"
      using item_end_cleared [of "(i, kind_at data i)"] by (simp add: cleared_def)
    then show ?thesis using 1(1) [OF False 1(2) e] False k
      by (simp add: items.simps [of data i] items.simps [of "clear_end_marks data" i] cleared_def)
  qed
qed

lemma cleared_cluster:
  assumes wf: "cluster_wf data"
  shows "cluster_wf (clear_end_marks data)" and "\<not> has_end (items (clear_end_marks data) 0)"
    and "live_items c (clear_end_marks data) (items (clear_end_marks data) 0) = live_items c data (items data 0)"
proof -
  let ?d = "clear_end_marks data"
  have m32: "length data mod 32 = 0" and el: "ends_last (items data 0)" and ins: "\<forall>x \<in> set (items data 0). set_inside data x"
    using wf by (simp_all add: cluster_wf_def)
  have its: "items ?d 0 = map cleared (items data 0)" using items_cleared [OF m32, of 0] by simp
  show ne: "\<not> has_end (items ?d 0)" by (auto simp: its has_end_def cleared_def split: if_splits)
  have same: "?d ! k = data ! k" if "(i, KFile n) \<in> set (items data 0)" "i \<le> k" "k < i + (1 + n) * 32" for i n k
  proof (cases "k mod 32 = 0")
    case True
    have i: "i mod 32 = 0" "KFile n = kind_at data i" using items_aligned [OF that(1)] by simp_all
    have s: "i + (1 + n) * 32 \<le> length data" "\<forall>j \<in> {1..n}. data ! (i + 32 * j) AND 0x7F \<noteq> 0"
      using ins that(1) by (auto simp: set_inside_def)
    have ik: "i \<le> k" by (rule that(2))
    obtain j where j: "k = i + 32 * j"
      using True i(1) ik by (metis dvd_def le_add_diff_inverse mod_0_imp_dvd mod_eq_dvd_iff_nat)
    have "data ! k \<noteq> ENTRY_TYPE_END"
    proof (cases "j = 0")
      case True
      then show ?thesis using i(2) j by (auto simp: kind_at_def entry_types split: if_splits)
    next
      case False
      then have "data ! k AND 0x7F \<noteq> 0" using s(2) j that(3) by auto
      then show ?thesis by (auto simp: entry_types)
    qed
    then show ?thesis using that(3) s(1) by (simp add: clear_nth)
  next
    case False
    then show ?thesis using that ins by (subst clear_nth) (auto simp: set_inside_def)
  qed
  have count: "n = set_count data i \<and> i + 32 \<le> length data" if "(i, KFile n) \<in> set (items data 0)" for i n
    using items_aligned [OF that] aligned_room [of i "length data"] m32 by (auto simp: kind_at_def split: if_splits)
  have live: "live_items c ?d (items data 0) = live_items c data (items data 0)"
  proof (rule live_items_cong)
    fix i n
    assume a: "(i, KFile n) \<in> set (items data 0)"
    then show "set_info_at ?d i = set_info_at data i \<and> set_count ?d i = set_count data i \<and>
        set_is_directory ?d i = set_is_directory data i"
      using same [OF a] count [OF a] by (intro conjI set_info_cong) auto
  qed
  have drop_end: "live_items c ?d (map cleared xs) = live_items c ?d xs" if "ends_last xs" for xs
    using that
  proof (induction xs)
    case (Cons x xs)
    have "ends_last xs" using ends_last_appendD(2) [of "[x]" xs] Cons.prems by simp
    moreover have "live_items c ?d (map cleared xs) = []" if "snd x = KEnd"
    proof -
      have "\<forall>y \<in> set xs. snd y = KEnd" using ends_last_appendD(3) [of "[x]" xs] Cons.prems that by simp
      then show ?thesis by (intro live_no_sets) (auto simp: cleared_def unused_def)
    qed
    ultimately show ?case using Cons.IH by (cases x; cases "snd x") (simp_all add: cleared_def)
  qed simp
  show "live_items c ?d (items ?d 0) = live_items c data (items data 0)"
    unfolding its drop_end [OF el] by (rule live)
  have "set_inside ?d (cleared x)" if x: "x \<in> set (items data 0)" for x
  proof (cases "snd x")
    case (KFile n)
    obtain i where i: "x = (i, KFile n)" using KFile by (cases x) auto
    have "set_inside data x" using ins x by simp
    then show ?thesis using same [of i n] x i by (auto simp: set_inside_def cleared_def)
  qed (auto simp: set_inside_def cleared_def split: prod.splits)
  then show "cluster_wf ?d" using m32 its ends_last_no_end [OF ne] by (auto simp: cluster_wf_def)
qed

lemma empty_cluster:
  assumes "n mod 32 = 0"
  shows "cluster_wf (replicate n 0)" and "live_items c (replicate n 0) (items (replicate n 0) 0) = []"
    and "0 < n \<Longrightarrow> has_end (items (replicate n 0) 0)"
proof -
  have k: "\<forall>x \<in> set (items (replicate n 0) i). snd x = KEnd" for i
  proof (induction "replicate n (0 :: u8)" i rule: items.induct)
    case (1 i)
    have "kind_at (replicate n 0) i = KEnd" if "i < n" using that by (simp add: kind_at_def entry_types)
    then show ?case using 1 by (auto simp: items.simps [of _ i])
  qed
  then have "ends_last (items (replicate n 0) 0)" unfolding ends_last_def
    by (intro exI [of _ "[]"] exI [of _ "items (replicate n 0) 0"]) auto
  moreover have "\<forall>x \<in> set (items (replicate n 0) 0). set_inside (replicate n 0) x"
    using k [of 0] by (fastforce simp: set_inside_def)
  ultimately show "cluster_wf (replicate n 0)" using assms by (simp add: cluster_wf_def)
  show "live_items c (replicate n 0) (items (replicate n 0) 0) = []" using k by (intro live_no_sets) (auto simp: unused_def)
  show "has_end (items (replicate n 0) 0)" if "0 < n"
    using that by (simp add: items.simps kind_at_def entry_types)
qed

end
