(* ===== verification/ExfatFiles.thy ===== *)
theory ExfatFiles
  imports ExfatDir
begin

text \<open>
  The file operations of the exFAT library (\<open>exfat/ops.rs\<close> in \<open>libs/ventoy-img-rs/src\<close>): listing, writing,
  reading and deleting whole files and directories, by name in the root or by path.
  A call of \<open>delete_recursive\<close> inside itself takes a frame of the stack; its first argument is the depth
  the stack admits, and running out of it aborts like a panic.
\<close>

section \<open>Listing\<close>

definition file_info_at :: "ustring \<Rightarrow> bytes \<Rightarrow> nat \<Rightarrow> FileInfo list" where
  "file_info_at current_path data i =
     (let name = si_name (set_info_at data i) in
      if name = [] then []
      else [\<lparr>fi_name = name, fi_size = si_data_length (set_info_at data i),
             fi_is_directory = set_is_directory data i,
             fi_path = (if current_path = [] then name else current_path @ slash # name)\<rparr>])"

text \<open>The flag says whether the listing ends here; the end mark only counts in the first cluster.\<close>

function list_cluster :: "bool \<Rightarrow> ustring \<Rightarrow> bytes \<Rightarrow> nat \<Rightarrow> FileInfo list \<times> bool" where
  "list_cluster is_first current_path data i =
     (if length data \<le> i then ([], False)
      else if data ! i = ENTRY_TYPE_END \<and> is_first then ([], True)
      else if data ! i = ENTRY_TYPE_FILE then
        (case list_cluster is_first current_path data (i + (1 + set_count data i) * 32) of
           (files, ends) \<Rightarrow> (file_info_at current_path data i @ files, ends))
      else list_cluster is_first current_path data (i + 32))"
  by pat_completeness auto
termination
  by (relation "measure (\<lambda>(f, p, data, i). length data - i)") auto

declare list_cluster.simps [simp del]

fun list_clusters :: "bool \<Rightarrow> ustring \<Rightarrow> nat list \<Rightarrow> FileInfo list \<Rightarrow> FileInfo list fx" where
  "list_clusters is_first current_path [] files = sx_return files"
| "list_clusters is_first current_path (c # cs) files =
     sx_bind (read_cluster c) (\<lambda>data.
       case list_cluster is_first current_path data 0 of
         (infos, ends) \<Rightarrow> if ends then sx_return (files @ infos)
                        else list_clusters False current_path cs (files @ infos))"

definition list_files_in_directory :: "DirectoryLocation \<Rightarrow> ustring \<Rightarrow> FileInfo list fx" where
  "list_files_in_directory dir current_path =
     sx_bind (directory_clusters dir) (\<lambda>clusters. list_clusters True current_path clusters [])"

definition list_files :: "FileInfo list fx" where
  "list_files s = list_files_in_directory (root_directory s) [] s"

definition list_files_at :: "host \<Rightarrow> ustring \<Rightarrow> FileInfo list fx" where
  "list_files_at h path =
     (if path = [] \<or> path = [slash] then list_files
      else
        sx_bind (resolve_path h path False) (\<lambda>resolved.
          case rp_location resolved of
            Some loc \<Rightarrow>
              if is_directory loc then
                sx_bind (sx_lift (DirectoryLocation_from_entry loc)) (\<lambda>dir.
                  list_files_in_directory dir (trim_slashes path))
              else sx_fail (fs_text '''{}' is not a directory'' path)
          | None \<Rightarrow> sx_fail (fs_text ''Directory '{}' not found'' path)))"

fun push_directories ::
    "host \<Rightarrow> DirectoryLocation \<Rightarrow> FileInfo list \<Rightarrow> (DirectoryLocation \<times> ustring) list \<Rightarrow> (DirectoryLocation \<times> ustring) list fx" where
  "push_directories h dir [] stack = sx_return stack"
| "push_directories h dir (file # files) stack =
     (if fi_is_directory file then
        sx_bind (find_entry_in_directory h dir (fi_name file)) (\<lambda>found.
          case found of
            Some loc \<Rightarrow>
              sx_bind (sx_lift (DirectoryLocation_from_entry loc)) (\<lambda>sub.
                push_directories h dir files ((sub, fi_path file) # stack))
          | None \<Rightarrow> push_directories h dir files stack)
      else push_directories h dir files stack)"

text \<open>The loop has no bound in the code: \<open>None\<close> is a run that never ends.\<close>

partial_function (option) visit_directories ::
    "host \<Rightarrow> (DirectoryLocation \<times> ustring) list \<Rightarrow> FileInfo list \<Rightarrow> ExfatFs \<Rightarrow> ((fs_error + FileInfo list) \<times> ExfatFs) option" where
  "visit_directories h stack all_files s =
     (case stack of
        [] \<Rightarrow> Some (Inr all_files, s)
      | (dir, current_path) # stack \<Rightarrow>
          (case sx_bind (list_files_in_directory dir current_path) (\<lambda>files.
                  sx_bind (push_directories h dir files stack) (\<lambda>stack. sx_return (files, stack))) s of
             (Inl e, s) \<Rightarrow> Some (Inl e, s)
           | (Inr (files, stack), s) \<Rightarrow> visit_directories h stack (all_files @ files) s))"

definition list_files_recursive :: "host \<Rightarrow> ExfatFs \<Rightarrow> ((fs_error + FileInfo list) \<times> ExfatFs) option" where
  "list_files_recursive h s = visit_directories h [(root_directory s, [])] [] s"

section \<open>Writing\<close>

fun write_file_data :: "bytes \<Rightarrow> nat \<Rightarrow> nat list \<Rightarrow> unit fx" where
  "write_file_data data data_offset [] = sx_return ()"
| "write_file_data data data_offset (c # cs) =
     (\<lambda>s. let chunk_size = min (length data - data_offset) (cluster_size s) in
          sx_bind (write_cluster c (slice_of data_offset (data_offset + chunk_size) data)) (\<lambda>_.
            write_file_data data (data_offset + chunk_size) cs) s)"

definition allocate_data :: "bytes \<Rightarrow> nat fx" where
  "allocate_data data s =
     (let clusters_needed = (if data = [] then 0 else (length data + cluster_size s - 1) div cluster_size s) in
      if clusters_needed > 0 then
        sx_bind (allocate_clusters clusters_needed) (\<lambda>first.
        sx_bind (read_cluster_chain first) (\<lambda>chain.
        sx_bind (write_file_data data 0 chain) (\<lambda>_. sx_return first))) s
      else (Inr 0, s))"

definition write_file_data_and_entry :: "host \<Rightarrow> DirectoryLocation \<Rightarrow> ustring \<Rightarrow> bytes \<Rightarrow> unit fx" where
  "write_file_data_and_entry h dir name data =
     sx_bind (allocate_data data) (\<lambda>first.
     sx_bind (create_entry_in_directory h dir name first (length data) False) (\<lambda>_. sx_return ()))"

definition valid_filename :: "ustring \<Rightarrow> bool" where
  "valid_filename name \<longleftrightarrow> name \<noteq> [] \<and> utf8_len name \<le> 255"

definition write_file_body :: "host \<Rightarrow> ustring \<Rightarrow> bytes \<Rightarrow> unit fx" where
  "write_file_body h name data =
     (if \<not> valid_filename name then sx_fail (fs_err ''Invalid filename length'')
      else
        sx_bind (find_file_entry h name) (\<lambda>found.
          if found \<noteq> None then sx_fail (fs_text ''File '{}' already exists'' name)
          else (\<lambda>s. write_file_data_and_entry h (root_directory s) name data s)))"

definition write_file :: "host \<Rightarrow> ustring \<Rightarrow> bytes \<Rightarrow> unit fx" where
  "write_file h name data = transaction (write_file_body h name data)"

definition delete_file :: "host \<Rightarrow> ustring \<Rightarrow> unit fx" where
  "delete_file h name =
     transaction
       (sx_bind (find_file_entry h name) (\<lambda>found.
        sx_bind (sx_ok_or (fs_text ''File '{}' not found'' name) found) (\<lambda>loc.
        sx_bind (free_allocation loc) (\<lambda>_. delete_file_entry loc))))"

definition write_file_overwrite :: "host \<Rightarrow> ustring \<Rightarrow> bytes \<Rightarrow> bool \<Rightarrow> unit fx" where
  "write_file_overwrite h name data overwrite =
     transaction
       (if \<not> valid_filename name then sx_fail (fs_err ''Invalid filename length'')
        else
          sx_bind (find_file_entry h name) (\<lambda>found.
          sx_bind (if found \<noteq> None then
                     (if overwrite then delete_file h name
                      else sx_fail (fs_text ''File '{}' already exists'' name))
                   else sx_return ()) (\<lambda>_ s.
            write_file_data_and_entry h (root_directory s) name data s)))"

definition write_file_path :: "host \<Rightarrow> ustring \<Rightarrow> bytes \<Rightarrow> bool \<Rightarrow> bool \<Rightarrow> unit fx" where
  "write_file_path h path data create_parents overwrite =
     transaction
       (sx_bind (resolve_path h path create_parents) (\<lambda>resolved.
        if \<not> valid_filename (rp_name resolved) then sx_fail (fs_err ''Invalid filename length'')
        else
          sx_bind (case rp_location resolved of
              Some loc \<Rightarrow>
                if is_directory loc then sx_fail (fs_text '''{}' is a directory'' path)
                else if overwrite then
                  sx_bind (if first_cluster loc \<ge> 2 then free_allocation loc else sx_return ()) (\<lambda>_.
                    delete_file_entry loc)
                else sx_fail (fs_text ''File '{}' already exists'' path)
            | None \<Rightarrow> sx_return ()) (\<lambda>_.
            write_file_data_and_entry h (rp_parent resolved) (rp_name resolved) data)))"

section \<open>Reading\<close>

text \<open>The memory for the file is assumed to be there.\<close>

fun read_file_data :: "nat \<Rightarrow> nat list \<Rightarrow> bytes \<Rightarrow> bytes fx" where
  "read_file_data len [] data = sx_return data"
| "read_file_data len (c # cs) data =
     sx_bind (read_cluster c) (\<lambda>cluster_data s.
       read_file_data len cs (data @ take (min (len - length data) (cluster_size s)) cluster_data) s)"

definition read_file_from_location :: "FileEntryLocation \<Rightarrow> bytes fx" where
  "read_file_from_location loc =
     (if data_length loc = 0 then sx_return []
      else sx_bind (clusters_for_allocation loc) (\<lambda>chain. read_file_data (data_length loc) chain []))"

definition read_file :: "host \<Rightarrow> ustring \<Rightarrow> bytes fx" where
  "read_file h name =
     sx_bind (find_file_entry h name) (\<lambda>found.
     sx_bind (sx_ok_or (fs_text ''File '{}' not found'' name) found) read_file_from_location)"

definition read_file_path :: "host \<Rightarrow> ustring \<Rightarrow> bytes fx" where
  "read_file_path h path =
     sx_bind (resolve_path h path False) (\<lambda>resolved.
       case rp_location resolved of
         Some loc \<Rightarrow> if is_directory loc then sx_fail (fs_text '''{}' is a directory'' path)
                    else read_file_from_location loc
       | None \<Rightarrow> sx_fail (fs_text ''File '{}' not found'' path))"

definition get_file_info_path :: "host \<Rightarrow> ustring \<Rightarrow> FileInfo option fx" where
  "get_file_info_path h path =
     sx_bind (resolve_path h path False) (\<lambda>resolved.
       sx_return (case rp_location resolved of
         Some loc \<Rightarrow>
           Some \<lparr>fi_name = last (split_slashes path), fi_size = data_length loc,
                 fi_is_directory = is_directory loc, fi_path = path\<rparr>
       | None \<Rightarrow> None))"

section \<open>Deleting and creating directories\<close>

definition free_entry :: "FileEntryLocation \<Rightarrow> unit fx" where
  "free_entry loc =
     sx_bind (if is_directory loc then free_directory_allocation loc else free_allocation loc) (\<lambda>_.
       delete_file_entry loc)"

definition delete_path :: "host \<Rightarrow> ustring \<Rightarrow> unit fx" where
  "delete_path h path =
     transaction
       (sx_bind (resolve_path h path False) (\<lambda>resolved.
        sx_bind (sx_ok_or (fs_text '''{}' not found'' path) (rp_location resolved)) (\<lambda>loc.
        sx_bind (if is_directory loc then
                   sx_bind (sx_lift (DirectoryLocation_from_entry loc)) (\<lambda>dir.
                   sx_bind (list_files_in_directory dir []) (\<lambda>contents.
                     if contents \<noteq> [] then sx_fail (fs_text ''Directory '{}' is not empty'' path)
                     else sx_return ()))
                 else sx_return ()) (\<lambda>_.
          free_entry loc))))"

definition item_path :: "ustring \<Rightarrow> ustring \<Rightarrow> ustring" where
  "item_path path name = (if path \<noteq> [] \<and> last path = slash then path @ name else path @ slash # name)"

primrec delete_items :: "(ustring \<Rightarrow> unit fx) \<Rightarrow> ustring \<Rightarrow> FileInfo list \<Rightarrow> unit fx" where
  "delete_items del path [] = sx_return ()"
| "delete_items del path (item # contents) =
     sx_bind (del (item_path path (fi_name item))) (\<lambda>_. delete_items del path contents)"

primrec delete_recursive :: "nat \<Rightarrow> host \<Rightarrow> ustring \<Rightarrow> unit fx" where
  "delete_recursive 0 h path = sx_fail Panicked"
| "delete_recursive (Suc depth) h path =
     transaction
       (sx_bind (resolve_path h path False) (\<lambda>resolved.
        sx_bind (sx_ok_or (fs_text '''{}' not found'' path) (rp_location resolved)) (\<lambda>loc.
        sx_bind (if is_directory loc then
                   sx_bind (sx_lift (DirectoryLocation_from_entry loc)) (\<lambda>dir.
                   sx_bind (list_files_in_directory dir []) (\<lambda>contents.
                     delete_items (delete_recursive depth h) path contents))
                 else sx_return ()) (\<lambda>_.
          free_entry loc))))"

definition create_directory :: "host \<Rightarrow> ustring \<Rightarrow> bool \<Rightarrow> unit fx" where
  "create_directory h path create_parents =
     transaction
       (sx_bind (resolve_path h path create_parents) (\<lambda>resolved.
        if rp_location resolved \<noteq> None then sx_fail (fs_text '''{}' already exists'' path)
        else sx_bind (create_directory_in h (rp_parent resolved) (rp_name resolved)) (\<lambda>_. sx_return ())))"

end
