(* ===== verification/ExfatStore.thy ===== *)
theory ExfatStore
  imports ExfatScan ExfatFiles
begin

text \<open>
  Directories and files of a sound volume as what a user sees: a directory as the list of its live
  entries, the root as a map from names to contents.  Each operation of \<open>ExfatDir\<close> and \<open>ExfatFiles\<close> is
  shown to change that view the way its name says, and to keep the volume sound.
\<close>

lemma keepsD:
  assumes "keeps s s' F C"
  shows "in_heap s c \<Longrightarrow> c \<notin> F \<Longrightarrow> fat_at s' c = fat_at s c" and "in_heap s c \<Longrightarrow> c \<notin> C \<Longrightarrow> cluster_at s' c = cluster_at s c"
    and "cluster_size s' = cluster_size s" and "first_cluster_of_root s' = first_cluster_of_root s"
  using assms by (auto simp: keeps_def geo_def)

section \<open>A directory\<close>

definition dir_chain :: "ExfatFs \<Rightarrow> DirectoryLocation \<Rightarrow> nat list \<Rightarrow> bool" where
  "dir_chain s dir cs \<longleftrightarrow> is_chain s (dl_first_cluster dir) cs \<and> length cs \<le> div_ceil MAX_DIRECTORY_SIZE (cluster_size s) \<and>
     (case dl_entry dir of Some e \<Rightarrow> \<not> no_fat_chain e | None \<Rightarrow> True)"

definition cluster_live :: "ExfatFs \<Rightarrow> nat \<Rightarrow> (ustring \<times> FileEntryLocation) list" where
  "cluster_live s c = live_items c (cluster_at s c) (items (cluster_at s c) 0)"

definition cluster_ends :: "ExfatFs \<Rightarrow> nat \<Rightarrow> bool" where
  "cluster_ends s c \<longleftrightarrow> has_end (items (cluster_at s c) 0)"

primrec dir_live :: "ExfatFs \<Rightarrow> nat list \<Rightarrow> (ustring \<times> FileEntryLocation) list" where
  "dir_live s [] = []"
| "dir_live s (c # cs) = cluster_live s c @ (if cluster_ends s c then [] else dir_live s cs)"

definition dir_wf :: "ExfatFs \<Rightarrow> nat list \<Rightarrow> bool" where
  "dir_wf s cs \<longleftrightarrow> (\<forall>c \<in> set cs. cluster_wf (cluster_at s c)) \<and> (\<forall>c \<in> set (butlast cs). \<not> cluster_ends s c)"

lemma dir_live_append:
  "dir_live s (xs @ ys) = dir_live s xs @ (if \<exists>c \<in> set xs. cluster_ends s c then [] else dir_live s ys)"
  by (induction xs) auto

lemma dir_live_cong:
  assumes "\<And>c. c \<in> set cs \<Longrightarrow> cluster_at s' c = cluster_at s c"
  shows "dir_live s' cs = dir_live s cs"
  using assms by (induction cs) (simp_all add: cluster_live_def cluster_ends_def)

lemma dir_wf_cong:
  assumes "\<And>c. c \<in> set cs \<Longrightarrow> cluster_at s' c = cluster_at s c"
  shows "dir_wf s' cs = dir_wf s cs"
proof -
  have "cluster_ends s' c = cluster_ends s c" if "c \<in> set (butlast cs)" for c
    using assms [OF in_set_butlastD [OF that]] by (simp add: cluster_ends_def)
  then show ?thesis using assms by (simp add: dir_wf_def)
qed

lemma directory_clusters_ok:
  assumes "vol_ready s" and "dir_chain s dir cs"
  shows "\<exists>s'. directory_clusters dir s = (Inr cs, s') \<and> recached s s'"
  using read_chain_limited_ok [OF assms(1), of "dl_first_cluster dir" cs "div_ceil MAX_DIRECTORY_SIZE (cluster_size s)"]
    assms(2) by (auto simp: dir_chain_def directory_clusters_def Let_def split: option.splits)

lemma dir_chain_heap: "dir_chain s dir cs \<Longrightarrow> c \<in> set cs \<Longrightarrow> in_heap s c"
  by (simp add: dir_chain_def is_chain_def)

lemma recached_views:
  assumes "recached s s'"
  shows "cluster_at s' c = cluster_at s c" "fat_at s' c = fat_at s c" "in_heap s' c = in_heap s c"
    "cluster_size s' = cluster_size s" "dir_chain s' dir cs = dir_chain s dir cs" "dir_live s' cs = dir_live s cs"
    "dir_wf s' cs = dir_wf s cs" "keeps s s' {} {}" "bitmap_cache s' = bitmap_cache s" "is_chain s' x cs = is_chain s x cs"
    "chain_data s' cs = chain_data s cs" "dirty s' = dirty s"
proof -
  obtain fc where fc: "s' = s\<lparr>fat_cache := fc\<rparr>" using assms by (auto simp: recached_def)
  show a: "cluster_at s' c = cluster_at s c" "fat_at s' c = fat_at s c" "in_heap s' c = in_heap s c"
    "cluster_size s' = cluster_size s" "keeps s s' {} {}" "bitmap_cache s' = bitmap_cache s" for c
    by (simp_all add: fc keeps_def)
  show i: "is_chain s' x cs = is_chain s x cs" for x cs using is_chain_recached [OF assms] .
  show "dir_chain s' dir cs = dir_chain s dir cs" using i a(4) by (simp add: dir_chain_def)
  show "dir_live s' cs = dir_live s cs" "dir_wf s' cs = dir_wf s cs"
    by (rule dir_live_cong, rule a(1)) (rule dir_wf_cong, rule a(1))
  show "chain_data s' cs = chain_data s cs" by (rule chain_data_cong) (simp add: a(1))
  show "dirty s' = dirty s" by (simp add: fc dirty_def flags_of_def)
qed

section \<open>The lookup\<close>

lemma find_in_clusters_ok:
  assumes "vol_ready s" and "\<forall>c \<in> set cs. in_heap s c"
  shows "find_in_clusters lower target cs s = (Inr (map_option snd (List.find (named lower target) (dir_live s cs))), s)"
  using assms
proof (induction cs)
  case (Cons c cs)
  have app: "List.find P (xs @ ys) = (case List.find P xs of None \<Rightarrow> List.find P ys | Some x \<Rightarrow> Some x)" for P and xs ys :: "'a list"
    by (induction xs) auto
  show ?case using Cons
    by (auto simp: sx_simps read_cluster_ok find_in_cluster_items cluster_live_def cluster_ends_def app split: option.splits)
qed (simp add: sx_simps)

lemma find_entry_ok:
  assumes "vol_ready s" and "dir_chain s dir cs"
  shows "\<exists>s'. find_entry_in_directory h dir name s =
      (Inr (map_option snd (List.find (named (hx_lower h) (hx_lower h name)) (dir_live s cs))), s') \<and> recached s s' \<and> vol_ready s'"
proof -
  obtain s1 where s1: "directory_clusters dir s = (Inr cs, s1)" "recached s s1" using directory_clusters_ok [OF assms] by blast
  have "vol_ready s1" using recachedD [OF s1(2)] assms(1) by blast
  then show ?thesis
    using s1 find_in_clusters_ok [of s1 cs] recached_views [OF s1(2)] dir_chain_heap [OF assms(2)]
    by (simp add: find_entry_in_directory_def sx_simps)
qed

section \<open>Writing a set into a directory\<close>

text \<open>Replacing one cluster of a directory by one whose live entries are known.\<close>

lemma dir_live_replace:
  assumes wf: "dir_wf s (xs @ c # ys)" and d: "distinct (xs @ c # ys)"
    and other: "\<And>e. e \<in> set (xs @ ys) \<Longrightarrow> cluster_at s' e = cluster_at s e"
    and new: "cluster_wf (cluster_at s' c)" "cluster_ends s' c \<Longrightarrow> cluster_ends s c"
  shows "dir_wf s' (xs @ c # ys)"
    and "\<exists>D. dir_live s (xs @ c # ys) = dir_live s xs @ cluster_live s c @ D \<and>
      dir_live s' (xs @ c # ys) = dir_live s xs @ cluster_live s' c @ D"
proof -
  have ends: "cluster_ends s' e = cluster_ends s e" if "e \<in> set (xs @ ys)" for e
    using other [OF that] by (simp add: cluster_ends_def)
  have ne: "\<not> cluster_ends s e" if "e \<in> set xs" for e
    using wf that by (simp add: dir_wf_def butlast_append)
  have cne: "\<not> cluster_ends s c" if "ys \<noteq> []" using wf that by (simp add: dir_wf_def butlast_append)
  have wfo: "cluster_wf (cluster_at s' e)" if "e \<in> set (xs @ ys)" for e
    using wf that other [OF that] by (auto simp: dir_wf_def)
  have "\<not> cluster_ends s' e" if "e \<in> set (butlast (xs @ c # ys))" for e
  proof (cases "ys = []")
    case True
    then show ?thesis using that ends ne by (auto simp: butlast_append)
  next
    case False
    then have "e \<in> set xs \<or> e = c \<or> e \<in> set (butlast ys)" using that by (auto simp: butlast_append)
    then show ?thesis
    proof (elim disjE)
      assume e: "e \<in> set (butlast ys)"
      then have "\<not> cluster_ends s e" using wf False by (simp add: dir_wf_def butlast_append)
      then show ?thesis using ends in_set_butlastD [OF e] by simp
    qed (use ends ne cne new(2) False in auto)
  qed
  then show "dir_wf s' (xs @ c # ys)" using wfo new(1) by (auto simp: dir_wf_def)
  have "dir_live s' xs = dir_live s xs" "dir_live s' ys = dir_live s ys"
    by (rule dir_live_cong, simp add: other)+
  then show "\<exists>D. dir_live s (xs @ c # ys) = dir_live s xs @ cluster_live s c @ D \<and>
      dir_live s' (xs @ c # ys) = dir_live s xs @ cluster_live s' c @ D"
    using ne cne new(2) ends
    by (intro exI [of _ "if cluster_ends s c then [] else dir_live s ys"])
      (cases "ys = []"; auto simp: dir_live_append)
qed

definition set_entry :: "nat \<Rightarrow> nat \<Rightarrow> bytes list \<Rightarrow> ustring \<times> FileEntryLocation" where
  "set_entry c off es = (si_name (fold secondary_info (tl es) set_info_init), set_location c off es)"

lemma put_set_ok:
  assumes "vol_ready s" and "distinct cs" and "c \<in> set cs" and "\<forall>c \<in> set cs. in_heap s c" and "dir_wf s cs"
    and "entry_set es" and "first_run (cluster_at s c) (length es) off"
  shows "off + 32 * length es \<le> length (cluster_at s c)"
    and "\<exists>s' A B. write_cluster c (copy_slice off (concat es) (cluster_at s c)) s = (Inr (), s') \<and> vol_ready s' \<and>
      keeps s s' {} {c} \<and> bitmap_cache s' = bitmap_cache s \<and> dir_wf s' cs \<and>
      dir_live s cs = A @ B \<and> dir_live s' cs = A @ set_entry c off es # B"
proof -
  have wfc: "cluster_wf (cluster_at s c)" and hc: "in_heap s c" using assms(3,4,5) by (auto simp: dir_wf_def)
  let ?data = "copy_slice off (concat es) (cluster_at s c)"
  note w = written_set [OF wfc assms(7,6) refl]
  show fit: "off + 32 * length es \<le> length (cluster_at s c)" using w(1) .
  have g: "geometry_ok s" using assms(1) by (simp add: vol_ready_def)
  have "length (concat es) = 32 * length es" using assms(6) by (simp add: entry_set_def length_concat32)
  then have len: "length ?data = cluster_size s" using fit length_cluster_at [OF g hc] by simp
  obtain s' where s': "write_cluster c ?data s = (Inr (), s')" "vol_ready s'" "keeps s s' {} {c}"
    "cluster_at s' c = ?data" "bitmap_cache s' = bitmap_cache s"
    using write_cluster_ok [OF assms(1) hc, of ?data] len by auto
  obtain A B where AB: "live_items c (cluster_at s c) (items (cluster_at s c) 0) = A @ B"
    "live_items c ?data (items ?data 0) = A @ set_entry c off es # B"
    using w(5) [of c] by (auto simp: set_entry_def)
  obtain xs ys where cs: "cs = xs @ c # ys" using split_list [OF assms(3)] by blast
  have other: "cluster_at s' e = cluster_at s e" if "e \<in> set (xs @ ys)" for e
  proof -
    have "e \<noteq> c" "in_heap s e" using that cs assms(2,4) by auto
    then show ?thesis using s'(3) by (simp add: keeps_def)
  qed
  have new: "cluster_wf (cluster_at s' c)" "cluster_ends s' c \<Longrightarrow> cluster_ends s c"
    using w(3,4) s'(4) by (simp_all add: cluster_ends_def)
  note r = dir_live_replace [OF assms(5) [unfolded cs] assms(2) [unfolded cs] other new]
  obtain D where D: "dir_live s cs = dir_live s xs @ cluster_live s c @ D" "dir_live s' cs = dir_live s xs @ cluster_live s' c @ D"
    using r(2) cs by auto
  have "dir_live s cs = (dir_live s xs @ A) @ (B @ D)" "dir_live s' cs = (dir_live s xs @ A) @ set_entry c off es # (B @ D)"
    using D AB s'(4) by (simp_all add: cluster_live_def)
  then show "\<exists>s' A B. write_cluster c (copy_slice off (concat es) (cluster_at s c)) s = (Inr (), s') \<and> vol_ready s' \<and>
      keeps s s' {} {c} \<and> bitmap_cache s' = bitmap_cache s \<and> dir_wf s' cs \<and>
      dir_live s cs = A @ B \<and> dir_live s' cs = A @ set_entry c off es # B"
    using s' r(1) cs by metis
qed

lemma free_slot_in_clusters_ok:
  assumes "vol_ready s" and "\<forall>c \<in> set cs. in_heap s c" and "0 < n"
  shows "\<exists>slot. free_slot_in_clusters n cs s = (Inr slot, s) \<and>
    (\<forall>c off. slot = Some (c, off) \<longrightarrow> c \<in> set cs \<and> first_run (cluster_at s c) n off)"
  using assms(2)
proof (induction cs)
  case (Cons c cs)
  obtain slot where IH: "free_slot_in_clusters n cs s = (Inr slot, s)"
    "\<forall>c off. slot = Some (c, off) \<longrightarrow> c \<in> set cs \<and> first_run (cluster_at s c) n off" using Cons by auto
  show ?case
  proof (cases "free_slot_in_cluster (cluster_at s c) n 0 0 0")
    case None
    then show ?thesis using IH Cons.prems by (auto simp: sx_simps read_cluster_ok [OF assms(1)])
  next
    case (Some off)
    then have "first_run (cluster_at s c) n off" using free_slot_run assms(3) by blast
    then show ?thesis using Some Cons.prems by (auto simp: sx_simps read_cluster_ok [OF assms(1)])
  qed
qed (simp add: sx_simps)

section \<open>Extending the root\<close>

lemma clear_ends_ok:
  assumes "vol_ready s" and "\<forall>c \<in> set cs. in_heap s c" and "distinct cs"
  shows "\<exists>s'. clear_ends cs s = (Inr (), s') \<and> vol_ready s' \<and> keeps s s' {} (set cs) \<and> bitmap_cache s' = bitmap_cache s \<and>
    (\<forall>c \<in> set cs. cluster_at s' c = clear_end_marks (cluster_at s c))"
  using assms
proof (induction cs arbitrary: s)
  case (Cons c cs)
  have g: "geometry_ok s" "in_heap s c" using Cons.prems by (simp_all add: vol_ready_def)
  have len: "length (clear_end_marks (cluster_at s c)) = cluster_size s" using length_cluster_at [OF g] by simp
  obtain s1 where s1: "write_cluster c (clear_end_marks (cluster_at s c)) s = (Inr (), s1)" "vol_ready s1" "keeps s s1 {} {c}"
    "cluster_at s1 c = clear_end_marks (cluster_at s c)" "bitmap_cache s1 = bitmap_cache s"
    using write_cluster_ok [OF Cons.prems(1) g(2), of "clear_end_marks (cluster_at s c)"] len by auto
  obtain s2 where s2: "clear_ends cs s1 = (Inr (), s2)" "vol_ready s2" "keeps s1 s2 {} (set cs)" "bitmap_cache s2 = bitmap_cache s1"
    "\<forall>c \<in> set cs. cluster_at s2 c = clear_end_marks (cluster_at s1 c)"
    using Cons.IH [OF s1(2)] Cons.prems keeps_in_heap [OF s1(3)] by auto
  have "cluster_at s2 c = cluster_at s1 c" using s2(3) Cons.prems(2,3) keeps_in_heap [OF s1(3)] by (simp add: keeps_def)
  moreover have "cluster_at s1 e = cluster_at s e" if "e \<in> set cs" for e
    using s1(3) Cons.prems that by (auto simp: keeps_def)
  ultimately show ?case using s1 s2 keeps_trans [OF s1(3) s2(3)] read_cluster_ok [OF Cons.prems(1) g(2)]
    by (simp add: sx_simps)
qed (simp add: sx_simps)

lemma fat_path_extend:
  assumes "distinct cs" and "cs \<noteq> []" and "fat_path f x cs z" and "\<And>c. c \<in> set (butlast cs) \<Longrightarrow> g c = f c" and "g (last cs) = w"
  shows "fat_path g x cs w"
proof -
  obtain bs l where cs: "cs = bs @ [l]" using assms(2) by (metis append_butlast_last_id)
  then obtain y where "fat_path f x bs y" "y = l" using assms(3) by auto
  moreover have "fat_path g x bs y = fat_path f x bs y" by (rule fat_path_cong) (use assms(4) cs in simp)
  ultimately show ?thesis using assms(5) cs by auto
qed

lemma extend_root_ok:
  assumes ok: "vol_ok s bs" and dir: "dir_chain s dir cs" and root: "dl_entry dir = None"
    and apart: "set cs \<inter> set bs = {}" and full: "free_list s bs \<noteq> []" and used: "\<forall>c \<in> set cs. is_cluster_allocated (disk_bitmap s bs) c"
  shows "\<exists>s'. extend_directory dir s = (Inr (hd (free_list s bs), dir), s') \<and> vol_ok s' bs \<and>
    keeps s s' {hd (free_list s bs), last cs} (insert (hd (free_list s bs)) (set bs)) \<and>
    is_chain s' (dl_first_cluster dir) (cs @ [hd (free_list s bs)]) \<and>
    cluster_at s' (hd (free_list s bs)) = replicate (cluster_size s) 0 \<and>
    (\<forall>c. in_heap s c \<longrightarrow> is_cluster_allocated (disk_bitmap s' bs) c = (c = hd (free_list s bs) \<or> is_cluster_allocated (disk_bitmap s bs) c))"
proof -
  let ?n = "hd (free_list s bs)"
  have fr: "?n \<in> set (free_list s bs)" using full by simp
  then have n: "in_heap s ?n" "\<not> is_cluster_allocated (disk_bitmap s bs) ?n" using free_list_facts(2) by blast+
  have ch: "is_chain s (dl_first_cluster dir) cs" using dir by (simp add: dir_chain_def)
  then have cs: "cs \<noteq> []" "distinct cs" "\<forall>c \<in> set cs. in_heap s c" by (simp_all add: is_chain_def)
  have ncs: "?n \<notin> set cs" using n(2) used by blast
  have nbs: "?n \<notin> set bs" using n(2) ok by (auto simp: vol_ok_def)
  have l: "last cs \<in> set cs" using cs(1) by simp
  obtain s1 where s1: "directory_clusters dir s = (Inr cs, s1)" "recached s s1"
    using directory_clusters_ok [OF _ dir] ok by (auto simp: vol_ok_def)
  have ok1: "vol_ok s1 bs" "disk_bitmap s1 bs = disk_bitmap s bs" using vol_ok_cached [OF ok s1(2)] by simp_all
  have fl: "free_list s1 bs = free_list s bs" using ok1(2) s1(2) by (auto simp: free_list_def recached_def)
  have take1: "take 1 (free_list s1 bs) = [?n]" using full fl by (cases "free_list s bs") simp_all
  obtain s2 where s2: "allocate_clusters 1 s1 = (Inr ?n, s2)" "vol_ok s2 bs" "keeps s1 s2 {?n} (set bs)" "is_chain s2 ?n [?n]"
    "\<forall>c. in_heap s1 c \<longrightarrow> is_cluster_allocated (disk_bitmap s2 bs) c = (c = ?n \<or> is_cluster_allocated (disk_bitmap s1 bs) c)"
    using allocate_ok [OF ok1(1), of 1 "[?n]"] take1 full fl by (auto simp: Suc_le_eq)
  have k2: "keeps s s2 {?n} (set bs)" using keeps_trans [OF recachedD(2) [OF s1(2)] s2(3)] by simp
  have h2: "in_heap s2 c = in_heap s c" for c using keeps_in_heap [OF k2] .
  have r2: "vol_ready s2" using s2(2) by (simp add: vol_ok_def)
  have nb: "?n < 2 ^ 32" using n(1) r2 k2 by (auto simp: vol_ready_def geometry_ok_def in_heap_def keeps_def geo_def)
  obtain s3 where s3: "write_fat_entry (last cs) ?n s2 = (Inr (), s3)" "vol_ready s3" "keeps s2 s3 {last cs} {}"
    "fat_at s3 (last cs) = ?n" "bitmap_cache s3 = bitmap_cache s2"
    using write_fat_entry_ok [OF r2 _ nb, of "last cs"] h2 cs(3) l by auto
  have ok3: "vol_ok s3 bs" "disk_bitmap s3 bs = disk_bitmap s2 bs"
    using vol_ok_keeps [OF s3(3,2,5) s2(2)] l apart by auto
  have k3: "keeps s s3 {?n, last cs} (set bs)" using keeps_trans [OF k2 s3(3)] by (simp add: insert_commute)
  have cz: "cluster_size s3 = cluster_size s" using k3 by (simp add: keeps_def geo_def)
  obtain s4 where s4: "write_cluster ?n (replicate (cluster_size s3) 0) s3 = (Inr (), s4)" "vol_ready s4" "keeps s3 s4 {} {?n}"
    "cluster_at s4 ?n = replicate (cluster_size s) 0" "bitmap_cache s4 = bitmap_cache s3"
    using write_cluster_ok [OF s3(2), of ?n "replicate (cluster_size s3) 0"] keeps_in_heap [OF k3] n(1) cz by auto
  have ok4: "vol_ok s4 bs" "disk_bitmap s4 bs = disk_bitmap s3 bs"
    using vol_ok_keeps [OF s4(3,2,5) ok3(1)] nbs by auto
  have k4: "keeps s s4 {?n, last cs} (insert ?n (set bs))" using keeps_trans [OF k3 s4(3)] by simp
  have run: "extend_directory dir s = (Inr (?n, dir), s4)"
    using s1(1) s2(1) s3(1) s4(1) cs(1) root by (simp add: extend_directory_def extended_length_def sx_simps)
  have f4: "fat_at s4 c = fat_at s3 c" if "in_heap s c" for c
    using s4(3) that keeps_in_heap [OF k3] by (simp add: keeps_def)
  have "fat_at s4 ?n = FAT_ENTRY_END_OF_CHAIN"
  proof -
    have "fat_at s2 ?n = FAT_ENTRY_END_OF_CHAIN" using s2(4) by (simp add: is_chain_def)
    moreover have "fat_at s3 ?n = fat_at s2 ?n" using s3(3) n(1) h2 ncs l by (auto simp: keeps_def)
    ultimately show ?thesis using f4 n(1) by simp
  qed
  moreover have "fat_path (fat_at s4) (dl_first_cluster dir) cs ?n"
  proof (rule fat_path_extend [OF cs(2,1)])
    show "fat_path (fat_at s) (dl_first_cluster dir) cs FAT_ENTRY_END_OF_CHAIN" using ch by (simp add: is_chain_def)
    show "fat_at s4 (last cs) = ?n" using f4 s3(4) cs(3) l by simp
    fix c
    assume c: "c \<in> set (butlast cs)"
    have "distinct (butlast cs @ [last cs])" using cs(1,2) by simp
    then have "c \<noteq> last cs" using c by auto
    moreover have cc: "c \<in> set cs" by (rule in_set_butlastD [OF c])
    then have "c \<noteq> ?n" "in_heap s c" using cs(3) ncs by blast+
    ultimately show "fat_at s4 c = fat_at s c" by (intro keepsD(1) [OF k4]) blast+
  qed
  ultimately have "is_chain s4 (dl_first_cluster dir) (cs @ [?n])"
    using cs ncs n(1) keeps_in_heap [OF k4] by (auto simp: is_chain_def)
  moreover have "\<forall>c. in_heap s c \<longrightarrow> is_cluster_allocated (disk_bitmap s4 bs) c = (c = ?n \<or> is_cluster_allocated (disk_bitmap s bs) c)"
    using s2(5) ok4(2) ok3(2) ok1(2) s1(2) by (auto simp: recached_def)
  ultimately show ?thesis by (intro exI [of _ s4] conjI run ok4(1) k4 s4(4)) assumption+
qed

text \<open>The room of a directory at the root: a sound volume, the directory apart from the bitmap and in use, and a
  free cluster left for it to grow.\<close>

definition root_room :: "ExfatFs \<Rightarrow> nat list \<Rightarrow> DirectoryLocation \<Rightarrow> nat list \<Rightarrow> bool" where
  "root_room s bs dir cs \<longleftrightarrow> vol_ok s bs \<and> dir_chain s dir cs \<and> dl_entry dir = None \<and> dir_wf s cs \<and>
     set cs \<inter> set bs = {} \<and> (\<forall>c \<in> set cs. is_cluster_allocated (disk_bitmap s bs) c) \<and> cluster_size s mod 32 = 0"

definition grown :: "ExfatFs \<Rightarrow> nat list \<Rightarrow> nat list \<Rightarrow> nat list \<Rightarrow> bool" where
  "grown s bs cs cs' \<longleftrightarrow> cs' = cs \<or> free_list s bs \<noteq> [] \<and> cs' = cs @ [hd (free_list s bs)]"

lemma root_room_recached:
  assumes "root_room s bs dir cs" and "recached s s'"
  shows "root_room s' bs dir cs" and "free_list s' bs = free_list s bs" and "disk_bitmap s' bs = disk_bitmap s bs"
proof -
  have ok: "vol_ok s bs" using assms(1) by (simp add: root_room_def)
  note v = vol_ok_cached [OF ok assms(2)]
  show "root_room s' bs dir cs" using assms(1) v(2,4) recached_views [OF assms(2)] by (simp add: root_room_def)
  show "disk_bitmap s' bs = disk_bitmap s bs" using v(2) .
  then show "free_list s' bs = free_list s bs" using assms(2) by (auto simp: free_list_def recached_def)
qed

lemma first_run_empty:
  assumes "32 * n \<le> m" and "0 < n"
  shows "first_run (replicate m 0) n 0"
proof -
  let ?d = "replicate m (0 :: u8)"
  let ?run = "map (\<lambda>j. (0 + 32 * j, kind_at ?d (0 + 32 * j))) [0..<n]"
  have at: "32 * j < m" if "j < n" for j using that assms(1) by simp
  have "items ?d 0 = ?run @ items ?d (0 + 32 * n)"
    by (rule items_no_sets) (use at in \<open>simp add: entry_types\<close>)
  moreover have "\<forall>x \<in> set ?run. unused x" using at by (auto simp: kind_at_def entry_types unused_def)
  ultimately show ?thesis unfolding first_run_def
    by (intro exI [of _ "[]"] exI [of _ ?run] exI [of _ "items ?d (0 + 32 * n)"]) simp
qed

text \<open>A directory that cannot grow, because no cluster is free, is left as it was.\<close>

definition slot_refused :: "ExfatFs \<Rightarrow> nat list \<Rightarrow> DirectoryLocation \<Rightarrow> nat list \<Rightarrow> (fs_error + 'a) \<times> ExfatFs \<Rightarrow> bool" where
  "slot_refused s bs dir cs r \<longleftrightarrow> free_list s bs = [] \<and>
     (\<exists>e s'. r = (Inl e, s') \<and> e \<noteq> Panicked \<and> root_room s' bs dir cs \<and> keeps s s' {} {} \<and> disk_bitmap s' bs = disk_bitmap s bs)"

lemma find_free_slot_ok:
  assumes room: "root_room s bs dir cs" and n: "0 < n" "32 * n \<le> cluster_size s"
    and grow: "length cs < div_ceil MAX_DIRECTORY_SIZE (cluster_size s)"
  shows "slot_refused s bs dir cs (find_free_slot_in_directory dir n s) \<or> (\<exists>c off s' cs'. find_free_slot_in_directory dir n s = (Inr ((c, off), dir), s') \<and> root_room s' bs dir cs' \<and>
    dir_live s' cs' = dir_live s cs \<and> c \<in> set cs' \<and> first_run (cluster_at s' c) n off \<and> grown s bs cs cs' \<and>
    keeps s s' (set cs') (set cs' \<union> set bs) \<and>
    (\<forall>c. in_heap s c \<longrightarrow> is_cluster_allocated (disk_bitmap s' bs) c = (c \<in> set cs' \<or> is_cluster_allocated (disk_bitmap s bs) c)))"
proof -
  have rr: "vol_ok s bs" "dir_chain s dir cs" "dl_entry dir = None" "dir_wf s cs" "set cs \<inter> set bs = {}"
    "\<forall>c \<in> set cs. is_cluster_allocated (disk_bitmap s bs) c" "cluster_size s mod 32 = 0" using room by (simp_all add: root_room_def)
  obtain s1 where s1: "directory_clusters dir s = (Inr cs, s1)" "recached s s1"
    using directory_clusters_ok [OF _ rr(2)] rr(1) by (auto simp: vol_ok_def)
  note v = recached_views [OF s1(2)] and m = root_room_recached [OF room s1(2)]
  have r1: "vol_ok s1 bs" "dir_chain s1 dir cs" "dir_wf s1 cs" "\<forall>c \<in> set cs. is_cluster_allocated (disk_bitmap s1 bs) c"
    using m(1) by (simp_all add: root_room_def)
  have h1: "\<forall>c \<in> set cs. in_heap s1 c" using r1(2) by (simp add: dir_chain_def is_chain_def)
  obtain slot where slot: "free_slot_in_clusters n cs s1 = (Inr slot, s1)"
    "\<forall>c off. slot = Some (c, off) \<longrightarrow> c \<in> set cs \<and> first_run (cluster_at s1 c) n off"
    using free_slot_in_clusters_ok [of s1 cs n] r1(1) h1 n(1) by (auto simp: vol_ok_def)
  consider (stuck) "slot = None" "free_list s bs = []" | (Some) p where "slot = Some p" | (None) "slot = None" "free_list s bs \<noteq> []"
    by (cases slot) auto
  then show ?thesis
  proof cases
    case stuck
    obtain s2 where s2: "directory_clusters dir s1 = (Inr cs, s2)" "recached s1 s2"
      using directory_clusters_ok [OF _ r1(2)] r1(1) by (auto simp: vol_ok_def)
    note m2 = root_room_recached [OF m(1) s2(2)]
    have ok2: "vol_ok s2 bs" using m2(1) by (simp add: root_room_def)
    have "free_list s2 bs = []" using stuck m(2) m2(2) by simp
    then obtain e s3 where s3: "find_free_clusters 1 s2 = (Inl e, s3)" "e \<noteq> Panicked" "vol_ok s3 bs" "keeps s2 s3 {} {}"
      "disk_bitmap s3 bs = disk_bitmap s2 bs" using find_free_ok [OF ok2, of 1] by auto
    have "find_free_slot_in_directory dir n s = (Inl e, s3)"
      using s1(1) slot(1) stuck s2(1) s3(1) rr(2,3)
      by (simp add: find_free_slot_in_directory_def extend_directory_def extended_length_def allocate_clusters_def sx_simps
          dir_chain_def is_chain_def)
    moreover have k: "keeps s s3 {} {}"
      using keeps_trans [OF keeps_trans [OF v(8) recached_views(8) [OF s2(2)]] s3(4)] by simp
    moreover have "root_room s3 bs dir cs"
    proof -
      have h: "c \<in> set cs \<Longrightarrow> cluster_at s3 c = cluster_at s c" for c
        using keepsD(2) [OF k] rr(2) by (simp add: dir_chain_def is_chain_def)
      have "dir_wf s3 cs" using dir_wf_cong [OF h] rr(4) by simp
      then show ?thesis using rr s3(3,5) m2(3) m(3) is_chain_keeps [OF k] keepsD(3) [OF k]
        by (simp add: root_room_def dir_chain_def)
    qed
    ultimately show ?thesis using stuck s3(2,5) m2(3) m(3) by (intro disjI1) (simp add: slot_refused_def)
  next
    case (Some p)
    obtain c off where p: "p = (c, off)" by (cases p)
    have "find_free_slot_in_directory dir n s = (Inr ((c, off), dir), s1)"
      using s1(1) slot(1) Some p by (simp add: find_free_slot_in_directory_def sx_simps)
    moreover have "keeps s s1 (set cs) (set cs \<union> set bs)" by (rule keeps_mono [OF v(8)]) simp_all
    moreover have "\<forall>c. in_heap s c \<longrightarrow> is_cluster_allocated (disk_bitmap s1 bs) c = (c \<in> set cs \<or> is_cluster_allocated (disk_bitmap s bs) c)"
      using m(3) rr(6) by auto
    ultimately show ?thesis using slot(2) Some p m(1) v(6) by (intro disjI2 exI [of _ c] exI [of _ off] exI [of _ s1] exI [of _ cs])
      (simp add: grown_def)
  next
    case None
    then have grow: "free_list s bs \<noteq> []" "length cs < div_ceil MAX_DIRECTORY_SIZE (cluster_size s)" using assms(4) by simp_all
    let ?n = "hd (free_list s bs)"
    obtain s2 where s2: "extend_directory dir s1 = (Inr (?n, dir), s2)" "vol_ok s2 bs" "keeps s1 s2 {?n, last cs} (insert ?n (set bs))"
      "is_chain s2 (dl_first_cluster dir) (cs @ [?n])" "cluster_at s2 ?n = replicate (cluster_size s) 0"
      "\<forall>c. in_heap s1 c \<longrightarrow> is_cluster_allocated (disk_bitmap s2 bs) c = (c = ?n \<or> is_cluster_allocated (disk_bitmap s1 bs) c)"
      using extend_root_ok [OF r1(1,2) rr(3,5) _ r1(4)] grow(1) m(2) v(4) by metis
    have nf: "?n \<notin> set cs" "?n \<notin> set bs"
    proof -
      have "\<not> is_cluster_allocated (disk_bitmap s bs) ?n" using grow(1) free_list_facts(2) list.set_sel(1) by metis
      then show "?n \<notin> set cs" "?n \<notin> set bs" using rr(1,6) by (auto simp: vol_ok_def)
    qed
    have r2: "vol_ready s2" using s2(2) by (simp add: vol_ok_def)
    have cs: "cs \<noteq> []" "distinct cs" using rr(2) by (simp_all add: dir_chain_def is_chain_def)
    have h2: "in_heap s2 c = in_heap s c" for c using keeps_in_heap [OF s2(3)] v(3) by simp
    obtain s3 where s3: "clear_ends cs s2 = (Inr (), s3)" "vol_ready s3" "keeps s2 s3 {} (set cs)" "bitmap_cache s3 = bitmap_cache s2"
      "\<forall>c \<in> set cs. cluster_at s3 c = clear_end_marks (cluster_at s2 c)"
      using clear_ends_ok [OF r2 _ cs(2)] h1 v(3) h2 by auto
    have ok3: "vol_ok s3 bs" "disk_bitmap s3 bs = disk_bitmap s2 bs"
      using vol_ok_keeps [OF s3(3,2,4) s2(2)] rr(5) by auto
    have run: "find_free_slot_in_directory dir n s = (Inr ((?n, 0), dir), s3)"
      using s1(1) slot(1) None s2(1) s3(1) by (simp add: find_free_slot_in_directory_def sx_simps)
    have k: "keeps s s3 {?n, last cs} (insert ?n (set bs) \<union> set cs)"
      using keeps_trans [OF keeps_trans [OF v(8) s2(3)] s3(3)] by simp
    have old: "cluster_at s3 c = clear_end_marks (cluster_at s c)" if "c \<in> set cs" for c
    proof -
      have "c \<noteq> ?n" "c \<notin> set bs" using that nf(1) rr(5) by blast+
      then show ?thesis using s3(5) that keepsD(2) [OF s2(3), of c] h1 v(1) by simp
    qed
    have new: "cluster_at s3 ?n = replicate (cluster_size s) 0"
      using keepsD(2) [OF s3(3), of ?n] s2(4,5) nf(1) by (simp add: is_chain_def)
    have wfc: "cluster_wf (cluster_at s c)" if "c \<in> set cs" for c using rr(4) that by (simp add: dir_wf_def)
    have live: "cluster_live s3 c = cluster_live s c" "\<not> cluster_ends s3 c" "cluster_wf (cluster_at s3 c)" if "c \<in> set cs" for c
      using cleared_cluster [OF wfc [OF that]] old [OF that] by (simp_all add: cluster_live_def cluster_ends_def)
    have nlive: "cluster_live s3 ?n = []" "cluster_wf (cluster_at s3 ?n)"
      using empty_cluster(1,2) [OF rr(7)] new by (simp_all add: cluster_live_def)
    have "dir_live s3 xs = dir_live s xs" if "set xs \<subseteq> set cs" "\<forall>c \<in> set (butlast xs). \<not> cluster_ends s c" for xs
      using that by (induction xs) (auto simp: live split: if_splits)
    then have dl: "dir_live s3 (cs @ [?n]) = dir_live s cs" using rr(4) nlive(1) by (simp add: dir_live_append dir_wf_def)
    have wf3: "dir_wf s3 (cs @ [?n])" using live nlive(2) by (auto simp: dir_wf_def)
    have "is_chain s3 (dl_first_cluster dir) (cs @ [?n])"
      using is_chain_keeps [OF s3(3)] s2(4) by simp
    then have "dir_chain s3 dir (cs @ [?n])" using grow(2) rr(3) keepsD(3) [OF k] by (simp add: dir_chain_def)
    moreover have al: "\<forall>c. in_heap s c \<longrightarrow> is_cluster_allocated (disk_bitmap s3 bs) c = (c \<in> set (cs @ [?n]) \<or> is_cluster_allocated (disk_bitmap s bs) c)"
      using s2(6) ok3(2) m(3) v(3) rr(6) by auto
    moreover have "\<forall>c \<in> set (cs @ [?n]). in_heap s c" using s2(4) h2 by (simp add: is_chain_def)
    ultimately have "root_room s3 bs dir (cs @ [?n])"
      using ok3(1) rr(3,5,7) wf3 nf keepsD(3) [OF k] by (auto simp: root_room_def)
    moreover have "keeps s s3 (set (cs @ [?n])) (set (cs @ [?n]) \<union> set bs)"
      by (rule keeps_mono [OF k]) (use cs(1) in auto)
    moreover have "first_run (cluster_at s3 ?n) n 0" unfolding new by (rule first_run_empty [OF n(2,1)])
    ultimately show ?thesis using run dl al grow(1)
      by (intro disjI2 exI [of _ ?n] exI [of _ 0] exI [of _ s3] exI [of _ "cs @ [?n]"]) (simp add: grown_def)
  qed
qed

lemma created_entry_set:
  assumes "storable_name name"
  shows "entry_set (create_file_entries now name first len d)"
proof -
  obtain head where h: "head ! 0 = ENTRY_TYPE_FILE" "head ! Suc 0 = of_nat (1 + name_entries name)"
    "create_file_entries now name first len d =
      head # stream_entry name first len # map name_entry (name_chunks (name_entries name) (encode_utf16 name))"
    using created_entries [of name d now first len] by blast
  have "stream_entry name first len ! 0 AND 0x7F \<noteq> 0" by (simp add: entry_heads entry_types)
  moreover have "name_entry us ! 0 AND 0x7F \<noteq> 0" if "us \<in> set (name_chunks (name_entries name) (encode_utf16 name))" for us
    using name_chunks_length [OF that] by (simp add: name_entry_head entry_types)
  ultimately show ?thesis
    using h name_entries_bound [OF assms] created_sizes [of _ now name first len d] by (auto simp: entry_set_def)
qed

definition created_location :: "nat \<Rightarrow> nat \<Rightarrow> ustring \<Rightarrow> nat \<Rightarrow> nat \<Rightarrow> bool \<Rightarrow> FileEntryLocation" where
  "created_location c off name first len d =
     \<lparr>directory_cluster = c, entry_offset = off, first_cluster = first, data_length = len,
      secondary_count = 1 + name_entries name, is_directory = d, no_fat_chain = False\<rparr>"

lemma created_set_entry:
  assumes "storable_name name" and "first < 2 ^ 32" and "len < 2 ^ 64"
  shows "set_entry c off (create_file_entries now name first len d) = (name, created_location c off name first len d)"
proof -
  obtain head where h: "slice_of 4 6 head = le_bytes 2 (unat (if d then ATTR_DIRECTORY else ATTR_ARCHIVE))"
    "create_file_entries now name first len d =
      head # stream_entry name first len # map name_entry (name_chunks (name_entries name) (encode_utf16 name))"
    using created_entries [of name d now first len] by blast
  have "(of_nat (le_val (slice_of 4 6 (hd (create_file_entries now name first len d)))) :: u16) =
      (if d then ATTR_DIRECTORY else ATTR_ARCHIVE)" using h by (simp add: word_of_le_bytes)
  then have "(of_nat (le_val (slice_of 4 6 (hd (create_file_entries now name first len d)))) :: u16) AND ATTR_DIRECTORY \<noteq> 0 \<longleftrightarrow> d"
    by (simp add: ATTR_DIRECTORY_def ATTR_ARCHIVE_def)
  then show ?thesis using created_info [OF assms, of now d]
    by (simp add: set_entry_def set_location_def created_location_def written_info_def Let_def)
qed

text \<open>Creating an entry at the root adds it to the live entries and takes at most one cluster more.\<close>

lemma create_entry_ok:
  assumes room: "root_room s bs dir cs" and name: "storable_name name" and small: "first < 2 ^ 32" "len < 2 ^ 64"
    and fits: "32 * (2 + name_entries name) \<le> cluster_size s"
    and grow: "length cs < div_ceil MAX_DIRECTORY_SIZE (cluster_size s)"
  shows "slot_refused s bs dir cs (create_entry_in_directory h dir name first len d s) \<or>
    (\<exists>s' cs' A B c off. create_entry_in_directory h dir name first len d s = (Inr dir, s') \<and> root_room s' bs dir cs' \<and>
    dir_live s cs = A @ B \<and> dir_live s' cs' = A @ (name, created_location c off name first len d) # B \<and> grown s bs cs cs' \<and>
    keeps s s' (set cs') (set cs' \<union> set bs) \<and>
    (\<forall>c. in_heap s c \<longrightarrow> is_cluster_allocated (disk_bitmap s' bs) c = (c \<in> set cs' \<or> is_cluster_allocated (disk_bitmap s bs) c)))"
proof (cases "slot_refused s bs dir cs (find_free_slot_in_directory dir (length (create_file_entries (hx_now h) name first len d)) s)")
  case True
  then show ?thesis by (intro disjI1) (auto simp: slot_refused_def create_entry_in_directory_def sx_simps Let_def)
next
  case False
  let ?es = "create_file_entries (hx_now h) name first len d"
  note es = created_entry_set [OF name, of "hx_now h" first len d]
  obtain c off s1 cs' where s1: "find_free_slot_in_directory dir (length ?es) s = (Inr ((c, off), dir), s1)" "root_room s1 bs dir cs'"
    "dir_live s1 cs' = dir_live s cs" "c \<in> set cs'" "first_run (cluster_at s1 c) (length ?es) off" "grown s bs cs cs'"
    "keeps s s1 (set cs') (set cs' \<union> set bs)"
    "\<forall>c. in_heap s c \<longrightarrow> is_cluster_allocated (disk_bitmap s1 bs) c = (c \<in> set cs' \<or> is_cluster_allocated (disk_bitmap s bs) c)"
    using find_free_slot_ok [OF room _ _ grow, of "length ?es"] fits False by auto
  have r1: "vol_ok s1 bs" "dir_chain s1 dir cs'" "dir_wf s1 cs'" "set cs' \<inter> set bs = {}" using s1(2) by (simp_all add: root_room_def)
  have v1: "vol_ready s1" using r1(1) by (simp add: vol_ok_def)
  have cs: "distinct cs'" "\<forall>c \<in> set cs'. in_heap s1 c" using r1(2) by (simp_all add: dir_chain_def is_chain_def)
  note p = put_set_ok [OF v1 cs(1) s1(4) cs(2) r1(3) es s1(5)]
  obtain s2 A B where s2: "write_cluster c (copy_slice off (concat ?es) (cluster_at s1 c)) s1 = (Inr (), s2)" "vol_ready s2"
    "keeps s1 s2 {} {c}" "bitmap_cache s2 = bitmap_cache s1" "dir_wf s2 cs'" "dir_live s1 cs' = A @ B"
    "dir_live s2 cs' = A @ set_entry c off ?es # B" using p(2) by blast
  have ok2: "vol_ok s2 bs" "disk_bitmap s2 bs = disk_bitmap s1 bs"
    using vol_ok_keeps [OF s2(3,2,4) r1(1)] s1(4) r1(4) by auto
  have run: "create_entry_in_directory h dir name first len d s = (Inr dir, s2)"
    using s1(1) s2(1) p(1) read_cluster_ok [OF v1, of c] cs(2) s1(4)
    by (simp add: create_entry_in_directory_def sx_simps Let_def)
  have "dir_chain s2 dir cs'"
    using r1(2) is_chain_keeps [OF s2(3)] keepsD(3) [OF s2(3)] by (simp add: dir_chain_def)
  then have "root_room s2 bs dir cs'" using s1(2) s2(5) ok2 keepsD(3) [OF s2(3)] by (simp add: root_room_def)
  moreover have "keeps s s2 (set cs') (set cs' \<union> set bs)"
    by (rule keeps_mono [OF keeps_trans [OF s1(7) s2(3)]]) (use s1(4) in auto)
  moreover have "\<forall>c. in_heap s c \<longrightarrow> is_cluster_allocated (disk_bitmap s2 bs) c = (c \<in> set cs' \<or> is_cluster_allocated (disk_bitmap s bs) c)"
    using s1(8) ok2(2) by simp
  moreover have "dir_live s2 cs' = A @ (name, created_location c off name first len d) # B"
    using s2(7) created_set_entry [OF name small] by simp
  ultimately show ?thesis using run s1(3,6) s2(6)
    by (intro disjI2 exI [of _ s2] exI [of _ cs'] exI [of _ A] exI [of _ B] exI [of _ c] exI [of _ off]) simp
qed

section \<open>Deleting an entry\<close>

lemma live_items_member:
  assumes "live_items c data xs = A @ e # B"
  shows "\<exists>pre off n suf. xs = pre @ (off, KFile n) # suf \<and> \<not> has_end pre \<and>
    e = (si_name (set_info_at data off), location_at c data off) \<and> A = live_items c data pre \<and> B = live_items c data suf"
  using assms
proof (induction xs arbitrary: A)
  case (Cons x xs)
  obtain i k where x: "x = (i, k)" by (cases x)
  consider (here) n where "k = KFile n" "A = []" | (later) A' where "k \<noteq> KEnd" "live_items c data xs = A' @ e # B"
      "A = live_items c data [x] @ A'"
    using Cons.prems x by (cases k; cases A) auto
  then show ?case
  proof cases
    case here
    then show ?thesis using Cons.prems x by (intro exI [of _ "[]"]) auto
  next
    case later
    obtain pre off n suf where "xs = pre @ (off, KFile n) # suf" "\<not> has_end pre"
      "e = (si_name (set_info_at data off), location_at c data off)" "A' = live_items c data pre" "B = live_items c data suf"
      using Cons.IH [OF later(2)] by blast
    then show ?thesis using later x by (intro exI [of _ "x # pre"] exI [of _ off] exI [of _ n] exI [of _ suf])
      (auto split: item.splits)
  qed
qed simp

lemma dir_live_member:
  assumes "dir_live s cs = A @ e # B"
  shows "\<exists>xs c ys A' B'. cs = xs @ c # ys \<and> (\<forall>x \<in> set xs. \<not> cluster_ends s x) \<and> cluster_live s c = A' @ e # B' \<and>
    A = dir_live s xs @ A' \<and> B = B' @ (if cluster_ends s c then [] else dir_live s ys)"
  using assms
proof (induction cs arbitrary: A)
  case (Cons c cs)
  let ?D = "if cluster_ends s c then [] else dir_live s cs"
  have "cluster_live s c @ ?D = A @ e # B" using Cons.prems by simp
  then consider (here) us where "cluster_live s c = A @ us" "us @ ?D = e # B" "us \<noteq> []"
    | (later) us where "A = cluster_live s c @ us" "?D = us @ e # B"
    by (auto simp: append_eq_append_conv2 append_eq_Cons_conv)
  then show ?case
  proof cases
    case here
    then obtain B' where "us = e # B'" "B = B' @ ?D" by (cases us) auto
    then show ?thesis using here by (intro exI [of _ "[]"] exI [of _ c] exI [of _ cs] exI [of _ A] exI [of _ B']) simp
  next
    case later
    then have ne: "\<not> cluster_ends s c" by (auto split: if_splits)
    obtain xs d ys A' B' where "cs = xs @ d # ys" "\<forall>x \<in> set xs. \<not> cluster_ends s x" "cluster_live s d = A' @ e # B'"
      "us = dir_live s xs @ A'" "B = B' @ (if cluster_ends s d then [] else dir_live s ys)"
      using Cons.IH [of us] later ne by auto
    then show ?thesis using later ne
      by (intro exI [of _ "c # xs"] exI [of _ d] exI [of _ ys] exI [of _ A'] exI [of _ B']) simp
  qed
qed simp

lemma delete_entry_ok:
  assumes ready: "vol_ready s" and d: "distinct cs" and heap: "\<forall>c \<in> set cs. in_heap s c" and wf: "dir_wf s cs"
    and live: "dir_live s cs = A @ e # B"
  shows "\<exists>s'. delete_file_entry (snd e) s = (Inr (), s') \<and> vol_ready s' \<and> keeps s s' {} {directory_cluster (snd e)} \<and>
    bitmap_cache s' = bitmap_cache s \<and> directory_cluster (snd e) \<in> set cs \<and> dir_wf s' cs \<and> dir_live s' cs = A @ B"
proof -
  obtain xs c ys A' B' where m: "cs = xs @ c # ys" "\<forall>x \<in> set xs. \<not> cluster_ends s x" "cluster_live s c = A' @ e # B'"
    "A = dir_live s xs @ A'" "B = B' @ (if cluster_ends s c then [] else dir_live s ys)" using dir_live_member [OF live] by (elim exE conjE) (rule that)
  let ?data = "cluster_at s c"
  obtain pre off n suf where it: "items ?data 0 = pre @ (off, KFile n) # suf" "\<not> has_end pre"
    "e = (si_name (set_info_at ?data off), location_at c ?data off)" "A' = live_items c ?data pre" "B' = live_items c ?data suf"
    using live_items_member m(3) unfolding cluster_live_def by blast
  have wfc: "cluster_wf ?data" and hc: "in_heap s c" using wf heap m(1) by (auto simp: dir_wf_def)
  have g: "geometry_ok s" using ready by (simp add: vol_ready_def)
  have n: "n = set_count ?data off" using items_member(2) [OF it(1)] by (auto simp: kind_at_def split: if_splits)
  let ?new = "mark_secondaries (map (\<lambda>i. off + i * 32) [1..<n + 1]) (?data[off := ENTRY_TYPE_DELETED_FILE])"
  note del = deleted_set [OF wfc it(1) refl]
  have loc: "directory_cluster (snd e) = c" "entry_offset (snd e) = off" "secondary_count (snd e) = n"
    using it(3) n by (simp_all add: location_at_def)
  obtain s' where s': "write_cluster c ?new s = (Inr (), s')" "vol_ready s'" "keeps s s' {} {c}" "cluster_at s' c = ?new"
    "bitmap_cache s' = bitmap_cache s"
    using write_cluster_ok [OF ready hc, of ?new] length_cluster_at [OF g hc] by auto
  have run: "delete_file_entry (snd e) s = (Inr (), s')"
    using s'(1) loc read_cluster_ok [OF ready hc] by (simp add: delete_file_entry_def sx_simps Let_def del: upt_Suc)
  have other: "cluster_at s' x = cluster_at s x" if "x \<in> set (xs @ ys)" for x
    using keepsD(2) [OF s'(3)] that m(1) d heap by auto
  have new: "cluster_wf (cluster_at s' c)" "cluster_ends s' c \<Longrightarrow> cluster_ends s c"
    using del(1,2) s'(4) by (simp_all add: cluster_ends_def)
  note r = dir_live_replace [OF wf [unfolded m(1)] d [unfolded m(1)] other new]
  obtain D where D: "dir_live s cs = dir_live s xs @ cluster_live s c @ D" "dir_live s' cs = dir_live s xs @ cluster_live s' c @ D"
    using r(2) m(1) by auto
  have "cluster_live s' c = A' @ B'" using del(5) [of c] s'(4) it(4,5) by (simp add: cluster_live_def)
  moreover have "B = B' @ D" using D(1) live m(3,4) by simp
  ultimately have "dir_live s' cs = A @ B" using D(2) m(4) by simp
  then show ?thesis using run s' loc r(1) m(1) by auto
qed

section \<open>File data\<close>

text \<open>The clusters of a file: none for an empty one, else a chain or a contiguous run of the right length.\<close>

definition alloc :: "ExfatFs \<Rightarrow> FileEntryLocation \<Rightarrow> nat list \<Rightarrow> bool" where
  "alloc s loc fs \<longleftrightarrow>
     (if data_length loc = 0 then fs = [] \<and> first_cluster loc = 0 \<and> \<not> no_fat_chain loc
      else length fs = div_ceil (data_length loc) (cluster_size s) \<and> (\<forall>c \<in> set fs. in_heap s c) \<and>
        (if no_fat_chain loc then fs = [first_cluster loc..<first_cluster loc + length fs]
         else is_chain s (first_cluster loc) fs))"

definition content :: "ExfatFs \<Rightarrow> FileEntryLocation \<Rightarrow> nat list \<Rightarrow> bytes" where
  "content s loc fs = take (data_length loc) (chain_data s fs)"

lemma alloc_keeps:
  assumes "alloc s loc fs" and "keeps s s' F C" and "set fs \<inter> F = {}"
  shows "alloc s' loc fs" and "set fs \<inter> C = {} \<Longrightarrow> content s' loc fs = content s loc fs" and "\<forall>c \<in> set fs. in_heap s c"
proof -
  show h: "\<forall>c \<in> set fs. in_heap s c" using assms(1) by (cases "data_length loc = 0") (auto simp: alloc_def)
  show "alloc s' loc fs"
    using assms(1,3) keepsD(3) [OF assms(2)] keeps_in_heap [OF assms(2)] is_chain_keeps [OF assms(2)]
    by (auto simp: alloc_def split: if_splits)
  show "content s' loc fs = content s loc fs" if "set fs \<inter> C = {}"
  proof -
    have "\<forall>c \<in> set fs. in_heap s c \<and> c \<notin> C" using h that by blast
    then show ?thesis using chain_data_keeps [OF assms(2), of fs] by (simp add: content_def)
  qed
qed

lemma div_ceil_pos: "0 < a \<Longrightarrow> 0 < b \<Longrightarrow> 0 < div_ceil a b"
  by (simp add: div_ceil_def div_greater_zero_iff)

lemma div_ceil_enough: "0 < b \<Longrightarrow> a \<le> div_ceil a b * b"
proof -
  assume b: "0 < b"
  have "a + b - 1 < (a + b - 1) div b * b + b" using b div_mult_mod_eq [of "a + b - 1" b] mod_less_divisor [OF b, of "a + b - 1"] by linarith
  then show ?thesis using b by (simp add: div_ceil_def)
qed

lemma clusters_ok:
  assumes ready: "vol_ready s" and a: "alloc s loc fs"
  shows "\<exists>s'. clusters_for_allocation loc s = (Inr fs, s') \<and> recached s s' \<and> vol_ready s'"
proof (cases "data_length loc = 0")
  case True
  then show ?thesis using a ready recached_refl [OF ready] by (simp add: clusters_for_allocation_def alloc_def)
next
  case False
  let ?n = "div_ceil (data_length loc) (cluster_size s)"
  have cs: "0 < cluster_size s" using ready by (simp add: vol_ready_def geometry_ok_def)
  have n: "0 < ?n" using div_ceil_pos cs False by simp
  have fs: "length fs = ?n" "\<forall>c \<in> set fs. in_heap s c" using a False by (simp_all add: alloc_def)
  show ?thesis
  proof (cases "no_fat_chain loc")
    case True
    then have e: "fs = [first_cluster loc..<first_cluster loc + ?n]" using a False fs(1) by (simp add: alloc_def)
    then have "first_cluster loc \<in> set fs" "first_cluster loc + (?n - 1) \<in> set fs" using n by (subst e; simp)+
    then have "in_heap s (first_cluster loc)" "in_heap s (first_cluster loc + (?n - 1))" using fs(2) by blast+
    moreover have "[first_cluster loc..<first_cluster loc + (?n - 1) + 1] = fs" using e n by simp
    ultimately show ?thesis using False True ready recached_refl [OF ready] validate_ok [of s "first_cluster loc"]
      by (simp add: clusters_for_allocation_def sx_simps Let_def in_heap_def max_cluster_def)
  next
    case nf: False
    then have ch: "is_chain s (first_cluster loc) fs" using a False by (simp add: alloc_def)
    then have "hd fs = first_cluster loc" "fs \<noteq> []" using is_chain_hd by (auto simp: is_chain_def)
    then have "in_heap s (first_cluster loc)" using fs(2) by (metis list.set_sel(1))
    moreover obtain s' where "read_cluster_chain_limited (first_cluster loc) ?n s = (Inr fs, s')" "recached s s'"
      using read_chain_limited_ok [OF ready ch, of ?n] fs(1) by auto
    ultimately show ?thesis using False nf fs(1) recachedD(1) ready validate_ok
      by (auto simp: clusters_for_allocation_def sx_simps Let_def)
  qed
qed

lemma read_file_data_ok:
  assumes "vol_ready s" and "\<forall>c \<in> set fs. in_heap s c" and "length acc \<le> len"
  shows "read_file_data len fs acc s = (Inr (acc @ take (len - length acc) (chain_data s fs)), s)"
  using assms(2,3)
proof (induction fs arbitrary: acc)
  case (Cons c fs)
  have g: "geometry_ok s" "in_heap s c" using assms(1) Cons.prems(1) by (simp_all add: vol_ready_def)
  have "take (min (len - length acc) (cluster_size s)) (cluster_at s c) = take (len - length acc) (cluster_at s c)"
    using length_cluster_at [OF g] by (simp add: min_def)
  moreover have "take (len - length (acc @ take (len - length acc) (cluster_at s c))) xs =
      take (len - length acc - length (cluster_at s c)) xs" for xs :: bytes
    using Cons.prems(2) by (simp add: min_def)
  ultimately show ?case using Cons.IH [of "acc @ take (len - length acc) (cluster_at s c)"] Cons.prems
      read_cluster_ok [OF assms(1) g(2)] by (simp add: sx_simps)
qed (simp add: sx_simps)

lemma read_location_ok:
  assumes "vol_ready s" and "alloc s loc fs"
  shows "\<exists>s'. read_file_from_location loc s = (Inr (content s loc fs), s') \<and> recached s s' \<and> vol_ready s'"
proof (cases "data_length loc = 0")
  case True
  then show ?thesis using assms recached_refl [OF assms(1)] by (simp add: read_file_from_location_def content_def sx_simps)
next
  case False
  obtain s' where s': "clusters_for_allocation loc s = (Inr fs, s')" "recached s s'" "vol_ready s'" using clusters_ok [OF assms] by blast
  have "\<forall>c \<in> set fs. in_heap s' c" using alloc_keeps(3) [OF assms(2) keeps_refl [of s "{}" "{}"]] recached_views(3) [OF s'(2)] by simp
  then show ?thesis using s' False read_file_data_ok [OF s'(3), of fs "[]" "data_length loc"] recached_views(11) [OF s'(2)]
    by (simp add: read_file_from_location_def content_def sx_simps)
qed

lemma write_file_data_ok:
  assumes "vol_ready s" and "\<forall>c \<in> set fs. in_heap s c" and "distinct fs" and "off \<le> length data"
    and "length data - off \<le> length fs * cluster_size s"
  shows "\<exists>s'. write_file_data data off fs s = (Inr (), s') \<and> vol_ready s' \<and> keeps s s' {} (set fs) \<and>
    bitmap_cache s' = bitmap_cache s \<and> take (length data - off) (chain_data s' fs) = drop off data"
  using assms
proof (induction fs arbitrary: s off)
  case (Cons c fs)
  let ?n = "min (length data - off) (cluster_size s)"
  let ?chunk = "slice_of off (off + ?n) data"
  have hc: "in_heap s c" using Cons.prems(2) by simp
  have len: "length ?chunk = ?n" using Cons.prems(4) by simp
  obtain s1 where s1: "write_cluster c ?chunk s = (Inr (), s1)" "vol_ready s1" "keeps s s1 {} {c}"
    "cluster_at s1 c = ?chunk @ replicate (cluster_size s - ?n) 0" "bitmap_cache s1 = bitmap_cache s"
    using write_cluster_ok [OF Cons.prems(1) hc, of ?chunk] len by auto
  have cz: "cluster_size s1 = cluster_size s" using keepsD(3) [OF s1(3)] .
  have h1: "\<forall>c \<in> set fs. in_heap s1 c" using Cons.prems(2) keeps_in_heap [OF s1(3)] by simp
  have room: "length data - (off + ?n) \<le> length fs * cluster_size s1" using Cons.prems(5) cz by (auto simp: min_def)
  have le: "off + ?n \<le> length data" and d: "distinct fs" using Cons.prems(3,4) by simp_all
  obtain s2 where s2: "write_file_data data (off + ?n) fs s1 = (Inr (), s2)" "vol_ready s2" "keeps s1 s2 {} (set fs)"
    "bitmap_cache s2 = bitmap_cache s1" "take (length data - (off + ?n)) (chain_data s2 fs) = drop (off + ?n) data"
    using Cons.IH [OF s1(2) h1 d le room] by blast
  have "cluster_at s2 c = cluster_at s1 c" using keepsD(2) [OF s2(3), of c] Cons.prems(3) hc keeps_in_heap [OF s1(3)] by simp
  then have "take (length data - off) (chain_data s2 (c # fs)) =
      take (length data - off) (?chunk @ replicate (cluster_size s - ?n) 0 @ chain_data s2 fs)" using s1(4) by simp
  also have "\<dots> = drop off data"
  proof (cases "length data - off \<le> cluster_size s")
    case True
    then show ?thesis using len by (simp add: slice_of_def)
  next
    case False
    then have n: "?n = cluster_size s" by simp
    have "take (length data - off) (?chunk @ chain_data s2 fs) = ?chunk @ take (length data - (off + ?n)) (chain_data s2 fs)"
      using len n False by simp
    also have "\<dots> = ?chunk @ drop (off + ?n) data" using s2(5) by simp
    also have "\<dots> = drop off data" by (simp add: slice_of_def add.commute [of off] flip: drop_drop)
    finally show ?thesis using n by simp
  qed
  finally show ?case using s1 s2 keeps_trans [OF s1(3) s2(3)] by (simp add: sx_simps Let_def)
qed (simp add: sx_simps)

lemma allocate_data_ok:
  assumes ok: "vol_ok s bs" and room: "div_ceil (length data) (cluster_size s) \<le> length (free_list s bs)"
  shows "\<exists>first s' fs. allocate_data data s = (Inr first, s') \<and> vol_ok s' bs \<and> fs = take (length fs) (free_list s bs) \<and>
    keeps s s' (set fs) (set fs \<union> set bs) \<and> first < 2 ^ 32 \<and> length fs = (if data = [] then 0 else div_ceil (length data) (cluster_size s)) \<and>
    (data = [] \<longrightarrow> first = 0) \<and> (data \<noteq> [] \<longrightarrow> is_chain s' first fs) \<and> take (length data) (chain_data s' fs) = data \<and>
    (\<forall>c. in_heap s c \<longrightarrow> is_cluster_allocated (disk_bitmap s' bs) c = (c \<in> set fs \<or> is_cluster_allocated (disk_bitmap s bs) c))"
proof (cases "data = []")
  case True
  then show ?thesis using ok by (auto simp: allocate_data_def)
next
  case False
  let ?n = "div_ceil (length data) (cluster_size s)" and ?fs = "take (div_ceil (length data) (cluster_size s)) (free_list s bs)"
  have cs: "0 < cluster_size s" using ok by (simp add: vol_ok_def vol_ready_def geometry_ok_def)
  have n: "0 < ?n" using div_ceil_pos cs False by simp
  obtain s1 where s1: "allocate_clusters ?n s = (Inr (hd ?fs), s1)" "vol_ok s1 bs" "keeps s s1 (set ?fs) (set bs)" "is_chain s1 (hd ?fs) ?fs"
    "\<forall>c. in_heap s c \<longrightarrow> is_cluster_allocated (disk_bitmap s1 bs) c = (c \<in> set ?fs \<or> is_cluster_allocated (disk_bitmap s bs) c)"
    using allocate_ok [OF ok n room refl] by blast
  have r1: "vol_ready s1" using s1(2) by (simp add: vol_ok_def)
  obtain s2 where s2: "read_cluster_chain (hd ?fs) s1 = (Inr ?fs, s2)" "recached s1 s2" using read_chain_ok [OF r1 s1(4)] by blast
  note v = recached_views [OF s2(2)]
  have ok2: "vol_ok s2 bs" "disk_bitmap s2 bs = disk_bitmap s1 bs" using vol_ok_cached [OF s1(2) s2(2)] by simp_all
  have r2: "vol_ready s2" using ok2 by (simp add: vol_ok_def)
  have ch: "distinct ?fs" "\<forall>c \<in> set ?fs. in_heap s2 c" "?fs \<noteq> []" using s1(4) v(3) by (auto simp: is_chain_def)
  have lf: "length ?fs = ?n" using room by simp
  have k2: "keeps s s2 (set ?fs) (set bs)" using keeps_trans [OF s1(3) v(8)] by simp
  have c2: "cluster_size s2 = cluster_size s" using keepsD(3) [OF k2] .
  have "length data - 0 \<le> length ?fs * cluster_size s2" using div_ceil_enough [OF cs, of "length data"] lf c2 by simp
  then obtain s3 where s3: "write_file_data data 0 ?fs s2 = (Inr (), s3)" "vol_ready s3" "keeps s2 s3 {} (set ?fs)"
    "bitmap_cache s3 = bitmap_cache s2" "take (length data) (chain_data s3 ?fs) = data"
    using write_file_data_ok [OF r2 ch(2,1), of 0 data] by auto
  have fb: "set ?fs \<inter> set bs = {}"
    using ok free_list_facts(2) set_take_subset [of ?n "free_list s bs"] by (fastforce simp: vol_ok_def)
  have ok3: "vol_ok s3 bs" "disk_bitmap s3 bs = disk_bitmap s2 bs" using vol_ok_keeps [OF s3(3,2,4) ok2(1)] fb by auto
  have "allocate_data data s = (Inr (hd ?fs), s3)"
    using False n s1(1) s2(1) s3(1) by (simp add: allocate_data_def sx_simps Let_def div_ceil_def)
  moreover have "keeps s s3 (set ?fs) (set ?fs \<union> set bs)" using keeps_trans [OF k2 s3(3)] by (simp add: Un_commute)
  moreover have "is_chain s3 (hd ?fs) ?fs" using is_chain_keeps [OF s3(3)] s1(4) v(10) by simp
  moreover have "hd ?fs < 2 ^ 32"
  proof -
    have "in_heap s2 (hd ?fs)" using ch(2,3) list.set_sel(1) by blast
    then show ?thesis using r2 by (auto simp: in_heap_def vol_ready_def geometry_ok_def)
  qed
  moreover have "\<forall>c. in_heap s c \<longrightarrow> is_cluster_allocated (disk_bitmap s3 bs) c = (c \<in> set ?fs \<or> is_cluster_allocated (disk_bitmap s bs) c)"
    using s1(5) ok3(2) ok2(2) by simp
  ultimately show ?thesis using False ok3(1) lf s3(5)
    by (intro exI [of _ "hd ?fs"] exI [of _ s3] exI [of _ ?fs]) simp
qed

end
