(* ===== verification/ExfatRoot.thy ===== *)
theory ExfatRoot
  imports ExfatStore
begin

text \<open>
  The root of a sound exFAT volume as a store of files: a map from lower-case names to contents.  The
  locale \<open>name_store\<close> states what such a store promises operation by operation and derives what a whole
  session sees; \<open>write_file\<close>, \<open>read_file\<close> and \<open>delete_file\<close> (\<open>exfat/ops.rs\<close>) are its model.
\<close>

section \<open>The interface\<close>

text \<open>\<open>abs k s m\<close>: the state holds the map \<open>m\<close> and has room for \<open>k\<close> more growths of its directory.\<close>

datatype ('n, 'v) request = Put 'n 'v | Get 'n | Remove 'n

datatype ('e, 'v) answer = Refused 'e | Done | Got 'v

definition perform ::
    "('n \<Rightarrow> 'v \<Rightarrow> 's \<Rightarrow> ('e + unit) \<times> 's) \<Rightarrow> ('n \<Rightarrow> 's \<Rightarrow> ('e + 'v) \<times> 's) \<Rightarrow> ('n \<Rightarrow> 's \<Rightarrow> ('e + unit) \<times> 's) \<Rightarrow>
     ('n, 'v) request \<Rightarrow> 's \<Rightarrow> ('e, 'v) answer \<times> 's" where
  "perform put get remove q s =
     (case q of
        Put n v \<Rightarrow> (case put n v s of (Inl e, s) \<Rightarrow> (Refused e, s) | (Inr _, s) \<Rightarrow> (Done, s))
      | Get n \<Rightarrow> (case get n s of (Inl e, s) \<Rightarrow> (Refused e, s) | (Inr v, s) \<Rightarrow> (Got v, s))
      | Remove n \<Rightarrow> (case remove n s of (Inl e, s) \<Rightarrow> (Refused e, s) | (Inr _, s) \<Rightarrow> (Done, s)))"

primrec session :: "('q \<Rightarrow> 's \<Rightarrow> 'a \<times> 's) \<Rightarrow> 'q list \<Rightarrow> 's \<Rightarrow> 'a list \<times> 's" where
  "session step [] s = ([], s)"
| "session step (q # qs) s = (case step q s of (a, s) \<Rightarrow> case session step qs s of (as, s) \<Rightarrow> (a # as, s))"

text \<open>What a map makes of a request and its answer: whether they fit, and the map afterwards.\<close>

definition fits :: "('n \<Rightarrow> 'k) \<Rightarrow> ('k \<Rightarrow> 'v option) \<Rightarrow> ('n, 'v) request \<times> ('e, 'v) answer \<Rightarrow> bool" where
  "fits key m x \<longleftrightarrow>
     (case x of
        (Put n v, a) \<Rightarrow> (case a of Refused _ \<Rightarrow> True | Done \<Rightarrow> m (key n) = None | Got _ \<Rightarrow> False)
      | (Get n, a) \<Rightarrow> (case a of Refused _ \<Rightarrow> m (key n) = None | Done \<Rightarrow> False | Got v \<Rightarrow> m (key n) = Some v)
      | (Remove n, a) \<Rightarrow> (case a of Refused _ \<Rightarrow> m (key n) = None | Done \<Rightarrow> m (key n) \<noteq> None | Got _ \<Rightarrow> False))"

definition after :: "('n \<Rightarrow> 'k) \<Rightarrow> ('n, 'v) request \<times> ('e, 'v) answer \<Rightarrow> ('k \<Rightarrow> 'v option) \<Rightarrow> 'k \<Rightarrow> 'v option" where
  "after key x m = (case x of (Put n v, Done) \<Rightarrow> m(key n \<mapsto> v) | (Remove n, Done) \<Rightarrow> m(key n := None) | _ \<Rightarrow> m)"

primrec explains :: "('n \<Rightarrow> 'k) \<Rightarrow> ('k \<Rightarrow> 'v option) \<Rightarrow> (('n, 'v) request \<times> ('e, 'v) answer) list \<Rightarrow> bool" where
  "explains key m [] = True"
| "explains key m (x # xs) \<longleftrightarrow> fits key m x \<and> explains key (after key x m) xs"

definition requests_fine :: "('n \<Rightarrow> 'v \<Rightarrow> bool) \<Rightarrow> ('n, 'v) request list \<Rightarrow> bool" where
  "requests_fine fine qs \<longleftrightarrow> (\<forall>q \<in> set qs. case q of Put n v \<Rightarrow> fine n v | _ \<Rightarrow> True)"

locale name_store =
  fixes abs :: "nat \<Rightarrow> 's \<Rightarrow> ('k \<Rightarrow> 'v option) \<Rightarrow> bool"
    and key :: "'n \<Rightarrow> 'k"
    and fine :: "'n \<Rightarrow> 'v \<Rightarrow> bool"
    and put :: "'n \<Rightarrow> 'v \<Rightarrow> 's \<Rightarrow> ('e + unit) \<times> 's"
    and get :: "'n \<Rightarrow> 's \<Rightarrow> ('e + 'v) \<times> 's"
    and remove :: "'n \<Rightarrow> 's \<Rightarrow> ('e + unit) \<times> 's"
  assumes put_law: "abs (Suc k) s m \<Longrightarrow> fine n v \<Longrightarrow> put n v s = (r, s') \<Longrightarrow>
      (case r of Inl _ \<Rightarrow> abs k s' m | Inr _ \<Rightarrow> m (key n) = None \<and> abs k s' (m(key n \<mapsto> v)))"
    and get_law: "abs k s m \<Longrightarrow> get n s = (g, s') \<Longrightarrow>
      abs k s' m \<and> (case g of Inl _ \<Rightarrow> m (key n) = None | Inr v \<Rightarrow> m (key n) = Some v)"
    and remove_law: "abs k s m \<Longrightarrow> remove n s = (r, s') \<Longrightarrow>
      (case r of Inl _ \<Rightarrow> m (key n) = None \<and> abs k s' m | Inr _ \<Rightarrow> m (key n) \<noteq> None \<and> abs k s' (m(key n := None)))"
    and slack_law: "abs (Suc k) s m \<Longrightarrow> abs k s m"
begin

lemma slack: "abs (k + j) s m \<Longrightarrow> abs k s m"
  by (induction j) (auto dest: slack_law)

lemma perform_step:
  assumes "abs (Suc k) s m" and "case q of Put n v \<Rightarrow> fine n v | _ \<Rightarrow> True" and "perform put get remove q s = (a, s')"
  shows "fits key m (q, a) \<and> abs k s' (after key (q, a) m)"
proof (cases q)
  case (Put n v)
  obtain r t where p: "put n v s = (r, t)" by (cases "put n v s")
  then show ?thesis using put_law [OF assms(1) _ p] assms(2,3) Put
    by (cases r) (auto simp: perform_def fits_def after_def)
next
  case (Get n)
  obtain r t where p: "get n s = (r, t)" by (cases "get n s")
  then show ?thesis using get_law [OF slack_law [OF assms(1)] p] assms(3) Get
    by (cases r) (auto simp: perform_def fits_def after_def)
next
  case (Remove n)
  obtain r t where p: "remove n s = (r, t)" by (cases "remove n s")
  then show ?thesis using remove_law [OF slack_law [OF assms(1)] p] assms(3) Remove
    by (cases r) (auto simp: perform_def fits_def after_def)
qed

lemma session_explained:
  assumes "abs (length qs) s m" and "requests_fine fine qs" and "session (perform put get remove) qs s = (as, s')"
  shows "length as = length qs \<and> explains key m (zip qs as) \<and>
    abs 0 s' (fold (after key) (zip qs as) m)"
  using assms
proof (induction qs arbitrary: s m as)
  case (Cons q qs)
  obtain a t where a: "perform put get remove q s = (a, t)" by (cases "perform put get remove q s")
  obtain bs u where b: "session (perform put get remove) qs t = (bs, u)" by (cases "session (perform put get remove) qs t")
  have "case q of Put n v \<Rightarrow> fine n v | _ \<Rightarrow> True" "requests_fine fine qs" using Cons.prems(2) by (simp_all add: requests_fine_def)
  then show ?case using Cons.IH [of t "after key (q, a) m" bs] Cons.prems(1,3) perform_step [of "length qs" s m q a t] a b
    by (auto simp: zip_Cons)
qed simp

end

section \<open>The files of the root\<close>

definition files_ok :: "ExfatFs \<Rightarrow> (ustring \<times> FileEntryLocation) list \<Rightarrow> nat list list \<Rightarrow> bool" where
  "files_ok s es fss \<longleftrightarrow> list_all2 (\<lambda>e fs. alloc s (snd e) fs) es fss"

definition file_view :: "host \<Rightarrow> ExfatFs \<Rightarrow> (ustring \<times> FileEntryLocation) list \<Rightarrow> nat list list \<Rightarrow> ustring \<Rightarrow> bytes option" where
  "file_view h s es fss = map_of (map2 (\<lambda>e fs. (hx_lower h (fst e), content s (snd e) fs)) es fss)"

text \<open>The root is well formed, its names differ in more than case, and its files have clusters of their own,
  all in use; a cluster takes the longest entry set.\<close>

definition store_ok :: "host \<Rightarrow> ExfatFs \<Rightarrow> nat list \<Rightarrow> nat list \<Rightarrow> nat list list \<Rightarrow> bool" where
  "store_ok h s bs cs fss \<longleftrightarrow> root_room s bs (root_directory s) cs \<and>
     distinct (map (\<lambda>e. hx_lower h (fst e)) (dir_live s cs)) \<and> files_ok s (dir_live s cs) fss \<and>
     distinct (concat fss) \<and> set (concat fss) \<inter> (set cs \<union> set bs) = {} \<and>
     (\<forall>c \<in> set (concat fss). is_cluster_allocated (disk_bitmap s bs) c) \<and> 608 \<le> cluster_size s"

lemma files_keep:
  assumes "files_ok s es fss" and "keeps s s' F C" and "set (concat fss) \<inter> (F \<union> C) = {}"
  shows "files_ok s' es fss" and "file_view h s' es fss = file_view h s es fss" and "\<forall>c \<in> set (concat fss). in_heap s c"
proof -
  have "files_ok s' es fss \<and> map2 (\<lambda>e fs. (hx_lower h (fst e), content s' (snd e) fs)) es fss =
      map2 (\<lambda>e fs. (hx_lower h (fst e), content s (snd e) fs)) es fss \<and> (\<forall>c \<in> set (concat fss). in_heap s c)"
    using assms(1,3) unfolding files_ok_def
  proof (induction rule: list_all2_induct)
    case (Cons e es fs fss)
    have "set (concat fss) \<inter> (F \<union> C) = {}" "set fs \<inter> F = {}" "set fs \<inter> C = {}" using Cons.prems by auto
    then show ?case using Cons.IH Cons.hyps alloc_keeps [OF Cons.hyps(1) assms(2)] by auto
  qed simp
  then show "files_ok s' es fss" "file_view h s' es fss = file_view h s es fss" "\<forall>c \<in> set (concat fss). in_heap s c"
    unfolding file_view_def by argo+
qed

text \<open>A step that leaves the root and its files alone, and frees nothing, keeps the store.\<close>

lemma store_mono:
  assumes ok: "store_ok h s bs cs fss" and k: "keeps s s' F C" and vol: "vol_ok s' bs"
    and apart: "(F \<union> C) \<inter> (set cs \<union> set (concat fss)) = {}"
    and al: "\<And>c. in_heap s c \<Longrightarrow> is_cluster_allocated (disk_bitmap s bs) c \<Longrightarrow> is_cluster_allocated (disk_bitmap s' bs) c"
  shows "store_ok h s' bs cs fss" and "dir_live s' cs = dir_live s cs"
    and "file_view h s' (dir_live s' cs) fss = file_view h s (dir_live s cs) fss"
proof -
  have st: "root_room s bs (root_directory s) cs" "distinct (map (\<lambda>e. hx_lower h (fst e)) (dir_live s cs))"
    "files_ok s (dir_live s cs) fss" "distinct (concat fss)" "set (concat fss) \<inter> (set cs \<union> set bs) = {}"
    "\<forall>c \<in> set (concat fss). is_cluster_allocated (disk_bitmap s bs) c" "608 \<le> cluster_size s" using ok by (simp_all add: store_ok_def)
  have d: "dir_chain s (root_directory s) cs" using st(1) by (simp add: root_room_def)
  have same: "cluster_at s' c = cluster_at s c" if "c \<in> set cs" for c
    using keepsD(2) [OF k dir_chain_heap [OF d that]] that apart by auto
  show live: "dir_live s' cs = dir_live s cs" by (rule dir_live_cong [OF same])
  have r: "root_directory s' = root_directory s" using keepsD(4) [OF k] by (simp add: root_directory_def)
  have "set cs \<inter> F = {}" using apart by auto
  then have "dir_chain s' (root_directory s') cs"
    using d is_chain_keeps [OF k] keepsD(3) [OF k] unfolding r by (simp add: dir_chain_def)
  moreover have "dir_wf s' cs" using st(1) dir_wf_cong [OF same] by (simp add: root_room_def)
  moreover have "\<forall>c \<in> set cs. is_cluster_allocated (disk_bitmap s' bs) c"
    using st(1) al dir_chain_heap [OF d] by (simp add: root_room_def)
  ultimately have rr: "root_room s' bs (root_directory s') cs"
    using st(1) vol r keepsD(3) [OF k] by (simp add: root_room_def)
  have fa: "set (concat fss) \<inter> (F \<union> C) = {}" using apart by blast
  note f = files_keep [OF st(3) k fa]
  show "file_view h s' (dir_live s' cs) fss = file_view h s (dir_live s cs) fss" using f(2) live by simp
  show "store_ok h s' bs cs fss" using rr st f(1,3) al live keepsD(3) [OF k] by (simp add: store_ok_def)
qed

lemma find_split:
  assumes "List.find P xs = Some x"
  shows "\<exists>A B. xs = A @ x # B \<and> P x"
  using assms
proof (induction xs)
  case (Cons y ys)
  show ?case
  proof (cases "P y")
    case True
    then show ?thesis using Cons.prems by (intro exI [of _ "[]"] exI [of _ ys]) simp
  next
    case False
    then obtain A B where "ys = A @ x # B" "P x" using Cons by auto
    then show ?thesis by (intro exI [of _ "y # A"] exI [of _ B]) simp
  qed
qed simp

lemma files_split:
  assumes "files_ok s (A @ e # B) fss"
  obtains fA fs fB where "fss = fA @ fs # fB" "files_ok s A fA" "alloc s (snd e) fs" "files_ok s B fB"
  using assms unfolding files_ok_def list_all2_append1 list_all2_Cons1 by blast

lemma files_split_append:
  assumes "files_ok s (A @ B) fss"
  obtains fA fB where "fss = fA @ fB" "files_ok s A fA" "files_ok s B fB"
  using assms unfolding files_ok_def list_all2_append1 by blast

lemma files_append: "files_ok s A fA \<Longrightarrow> files_ok s (A @ B) (fA @ fB) = files_ok s B fB"
  by (simp add: files_ok_def list_all2_append list_all2_lengthD)

lemma view_append: "files_ok s A fA \<Longrightarrow> file_view h t (A @ B) (fA @ fB) = file_view h t B fB ++ file_view h t A fA"
  by (simp add: file_view_def files_ok_def list_all2_lengthD map_of_append)

lemma view_Nil: "file_view h t [] fss = (\<lambda>k. None)"
  by (simp add: file_view_def)

lemma view_Cons: "file_view h t (e # B) (fs # fB) = (file_view h t B fB)(hx_lower h (fst e) \<mapsto> content t (snd e) fs)"
  by (simp add: file_view_def)

lemma view_dom: "files_ok s es fss \<Longrightarrow> dom (file_view h t es fss) = (\<lambda>e. hx_lower h (fst e)) ` set es"
  unfolding files_ok_def
proof (induction rule: list_all2_induct)
  case (Cons e es fs fss)
  then show ?case by (simp only: view_Cons dom_fun_upd) simp
qed (simp add: view_Nil)

lemma view_None: "files_ok s es fss \<Longrightarrow> file_view h t es fss k = None \<longleftrightarrow> k \<notin> (\<lambda>e. hx_lower h (fst e)) ` set es"
  using view_dom [of s es fss h t] by (auto simp: domIff)

lemma find_none_view:
  assumes "files_ok s es fss"
  shows "List.find (named (hx_lower h) (hx_lower h name)) es = None \<longleftrightarrow> file_view h t es fss (hx_lower h name) = None"
  using view_None [OF assms, of h t "hx_lower h name"] by (force simp: find_None_iff named_def)

text \<open>Adding and taking away one file in the middle.\<close>

lemma view_insert:
  assumes "files_ok s (A @ B) (fA @ fB)" and "files_ok s A fA" and "hx_lower h (fst e) \<notin> (\<lambda>e. hx_lower h (fst e)) ` set A"
  shows "file_view h t (A @ e # B) (fA @ fs # fB) = (file_view h t (A @ B) (fA @ fB))(hx_lower h (fst e) \<mapsto> content t (snd e) fs)"
proof -
  have n: "file_view h t A fA (hx_lower h (fst e)) = None" using view_None [OF assms(2)] assms(3) by blast
  show ?thesis unfolding view_append [OF assms(2)] view_Cons
    by (rule ext) (use n in \<open>auto simp: map_add_def split: option.splits\<close>)
qed

lemma view_remove:
  assumes "files_ok s A fA" and "files_ok s B fB" and "distinct (map (\<lambda>e. hx_lower h (fst e)) (A @ e # B))"
  shows "file_view h t (A @ B) (fA @ fB) = (file_view h t (A @ e # B) (fA @ fs # fB))(hx_lower h (fst e) := None)"
proof -
  have "file_view h t A fA (hx_lower h (fst e)) = None" "file_view h t B fB (hx_lower h (fst e)) = None"
    using view_None [OF assms(1), of h t] view_None [OF assms(2), of h t] assms(3) by (auto simp: image_iff)
  then show ?thesis unfolding view_append [OF assms(1)] view_Cons
    by (intro ext) (auto simp: map_add_def split: option.splits)
qed

section \<open>Reading and deleting\<close>

lemma store_facts:
  assumes "store_ok h s bs cs fss"
  shows "vol_ok s bs" "vol_ready s" "dir_chain s (root_directory s) cs" "dir_wf s cs" "distinct cs" "\<forall>c \<in> set cs. in_heap s c"
    "files_ok s (dir_live s cs) fss" "distinct (concat fss)" "set (concat fss) \<inter> set cs = {}" "set (concat fss) \<inter> set bs = {}"
    "set cs \<inter> set bs = {}" "\<forall>c \<in> set cs \<union> set (concat fss). is_cluster_allocated (disk_bitmap s bs) c"
    "\<forall>c \<in> set (concat fss). in_heap s c" "distinct (map (\<lambda>e. hx_lower h (fst e)) (dir_live s cs))"
  using assms files_keep(3) [of s "dir_live s cs" fss s "{}" "{}"]
  by (auto simp: store_ok_def root_room_def vol_ok_def dir_chain_def is_chain_def)

lemma store_recached:
  assumes "store_ok h s bs cs fss" and "recached s s'"
  shows "store_ok h s' bs cs fss" and "dir_live s' cs = dir_live s cs"
    and "file_view h s' (dir_live s' cs) fss = file_view h s (dir_live s cs) fss"
  using store_mono [OF assms(1) recached_views(8) [OF assms(2)]] vol_ok_cached(2,4) [OF store_facts(1) [OF assms(1)] assms(2)]
  by simp_all

text \<open>Setting or clearing the dirty mark.\<close>

lemma store_boot:
  assumes "store_ok h s bs cs fss" and "vol_ready s'" and "keeps s s' {0} {}" and "bitmap_cache s' = bitmap_cache s"
  shows "store_ok h s' bs cs fss" and "dir_live s' cs = dir_live s cs" and "free_list s' bs = free_list s bs"
    and "file_view h s' (dir_live s' cs) fss = file_view h s (dir_live s cs) fss"
proof -
  note f = store_facts [OF assms(1)]
  have "\<forall>c \<in> set bs. in_heap s c" using f(1) by (simp add: vol_ok_def bitmap_place_def is_chain_def)
  moreover have "\<not> in_heap s 0" by (simp add: in_heap_def)
  ultimately have z: "0 \<notin> set bs" "0 \<notin> set cs \<union> set (concat fss)" using f(6,13) by blast+
  note v = vol_ok_keeps [OF assms(3,2,4) f(1)]
  show "free_list s' bs = free_list s bs" using v(3) z by simp
  note m = store_mono [OF assms(1,3)]
  have "vol_ok s' bs" "disk_bitmap s' bs = disk_bitmap s bs" using v(1,2) z by simp_all
  then show "store_ok h s' bs cs fss" "dir_live s' cs = dir_live s cs"
    "file_view h s' (dir_live s' cs) fss = file_view h s (dir_live s cs) fss" using m z by simp_all
qed

lemma find_ok:
  assumes ok: "store_ok h s bs cs fss"
  obtains (absent) s' where "find_file_entry h name s = (Inr None, s')" "recached s s'"
      "file_view h s (dir_live s cs) fss (hx_lower h name) = None"
    | (present) s' A e B fA fs fB where "find_file_entry h name s = (Inr (Some (snd e)), s')" "recached s s'"
      "dir_live s cs = A @ e # B" "fss = fA @ fs # fB" "files_ok s A fA" "alloc s (snd e) fs" "files_ok s B fB"
      "hx_lower h (fst e) = hx_lower h name"
      "file_view h s (dir_live s cs) fss (hx_lower h name) = Some (content s (snd e) fs)"
proof -
  note f = store_facts [OF ok]
  obtain s' where s': "find_file_entry h name s =
      (Inr (map_option snd (List.find (named (hx_lower h) (hx_lower h name)) (dir_live s cs))), s')" "recached s s'"
    using find_entry_ok [OF f(2,3), of h name] by (auto simp: find_file_entry_def)
  show thesis
  proof (cases "List.find (named (hx_lower h) (hx_lower h name)) (dir_live s cs)")
    case None
    then show thesis using absent s' find_none_view [OF f(7)] by simp
  next
    case (Some e)
    obtain A B where AB: "dir_live s cs = A @ e # B" "hx_lower h (fst e) = hx_lower h name"
      using find_split [OF Some] by (auto simp: named_def)
    obtain fA fs fB where fss: "fss = fA @ fs # fB" "files_ok s A fA" "alloc s (snd e) fs" "files_ok s B fB"
      using files_split f(7) AB(1) by metis
    have "file_view h s A fA (hx_lower h name) = None"
      using view_None [OF fss(2), of h s "hx_lower h name"] f(14) AB by (auto simp: image_iff)
    then have "file_view h s (dir_live s cs) fss (hx_lower h name) = Some (content s (snd e) fs)"
      using AB fss(1) by (simp add: view_append [OF fss(2)] view_Cons map_add_def)
    moreover have "find_file_entry h name s = (Inr (Some (snd e)), s')" using s'(1) Some by simp
    ultimately show thesis using present s'(2) AB fss by blast
  qed
qed

lemma read_file_ok:
  assumes ok: "store_ok h s bs cs fss"
  shows "\<exists>s'. read_file h name s =
      ((case file_view h s (dir_live s cs) fss (hx_lower h name) of
          None \<Rightarrow> Inl (fs_text ''File '{}' not found'' name) | Some d \<Rightarrow> Inr d), s') \<and> recached s s'"
  using ok
proof (cases rule: find_ok [where name = name])
  case (absent s')
  then show ?thesis by (simp add: read_file_def sx_simps)
next
  case (present s1 A e B fA fs fB)
  have "vol_ready s1" using recachedD(1) [OF present(2)] store_facts(2) [OF ok] by blast
  moreover have "alloc s1 (snd e) fs" using alloc_keeps(1) [OF present(6) recached_views(8) [OF present(2)]] by simp
  ultimately obtain s2 where "read_file_from_location (snd e) s1 = (Inr (content s1 (snd e) fs), s2)" "recached s1 s2"
    using read_location_ok by blast
  moreover have "content s1 (snd e) fs = content s (snd e) fs" using recached_views(11) [OF present(2)] by (simp add: content_def)
  ultimately show ?thesis using present recached_trans by (auto simp: read_file_def sx_simps)
qed

lemma delete_body_ok:
  assumes ok: "store_ok h s bs cs fss" and e: "dir_live s cs = A @ e # B" and fss: "fss = fA @ fs # fB"
    and parts: "files_ok s A fA" "alloc s (snd e) fs" "files_ok s B fB"
  shows "\<exists>s'. sx_bind (free_allocation (snd e)) (\<lambda>_. delete_file_entry (snd e)) s = (Inr (), s') \<and> store_ok h s' bs cs (fA @ fB) \<and>
    vol_ready s' \<and> dir_live s' cs = A @ B \<and> cluster_size s' = cluster_size s \<and>
    file_view h s' (A @ B) (fA @ fB) = (file_view h s (dir_live s cs) fss)(hx_lower h (fst e) := None) \<and>
    length (free_list s' bs) = length (free_list s bs) + length fs"
proof -
  note f = store_facts [OF ok]
  obtain s1 where s1: "clusters_for_allocation (snd e) s = (Inr fs, s1)" "recached s s1" "vol_ready s1" using clusters_ok [OF f(2) parts(2)] by blast
  have ok1: "vol_ok s1 bs" "disk_bitmap s1 bs = disk_bitmap s bs" using vol_ok_cached [OF f(1) s1(2)] by simp_all
  note v = recached_views [OF s1(2)]
  have fsb: "set fs \<inter> set bs = {}" "\<forall>c \<in> set fs. in_heap s1 c" "set fs \<inter> set cs = {}" "set fs \<inter> set (concat (fA @ fB)) = {}"
    using f(8,9,10,13) fss v(3) by auto
  obtain s2 where s2: "free_clusters fs (\<not> no_fat_chain (snd e)) s1 = (Inr (), s2)" "vol_ok s2 bs"
    "keeps s1 s2 (if \<not> no_fat_chain (snd e) then set fs else {}) (set bs)"
    "\<forall>c. in_heap s1 c \<longrightarrow> is_cluster_allocated (disk_bitmap s2 bs) c = (c \<notin> set fs \<and> is_cluster_allocated (disk_bitmap s1 bs) c)"
    using free_ok [OF ok1(1) fsb(2,1)] by blast
  have k2: "keeps s s2 (set fs) (set bs)" using keeps_mono [OF keeps_trans [OF v(8) s2(3)], of "set fs" "set bs"] by auto
  have r2: "vol_ready s2" using s2(2) by (simp add: vol_ok_def)
  have same: "cluster_at s2 c = cluster_at s c" if "c \<in> set cs" for c using keepsD(2) [OF k2, of c] f(6,11) that by auto
  have h2: "\<forall>c \<in> set cs. in_heap s2 c" using f(6) keeps_in_heap [OF k2] by simp
  have "dir_live s2 cs = A @ e # B" "dir_wf s2 cs" using dir_live_cong [OF same] dir_wf_cong [OF same] e f(4) by simp_all
  then obtain s3 where s3: "delete_file_entry (snd e) s2 = (Inr (), s3)" "vol_ready s3" "keeps s2 s3 {} {directory_cluster (snd e)}"
    "bitmap_cache s3 = bitmap_cache s2" "directory_cluster (snd e) \<in> set cs" "dir_wf s3 cs" "dir_live s3 cs = A @ B"
    using delete_entry_ok [OF r2 f(5) h2] by blast
  have ok3: "vol_ok s3 bs" "disk_bitmap s3 bs = disk_bitmap s2 bs"
    using vol_ok_keeps [OF s3(3,2,4) s2(2)] s3(5) f(11) by auto
  let ?C = "insert (directory_cluster (snd e)) (set bs)"
  have k3: "keeps s s3 (set fs) ?C" using keeps_trans [OF k2 s3(3)] by simp
  have root: "root_directory s3 = root_directory s" using keepsD(4) [OF k3] by (simp add: root_directory_def)
  have al: "\<forall>c. in_heap s c \<longrightarrow> is_cluster_allocated (disk_bitmap s3 bs) c = (c \<notin> set fs \<and> is_cluster_allocated (disk_bitmap s bs) c)"
    using s2(4) ok3(2) ok1(2) v(3) by simp
  have "dir_chain s3 (root_directory s3) cs"
    using f(3) is_chain_keeps [OF k3] fsb(3) keepsD(3) [OF k3] unfolding root by (auto simp: dir_chain_def)
  moreover have "\<forall>c \<in> set cs. is_cluster_allocated (disk_bitmap s3 bs) c" using al f(6,12) fsb(3) by auto
  ultimately have rr: "root_room s3 bs (root_directory s3) cs"
    using ok f(11) ok3(1) s3(6) root keepsD(3) [OF k3] by (simp add: store_ok_def root_room_def)
  have AB: "files_ok s (A @ B) (fA @ fB)" using files_append [OF parts(1)] parts(3) by simp
  have apart: "set (concat (fA @ fB)) \<inter> (set fs \<union> ?C) = {}" using fsb(4) f(9,10) fss s3(5) by auto
  note k = files_keep [OF AB k3 apart]
  have "\<forall>c \<in> set (concat (fA @ fB)). is_cluster_allocated (disk_bitmap s3 bs) c" using al k(3) f(12) fsb(4) fss by auto
  then have "store_ok h s3 bs cs (fA @ fB)"
    using rr k(1) s3(7) f(8,9,10,14) fss e ok keepsD(3) [OF k3] by (auto simp: store_ok_def)
  moreover have "file_view h s3 (A @ B) (fA @ fB) = (file_view h s (dir_live s cs) fss)(hx_lower h (fst e) := None)"
    using k(2) view_remove [OF parts(1,3), of h e s fs] f(14) e fss by simp
  moreover have "sx_bind (free_allocation (snd e)) (\<lambda>_. delete_file_entry (snd e)) s = (Inr (), s3)"
    using s1(1) s2(1) s3(1) by (simp add: free_allocation_def sx_simps)
  moreover have "length (free_list s3 bs) = length (free_list s bs) + length fs"
  proof -
    have in3: "in_heap s3 c = in_heap s c" for c using keeps_in_heap [OF k3] .
    have fsin: "\<forall>c \<in> set fs. in_heap s c \<and> is_cluster_allocated (disk_bitmap s bs) c" using f(12,13) fss by auto
    have "set (free_list s3 bs) = set (free_list s bs) \<union> set fs"
      using al fsin in3 by (auto simp: free_list_facts(2))
    moreover have "set (free_list s bs) \<inter> set fs = {}" using fsin by (auto simp: free_list_facts(2))
    moreover have "distinct fs" using f(8) fss by simp
    ultimately show ?thesis
      using distinct_card [OF free_list_facts(1), of s3 bs] distinct_card [OF free_list_facts(1), of s bs] distinct_card [of fs]
      by (simp add: card_Un_disjoint)
  qed
  ultimately show ?thesis using s3(2,7) keepsD(3) [OF k3] by blast
qed

lemma content_length:
  assumes "vol_ready s" and "alloc s loc fs"
  shows "length (content s loc fs) = data_length loc" and "length fs = div_ceil (data_length loc) (cluster_size s)"
proof -
  have g: "geometry_ok s" "0 < cluster_size s" using assms(1) by (simp_all add: vol_ready_def geometry_ok_def)
  show l: "length fs = div_ceil (data_length loc) (cluster_size s)"
    using assms(2) g(2) by (auto simp: alloc_def div_ceil_def split: if_splits)
  have "\<forall>c \<in> set fs. in_heap s c" using alloc_keeps(3) [OF assms(2) keeps_refl [of s "{}" "{}"]] by simp
  then have "length (chain_data s fs) = length fs * cluster_size s" by (rule length_chain_data [OF g(1)])
  then show "length (content s loc fs) = data_length loc"
    using div_ceil_enough [OF g(2), of "data_length loc"] l by (simp add: content_def)
qed

lemma store_transaction:
  assumes ok: "store_ok h s bs cs fss"
  obtains s1 where "store_ok h s1 bs cs fss" "dir_live s1 cs = dir_live s cs" "free_list s1 bs = free_list s bs"
    "file_view h s1 (dir_live s1 cs) fss = file_view h s (dir_live s cs) fss" "cluster_size s1 = cluster_size s" "keeps s s1 {0} {}"
    and "\<And>(body :: unit fx) e s2. body s1 = (Inl e, s2) \<Longrightarrow> transaction body s = (Inl e, s2)"
      "\<And>(body :: unit fx) v s2 cs' fss'. body s1 = (Inr v, s2) \<Longrightarrow> store_ok h s2 bs cs' fss' \<Longrightarrow>
        \<exists>s3. transaction body s = (Inr v, s3) \<and> store_ok h s3 bs cs' fss' \<and> cluster_size s3 = cluster_size s2 \<and> free_list s3 bs = free_list s2 bs \<and>
          file_view h s3 (dir_live s3 cs') fss' = file_view h s2 (dir_live s2 cs') fss'"
proof -
  obtain s1 where s1: "vol_ready s1" "keeps s s1 {0} {}" "bitmap_cache s1 = bitmap_cache s" and "dirty s1"
    and s1': "\<And>(body :: unit fx) e s2. body s1 = (Inl e, s2) \<Longrightarrow> transaction body s = (Inl e, s2)"
    "\<And>(body :: unit fx) v s2. body s1 = (Inr v, s2) \<Longrightarrow> vol_ready s2 \<Longrightarrow>
      \<exists>s3. transaction body s = (Inr v, s3) \<and> vol_ready s3 \<and> keeps s2 s3 {0} {} \<and> bitmap_cache s3 = bitmap_cache s2 \<and>
        (dirty s2 \<longrightarrow> dirty s3 = dirty s)"
    by (rule transaction_ok [OF store_facts(2) [OF ok], where 'a = unit]) (rule that)
  note b1 = store_boot [OF ok s1(1,2,3)]
  show thesis
  proof (rule that [OF b1(1,2,3,4) keepsD(3) [OF s1(2)] s1(2) s1'(1)])
    fix body :: "unit fx" and v s2 cs' fss'
    assume r: "body s1 = (Inr v, s2)" and st: "store_ok h s2 bs cs' fss'"
    obtain s3 where s3: "transaction body s = (Inr v, s3)" "vol_ready s3" "keeps s2 s3 {0} {}" "bitmap_cache s3 = bitmap_cache s2"
      using s1'(2) [of body v s2] r store_facts(2) [OF st] by blast
    show "\<exists>s3. transaction body s = (Inr v, s3) \<and> store_ok h s3 bs cs' fss' \<and> cluster_size s3 = cluster_size s2 \<and> free_list s3 bs = free_list s2 bs \<and>
        file_view h s3 (dir_live s3 cs') fss' = file_view h s2 (dir_live s2 cs') fss'"
      using s3(1) store_boot [OF st s3(2,3,4)] keepsD(3) [OF s3(3)] by blast
  qed
qed

lemma delete_file_ok:
  assumes ok: "store_ok h s bs cs fss"
  shows "\<exists>r s' fss'. delete_file h name s = (r, s') \<and> store_ok h s' bs cs fss' \<and> cluster_size s' = cluster_size s \<and>
    (case file_view h s (dir_live s cs) fss (hx_lower h name) of
       None \<Rightarrow> r = Inl (fs_text ''File '{}' not found'' name) \<and> file_view h s' (dir_live s' cs) fss' = file_view h s (dir_live s cs) fss
     | Some old \<Rightarrow> r = Inr () \<and> length (free_list s' bs) = length (free_list s bs) + div_ceil (length old) (cluster_size s) \<and>
         file_view h s' (dir_live s' cs) fss' = (file_view h s (dir_live s cs) fss)(hx_lower h name := None))"
proof -
  obtain s1 where s1: "store_ok h s1 bs cs fss" "dir_live s1 cs = dir_live s cs" "free_list s1 bs = free_list s bs"
    "file_view h s1 (dir_live s1 cs) fss = file_view h s (dir_live s cs) fss" "cluster_size s1 = cluster_size s" "keeps s s1 {0} {}"
    and fails: "\<And>(body :: unit fx) e s2. body s1 = (Inl e, s2) \<Longrightarrow> transaction body s = (Inl e, s2)"
    and works: "\<And>(body :: unit fx) v s2 cs' fss'. body s1 = (Inr v, s2) \<Longrightarrow> store_ok h s2 bs cs' fss' \<Longrightarrow>
        \<exists>s3. transaction body s = (Inr v, s3) \<and> store_ok h s3 bs cs' fss' \<and> cluster_size s3 = cluster_size s2 \<and> free_list s3 bs = free_list s2 bs \<and>
          file_view h s3 (dir_live s3 cs') fss' = file_view h s2 (dir_live s2 cs') fss'"
    by (rule store_transaction [OF ok]) (rule that)
  let ?body = "sx_bind (find_file_entry h name) (\<lambda>found.
        sx_bind (sx_ok_or (fs_text ''File '{}' not found'' name) found) (\<lambda>loc.
        sx_bind (free_allocation loc) (\<lambda>_. delete_file_entry loc)))"
  from s1(1) show ?thesis
  proof (cases rule: find_ok [where name = name])
    case (absent s2)
    then have "?body s1 = (Inl (fs_text ''File '{}' not found'' name), s2)" by (simp add: sx_simps)
    then have "delete_file h name s = (Inl (fs_text ''File '{}' not found'' name), s2)"
      unfolding delete_file_def by (rule fails)
    moreover note store_recached [OF s1(1) absent(2)]
    ultimately show ?thesis using absent(3) s1 recached_views(4) [OF absent(2)] by (auto intro!: exI [of _ fss])
  next
    case (present s2 A e B fA fs fB)
    note r2 = store_recached [OF s1(1) present(2)]
    have parts: "files_ok s2 A fA" "alloc s2 (snd e) fs" "files_ok s2 B fB"
      using alloc_keeps(1) [OF present(6) recached_views(8) [OF present(2)]]
        files_keep(1) [OF present(5) recached_views(8) [OF present(2)]] files_keep(1) [OF present(7) recached_views(8) [OF present(2)]]
      by simp_all
    obtain s3 where s3: "sx_bind (free_allocation (snd e)) (\<lambda>_. delete_file_entry (snd e)) s2 = (Inr (), s3)"
      "store_ok h s3 bs cs (fA @ fB)" "dir_live s3 cs = A @ B" "cluster_size s3 = cluster_size s2"
      "length (free_list s3 bs) = length (free_list s2 bs) + length fs"
      "file_view h s3 (A @ B) (fA @ fB) = (file_view h s2 (dir_live s2 cs) fss)(hx_lower h (fst e) := None)"
      using delete_body_ok [OF r2(1) _ present(4) parts] r2(2) present(3) by auto
    have "?body s1 = (Inr (), s3)" using present(1) s3(1) by (simp add: sx_simps)
    from works [of ?body, OF this s3(2)] obtain s4 where s4: "delete_file h name s = (Inr (), s4)" "store_ok h s4 bs cs (fA @ fB)"
      "cluster_size s4 = cluster_size s3" "free_list s4 bs = free_list s3 bs"
      "file_view h s4 (dir_live s4 cs) (fA @ fB) = file_view h s3 (dir_live s3 cs) (fA @ fB)"
      unfolding delete_file_def by blast
    have "root_room s1 bs (root_directory s1) cs" using s1(1) by (simp add: store_ok_def)
    then have fl: "free_list s2 bs = free_list s bs" using root_room_recached(2) [OF _ present(2)] s1(3) by simp
    have "length fs = div_ceil (length (content s1 (snd e) fs)) (cluster_size s)"
      using content_length [OF store_facts(2) [OF s1(1)] present(6)] s1(5) by simp
    then show ?thesis using s4 s3(3-6) fl r2(3) s1(4,5) present(8,9) recached_views(4) [OF present(2)]
      by (intro exI [of _ "Inr ()"] exI [of _ s4] exI [of _ "fA @ fB"]) simp
  qed
qed

section \<open>Writing\<close>

lemma allocate_data_full:
  assumes ok: "vol_ok s bs" and full: "length (free_list s bs) < div_ceil (length data) (cluster_size s)"
  shows "\<exists>e s'. allocate_data data s = (Inl e, s') \<and> e \<noteq> Panicked \<and> vol_ok s' bs \<and> keeps s s' {} {} \<and>
    disk_bitmap s' bs = disk_bitmap s bs"
proof -
  let ?n = "div_ceil (length data) (cluster_size s)"
  have cs: "0 < cluster_size s" using ok by (simp add: vol_ok_def vol_ready_def geometry_ok_def)
  have ne: "data \<noteq> []" using full cs by (auto simp: div_ceil_def)
  have n: "0 < ?n" using full by simp
  obtain e s' where "find_free_clusters ?n s = (Inl e, s')" "e \<noteq> Panicked" "vol_ok s' bs" "keeps s s' {} {}" "disk_bitmap s' bs = disk_bitmap s bs"
    using find_free_ok [OF ok n] full by auto
  then show ?thesis using ne n by (simp add: allocate_data_def allocate_clusters_def sx_simps Let_def div_ceil_def)
qed

text \<open>Two clusters of a free list, or one of it and one in use, differ.\<close>

lemma free_not_used: "x \<in> set (free_list s bs) \<Longrightarrow> \<not> is_cluster_allocated (disk_bitmap s bs) x"
  using free_list_facts(2) by blast

text \<open>An entry and its clusters added to a store.\<close>

lemma store_insert:
  assumes st: "store_ok h s1 bs cs fss"
    and live: "dir_live s1 cs = A @ B" "dir_live s2 cs' = A @ e # B"
    and room: "root_room s2 bs (root_directory s1) cs'" and grown: "grown s1 bs cs cs'"
    and k: "keeps s1 s2 (set cs') (set cs' \<union> set bs)"
    and al: "\<forall>c. in_heap s1 c \<longrightarrow> is_cluster_allocated (disk_bitmap s2 bs) c = (c \<in> set cs' \<or> is_cluster_allocated (disk_bitmap s1 bs) c)"
    and new: "alloc s1 (snd e) fs" "content s1 (snd e) fs = data" "distinct fs"
    and used: "\<forall>c \<in> set fs. is_cluster_allocated (disk_bitmap s1 bs) c"
    and apart: "set fs \<inter> set bs = {}" "set fs \<inter> (set cs \<union> set (concat fss)) = {}"
    and none: "file_view h s1 (dir_live s1 cs) fss (hx_lower h (fst e)) = None"
  shows "\<exists>fss'. store_ok h s2 bs cs' fss' \<and>
    file_view h s2 (dir_live s2 cs') fss' = (file_view h s1 (dir_live s1 cs) fss)(hx_lower h (fst e) \<mapsto> data)"
proof -
  note f1 = store_facts [OF st]
  let ?k = "hx_lower h (fst e)"
  obtain fA fB where fss: "fss = fA @ fB" "files_ok s1 A fA" "files_ok s1 B fB"
    by (rule files_split_append [OF f1(7) [unfolded live(1)]])
  have news: "\<forall>x \<in> set cs'. x \<in> set cs \<or> x \<in> set (free_list s1 bs)" using grown by (auto simp: grown_def)
  have used1: "\<forall>x \<in> set fs \<union> set (concat fss). is_cluster_allocated (disk_bitmap s1 bs) x" using used f1(12) by blast
  have csapart: "set cs' \<inter> (set fs \<union> set (concat fss)) = {}" using news used1 free_not_used apart f1(9) by blast
  have bsapart: "set bs \<inter> (set fs \<union> set (concat fss)) = {}" using apart f1(10) by blast
  have "set fs \<inter> set cs' = {}" "set fs \<inter> (set cs' \<union> set bs) = {}" using csapart bsapart by blast+
  note al2 = alloc_keeps(1,2,3) [OF new(1) k] this
  have cont: "content s2 (snd e) fs = data" using al2 new(2) by simp
  have fss_apart: "set (concat fss) \<inter> (set cs' \<union> (set cs' \<union> set bs)) = {}" using csapart bsapart by blast
  have filesAB: "files_ok s1 (A @ B) (fA @ fB)" using f1(7) live(1) fss(1) by simp
  note fk = files_keep [OF filesAB k fss_apart [unfolded fss(1)]]
  have fA2: "files_ok s2 A fA" and fB2: "files_ok s2 B fB"
    using files_keep(1) [OF fss(2) k] files_keep(1) [OF fss(3) k] fss_apart fss(1) by auto
  have all2: "files_ok s2 (A @ e # B) (fA @ fs # fB)"
    using files_append [OF fA2, of "e # B" "fs # fB"] fB2 al2 by (simp add: files_ok_def)
  have kn: "?k \<notin> (\<lambda>e. hx_lower h (fst e)) ` set (A @ B)" using view_None [OF f1(7), of h s1 ?k] none live(1) by simp
  have "?k \<notin> (\<lambda>e. hx_lower h (fst e)) ` set A" using kn by auto
  then have "file_view h s2 (A @ e # B) (fA @ fs # fB) = (file_view h s2 (A @ B) (fA @ fB))(?k \<mapsto> data)"
    using view_insert [OF filesAB fss(2), of h e s2 fs] cont by simp
  then have view2: "file_view h s2 (dir_live s2 cs') (fA @ fs # fB) = (file_view h s1 (dir_live s1 cs) fss)(?k \<mapsto> data)"
    using fk(2) live fss(1) by simp
  have "\<forall>x \<in> set fs \<union> set (concat fss). in_heap s1 x" using f1(13) al2 by blast
  then have "\<forall>x \<in> set fs \<union> set (concat fss). is_cluster_allocated (disk_bitmap s2 bs) x" using al used1 by blast
  moreover have "set (concat (fA @ fs # fB)) = set fs \<union> set (concat fss)" using fss(1) by auto
  ultimately have used2: "\<forall>x \<in> set (concat (fA @ fs # fB)). is_cluster_allocated (disk_bitmap s2 bs) x" by simp
  have dist: "distinct (concat (fA @ fs # fB))" "set (concat (fA @ fs # fB)) \<inter> (set cs' \<union> set bs) = {}"
    using f1(8) new(3) apart csapart bsapart fss(1) by auto
  have "distinct (map (\<lambda>e. hx_lower h (fst e)) (dir_live s2 cs'))" using f1(14) kn live by auto
  moreover have "root_directory s2 = root_directory s1" using keepsD(4) [OF k] by (simp add: root_directory_def)
  ultimately have "store_ok h s2 bs cs' (fA @ fs # fB)"
    using room live(2) all2 dist used2 st keepsD(3) [OF k] by (simp add: store_ok_def)
  then show ?thesis using view2 by blast
qed

text \<open>The entry for data already in clusters that were free, whatever those clusters hold now.\<close>

lemma insert_file_ok:
  assumes ok: "store_ok h s bs cs fss" and name: "storable_name name" and len: "n < 2 ^ 64"
    and new: "file_view h s (dir_live s cs) fss (hx_lower h name) = None"
    and room: "length cs < div_ceil MAX_DIRECTORY_SIZE (cluster_size s)"
    and s1: "vol_ok s1 bs" "fs = take (length fs) (free_list s bs)" "keeps s s1 (set fs) (set fs \<union> set bs)" "first < 2 ^ 32"
      "length fs = (if n = 0 then 0 else div_ceil n (cluster_size s))" "n = 0 \<longrightarrow> first = 0" "n \<noteq> 0 \<longrightarrow> is_chain s1 first fs"
      "\<forall>c. in_heap s c \<longrightarrow> is_cluster_allocated (disk_bitmap s1 bs) c = (c \<in> set fs \<or> is_cluster_allocated (disk_bitmap s bs) c)"
  shows "\<exists>r s' cs' fss'. create_entry_in_directory h (root_directory s) name first n False s1 = (r, s') \<and> store_ok h s' bs cs' fss' \<and>
    length cs' \<le> length cs + 1 \<and> r \<noteq> Inl Panicked \<and> cluster_size s' = cluster_size s \<and>
    (case r of
       Inl _ \<Rightarrow> length (free_list s bs) \<le> div_ceil n (cluster_size s) \<and>
         file_view h s' (dir_live s' cs') fss' = file_view h s (dir_live s cs) fss
     | Inr _ \<Rightarrow> file_view h s' (dir_live s' cs') fss' =
         (file_view h s (dir_live s cs) fss)(hx_lower h name \<mapsto> take n (chain_data s1 fs)))"
proof -
  note f = store_facts [OF ok]
  let ?k = "hx_lower h name"
  have fsfree: "set fs \<subseteq> set (free_list s bs)" using s1(2) set_take_subset by metis
  then have fnu: "\<forall>c \<in> set fs. in_heap s c \<and> \<not> is_cluster_allocated (disk_bitmap s bs) c" using free_list_facts(2) by blast
  have dfs: "distinct fs" using s1(2) free_list_facts(1) distinct_take by metis
  have fapart: "set fs \<inter> (set cs \<union> set (concat fss)) = {}" using fnu f(12) by blast
  have fbs: "set fs \<inter> set bs = {}" using fnu f(1) by (auto simp: vol_ok_def)
  have "(set fs \<union> (set fs \<union> set bs)) \<inter> (set cs \<union> set (concat fss)) = {}" using fapart f(10,11) by blast
  then have st1: "store_ok h s1 bs cs fss" "dir_live s1 cs = dir_live s cs"
    "file_view h s1 (dir_live s1 cs) fss = file_view h s (dir_live s cs) fss"
    using store_mono [OF ok s1(3,1)] s1(8) by blast+
  note f1 = store_facts [OF st1(1)]
  have root: "root_directory s1 = root_directory s" using keepsD(4) [OF s1(3)] by (simp add: root_directory_def)
  have cz: "cluster_size s1 = cluster_size s" using keepsD(3) [OF s1(3)] .
  have rr: "root_room s1 bs (root_directory s) cs" using st1(1) root by (simp add: store_ok_def)
  have big: "32 * (2 + name_entries name) \<le> cluster_size s1"
    using name_entries_bound [OF name] ok cz by (simp add: store_ok_def)
  let ?create = "create_entry_in_directory h (root_directory s) name first n False"
  have "slot_refused s1 bs (root_directory s) cs (?create s1) \<or>
    (\<exists>s' cs' A B c off. ?create s1 = (Inr (root_directory s), s') \<and> root_room s' bs (root_directory s) cs' \<and>
    dir_live s1 cs = A @ B \<and> dir_live s' cs' = A @ (name, created_location c off name first n False) # B \<and> grown s1 bs cs cs' \<and>
    keeps s1 s' (set cs') (set cs' \<union> set bs) \<and>
    (\<forall>c. in_heap s1 c \<longrightarrow> is_cluster_allocated (disk_bitmap s' bs) c = (c \<in> set cs' \<or> is_cluster_allocated (disk_bitmap s1 bs) c)))"
    using create_entry_ok [OF rr name s1(4) len big, of h False] room cz by simp
  then show ?thesis
  proof (elim disjE)
    assume "slot_refused s1 bs (root_directory s) cs (?create s1)"
    then obtain e s2 where s2: "?create s1 = (Inl e, s2)" "e \<noteq> Panicked" "root_room s2 bs (root_directory s) cs" "keeps s1 s2 {} {}"
      "disk_bitmap s2 bs = disk_bitmap s1 bs" "free_list s1 bs = []" by (auto simp: slot_refused_def)
    have "vol_ok s2 bs" using s2(3) by (simp add: root_room_def)
    note m = store_mono [OF st1(1) s2(4) this]
    have "set (free_list s bs) \<subseteq> set fs"
    proof
      fix x
      assume x: "x \<in> set (free_list s bs)"
      have "x \<notin> set (free_list s1 bs)" using s2(6) by simp
      then have "is_cluster_allocated (disk_bitmap s1 bs) x"
        using x free_list_facts(2) keeps_in_heap [OF s1(3)] by blast
      then show "x \<in> set fs" using s1(8) x free_list_facts(2) by blast
    qed
    then have "length (free_list s bs) \<le> length fs"
      using card_mono [of "set fs" "set (free_list s bs)"] distinct_card [OF free_list_facts(1), of s bs] distinct_card [OF dfs] by simp
    then have "length (free_list s bs) \<le> div_ceil n (cluster_size s)" using s1(5) by (simp split: if_splits)
    then show ?thesis using m s2(1,2,5) st1 cz keepsD(3) [OF s2(4)]
      by (intro exI [of _ "Inl e"] exI [of _ s2] exI [of _ cs] exI [of _ fss]) simp
  next
    assume "\<exists>s' cs' A B c off. ?create s1 = (Inr (root_directory s), s') \<and> root_room s' bs (root_directory s) cs' \<and>
      dir_live s1 cs = A @ B \<and> dir_live s' cs' = A @ (name, created_location c off name first n False) # B \<and> grown s1 bs cs cs' \<and>
      keeps s1 s' (set cs') (set cs' \<union> set bs) \<and>
      (\<forall>c. in_heap s1 c \<longrightarrow> is_cluster_allocated (disk_bitmap s' bs) c = (c \<in> set cs' \<or> is_cluster_allocated (disk_bitmap s1 bs) c))"
    then obtain s2 cs' A B c off where s2: "?create s1 = (Inr (root_directory s), s2)" "root_room s2 bs (root_directory s) cs'"
      "dir_live s1 cs = A @ B" "dir_live s2 cs' = A @ (name, created_location c off name first n False) # B"
      "grown s1 bs cs cs'" "keeps s1 s2 (set cs') (set cs' \<union> set bs)"
      "\<forall>c. in_heap s1 c \<longrightarrow> is_cluster_allocated (disk_bitmap s2 bs) c = (c \<in> set cs' \<or> is_cluster_allocated (disk_bitmap s1 bs) c)"
      by (elim exE conjE) (rule that)
    let ?e = "(name, created_location c off name first n False)"
    have al1: "alloc s1 (snd ?e) fs"
      using s1(5,6,7) cz by (cases "n = 0") (simp_all add: alloc_def created_location_def is_chain_def)
    have used: "\<forall>c \<in> set fs. is_cluster_allocated (disk_bitmap s1 bs) c" using s1(8) fnu by blast
    have none: "file_view h s1 (dir_live s1 cs) fss (hx_lower h (fst ?e)) = None" using new st1(3) by simp
    have cont: "content s1 (snd ?e) fs = take n (chain_data s1 fs)" by (simp add: content_def created_location_def)
    obtain fss' where "store_ok h s2 bs cs' fss'"
      "file_view h s2 (dir_live s2 cs') fss' = (file_view h s1 (dir_live s1 cs) fss)(hx_lower h (fst ?e) \<mapsto> take n (chain_data s1 fs))"
      using store_insert [OF st1(1) s2(3,4) s2(2) [folded root] s2(5,6,7) al1 cont dfs used fbs fapart none] by blast
    moreover have "length cs' \<le> length cs + 1" using s2(5) by (auto simp: grown_def)
    ultimately show ?thesis using s2(1) st1(3) cz keepsD(3) [OF s2(6)] unfolding fst_conv
      by (intro exI [of _ "Inr (root_directory s)"] exI [of _ s2] exI [of _ cs'] exI [of _ fss']) simp
  qed
qed

lemma write_entry_ok:
  assumes ok: "store_ok h s bs cs fss" and name: "storable_name name" and len: "length data < 2 ^ 64"
    and new: "file_view h s (dir_live s cs) fss (hx_lower h name) = None"
    and room: "length cs < div_ceil MAX_DIRECTORY_SIZE (cluster_size s)"
  shows "\<exists>r s' cs' fss'. write_file_data_and_entry h (root_directory s) name data s = (r, s') \<and> store_ok h s' bs cs' fss' \<and>
    length cs' \<le> length cs + 1 \<and> r \<noteq> Inl Panicked \<and> cluster_size s' = cluster_size s \<and>
    (case r of
       Inl _ \<Rightarrow> length (free_list s bs) \<le> div_ceil (length data) (cluster_size s) \<and>
         file_view h s' (dir_live s' cs') fss' = file_view h s (dir_live s cs) fss
     | Inr _ \<Rightarrow> file_view h s' (dir_live s' cs') fss' = (file_view h s (dir_live s cs) fss)(hx_lower h name \<mapsto> data))"
proof (cases "div_ceil (length data) (cluster_size s) \<le> length (free_list s bs)")
  case False
  note f = store_facts [OF ok]
  obtain e s1 where s1: "allocate_data data s = (Inl e, s1)" "e \<noteq> Panicked" "vol_ok s1 bs" "keeps s s1 {} {}"
    "disk_bitmap s1 bs = disk_bitmap s bs" using allocate_data_full [OF f(1)] False by (meson not_le)
  note m = store_mono [OF ok s1(4,3)]
  have "write_file_data_and_entry h (root_directory s) name data s = (Inl e, s1)"
    using s1(1) by (simp add: write_file_data_and_entry_def sx_simps)
  then show ?thesis using s1(2,5) m False keepsD(3) [OF s1(4)] by (intro exI [of _ "Inl e"] exI [of _ s1] exI [of _ cs] exI [of _ fss]) simp
next
  case True
  obtain first s1 fs where s1: "allocate_data data s = (Inr first, s1)" "vol_ok s1 bs" "fs = take (length fs) (free_list s bs)"
    "keeps s s1 (set fs) (set fs \<union> set bs)" "first < 2 ^ 32"
    "length fs = (if data = [] then 0 else div_ceil (length data) (cluster_size s))"
    "data = [] \<longrightarrow> first = 0" "data \<noteq> [] \<longrightarrow> is_chain s1 first fs" "take (length data) (chain_data s1 fs) = data"
    "\<forall>c. in_heap s c \<longrightarrow> is_cluster_allocated (disk_bitmap s1 bs) c = (c \<in> set fs \<or> is_cluster_allocated (disk_bitmap s bs) c)"
    using allocate_data_ok [OF store_facts(1) [OF ok] True] by blast
  obtain r s2 cs' fss' where s2: "create_entry_in_directory h (root_directory s) name first (length data) False s1 = (r, s2)"
    "store_ok h s2 bs cs' fss'" "length cs' \<le> length cs + 1" "r \<noteq> Inl Panicked" "cluster_size s2 = cluster_size s"
    "case r of
       Inl _ \<Rightarrow> length (free_list s bs) \<le> div_ceil (length data) (cluster_size s) \<and>
         file_view h s2 (dir_live s2 cs') fss' = file_view h s (dir_live s cs) fss
     | Inr _ \<Rightarrow> file_view h s2 (dir_live s2 cs') fss' = (file_view h s (dir_live s cs) fss)(hx_lower h name \<mapsto> data)"
    using insert_file_ok [OF ok name len new room s1(2,3,4,5) _ _ _ s1(10)] s1(6,7,8) unfolding s1(9) length_0_conv by blast
  then show ?thesis using s1(1) by (cases r) (auto simp: write_file_data_and_entry_def sx_simps)
qed

lemma write_file_ok:
  assumes ok: "store_ok h s bs cs fss" and name: "storable_name name" and len: "length data < 2 ^ 64"
    and room: "length cs < div_ceil MAX_DIRECTORY_SIZE (cluster_size s)"
  shows "\<exists>r s' cs' fss'. write_file h name data s = (r, s') \<and> store_ok h s' bs cs' fss' \<and>
    length cs' \<le> length cs + 1 \<and> r \<noteq> Inl Panicked \<and> cluster_size s' = cluster_size s \<and>
    (case r of
       Inl _ \<Rightarrow> (valid_filename name \<and> file_view h s (dir_live s cs) fss (hx_lower h name) = None \<longrightarrow>
           length (free_list s bs) \<le> div_ceil (length data) (cluster_size s)) \<and>
         file_view h s' (dir_live s' cs') fss' = file_view h s (dir_live s cs) fss
     | Inr _ \<Rightarrow> file_view h s (dir_live s cs) fss (hx_lower h name) = None \<and>
         file_view h s' (dir_live s' cs') fss' = (file_view h s (dir_live s cs) fss)(hx_lower h name \<mapsto> data))"
proof -
  let ?k = "hx_lower h name"
  obtain s1 where s1: "store_ok h s1 bs cs fss" "dir_live s1 cs = dir_live s cs" "free_list s1 bs = free_list s bs"
    "file_view h s1 (dir_live s1 cs) fss = file_view h s (dir_live s cs) fss" "cluster_size s1 = cluster_size s" "keeps s s1 {0} {}"
    and fails: "\<And>(body :: unit fx) e s2. body s1 = (Inl e, s2) \<Longrightarrow> transaction body s = (Inl e, s2)"
    and works: "\<And>(body :: unit fx) v s2 cs' fss'. body s1 = (Inr v, s2) \<Longrightarrow> store_ok h s2 bs cs' fss' \<Longrightarrow>
        \<exists>s3. transaction body s = (Inr v, s3) \<and> store_ok h s3 bs cs' fss' \<and> cluster_size s3 = cluster_size s2 \<and> free_list s3 bs = free_list s2 bs \<and>
          file_view h s3 (dir_live s3 cs') fss' = file_view h s2 (dir_live s2 cs') fss'"
    by (rule store_transaction [OF ok]) (rule that)
  let ?body = "write_file_body h name data"
  note run = fails [of ?body, folded write_file_def]
  show ?thesis
  proof (cases "valid_filename name")
    case False
    then have "write_file h name data s = (Inl (fs_err ''Invalid filename length''), s1)"
      by (intro run) (simp add: write_file_body_def sx_simps)
    then show ?thesis using False s1 by (auto intro!: exI [of _ cs] exI [of _ fss])
  next
    case valid: True
    from s1(1) show ?thesis
    proof (cases rule: find_ok [where name = name])
      case (present s2 A e B fA fs fB)
      note r2 = store_recached [OF s1(1) present(2)]
      have "write_file h name data s = (Inl (fs_text ''File '{}' already exists'' name), s2)"
        by (rule run) (use valid present(1) in \<open>simp add: write_file_body_def sx_simps\<close>)
      then show ?thesis using present(9) s1 r2 recached_views(4) [OF present(2)] by (auto intro!: exI [of _ cs] exI [of _ fss])
    next
      case (absent s2)
      note r2 = store_recached [OF s1(1) absent(2)]
      have "root_room s1 bs (root_directory s1) cs" using s1(1) by (simp add: store_ok_def)
      then have fl: "free_list s2 bs = free_list s bs" using root_room_recached(2) [OF _ absent(2)] s1(3) by simp
      have cz: "cluster_size s2 = cluster_size s" using recached_views(4) [OF absent(2)] s1(5) by simp
      obtain r s3 cs' fss' where w: "write_file_data_and_entry h (root_directory s2) name data s2 = (r, s3)" "store_ok h s3 bs cs' fss'"
        "length cs' \<le> length cs + 1" "r \<noteq> Inl Panicked" "cluster_size s3 = cluster_size s2"
        "case r of
           Inl _ \<Rightarrow> length (free_list s2 bs) \<le> div_ceil (length data) (cluster_size s2) \<and>
             file_view h s3 (dir_live s3 cs') fss' = file_view h s2 (dir_live s2 cs) fss
         | Inr _ \<Rightarrow> file_view h s3 (dir_live s3 cs') fss' = (file_view h s2 (dir_live s2 cs) fss)(?k \<mapsto> data)"
        using write_entry_ok [OF r2(1) name len] absent(3) r2(3) room cz by auto
      have body: "?body s1 = (r, s3)" using valid absent(1) w(1) by (simp add: write_file_body_def sx_simps)
      show ?thesis
      proof (cases r)
        case (Inl e)
        then show ?thesis using run body w fl cz r2(3) s1(4) by (auto intro!: exI [of _ cs'] exI [of _ fss'])
      next
        case (Inr u)
        obtain s4 where "write_file h name data s = (Inr u, s4)" "store_ok h s4 bs cs' fss'" "cluster_size s4 = cluster_size s3"
          "file_view h s4 (dir_live s4 cs') fss' = file_view h s3 (dir_live s3 cs') fss'"
          using works [of ?body, OF _ w(2)] body Inr unfolding write_file_def by blast
        then show ?thesis using w Inr cz r2(3) s1(4) absent(3) by (auto intro!: exI [of _ cs'] exI [of _ fss'])
      qed
    qed
  qed
qed

section \<open>The store as the interface\<close>

definition root_abs :: "host \<Rightarrow> nat list \<Rightarrow> nat \<Rightarrow> ExfatFs \<Rightarrow> (ustring \<Rightarrow> bytes option) \<Rightarrow> bool" where
  "root_abs h bs k s m \<longleftrightarrow> (\<exists>cs fss. store_ok h s bs cs fss \<and> length cs + k \<le> div_ceil MAX_DIRECTORY_SIZE (cluster_size s) \<and>
     m = file_view h s (dir_live s cs) fss)"

definition fine_file :: "ustring \<Rightarrow> bytes \<Rightarrow> bool" where
  "fine_file name data \<longleftrightarrow> storable_name name \<and> length data < 2 ^ 64"

interpretation root: name_store "root_abs h bs" "hx_lower h" fine_file "write_file h" "read_file h" "delete_file h"
proof
  fix k s m n v r s'
  assume "root_abs h bs (Suc k) s m" "fine_file n v" "write_file h n v s = (r, s')"
  then obtain cs fss where st: "store_ok h s bs cs fss" "length cs + Suc k \<le> div_ceil MAX_DIRECTORY_SIZE (cluster_size s)"
    "m = file_view h s (dir_live s cs) fss" and w: "write_file h n v s = (r, s')" "storable_name n" "length v < 2 ^ 64"
    by (auto simp: root_abs_def fine_file_def)
  then show "case r of Inl _ \<Rightarrow> root_abs h bs k s' m | Inr _ \<Rightarrow> m (hx_lower h n) = None \<and> root_abs h bs k s' (m(hx_lower h n \<mapsto> v))"
    using write_file_ok [OF st(1) w(2,3)] by (fastforce simp: root_abs_def split: sum.splits)
next
  fix k s m n g s'
  assume "root_abs h bs k s m" and r: "read_file h n s = (g, s')"
  then obtain cs fss where st: "store_ok h s bs cs fss" "length cs + k \<le> div_ceil MAX_DIRECTORY_SIZE (cluster_size s)"
    "m = file_view h s (dir_live s cs) fss" by (auto simp: root_abs_def)
  obtain t where t: "read_file h n s = ((case m (hx_lower h n) of None \<Rightarrow> Inl (fs_text ''File '{}' not found'' n) | Some d \<Rightarrow> Inr d), t)"
    "recached s t" using read_file_ok [OF st(1), of n] st(3) by blast
  have "root_abs h bs k s' m"
    using t r st store_recached [OF st(1) t(2)] recached_views(4) [OF t(2)]
    by (auto simp: root_abs_def intro!: exI [of _ cs] exI [of _ fss])
  then show "root_abs h bs k s' m \<and> (case g of Inl _ \<Rightarrow> m (hx_lower h n) = None | Inr v \<Rightarrow> m (hx_lower h n) = Some v)"
    using t(1) r by (auto split: option.splits)
next
  fix k s m n r s'
  assume "root_abs h bs k s m" and r: "delete_file h n s = (r, s')"
  then obtain cs fss where st: "store_ok h s bs cs fss" "length cs + k \<le> div_ceil MAX_DIRECTORY_SIZE (cluster_size s)"
    "m = file_view h s (dir_live s cs) fss" by (auto simp: root_abs_def)
  then show "case r of Inl _ \<Rightarrow> m (hx_lower h n) = None \<and> root_abs h bs k s' m
      | Inr _ \<Rightarrow> m (hx_lower h n) \<noteq> None \<and> root_abs h bs k s' (m(hx_lower h n := None))"
    using delete_file_ok [OF st(1), of n] r by (fastforce simp: root_abs_def split: option.splits)
next
  fix k s m
  assume "root_abs h bs (Suc k) s m"
  then show "root_abs h bs k s m" unfolding root_abs_def by fastforce
qed

section \<open>A small volume\<close>

text \<open>Six clusters of 1024 octets: the bitmap in cluster 2, an empty root in cluster 3.\<close>

definition plain_host :: host where
  "plain_host = \<lparr>hx_lower = (\<lambda>name. name), hx_now = 0\<rparr>"

definition small_image :: bytes where
  "small_image = replicate 520 0 @ replicate 8 0xFF @ replicate 496 0 @ [3] @ replicate 6143 0"

definition small_fs :: ExfatFs where
  "small_fs = \<lparr>fs_disk = \<lparr>dk_bytes = small_image, dk_faults = []\<rparr>, partition_offset = 0, bytes_per_sector = 512,
     sectors_per_cluster = 2, cluster_size = 1024, fat_offset = 1, fat_length = 1, cluster_heap_offset = 2, cluster_count = 6,
     first_cluster_of_root = 3, allocation_bitmap_first_cluster = 2, allocation_bitmap_size = 1,
     upcase_table_first_cluster = 0, upcase_table_size = 0, upcase_table_checksum = 0, fat_cache = FatCache_new,
     bitmap_cache = None, bitmap_dirty = False\<rparr>"

lemma small_fields [simp]:
  "dk_bytes (fs_disk small_fs) = small_image" "dk_faults (fs_disk small_fs) = []" "partition_offset small_fs = 0"
  "bytes_per_sector small_fs = 512" "cluster_size small_fs = 1024" "fat_offset small_fs = 1" "fat_length small_fs = 1"
  "cluster_heap_offset small_fs = 2" "cluster_count small_fs = 6" "first_cluster_of_root small_fs = 3"
  "allocation_bitmap_first_cluster small_fs = 2" "allocation_bitmap_size small_fs = 1" "fat_cache small_fs = FatCache_new"
  "bitmap_cache small_fs = None"
  by (simp_all add: small_fs_def)

lemma length_small_image: "length small_image = 7168"
  by (simp add: small_image_def)

lemma small_fat: "fat_at small_fs 2 = FAT_ENTRY_END_OF_CHAIN" "fat_at small_fs 3 = FAT_ENTRY_END_OF_CHAIN"
proof -
  have "slice_of 520 524 small_image = replicate 4 0xFF" "slice_of 524 528 small_image = replicate 4 0xFF"
    by (simp_all add: small_image_def slice_of_def)
  moreover have "replicate 4 (0xFF :: u8) = [0xFF, 0xFF, 0xFF, 0xFF]" by (simp add: numeral_eq_Suc)
  then have "le_val (replicate 4 (0xFF :: u8)) = FAT_ENTRY_END_OF_CHAIN"
    by (simp add: FAT_ENTRY_END_OF_CHAIN_def)
  ultimately show "fat_at small_fs 2 = FAT_ENTRY_END_OF_CHAIN" "fat_at small_fs 3 = FAT_ENTRY_END_OF_CHAIN"
    by (simp_all add: fat_at_def fat_entry_offset_def)
qed

lemma small_clusters: "cluster_at small_fs 2 = 3 # replicate 1023 0" "cluster_at small_fs 3 = replicate 1024 0"
  by (simp_all add: cluster_at_def cluster_to_offset_def u32_sub_def small_image_def slice_of_def)

lemma small_bitmap: "disk_bitmap small_fs [2] = [3]"
  by (simp add: disk_bitmap_def small_clusters)

lemma small_allocated: "is_cluster_allocated [3] 2" "is_cluster_allocated [3] 3" "\<not> is_cluster_allocated [3] 4"
  "\<not> is_cluster_allocated [3] 5" "\<not> is_cluster_allocated [3] 6" "\<not> is_cluster_allocated [3] 7"
  by (simp_all add: is_cluster_allocated_def u32_sub_def)

lemma small_free: "free_list small_fs [2] = [4, 5, 6, 7]"
proof -
  have "[2..<8] = [2, 3, 4, 5, 6, 7 :: nat]" by (simp add: upt_rec)
  then show ?thesis by (simp add: free_list_def small_bitmap small_allocated)
qed

lemma small_vol: "vol_ok small_fs [2]"
  using small_fat
  by (simp add: vol_ok_def vol_ready_def geometry_ok_def heap_start_def length_small_image cache_ok_def fc_get_def
      fc_contains_def FatCache_new_def bitmap_place_def is_chain_def in_heap_def small_bitmap small_allocated)

lemma small_root: "cluster_live small_fs 3 = []"
  using empty_cluster(2) [of 1024 3] by (simp add: cluster_live_def small_clusters)

lemma small_live: "dir_live small_fs [3] = []"
  by (simp add: small_root)

lemma small_store: "store_ok h small_fs [2] [3] []" and small_view: "file_view h small_fs (dir_live small_fs [3]) [] = (\<lambda>_. None)"
proof -
  have "dir_chain small_fs (root_directory small_fs) [3]"
    using small_fat
    by (simp add: dir_chain_def root_directory_def DirectoryLocation_root_def is_chain_def in_heap_def div_ceil_def MAX_DIRECTORY_SIZE_def)
  then show "store_ok h small_fs [2] [3] []"
    using small_vol empty_cluster(1) [of 1024]
    by (simp add: store_ok_def root_room_def root_directory_def DirectoryLocation_root_def dir_wf_def small_clusters small_bitmap
        small_allocated small_root files_ok_def)
  show "file_view h small_fs (dir_live small_fs [3]) [] = (\<lambda>_. None)" by (simp add: small_root view_Nil)
qed

lemma small_abs: "k < 1000 \<Longrightarrow> root_abs h [2] k small_fs (\<lambda>_. None)"
  unfolding root_abs_def
  by (intro exI [of _ "[3]"] exI [of _ "[]"])
    (simp add: small_store small_live view_Nil div_ceil_def MAX_DIRECTORY_SIZE_def del: dir_live.simps)

lemma small_name: "storable_name [97]" "valid_filename [97]"
proof -
  have "encode_utf16 [97] = [97]" by (simp add: encode_utf16_def encode_char_def)
  then show "storable_name [97]" by (simp add: storable_name_def is_scalar_def)
  show "valid_filename [97]" by (simp add: valid_filename_def utf8_len_def)
qed

section \<open>What users rely on\<close>

text \<open>C4: The root is a map from lower-case names to contents.  Any session of \<open>write_file\<close>, \<open>read_file\<close> and
  \<open>delete_file\<close> calls is answered as that map answers it: a read returns exactly the octets of the last
  successful write of the name, in any spelling \<open>to_lowercase\<close> identifies, and fails exactly when there is none; a write
  that succeeds finds the name free; a delete succeeds exactly on a name that is there; and a refused call changes
  nothing.  The final volume is sound again and holds the map the answers describe.\<close>

theorem root_sessions_explained:
  assumes "root_abs h bs (length qs) s m" and "requests_fine fine_file qs"
    and "session (perform (write_file h) (read_file h) (delete_file h)) qs s = (as, s')"
  shows "length as = length qs \<and> explains (hx_lower h) m (zip qs as) \<and>
    root_abs h bs 0 s' (fold (after (hx_lower h)) (zip qs as) m)"
  by (rule root.session_explained [OF assms])

theorem root_sessions_explained_witness:
  "explains (hx_lower plain_host) (\<lambda>_. None) (zip [Put [97] [1, 2, 3], Get [97], Remove [97], Get [97]]
     (fst (session (perform (write_file plain_host) (read_file plain_host) (delete_file plain_host)) [Put [97] [1, 2, 3], Get [97], Remove [97], Get [97]] small_fs)))"
proof -
  let ?qs = "[Put [97] [1, 2, 3], Get [97], Remove [97], Get [97]]"
  have "requests_fine fine_file ?qs" by (simp add: requests_fine_def fine_file_def small_name)
  moreover have "root_abs plain_host [2] (length ?qs) small_fs (\<lambda>_. None)" by (rule small_abs) simp
  moreover obtain as s' where r: "session (perform (write_file plain_host) (read_file plain_host) (delete_file plain_host)) ?qs small_fs = (as, s')"
    by (meson surj_pair)
  ultimately show ?thesis using root_sessions_explained [of plain_host "[2]" ?qs small_fs "\<lambda>_. None" as s'] unfolding r by simp
qed

text \<open>C6: Writing a new file succeeds whenever the free clusters hold its data and one more for the directory to grow;
  reading it back, in any spelling of the name, returns the data, every other file is as before, and the volume is
  sound again.\<close>

theorem written_file_reads_back:
  assumes "store_ok h s bs cs fss" and "storable_name name" and "valid_filename name" and "length data < 2 ^ 64"
    and "file_view h s (dir_live s cs) fss (hx_lower h name) = None"
    and "length cs < div_ceil MAX_DIRECTORY_SIZE (cluster_size s)"
    and "div_ceil (length data) (cluster_size s) < length (free_list s bs)" and "hx_lower h other = hx_lower h name"
  shows "\<exists>s' s'' cs' fss'. write_file h name data s = (Inr (), s') \<and> read_file h other s' = (Inr data, s'') \<and>
    store_ok h s' bs cs' fss' \<and> length cs' \<le> length cs + 1 \<and>
    file_view h s' (dir_live s' cs') fss' = (file_view h s (dir_live s cs) fss)(hx_lower h name \<mapsto> data)"
proof -
  obtain r s' cs' fss' where w: "write_file h name data s = (r, s')" "store_ok h s' bs cs' fss'" "length cs' \<le> length cs + 1"
    "case r of
       Inl _ \<Rightarrow> (valid_filename name \<and> file_view h s (dir_live s cs) fss (hx_lower h name) = None \<longrightarrow>
           length (free_list s bs) \<le> div_ceil (length data) (cluster_size s)) \<and>
         file_view h s' (dir_live s' cs') fss' = file_view h s (dir_live s cs) fss
     | Inr _ \<Rightarrow> file_view h s (dir_live s cs) fss (hx_lower h name) = None \<and>
         file_view h s' (dir_live s' cs') fss' = (file_view h s (dir_live s cs) fss)(hx_lower h name \<mapsto> data)"
    using write_file_ok [OF assms(1,2,4,6)] by blast
  then have r: "r = Inr ()" and v: "file_view h s' (dir_live s' cs') fss' = (file_view h s (dir_live s cs) fss)(hx_lower h name \<mapsto> data)"
    using assms(3,5,7) by (cases r; simp)+
  obtain s'' where "read_file h other s' = (Inr data, s'')" using read_file_ok [OF w(2), of other] v assms(8) by auto
  then show ?thesis using w(1,2,3) r v by blast
qed

theorem written_file_reads_back_witness:
  "\<exists>s' s''. write_file plain_host [97] [1, 2, 3] small_fs = (Inr (), s') \<and> read_file plain_host [97] s' = (Inr [1, 2, 3], s'')"
  using written_file_reads_back [OF small_store [of plain_host] small_name, of "[1, 2, 3]" "[97]"]
  by (auto simp: small_live view_Nil small_free div_ceil_def MAX_DIRECTORY_SIZE_def simp del: dir_live.simps)

end
