(* ===== verification/ExfatStream.thy ===== *)
theory ExfatStream
  imports ExfatFiles
begin

text \<open>
  Streaming access of the exFAT library (\<open>exfat/ops.rs\<close> in \<open>libs/ventoy-img-rs/src\<close>): the file writer that
  fills one cluster buffer, the file reader with its cached cluster and its seek, and the two copy
  loops.  The other end of a copy is a script: what each call of \<open>Read::read\<close> returns, and whether
  each call of \<open>Write::write_all\<close> succeeds.
\<close>

section \<open>The writer\<close>

record ExfatFileWriter =
  fw_name :: ustring
  fw_directory :: DirectoryLocation
  fw_total_size :: nat
  fw_allocated_clusters :: "nat list"
  fw_current_cluster_index :: nat
  fw_cluster_buffer :: bytes
  fw_bytes_written :: nat

text \<open>\<open>total_size + cluster_size - 1\<close> is taken in 64 bits.\<close>

definition clusters_needed :: "nat \<Rightarrow> nat \<Rightarrow> nat" where
  "clusters_needed len cs = (if len = 0 then 0 else ((len + cs - 1) mod 2 ^ 64) div cs)"

definition create_in_directory ::
    "host \<Rightarrow> DirectoryLocation \<Rightarrow> ustring \<Rightarrow> nat \<Rightarrow> bool \<Rightarrow> ExfatFileWriter fx" where
  "create_in_directory h dir name total_size overwrite =
     (if \<not> valid_filename name then sx_fail (fs_err ''Invalid filename length'')
      else
        sx_bind (find_entry_in_directory h dir name) (\<lambda>found.
        sx_bind (case found of
            Some loc \<Rightarrow>
              if overwrite then sx_bind (free_allocation loc) (\<lambda>_. delete_file_entry loc)
              else sx_fail (fs_text ''File '{}' already exists'' name)
          | None \<Rightarrow> sx_return ()) (\<lambda>_.
        sx_bind (\<lambda>s. if clusters_needed total_size (cluster_size s) > 0
                     then sx_bind (allocate_clusters (clusters_needed total_size (cluster_size s))) read_cluster_chain s
                     else (Inr [], s)) (\<lambda>clusters.
          sx_return \<lparr>fw_name = name, fw_directory = dir, fw_total_size = total_size,
            fw_allocated_clusters = clusters, fw_current_cluster_index = 0, fw_cluster_buffer = [],
            fw_bytes_written = 0\<rparr>))))"

definition fw_create :: "host \<Rightarrow> ustring \<Rightarrow> nat \<Rightarrow> ExfatFileWriter fx" where
  "fw_create h name total_size s = create_in_directory h (root_directory s) name total_size False s"

definition fw_create_overwrite :: "host \<Rightarrow> ustring \<Rightarrow> nat \<Rightarrow> bool \<Rightarrow> ExfatFileWriter fx" where
  "fw_create_overwrite h name total_size overwrite s =
     create_in_directory h (root_directory s) name total_size overwrite s"

definition create_at_path :: "host \<Rightarrow> ustring \<Rightarrow> nat \<Rightarrow> bool \<Rightarrow> bool \<Rightarrow> ExfatFileWriter fx" where
  "create_at_path h path total_size create_parents overwrite =
     sx_bind (resolve_path h path create_parents) (\<lambda>resolved.
     sx_bind (case rp_location resolved of
         Some loc \<Rightarrow>
           if is_directory loc then sx_fail (fs_text '''{}' is a directory'' path)
           else if overwrite then sx_bind (free_allocation loc) (\<lambda>_. delete_file_entry loc)
           else sx_fail (fs_text ''File '{}' already exists'' path)
       | None \<Rightarrow> sx_return ()) (\<lambda>_.
       create_in_directory h (rp_parent resolved) (rp_name resolved) total_size False))"

text \<open>One round of the loop of \<open>write\<close>: fill the buffer, and write it when it is full and a cluster is left.\<close>

definition fill_buffer :: "bytes \<Rightarrow> nat \<Rightarrow> ExfatFileWriter \<Rightarrow> ExfatFs \<Rightarrow> nat" where
  "fill_buffer data data_offset w s =
     min (min (cluster_size s - length (fw_cluster_buffer w)) (length data - data_offset))
       (fw_total_size w - fw_bytes_written w)"

definition write_round :: "bytes \<Rightarrow> nat \<Rightarrow> ExfatFileWriter \<Rightarrow> (nat \<times> ExfatFileWriter) fx" where
  "write_round data data_offset w s =
     (let chunk_size = fill_buffer data data_offset w s;
          w = w\<lparr>fw_cluster_buffer := fw_cluster_buffer w @ slice_of data_offset (data_offset + chunk_size) data,
                fw_bytes_written := fw_bytes_written w + chunk_size\<rparr>;
          data_offset = data_offset + chunk_size
      in if length (fw_cluster_buffer w) \<ge> cluster_size s \<and>
            fw_current_cluster_index w < length (fw_allocated_clusters w) then
           sx_bind (write_cluster (fw_allocated_clusters w ! fw_current_cluster_index w) (fw_cluster_buffer w)) (\<lambda>_.
             sx_return (data_offset,
               w\<lparr>fw_current_cluster_index := fw_current_cluster_index w + 1, fw_cluster_buffer := []\<rparr>)) s
         else (Inr (data_offset, w), s))"

text \<open>With a full buffer and no cluster left the loop would not advance: \<open>None\<close> is a run that never ends.
  A cluster write that fails leaves the writer half way; its caller drops it.\<close>

partial_function (option) fw_write_loop ::
    "bytes \<Rightarrow> nat \<Rightarrow> ExfatFileWriter \<Rightarrow> ExfatFs \<Rightarrow> ((fs_error + nat \<times> ExfatFileWriter) \<times> ExfatFs) option" where
  "fw_write_loop data data_offset w s =
     (if data_offset < length data \<and> fw_bytes_written w < fw_total_size w then
        (case write_round data data_offset w s of
           (Inl e, s) \<Rightarrow> Some (Inl e, s)
         | (Inr (data_offset, w), s) \<Rightarrow> fw_write_loop data data_offset w s)
      else Some (Inr (data_offset, w), s))"

definition fw_write ::
    "bytes \<Rightarrow> ExfatFileWriter \<Rightarrow> ExfatFs \<Rightarrow> ((fs_error + nat \<times> ExfatFileWriter) \<times> ExfatFs) option" where
  "fw_write data w s = fw_write_loop data 0 w s"

definition fw_finish :: "host \<Rightarrow> ExfatFileWriter \<Rightarrow> unit fx" where
  "fw_finish h w =
     sx_bind (if fw_cluster_buffer w \<noteq> [] \<and> fw_current_cluster_index w < length (fw_allocated_clusters w)
              then write_cluster (fw_allocated_clusters w ! fw_current_cluster_index w) (fw_cluster_buffer w)
              else sx_return ()) (\<lambda>_.
     sx_bind (create_entry_in_directory h (fw_directory w) (fw_name w)
                (case fw_allocated_clusters w of [] \<Rightarrow> 0 | first # _ \<Rightarrow> first) (fw_total_size w) False) (\<lambda>_.
       sx_return ()))"

text \<open>The source is what its \<open>read\<close> calls return; an empty read, or the end of the script, is the end.\<close>

type_synonym source = "(string + bytes) list"

fun do_stream_write :: "source \<Rightarrow> ExfatFileWriter \<Rightarrow> ExfatFs \<Rightarrow> ((fs_error + ExfatFileWriter) \<times> ExfatFs) option" where
  "do_stream_write [] w s = Some (Inr w, s)"
| "do_stream_write (Inl e # src) w s = Some (Inl (FsIo e), s)"
| "do_stream_write (Inr chunk # src) w s =
     (if chunk = [] then Some (Inr w, s)
      else
        (case fw_write chunk w s of
           None \<Rightarrow> None
         | Some (Inl e, s) \<Rightarrow> Some (Inl e, s)
         | Some (Inr (_, w), s) \<Rightarrow> do_stream_write src w s))"

definition copy_in :: "host \<Rightarrow> ExfatFileWriter fx \<Rightarrow> source \<Rightarrow> ExfatFs \<Rightarrow> ((fs_error + unit) \<times> ExfatFs) option" where
  "copy_in h create src s =
     (case create s of
        (Inl e, s) \<Rightarrow> Some (Inl e, s)
      | (Inr w, s) \<Rightarrow>
          (case do_stream_write src w s of
             None \<Rightarrow> None
           | Some (Inl e, s) \<Rightarrow> Some (Inl e, s)
           | Some (Inr w, s) \<Rightarrow> Some (fw_finish h w s)))"

definition stream_transaction ::
    "(ExfatFs \<Rightarrow> ((fs_error + unit) \<times> ExfatFs) option) \<Rightarrow> ExfatFs \<Rightarrow> ((fs_error + unit) \<times> ExfatFs) option" where
  "stream_transaction body s =
     (case begin_write_transaction s of
        (Inl e, s) \<Rightarrow> Some (Inl e, s)
      | (Inr was_dirty, s) \<Rightarrow>
          (case body s of
             None \<Rightarrow> None
           | Some (r, s) \<Rightarrow> Some (finish_write_transaction was_dirty r s)))"

definition write_file_from_reader :: "host \<Rightarrow> ustring \<Rightarrow> source \<Rightarrow> nat \<Rightarrow> ExfatFs \<Rightarrow> ((fs_error + unit) \<times> ExfatFs) option" where
  "write_file_from_reader h name src len = stream_transaction (copy_in h (fw_create h name len) src)"

definition write_file_from_reader_overwrite ::
    "host \<Rightarrow> ustring \<Rightarrow> source \<Rightarrow> nat \<Rightarrow> bool \<Rightarrow> ExfatFs \<Rightarrow> ((fs_error + unit) \<times> ExfatFs) option" where
  "write_file_from_reader_overwrite h name src len overwrite =
     stream_transaction (copy_in h (fw_create_overwrite h name len overwrite) src)"

definition write_file_from_reader_path ::
    "host \<Rightarrow> ustring \<Rightarrow> source \<Rightarrow> nat \<Rightarrow> bool \<Rightarrow> bool \<Rightarrow> ExfatFs \<Rightarrow> ((fs_error + unit) \<times> ExfatFs) option" where
  "write_file_from_reader_path h path src len create_parents overwrite =
     stream_transaction (copy_in h (create_at_path h path len create_parents overwrite) src)"

section \<open>The reader\<close>

record ExfatFileReader =
  fr_cluster_chain :: "nat list"
  fr_file_size :: nat
  fr_position :: nat
  fr_cluster_cache :: "(nat \<times> bytes) option"

definition fr_from_location :: "FileEntryLocation \<Rightarrow> ExfatFileReader fx" where
  "fr_from_location loc =
     sx_bind (clusters_for_allocation loc) (\<lambda>chain.
       sx_return \<lparr>fr_cluster_chain = chain, fr_file_size = data_length loc, fr_position = 0, fr_cluster_cache = None\<rparr>)"

definition fr_open :: "host \<Rightarrow> ustring \<Rightarrow> ExfatFileReader fx" where
  "fr_open h name =
     sx_bind (find_file_entry h name) (\<lambda>found.
     sx_bind (sx_ok_or (fs_text ''File '{}' not found'' name) found) (\<lambda>loc.
       if is_directory loc then sx_fail (fs_text '''{}' is a directory'' name)
       else fr_from_location loc))"

definition fr_open_path :: "host \<Rightarrow> ustring \<Rightarrow> ExfatFileReader fx" where
  "fr_open_path h path =
     sx_bind (resolve_path h path False) (\<lambda>resolved.
       case rp_location resolved of
         Some loc \<Rightarrow> if is_directory loc then sx_fail (fs_text '''{}' is a directory'' path)
                    else fr_from_location loc
       | None \<Rightarrow> sx_fail (fs_text ''File '{}' not found'' path))"

definition fr_remaining :: "ExfatFileReader \<Rightarrow> nat" where
  "fr_remaining r = fr_file_size r - fr_position r"

definition read_cluster_cached :: "nat \<Rightarrow> ExfatFileReader \<Rightarrow> (bytes \<times> ExfatFileReader) fx" where
  "read_cluster_cached cluster_index r =
     (if cluster_index \<ge> length (fr_cluster_chain r) then sx_fail (fs_err ''Cluster index out of range'')
      else
        let cluster_num = fr_cluster_chain r ! cluster_index;
            load = sx_bind (read_cluster cluster_num) (\<lambda>data.
              sx_return (data, r\<lparr>fr_cluster_cache := Some (cluster_num, data)\<rparr>))
        in case fr_cluster_cache r of
             Some (cached_cluster, data) \<Rightarrow>
               if cached_cluster = cluster_num then sx_return (data, r) else load
           | None \<Rightarrow> load)"

text \<open>An error crosses \<open>Read::read\<close> as an I/O error with the message of the original one.\<close>

definition as_io_error :: "fs_error \<Rightarrow> fs_error" where
  "as_io_error e = (case e of FilesystemError msg _ _ \<Rightarrow> FsIo msg | _ \<Rightarrow> e)"

text \<open>What one round reads: the rest of the cluster, of the file or of the buffer.\<close>

definition read_span :: "nat \<Rightarrow> nat \<Rightarrow> nat \<Rightarrow> nat \<Rightarrow> nat" where
  "read_span cs pos len room = min (min (cs - pos mod cs) (len - pos)) room"

lemma read_span_pos: "cs \<noteq> 0 \<Longrightarrow> pos < len \<Longrightarrow> 0 < room \<Longrightarrow> 0 < read_span cs pos len room"
  by (simp add: read_span_def)

text \<open>The octets go to the buffer in order; a division by a zero cluster size would panic.
  A failing cluster read loses the octets already copied in this call but keeps the position.\<close>

function fr_read_loop :: "nat \<Rightarrow> bytes \<Rightarrow> ExfatFileReader \<Rightarrow> ExfatFs \<Rightarrow> (fs_error + bytes) \<times> ExfatFileReader \<times> ExfatFs" where
  "fr_read_loop n got r s =
     (if length got < n \<and> fr_position r < fr_file_size r then
        (if cluster_size s = 0 then (Inl Panicked, r, s)
         else
           let cluster_index = fr_position r div cluster_size s;
               offset_in_cluster = fr_position r mod cluster_size s;
               to_read = read_span (cluster_size s) (fr_position r) (fr_file_size r) (n - length got)
           in case read_cluster_cached cluster_index r s of
                (Inl e, s) \<Rightarrow> (Inl (as_io_error e), r, s)
              | (Inr (data, r'), s') \<Rightarrow>
                  if offset_in_cluster + to_read > length data then (Inl Panicked, r', s')
                  else fr_read_loop n (got @ slice_of offset_in_cluster (offset_in_cluster + to_read) data)
                         (r'\<lparr>fr_position := fr_position r' + to_read\<rparr>) s')
      else (Inr got, r, s))"
  by pat_completeness auto
termination
proof (relation "measure (\<lambda>(n, got, r, s). n - length got)", goal_cases)
  case 1
  then show ?case by simp
next
  case prems: (2 n got r s)
  have "0 < read_span (cluster_size s) (fr_position r) (fr_file_size r) (n - length got)"
    using prems(1,2) by (intro read_span_pos) simp_all
  then show ?case using prems(1-5) prems(9-) by simp linarith
qed

declare fr_read_loop.simps [simp del]

definition fr_read :: "nat \<Rightarrow> ExfatFileReader \<Rightarrow> ExfatFs \<Rightarrow> (fs_error + bytes) \<times> ExfatFileReader \<times> ExfatFs" where
  "fr_read n r s =
     (if fr_position r \<ge> fr_file_size r \<or> n = 0 then (Inr [], r, s) else fr_read_loop n [] r s)"

datatype SeekFrom = SeekStart nat | SeekEnd int | SeekCurrent int

definition fr_seek :: "SeekFrom \<Rightarrow> ExfatFileReader \<Rightarrow> (fs_error + nat) \<times> ExfatFileReader" where
  "fr_seek pos r =
     (let new_pos = (case pos of
            SeekStart off \<Rightarrow> of_nat off
          | SeekEnd off \<Rightarrow> of_nat (fr_file_size r) + of_int off
          | SeekCurrent off \<Rightarrow> of_nat (fr_position r) + of_int off) :: 64 word
      in if sint new_pos < 0 then (Inl (FsIo ''Seek to negative position''), r)
         else (Inr (unat new_pos), r\<lparr>fr_position := unat new_pos\<rparr>))"

text \<open>The sink: the octets it has taken, and whether each further \<open>write_all\<close> succeeds (always, past the script).\<close>

record sink =
  sk_taken :: bytes
  sk_script :: "bool list"

definition sink_write_all :: "bytes \<Rightarrow> sink \<Rightarrow> (fs_error + unit) \<times> sink" where
  "sink_write_all data k =
     (case sk_script k of
        False # script \<Rightarrow> (Inl (FsIo ''write failed''), k\<lparr>sk_script := script\<rparr>)
      | True # script \<Rightarrow> (Inr (), k\<lparr>sk_taken := sk_taken k @ data, sk_script := script\<rparr>)
      | [] \<Rightarrow> (Inr (), k\<lparr>sk_taken := sk_taken k @ data\<rparr>))"

definition STREAM_BUFFER :: nat where "STREAM_BUFFER = 64 * 1024"

partial_function (option) do_stream_read ::
    "nat \<Rightarrow> ExfatFileReader \<Rightarrow> sink \<Rightarrow> ExfatFs \<Rightarrow> ((fs_error + nat) \<times> sink \<times> ExfatFs) option" where
  "do_stream_read count r k s =
     (case fr_read STREAM_BUFFER r s of
        (Inl e, r, s) \<Rightarrow> Some (Inl e, k, s)
      | (Inr got, r, s) \<Rightarrow>
          if got = [] then Some (Inr count, k, s)
          else
            (case sink_write_all got k of
               (Inl e, k) \<Rightarrow> Some (Inl e, k, s)
             | (Inr _, k) \<Rightarrow> do_stream_read (count + length got) r k s))"

definition copy_out :: "ExfatFileReader fx \<Rightarrow> sink \<Rightarrow> ExfatFs \<Rightarrow> ((fs_error + nat) \<times> sink \<times> ExfatFs) option" where
  "copy_out open_it k s =
     (case open_it s of
        (Inl e, s) \<Rightarrow> Some (Inl e, k, s)
      | (Inr r, s) \<Rightarrow> do_stream_read 0 r k s)"

definition read_file_to_writer :: "host \<Rightarrow> ustring \<Rightarrow> sink \<Rightarrow> ExfatFs \<Rightarrow> ((fs_error + nat) \<times> sink \<times> ExfatFs) option" where
  "read_file_to_writer h name = copy_out (fr_open h name)"

definition read_file_path_to_writer :: "host \<Rightarrow> ustring \<Rightarrow> sink \<Rightarrow> ExfatFs \<Rightarrow> ((fs_error + nat) \<times> sink \<times> ExfatFs) option" where
  "read_file_path_to_writer h path = copy_out (fr_open_path h path)"

end
