(* ===== verification/ExfatStreaming.thy ===== *)
theory ExfatStreaming
  imports ExfatRoot ExfatStream
begin

text \<open>
  What streaming a file into the root of a sound volume does (\<open>write_file_from_reader\<close>, \<open>exfat/ops.rs\<close>): the
  writer's cluster buffer is invisible, however the source cuts its octets; a source that ends early leaves the
  file with its announced length and whatever its clusters held before.
\<close>

section \<open>The writer's invariant\<close>

text \<open>\<open>got\<close> is what the writer has taken: the clusters before the current one hold its head, the buffer its tail,
  the clusters from the current one on are as they were in \<open>s0\<close>.\<close>

definition writer_ok :: "ExfatFs \<Rightarrow> nat list \<Rightarrow> nat list \<Rightarrow> bytes \<Rightarrow> ExfatFileWriter \<Rightarrow> ExfatFs \<Rightarrow> bool" where
  "writer_ok s0 bs fs got w s \<longleftrightarrow>
     vol_ok s bs \<and> keeps s0 s {} (set fs) \<and> disk_bitmap s bs = disk_bitmap s0 bs \<and>
     fw_allocated_clusters w = fs \<and> fw_bytes_written w = length got \<and> length got \<le> fw_total_size w \<and>
     fw_current_cluster_index w \<le> length fs \<and> length (fw_cluster_buffer w) < cluster_size s0 \<and>
     fw_total_size w \<le> length fs * cluster_size s0 \<and>
     got = chain_data s (take (fw_current_cluster_index w) fs) @ fw_cluster_buffer w \<and>
     chain_data s (drop (fw_current_cluster_index w) fs) = chain_data s0 (drop (fw_current_cluster_index w) fs)"

lemma writer_taken:
  assumes "writer_ok s0 bs fs got w s"
  shows "length got \<le> fw_total_size w" and "fw_bytes_written w = length got"
  using assms unfolding writer_ok_def by blast+

lemma writer_facts:
  assumes "writer_ok s0 bs fs got w s" and "\<forall>c \<in> set fs. in_heap s0 c"
  shows "cluster_size s = cluster_size s0" "vol_ready s" "\<forall>c \<in> set fs. in_heap s c" "geometry_ok s"
    and "length got = fw_current_cluster_index w * cluster_size s0 + length (fw_cluster_buffer w)"
proof -
  have k: "keeps s0 s {} (set fs)" and v: "vol_ok s bs" using assms(1) by (simp_all add: writer_ok_def)
  show cz: "cluster_size s = cluster_size s0" and vr: "vol_ready s" and h: "\<forall>c \<in> set fs. in_heap s c"
    using keepsD(3) [OF k] keeps_in_heap [OF k] v assms(2) by (simp_all add: vol_ok_def)
  show g: "geometry_ok s" using vr by (simp add: vol_ready_def)
  have "\<forall>c \<in> set (take (fw_current_cluster_index w) fs). in_heap s c" using h by (auto dest: in_set_takeD)
  then have "length (chain_data s (take (fw_current_cluster_index w) fs)) = fw_current_cluster_index w * cluster_size s0"
    using length_chain_data [OF g] cz assms(1) by (simp add: writer_ok_def)
  then show "length got = fw_current_cluster_index w * cluster_size s0 + length (fw_cluster_buffer w)"
    using assms(1) unfolding writer_ok_def by (metis length_append)
qed

text \<open>Writing the buffer, full or not, into the current cluster.\<close>

lemma flush_buffer_ok:
  assumes vol: "vol_ok s bs" and k: "keeps s0 s {} (set fs)" and bm: "disk_bitmap s bs = disk_bitmap s0 bs"
    and fs: "\<forall>c \<in> set fs. in_heap s0 c" "distinct fs" "set fs \<inter> set bs = {}" and i: "i < length fs"
    and buf: "length buf \<le> cluster_size s0"
    and rest: "chain_data s (drop i fs) = chain_data s0 (drop i fs)"
  shows "\<exists>s'. write_cluster (fs ! i) buf s = (Inr (), s') \<and> vol_ok s' bs \<and> keeps s0 s' {} (set fs) \<and>
    disk_bitmap s' bs = disk_bitmap s0 bs \<and>
    chain_data s' (take (Suc i) fs) = chain_data s (take i fs) @ buf @ replicate (cluster_size s0 - length buf) 0 \<and>
    chain_data s' (drop (Suc i) fs) = chain_data s0 (drop (Suc i) fs)"
proof -
  have vr: "vol_ready s" using vol by (simp add: vol_ok_def)
  have cz: "cluster_size s = cluster_size s0" using keepsD(3) [OF k] .
  have hs: "\<forall>c \<in> set fs. in_heap s c" using fs(1) keeps_in_heap [OF k] by simp
  have hi: "in_heap s (fs ! i)" using hs i by simp
  have g: "geometry_ok s0" "geometry_ok s" using vr k by (auto simp: vol_ready_def geometry_ok_def keeps_def geo_def heap_start_def)
  obtain s' where s': "write_cluster (fs ! i) buf s = (Inr (), s')" "vol_ready s'" "keeps s s' {} {fs ! i}"
    "cluster_at s' (fs ! i) = buf @ replicate (cluster_size s - length buf) 0" "bitmap_cache s' = bitmap_cache s"
    using write_cluster_ok [OF vr hi] buf cz by auto
  have "fs ! i \<notin> set bs" using fs(3) i by (meson disjoint_iff nth_mem)
  then have v: "vol_ok s' bs" "disk_bitmap s' bs = disk_bitmap s bs" using vol_ok_keeps [OF s'(3,2,5) vol] by simp_all
  have split: "fs = take i fs @ fs ! i # drop (Suc i) fs" using i by (simp add: id_take_nth_drop)
  then have apart: "fs ! i \<notin> set (take i fs)" "fs ! i \<notin> set (drop (Suc i) fs)"
    using fs(2) by (metis distinct_append distinct.simps(2) disjoint_iff list.set_intros(1))+
  have "chain_data s' (take i fs) = chain_data s (take i fs)"
    using apart(1) hs by (intro chain_data_keeps [OF s'(3)]) (auto dest: in_set_takeD)
  then have t: "chain_data s' (take (Suc i) fs) = chain_data s (take i fs) @ buf @ replicate (cluster_size s0 - length buf) 0"
    using i s'(4) cz by (simp add: take_Suc_conv_app_nth)
  have "chain_data s' (drop (Suc i) fs) = chain_data s (drop (Suc i) fs)"
    using apart(2) hs by (intro chain_data_keeps [OF s'(3)]) (auto dest: in_set_dropD)
  also have "\<dots> = chain_data s0 (drop (Suc i) fs)"
  proof -
    have d: "drop i fs = fs ! i # drop (Suc i) fs" using i by (simp add: Cons_nth_drop_Suc)
    have "length (cluster_at s (fs ! i)) = length (cluster_at s0 (fs ! i))"
      using length_cluster_at [OF g(2) hi] length_cluster_at [OF g(1)] fs(1) i cz by simp
    then show ?thesis using rest unfolding d by simp
  qed
  finally have r: "chain_data s' (drop (Suc i) fs) = chain_data s0 (drop (Suc i) fs)" .
  have "keeps s0 s' {} (set fs)" using keeps_mono [OF keeps_trans [OF k s'(3)], of "{}" "set fs"] i by auto
  then show ?thesis using s'(1) v bm t r by auto
qed

section \<open>Taking octets\<close>

lemma write_round_ok:
  assumes w: "writer_ok s0 bs fs got w s" and fs: "\<forall>c \<in> set fs. in_heap s0 c" "distinct fs" "set fs \<inter> set bs = {}"
    and more_to_do: "off < length data" "fw_bytes_written w < fw_total_size w"
  shows "\<exists>off' w' s'. write_round data off w s = (Inr (off', w'), s') \<and> off < off' \<and> off' \<le> length data \<and>
    writer_ok s0 bs fs (got @ slice_of off off' data) w' s' \<and> fw_total_size w' = fw_total_size w \<and>
    fw_name w' = fw_name w \<and> fw_directory w' = fw_directory w"
proof -
  note f = writer_facts [OF w fs(1)]
  let ?n = "fill_buffer data off w s" and ?i = "fw_current_cluster_index w"
  let ?buf = "fw_cluster_buffer w @ slice_of off (off + ?n) data"
  have wk: "vol_ok s bs" "keeps s0 s {} (set fs)" "disk_bitmap s bs = disk_bitmap s0 bs" "fw_allocated_clusters w = fs"
    "fw_bytes_written w = length got" "?i \<le> length fs" "length (fw_cluster_buffer w) < cluster_size s0"
    "fw_total_size w \<le> length fs * cluster_size s0" "got = chain_data s (take ?i fs) @ fw_cluster_buffer w"
    "chain_data s (drop ?i fs) = chain_data s0 (drop ?i fs)" using w by (simp_all add: writer_ok_def)
  have n: "0 < ?n" "off + ?n \<le> length data" "length got + ?n \<le> fw_total_size w" "length (fw_cluster_buffer w) + ?n \<le> cluster_size s0"
    using more_to_do wk(5,7) f(1) by (auto simp: fill_buffer_def)
  have lb: "length ?buf = length (fw_cluster_buffer w) + ?n" using n(2) by simp
  show ?thesis
  proof (cases "length ?buf = cluster_size s0")
    case True
    then have "?i * cluster_size s0 + cluster_size s0 \<le> length fs * cluster_size s0" using f(5) lb n(3) wk(8) by linarith
    then have "Suc ?i * cluster_size s0 \<le> length fs * cluster_size s0" by simp
    moreover have "0 < cluster_size s0" using wk(7) by linarith
    ultimately have i: "?i < length fs" by (simp only: mult_le_cancel2) simp
    obtain s' where s': "write_cluster (fs ! ?i) ?buf s = (Inr (), s')" "vol_ok s' bs" "keeps s0 s' {} (set fs)"
      "disk_bitmap s' bs = disk_bitmap s0 bs"
      "chain_data s' (take (Suc ?i) fs) = chain_data s (take ?i fs) @ ?buf @ replicate (cluster_size s0 - length ?buf) 0"
      "chain_data s' (drop (Suc ?i) fs) = chain_data s0 (drop (Suc ?i) fs)"
      using flush_buffer_ok [OF wk(1,2,3) fs i _ wk(10), of ?buf] True by auto
    let ?w = "w\<lparr>fw_cluster_buffer := [], fw_bytes_written := fw_bytes_written w + ?n, fw_current_cluster_index := ?i + 1\<rparr>"
    have "write_round data off w s = (Inr (off + ?n, ?w), s')"
      using True i s'(1) f(1) wk(4) by (simp add: write_round_def sx_simps Let_def)
    moreover have "writer_ok s0 bs fs (got @ slice_of off (off + ?n) data) ?w s'"
      using s'(2-6) wk(4,5,8,9) n(2,3) i True \<open>0 < cluster_size s0\<close> by (simp add: writer_ok_def)
    ultimately show ?thesis using n(1,2) by (intro exI [of _ "off + ?n"] exI [of _ ?w] exI [of _ s']) simp
  next
    case False
    let ?w = "w\<lparr>fw_cluster_buffer := ?buf, fw_bytes_written := fw_bytes_written w + ?n\<rparr>"
    have "write_round data off w s = (Inr (off + ?n, ?w), s)"
      using False f(1) n(4) lb by (simp add: write_round_def Let_def)
    moreover have "writer_ok s0 bs fs (got @ slice_of off (off + ?n) data) ?w s"
      using wk n(2,3,4) lb False by (simp add: writer_ok_def)
    ultimately show ?thesis using n(1,2) by (intro exI [of _ "off + ?n"] exI [of _ ?w] exI [of _ s]) simp
  qed
qed

lemma fw_write_loop_ok:
  assumes "writer_ok s0 bs fs got w s" and fs: "\<forall>c \<in> set fs. in_heap s0 c" "distinct fs" "set fs \<inter> set bs = {}"
    and "off \<le> length data"
  shows "\<exists>off' w' s'. fw_write_loop data off w s = Some (Inr (off', w'), s') \<and>
    writer_ok s0 bs fs (take (fw_total_size w) (got @ drop off data)) w' s' \<and> fw_total_size w' = fw_total_size w \<and>
    fw_name w' = fw_name w \<and> fw_directory w' = fw_directory w"
  using assms(1,5)
proof (induction "length data - off" arbitrary: off got w s rule: less_induct)
  case less
  show ?case
  proof (cases "off < length data \<and> fw_bytes_written w < fw_total_size w")
    case True
    obtain off' w' s' where r: "write_round data off w s = (Inr (off', w'), s')" "off < off'" "off' \<le> length data"
      "writer_ok s0 bs fs (got @ slice_of off off' data) w' s'" "fw_total_size w' = fw_total_size w"
      "fw_name w' = fw_name w" "fw_directory w' = fw_directory w"
      using write_round_ok [OF less.prems(1) fs, of off data] True by blast
    have "slice_of off off' data @ drop off' data = drop off data"
      using r(2) by (metis append_take_drop_id drop_drop le_add_diff_inverse2 less_imp_le slice_of_def)
    then have e: "(got @ slice_of off off' data) @ drop off' data = got @ drop off data" by simp
    show ?thesis using less.hyps [OF _ r(4,3)] r True unfolding e
      by (subst fw_write_loop.simps) auto
  next
    case False
    have "take (fw_total_size w) (got @ drop off data) = got"
      using False less.prems(2) writer_taken [OF less.prems(1)] by auto
    then show ?thesis using False less.prems(1) by (subst fw_write_loop.simps) auto
  qed
qed

text \<open>A source without read errors and without an empty read delivers its octets, cut as it likes.\<close>

lemma do_stream_write_ok:
  assumes "writer_ok s0 bs fs got w s" and fs: "\<forall>c \<in> set fs. in_heap s0 c" "distinct fs" "set fs \<inter> set bs = {}"
    and "[] \<notin> set chunks"
  shows "\<exists>w' s'. do_stream_write (map Inr chunks) w s = Some (Inr w', s') \<and>
    writer_ok s0 bs fs (take (fw_total_size w) (got @ concat chunks)) w' s' \<and> fw_total_size w' = fw_total_size w \<and>
    fw_name w' = fw_name w \<and> fw_directory w' = fw_directory w"
  using assms(1,5)
proof (induction chunks arbitrary: got w s)
  case Nil
  then show ?case using writer_taken(1) [OF Nil(1)] by simp
next
  case (Cons chunk chunks)
  obtain k w' s' where r: "fw_write chunk w s = Some (Inr (k, w'), s')"
    "writer_ok s0 bs fs (take (fw_total_size w) (got @ chunk)) w' s'" "fw_total_size w' = fw_total_size w"
    "fw_name w' = fw_name w" "fw_directory w' = fw_directory w"
    using fw_write_loop_ok [OF Cons.prems(1) fs, of 0 chunk] by (auto simp: fw_write_def)
  have "take n (take n (got @ chunk) @ rest) = take n (got @ chunk @ rest)" for n and rest :: bytes
    by (simp add: min_def take_append)
  then show ?case using Cons.IH [OF r(2)] Cons.prems(2) r by auto
qed

section \<open>Creating and finishing\<close>

text \<open>What the clusters of a streamed file hold: the octets taken, zeros to the end of the cluster, and in the
  clusters no octet reached whatever was there.\<close>

definition streamed :: "ExfatFs \<Rightarrow> nat list \<Rightarrow> bytes \<Rightarrow> bytes" where
  "streamed s fs got =
     (let n = div_ceil (length got) (cluster_size s)
      in got @ replicate (n * cluster_size s - length got) 0 @ chain_data s (drop n fs))"

lemma div_ceil_split:
  assumes "b < (cs :: nat)"
  shows "div_ceil (i * cs + b) cs = i + (if b = 0 then 0 else 1)"
proof -
  have "(i * cs + b + cs - 1) div cs = i + (b + cs - 1) div cs"
    using assms div_mult_self1 [of cs "b + cs - 1" i] by (simp add: ac_simps)
  moreover have "(b + cs - 1) div cs = (if b = 0 then 0 else 1)"
  proof (cases "b = 0")
    case False
    have "(b + cs - 1) div cs = 1" by (rule div_nat_eqI) (use False assms in auto)
    then show ?thesis using False by simp
  qed (use assms in simp)
  ultimately show ?thesis by (simp add: div_ceil_def)
qed

lemma finish_buffer_ok:
  assumes w: "writer_ok s0 bs fs got w s" and fs: "\<forall>c \<in> set fs. in_heap s0 c" "distinct fs" "set fs \<inter> set bs = {}"
  shows "\<exists>s'. (if fw_cluster_buffer w \<noteq> [] \<and> fw_current_cluster_index w < length (fw_allocated_clusters w)
      then write_cluster (fw_allocated_clusters w ! fw_current_cluster_index w) (fw_cluster_buffer w) else sx_return ()) s = (Inr (), s') \<and>
    vol_ok s' bs \<and> keeps s0 s' {} (set fs) \<and> disk_bitmap s' bs = disk_bitmap s0 bs \<and> chain_data s' fs = streamed s0 fs got"
proof -
  note f = writer_facts [OF w fs(1)]
  let ?i = "fw_current_cluster_index w" and ?buf = "fw_cluster_buffer w" and ?cs = "cluster_size s0"
  have wk: "vol_ok s bs" "keeps s0 s {} (set fs)" "disk_bitmap s bs = disk_bitmap s0 bs" "fw_allocated_clusters w = fs"
    "?i \<le> length fs" "length ?buf < ?cs" "fw_total_size w \<le> length fs * ?cs" "got = chain_data s (take ?i fs) @ ?buf"
    "chain_data s (drop ?i fs) = chain_data s0 (drop ?i fs)" "length got \<le> fw_total_size w" using w writer_taken [OF w]
    by (simp_all add: writer_ok_def)
  have n: "div_ceil (length got) ?cs = ?i + (if ?buf = [] then 0 else 1)"
    unfolding f(5) using div_ceil_split [OF wk(6), of ?i] by simp
  show ?thesis
  proof (cases "?buf = []")
    case True
    have "chain_data s fs = chain_data s (take ?i fs) @ chain_data s (drop ?i fs)" by (metis append_take_drop_id chain_data_simps(3))
    then have "chain_data s fs = got @ chain_data s0 (drop ?i fs)" using True wk(8,9) by simp
    moreover have "length got = ?i * ?cs" using f(5) True by simp
    ultimately show ?thesis using True wk(1,2,3) n by (intro exI [of _ s]) (simp add: streamed_def sx_simps)
  next
    case False
    have "?i * ?cs < length fs * ?cs" using f(5) False wk(7,10) by (metis add_lessD1 length_greater_0_conv less_add_same_cancel1 less_le_trans)
    then have i: "?i < length fs" by simp
    obtain s' where s': "write_cluster (fs ! ?i) ?buf s = (Inr (), s')" "vol_ok s' bs" "keeps s0 s' {} (set fs)"
      "disk_bitmap s' bs = disk_bitmap s0 bs"
      "chain_data s' (take (Suc ?i) fs) = chain_data s (take ?i fs) @ ?buf @ replicate (?cs - length ?buf) 0"
      "chain_data s' (drop (Suc ?i) fs) = chain_data s0 (drop (Suc ?i) fs)"
      using flush_buffer_ok [OF wk(1,2,3) fs i _ wk(9), of ?buf] wk(6) by auto
    have "Suc ?i * ?cs - length got = ?cs - length ?buf" using f(5) by simp
    then have "chain_data s' fs = streamed s0 fs got"
      using s'(5,6) False n wk(8) append_take_drop_id [of "Suc ?i" fs] chain_data_simps(3) [of s' "take (Suc ?i) fs" "drop (Suc ?i) fs"]
      by (simp add: streamed_def)
    then show ?thesis using False i wk(4) s' by auto
  qed
qed

lemma clusters_needed_ceil:
  assumes "0 < cs" and "n + cs \<le> 2 ^ 64"
  shows "clusters_needed n cs = div_ceil n cs"
proof -
  have "n + cs - 1 < 2 ^ 64" using assms by linarith
  then show ?thesis using assms(1) by (simp add: clusters_needed_def div_ceil_def)
qed

text \<open>The clusters are the first free ones.\<close>

lemma claim_clusters_ok:
  assumes ok: "vol_ok s bs" and room: "n \<le> length (free_list s bs)" and fs: "fs = take n (free_list s bs)"
  shows "\<exists>s'. (if n > 0 then sx_bind (allocate_clusters n) read_cluster_chain s else (Inr [], s)) = (Inr fs, s') \<and>
    vol_ok s' bs \<and> keeps s s' (set fs) (set bs) \<and> (fs \<noteq> [] \<longrightarrow> is_chain s' (hd fs) fs) \<and>
    (\<forall>c. in_heap s c \<longrightarrow> is_cluster_allocated (disk_bitmap s' bs) c = (c \<in> set fs \<or> is_cluster_allocated (disk_bitmap s bs) c))"
proof (cases "n = 0")
  case False
  obtain s1 where s1: "allocate_clusters n s = (Inr (hd fs), s1)" "vol_ok s1 bs" "keeps s s1 (set fs) (set bs)" "is_chain s1 (hd fs) fs"
    "\<forall>c. in_heap s c \<longrightarrow> is_cluster_allocated (disk_bitmap s1 bs) c = (c \<in> set fs \<or> is_cluster_allocated (disk_bitmap s bs) c)"
    using allocate_ok [OF ok _ room fs] False by auto
  have r1: "vol_ready s1" using s1(2) by (simp add: vol_ok_def)
  obtain s2 where s2: "read_cluster_chain (hd fs) s1 = (Inr fs, s2)" "recached s1 s2" using read_chain_ok [OF r1 s1(4)] by blast
  note v = recached_views [OF s2(2)]
  have "vol_ok s2 bs" "disk_bitmap s2 bs = disk_bitmap s1 bs" using vol_ok_cached [OF s1(2) s2(2)] by simp_all
  moreover have "keeps s s2 (set fs) (set bs)" using keeps_trans [OF s1(3) v(8)] by simp
  moreover have "is_chain s2 (hd fs) fs" using s1(4) v(10) by simp
  ultimately show ?thesis using False s1(1,5) s2(1) by (auto simp: sx_simps)
qed (use assms in auto)

section \<open>The whole copy\<close>

lemma create_writer_ok:
  assumes ok: "store_ok h s bs cs fss" and valid: "valid_filename name" and small: "n + cluster_size s \<le> 2 ^ 64"
    and new: "file_view h s (dir_live s cs) fss (hx_lower h name) = None"
  obtains (full) e s' where "fw_create h name n s = (Inl e, s')" "store_ok h s' bs cs fss" "e \<noteq> Panicked" "cluster_size s' = cluster_size s"
      "file_view h s' (dir_live s' cs) fss = file_view h s (dir_live s cs) fss" "length (free_list s bs) < div_ceil n (cluster_size s)"
    | (room) fs w s' where "fw_create h name n s = (Inr w, s')" "fs = take (div_ceil n (cluster_size s)) (free_list s bs)"
      "div_ceil n (cluster_size s) \<le> length (free_list s bs)"
      "vol_ok s' bs" "keeps s s' (set fs) (set bs)" "fs \<noteq> [] \<longrightarrow> is_chain s' (hd fs) fs"
      "\<forall>c. in_heap s c \<longrightarrow> is_cluster_allocated (disk_bitmap s' bs) c = (c \<in> set fs \<or> is_cluster_allocated (disk_bitmap s bs) c)"
      "writer_ok s' bs fs [] w s'" "fw_total_size w = n" "fw_name w = name" "fw_directory w = root_directory s"
proof -
  have g: "0 < cluster_size s" using store_facts(2) [OF ok] by (simp add: vol_ready_def geometry_ok_def)
  have need: "clusters_needed n (cluster_size s) = div_ceil n (cluster_size s)" by (rule clusters_needed_ceil [OF g small])
  let ?n = "div_ceil n (cluster_size s)"
  from ok obtain s2 where f: "find_file_entry h name s = (Inr None, s2)" "recached s s2"
    by (cases rule: find_ok [where name = name]) (use new in auto)
  note r2 = store_recached [OF ok f(2)] and v = recached_views [OF f(2)]
  have k2: "keeps s s2 {} {}" using v(8) .
  have "root_room s bs (root_directory s) cs" using ok by (simp add: store_ok_def)
  then have fl: "free_list s2 bs = free_list s bs" using root_room_recached(2) [OF _ f(2)] by simp
  have bm: "disk_bitmap s2 bs = disk_bitmap s bs" using vol_ok_cached(2) [OF store_facts(1) [OF ok] f(2)] .
  have ok2: "vol_ok s2 bs" by (rule store_facts(1) [OF r2(1)])
  let ?claim = "if ?n > 0 then sx_bind (allocate_clusters ?n) read_cluster_chain s2 else (Inr [], s2)"
  let ?w = "\<lambda>fs. \<lparr>fw_name = name, fw_directory = root_directory s, fw_total_size = n, fw_allocated_clusters = fs,
    fw_current_cluster_index = 0, fw_cluster_buffer = [], fw_bytes_written = 0\<rparr>"
  have run: "fw_create h name n s = (case ?claim of (Inl e, t) \<Rightarrow> (Inl e, t) | (Inr fs, t) \<Rightarrow> (Inr (?w fs), t))"
    using valid f(1) need v(4)
    by (auto simp: fw_create_def create_in_directory_def find_file_entry_def sx_simps split: prod.splits sum.splits)
  show thesis
  proof (cases "?n \<le> length (free_list s bs)")
    case True
    let ?fs = "take ?n (free_list s2 bs)"
    have le: "?n \<le> length (free_list s2 bs)" using True fl by simp
    obtain s3 where s3: "?claim = (Inr ?fs, s3)" "vol_ok s3 bs" "keeps s2 s3 (set ?fs) (set bs)" "?fs \<noteq> [] \<longrightarrow> is_chain s3 (hd ?fs) ?fs"
      "\<forall>c. in_heap s2 c \<longrightarrow> is_cluster_allocated (disk_bitmap s3 bs) c = (c \<in> set ?fs \<or> is_cluster_allocated (disk_bitmap s2 bs) c)"
      using claim_clusters_ok [OF ok2 le refl] by blast
    have k3: "keeps s s3 (set ?fs) (set bs)" using keeps_trans [OF k2 s3(3)] by simp
    have "n \<le> length ?fs * cluster_size s3" using div_ceil_enough [OF g] le keepsD(3) [OF k3] by simp
    then have "writer_ok s3 bs ?fs [] (?w ?fs) s3" using s3(2) g keepsD(3) [OF k3] by (simp add: writer_ok_def)
    then show thesis using room [of "?w ?fs" s3 ?fs] run s3 k3 True fl bm v(3) by simp
  next
    case False
    then have n: "0 < ?n" by simp
    obtain e s3 where s3: "find_free_clusters ?n s2 = (Inl e, s3)" "e \<noteq> Panicked" "vol_ok s3 bs" "keeps s2 s3 {} {}"
      "disk_bitmap s3 bs = disk_bitmap s2 bs" using find_free_ok [OF ok2 n] False fl by auto
    have "?claim = (Inl e, s3)" using s3(1) n by (simp add: allocate_clusters_def sx_simps)
    note m = store_mono [OF r2(1) s3(4,3)]
    show thesis using full [of e s3] run \<open>?claim = (Inl e, s3)\<close> m s3(2,5) r2 False keepsD(3) [OF s3(4)] v(4) by simp
  qed
qed

lemma copy_in_ok:
  assumes ok: "store_ok h s bs cs fss" and name: "storable_name name" and valid: "valid_filename name"
    and small: "n + cluster_size s \<le> 2 ^ 64" and src: "[] \<notin> set chunks"
    and new: "file_view h s (dir_live s cs) fss (hx_lower h name) = None"
    and room: "length cs < div_ceil MAX_DIRECTORY_SIZE (cluster_size s)"
  shows "\<exists>r s' cs' fss'. copy_in h (fw_create h name n) (map Inr chunks) s = Some (r, s') \<and> store_ok h s' bs cs' fss' \<and>
    length cs' \<le> length cs + 1 \<and> r \<noteq> Inl Panicked \<and> cluster_size s' = cluster_size s \<and>
    (case r of
       Inl _ \<Rightarrow> length (free_list s bs) \<le> div_ceil n (cluster_size s) \<and>
         file_view h s' (dir_live s' cs') fss' = file_view h s (dir_live s cs) fss
     | Inr _ \<Rightarrow> file_view h s' (dir_live s' cs') fss' = (file_view h s (dir_live s cs) fss)(hx_lower h name \<mapsto>
         take n (streamed s (take (div_ceil n (cluster_size s)) (free_list s bs)) (take n (concat chunks)))))"
  using ok valid small new
proof (cases rule: create_writer_ok)
  case (full e s')
  then show ?thesis by (intro exI [of _ "Inl e"] exI [of _ s'] exI [of _ cs] exI [of _ fss]) (simp add: copy_in_def)
next
  case (room fs w s1)
  have g: "0 < cluster_size s" using store_facts(2) [OF ok] by (simp add: vol_ready_def geometry_ok_def)
  have fsfree: "set fs \<subseteq> set (free_list s bs)" using room(2) set_take_subset by metis
  then have fnu: "\<forall>c \<in> set fs. in_heap s c \<and> \<not> is_cluster_allocated (disk_bitmap s bs) c" using free_list_facts(2) by blast
  have h1: "\<forall>c \<in> set fs. in_heap s1 c" using fnu keeps_in_heap [OF room(5)] by simp
  have dfs: "distinct fs" using room(2) free_list_facts(1) distinct_take by metis
  have fbs: "set fs \<inter> set bs = {}" using fnu store_facts(1) [OF ok] by (auto simp: vol_ok_def)
  have lf: "length fs = div_ceil n (cluster_size s)" using room(2,3) by simp
  obtain w2 s2 where s2: "do_stream_write (map Inr chunks) w s1 = Some (Inr w2, s2)"
    "writer_ok s1 bs fs (take n (concat chunks)) w2 s2" "fw_total_size w2 = n" "fw_name w2 = name" "fw_directory w2 = root_directory s"
    using do_stream_write_ok [OF room(8) h1 dfs fbs src] room(9,10,11) by auto
  have afs: "fw_allocated_clusters w2 = fs" using s2(2) by (simp add: writer_ok_def)
  obtain s3 where s3: "(if fw_cluster_buffer w2 \<noteq> [] \<and> fw_current_cluster_index w2 < length (fw_allocated_clusters w2)
      then write_cluster (fw_allocated_clusters w2 ! fw_current_cluster_index w2) (fw_cluster_buffer w2) else sx_return ()) s2 = (Inr (), s3)"
    "vol_ok s3 bs" "keeps s1 s3 {} (set fs)" "disk_bitmap s3 bs = disk_bitmap s1 bs" "chain_data s3 fs = streamed s1 fs (take n (concat chunks))"
    using finish_buffer_ok [OF s2(2) h1 dfs fbs] by blast
  have k3: "keeps s s3 (set fs) (set fs \<union> set bs)" using keeps_trans [OF room(5) s3(3)] by (simp add: Un_commute)
  have ch: "fs \<noteq> [] \<longrightarrow> is_chain s3 (hd fs) fs" using room(6) is_chain_keeps [OF s3(3)] by simp
  have same: "streamed s1 fs got = streamed s fs got" for got
  proof -
    have "chain_data s1 (drop j fs) = chain_data s (drop j fs)" for j
      using fnu fbs by (intro chain_data_keeps [OF room(5)]) (auto dest: in_set_dropD)
    then show ?thesis using keepsD(3) [OF room(5)] by (simp add: streamed_def Let_def)
  qed
  let ?first = "case fs of [] \<Rightarrow> 0 | first # _ \<Rightarrow> first"
  have n0: "n = 0 \<longleftrightarrow> fs = []" using lf g div_ceil_pos [of n "cluster_size s"] by (cases "n = 0") (auto simp: div_ceil_def)
  have f32: "?first < 2 ^ 32"
  proof (cases fs)
    case (Cons c cs')
    then have "in_heap s c" using fnu by simp
    then show ?thesis using Cons store_facts(2) [OF ok] by (auto simp: in_heap_def vol_ready_def geometry_ok_def)
  qed simp
  have al: "\<forall>c. in_heap s c \<longrightarrow> is_cluster_allocated (disk_bitmap s3 bs) c = (c \<in> set fs \<or> is_cluster_allocated (disk_bitmap s bs) c)"
    using room(7) s3(4) by simp
  have len: "n < 2 ^ 64" using small g by linarith
  have "fs = take (length fs) (free_list s bs)" using room(2,3) by simp
  moreover have "length fs = (if n = 0 then 0 else div_ceil n (cluster_size s))" using lf n0 by (cases fs) simp_all
  moreover have "n = 0 \<longrightarrow> ?first = 0" "n \<noteq> 0 \<longrightarrow> is_chain s3 ?first fs" using n0 ch by (cases fs; simp)+
  ultimately have shape: "fs = take (length fs) (free_list s bs)" "length fs = (if n = 0 then 0 else div_ceil n (cluster_size s))"
    "n = 0 \<longrightarrow> ?first = 0" "n \<noteq> 0 \<longrightarrow> is_chain s3 ?first fs" by blast+
  obtain r s4 cs' fss' where s4: "create_entry_in_directory h (root_directory s) name ?first n False s3 = (r, s4)"
    "store_ok h s4 bs cs' fss'" "length cs' \<le> length cs + 1" "r \<noteq> Inl Panicked" "cluster_size s4 = cluster_size s"
    "case r of
       Inl _ \<Rightarrow> length (free_list s bs) \<le> div_ceil n (cluster_size s) \<and>
         file_view h s4 (dir_live s4 cs') fss' = file_view h s (dir_live s cs) fss
     | Inr _ \<Rightarrow> file_view h s4 (dir_live s4 cs') fss' = (file_view h s (dir_live s cs) fss)(hx_lower h name \<mapsto> take n (chain_data s3 fs))"
    using insert_file_ok [OF ok name len new assms(7) s3(2) shape(1) k3 f32 shape(2,3,4) al] by blast
  have fin: "fw_finish h w2 s2 = (case r of Inl e \<Rightarrow> Inl e | Inr _ \<Rightarrow> Inr (), s4)"
    using s3(1) s4(1) s2(3,4,5) unfolding fw_finish_def afs by (cases r) (simp_all add: sx_simps)
  have "copy_in h (fw_create h name n) (map Inr chunks) s = Some (case r of Inl e \<Rightarrow> Inl e | Inr _ \<Rightarrow> Inr (), s4)"
    using room(1) s2(1) fin by (simp add: copy_in_def)
  then show ?thesis using s4 s3(5) same room(2) by (cases r) auto
qed

section \<open>The transaction\<close>

lemma begin_of_transaction:
  assumes "\<And>e. transaction ((\<lambda>t. (Inl e, t)) :: unit fx) s = (Inl e, s1)"
  obtains w where "begin_write_transaction s = (Inr w, s1)"
proof (cases "begin_write_transaction s")
  case (Pair r t)
  show thesis
  proof (cases r)
    case (Inl e)
    have "transaction ((\<lambda>t. (Inl e', t)) :: unit fx) s = (Inl e, t)" for e' using Pair Inl by (simp add: transaction_def sx_simps)
    then show thesis using assms [of "FsIo []"] assms [of Panicked] by simp
  next
    case (Inr w)
    then have "transaction ((\<lambda>t. (Inl Panicked, t)) :: unit fx) s = (Inl Panicked, t)"
      using Pair by (simp add: transaction_def finish_write_transaction_def sx_simps)
    then show thesis using that [of w] assms [of Panicked] Pair Inr by simp
  qed
qed

lemma stream_file_ok:
  assumes ok: "store_ok h s bs cs fss" and name: "storable_name name" and valid: "valid_filename name"
    and small: "n + cluster_size s \<le> 2 ^ 64" and src: "[] \<notin> set chunks"
    and new: "file_view h s (dir_live s cs) fss (hx_lower h name) = None"
    and room: "length cs < div_ceil MAX_DIRECTORY_SIZE (cluster_size s)"
    and free: "div_ceil n (cluster_size s) < length (free_list s bs)"
  obtains s' cs' fss' where "write_file_from_reader h name (map Inr chunks) n s = Some (Inr (), s')"
    "store_ok h s' bs cs' fss'" "length cs' \<le> length cs + 1"
    "file_view h s' (dir_live s' cs') fss' = (file_view h s (dir_live s cs) fss)(hx_lower h name \<mapsto>
       take n (streamed s (take (div_ceil n (cluster_size s)) (free_list s bs)) (take n (concat chunks))))"
proof -
  obtain s1 where s1: "store_ok h s1 bs cs fss" "dir_live s1 cs = dir_live s cs" "free_list s1 bs = free_list s bs"
    "file_view h s1 (dir_live s1 cs) fss = file_view h s (dir_live s cs) fss" "cluster_size s1 = cluster_size s" "keeps s s1 {0} {}"
    and fails: "\<And>(body :: unit fx) e s2. body s1 = (Inl e, s2) \<Longrightarrow> transaction body s = (Inl e, s2)"
    and works: "\<And>(body :: unit fx) v s2 cs' fss'. body s1 = (Inr v, s2) \<Longrightarrow> store_ok h s2 bs cs' fss' \<Longrightarrow>
        \<exists>s3. transaction body s = (Inr v, s3) \<and> store_ok h s3 bs cs' fss' \<and> cluster_size s3 = cluster_size s2 \<and> free_list s3 bs = free_list s2 bs \<and>
          file_view h s3 (dir_live s3 cs') fss' = file_view h s2 (dir_live s2 cs') fss'"
    by (rule store_transaction [OF ok]) (rule that)
  obtain w where b: "begin_write_transaction s = (Inr w, s1)" by (rule begin_of_transaction [OF fails]) simp
  let ?body = "copy_in h (fw_create h name n) (map Inr chunks)" and ?fs = "take (div_ceil n (cluster_size s)) (free_list s bs)"
  have heap: "\<forall>c \<in> set ?fs. in_heap s c" using free_list_facts(2) by (auto dest: in_set_takeD)
  have "chain_data s1 (drop j ?fs) = chain_data s (drop j ?fs)" for j
    using heap by (intro chain_data_keeps [OF s1(6)]) (auto dest: in_set_dropD)
  then have same: "streamed s1 ?fs got = streamed s ?fs got" for got using s1(5) by (simp add: streamed_def Let_def)
  obtain r s2 cs' fss' where r: "?body s1 = Some (r, s2)" "store_ok h s2 bs cs' fss'" "length cs' \<le> length cs + 1"
    "case r of
       Inl _ \<Rightarrow> length (free_list s1 bs) \<le> div_ceil n (cluster_size s1) \<and>
         file_view h s2 (dir_live s2 cs') fss' = file_view h s1 (dir_live s1 cs) fss
     | Inr _ \<Rightarrow> file_view h s2 (dir_live s2 cs') fss' = (file_view h s1 (dir_live s1 cs) fss)(hx_lower h name \<mapsto>
         take n (streamed s1 (take (div_ceil n (cluster_size s1)) (free_list s1 bs)) (take n (concat chunks))))"
    using copy_in_ok [OF s1(1) name valid _ src, of n] small new room s1(4,5) by auto
  have ri: "r = Inr ()" using r(4) free s1(3,5) by (cases r) auto
  let ?b = "\<lambda>t. case ?body t of Some x \<Rightarrow> x | None \<Rightarrow> (Inl Panicked, t)"
  have b1: "?b s1 = (Inr (), s2)" using r(1) ri by simp
  obtain s3 where s3: "transaction ?b s = (Inr (), s3)" "store_ok h s3 bs cs' fss'"
    "file_view h s3 (dir_live s3 cs') fss' = file_view h s2 (dir_live s2 cs') fss'"
    using works [of ?b, OF b1 r(2)] by blast
  have "write_file_from_reader h name (map Inr chunks) n s = Some (transaction ?b s)"
    using b r(1) by (simp add: write_file_from_reader_def stream_transaction_def transaction_def sx_simps)
  then show thesis using that [of s3 cs' fss'] s3 r(3,4) ri s1(3,4,5) same by simp
qed

text \<open>C5: Streaming a file in, its octets cut in any way, stores what writing it at once stores.\<close>

theorem streamed_file_stored:
  assumes "store_ok h s bs cs fss" and "storable_name name" and "valid_filename name" and "length (concat chunks) + cluster_size s \<le> 2 ^ 64"
    and "[] \<notin> set chunks" and "file_view h s (dir_live s cs) fss (hx_lower h name) = None"
    and "length cs < div_ceil MAX_DIRECTORY_SIZE (cluster_size s)"
    and "div_ceil (length (concat chunks)) (cluster_size s) < length (free_list s bs)"
  shows "\<exists>s1 cs1 fss1 s2 cs2 fss2.
    write_file_from_reader h name (map Inr chunks) (length (concat chunks)) s = Some (Inr (), s1) \<and> store_ok h s1 bs cs1 fss1 \<and>
    write_file h name (concat chunks) s = (Inr (), s2) \<and> store_ok h s2 bs cs2 fss2 \<and>
    file_view h s1 (dir_live s1 cs1) fss1 = file_view h s2 (dir_live s2 cs2) fss2 \<and>
    file_view h s1 (dir_live s1 cs1) fss1 = (file_view h s (dir_live s cs) fss)(hx_lower h name \<mapsto> concat chunks)"
proof -
  have "take (length (concat chunks)) (streamed s fs (concat chunks)) = concat chunks" for fs by (simp add: streamed_def Let_def)
  moreover obtain s1 cs1 fss1 where "write_file_from_reader h name (map Inr chunks) (length (concat chunks)) s = Some (Inr (), s1)"
    "store_ok h s1 bs cs1 fss1"
    "file_view h s1 (dir_live s1 cs1) fss1 = (file_view h s (dir_live s cs) fss)(hx_lower h name \<mapsto>
       take (length (concat chunks)) (streamed s (take (div_ceil (length (concat chunks)) (cluster_size s)) (free_list s bs))
         (take (length (concat chunks)) (concat chunks))))"
    by (rule stream_file_ok [OF assms]) (rule that)
  moreover have len: "length (concat chunks) < 2 ^ 64"
    using assms(4) store_facts(2) [OF assms(1)] by (simp add: vol_ready_def geometry_ok_def)
  moreover obtain r s2 cs2 fss2 where w: "write_file h name (concat chunks) s = (r, s2)" "store_ok h s2 bs cs2 fss2"
    "case r of
       Inl _ \<Rightarrow> (valid_filename name \<and> file_view h s (dir_live s cs) fss (hx_lower h name) = None \<longrightarrow>
           length (free_list s bs) \<le> div_ceil (length (concat chunks)) (cluster_size s)) \<and>
         file_view h s2 (dir_live s2 cs2) fss2 = file_view h s (dir_live s cs) fss
     | Inr _ \<Rightarrow> file_view h s (dir_live s cs) fss (hx_lower h name) = None \<and>
         file_view h s2 (dir_live s2 cs2) fss2 = (file_view h s (dir_live s cs) fss)(hx_lower h name \<mapsto> concat chunks)"
    using write_file_ok [OF assms(1,2) len assms(7)] by blast
  moreover have "r = Inr ()" using w(3) assms(3,6,8) by (cases r) auto
  ultimately show ?thesis unfolding take_all [OF order_refl]
    by (intro exI [of _ s1] exI [of _ cs1] exI [of _ fss1] exI [of _ s2] exI [of _ cs2] exI [of _ fss2]) simp
qed

theorem streamed_file_stored_witness:
  "\<exists>s1 s2. write_file_from_reader plain_host [97] [Inr [1], Inr [2, 3]] 3 small_fs = Some (Inr (), s1) \<and>
    write_file plain_host [97] [1, 2, 3] small_fs = (Inr (), s2)"
proof -
  let ?c = "[[1], [2, 3]] :: bytes list"
  have e: "length [1, 2, 3 :: u8] = 3" and c: "concat ?c = [1, 2, 3]" and m: "map Inr ?c = [Inr [1], Inr [2, 3]]" by simp_all
  have "length (concat ?c) + cluster_size small_fs \<le> 2 ^ 64" "[] \<notin> set ?c"
    "file_view plain_host small_fs (dir_live small_fs [3]) [] (hx_lower plain_host [97]) = None"
    "length [3 :: nat] < div_ceil MAX_DIRECTORY_SIZE (cluster_size small_fs)"
    "div_ceil (length (concat ?c)) (cluster_size small_fs) < length (free_list small_fs [2])"
    by (simp_all add: small_live view_Nil small_free div_ceil_def MAX_DIRECTORY_SIZE_def del: dir_live.simps)
  from streamed_file_stored [OF small_store [of plain_host] small_name this] show ?thesis unfolding c e m by blast
qed

text \<open>When the source ends before the announced length, the copy still answers Ok, and the file has the announced
  length: its tail shows whatever the clusters held before, such as a deleted file.\<close>

theorem short_source_shows_old_octets:
  assumes "store_ok h s bs cs fss" and "storable_name name" and "valid_filename name" and "n + cluster_size s \<le> 2 ^ 64"
    and "file_view h s (dir_live s cs) fss (hx_lower h name) = None"
    and "length cs < div_ceil MAX_DIRECTORY_SIZE (cluster_size s)" and "div_ceil n (cluster_size s) < length (free_list s bs)"
  shows "\<exists>s' s''. write_file_from_reader h name [] n s = Some (Inr (), s') \<and>
    read_file h name s' = (Inr (take n (chain_data s (take (div_ceil n (cluster_size s)) (free_list s bs)))), s'')"
proof -
  obtain s' cs' fss' where "write_file_from_reader h name (map Inr []) n s = Some (Inr (), s')" "store_ok h s' bs cs' fss'"
    "file_view h s' (dir_live s' cs') fss' = (file_view h s (dir_live s cs) fss)(hx_lower h name \<mapsto>
       take n (streamed s (take (div_ceil n (cluster_size s)) (free_list s bs)) (take n (concat []))))"
    by (rule stream_file_ok [OF assms(1-4) _ assms(5-7), of "[]"]) simp_all
  moreover have "div_ceil 0 (cluster_size s) = 0"
    using store_facts(2) [OF assms(1)] by (simp add: div_ceil_def vol_ready_def geometry_ok_def)
  ultimately show ?thesis using read_file_ok [of h s' bs cs' fss' name] by (auto simp: streamed_def)
qed

theorem short_source_shows_old_octets_witness:
  "\<exists>s' s''. write_file_from_reader plain_host [97] [] 5 small_fs = Some (Inr (), s') \<and>
    read_file plain_host [97] s' = (Inr (take 5 (cluster_at small_fs 4)), s'')"
  using short_source_shows_old_octets [OF small_store [of plain_host] small_name, of 5]
  by (auto simp: small_live view_Nil small_free div_ceil_def MAX_DIRECTORY_SIZE_def take_append simp del: dir_live.simps)

section \<open>Overwriting\<close>

text \<open>C37: \<open>write_file_overwrite\<close> deletes the old file before it looks for space: when the new data does not fit,
  the call fails and the old file is gone; the error leaves the volume marked dirty.\<close>

theorem overwrite_can_lose_file:
  assumes ok: "store_ok h s bs cs fss" and valid: "valid_filename name"
    and old: "file_view h s (dir_live s cs) fss (hx_lower h name) = Some old"
    and big: "length (free_list s bs) + div_ceil (length old) (cluster_size s) < div_ceil (length data) (cluster_size s)"
  shows "\<exists>e s' fss'. write_file_overwrite h name data True s = (Inl e, s') \<and> store_ok h s' bs cs fss' \<and>
    file_view h s' (dir_live s' cs) fss' = (file_view h s (dir_live s cs) fss)(hx_lower h name := None)"
proof -
  obtain s1 where s1: "store_ok h s1 bs cs fss" "dir_live s1 cs = dir_live s cs" "free_list s1 bs = free_list s bs"
    "file_view h s1 (dir_live s1 cs) fss = file_view h s (dir_live s cs) fss" "cluster_size s1 = cluster_size s" "keeps s s1 {0} {}"
    and fails: "\<And>(body :: unit fx) e s2. body s1 = (Inl e, s2) \<Longrightarrow> transaction body s = (Inl e, s2)"
    by (rule store_transaction [OF ok]) (rule that)
  obtain loc s2 where f: "find_file_entry h name s1 = (Inr (Some loc), s2)" "recached s1 s2"
    using s1(1) by (cases rule: find_ok [where name = name]) (use old s1(4) in auto)
  note r2 = store_recached [OF s1(1) f(2)]
  have "root_room s1 bs (root_directory s1) cs" using s1(1) by (simp add: store_ok_def)
  then have fl: "free_list s2 bs = free_list s bs" using root_room_recached(2) [OF _ f(2)] s1(3) by simp
  obtain s3 fss' where s3: "delete_file h name s2 = (Inr (), s3)" "store_ok h s3 bs cs fss'" "cluster_size s3 = cluster_size s2"
    "length (free_list s3 bs) = length (free_list s2 bs) + div_ceil (length old) (cluster_size s2)"
    "file_view h s3 (dir_live s3 cs) fss' = (file_view h s2 (dir_live s2 cs) fss)(hx_lower h name := None)"
    using delete_file_ok [OF r2(1), of name] r2(3) s1(4) old by auto
  have cz: "cluster_size s3 = cluster_size s" "cluster_size s2 = cluster_size s" using s3(3) s1(5) recached_views(4) [OF f(2)] by simp_all
  then have full: "length (free_list s3 bs) < div_ceil (length data) (cluster_size s3)" using s3(4) fl big by simp
  obtain e s4 where s4: "allocate_data data s3 = (Inl e, s4)" "vol_ok s4 bs" "keeps s3 s4 {} {}" "disk_bitmap s4 bs = disk_bitmap s3 bs"
    using allocate_data_full [OF store_facts(1) [OF s3(2)] full] by blast
  have "write_file_overwrite h name data True s = (Inl e, s4)"
    unfolding write_file_overwrite_def
    by (rule fails) (use valid f(1) s3(1) s4(1) in \<open>simp add: sx_simps write_file_data_and_entry_def\<close>)
  moreover note store_mono [OF s3(2) s4(3,2)]
  ultimately show ?thesis using s3(5) r2(3) s1(4) s4(4) by (intro exI [of _ e] exI [of _ s4] exI [of _ fss']) simp
qed

theorem overwrite_can_lose_file_witness:
  "\<exists>s1 e s2 s3. write_file plain_host [97] [1, 2, 3] small_fs = (Inr (), s1) \<and>
    write_file_overwrite plain_host [97] (replicate (2 ^ 43) 0) True s1 = (Inl e, s2) \<and>
    read_file plain_host [97] s2 = (Inl (fs_text ''File '{}' not found'' [97]), s3)"
proof -
  have len: "length [1, 2, 3 :: u8] < 2 ^ 64" and room: "length [3 :: nat] < div_ceil MAX_DIRECTORY_SIZE (cluster_size small_fs)"
    by (simp_all add: div_ceil_def MAX_DIRECTORY_SIZE_def)
  obtain r s1 cs fss where s1: "write_file plain_host [97] [1, 2, 3] small_fs = (r, s1)" "store_ok plain_host s1 [2] cs fss"
    "cluster_size s1 = cluster_size small_fs"
    "case r of
       Inl _ \<Rightarrow> (valid_filename [97] \<and> file_view plain_host small_fs (dir_live small_fs [3]) [] (hx_lower plain_host [97]) = None \<longrightarrow>
           length (free_list small_fs [2]) \<le> div_ceil (length [1, 2, 3 :: u8]) (cluster_size small_fs)) \<and>
         file_view plain_host s1 (dir_live s1 cs) fss = file_view plain_host small_fs (dir_live small_fs [3]) []
     | Inr _ \<Rightarrow> file_view plain_host small_fs (dir_live small_fs [3]) [] (hx_lower plain_host [97]) = None \<and>
         file_view plain_host s1 (dir_live s1 cs) fss = (file_view plain_host small_fs (dir_live small_fs [3]) [])(hx_lower plain_host [97] \<mapsto> [1, 2, 3])"
    using write_file_ok [OF small_store [of plain_host] small_name(1) len room] by blast
  have "r = Inr ()" using s1(4) small_name(2) by (cases r) (auto simp: small_view small_free div_ceil_def simp del: dir_live.simps)
  then have view: "file_view plain_host s1 (dir_live s1 cs) fss (hx_lower plain_host [97]) = Some [1, 2, 3]" using s1(4) by simp
  have "geometry_ok s1" using store_facts(2) [OF s1(2)] by (simp add: vol_ready_def)
  moreover have "length (free_list s1 [2]) \<le> length [2..<cluster_count s1 + 2]" unfolding free_list_def by (rule length_filter_le)
  ultimately have "length (free_list s1 [2]) < 2 ^ 32" unfolding geometry_ok_def length_upt by simp
  then have big: "length (free_list s1 [2]) + div_ceil (length [1, 2, 3 :: u8]) (cluster_size s1) < div_ceil (length (replicate (2 ^ 43) (0 :: u8))) (cluster_size s1)"
    using s1(3) by (simp add: div_ceil_def)
  obtain e s2 fss' where "write_file_overwrite plain_host [97] (replicate (2 ^ 43) 0) True s1 = (Inl e, s2)" "store_ok plain_host s2 [2] cs fss'"
    "file_view plain_host s2 (dir_live s2 cs) fss' = (file_view plain_host s1 (dir_live s1 cs) fss)(hx_lower plain_host [97] := None)"
    using overwrite_can_lose_file [OF s1(2) small_name(2) view big] by blast
  then show ?thesis using s1(1) \<open>r = Inr ()\<close> read_file_ok [of plain_host s2 "[2]" cs fss' "[97]"] by auto
qed

end
