(* ===== verification/Keyboard.thy ===== *)
theory Keyboard
  imports Prelude
begin

text \<open>
  The canonical keyboard of \<open>hid/keyboard.rs\<close>: the enum \<open>CanonicalKey\<close> with its
  HID usage codes in both directions, and the modifier keys with their bit of the
  boot report.  The 117 variants are declared in the order of the source, in eight
  consecutive groups, and \<open>CanonicalKey\<close> is the disjoint union of the groups.
  The lemmas show that the two code tables are inverse to each other, that the
  modifiers are exactly the keys of the usage range \<open>0xE0..0xE7\<close>, and that each
  modifier owns one bit of the modifier octet.
\<close>

section \<open>Keys\<close>

datatype LetterKey =
    KeyA | KeyB | KeyC | KeyD | KeyE | KeyF | KeyG | KeyH | KeyI | KeyJ | KeyK | KeyL | KeyM
    | KeyN | KeyO | KeyP | KeyQ | KeyR | KeyS | KeyT | KeyU | KeyV | KeyW | KeyX | KeyY | KeyZ

datatype DigitKey =
    Digit1 | Digit2 | Digit3 | Digit4 | Digit5 | Digit6 | Digit7 | Digit8 | Digit9 | Digit0

datatype EditKey =
    Enter | Escape | Backspace | Tab | Space | Minus | Equal | BracketLeft | BracketRight
    | Backslash | Semicolon | Quote | Backquote | Comma | Period | Slash | CapsLock

datatype FnKey =
    F1 | F2 | F3 | F4 | F5 | F6 | F7 | F8 | F9 | F10 | F11 | F12

datatype NavKey =
    PrintScreen | ScrollLock | Pause | Insert | Home | PageUp | Delete | End | PageDown
    | ArrowRight | ArrowLeft | ArrowDown | ArrowUp

datatype NumpadKey =
    NumLock | NumpadDivide | NumpadMultiply | NumpadSubtract | NumpadAdd | NumpadEnter | Numpad1
    | Numpad2 | Numpad3 | Numpad4 | Numpad5 | Numpad6 | Numpad7 | Numpad8 | Numpad9 | Numpad0
    | NumpadDecimal | IntlBackslash | ContextMenu

datatype FnXKey =
    F13 | F14 | F15 | F16 | F17 | F18 | F19 | F20 | F21 | F22 | F23 | F24

datatype ModifierKey =
    ControlLeft | ShiftLeft | AltLeft | MetaLeft | ControlRight | ShiftRight | AltRight
    | MetaRight

datatype CanonicalKey =
    Letter LetterKey | Digit DigitKey | Edit EditKey | Fn FnKey | Nav NavKey | Numpad NumpadKey
    | FnX FnXKey | Modifier ModifierKey

primrec letter_usage :: "LetterKey \<Rightarrow> u8" where
  "letter_usage KeyA = 0x04"
| "letter_usage KeyB = 0x05"
| "letter_usage KeyC = 0x06"
| "letter_usage KeyD = 0x07"
| "letter_usage KeyE = 0x08"
| "letter_usage KeyF = 0x09"
| "letter_usage KeyG = 0x0A"
| "letter_usage KeyH = 0x0B"
| "letter_usage KeyI = 0x0C"
| "letter_usage KeyJ = 0x0D"
| "letter_usage KeyK = 0x0E"
| "letter_usage KeyL = 0x0F"
| "letter_usage KeyM = 0x10"
| "letter_usage KeyN = 0x11"
| "letter_usage KeyO = 0x12"
| "letter_usage KeyP = 0x13"
| "letter_usage KeyQ = 0x14"
| "letter_usage KeyR = 0x15"
| "letter_usage KeyS = 0x16"
| "letter_usage KeyT = 0x17"
| "letter_usage KeyU = 0x18"
| "letter_usage KeyV = 0x19"
| "letter_usage KeyW = 0x1A"
| "letter_usage KeyX = 0x1B"
| "letter_usage KeyY = 0x1C"
| "letter_usage KeyZ = 0x1D"

primrec digit_usage :: "DigitKey \<Rightarrow> u8" where
  "digit_usage Digit1 = 0x1E"
| "digit_usage Digit2 = 0x1F"
| "digit_usage Digit3 = 0x20"
| "digit_usage Digit4 = 0x21"
| "digit_usage Digit5 = 0x22"
| "digit_usage Digit6 = 0x23"
| "digit_usage Digit7 = 0x24"
| "digit_usage Digit8 = 0x25"
| "digit_usage Digit9 = 0x26"
| "digit_usage Digit0 = 0x27"

primrec edit_usage :: "EditKey \<Rightarrow> u8" where
  "edit_usage Enter = 0x28"
| "edit_usage Escape = 0x29"
| "edit_usage Backspace = 0x2A"
| "edit_usage Tab = 0x2B"
| "edit_usage Space = 0x2C"
| "edit_usage Minus = 0x2D"
| "edit_usage Equal = 0x2E"
| "edit_usage BracketLeft = 0x2F"
| "edit_usage BracketRight = 0x30"
| "edit_usage Backslash = 0x31"
| "edit_usage Semicolon = 0x33"
| "edit_usage Quote = 0x34"
| "edit_usage Backquote = 0x35"
| "edit_usage Comma = 0x36"
| "edit_usage Period = 0x37"
| "edit_usage Slash = 0x38"
| "edit_usage CapsLock = 0x39"

primrec fn_usage :: "FnKey \<Rightarrow> u8" where
  "fn_usage F1 = 0x3A"
| "fn_usage F2 = 0x3B"
| "fn_usage F3 = 0x3C"
| "fn_usage F4 = 0x3D"
| "fn_usage F5 = 0x3E"
| "fn_usage F6 = 0x3F"
| "fn_usage F7 = 0x40"
| "fn_usage F8 = 0x41"
| "fn_usage F9 = 0x42"
| "fn_usage F10 = 0x43"
| "fn_usage F11 = 0x44"
| "fn_usage F12 = 0x45"

primrec nav_usage :: "NavKey \<Rightarrow> u8" where
  "nav_usage PrintScreen = 0x46"
| "nav_usage ScrollLock = 0x47"
| "nav_usage Pause = 0x48"
| "nav_usage Insert = 0x49"
| "nav_usage Home = 0x4A"
| "nav_usage PageUp = 0x4B"
| "nav_usage Delete = 0x4C"
| "nav_usage End = 0x4D"
| "nav_usage PageDown = 0x4E"
| "nav_usage ArrowRight = 0x4F"
| "nav_usage ArrowLeft = 0x50"
| "nav_usage ArrowDown = 0x51"
| "nav_usage ArrowUp = 0x52"

primrec numpad_usage :: "NumpadKey \<Rightarrow> u8" where
  "numpad_usage NumLock = 0x53"
| "numpad_usage NumpadDivide = 0x54"
| "numpad_usage NumpadMultiply = 0x55"
| "numpad_usage NumpadSubtract = 0x56"
| "numpad_usage NumpadAdd = 0x57"
| "numpad_usage NumpadEnter = 0x58"
| "numpad_usage Numpad1 = 0x59"
| "numpad_usage Numpad2 = 0x5A"
| "numpad_usage Numpad3 = 0x5B"
| "numpad_usage Numpad4 = 0x5C"
| "numpad_usage Numpad5 = 0x5D"
| "numpad_usage Numpad6 = 0x5E"
| "numpad_usage Numpad7 = 0x5F"
| "numpad_usage Numpad8 = 0x60"
| "numpad_usage Numpad9 = 0x61"
| "numpad_usage Numpad0 = 0x62"
| "numpad_usage NumpadDecimal = 0x63"
| "numpad_usage IntlBackslash = 0x64"
| "numpad_usage ContextMenu = 0x65"

primrec fnx_usage :: "FnXKey \<Rightarrow> u8" where
  "fnx_usage F13 = 0x68"
| "fnx_usage F14 = 0x69"
| "fnx_usage F15 = 0x6A"
| "fnx_usage F16 = 0x6B"
| "fnx_usage F17 = 0x6C"
| "fnx_usage F18 = 0x6D"
| "fnx_usage F19 = 0x6E"
| "fnx_usage F20 = 0x6F"
| "fnx_usage F21 = 0x70"
| "fnx_usage F22 = 0x71"
| "fnx_usage F23 = 0x72"
| "fnx_usage F24 = 0x73"

primrec mod_usage :: "ModifierKey \<Rightarrow> u8" where
  "mod_usage ControlLeft = 0xE0"
| "mod_usage ShiftLeft = 0xE1"
| "mod_usage AltLeft = 0xE2"
| "mod_usage MetaLeft = 0xE3"
| "mod_usage ControlRight = 0xE4"
| "mod_usage ShiftRight = 0xE5"
| "mod_usage AltRight = 0xE6"
| "mod_usage MetaRight = 0xE7"

primrec to_hid_usage :: "CanonicalKey \<Rightarrow> u8" where
  "to_hid_usage (Letter k) = letter_usage k"
| "to_hid_usage (Digit k) = digit_usage k"
| "to_hid_usage (Edit k) = edit_usage k"
| "to_hid_usage (Fn k) = fn_usage k"
| "to_hid_usage (Nav k) = nav_usage k"
| "to_hid_usage (Numpad k) = numpad_usage k"
| "to_hid_usage (FnX k) = fnx_usage k"
| "to_hid_usage (Modifier k) = mod_usage k"

text \<open>The arms of \<open>from_hid_usage\<close> in the order of the source; no match is \<open>None\<close>.\<close>

definition usage_table :: "(u8 \<times> CanonicalKey) list" where
  "usage_table =
   [
    (0x04, Letter KeyA), (0x05, Letter KeyB), (0x06, Letter KeyC), (0x07, Letter KeyD),
    (0x08, Letter KeyE), (0x09, Letter KeyF), (0x0A, Letter KeyG), (0x0B, Letter KeyH),
    (0x0C, Letter KeyI), (0x0D, Letter KeyJ), (0x0E, Letter KeyK), (0x0F, Letter KeyL),
    (0x10, Letter KeyM), (0x11, Letter KeyN), (0x12, Letter KeyO), (0x13, Letter KeyP),
    (0x14, Letter KeyQ), (0x15, Letter KeyR), (0x16, Letter KeyS), (0x17, Letter KeyT),
    (0x18, Letter KeyU), (0x19, Letter KeyV), (0x1A, Letter KeyW), (0x1B, Letter KeyX),
    (0x1C, Letter KeyY), (0x1D, Letter KeyZ), (0x1E, Digit Digit1), (0x1F, Digit Digit2),
    (0x20, Digit Digit3), (0x21, Digit Digit4), (0x22, Digit Digit5), (0x23, Digit Digit6),
    (0x24, Digit Digit7), (0x25, Digit Digit8), (0x26, Digit Digit9), (0x27, Digit Digit0),
    (0x28, Edit Enter), (0x29, Edit Escape), (0x2A, Edit Backspace), (0x2B, Edit Tab),
    (0x2C, Edit Space), (0x2D, Edit Minus), (0x2E, Edit Equal), (0x2F, Edit BracketLeft),
    (0x30, Edit BracketRight), (0x31, Edit Backslash), (0x33, Edit Semicolon),
    (0x34, Edit Quote), (0x35, Edit Backquote), (0x36, Edit Comma), (0x37, Edit Period),
    (0x38, Edit Slash), (0x39, Edit CapsLock), (0x3A, Fn F1), (0x3B, Fn F2), (0x3C, Fn F3),
    (0x3D, Fn F4), (0x3E, Fn F5), (0x3F, Fn F6), (0x40, Fn F7), (0x41, Fn F8), (0x42, Fn F9),
    (0x43, Fn F10), (0x44, Fn F11), (0x45, Fn F12), (0x46, Nav PrintScreen),
    (0x47, Nav ScrollLock), (0x48, Nav Pause), (0x49, Nav Insert), (0x4A, Nav Home),
    (0x4B, Nav PageUp), (0x4C, Nav Delete), (0x4D, Nav End), (0x4E, Nav PageDown),
    (0x4F, Nav ArrowRight), (0x50, Nav ArrowLeft), (0x51, Nav ArrowDown), (0x52, Nav ArrowUp),
    (0x53, Numpad NumLock), (0x54, Numpad NumpadDivide), (0x55, Numpad NumpadMultiply),
    (0x56, Numpad NumpadSubtract), (0x57, Numpad NumpadAdd), (0x58, Numpad NumpadEnter),
    (0x59, Numpad Numpad1), (0x5A, Numpad Numpad2), (0x5B, Numpad Numpad3),
    (0x5C, Numpad Numpad4), (0x5D, Numpad Numpad5), (0x5E, Numpad Numpad6),
    (0x5F, Numpad Numpad7), (0x60, Numpad Numpad8), (0x61, Numpad Numpad9),
    (0x62, Numpad Numpad0), (0x63, Numpad NumpadDecimal), (0x64, Numpad IntlBackslash),
    (0x65, Numpad ContextMenu), (0x68, FnX F13), (0x69, FnX F14), (0x6A, FnX F15),
    (0x6B, FnX F16), (0x6C, FnX F17), (0x6D, FnX F18), (0x6E, FnX F19), (0x6F, FnX F20),
    (0x70, FnX F21), (0x71, FnX F22), (0x72, FnX F23), (0x73, FnX F24),
    (0xE0, Modifier ControlLeft), (0xE1, Modifier ShiftLeft), (0xE2, Modifier AltLeft),
    (0xE3, Modifier MetaLeft), (0xE4, Modifier ControlRight), (0xE5, Modifier ShiftRight),
    (0xE6, Modifier AltRight), (0xE7, Modifier MetaRight)]"

definition from_hid_usage :: "u8 \<Rightarrow> CanonicalKey option" where
  "from_hid_usage usage = map_of usage_table usage"

fun is_modifier :: "CanonicalKey \<Rightarrow> bool" where
  "is_modifier (Modifier ControlLeft) = True"
| "is_modifier (Modifier ShiftLeft) = True"
| "is_modifier (Modifier AltLeft) = True"
| "is_modifier (Modifier MetaLeft) = True"
| "is_modifier (Modifier ControlRight) = True"
| "is_modifier (Modifier ShiftRight) = True"
| "is_modifier (Modifier AltRight) = True"
| "is_modifier (Modifier MetaRight) = True"
| "is_modifier _ = False"

fun modifier_bit :: "CanonicalKey \<Rightarrow> u8 option" where
  "modifier_bit (Modifier ControlLeft) = Some 0x01"
| "modifier_bit (Modifier ShiftLeft) = Some 0x02"
| "modifier_bit (Modifier AltLeft) = Some 0x04"
| "modifier_bit (Modifier MetaLeft) = Some 0x08"
| "modifier_bit (Modifier ControlRight) = Some 0x10"
| "modifier_bit (Modifier ShiftRight) = Some 0x20"
| "modifier_bit (Modifier AltRight) = Some 0x40"
| "modifier_bit (Modifier MetaRight) = Some 0x80"
| "modifier_bit _ = None"

section \<open>The two code tables\<close>

lemma from_to_hid_usage [simp]: "from_hid_usage (to_hid_usage k) = Some k"
proof (cases k)
  case (Letter l)
  then show ?thesis by (cases l) (simp_all add: from_hid_usage_def usage_table_def)
next
  case (Digit l)
  then show ?thesis by (cases l) (simp_all add: from_hid_usage_def usage_table_def)
next
  case (Edit l)
  then show ?thesis by (cases l) (simp_all add: from_hid_usage_def usage_table_def)
next
  case (Fn l)
  then show ?thesis by (cases l) (simp_all add: from_hid_usage_def usage_table_def)
next
  case (Nav l)
  then show ?thesis by (cases l) (simp_all add: from_hid_usage_def usage_table_def)
next
  case (Numpad l)
  then show ?thesis by (cases l) (simp_all add: from_hid_usage_def usage_table_def)
next
  case (FnX l)
  then show ?thesis by (cases l) (simp_all add: from_hid_usage_def usage_table_def)
next
  case (Modifier l)
  then show ?thesis by (cases l) (simp_all add: from_hid_usage_def usage_table_def)
qed

lemma to_hid_usage_inj: "to_hid_usage k = to_hid_usage l \<longleftrightarrow> k = l"
  by (metis from_to_hid_usage option.inject)

lemma usage_table_list: "list_all (\<lambda>(u, k). to_hid_usage k = u) usage_table"
  unfolding usage_table_def by simp

lemma usage_table_sound: "(u, k) \<in> set usage_table \<Longrightarrow> to_hid_usage k = u"
  using usage_table_list by (auto simp: list_all_iff)

lemma from_hid_usage_Some: "from_hid_usage u = Some k \<longleftrightarrow> to_hid_usage k = u"
proof
  assume "from_hid_usage u = Some k"
  then show "to_hid_usage k = u"
    by (auto simp: from_hid_usage_def dest: map_of_SomeD usage_table_sound)
next
  assume "to_hid_usage k = u"
  then show "from_hid_usage u = Some k"
    using from_to_hid_usage [of k] by simp
qed

lemma is_modifier_iff: "is_modifier k \<longleftrightarrow> (\<exists>m. k = Modifier m)"
proof (cases k)
  case (Modifier m)
  then show ?thesis by (cases m) auto
qed auto

lemma modifier_bit_None_iff: "modifier_bit k = None \<longleftrightarrow> \<not> is_modifier k"
proof (cases k)
  case (Modifier m)
  then show ?thesis by (cases m) auto
qed auto

text \<open>The bit of a modifier is the one its usage code numbers, counted from \<open>0xE0\<close>.\<close>

lemma modifier_bit_usage:
  "modifier_bit (Modifier m) = Some (push_bit (unat (to_hid_usage (Modifier m) - 0xE0)) 1)"
  by (cases m) (simp_all add: push_bit_eq_mult)

lemma usage_nonzero [simp]: "to_hid_usage k \<noteq> 0"
proof
  assume "to_hid_usage k = 0"
  then have "from_hid_usage 0 = Some k" by (simp add: from_hid_usage_Some)
  then show False by (simp add: from_hid_usage_def usage_table_def)
qed

section \<open>Properties\<close>

text \<open>The two tables of key codes are inverse to each other: a usage code decodes to a key
  exactly when the key encodes to that code, so no two keys share a code; and the codes
  0xE0 to 0xE7 are the modifier keys, each owning the bit of its distance from 0xE0.\<close>

theorem usage_tables_inverse:
  "(from_hid_usage u = Some k \<longleftrightarrow> to_hid_usage k = u) \<and>
   (is_modifier k \<longleftrightarrow> modifier_bit k = Some (push_bit (unat (to_hid_usage k - 0xE0)) 1)) \<and>
   (\<not> is_modifier k \<longleftrightarrow> modifier_bit k = None)"
proof -
  have "modifier_bit k = Some (push_bit (unat (to_hid_usage k - 0xE0)) 1)" if "is_modifier k"
    using that modifier_bit_usage by (auto simp: is_modifier_iff)
  then show ?thesis
    using modifier_bit_None_iff [of k] from_hid_usage_Some [of u k] by auto
qed

end
