(* ===== verification/HidTypes.thy ===== *)
theory HidTypes
  imports Keyboard "HOL-Library.Multiset"
begin

text \<open>
  The event and report types of \<open>hid/types.rs\<close> and the consumer usages of
  \<open>hid/consumer.rs\<close>.  \<open>KeyboardReport\<close> is the state every HID backend keeps of
  the keys that are down; the lemmas describe it as the multiset of its non-zero
  slots, which is what the target machine sees.
\<close>

section \<open>Events\<close>

datatype KeyEventType = KeyDown | KeyUp

record KeyboardModifiers =
  left_ctrl :: bool
  left_shift :: bool
  left_alt :: bool
  left_meta :: bool
  right_ctrl :: bool
  right_shift :: bool
  right_alt :: bool
  right_meta :: bool

definition to_hid_byte :: "KeyboardModifiers \<Rightarrow> u8" where
  "to_hid_byte m =
     (let b = 0;
          b = (if left_ctrl m then b OR 0x01 else b);
          b = (if left_shift m then b OR 0x02 else b);
          b = (if left_alt m then b OR 0x04 else b);
          b = (if left_meta m then b OR 0x08 else b);
          b = (if right_ctrl m then b OR 0x10 else b);
          b = (if right_shift m then b OR 0x20 else b);
          b = (if right_alt m then b OR 0x40 else b);
          b = (if right_meta m then b OR 0x80 else b)
      in b)"

definition from_hid_byte :: "u8 \<Rightarrow> KeyboardModifiers" where
  "from_hid_byte b =
     \<lparr>left_ctrl = b AND 0x01 \<noteq> 0, left_shift = b AND 0x02 \<noteq> 0,
      left_alt = b AND 0x04 \<noteq> 0, left_meta = b AND 0x08 \<noteq> 0,
      right_ctrl = b AND 0x10 \<noteq> 0, right_shift = b AND 0x20 \<noteq> 0,
      right_alt = b AND 0x40 \<noteq> 0, right_meta = b AND 0x80 \<noteq> 0\<rparr>"

definition any_modifier :: "KeyboardModifiers \<Rightarrow> bool" where
  "any_modifier m \<longleftrightarrow>
     left_ctrl m \<or> left_shift m \<or> left_alt m \<or> left_meta m \<or>
     right_ctrl m \<or> right_shift m \<or> right_alt m \<or> right_meta m"

record KeyboardEvent =
  kb_event_type :: KeyEventType
  kb_key :: CanonicalKey
  kb_modifiers :: KeyboardModifiers

definition key_down :: "CanonicalKey \<Rightarrow> KeyboardModifiers \<Rightarrow> KeyboardEvent" where
  "key_down key modifiers =
     \<lparr>kb_event_type = KeyDown, kb_key = key, kb_modifiers = modifiers\<rparr>"

definition key_up :: "CanonicalKey \<Rightarrow> KeyboardModifiers \<Rightarrow> KeyboardEvent" where
  "key_up key modifiers =
     \<lparr>kb_event_type = KeyUp, kb_key = key, kb_modifiers = modifiers\<rparr>"

datatype MouseButton = ButtonLeft | ButtonRight | ButtonMiddle | ButtonBack | ButtonForward

primrec to_hid_bit :: "MouseButton \<Rightarrow> u8" where
  "to_hid_bit ButtonLeft = 0x01"
| "to_hid_bit ButtonRight = 0x02"
| "to_hid_bit ButtonMiddle = 0x04"
| "to_hid_bit ButtonBack = 0x08"
| "to_hid_bit ButtonForward = 0x10"

datatype MouseEventType = MouseMove | MouseMoveAbs | MouseDown | MouseUp | MouseScroll

text \<open>\<open>x\<close> and \<open>y\<close> are \<open>i32\<close>, \<open>scroll\<close> is \<open>i8\<close>: words, read with \<open>sint\<close>.\<close>

record MouseEvent =
  ms_event_type :: MouseEventType
  ms_x :: u32
  ms_y :: u32
  ms_button :: "MouseButton option"
  ms_scroll :: u8

definition move_rel :: "u32 \<Rightarrow> u32 \<Rightarrow> MouseEvent" where
  "move_rel dx dy =
     \<lparr>ms_event_type = MouseMove, ms_x = dx, ms_y = dy, ms_button = None, ms_scroll = 0\<rparr>"

definition move_abs :: "u32 \<Rightarrow> u32 \<Rightarrow> MouseEvent" where
  "move_abs x y =
     \<lparr>ms_event_type = MouseMoveAbs, ms_x = x, ms_y = y, ms_button = None, ms_scroll = 0\<rparr>"

definition button_down :: "MouseButton \<Rightarrow> MouseEvent" where
  "button_down button =
     \<lparr>ms_event_type = MouseDown, ms_x = 0, ms_y = 0, ms_button = Some button, ms_scroll = 0\<rparr>"

definition button_up :: "MouseButton \<Rightarrow> MouseEvent" where
  "button_up button =
     \<lparr>ms_event_type = MouseUp, ms_x = 0, ms_y = 0, ms_button = Some button, ms_scroll = 0\<rparr>"

definition scroll_event :: "u8 \<Rightarrow> MouseEvent" where
  "scroll_event delta =
     \<lparr>ms_event_type = MouseScroll, ms_x = 0, ms_y = 0, ms_button = None, ms_scroll = delta\<rparr>"

record ConsumerEvent =
  consumer_usage :: u16

definition PLAY_PAUSE :: u16 where "PLAY_PAUSE = 0x00CD"
definition STOP :: u16 where "STOP = 0x00B7"
definition NEXT_TRACK :: u16 where "NEXT_TRACK = 0x00B5"
definition PREV_TRACK :: u16 where "PREV_TRACK = 0x00B6"
definition MUTE :: u16 where "MUTE = 0x00E2"
definition VOLUME_UP :: u16 where "VOLUME_UP = 0x00E9"
definition VOLUME_DOWN :: u16 where "VOLUME_DOWN = 0x00EA"

definition is_valid_usage :: "u16 \<Rightarrow> bool" where
  "is_valid_usage usage \<longleftrightarrow>
     usage \<in> {PLAY_PAUSE, STOP, NEXT_TRACK, PREV_TRACK, MUTE, VOLUME_UP, VOLUME_DOWN}"

section \<open>The boot keyboard report\<close>

text \<open>\<open>keys: [u8; 6]\<close> is a list; \<open>report_wf\<close> says it has six slots.\<close>

record KeyboardReport =
  modifiers :: u8
  reserved :: u8
  keys :: bytes

definition default_report :: KeyboardReport where
  "default_report = \<lparr>modifiers = 0, reserved = 0, keys = replicate 6 0\<rparr>"

definition report_wf :: "KeyboardReport \<Rightarrow> bool" where
  "report_wf r \<longleftrightarrow> length (keys r) = 6"

text \<open>\<open>self.keys[0]\<close> to \<open>self.keys[5]\<close> of the six-slot array, in order.\<close>

definition report_to_bytes :: "KeyboardReport \<Rightarrow> bytes" where
  "report_to_bytes r = modifiers r # reserved r # keys r"

text \<open>The loop of \<open>add_key\<close>: the first empty slot takes the key.\<close>

fun add_slot :: "u8 \<Rightarrow> bytes \<Rightarrow> bytes \<times> bool" where
  "add_slot key [] = ([], False)"
| "add_slot key (s # ss) =
     (if s = 0 then (key # ss, True)
      else (let (ss', ok) = add_slot key ss in (s # ss', ok)))"

definition add_key :: "KeyboardReport \<Rightarrow> u8 \<Rightarrow> KeyboardReport \<times> bool" where
  "add_key r key = (let (ks, ok) = add_slot key (keys r) in (r\<lparr>keys := ks\<rparr>, ok))"

text \<open>\<open>remove_key\<close> empties the slots that hold the key and sorts in descending order.\<close>

definition remove_key :: "KeyboardReport \<Rightarrow> u8 \<Rightarrow> KeyboardReport" where
  "remove_key r key =
     r\<lparr>keys := rev (sort (map (\<lambda>slot. if slot = key then 0 else slot) (keys r)))\<rparr>"

definition clear_report :: "KeyboardReport \<Rightarrow> KeyboardReport" where
  "clear_report r = r\<lparr>modifiers := 0, keys := replicate 6 0\<rparr>"

section \<open>Modifiers as one octet\<close>

lemma to_hid_byte_bits [bit_simps]:
  "bit (to_hid_byte m) 0 \<longleftrightarrow> left_ctrl m" "bit (to_hid_byte m) (Suc 0) \<longleftrightarrow> left_shift m"
  "bit (to_hid_byte m) 2 \<longleftrightarrow> left_alt m" "bit (to_hid_byte m) 3 \<longleftrightarrow> left_meta m"
  "bit (to_hid_byte m) 4 \<longleftrightarrow> right_ctrl m" "bit (to_hid_byte m) 5 \<longleftrightarrow> right_shift m"
  "bit (to_hid_byte m) 6 \<longleftrightarrow> right_alt m" "bit (to_hid_byte m) 7 \<longleftrightarrow> right_meta m"
  by (simp_all add: to_hid_byte_def Let_def bit_or_iff bit_simps)

lemma from_hid_byte_bits:
  "from_hid_byte b =
     \<lparr>left_ctrl = bit b 0, left_shift = bit b (Suc 0), left_alt = bit b 2, left_meta = bit b 3,
      right_ctrl = bit b 4, right_shift = bit b 5, right_alt = bit b 6, right_meta = bit b 7\<rparr>"
  by (simp add: from_hid_byte_def bit_simps)

lemma from_to_hid_byte: "from_hid_byte (to_hid_byte m) = m"
  by (simp add: from_hid_byte_bits bit_simps)

lemma to_from_hid_byte: "to_hid_byte (from_hid_byte b) = b"
  by (simp add: u8_eq_iff bit_simps from_hid_byte_bits)

lemma any_modifier_iff: "any_modifier m \<longleftrightarrow> to_hid_byte m \<noteq> 0"
  by (auto simp: u8_eq_iff bit_simps any_modifier_def)

section \<open>The report as a bounded multiset of keys\<close>

text \<open>What the target sees as pressed: the non-zero slots, with multiplicity.\<close>

definition held :: "KeyboardReport \<Rightarrow> u8 multiset" where
  "held r = filter_mset (\<lambda>k. k \<noteq> 0) (mset (keys r))"

lemma add_slot_length [simp]: "length (fst (add_slot k ss)) = length ss"
  by (induction ss) (auto split: prod.splits)

lemma add_slot_ok: "snd (add_slot k ss) \<longleftrightarrow> 0 \<in> set ss"
  by (induction ss) (auto split: prod.splits)

lemma add_slot_mset:
  "k \<noteq> 0 \<Longrightarrow> filter_mset (\<lambda>k. k \<noteq> 0) (mset (fst (add_slot k ss))) =
     (if 0 \<in> set ss then add_mset k (filter_mset (\<lambda>k. k \<noteq> 0) (mset ss))
      else filter_mset (\<lambda>k. k \<noteq> 0) (mset ss))"
  by (induction ss) (auto split: prod.splits)

lemma zero_slot_iff: "report_wf r \<Longrightarrow> 0 \<in> set (keys r) \<longleftrightarrow> size (held r) < 6"
proof -
  assume wf: "report_wf r"
  have "size (held r) = length (filter (\<lambda>k. k \<noteq> 0) (keys r))"
    by (simp add: held_def flip: mset_filter)
  also have "\<dots> < 6 \<longleftrightarrow> (\<exists>k \<in> set (keys r). k = 0)"
    using wf length_filter_less [of _ "keys r" "\<lambda>k. k \<noteq> 0"]
      filter_id_conv [of "\<lambda>k. k \<noteq> 0" "keys r"]
    by (auto simp: report_wf_def)
  finally show ?thesis by auto
qed

lemma add_key_eq:
  "add_key r k = (r\<lparr>keys := fst (add_slot k (keys r))\<rparr>, snd (add_slot k (keys r)))"
  by (simp add: add_key_def case_prod_beta Let_def)

lemma add_key_wf: "report_wf r \<Longrightarrow> report_wf (fst (add_key r k))"
  by (simp add: add_key_eq report_wf_def)

lemma add_key_ok: "report_wf r \<Longrightarrow> snd (add_key r k) \<longleftrightarrow> size (held r) < 6"
  by (simp add: add_key_eq add_slot_ok zero_slot_iff)

lemma add_key_held:
  "report_wf r \<Longrightarrow> k \<noteq> 0 \<Longrightarrow>
     held (fst (add_key r k)) = (if size (held r) < 6 then add_mset k (held r) else held r)"
  using zero_slot_iff [of r] by (simp add: add_key_eq add_slot_mset held_def)

lemma add_key_frame [simp]:
  "modifiers (fst (add_key r k)) = modifiers r" "reserved (fst (add_key r k)) = reserved r"
  by (simp_all add: add_key_eq)

lemma remove_key_wf: "report_wf r \<Longrightarrow> report_wf (remove_key r k)"
  by (simp add: remove_key_def report_wf_def)

lemma filter_mset_blank:
  "filter_mset (\<lambda>k. k \<noteq> 0) (image_mset (\<lambda>s. if s = k then 0 else s) M) =
     filter_mset (\<lambda>s. s \<noteq> k) (filter_mset (\<lambda>k. k \<noteq> (0 :: u8)) M)"
  by (induction M) auto

lemma remove_key_held: "held (remove_key r k) = filter_mset (\<lambda>s. s \<noteq> k) (held r)"
  by (simp add: held_def remove_key_def filter_mset_blank)

lemma remove_key_frame [simp]:
  "modifiers (remove_key r k) = modifiers r" "reserved (remove_key r k) = reserved r"
  by (simp_all add: remove_key_def)

lemma clear_report_wf [simp]: "report_wf (clear_report r)"
  by (simp add: clear_report_def report_wf_def)

lemma clear_report_held [simp]: "held (clear_report r) = {#}"
  by (simp add: clear_report_def held_def)

lemma default_report_wf [simp]: "report_wf default_report"
  by (simp add: default_report_def report_wf_def)

lemma default_report_held [simp]: "held default_report = {#}"
  by (simp add: default_report_def held_def)

section \<open>The slots stay packed\<close>

text \<open>Empty slots come last: a key is never behind a gap of the array.\<close>

definition packed :: "bytes \<Rightarrow> bool" where
  "packed ss \<longleftrightarrow> sorted_wrt (\<lambda>a b. a = 0 \<longrightarrow> b = 0) ss"

lemma packed_replicate [simp]: "packed (replicate n 0)"
  by (simp add: packed_def sorted_wrt_iff_nth_less)

lemma packed_Cons: "packed (s # ss) \<longleftrightarrow> (s = 0 \<longrightarrow> (\<forall>t \<in> set ss. t = 0)) \<and> packed ss"
  by (auto simp: packed_def)

lemma packed_add_slot: "packed ss \<Longrightarrow> packed (fst (add_slot k ss))"
  by (induction ss) (auto simp: packed_Cons case_prod_beta Let_def packed_def)

lemma packed_sort: "packed (rev (sort ss))"
proof -
  have "sorted_wrt (\<lambda>a b. b = 0 \<longrightarrow> a = 0) (sort ss)"
    by (rule sorted_wrt_mono_rel [of _ "(\<le>)"]) auto
  then show ?thesis by (simp add: packed_def sorted_wrt_rev)
qed

lemma packed_add_key: "packed (keys r) \<Longrightarrow> packed (keys (fst (add_key r k)))"
  by (simp add: add_key_eq packed_add_slot)

lemma packed_remove_key: "packed (keys (remove_key r k))"
  by (simp add: remove_key_def packed_sort)

section \<open>The interface the backends use\<close>

text \<open>
  A key buffer holds at most \<open>cap\<close> keys as a multiset: a press adds one if there is
  room, a release drops every copy.  What a client may conclude from that is proved
  once here, for any buffer.
\<close>

text \<open>The abstract step: the multiset of held keys under a press or a release.\<close>

definition bag_step :: "nat \<Rightarrow> u8 multiset \<Rightarrow> bool \<times> u8 \<Rightarrow> u8 multiset" where
  "bag_step cap M e =
     (if fst e then (if size M < cap then add_mset (snd e) M else M)
      else filter_mset (\<lambda>s. s \<noteq> snd e) M)"

locale key_buffer =
  fixes invar :: "'r \<Rightarrow> bool"
    and keys_held :: "'r \<Rightarrow> u8 multiset"
    and press :: "'r \<Rightarrow> u8 \<Rightarrow> 'r"
    and release :: "'r \<Rightarrow> u8 \<Rightarrow> 'r"
    and cap :: nat
  assumes press_invar: "invar r \<Longrightarrow> invar (press r k)"
    and release_invar: "invar r \<Longrightarrow> invar (release r k)"
    and press_held: "invar r \<Longrightarrow> k \<noteq> 0 \<Longrightarrow>
      keys_held (press r k) = (if size (keys_held r) < cap then add_mset k (keys_held r) else keys_held r)"
    and release_held: "invar r \<Longrightarrow> keys_held (release r k) = filter_mset (\<lambda>s. s \<noteq> k) (keys_held r)"
begin

definition buffer_step :: "'r \<Rightarrow> bool \<times> u8 \<Rightarrow> 'r" where
  "buffer_step r e = (if fst e then press r (snd e) else release r (snd e))"

definition buffer_run :: "'r \<Rightarrow> (bool \<times> u8) list \<Rightarrow> 'r" where
  "buffer_run r es = foldl buffer_step r es"

lemma step_invar: "invar r \<Longrightarrow> invar (buffer_step r e)"
  by (simp add: buffer_step_def press_invar release_invar)

lemma run_invar: "invar r \<Longrightarrow> invar (buffer_run r es)"
  unfolding buffer_run_def by (induction es arbitrary: r) (auto intro: step_invar)

lemma step_bound:
  "invar r \<Longrightarrow> snd e \<noteq> 0 \<Longrightarrow> size (keys_held r) \<le> cap \<Longrightarrow> size (keys_held (buffer_step r e)) \<le> cap"
  by (auto simp: buffer_step_def press_held release_held
      intro: order_trans [OF size_filter_mset_lesseq])

lemma step_absent:
  "invar r \<Longrightarrow> snd e \<noteq> 0 \<Longrightarrow> e \<noteq> (True, k) \<Longrightarrow> k \<notin># keys_held r \<Longrightarrow> k \<notin># keys_held (buffer_step r e)"
  by (cases e) (auto simp: buffer_step_def press_held release_held)

text \<open>A run of the buffer is a run of the multiset.\<close>

lemma step_refines: "invar r \<Longrightarrow> snd e \<noteq> 0 \<Longrightarrow> keys_held (buffer_step r e) = bag_step cap (keys_held r) e"
  by (simp add: buffer_step_def bag_step_def press_held release_held)

lemma run_refines:
  "invar r \<Longrightarrow> \<forall>e \<in> set es. snd e \<noteq> 0 \<Longrightarrow> keys_held (buffer_run r es) = foldl (bag_step cap) (keys_held r) es"
  unfolding buffer_run_def
  by (induction es arbitrary: r) (auto simp: step_refines step_invar)

text \<open>A released key stays released until it is pressed again.\<close>

lemma run_absent:
  assumes "invar r" and "k \<notin># keys_held r"
    and "\<forall>e \<in> set es. snd e \<noteq> 0" and "(True, k) \<notin> set es"
  shows "k \<notin># keys_held (buffer_run r es)"
  using assms unfolding buffer_run_def
proof (induction es arbitrary: r)
  case Nil
  then show ?case by simp
next
  case (Cons e es)
  have "k \<notin># keys_held (buffer_step r e)"
    by (rule step_absent) (use Cons.prems in auto)
  then show ?case
    using Cons by (auto intro: step_invar)
qed

lemma released_absent:
  assumes "invar r" and "\<forall>e \<in> set es. snd e \<noteq> 0" and "(True, k) \<notin> set es"
  shows "k \<notin># keys_held (buffer_run (release r k) es)"
  using assms by (intro run_absent) (auto simp: release_invar release_held)

end

interpretation kr: key_buffer report_wf held "\<lambda>r k. fst (add_key r k)" remove_key 6
proof
  fix r k
  assume wf: "report_wf r"
  show "report_wf (fst (add_key r k))" by (rule add_key_wf [OF wf])
  show "report_wf (remove_key r k)" by (rule remove_key_wf [OF wf])
  show "held (fst (add_key r k)) = (if size (held r) < 6 then add_mset k (held r) else held r)"
    if "k \<noteq> 0" by (rule add_key_held [OF wf that])
  show "held (remove_key r k) = filter_mset (\<lambda>s. s \<noteq> k) (held r)" by (rule remove_key_held)
qed

section \<open>Properties\<close>

text \<open>The modifier octet of a report and the eight modifier flags determine each other.\<close>

theorem modifier_byte_bijection:
  "from_hid_byte (to_hid_byte m) = m \<and> to_hid_byte (from_hid_byte b) = b"
  by (simp add: from_to_hid_byte to_from_hid_byte)

definition report_run :: "KeyboardReport \<Rightarrow> (bool \<times> u8) list \<Rightarrow> KeyboardReport" where
  "report_run r es = foldl (\<lambda>r (down, k). if down then fst (add_key r k) else remove_key r k) r es"

lemma report_run_buffer: "report_run r es = kr.buffer_run r es"
proof -
  have "(\<lambda>r (down, k). if down then fst (add_key r k) else remove_key r k) = kr.buffer_step"
    by (auto simp: fun_eq_iff kr.buffer_step_def)
  then show ?thesis by (simp add: report_run_def kr.buffer_run_def)
qed

text \<open>Any sequence of presses and releases leaves in the report exactly the keys of the
  abstract buffer: a press adds the key while fewer than six are held and is dropped
  otherwise, a release removes every copy.\<close>

theorem report_refines_bag:
  assumes "report_wf r" and "\<forall>e \<in> set es. snd e \<noteq> 0"
  shows "report_wf (report_run r es) \<and> held (report_run r es) = foldl (bag_step 6) (held r) es"
  using kr.run_invar [OF assms(1)] kr.run_refines [OF assms] by (simp add: report_run_buffer)

theorem report_refines_bag_witness:
  "report_wf (report_run default_report [(True, 4), (True, 5), (False, 4)]) \<and>
   held (report_run default_report [(True, 4), (True, 5), (False, 4)]) = {#5#}"
  using report_refines_bag [of default_report "[(True, 4), (True, 5), (False, 4)]"]
  by (simp add: bag_step_def)

end
