(* ===== verification/VncRfb.thy ===== *)
theory VncRfb
  imports HidTypes StateError StreamDecoder
begin

text \<open>
  The VNC server's side of the RFB protocol (\<open>vnc/rfb.rs\<close>): versions, handshake and VNC authentication,
  the messages of the client, the frames sent, and the translation of keys and pointers to HID events.
  The connection is a script: what each read returns (an empty read is the end), and which writes fail
  after how many octets; the end of the script of reads is the end of the stream.  DES and the random
  challenge are parameters.
\<close>

unbundle bit_operations_syntax

section \<open>Data\<close>

definition ENCODING_TIGHT :: u32 where "ENCODING_TIGHT = 7"
definition ENCODING_H264 :: u32 where "ENCODING_H264 = 50"
definition ENCODING_DESKTOP_SIZE :: u32 where "ENCODING_DESKTOP_SIZE = - 223"
definition MAX_ENCODING_COUNT :: nat where "MAX_ENCODING_COUNT = 1024"
definition MAX_CLIPBOARD_SIZE :: nat where "MAX_CLIPBOARD_SIZE = 1024 * 1024"
definition SECURITY_TYPE_VNC_AUTH :: u8 where "SECURITY_TYPE_VNC_AUTH = 2"

lemmas rfb_consts = ENCODING_TIGHT_def ENCODING_H264_def ENCODING_DESKTOP_SIZE_def MAX_ENCODING_COUNT_def
  MAX_CLIPBOARD_SIZE_def SECURITY_TYPE_VNC_AUTH_def

datatype RfbFrame =
    JpegFrame (rf_data: bytes) (rf_width: u16) (rf_height: u16) (rf_sequence: u64)
  | H264Frame (rf_data: bytes) (rf_width: u16) (rf_height: u16) (rf_key: bool) (rf_sequence: u64)

definition frame_size :: "RfbFrame \<Rightarrow> u16 \<times> u16" where
  "frame_size frame = (rf_width frame, rf_height frame)"

datatype RfbVersion = V3_3 | V3_7 | V3_8

record RfbPixelFormat =
  bits_per_pixel :: u8
  pf_depth :: u8
  big_endian :: bool
  true_colour :: bool
  red_max :: u16
  green_max :: u16
  blue_max :: u16
  red_shift :: u8
  green_shift :: u8
  blue_shift :: u8

definition default_pixel_format :: RfbPixelFormat where
  "default_pixel_format =
     \<lparr>bits_per_pixel = 32, pf_depth = 24, big_endian = False, true_colour = True, red_max = 255,
      green_max = 255, blue_max = 255, red_shift = 16, green_shift = 8, blue_shift = 0\<rparr>"

record FramebufferUpdateRequest =
  fu_incremental :: bool
  fu_x :: u16
  fu_y :: u16
  fu_width :: u16
  fu_height :: u16

datatype FrameSendOutcome = NotSent | FrameSent | DesktopSizeSent

datatype RfbInputEvent =
    RfbKey (rk_down: bool) (rk_keysym: u32)
  | RfbPointer (rp_x: u16) (rp_y: u16) (rp_mask: u8) (rp_previous: u8)
  | SetPixelFormat RfbPixelFormat
  | SetEncodings (se_enabled: bool) (se_resumed: bool)
  | UpdateRequest FramebufferUpdateRequest
  | UnsupportedClientCutText
  | Disconnected

record ClientEncodings =
  has_tight :: bool
  has_jpeg_quality :: bool
  has_h264 :: bool
  has_resize :: bool

definition no_encodings :: ClientEncodings where
  "no_encodings = \<lparr>has_tight = False, has_jpeg_quality = False, has_h264 = False, has_resize = False\<rparr>"

datatype VncEncoding = TightJpeg | OpenH264

record VncConfig =
  vnc_enabled :: bool
  vnc_encoding :: VncEncoding
  vnc_allow_one_client :: bool
  vnc_password :: "string option"

record tcp =
  tcp_in :: "(string + bytes) list"
  tcp_out :: bytes
  tcp_faults :: "nat option list"

record RfbClient =
  rc_stream :: tcp
  rc_config :: VncConfig
  rc_encodings :: ClientEncodings
  rc_pixel_format :: RfbPixelFormat
  rc_width :: u16
  rc_height :: u16
  rc_last_buttons :: u8
  rc_modifiers :: KeyboardModifiers
  rc_input_buffer :: bytes
  rc_pending_request :: "bool option"
  rc_last_sent_sequence :: "u64 option"
  rc_waiting_keyframe :: bool
  rc_shared :: bool

definition no_modifiers :: KeyboardModifiers where
  "no_modifiers =
     \<lparr>left_ctrl = False, left_shift = False, left_alt = False, left_meta = False,
      right_ctrl = False, right_shift = False, right_alt = False, right_meta = False\<rparr>"

definition RfbClient_new :: "tcp \<Rightarrow> VncConfig \<Rightarrow> RfbClient" where
  "RfbClient_new stream config =
     \<lparr>rc_stream = stream, rc_config = config, rc_encodings = no_encodings,
      rc_pixel_format = default_pixel_format, rc_width = 800, rc_height = 600, rc_last_buttons = 0,
      rc_modifiers = no_modifiers, rc_input_buffer = [], rc_pending_request = None,
      rc_last_sent_sequence = None, rc_waiting_keyframe = True, rc_shared = False\<rparr>"

definition set_size :: "u16 \<Rightarrow> u16 \<Rightarrow> RfbClient \<Rightarrow> RfbClient" where
  "set_size width height c = c\<lparr>rc_width := max width 1, rc_height := max height 1\<rparr>"

section \<open>The connection\<close>

type_synonym 'a vnc = "(RfbClient, 'a) sx"

text \<open>\<open>write_all\<close>: a failing write gets the first octets out.\<close>

definition rc_write :: "bytes \<Rightarrow> unit vnc" where
  "rc_write data c =
     (let t = rc_stream c in
      case tcp_faults t of
        Some k # faults \<Rightarrow>
          (Inl (Io ''write failed''), c\<lparr>rc_stream := t\<lparr>tcp_out := tcp_out t @ take k data, tcp_faults := faults\<rparr>\<rparr>)
      | None # faults \<Rightarrow> (Inr (), c\<lparr>rc_stream := t\<lparr>tcp_out := tcp_out t @ data, tcp_faults := faults\<rparr>\<rparr>)
      | [] \<Rightarrow> (Inr (), c\<lparr>rc_stream := t\<lparr>tcp_out := tcp_out t @ data\<rparr>\<rparr>))"

primrec rc_writes :: "bytes list \<Rightarrow> unit vnc" where
  "rc_writes [] = sx_return ()"
| "rc_writes (d # ds) = sx_bind (rc_write d) (\<lambda>_. rc_writes ds)"

text \<open>\<open>read_exact\<close>: what a read returns beyond the wanted octets stays for the next one.\<close>

fun take_exact :: "nat \<Rightarrow> bytes \<Rightarrow> (string + bytes) list \<Rightarrow> (AppError + bytes) \<times> (string + bytes) list" where
  "take_exact n got [] = (if length got < n then (Inl (Io ''early eof''), []) else (Inr got, []))"
| "take_exact n got (Inl e # src) = (if length got < n then (Inl (Io e), src) else (Inr got, Inl e # src))"
| "take_exact n got (Inr chunk # src) =
     (if length got \<ge> n then (Inr got, Inr chunk # src)
      else if chunk = [] then (Inl (Io ''early eof''), src)
      else if length chunk > n - length got then
        (Inr (got @ take (n - length got) chunk), Inr (drop (n - length got) chunk) # src)
      else take_exact n (got @ chunk) src)"

definition rc_read_exact :: "nat \<Rightarrow> bytes vnc" where
  "rc_read_exact n c =
     (case take_exact n [] (tcp_in (rc_stream c)) of
        (r, src) \<Rightarrow> (r, c\<lparr>rc_stream := (rc_stream c)\<lparr>tcp_in := src\<rparr>\<rparr>))"

definition rc_read_u8 :: "u8 vnc" where
  "rc_read_u8 = sx_bind (rc_read_exact 1) (\<lambda>buf. sx_return (buf ! 0))"

section \<open>Messages of the client\<close>

definition u16_at :: "nat \<Rightarrow> bytes \<Rightarrow> u16" where "u16_at i bs = of_nat (be_val (slice_of i (i + 2) bs))"

definition u32_at :: "nat \<Rightarrow> bytes \<Rightarrow> u32" where "u32_at i bs = of_nat (be_val (slice_of i (i + 4) bs))"

definition unsupported_message :: "u8 \<Rightarrow> AppError" where
  "unsupported_message t = BadRequest (''Unsupported RFB message '' @ dec_of_nat (unat t))"

definition input_message_len :: "bytes \<Rightarrow> AppError + nat option" where
  "input_message_len buffer =
     (if buffer = [] then Inr None
      else let t = buffer ! 0 in
        if t = 0 then Inr (Some 20)
        else if t = 2 then
          (if length buffer < 4 then Inr None
           else let count = unat (u16_at 2 buffer) in
             if count > MAX_ENCODING_COUNT then Inl (BadRequest ''Invalid VNC encoding list'')
             else Inr (Some (4 + count * 4)))
        else if t = 3 then Inr (Some 10)
        else if t = 4 then Inr (Some 8)
        else if t = 5 then Inr (Some 6)
        else if t = 6 then
          (if length buffer < 8 then Inr None
           else let payload_len = unat (u32_at 4 buffer) in
             if payload_len > MAX_CLIPBOARD_SIZE then Inl (BadRequest ''VNC clipboard message is too large'')
             else Inr (Some (8 + payload_len)))
        else Inl (unsupported_message t))"

definition has_complete_buffered_input :: "RfbClient \<Rightarrow> AppError + bool" where
  "has_complete_buffered_input c =
     (case input_message_len (rc_input_buffer c) of
        Inl e \<Rightarrow> Inl e
      | Inr None \<Rightarrow> Inr False
      | Inr (Some len) \<Rightarrow> Inr (length (rc_input_buffer c) \<ge> len))"

definition is_digit :: "u8 \<Rightarrow> bool" where "is_digit b \<longleftrightarrow> 0x30 \<le> b \<and> b \<le> 0x39"

definition digits3 :: "bytes \<Rightarrow> nat" where
  "digits3 bs = (unat (bs ! 0) - 0x30) * 100 + (unat (bs ! 1) - 0x30) * 10 + (unat (bs ! 2) - 0x30)"

definition parse_rfb_version :: "bytes \<Rightarrow> AppError + RfbVersion" where
  "parse_rfb_version version =
     (if take 4 version \<noteq> string_bytes ''RFB '' \<or> version ! 7 \<noteq> 0x2E \<or> version ! 11 \<noteq> 0x0A \<or>
         \<not> list_all is_digit (slice_of 4 7 version) \<or> \<not> list_all is_digit (slice_of 8 11 version)
      then Inl (BadRequest ''Invalid RFB version'')
      else if digits3 (slice_of 4 7 version) \<noteq> 3 then Inl (BadRequest ''Unsupported RFB major version'')
      else Inr (let minor = digits3 (slice_of 8 11 version) in
                if minor = 7 then V3_7 else if minor = 8 then V3_8 else V3_3))"

definition pixel_format_bytes :: "RfbPixelFormat \<Rightarrow> bytes" where
  "pixel_format_bytes f =
     [bits_per_pixel f, pf_depth f, of_bool (big_endian f), of_bool (true_colour f)] @
     be_bytes 2 (unat (red_max f)) @ be_bytes 2 (unat (green_max f)) @ be_bytes 2 (unat (blue_max f)) @
     [red_shift f, green_shift f, blue_shift f, 0, 0, 0]"

definition parse_pixel_format :: "bytes \<Rightarrow> RfbPixelFormat" where
  "parse_pixel_format bs =
     \<lparr>bits_per_pixel = bs ! 0, pf_depth = bs ! 1, big_endian = (bs ! 2 \<noteq> 0), true_colour = (bs ! 3 \<noteq> 0),
      red_max = u16_at 4 bs, green_max = u16_at 6 bs, blue_max = u16_at 8 bs,
      red_shift = bs ! 10, green_shift = bs ! 11, blue_shift = bs ! 12\<rparr>"

definition add_encoding :: "u32 \<Rightarrow> ClientEncodings \<Rightarrow> ClientEncodings" where
  "add_encoding e encs =
     (if e = ENCODING_TIGHT then encs\<lparr>has_tight := True\<rparr>
      else if e = ENCODING_H264 then encs\<lparr>has_h264 := True\<rparr>
      else if e = ENCODING_DESKTOP_SIZE then encs\<lparr>has_resize := True\<rparr>
      else if - 32 \<le> sint e \<and> sint e \<le> - 23 then encs\<lparr>has_jpeg_quality := True\<rparr>
      else encs)"

text \<open>\<open>chunks_exact(4)\<close>: fewer than four octets at the end are left out.\<close>

fun encoding_words :: "bytes \<Rightarrow> u32 list" where
  "encoding_words (a # b # c # d # bs) = of_nat (be_val [a, b, c, d]) # encoding_words bs"
| "encoding_words _ = []"

definition parse_encodings :: "bytes \<Rightarrow> ClientEncodings" where
  "parse_encodings bs = fold add_encoding (encoding_words bs) no_encodings"

definition configured_encoding_enabled :: "RfbClient \<Rightarrow> bool" where
  "configured_encoding_enabled c =
     (case vnc_encoding (rc_config c) of
        TightJpeg \<Rightarrow> has_tight (rc_encodings c) \<and> has_jpeg_quality (rc_encodings c) \<and>
          bits_per_pixel (rc_pixel_format c) \<in> {16, 32} \<and> true_colour (rc_pixel_format c)
      | OpenH264 \<Rightarrow> has_h264 (rc_encodings c))"

text \<open>What each complete message does to the client, and the event it gives.\<close>

definition set_encodings :: "bytes \<Rightarrow> RfbClient \<Rightarrow> RfbInputEvent \<times> RfbClient" where
  "set_encodings message c =
     (let was_enabled = configured_encoding_enabled c;
          c = c\<lparr>rc_encodings := parse_encodings (drop 4 message)\<rparr>;
          enabled = configured_encoding_enabled c;
          resumed = (\<not> was_enabled \<and> enabled);
          c = (if resumed \<and> vnc_encoding (rc_config c) = OpenH264 then c\<lparr>rc_waiting_keyframe := True\<rparr> else c)
      in (SetEncodings enabled resumed, c))"

definition update_request :: "bytes \<Rightarrow> RfbClient \<Rightarrow> RfbInputEvent \<times> RfbClient" where
  "update_request message c =
     (let request = \<lparr>fu_incremental = (message ! 1 \<noteq> 0), fu_x = u16_at 2 message, fu_y = u16_at 4 message,
            fu_width = u16_at 6 message, fu_height = u16_at 8 message\<rparr>;
          c = c\<lparr>rc_pending_request := Some (case rc_pending_request c of
                  None \<Rightarrow> fu_incremental request | Some pending \<Rightarrow> pending \<and> fu_incremental request)\<rparr>;
          c = (if \<not> fu_incremental request \<and> vnc_encoding (rc_config c) = OpenH264
               then c\<lparr>rc_waiting_keyframe := True\<rparr> else c)
      in (UpdateRequest request, c))"

definition decode_message :: "bytes \<Rightarrow> RfbClient \<Rightarrow> (AppError + RfbInputEvent) \<times> RfbClient" where
  "decode_message message c =
     (let t = message ! 0 in
      if t = 0 then
        let format = parse_pixel_format (slice_of 4 20 message)
        in (Inr (SetPixelFormat format), c\<lparr>rc_pixel_format := format\<rparr>)
      else if t = 2 then apfst Inr (set_encodings message c)
      else if t = 3 then apfst Inr (update_request message c)
      else if t = 4 then (Inr (RfbKey (message ! 1 \<noteq> 0) (u32_at 4 message)), c)
      else if t = 5 then
        (Inr (RfbPointer (u16_at 2 message) (u16_at 4 message) (message ! 1) (rc_last_buttons c)),
         c\<lparr>rc_last_buttons := message ! 1\<rparr>)
      else if t = 6 then (Inr UnsupportedClientCutText, c)
      else (Inl (unsupported_message t), c))"

definition decode_buffered_input :: "RfbInputEvent option vnc" where
  "decode_buffered_input c =
     (case input_message_len (rc_input_buffer c) of
        Inl e \<Rightarrow> (Inl e, c)
      | Inr None \<Rightarrow> (Inr None, c)
      | Inr (Some len) \<Rightarrow>
          if length (rc_input_buffer c) < len then (Inr None, c)
          else
            (case decode_message (take len (rc_input_buffer c)) (c\<lparr>rc_input_buffer := drop len (rc_input_buffer c)\<rparr>) of
               (Inl e, c) \<Rightarrow> (Inl e, c)
             | (Inr event, c) \<Rightarrow> (Inr (Some event), c)))"

text \<open>\<open>read_input_event\<close> reads until a message is complete; each completed read stays in the buffer.\<close>

fun read_input_loop :: "(string + bytes) list \<Rightarrow> RfbClient \<Rightarrow> (AppError + RfbInputEvent) \<times> RfbClient \<times> (string + bytes) list" where
  "read_input_loop src c =
     (case decode_buffered_input c of
        (Inl e, c) \<Rightarrow> (Inl e, c, src)
      | (Inr (Some event), c) \<Rightarrow> (Inr event, c, src)
      | (Inr None, c) \<Rightarrow>
          let at_end = (if rc_input_buffer c = [] then Inr Disconnected
                        else Inl (Io ''VNC client disconnected during an input message''))
          in case src of
               [] \<Rightarrow> (at_end, c, [])
             | Inl e # src \<Rightarrow> (Inl (Io e), c, src)
             | Inr chunk # src \<Rightarrow>
                 if chunk = [] then (at_end, c, src)
                 else read_input_loop src (c\<lparr>rc_input_buffer := rc_input_buffer c @ chunk\<rparr>))"

declare read_input_loop.simps [simp del]

definition read_input_event :: "RfbInputEvent vnc" where
  "read_input_event c =
     (case read_input_loop (tcp_in (rc_stream c)) c of
        (r, c, src) \<Rightarrow> (r, c\<lparr>rc_stream := (rc_stream c)\<lparr>tcp_in := src\<rparr>\<rparr>))"

section \<open>Keys and pointers\<close>

definition keysym_plain :: "(u32 \<times> CanonicalKey) list" where
  "keysym_plain =
   [(0xff08, Edit Backspace), (0xff09, Edit Tab), (0xff0d, Edit Enter), (0xff13, Nav Pause),
    (0xff14, Nav ScrollLock), (0xff15, Nav PrintScreen), (0xff1b, Edit Escape),
    (0xff50, Nav Home), (0xff51, Nav ArrowLeft), (0xff52, Nav ArrowUp), (0xff53, Nav ArrowRight),
    (0xff54, Nav ArrowDown), (0xff55, Nav PageUp), (0xff56, Nav PageDown), (0xff57, Nav End),
    (0xff61, Nav PrintScreen), (0xff63, Nav Insert), (0xff67, Numpad ContextMenu),
    (0xff6b, Nav Pause), (0xff7f, Numpad NumLock), (0xff80, Edit Space), (0xff89, Edit Tab),
    (0xff8d, Numpad NumpadEnter), (0xff95, Numpad Numpad7), (0xff96, Numpad Numpad4),
    (0xff97, Numpad Numpad8), (0xff98, Numpad Numpad6), (0xff99, Numpad Numpad2),
    (0xff9a, Numpad Numpad9), (0xff9b, Numpad Numpad3), (0xff9c, Numpad Numpad1),
    (0xff9d, Numpad Numpad5), (0xff9e, Numpad Numpad0), (0xff9f, Numpad NumpadDecimal),
    (0xffaa, Numpad NumpadMultiply), (0xffab, Numpad NumpadAdd), (0xffad, Numpad NumpadSubtract),
    (0xffae, Numpad NumpadDecimal), (0xffaf, Numpad NumpadDivide), (0xffb0, Numpad Numpad0),
    (0xffb1, Numpad Numpad1), (0xffb2, Numpad Numpad2), (0xffb3, Numpad Numpad3),
    (0xffb4, Numpad Numpad4), (0xffb5, Numpad Numpad5), (0xffb6, Numpad Numpad6),
    (0xffb7, Numpad Numpad7), (0xffb8, Numpad Numpad8), (0xffb9, Numpad Numpad9),
    (0xffbd, Edit Equal), (0xffe1, Modifier ShiftLeft), (0xffe2, Modifier ShiftRight),
    (0xffe3, Modifier ControlLeft), (0xffe4, Modifier ControlRight), (0xffe5, Edit CapsLock),
    (0xffe6, Edit CapsLock), (0xffe7, Modifier MetaLeft), (0xffeb, Modifier MetaLeft),
    (0xffe8, Modifier MetaRight), (0xffec, Modifier MetaRight), (0xffe9, Modifier AltLeft),
    (0xffea, Modifier AltRight), (0xffff, Nav Delete), (0x20, Edit Space), (0x30, Digit Digit0),
    (0x2d, Edit Minus), (0x3d, Edit Equal), (0x5b, Edit BracketLeft), (0x5d, Edit BracketRight),
    (0x5c, Edit Backslash), (0x3b, Edit Semicolon), (0x27, Edit Quote), (0x60, Edit Backquote),
    (0x2c, Edit Comma), (0x2e, Edit Period), (0x2f, Edit Slash)]"

definition keysym_shifted :: "(u32 \<times> CanonicalKey) list" where
  "keysym_shifted =
   [(0x21, Digit Digit1), (0x40, Digit Digit2), (0x23, Digit Digit3), (0x24, Digit Digit4),
    (0x25, Digit Digit5), (0x5e, Digit Digit6), (0x26, Digit Digit7), (0x2a, Digit Digit8),
    (0x28, Digit Digit9), (0x29, Digit Digit0), (0x5f, Edit Minus), (0x2b, Edit Equal),
    (0x7b, Edit BracketLeft), (0x7d, Edit BracketRight), (0x7c, Edit Backslash),
    (0x3a, Edit Semicolon), (0x22, Edit Quote), (0x7e, Edit Backquote), (0x3c, Edit Comma),
    (0x3e, Edit Period), (0x3f, Edit Slash)]"

definition map_key :: "bool \<Rightarrow> CanonicalKey option \<Rightarrow> (CanonicalKey \<times> bool) option" where
  "map_key shifted = map_option (\<lambda>key. (key, shifted))"

definition keysym_to_key :: "u32 \<Rightarrow> (CanonicalKey \<times> bool) option" where
  "keysym_to_key k =
     (case map_of keysym_plain k of
        Some key \<Rightarrow> Some (key, False)
      | None \<Rightarrow>
          (case map_of keysym_shifted k of
             Some key \<Rightarrow> Some (key, True)
           | None \<Rightarrow>
               if 0xffbe \<le> k \<and> k \<le> 0xffc9 then map_key False (from_hid_usage (ucast (k - 0xffbe + 0x3a)))
               else if 0xffca \<le> k \<and> k \<le> 0xffd5 then map_key False (from_hid_usage (ucast (k - 0xffca + 0x68)))
               else if 0x61 \<le> k \<and> k \<le> 0x7a then map_key False (from_hid_usage (ucast (k - 0x61 + 0x04)))
               else if 0x41 \<le> k \<and> k \<le> 0x5a then map_key True (from_hid_usage (ucast (k - 0x41 + 0x04)))
               else if 0x31 \<le> k \<and> k \<le> 0x39 then map_key False (from_hid_usage (ucast (k - 0x31 + 0x1e)))
               else None))"

fun update_modifier :: "CanonicalKey \<Rightarrow> bool \<Rightarrow> KeyboardModifiers \<Rightarrow> KeyboardModifiers" where
  "update_modifier (Modifier ControlLeft) down m = m\<lparr>left_ctrl := down\<rparr>"
| "update_modifier (Modifier ShiftLeft) down m = m\<lparr>left_shift := down\<rparr>"
| "update_modifier (Modifier AltLeft) down m = m\<lparr>left_alt := down\<rparr>"
| "update_modifier (Modifier MetaLeft) down m = m\<lparr>left_meta := down\<rparr>"
| "update_modifier (Modifier ControlRight) down m = m\<lparr>right_ctrl := down\<rparr>"
| "update_modifier (Modifier ShiftRight) down m = m\<lparr>right_shift := down\<rparr>"
| "update_modifier (Modifier AltRight) down m = m\<lparr>right_alt := down\<rparr>"
| "update_modifier (Modifier MetaRight) down m = m\<lparr>right_meta := down\<rparr>"
| "update_modifier _ down m = m"

definition key_event_to_hid :: "bool \<Rightarrow> u32 \<Rightarrow> RfbClient \<Rightarrow> KeyboardEvent option \<times> RfbClient" where
  "key_event_to_hid down keysym c =
     (case keysym_to_key keysym of
        None \<Rightarrow> (None, c)
      | Some (key, shifted) \<Rightarrow>
          let c = (if is_modifier key then c\<lparr>rc_modifiers := update_modifier key down (rc_modifiers c)\<rparr> else c);
              m = rc_modifiers c;
              m = (if shifted \<and> \<not> left_shift m \<and> \<not> right_shift m \<and> down then m\<lparr>left_shift := True\<rparr> else m)
          in (Some \<lparr>kb_event_type = (if down then KeyDown else KeyUp), kb_key = key, kb_modifiers = m\<rparr>, c))"

text \<open>A coordinate is clipped to the frame and scaled to \<open>0..32767\<close>.\<close>

definition vnc_scale_abs :: "u16 \<Rightarrow> u16 \<Rightarrow> u32" where
  "vnc_scale_abs v extent =
     (let max_v = unat extent - 1
      in if max_v = 0 then 0 else of_nat (min (unat v) max_v * 32767 div max_v))"

definition button_events :: "u8 \<Rightarrow> u8 \<Rightarrow> MouseEvent list" where
  "button_events buttons previous =
     concat (map (\<lambda>(b, button).
        if (buttons XOR previous) AND b = 0 then []
        else if buttons AND b \<noteq> 0 then [button_down button] else [button_up button])
       [(0x01, ButtonLeft), (0x02, ButtonMiddle), (0x04, ButtonRight)])"

definition pointer_event_to_hid :: "u16 \<Rightarrow> u16 \<Rightarrow> u8 \<Rightarrow> u8 \<Rightarrow> u16 \<Rightarrow> u16 \<Rightarrow> MouseEvent list" where
  "pointer_event_to_hid x y buttons previous width height =
     [move_abs (vnc_scale_abs x width) (vnc_scale_abs y height)] @
     (if buttons AND 0x08 \<noteq> 0 then [scroll_event 1] else []) @
     (if buttons AND 0x10 \<noteq> 0 then [scroll_event (- 1)] else []) @
     button_events buttons previous"

section \<open>The handshake\<close>

text \<open>The first eight octets of the password, each with its bits reversed, are the DES key.\<close>

definition reverse_bits :: "u8 \<Rightarrow> u8" where
  "reverse_bits b = word_reverse b"

definition vnc_key :: "bytes \<Rightarrow> bytes" where
  "vnc_key password = copy_slice 0 (map reverse_bits (take 8 password)) (replicate 8 0)"

definition encrypt_vnc_challenge :: "(bytes \<Rightarrow> bytes \<Rightarrow> bytes) \<Rightarrow> bytes \<Rightarrow> bytes \<Rightarrow> bytes" where
  "encrypt_vnc_challenge des challenge password =
     des (vnc_key password) (take 8 challenge) @ des (vnc_key password) (drop 8 challenge)"

definition invalid_password :: bytes where "invalid_password = string_bytes ''Invalid VNC password''"

definition handle_vnc_auth :: "(bytes \<Rightarrow> bytes \<Rightarrow> bytes) \<Rightarrow> bytes \<Rightarrow> RfbVersion \<Rightarrow> unit vnc" where
  "handle_vnc_auth des challenge version =
     sx_bind (rc_write challenge) (\<lambda>_.
     sx_bind (rc_read_exact 16) (\<lambda>response.
     sx_bind (sx_read (\<lambda>c. case vnc_password (rc_config c) of None \<Rightarrow> [] | Some p \<Rightarrow> string_bytes p)) (\<lambda>password.
       let ok = (response = encrypt_vnc_challenge des challenge password) in
       sx_bind (rc_write (be_bytes 4 (if ok then 0 else 1))) (\<lambda>_.
         if ok then sx_return ()
         else
           sx_bind (if version = V3_8
                    then rc_writes [be_bytes 4 (length invalid_password), invalid_password]
                    else sx_return ()) (\<lambda>_.
             sx_fail (BadRequest ''Invalid VNC password''))))))"

definition write_server_init :: "unit vnc" where
  "write_server_init c =
     rc_writes [be_bytes 2 (unat (rc_width c)), be_bytes 2 (unat (rc_height c)), pixel_format_bytes (rc_pixel_format c),
       be_bytes 4 (length (string_bytes ''One-KVM VNC'')), string_bytes ''One-KVM VNC''] c"

definition security_choice :: "RfbVersion \<Rightarrow> unit vnc" where
  "security_choice version =
     (case version of
        V3_3 \<Rightarrow> rc_write (be_bytes 4 (unat SECURITY_TYPE_VNC_AUTH))
      | _ \<Rightarrow>
          sx_bind (rc_write [1, SECURITY_TYPE_VNC_AUTH]) (\<lambda>_.
          sx_bind rc_read_u8 (\<lambda>sec_type.
            if sec_type \<noteq> SECURITY_TYPE_VNC_AUTH then sx_fail (BadRequest ''VNCAuth is required'')
            else sx_return ())))"

definition validate_encoding_policy :: "unit vnc" where
  "validate_encoding_policy c =
     (if configured_encoding_enabled c then (Inr (), c)
      else (Inl (BadRequest (case vnc_encoding (rc_config c) of
          TightJpeg \<Rightarrow> ''VNC client must support Tight JPEG encoding''
        | OpenH264 \<Rightarrow> ''VNC client must support Open H.264 encoding'')), c))"

section \<open>Frames\<close>

definition frame_header :: "u16 \<Rightarrow> u16 \<Rightarrow> u32 \<Rightarrow> bytes list" where
  "frame_header width height encoding =
     [[0, 0], be_bytes 2 1, be_bytes 2 0, be_bytes 2 0, be_bytes 2 (unat width), be_bytes 2 (unat height),
      be_bytes 4 (unat encoding)]"

definition compact_len :: "nat \<Rightarrow> bytes" where
  "compact_len len =
     (if len \<le> 127 then [of_nat (len mod 0x80)]
      else if len \<le> 16383 then [of_nat (len mod 0x80) OR 0x80, of_nat (len div 2 ^ 7 mod 0x80)]
      else [of_nat (len mod 0x80) OR 0x80, of_nat (len div 2 ^ 7 mod 0x80) OR 0x80, of_nat (len div 2 ^ 14 mod 0x100)])"

definition write_tight_jpeg_payload :: "bytes \<Rightarrow> unit vnc" where
  "write_tight_jpeg_payload data =
     (if length data > 0x3fffff then sx_fail (BadRequest ''JPEG frame too large for Tight encoding'')
      else rc_writes [[0x9F], compact_len (length data), data])"

definition mark_sent :: "u64 \<Rightarrow> FrameSendOutcome vnc" where
  "mark_sent sequence c = (Inr FrameSent, c\<lparr>rc_pending_request := None, rc_last_sent_sequence := Some sequence\<rparr>)"

definition send_resize :: "u16 \<Rightarrow> u16 \<Rightarrow> FrameSendOutcome vnc" where
  "send_resize width height =
     sx_bind (rc_writes (frame_header width height ENCODING_DESKTOP_SIZE)) (\<lambda>_.
     sx_bind (sx_update (set_size width height)) (\<lambda>_.
     sx_bind (sx_update (\<lambda>c. c\<lparr>rc_pending_request := None, rc_last_sent_sequence := None, rc_waiting_keyframe := True\<rparr>)) (\<lambda>_.
       sx_return DesktopSizeSent)))"

definition send_frame :: "RfbFrame \<Rightarrow> FrameSendOutcome vnc" where
  "send_frame frame c =
     (case rc_pending_request c of
        None \<Rightarrow> (Inr NotSent, c)
      | Some incremental \<Rightarrow>
          if \<not> configured_encoding_enabled c then (Inr NotSent, c)
          else if frame_size frame \<noteq> (rc_width c, rc_height c) then
            (if \<not> has_resize (rc_encodings c)
             then (Inl (BadRequest ''VNC client does not support DesktopSize resize; reconnect required''), c)
             else send_resize (rf_width frame) (rf_height frame) c)
          else if incremental \<and> (case rc_last_sent_sequence c of None \<Rightarrow> False | Some prev \<Rightarrow> rf_sequence frame \<le> prev)
          then (Inr NotSent, c)
          else
            (case frame of
               JpegFrame data width height sequence \<Rightarrow>
                 if vnc_encoding (rc_config c) \<noteq> TightJpeg then (Inr NotSent, c)
                 else
                   sx_bind (rc_writes (frame_header width height ENCODING_TIGHT)) (\<lambda>_.
                   sx_bind (write_tight_jpeg_payload data) (\<lambda>_. mark_sent sequence)) c
             | H264Frame data width height key sequence \<Rightarrow>
                 if vnc_encoding (rc_config c) \<noteq> OpenH264 \<or> rc_waiting_keyframe c \<and> \<not> key then (Inr NotSent, c)
                 else
                   sx_bind (rc_writes (frame_header width height ENCODING_H264 @
                     [be_bytes 4 (length data), be_bytes 4 (of_bool (rc_waiting_keyframe c)), data])) (\<lambda>_.
                   sx_bind (sx_update (\<lambda>c. c\<lparr>rc_waiting_keyframe := False\<rparr>)) (\<lambda>_. mark_sent sequence)) c))"

section \<open>Negotiation\<close>

text \<open>The octets the client still has to deal with; every message takes some away.\<close>

definition octets_left :: "(string + bytes) list \<Rightarrow> nat" where
  "octets_left src = sum_list (map (\<lambda>r. case r of Inl e \<Rightarrow> 0 | Inr chunk \<Rightarrow> length chunk) src)"

lemma octets_left_simps [simp]:
  "octets_left [] = 0" "octets_left (Inl e # src) = octets_left src"
  "octets_left (Inr chunk # src) = length chunk + octets_left src"
  by (simp_all add: octets_left_def)

lemma message_len_pos: "input_message_len b = Inr (Some n) \<Longrightarrow> 0 < n \<and> b \<noteq> []"
  by (auto simp: input_message_len_def Let_def split: if_splits)

lemma decode_messageD:
  assumes "decode_message m c = (r, c')"
  shows "rc_input_buffer c' = rc_input_buffer c \<and> rc_stream c' = rc_stream c \<and> rc_config c' = rc_config c"
  using assms by (auto simp: decode_message_def Let_def set_encodings_def update_request_def split: if_splits)

lemma decode_bufferedD:
  assumes "decode_buffered_input c = (r, c')"
  shows "rc_stream c' = rc_stream c" and "rc_config c' = rc_config c"
    and "r = Inr None \<Longrightarrow> c' = c" and "r = Inr (Some ev) \<Longrightarrow> length (rc_input_buffer c') < length (rc_input_buffer c)"
  using assms message_len_pos [of "rc_input_buffer c"]
  by (auto simp: decode_buffered_input_def split: sum.splits option.splits prod.splits if_splits dest!: decode_messageD)

lemma read_input_loop_less:
  assumes "read_input_loop src c = (Inr ev, c', src')" and "ev \<noteq> Disconnected"
  shows "length (rc_input_buffer c') + octets_left src' < length (rc_input_buffer c) + octets_left src"
  using assms
proof (induction src c rule: read_input_loop.induct)
  case (1 src c)
  obtain r c1 where d: "decode_buffered_input c = (r, c1)" by (meson surj_pair)
  consider (fail) e where "r = Inl e" | (none) "r = Inr None" | (some) ev' where "r = Inr (Some ev')"
    by (metis sumE option.exhaust)
  then show ?case
  proof cases
    case fail
    then show ?thesis using "1.prems"(1) d by (subst (asm) read_input_loop.simps) simp
  next
    case some
    then show ?thesis using "1.prems"(1) d decode_bufferedD(4) [OF d] by (subst (asm) read_input_loop.simps) simp
  next
    case none
    then have c1: "c1 = c" using decode_bufferedD(3) [OF d] by simp
    show ?thesis
    proof (cases src)
      case Nil
      then show ?thesis using "1.prems" d none c1 by (subst (asm) read_input_loop.simps) (simp split: if_splits)
    next
      case (Cons x rest)
      show ?thesis
      proof (cases x)
        case (Inl e)
        then show ?thesis using "1.prems" d none c1 Cons by (subst (asm) read_input_loop.simps) simp
      next
        case (Inr chunk)
        have "chunk \<noteq> []" "read_input_loop rest (c\<lparr>rc_input_buffer := rc_input_buffer c @ chunk\<rparr>) = (Inr ev, c', src')"
          using "1.prems" d none c1 Cons Inr by (subst (asm) read_input_loop.simps; simp split: if_splits)+
        then show ?thesis using "1.IH" [OF d [symmetric] none refl refl Cons Inr] "1.prems"(2) c1 Cons Inr by simp
      qed
    qed
  qed
qed

function read_until_set_encodings :: "unit vnc" where
  "read_until_set_encodings c =
     (case read_input_event c of
        (Inl e, c) \<Rightarrow> (Inl e, c)
      | (Inr (SetEncodings enabled resumed), c) \<Rightarrow> (Inr (), c)
      | (Inr Disconnected, c) \<Rightarrow> (Inl (BadRequest ''VNC client disconnected during negotiation''), c)
      | (Inr other, c) \<Rightarrow> read_until_set_encodings c)"
  by pat_completeness auto
termination
  by (relation "measure (\<lambda>c. length (rc_input_buffer c) + octets_left (tcp_in (rc_stream c)))")
    (auto simp: read_input_event_def split: prod.splits dest!: read_input_loop_less)

declare read_until_set_encodings.simps [simp del]

definition handshake :: "(bytes \<Rightarrow> bytes \<Rightarrow> bytes) \<Rightarrow> bytes \<Rightarrow> unit vnc" where
  "handshake des challenge =
     sx_bind (rc_write (string_bytes ''RFB 003.008'' @ [0x0A])) (\<lambda>_.
     sx_bind (rc_read_exact 12) (\<lambda>line.
     sx_bind (sx_lift (parse_rfb_version line)) (\<lambda>version.
     sx_bind (security_choice version) (\<lambda>_.
     sx_bind (handle_vnc_auth des challenge version) (\<lambda>_.
     sx_bind rc_read_u8 (\<lambda>shared.
     sx_bind (sx_update (\<lambda>c. c\<lparr>rc_shared := (shared \<noteq> 0)\<rparr>)) (\<lambda>_.
     sx_bind write_server_init (\<lambda>_.
     sx_bind read_until_set_encodings (\<lambda>_. validate_encoding_policy)))))))))"

end
