(* ===== verification/VncServer.thy ===== *)
theory VncServer
  imports VncRfb
begin

text \<open>
  The VNC service (\<open>vnc/mod.rs\<close>): the loop that serves one client, one function per turn of its \<open>select!\<close>, and the
  accept loop with its count of clients as a step relation.  What the HID controller answers and which frames
  arrive are the environment's.
\<close>

unbundle bit_operations_syntax

section \<open>Serving one client\<close>

datatype vnc_action = ToKeyboard KeyboardEvent | ToMouse MouseEvent | WantKeyframe

text \<open>\<open>vs_hid\<close>: what the calls of the HID controller answer, \<open>Ok\<close> past the end.\<close>

record VncSession =
  vs_client :: RfbClient
  vs_latest :: "RfbFrame option"
  vs_latest_size :: "(u16 \<times> u16) option"
  vs_log :: "vnc_action list"
  vs_hid :: "AppError option list"

type_synonym 'a vnc_session = "(VncSession, 'a) sx"

definition on_client :: "'a vnc \<Rightarrow> 'a vnc_session" where
  "on_client = sx_zoom vs_client (\<lambda>c s. s\<lparr>vs_client := c\<rparr>)"

definition log_action :: "vnc_action \<Rightarrow> VncSession \<Rightarrow> VncSession" where
  "log_action a s = s\<lparr>vs_log := vs_log s @ [a]\<rparr>"

definition call_hid :: "vnc_action \<Rightarrow> unit vnc_session" where
  "call_hid a s =
     (let s = log_action a s in
      case vs_hid s of
        Some e # later \<Rightarrow> (Inl e, s\<lparr>vs_hid := later\<rparr>)
      | None # later \<Rightarrow> (Inr (), s\<lparr>vs_hid := later\<rparr>)
      | [] \<Rightarrow> (Inr (), s))"

primrec call_hid_all :: "vnc_action list \<Rightarrow> unit vnc_session" where
  "call_hid_all [] = sx_return ()"
| "call_hid_all (a # as) = sx_bind (call_hid a) (\<lambda>_. call_hid_all as)"

definition is_h264 :: "VncSession \<Rightarrow> bool" where
  "is_h264 s \<longleftrightarrow> vnc_encoding (rc_config (vs_client s)) = OpenH264"

text \<open>Whether the loop goes on after an input event.\<close>

definition serve_input :: "RfbInputEvent \<Rightarrow> bool vnc_session" where
  "serve_input event s =
     (case event of
        Disconnected \<Rightarrow> (Inr False, s)
      | RfbKey down keysym \<Rightarrow>
          (case key_event_to_hid down keysym (vs_client s) of
             (None, c) \<Rightarrow> (Inr True, s\<lparr>vs_client := c\<rparr>)
           | (Some e, c) \<Rightarrow> sx_bind (call_hid (ToKeyboard e)) (\<lambda>_. sx_return True) (s\<lparr>vs_client := c\<rparr>))
      | RfbPointer x y buttons previous \<Rightarrow>
          sx_bind (call_hid_all (map ToMouse (pointer_event_to_hid x y buttons previous
              (rc_width (vs_client s)) (rc_height (vs_client s))))) (\<lambda>_. sx_return True) s
      | SetEncodings enabled resumed \<Rightarrow>
          (Inr True, if resumed \<and> is_h264 s then log_action WantKeyframe s else s)
      | UpdateRequest request \<Rightarrow>
          (Inr True, if \<not> fu_incremental request \<and> is_h264 s then log_action WantKeyframe s else s)
      | SetPixelFormat format \<Rightarrow> (Inr True, s)
      | UnsupportedClientCutText \<Rightarrow> (Inr True, s))"

definition serve_new_frame :: "RfbFrame option \<Rightarrow> VncSession \<Rightarrow> VncSession" where
  "serve_new_frame frame s =
     (let new_size = map_option frame_size frame;
          s = s\<lparr>vs_latest := frame\<rparr>;
          s = (if is_h264 s \<and> vs_latest_size s \<noteq> None \<and> new_size \<noteq> vs_latest_size s
               then log_action WantKeyframe s else s)
      in s\<lparr>vs_latest_size := new_size\<rparr>)"

text \<open>After each branch: a pending request is answered once no complete message is waiting.\<close>

definition serve_pending :: "unit vnc_session" where
  "serve_pending s =
     (case vs_latest s of
        None \<Rightarrow> (Inr (), s)
      | Some frame \<Rightarrow>
          if rc_pending_request (vs_client s) = None then (Inr (), s)
          else
            (case has_complete_buffered_input (vs_client s) of
               Inl e \<Rightarrow> (Inl e, s)
             | Inr True \<Rightarrow> (Inr (), s)
             | Inr False \<Rightarrow>
                 sx_bind (on_client (send_frame frame)) (\<lambda>outcome.
                   sx_update (\<lambda>s. if outcome = DesktopSizeSent \<and> is_h264 s then log_action WantKeyframe s else s)) s))"

text \<open>The branch of \<open>select!\<close> that completes.  A frame wins only when the polled read could not finish: the reads
  that had completed by then stay in the buffer.\<close>

datatype wake = WakeInput | WakeFrame nat "RfbFrame option" | WakeFramesClosed nat

fun absorb :: "nat \<Rightarrow> RfbClient \<Rightarrow> RfbClient" where
  "absorb 0 c = c"
| "absorb (Suc n) c =
     (case tcp_in (rc_stream c) of
        Inr chunk # src \<Rightarrow>
          if chunk = [] then c
          else absorb n (c\<lparr>rc_input_buffer := rc_input_buffer c @ chunk, rc_stream := (rc_stream c)\<lparr>tcp_in := src\<rparr>\<rparr>)
      | _ \<Rightarrow> c)"

definition client_turn :: "wake \<Rightarrow> bool vnc_session" where
  "client_turn w =
     (case w of
        WakeInput \<Rightarrow>
          sx_bind (on_client read_input_event) (\<lambda>event.
          sx_bind (serve_input event) (\<lambda>go_on.
            if go_on then sx_bind serve_pending (\<lambda>_. sx_return True) else sx_return False))
      | WakeFrame n frame \<Rightarrow>
          sx_bind (sx_update (\<lambda>s. serve_new_frame frame (s\<lparr>vs_client := absorb n (vs_client s)\<rparr>))) (\<lambda>_.
          sx_bind serve_pending (\<lambda>_. sx_return True))
      | WakeFramesClosed n \<Rightarrow>
          sx_bind (sx_update (\<lambda>s. s\<lparr>vs_client := absorb n (vs_client s)\<rparr>)) (\<lambda>_. sx_return False))"

fun client_loop :: "wake list \<Rightarrow> unit vnc_session" where
  "client_loop [] = sx_return ()"
| "client_loop (w # ws) = sx_bind (client_turn w) (\<lambda>go_on. if go_on then client_loop ws else sx_return ())"

definition handle_client ::
    "(bytes \<Rightarrow> bytes \<Rightarrow> bytes) \<Rightarrow> bytes \<Rightarrow> u16 \<times> u16 \<Rightarrow> RfbFrame option \<Rightarrow> wake list \<Rightarrow> unit vnc_session" where
  "handle_client des challenge initial first_frame wakes =
     sx_bind (sx_update (\<lambda>s. s\<lparr>vs_client := set_size (fst initial) (snd initial) (vs_client s)\<rparr>)) (\<lambda>_.
     sx_bind (on_client (handshake des challenge)) (\<lambda>_.
     sx_bind (sx_update (\<lambda>s. s\<lparr>vs_latest := first_frame, vs_latest_size := map_option frame_size first_frame\<rparr>)) (\<lambda>_.
       client_loop wakes)))"

section \<open>The service\<close>

datatype VncServiceStatus = VncStopped | VncStarting | VncRunning | VncError string

text \<open>\<open>sv_live\<close> counts the client tasks that run, \<open>sv_dying\<close> those aborted whose guard is still to be dropped.\<close>

record VncService =
  sv_config :: VncConfig
  sv_status :: VncServiceStatus
  sv_listening :: bool
  sv_active_clients :: nat
  sv_live :: nat
  sv_dying :: nat

definition VncService_new :: "VncConfig \<Rightarrow> VncService" where
  "VncService_new config =
     \<lparr>sv_config = config, sv_status = VncStopped, sv_listening = False, sv_active_clients = 0, sv_live = 0, sv_dying = 0\<rparr>"

text \<open>What preparing the video pipeline and binding the socket answer.\<close>

definition vnc_start :: "unit app_result \<Rightarrow> unit app_result \<Rightarrow> (VncService, unit) sx" where
  "vnc_start prepared bound v =
     (let fail = (\<lambda>e. (Inl e, v\<lparr>sv_status := VncError (AppError_fmt e)\<rparr>)) in
      if \<not> vnc_enabled (sv_config v) then (Inr (), v\<lparr>sv_status := VncStopped\<rparr>)
      else if sv_status v = VncRunning then (Inr (), v)
      else if (case vnc_password (sv_config v) of None \<Rightarrow> True | Some p \<Rightarrow> p = []) then
        (Inl (BadRequest ''VNC password is required''), v\<lparr>sv_status := VncError ''VNC password is required''\<rparr>)
      else
        (case prepared of
           Inl e \<Rightarrow> fail e
         | Inr _ \<Rightarrow>
             (case bound of
                Inl e \<Rightarrow> fail e
              | Inr _ \<Rightarrow> (Inr (), v\<lparr>sv_status := VncRunning, sv_listening := True\<rparr>))))"

text \<open>Aborting a task does not drop its guard at once; the counter is set to zero.\<close>

definition vnc_stop :: "VncService \<Rightarrow> VncService" where
  "vnc_stop v =
     v\<lparr>sv_listening := False, sv_dying := sv_dying v + sv_live v, sv_live := 0, sv_active_clients := 0,
       sv_status := VncStopped\<rparr>"

definition vnc_accept :: "VncService \<Rightarrow> VncService" where
  "vnc_accept v =
     (if vnc_allow_one_client (sv_config v) then
        (if sv_active_clients v = 0 then v\<lparr>sv_active_clients := 1, sv_live := sv_live v + 1\<rparr> else v)
      else v\<lparr>sv_active_clients := sv_active_clients v + 1, sv_live := sv_live v + 1\<rparr>)"

text \<open>\<open>ActiveClientGuard::drop\<close> subtracts one, but not below zero.\<close>

definition drop_guard :: "VncService \<Rightarrow> VncService" where
  "drop_guard v = v\<lparr>sv_active_clients := sv_active_clients v - 1\<rparr>"

inductive vnc_step :: "VncService \<Rightarrow> VncService \<Rightarrow> bool" where
  start: "vnc_step v (snd (vnc_start prepared bound v))"
| stop: "vnc_step v (vnc_stop v)"
| accept: "sv_listening v \<Longrightarrow> vnc_step v (vnc_accept v)"
| client_ends: "sv_live v = Suc n \<Longrightarrow> vnc_step v (drop_guard (v\<lparr>sv_live := n\<rparr>))"
| guard_dropped: "sv_dying v = Suc n \<Longrightarrow> vnc_step v (drop_guard (v\<lparr>sv_dying := n\<rparr>))"
| configured: "vnc_step v (v\<lparr>sv_config := config\<rparr>)"

definition vnc_restart :: "VncConfig \<Rightarrow> unit app_result \<Rightarrow> unit app_result \<Rightarrow> (VncService, unit) sx" where
  "vnc_restart config prepared bound v = vnc_start prepared bound (vnc_stop (v\<lparr>sv_config := config\<rparr>))"

section \<open>Runs of one client\<close>

text \<open>What happens to a client between octets that arrive at will: messages decoded, with the mouse events they
  give, key events translated, and frames offered.\<close>

datatype vnc_obs = Got RfbInputEvent "MouseEvent list" | Did RfbFrame FrameSendOutcome

definition mouse_of :: "RfbInputEvent \<Rightarrow> RfbClient \<Rightarrow> MouseEvent list" where
  "mouse_of event c =
     (case event of
        RfbPointer x y buttons previous \<Rightarrow> pointer_event_to_hid x y buttons previous (rc_width c) (rc_height c)
      | _ \<Rightarrow> [])"

inductive client_run :: "RfbClient \<Rightarrow> vnc_obs list \<Rightarrow> RfbClient \<Rightarrow> bool" for c0 where
  begins: "client_run c0 [] c0"
| arrives: "client_run c0 os c \<Longrightarrow> client_run c0 os (c\<lparr>rc_stream := t, rc_input_buffer := b, rc_shared := shared\<rparr>)"
| typed: "client_run c0 os c \<Longrightarrow> client_run c0 os (snd (key_event_to_hid down keysym c))"
| input: "client_run c0 os c \<Longrightarrow> decode_buffered_input c = (Inr (Some event), c') \<Longrightarrow>
    client_run c0 (os @ [Got event (mouse_of event c')]) c'"
| sends: "client_run c0 os c \<Longrightarrow> send_frame frame c = (Inr outcome, c') \<Longrightarrow> client_run c0 (os @ [Did frame outcome]) c'"

text \<open>Writing touches the stream only.\<close>

lemma rc_write_only: "\<exists>t. snd (rc_write d c) = c\<lparr>rc_stream := t\<rparr>"
  by (auto simp: rc_write_def Let_def split: list.splits option.splits)

lemma rc_writes_only: "\<exists>t. snd (rc_writes ds c) = c\<lparr>rc_stream := t\<rparr>"
proof (induction ds arbitrary: c)
  case Nil
  have "c = c\<lparr>rc_stream := rc_stream c\<rparr>" by simp
  then show ?case by (metis rc_writes.simps(1) sx_apply(1) snd_conv)
next
  case (Cons d ds)
  obtain r t where w: "rc_write d c = (r, c\<lparr>rc_stream := t\<rparr>)" using rc_write_only [of d c] by (metis prod.collapse)
  obtain t' where "snd (rc_writes ds (c\<lparr>rc_stream := t\<rparr>)) = c\<lparr>rc_stream := t\<rparr>\<lparr>rc_stream := t'\<rparr>" using Cons.IH by blast
  then show ?case using w by (cases r) (auto simp: sx_simps)
qed

lemma rc_writes_result: obtains r t where "rc_writes ds c = (r, c\<lparr>rc_stream := t\<rparr>)"
  using rc_writes_only [of ds c] by (metis prod.collapse)

lemma send_frame_fails:
  assumes "send_frame frame c = (Inl e, c')"
  shows "c' = c \<or> (\<exists>t. c' = c\<lparr>rc_stream := t\<rparr>)"
proof (cases frame)
  case (JpegFrame data w h q)
  obtain r t where w1: "rc_writes (frame_header w h ENCODING_TIGHT) c = (r, c\<lparr>rc_stream := t\<rparr>)" by (rule rc_writes_result)
  obtain r' t' where w2: "rc_writes [[0x9F], compact_len (length data), data] (c\<lparr>rc_stream := t\<rparr>) = (r', c\<lparr>rc_stream := t\<rparr>\<lparr>rc_stream := t'\<rparr>)"
    by (rule rc_writes_result)
  obtain r'' t'' where w3: "rc_writes (frame_header w h ENCODING_DESKTOP_SIZE) c = (r'', c\<lparr>rc_stream := t''\<rparr>)" by (rule rc_writes_result)
  show ?thesis using assms JpegFrame w1 w2 w3
    by (auto simp: send_frame_def send_resize_def write_tight_jpeg_payload_def mark_sent_def sx_simps simp del: rc_writes.simps
        split: if_splits sum.splits option.splits)
next
  case (H264Frame data w h k q)
  obtain r t where w1: "rc_writes (frame_header w h ENCODING_H264 @
      [be_bytes 4 (length data), be_bytes 4 (of_bool (rc_waiting_keyframe c)), data]) c = (r, c\<lparr>rc_stream := t\<rparr>)"
    by (rule rc_writes_result)
  obtain r'' t'' where w3: "rc_writes (frame_header w h ENCODING_DESKTOP_SIZE) c = (r'', c\<lparr>rc_stream := t''\<rparr>)" by (rule rc_writes_result)
  show ?thesis using assms H264Frame w1 w3
    by (auto simp: send_frame_def send_resize_def mark_sent_def sx_simps simp del: rc_writes.simps
        split: if_splits sum.splits option.splits)
qed

text \<open>A frame that is offered leaves the client alone, is sent, or resizes it.\<close>

lemma send_frame_cases:
  assumes "send_frame frame c = (Inr outcome, c')"
  obtains (not_sent) "outcome = NotSent" "c' = c"
    | (sent) t where "outcome = FrameSent" "rc_pending_request c \<noteq> None" "frame_size frame = (rc_width c, rc_height c)"
        "c' = c\<lparr>rc_stream := t, rc_pending_request := None, rc_last_sent_sequence := Some (rf_sequence frame),
          rc_waiting_keyframe := (rc_waiting_keyframe c \<and> vnc_encoding (rc_config c) = TightJpeg)\<rparr>"
        "vnc_encoding (rc_config c) = OpenH264 \<Longrightarrow> \<exists>d w h k q. frame = H264Frame d w h k q \<and> (rc_waiting_keyframe c \<longrightarrow> k)"
    | (resized) t where "outcome = DesktopSizeSent" "rc_pending_request c \<noteq> None"
        "c' = set_size (rf_width frame) (rf_height frame) (c\<lparr>rc_stream := t, rc_pending_request := None,
          rc_last_sent_sequence := None, rc_waiting_keyframe := True\<rparr>)"
proof -
  note d = assms [unfolded send_frame_def]
  show thesis
  proof (cases "rc_pending_request c")
    case None
    then show thesis using d not_sent by simp
  next
    case (Some incremental)
    consider (off) "\<not> configured_encoding_enabled c"
      | (resize) "configured_encoding_enabled c" "frame_size frame \<noteq> (rc_width c, rc_height c)"
      | (fits) "configured_encoding_enabled c" "frame_size frame = (rc_width c, rc_height c)" by blast
    then show thesis
    proof cases
      case off
      then show thesis using d Some not_sent by simp
    next
      case resize
      obtain r t where w: "rc_writes (frame_header (rf_width frame) (rf_height frame) ENCODING_DESKTOP_SIZE) c = (r, c\<lparr>rc_stream := t\<rparr>)"
        by (rule rc_writes_result)
      show thesis
        by (rule resized [of t])
          (use d Some resize w in \<open>auto simp: send_resize_def set_size_def sx_simps split: if_splits sum.splits\<close>)
    next
      case fits
      show thesis
      proof (cases frame)
        case (JpegFrame data w h q)
        obtain r t where w1: "rc_writes (frame_header w h ENCODING_TIGHT) c = (r, c\<lparr>rc_stream := t\<rparr>)" by (rule rc_writes_result)
        obtain r' t' where w2: "rc_writes [[0x9F], compact_len (length data), data] (c\<lparr>rc_stream := t\<rparr>) = (r', c\<lparr>rc_stream := t\<rparr>\<lparr>rc_stream := t'\<rparr>)"
          by (rule rc_writes_result)
        show thesis
          using d Some fits JpegFrame w1 w2 not_sent sent [of t']
          by (auto simp: write_tight_jpeg_payload_def mark_sent_def sx_simps simp del: rc_writes.simps
              split: if_splits sum.splits option.splits)
      next
        case (H264Frame data w h k q)
        obtain r t where w1: "rc_writes (frame_header w h ENCODING_H264 @
            [be_bytes 4 (length data), be_bytes 4 (of_bool (rc_waiting_keyframe c)), data]) c = (r, c\<lparr>rc_stream := t\<rparr>)"
          by (rule rc_writes_result)
        show thesis
          using d Some fits H264Frame w1 not_sent sent [of t]
          by (auto simp: mark_sent_def sx_simps simp del: rc_writes.simps split: if_splits sum.splits option.splits)
      qed
    qed
  qed
qed

section \<open>The service makes such runs only\<close>

definition reachable_from :: "RfbClient \<Rightarrow> RfbClient \<Rightarrow> bool" where
  "reachable_from c0 c \<longleftrightarrow> (\<exists>os. client_run c0 os c)"

lemma reach_arrives: "reachable_from c0 c \<Longrightarrow> reachable_from c0 (c\<lparr>rc_stream := t, rc_input_buffer := b, rc_shared := shared\<rparr>)"
  unfolding reachable_from_def by (blast intro: client_run.arrives)

lemma reach_stream: "reachable_from c0 c \<Longrightarrow> reachable_from c0 (c\<lparr>rc_stream := t\<rparr>)"
  by (drule reach_arrives [of _ _ "rc_shared c" "rc_input_buffer c" t]) simp

lemma reach_buffer: "reachable_from c0 c \<Longrightarrow> reachable_from c0 (c\<lparr>rc_input_buffer := b\<rparr>)"
  by (drule reach_arrives [of _ _ "rc_shared c" b "rc_stream c"]) simp

lemma reach_shared: "reachable_from c0 c \<Longrightarrow> reachable_from c0 (c\<lparr>rc_shared := b\<rparr>)"
  by (drule reach_arrives [of _ _ b "rc_input_buffer c" "rc_stream c"]) simp

lemma reach_writes [sx_keeps_intros]: "sx_keeps (reachable_from c0) (rc_writes ds)" "sx_keeps (reachable_from c0) (rc_write d)"
  using rc_writes_only [of ds] rc_write_only [of d] reach_stream unfolding sx_keeps_def by metis+

lemma reach_read [sx_keeps_intros]: "sx_keeps (reachable_from c0) (rc_read_exact n)"
  by (simp add: sx_keeps_def rc_read_exact_def reach_stream split: prod.splits)

lemma reach_read_u8 [sx_keeps_intros]: "sx_keeps (reachable_from c0) rc_read_u8"
  unfolding rc_read_u8_def by (intro sx_keeps_intros)

lemma reach_decode:
  assumes "reachable_from c0 c" and "decode_buffered_input c = (r, c')"
  shows "reachable_from c0 c'"
proof (cases r)
  case (Inl e)
  have m: "decode_message m d = (Inl e, d') \<Longrightarrow> d' = d" for m d d'
    by (auto simp: decode_message_def Let_def apfst_def map_prod_def split: if_splits prod.splits)
  have "c' = c \<or> (\<exists>b. c' = c\<lparr>rc_input_buffer := b\<rparr>)"
    using assms(2) Inl by (auto simp: decode_buffered_input_def dest!: m split: sum.splits option.splits prod.splits if_splits)
  then show ?thesis using assms(1) reach_buffer by blast
next
  case (Inr ev)
  show ?thesis
  proof (cases ev)
    case None
    then show ?thesis using assms Inr decode_bufferedD(3) [OF assms(2)] by simp
  next
    case (Some event)
    then show ?thesis using assms Inr client_run.input unfolding reachable_from_def by blast
  qed
qed

lemma reach_read_loop: "reachable_from c0 c \<Longrightarrow> read_input_loop src c = (r, c', src') \<Longrightarrow> reachable_from c0 c'"
proof (induction src c rule: read_input_loop.induct)
  case (1 src c)
  obtain d c1 where d: "decode_buffered_input c = (d, c1)" by (meson surj_pair)
  have c1: "reachable_from c0 c1" by (rule reach_decode [OF "1.prems"(1) d])
  show ?case
    using "1.prems"(2) "1.IH" [OF d [symmetric]] c1 reach_buffer [OF c1] d
    by (subst (asm) read_input_loop.simps)
      (auto simp: Let_def split: sum.splits option.splits list.splits if_splits)
qed

lemma reach_input [sx_keeps_intros]: "sx_keeps (reachable_from c0) read_input_event"
  by (auto simp: sx_keeps_def read_input_event_def split: prod.splits intro: reach_stream dest: reach_read_loop)

lemma reach_negotiation [sx_keeps_intros]: "sx_keeps (reachable_from c0) read_until_set_encodings"
proof -
  have "reachable_from c0 c \<Longrightarrow> reachable_from c0 (snd (read_until_set_encodings c))" for c
  proof (induction c rule: read_until_set_encodings.induct)
    case (1 c)
    obtain r c1 where r: "read_input_event c = (r, c1)" by (meson surj_pair)
    have "reachable_from c0 c1" by (rule sx_keepsD [OF reach_input "1.prems" r])
    then show ?case using "1.IH" [OF r [symmetric]] r
      by (subst read_until_set_encodings.simps) (simp split: sum.splits RfbInputEvent.splits)
  qed
  then show ?thesis by (simp add: sx_keeps_def)
qed

lemma reach_server_init [sx_keeps_intros]: "sx_keeps (reachable_from c0) write_server_init"
  unfolding sx_keeps_def write_server_init_def using reach_writes(1) by (simp add: sx_keeps_def del: rc_writes.simps)

lemma reach_policy [sx_keeps_intros]: "sx_keeps (reachable_from c0) validate_encoding_policy"
  by (simp add: sx_keeps_def validate_encoding_policy_def)

lemma reach_handshake [sx_keeps_intros]: "sx_keeps (reachable_from c0) (handshake des challenge)"
  unfolding handshake_def handle_vnc_auth_def security_choice_def Let_def
  by (auto intro!: sx_keeps_intros reach_shared split: RfbVersion.splits)

lemma reach_send [sx_keeps_intros]: "sx_keeps (reachable_from c0) (send_frame frame)"
  unfolding sx_keeps_def
proof (intro allI impI)
  fix c
  assume c: "reachable_from c0 c"
  obtain r c' where r: "send_frame frame c = (r, c')" by (meson surj_pair)
  show "reachable_from c0 (snd (send_frame frame c))"
  proof (cases r)
    case (Inr outcome)
    then show ?thesis using c r client_run.sends unfolding reachable_from_def by (metis snd_conv)
  next
    case (Inl e)
    have "c' = c \<or> (\<exists>t. c' = c\<lparr>rc_stream := t\<rparr>)" by (rule send_frame_fails) (use r Inl in simp)
    then show ?thesis using c r reach_stream by auto
  qed
qed

text \<open>Whatever happens while a client is served, its state is one of a run.\<close>

lemma reach_zoom [sx_keeps_intros]:
  "sx_keeps (reachable_from c0) m \<Longrightarrow> sx_keeps (\<lambda>s. reachable_from c0 (vs_client s)) (on_client m)"
  by (auto simp: sx_keeps_def on_client_def sx_zoom_def split: prod.splits)

lemma reach_hid [sx_keeps_intros]:
  "sx_keeps (\<lambda>s. reachable_from c0 (vs_client s)) (call_hid a)" "sx_keeps (\<lambda>s. reachable_from c0 (vs_client s)) (call_hid_all as)"
proof -
  show *: "sx_keeps (\<lambda>s. reachable_from c0 (vs_client s)) (call_hid a)" for a
    by (auto simp: sx_keeps_def call_hid_def log_action_def Let_def split: list.splits option.splits)
  show "sx_keeps (\<lambda>s. reachable_from c0 (vs_client s)) (call_hid_all as)"
    by (induction as) (auto intro!: sx_keeps_intros *)
qed

lemma log_action_client [simp]: "vs_client (log_action a s) = vs_client s"
  by (simp add: log_action_def)

lemma reach_serve_input [sx_keeps_intros]: "sx_keeps (\<lambda>s. reachable_from c0 (vs_client s)) (serve_input event)"
  unfolding sx_keeps_def
proof (intro allI impI)
  fix s :: VncSession
  assume s: "reachable_from c0 (vs_client s)"
  have typed: "reachable_from c0 (snd (key_event_to_hid down k (vs_client s)))" for down k
    using s unfolding reachable_from_def by (blast intro: client_run.typed)
  have hid: "reachable_from c0 (vs_client t) \<Longrightarrow> reachable_from c0 (vs_client (snd (sx_bind (call_hid_all as) (\<lambda>_. sx_return True) t)))"
    "reachable_from c0 (vs_client t) \<Longrightarrow> reachable_from c0 (vs_client (snd (sx_bind (call_hid a) (\<lambda>_. sx_return True) t)))" for as a t
    using sx_keeps_bind [OF reach_hid(2), of c0 "\<lambda>_. sx_return True" as] sx_keeps_bind [OF reach_hid(1), of c0 "\<lambda>_. sx_return True" a]
    by (simp_all add: sx_keeps_def sx_apply)
  show "reachable_from c0 (vs_client (snd (serve_input event s)))"
  proof (cases event)
    case (RfbKey down k)
    then show ?thesis using typed [of down k] hid(2) by (auto simp: serve_input_def split: prod.splits option.splits)
  qed (use s hid in \<open>simp_all add: serve_input_def\<close>)
qed

lemma reach_serve_pending [sx_keeps_intros]: "sx_keeps (\<lambda>s. reachable_from c0 (vs_client s)) serve_pending"
proof -
  have *: "sx_keeps (\<lambda>s. reachable_from c0 (vs_client s)) (sx_bind (on_client (send_frame frame)) (\<lambda>outcome.
      sx_update (\<lambda>s. if outcome = DesktopSizeSent \<and> is_h264 s then log_action WantKeyframe s else s)))" for frame
    by (intro sx_keeps_intros) simp
  then show ?thesis
    by (auto simp: sx_keeps_def serve_pending_def split: option.splits sum.splits bool.splits)
qed

lemma reach_absorb: "reachable_from c0 c \<Longrightarrow> reachable_from c0 (absorb n c)"
proof (induction n c rule: absorb.induct)
  case (2 n c)
  then show ?case
    using reach_stream [OF reach_buffer [OF "2.prems"]] by (auto split: list.splits sum.splits)
qed simp

lemma reach_turn [sx_keeps_intros]: "sx_keeps (\<lambda>s. reachable_from c0 (vs_client s)) (client_turn w)"
  by (cases w) (auto intro!: sx_keeps_intros reach_absorb simp: client_turn_def serve_new_frame_def Let_def)

lemma reach_loop [sx_keeps_intros]: "sx_keeps (\<lambda>s. reachable_from c0 (vs_client s)) (client_loop ws)"
  by (induction ws) (auto intro!: sx_keeps_intros)

lemma handle_client_runs:
  assumes "handle_client des challenge initial first_frame wakes s = (r, s')"
  shows "reachable_from (set_size (fst initial) (snd initial) (vs_client s)) (vs_client s')"
proof -
  let ?c0 = "set_size (fst initial) (snd initial) (vs_client s)"
  have "sx_keeps (\<lambda>s. reachable_from ?c0 (vs_client s)) (sx_bind (on_client (handshake des challenge)) (\<lambda>_.
     sx_bind (sx_update (\<lambda>s. s\<lparr>vs_latest := first_frame, vs_latest_size := map_option frame_size first_frame\<rparr>)) (\<lambda>_.
       client_loop wakes)))" by (intro sx_keeps_intros) simp
  moreover have "reachable_from ?c0 (vs_client (s\<lparr>vs_client := ?c0\<rparr>))"
    unfolding reachable_from_def by (auto intro: client_run.begins)
  ultimately show ?thesis using assms sx_keepsD by (fastforce simp: handle_client_def sx_bind_def sx_update_def)
qed

section \<open>Every update answers a request, and starts with a key frame\<close>

definition updates :: "vnc_obs list \<Rightarrow> nat" where
  "updates os = length (filter (\<lambda>ob. case ob of Did f r \<Rightarrow> r \<noteq> NotSent | _ \<Rightarrow> False) os)"

definition requests :: "vnc_obs list \<Rightarrow> nat" where
  "requests os = length (filter (\<lambda>ob. case ob of Got (UpdateRequest r) ms \<Rightarrow> True | _ \<Rightarrow> False) os)"

lemma updates_simps [simp]: "updates [] = 0" "updates (os @ [Got e ms]) = updates os"
  "updates (os @ [Did f r]) = updates os + (if r = NotSent then 0 else 1)"
  by (simp_all add: updates_def)

lemma requests_simps [simp]: "requests [] = 0" "requests (os @ [Did f r]) = requests os"
  "requests (os @ [Got e ms]) = requests os + (case e of UpdateRequest q \<Rightarrow> 1 | _ \<Rightarrow> 0)"
  by (simp_all add: requests_def split: RfbInputEvent.splits)

text \<open>Whether the next H.264 frame has to be a key frame, read off the observations alone: nothing was sent since the
  start, since the encoding was taken up again, since a full update was asked for, or since a resize.\<close>

definition must_key_step :: "vnc_obs \<Rightarrow> bool \<Rightarrow> bool" where
  "must_key_step ob waiting =
     (case ob of
        Got (SetEncodings enabled resumed) ms \<Rightarrow> resumed \<or> waiting
      | Got (UpdateRequest q) ms \<Rightarrow> \<not> fu_incremental q \<or> waiting
      | Got e ms \<Rightarrow> waiting
      | Did f FrameSent \<Rightarrow> False
      | Did f DesktopSizeSent \<Rightarrow> True
      | Did f NotSent \<Rightarrow> waiting)"

definition must_key :: "vnc_obs list \<Rightarrow> bool" where
  "must_key os = fold must_key_step os True"

lemma must_key_snoc [simp]: "must_key [] = True" "must_key (os @ [ob]) = must_key_step ob (must_key os)"
  by (simp_all add: must_key_def)

definition keyed :: "vnc_obs list \<Rightarrow> bool" where
  "keyed os \<longleftrightarrow> (\<forall>os1 f os2. os = os1 @ Did f FrameSent # os2 \<longrightarrow> must_key os1 \<longrightarrow> (\<exists>d w h q. f = H264Frame d w h True q))"

lemma keyed_snoc: "keyed (os @ [ob]) \<longleftrightarrow> keyed os \<and>
    (\<forall>f. ob = Did f FrameSent \<longrightarrow> must_key os \<longrightarrow> (\<exists>d w h q. f = H264Frame d w h True q))" (is "_ \<longleftrightarrow> _ \<and> ?new")
proof
  assume k: "keyed (os @ [ob])"
  have "keyed os"
    unfolding keyed_def
  proof (intro allI impI)
    fix os1 f os2
    assume "os = os1 @ Did f FrameSent # os2" and m: "must_key os1"
    then have "os @ [ob] = os1 @ Did f FrameSent # (os2 @ [ob])" by simp
    then show "\<exists>d w h q. f = H264Frame d w h True q" using k m unfolding keyed_def by blast
  qed
  moreover have ?new using k unfolding keyed_def by blast
  ultimately show "keyed os \<and> ?new" by blast
next
  assume k: "keyed os \<and> ?new"
  show "keyed (os @ [ob])"
    unfolding keyed_def
  proof (intro allI impI)
    fix os1 f os2
    assume c: "os @ [ob] = os1 @ Did f FrameSent # os2" "must_key os1"
    show "\<exists>d w h q. f = H264Frame d w h True q"
    proof (cases os2 rule: rev_cases)
      case Nil
      then show ?thesis using k c by simp
    next
      case (snoc os2' x)
      then have "os = os1 @ Did f FrameSent # os2'" using c(1) by simp
      then show ?thesis using k c(2) unfolding keyed_def by blast
    qed
  qed
qed

lemma decode_message_effect:
  assumes "decode_message m c = (Inr event, c')"
  shows "rc_pending_request c' = None \<longleftrightarrow> rc_pending_request c = None \<and> (\<forall>q. event \<noteq> UpdateRequest q)"
    and "vnc_encoding (rc_config c) = OpenH264 \<Longrightarrow> rc_waiting_keyframe c' = must_key_step (Got event ms) (rc_waiting_keyframe c)"
    and "rc_last_buttons c' = (case event of RfbPointer x y b p \<Rightarrow> b | _ \<Rightarrow> rc_last_buttons c)"
    and "\<And>x y b p. event = RfbPointer x y b p \<Longrightarrow> p = rc_last_buttons c"
  using assms
  by (auto simp: decode_message_def Let_def set_encodings_def update_request_def must_key_step_def configured_encoding_enabled_def
      split: if_splits option.splits)

lemma decode_input_effect:
  assumes "decode_buffered_input c = (Inr (Some event), c')"
  shows "rc_pending_request c' = None \<longleftrightarrow> rc_pending_request c = None \<and> (\<forall>q. event \<noteq> UpdateRequest q)"
    and "vnc_encoding (rc_config c) = OpenH264 \<Longrightarrow> rc_waiting_keyframe c' = must_key_step (Got event ms) (rc_waiting_keyframe c)"
    and "rc_last_buttons c' = (case event of RfbPointer x y b p \<Rightarrow> b | _ \<Rightarrow> rc_last_buttons c)"
    and "\<And>x y b p. event = RfbPointer x y b p \<Longrightarrow> p = rc_last_buttons c"
proof -
  obtain n where m: "decode_message (take n (rc_input_buffer c)) (c\<lparr>rc_input_buffer := drop n (rc_input_buffer c)\<rparr>) = (Inr event, c')"
    using assms by (auto simp: decode_buffered_input_def split: sum.splits option.splits prod.splits if_splits)
  show "rc_pending_request c' = None \<longleftrightarrow> rc_pending_request c = None \<and> (\<forall>q. event \<noteq> UpdateRequest q)"
    "vnc_encoding (rc_config c) = OpenH264 \<Longrightarrow> rc_waiting_keyframe c' = must_key_step (Got event ms) (rc_waiting_keyframe c)"
    "rc_last_buttons c' = (case event of RfbPointer x y b p \<Rightarrow> b | _ \<Rightarrow> rc_last_buttons c)"
    "\<And>x y b p. event = RfbPointer x y b p \<Longrightarrow> p = rc_last_buttons c"
    using decode_message_effect [OF m] by (simp_all split: RfbInputEvent.splits)
qed

lemma key_event_only [simp]:
  "rc_pending_request (snd (key_event_to_hid down k c)) = rc_pending_request c"
  "rc_config (snd (key_event_to_hid down k c)) = rc_config c"
  "rc_waiting_keyframe (snd (key_event_to_hid down k c)) = rc_waiting_keyframe c"
  "rc_last_buttons (snd (key_event_to_hid down k c)) = rc_last_buttons c"
  by (auto simp: key_event_to_hid_def Let_def split: option.splits prod.splits)

lemma client_run_config: "client_run c0 os c \<Longrightarrow> rc_config c = rc_config c0"
  by (induction rule: client_run.induct)
    (auto dest: decode_bufferedD(2) elim!: send_frame_cases simp: set_size_def)

lemma client_run_pending:
  assumes "client_run c0 os c" and "rc_pending_request c0 = None"
  shows "updates os + (if rc_pending_request c = None then 0 else 1) \<le> requests os"
  using assms
proof (induction rule: client_run.induct)
  case (input os c event c')
  then show ?case using decode_input_effect(1) [OF input.hyps(2)] by (cases event) (auto split: if_splits)
next
  case (sends os c frame outcome c')
  from sends.hyps(2) show ?case
    by (cases rule: send_frame_cases) (use sends.IH sends.prems in \<open>auto simp: set_size_def split: if_splits\<close>)
qed auto

lemma client_run_waiting:
  assumes "client_run c0 os c" and "rc_waiting_keyframe c0" and "vnc_encoding (rc_config c0) = OpenH264"
  shows "rc_waiting_keyframe c = must_key os \<and> keyed os"
  using assms
proof (induction rule: client_run.induct)
  case begins
  then show ?case by (simp add: keyed_def)
next
  case (input os c event c')
  have "vnc_encoding (rc_config c) = OpenH264" using client_run_config [OF input.hyps(1)] input.prems by simp
  then show ?case using input.IH input.prems decode_input_effect(2) [OF input.hyps(2)] by (simp add: keyed_snoc)
next
  case (sends os c frame outcome c')
  have e: "vnc_encoding (rc_config c) = OpenH264" using client_run_config [OF sends.hyps(1)] sends.prems by simp
  from sends.hyps(2) show ?case
    by (cases rule: send_frame_cases) (use sends.IH sends.prems e in \<open>auto simp: set_size_def must_key_step_def keyed_snoc\<close>)
qed auto



section \<open>Pointer buttons\<close>

definition press :: "MouseEvent \<Rightarrow> MouseButton set \<Rightarrow> MouseButton set" where
  "press e H =
     (case (ms_event_type e, ms_button e) of
        (MouseDown, Some b) \<Rightarrow> insert b H
      | (MouseUp, Some b) \<Rightarrow> H - {b}
      | _ \<Rightarrow> H)"

definition buttons_of :: "u8 \<Rightarrow> MouseButton set" where
  "buttons_of m = (if bit m 0 then {ButtonLeft} else {}) \<union> (if bit m 1 then {ButtonMiddle} else {}) \<union>
     (if bit m 2 then {ButtonRight} else {})"

definition mouse_events :: "vnc_obs list \<Rightarrow> MouseEvent list" where
  "mouse_events os = concat (map (\<lambda>ob. case ob of Got e ms \<Rightarrow> ms | _ \<Rightarrow> []) os)"

lemma mouse_events_snoc [simp]: "mouse_events [] = []" "mouse_events (os @ [Got e ms]) = mouse_events os @ ms"
  "mouse_events (os @ [Did f r]) = mouse_events os"
  by (simp_all add: mouse_events_def)

lemma press_simps [simp]:
  "press (move_abs x y) H = H" "press (scroll_event d) H = H"
  "press (button_down b) H = insert b H" "press (button_up b) H = H - {b}"
  by (simp_all add: press_def move_abs_def scroll_event_def button_down_def button_up_def)

lemma xor_mask:
  "((m :: u8) XOR p) AND 0x01 = 0 \<longleftrightarrow> bit m 0 = bit p 0" "(m XOR p) AND 0x02 = 0 \<longleftrightarrow> bit m 1 = bit p 1"
  "(m XOR p) AND 0x04 = 0 \<longleftrightarrow> bit m 2 = bit p 2"
  using bit_mask_0 [of "m XOR p"] bit_mask_1 [of "m XOR p"] bit_mask_2 [of "m XOR p"] by (auto simp: bit_xor_iff)

lemma press_buttons: "fold press (button_events m p) (buttons_of p) = buttons_of m"
  by (cases "bit m 0"; cases "bit m 1"; cases "bit m 2"; cases "bit p 0"; cases "bit p 1"; cases "bit p 2";
    simp add: button_events_def buttons_of_def xor_mask bit_mask_0 bit_mask_1 bit_mask_2) auto

lemma press_pointer: "fold press (pointer_event_to_hid x y m p w h) (buttons_of p) = buttons_of m"
  by (simp add: pointer_event_to_hid_def press_buttons)

lemma vnc_scale_bound: "unat (vnc_scale_abs v extent) \<le> 32767"
proof -
  have "min (unat v) (unat extent - 1) * 32767 div (unat extent - 1) \<le> 32767" if "unat extent - 1 \<noteq> 0"
    using div_le_mono [of "min (unat v) (unat extent - 1) * 32767" "(unat extent - 1) * 32767" "unat extent - 1"] that by simp
  then show ?thesis by (simp add: vnc_scale_abs_def Let_def unat_of_nat) (meson mod_less_eq_dividend order_trans)
qed

definition within_screen :: "MouseEvent \<Rightarrow> bool" where
  "within_screen e \<longleftrightarrow> (ms_event_type e = MouseMoveAbs \<longrightarrow> unat (ms_x e) \<le> 32767 \<and> unat (ms_y e) \<le> 32767)"

lemma pointer_within: "list_all within_screen (pointer_event_to_hid x y m p w h)"
  by (auto simp: pointer_event_to_hid_def button_events_def within_screen_def move_abs_def scroll_event_def
      button_down_def button_up_def vnc_scale_bound)



section \<open>One client at a time\<close>

definition alone :: "VncService \<Rightarrow> bool" where
  "alone v \<longleftrightarrow> vnc_allow_one_client (sv_config v) \<and> sv_live v \<le> 1 \<and>
     (sv_dying v = 0 \<and> sv_active_clients v = sv_live v \<or> sv_live v = 0 \<and> sv_active_clients v = 0)"

text \<open>A step that neither allows more clients nor accepts one while an aborted task still holds its guard.\<close>

definition drained_step :: "VncService \<Rightarrow> VncService \<Rightarrow> bool" where
  "drained_step v v' \<longleftrightarrow> vnc_step v v' \<and> vnc_allow_one_client (sv_config v') \<and> (v' = vnc_accept v \<longrightarrow> sv_dying v = 0)"

lemma alone_step: "alone v \<Longrightarrow> drained_step v v' \<Longrightarrow> alone v'"
  unfolding drained_step_def
proof (elim conjE)
  assume a: "alone v" and s: "vnc_step v v'" and c: "vnc_allow_one_client (sv_config v')" and d: "v' = vnc_accept v \<longrightarrow> sv_dying v = 0"
  from s show "alone v'"
  proof (cases rule: vnc_step.cases)
    case (start prepared bound)
    then show ?thesis using a by (auto simp: alone_def vnc_start_def Let_def split: sum.splits option.splits)
  next
    case stop
    then show ?thesis using a by (auto simp: alone_def vnc_stop_def)
  next
    case accept
    then have "sv_dying v = 0" using d by simp
    then show ?thesis using a accept(1) by (auto simp: alone_def vnc_accept_def)
  next
    case (client_ends n)
    then show ?thesis using a by (auto simp: alone_def drop_guard_def)
  next
    case (guard_dropped n)
    then show ?thesis using a by (auto simp: alone_def drop_guard_def)
  next
    case (configured config)
    then show ?thesis using a c by (auto simp: alone_def)
  qed
qed

text \<open>C38: With \<open>allow_one_client\<close> there is one client at a time as long as a restart waits for the aborted tasks; since it
  does not, the late drop of an old guard frees the place of the client that came after it, and a second one gets in.\<close>

theorem vnc_one_client_needs_drain:
  assumes "vnc_allow_one_client config" and "vnc_enabled config" and "vnc_password config = Some (p # ps)"
  shows "(\<forall>v. drained_step\<^sup>*\<^sup>* (VncService_new config) v \<longrightarrow> sv_live v \<le> 1) \<and>
    (\<exists>v. vnc_step\<^sup>*\<^sup>* (VncService_new config) v \<and> vnc_allow_one_client (sv_config v) \<and> sv_live v = 2)"
proof (intro conjI allI impI)
  fix v
  assume "drained_step\<^sup>*\<^sup>* (VncService_new config) v"
  moreover have "alone (VncService_new config)" using assms(1) by (simp add: alone_def VncService_new_def)
  ultimately have "alone v" by (induction rule: rtranclp_induct) (auto intro: alone_step)
  then show "sv_live v \<le> 1" by (simp add: alone_def)
next
  let ?v = "\<lambda>st l a n d. \<lparr>sv_config = config, sv_status = st, sv_listening = l, sv_active_clients = a, sv_live = n, sv_dying = d\<rparr>"
  have start: "vnc_step (?v VncStopped l a n d) (?v VncRunning True a n d)" for l a n d
    using vnc_step.start [of "?v VncStopped l a n d" "Inr ()" "Inr ()"] assms by (simp add: vnc_start_def)
  have accept: "vnc_step (?v VncRunning True 0 n d) (?v VncRunning True 1 (n + 1) d)" for n d
    using vnc_step.accept [of "?v VncRunning True 0 n d"] assms by (simp add: vnc_accept_def)
  have stop: "vnc_step (?v VncRunning True 1 1 0) (?v VncStopped False 0 0 1)"
    using vnc_step.stop [of "?v VncRunning True 1 1 0"] by (simp add: vnc_stop_def)
  have late: "vnc_step (?v VncRunning True 1 1 1) (?v VncRunning True 0 1 0)"
    using vnc_step.guard_dropped [of "?v VncRunning True 1 1 1" 0] by (simp add: drop_guard_def)
  have step: "vnc_step\<^sup>*\<^sup>* v0 v \<Longrightarrow> vnc_step v v' \<Longrightarrow> vnc_step\<^sup>*\<^sup>* v0 v'" for v0 v v' by (rule rtranclp.rtrancl_into_rtrancl)
  have "vnc_step\<^sup>*\<^sup>* (?v VncStopped False 0 0 0) (?v VncStopped False 0 0 0)" by simp
  from step [OF this start] have "vnc_step\<^sup>*\<^sup>* (?v VncStopped False 0 0 0) (?v VncRunning True 0 0 0)" .
  from step [OF this accept] have "vnc_step\<^sup>*\<^sup>* (?v VncStopped False 0 0 0) (?v VncRunning True 1 1 0)" by simp
  from step [OF this stop] have "vnc_step\<^sup>*\<^sup>* (?v VncStopped False 0 0 0) (?v VncStopped False 0 0 1)" .
  from step [OF this start] have "vnc_step\<^sup>*\<^sup>* (?v VncStopped False 0 0 0) (?v VncRunning True 0 0 1)" .
  from step [OF this accept] have "vnc_step\<^sup>*\<^sup>* (?v VncStopped False 0 0 0) (?v VncRunning True 1 1 1)" by simp
  from step [OF this late] have "vnc_step\<^sup>*\<^sup>* (?v VncStopped False 0 0 0) (?v VncRunning True 0 1 0)" .
  from step [OF this accept] have "vnc_step\<^sup>*\<^sup>* (?v VncStopped False 0 0 0) (?v VncRunning True 1 2 0)" by (simp add: numeral_2_eq_2)
  then show "\<exists>v. vnc_step\<^sup>*\<^sup>* (VncService_new config) v \<and> vnc_allow_one_client (sv_config v) \<and> sv_live v = 2"
    using assms(1) by (intro exI [of _ "?v VncRunning True 1 2 0"]) (simp add: VncService_new_def)
qed

theorem vnc_one_client_needs_drain_witness:
  "\<exists>v. vnc_step\<^sup>*\<^sup>* (VncService_new \<lparr>vnc_enabled = True, vnc_encoding = TightJpeg, vnc_allow_one_client = True,
    vnc_password = Some ''pw''\<rparr>) v \<and> sv_live v = 2"
  using vnc_one_client_needs_drain [of "\<lparr>vnc_enabled = True, vnc_encoding = TightJpeg, vnc_allow_one_client = True,
    vnc_password = Some ''pw''\<rparr>"] by auto

end
