(* ===== verification/VncWire.thy ===== *)
theory VncWire
  imports VncRfb
begin

text \<open>
  What travels on a VNC connection: a handshake succeeds only for the DES response to the challenge, a viewer
  reads every update back, and the messages of a viewer are decoded whatever way the stream is cut.
\<close>

unbundle bit_operations_syntax

section \<open>Authentication\<close>

definition in_octets :: "(string + bytes) list \<Rightarrow> bytes" where
  "in_octets src = concat (map (\<lambda>r. case r of Inl e \<Rightarrow> [] | Inr chunk \<Rightarrow> chunk) src)"

lemma in_octets_simps [simp]:
  "in_octets [] = []" "in_octets (Inl e # src) = in_octets src" "in_octets (Inr chunk # src) = chunk @ in_octets src"
  by (simp_all add: in_octets_def)

definition unread :: "RfbClient \<Rightarrow> bytes" where
  "unread c = in_octets (tcp_in (rc_stream c))"

lemma take_exact_ok:
  assumes "take_exact n got src = (Inr bs, src')" and "length got \<le> n"
  shows "\<exists>used. bs = got @ used \<and> in_octets src = used @ in_octets src' \<and> length bs = n"
  using assms
proof (induction n got src rule: take_exact.induct)
  case (3 n got chunk src)
  show ?case
  proof (cases "length got \<ge> n \<or> length chunk > n - length got")
    case True
    then show ?thesis using "3.prems" by (auto split: if_splits)
  next
    case False
    then have "chunk \<noteq> []" "take_exact n (got @ chunk) src = (Inr bs, src')" "length (got @ chunk) \<le> n"
      using "3.prems" by (auto split: if_splits)
    then show ?thesis using "3.IH" False by auto
  qed
qed (auto split: if_splits)

lemma read_exact_ok:
  assumes "rc_read_exact n c = (Inr bs, c')"
  shows "unread c = bs @ unread c'" and "length bs = n" and "rc_config c' = rc_config c"
  using assms take_exact_ok [of n "[]"] by (auto simp: rc_read_exact_def unread_def split: prod.splits)

lemma read_u8_ok:
  assumes "rc_read_u8 c = (Inr b, c')"
  shows "unread c = [b] @ unread c'" and "rc_config c' = rc_config c"
proof -
  obtain bs where "rc_read_exact 1 c = (Inr bs, c')" "b = bs ! 0"
    using assms by (auto simp: rc_read_u8_def sx_bind_Inr sx_Inr)
  then show "unread c = [b] @ unread c'" "rc_config c' = rc_config c"
    using read_exact_ok [of 1 c bs c'] by (cases bs; simp)+
qed

lemma write_ok:
  assumes "rc_write d c = (r, c')"
  shows "unread c' = unread c" and "rc_config c' = rc_config c"
  using assms by (auto simp: rc_write_def unread_def Let_def split: list.splits option.splits)

lemma wireD:
  "rc_write d c = (r, c') \<Longrightarrow> unread c' = unread c \<and> rc_config c' = rc_config c"
  "rc_read_exact n c = (Inr bs, c') \<Longrightarrow> unread c = bs @ unread c' \<and> length bs = n \<and> rc_config c' = rc_config c"
  "rc_read_u8 c = (Inr b, c') \<Longrightarrow> unread c = [b] @ unread c' \<and> rc_config c' = rc_config c"
  by (simp_all add: write_ok read_exact_ok read_u8_ok)

lemma security_choice_ok:
  assumes "security_choice version c = (Inr (), c')"
  shows "unread c = (if version = V3_3 then [] else [SECURITY_TYPE_VNC_AUTH]) @ unread c'" and "rc_config c' = rc_config c"
  using assms
  by (auto simp: security_choice_def sx_bind_Inr sx_Inr split: RfbVersion.splits if_splits dest!: wireD)

definition vnc_response :: "(bytes \<Rightarrow> bytes \<Rightarrow> bytes) \<Rightarrow> bytes \<Rightarrow> VncConfig \<Rightarrow> bytes" where
  "vnc_response des challenge config =
     encrypt_vnc_challenge des challenge (case vnc_password config of None \<Rightarrow> [] | Some p \<Rightarrow> string_bytes p)"

lemma vnc_auth_ok:
  assumes "handle_vnc_auth des challenge version c = (Inr (), c')"
  shows "unread c = vnc_response des challenge (rc_config c) @ unread c'" and "rc_config c' = rc_config c"
    and "length (vnc_response des challenge (rc_config c)) = 16"
  using assms
  by (auto simp: handle_vnc_auth_def vnc_response_def sx_bind_Inr sx_Inr Let_def split: if_splits dest!: wireD)

text \<open>C9: A client is let in only if, after the version and the choice of VNC authentication, its sixteen octets are the
  encryption of the challenge under the configured password; and only with the configured encoding enabled.\<close>

theorem vnc_handshake_authenticates:
  assumes "handshake des challenge c = (Inr (), c')"
  shows "\<exists>line version shared later.
    unread c = line @ (if version = V3_3 then [] else [SECURITY_TYPE_VNC_AUTH]) @
      vnc_response des challenge (rc_config c) @ [shared] @ later \<and>
    length line = 12 \<and> parse_rfb_version line = Inr version \<and> length (vnc_response des challenge (rc_config c)) = 16 \<and>
    configured_encoding_enabled c'"
proof -
  obtain c1 line c2 version c3 c4 shared c5 c6 where s: "rc_write (string_bytes ''RFB 003.008'' @ [0x0A]) c = (Inr (), c1)"
    "rc_read_exact 12 c1 = (Inr line, c2)" "parse_rfb_version line = Inr version" "security_choice version c2 = (Inr (), c3)"
    "handle_vnc_auth des challenge version c3 = (Inr (), c4)" "rc_read_u8 c4 = (Inr shared, c5)"
    "validate_encoding_policy c6 = (Inr (), c')"
    using assms by (auto simp: handshake_def sx_bind_Inr sx_Inr)
  have "configured_encoding_enabled c'" using s(7) by (auto simp: validate_encoding_policy_def split: if_splits)
  moreover have "rc_config c3 = rc_config c"
    using write_ok(2) [OF s(1)] read_exact_ok(3) [OF s(2)] security_choice_ok(2) [OF s(4)] by simp
  ultimately show ?thesis
    using s(3) write_ok(1) [OF s(1)] read_exact_ok(1,2) [OF s(2)] security_choice_ok(1) [OF s(4)] vnc_auth_ok [OF s(5)] read_u8_ok(1) [OF s(6)]
    by (intro exI [of _ line] exI [of _ version] exI [of _ shared] exI [of _ "unread c5"]) simp
qed

definition plain_config :: VncConfig where
  "plain_config = \<lparr>vnc_enabled = True, vnc_encoding = OpenH264, vnc_allow_one_client = True, vnc_password = Some ''pw''\<rparr>"

text \<open>A viewer of version 3.3 that echoes the challenge, for a cipher that does not change its block.\<close>

definition echo_viewer :: RfbClient where
  "echo_viewer = RfbClient_new
     \<lparr>tcp_in = [Inr (string_bytes ''RFB 003.003'' @ [0x0A]), Inr (replicate 16 7), Inr [1, 2, 0, 0, 1, 0, 0, 0, 50]],
      tcp_out = [], tcp_faults = []\<rparr> plain_config"

lemma echo_viewer_enters: "fst (handshake (\<lambda>key block. block) (replicate 16 7) echo_viewer) = Inr ()"
  by code_simp

theorem vnc_handshake_authenticates_witness:
  "configured_encoding_enabled (snd (handshake (\<lambda>key block. block) (replicate 16 7) echo_viewer))"
  using vnc_handshake_authenticates [of "\<lambda>key block. block" "replicate 16 7" echo_viewer] echo_viewer_enters
  by (metis prod.collapse)

section \<open>What a viewer reads\<close>

text \<open>A viewer of the protocol: one rectangle per update, Tight JPEG, Open H.264 or a new desktop size.\<close>

datatype shown = ShowJpeg nat nat bytes | ShowH264 nat nat nat bytes | NewSize nat nat

definition read_compact :: "bytes \<Rightarrow> (nat \<times> bytes) option" where
  "read_compact bs =
     (case bs of
        a # bs \<Rightarrow>
          if unat a < 128 then Some (unat a, bs)
          else (case bs of
              b # bs \<Rightarrow>
                if unat b < 128 then Some (unat a - 128 + 128 * unat b, bs)
                else (case bs of
                    c # bs \<Rightarrow> Some (unat a - 128 + 128 * (unat b - 128) + 16384 * unat c, bs)
                  | [] \<Rightarrow> None)
            | [] \<Rightarrow> None)
      | [] \<Rightarrow> None)"

definition read_body :: "nat \<Rightarrow> bytes \<Rightarrow> (bytes \<times> bytes) option" where
  "read_body n bs = (if length bs < n then None else Some (take n bs, drop n bs))"

definition read_update :: "bytes \<Rightarrow> (shown \<times> bytes) option" where
  "read_update bs =
     (if length bs < 16 \<or> take 8 bs \<noteq> [0, 0, 0, 1, 0, 0, 0, 0] then None
      else
        let w = be_val (slice_of 8 10 bs); h = be_val (slice_of 10 12 bs); e = be_val (slice_of 12 16 bs); rest = drop 16 bs
        in if e = unat ENCODING_TIGHT then
             (if rest = [] \<or> hd rest \<noteq> 0x9F then None
              else Option.bind (read_compact (tl rest)) (\<lambda>(n, rest).
                map_option (apfst (ShowJpeg w h)) (read_body n rest)))
           else if e = unat ENCODING_H264 then
             (if length rest < 8 then None
              else map_option (apfst (ShowH264 w h (be_val (slice_of 4 8 rest)))) (read_body (be_val (take 4 rest)) (drop 8 rest)))
           else if e = unat ENCODING_DESKTOP_SIZE then Some (NewSize w h, rest)
           else None)"

definition shown_of :: "RfbFrame \<Rightarrow> bool \<Rightarrow> shown" where
  "shown_of frame reset =
     (case frame of
        JpegFrame data w h q \<Rightarrow> ShowJpeg (unat w) (unat h) data
      | H264Frame data w h k q \<Rightarrow> ShowH264 (unat w) (unat h) (of_bool reset) data)"

lemma or_0x80: "x < 128 \<Longrightarrow> unat ((of_nat x :: u8) OR 0x80) = 128 + x"
proof -
  assume x: "x < 128"
  then have "\<not> bit x 7" by (simp add: bit_iff_odd)
  then have "\<not> bit (of_nat x :: u8) 7" by (simp add: bit_of_nat_iff)
  then have "(of_nat x :: u8) AND 0x80 = 0" using bit_mask_7 by blast
  then have "(of_nat x :: u8) OR 0x80 = of_nat (x + 128)" using word_plus_and_or [of "of_nat x :: u8" "0x80"] by simp
  moreover have "unat (of_nat (x + 128) :: u8) = x + 128" using x by (simp add: unat_of_nat del: of_nat_add)
  ultimately show ?thesis by simp
qed

lemma read_compact_len:
  assumes "n \<le> 0x3fffff"
  shows "read_compact (compact_len n @ rest) = Some (n, rest)"
proof -
  let ?a = "n mod 128" and ?b = "n div 128 mod 128" and ?c = "n div 16384"
  have c: "?c < 256" using assms by (simp add: less_mult_imp_div_less)
  have ab: "?a < 128" "?b < 128" by simp_all
  have whole: "?a + 128 * ?b + 16384 * ?c = n"
  proof -
    have "n div 128 = ?b + 128 * (n div 128 div 128)" by simp
    moreover have "n div 128 div 128 = ?c" by (simp add: div_mult2_eq [symmetric])
    ultimately show ?thesis using div_mult_mod_eq [of n 128] by linarith
  qed
  have two: "n < 16384 \<Longrightarrow> ?c = 0" by simp
  consider "n \<le> 127" | "127 < n" "n \<le> 16383" | "16383 < n" by linarith
  then show ?thesis
  proof cases
    case 1
    then show ?thesis by (simp add: compact_len_def read_compact_def unat_of_nat)
  next
    case 2
    then have "?b < 128" "?a + 128 * ?b = n" using whole two by simp_all
    then show ?thesis using 2 or_0x80 [OF ab(1)] by (simp add: compact_len_def read_compact_def unat_of_nat)
  next
    case 3
    then show ?thesis using or_0x80 [OF ab(1)] or_0x80 [OF ab(2)] whole c
      by (simp add: compact_len_def read_compact_def unat_of_nat)
  qed
qed

text \<open>On a connection whose writes succeed.\<close>

abbreviation wrote :: "RfbClient \<Rightarrow> bytes \<Rightarrow> RfbClient" where
  "wrote c out \<equiv> c\<lparr>rc_stream := (rc_stream c)\<lparr>tcp_out := tcp_out (rc_stream c) @ out\<rparr>\<rparr>"

lemma writes_quiet:
  "tcp_faults (rc_stream c) = [] \<Longrightarrow> rc_writes ds c = (Inr (), wrote c (concat ds))"
proof (induction ds arbitrary: c)
  case (Cons d ds)
  have "rc_write d c = (Inr (), wrote c d)" using Cons.prems by (simp add: rc_write_def Let_def)
  then show ?case using Cons.IH [of "wrote c d"] Cons.prems by (simp add: sx_simps)
qed (simp add: sx_simps)

lemma header_length: "length (concat (frame_header w h e)) = 16"
  by (simp add: frame_header_def)

lemma header_read:
  assumes "bs = concat (frame_header w h e) @ rest"
  shows "length bs < 16 \<longleftrightarrow> False" "take 8 bs = [0, 0, 0, 1, 0, 0, 0, 0]" "be_val (slice_of 8 10 bs) = unat w"
    "be_val (slice_of 10 12 bs) = unat h" "be_val (slice_of 12 16 bs) = unat e" "drop 16 bs = rest"
proof -
  have b: "be_bytes 2 1 = [0, 1]" "be_bytes 2 0 = [0, 0]" by (simp_all add: be_bytes_def numeral_2_eq_2)
  have bs: "bs = [0, 0, 0, 1, 0, 0, 0, 0] @ be_bytes 2 (unat w) @ be_bytes 2 (unat h) @ be_bytes 4 (unat e) @ rest"
    using assms b by (simp add: frame_header_def)
  show "length bs < 16 \<longleftrightarrow> False" "take 8 bs = [0, 0, 0, 1, 0, 0, 0, 0]" "drop 16 bs = rest" by (simp_all add: bs)
  have w: "unat w < 65536" "unat h < 65536" "unat e < 4294967296" using unsigned_less [of w] unsigned_less [of h] unsigned_less [of e] by simp_all
  show "be_val (slice_of 8 10 bs) = unat w" "be_val (slice_of 10 12 bs) = unat h" "be_val (slice_of 12 16 bs) = unat e"
    using w by (simp_all add: bs slice_of_def be_val_be_bytes)
qed

lemma read_update_header:
  "read_update (concat (frame_header w h e) @ rest) =
     (if e = ENCODING_TIGHT then
        (if rest = [] \<or> hd rest \<noteq> 0x9F then None
         else Option.bind (read_compact (tl rest)) (\<lambda>(n, rest).
           map_option (apfst (ShowJpeg (unat w) (unat h))) (read_body n rest)))
      else if e = ENCODING_H264 then
        (if length rest < 8 then None
         else map_option (apfst (ShowH264 (unat w) (unat h) (be_val (slice_of 4 8 rest)))) (read_body (be_val (take 4 rest)) (drop 8 rest)))
      else if e = ENCODING_DESKTOP_SIZE then Some (NewSize (unat w) (unat h), rest)
      else None)"
  unfolding read_update_def header_read [OF refl] Let_def word_unat_eq_iff by simp

text \<open>C11: Whatever octets follow, a viewer reads each update back as the frame it was made from, or as the new size.\<close>

theorem vnc_frames_readable:
  assumes quiet: "tcp_faults (rc_stream c) = []" and sent: "send_frame frame c = (Inr outcome, c')"
    and small: "length (rf_data frame) < 2 ^ 32"
  shows "\<exists>out. tcp_out (rc_stream c') = tcp_out (rc_stream c) @ out \<and>
    (case outcome of
       NotSent \<Rightarrow> out = []
     | FrameSent \<Rightarrow> \<forall>rest. read_update (out @ rest) = Some (shown_of frame (rc_waiting_keyframe c), rest)
     | DesktopSizeSent \<Rightarrow> \<forall>rest. read_update (out @ rest) = Some (NewSize (unat (rf_width frame)) (unat (rf_height frame)), rest))"
proof -
  consider (none) "outcome = NotSent" "c' = c"
    | (size) "outcome = DesktopSizeSent" "tcp_out (rc_stream c') = tcp_out (rc_stream c) @
        concat (frame_header (rf_width frame) (rf_height frame) ENCODING_DESKTOP_SIZE)"
    | (jpeg) data width height q where "outcome = FrameSent" "frame = JpegFrame data width height q" "length data \<le> 0x3fffff"
        "tcp_out (rc_stream c') = tcp_out (rc_stream c) @ concat (frame_header width height ENCODING_TIGHT) @
           0x9F # compact_len (length data) @ data"
    | (h264) data width height k q where "outcome = FrameSent" "frame = H264Frame data width height k q"
        "tcp_out (rc_stream c') = tcp_out (rc_stream c) @ concat (frame_header width height ENCODING_H264) @
           be_bytes 4 (length data) @ be_bytes 4 (of_bool (rc_waiting_keyframe c)) @ data"
  proof (cases frame)
    case (JpegFrame data width height q)
    then show thesis
      using sent size jpeg [OF _ JpegFrame] none
      by (auto simp: send_frame_def send_resize_def set_size_def write_tight_jpeg_payload_def mark_sent_def sx_simps writes_quiet quiet
          simp del: rc_writes.simps split: if_splits option.splits)
  next
    case (H264Frame data width height k q)
    then show thesis
      using sent size h264 [OF _ H264Frame] none
      by (auto simp: send_frame_def send_resize_def set_size_def mark_sent_def sx_simps writes_quiet quiet
          simp del: rc_writes.simps split: if_splits option.splits)
  qed
  then show ?thesis
  proof cases
    case size
    then show ?thesis by (simp add: read_update_header) (simp add: rfb_consts)
  next
    case jpeg
    then show ?thesis using read_compact_len [OF jpeg(3)]
      by (simp add: read_update_header shown_of_def read_body_def)
  next
    case h264
    have "be_val (take 4 (be_bytes 4 (length data) @ x)) = length data" for x
      using small h264(2) by (simp add: be_val_be_bytes)
    moreover have "be_val (slice_of 4 8 (be_bytes 4 (length data) @ be_bytes 4 (of_bool b) @ x)) = of_bool b" for x b
      by (simp add: slice_of_def be_val_be_bytes)
    moreover have "ENCODING_H264 \<noteq> ENCODING_TIGHT" by (simp add: rfb_consts)
    ultimately show ?thesis
      using h264 by (simp add: read_update_header shown_of_def read_body_def)
  qed simp
qed

theorem vnc_frames_readable_witness:
  "\<exists>out c'. send_frame (H264Frame [1, 2, 3] 800 600 True 1)
     (RfbClient_new \<lparr>tcp_in = [], tcp_out = [], tcp_faults = []\<rparr> plain_config
       \<lparr>rc_encodings := no_encodings\<lparr>has_h264 := True\<rparr>, rc_pending_request := Some True\<rparr>) = (Inr FrameSent, c') \<and>
     tcp_out (rc_stream c') = out \<and> read_update out = Some (ShowH264 800 600 1 [1, 2, 3], [])"
proof -
  let ?c = "RfbClient_new \<lparr>tcp_in = [], tcp_out = [], tcp_faults = []\<rparr> plain_config
       \<lparr>rc_encodings := no_encodings\<lparr>has_h264 := True\<rparr>, rc_pending_request := Some True\<rparr>"
  let ?f = "H264Frame [1, 2, 3] 800 600 True 1"
  have q: "tcp_faults (rc_stream ?c) = []" by (simp add: RfbClient_new_def)
  have "\<exists>c'. send_frame ?f ?c = (Inr FrameSent, c')"
    by (simp add: send_frame_def configured_encoding_enabled_def RfbClient_new_def plain_config_def frame_size_def
        writes_quiet sx_simps mark_sent_def del: rc_writes.simps)
  then obtain c' where c': "send_frame ?f ?c = (Inr FrameSent, c')" by blast
  have "length (rf_data ?f) < 2 ^ 32" by simp
  from vnc_frames_readable [OF q c' this] obtain out where out: "tcp_out (rc_stream c') = out"
    "\<forall>rest. read_update (out @ rest) = Some (shown_of ?f (rc_waiting_keyframe ?c), rest)"
    by (auto simp: RfbClient_new_def)
  from out(2) [rule_format, of "[]"] have "read_update out = Some (ShowH264 800 600 1 [1, 2, 3], [])"
    by (simp add: shown_of_def RfbClient_new_def)
  then show ?thesis using c' out(1) by blast
qed

end
