(* ===== verification/VncStream.thy ===== *)
theory VncStream
  imports VncWire
begin

text \<open>
  The messages of a viewer, encoded one after the other and cut into reads in any way, are decoded to what they
  say: the decoder of \<open>vnc/rfb.rs\<close> is an incremental decoder (locale \<open>stream_decoder\<close>).
\<close>

unbundle bit_operations_syntax

section \<open>What a viewer says\<close>

datatype viewer_message =
    SayPixelFormat RfbPixelFormat
  | SayEncodings "u32 list"
  | AskUpdate FramebufferUpdateRequest
  | SayKey bool u32
  | SayPointer u8 u16 u16
  | SayCutText bytes

primrec viewer_bytes :: "viewer_message \<Rightarrow> bytes" where
  "viewer_bytes (SayPixelFormat f) = [0, 0, 0, 0] @ pixel_format_bytes f"
| "viewer_bytes (SayEncodings es) = [2, 0] @ be_bytes 2 (length es) @ concat (map (\<lambda>e. be_bytes 4 (unat e)) es)"
| "viewer_bytes (AskUpdate q) =
     [3, of_bool (fu_incremental q)] @ be_bytes 2 (unat (fu_x q)) @ be_bytes 2 (unat (fu_y q)) @
     be_bytes 2 (unat (fu_width q)) @ be_bytes 2 (unat (fu_height q))"
| "viewer_bytes (SayKey down k) = [4, of_bool down, 0, 0] @ be_bytes 4 (unat k)"
| "viewer_bytes (SayPointer b x y) = [5, b] @ be_bytes 2 (unat x) @ be_bytes 2 (unat y)"
| "viewer_bytes (SayCutText t) = [6, 0, 0, 0] @ be_bytes 4 (length t) @ t"

fun viewer_ok :: "viewer_message \<Rightarrow> bool" where
  "viewer_ok (SayEncodings es) \<longleftrightarrow> length es \<le> MAX_ENCODING_COUNT"
| "viewer_ok (SayCutText t) \<longleftrightarrow> length t \<le> MAX_CLIPBOARD_SIZE"
| "viewer_ok _ \<longleftrightarrow> True"

text \<open>What a message means, without octets.\<close>

definition hear_encodings :: "u32 list \<Rightarrow> RfbClient \<Rightarrow> RfbInputEvent \<times> RfbClient" where
  "hear_encodings es c =
     (let c' = c\<lparr>rc_encodings := fold add_encoding es no_encodings\<rparr>;
          resumed = (\<not> configured_encoding_enabled c \<and> configured_encoding_enabled c')
      in (SetEncodings (configured_encoding_enabled c') resumed,
          c'\<lparr>rc_waiting_keyframe := (rc_waiting_keyframe c \<or> resumed \<and> vnc_encoding (rc_config c) = OpenH264)\<rparr>))"

definition hear_request :: "FramebufferUpdateRequest \<Rightarrow> RfbClient \<Rightarrow> RfbInputEvent \<times> RfbClient" where
  "hear_request q c =
     (UpdateRequest q, c\<lparr>rc_pending_request := Some (rc_pending_request c \<noteq> Some False \<and> fu_incremental q),
        rc_waiting_keyframe := (rc_waiting_keyframe c \<or> \<not> fu_incremental q \<and> vnc_encoding (rc_config c) = OpenH264)\<rparr>)"

primrec hear :: "viewer_message \<Rightarrow> RfbClient \<Rightarrow> RfbInputEvent \<times> RfbClient" where
  "hear (SayPixelFormat f) c = (SetPixelFormat f, c\<lparr>rc_pixel_format := f\<rparr>)"
| "hear (SayEncodings es) c = hear_encodings es c"
| "hear (AskUpdate q) c = hear_request q c"
| "hear (SayKey down k) c = (RfbKey down k, c)"
| "hear (SayPointer b x y) c = (RfbPointer x y b (rc_last_buttons c), c\<lparr>rc_last_buttons := b\<rparr>)"
| "hear (SayCutText t) c = (UnsupportedClientCutText, c)"

primrec hear_all :: "viewer_message list \<Rightarrow> RfbClient \<Rightarrow> RfbInputEvent list \<times> RfbClient" where
  "hear_all [] c = ([], c)"
| "hear_all (m # ms) c = (case hear m c of (ev, c) \<Rightarrow> apfst (Cons ev) (hear_all ms c))"

section \<open>One message\<close>

lemma u16_at_be: "length pre = i \<Longrightarrow> u16_at i (pre @ be_bytes 2 (unat x) @ rest) = x"
proof -
  assume "length pre = i"
  moreover have "unat x < 65536" using unsigned_less [of x] by simp
  ultimately show ?thesis by (simp add: u16_at_def slice_of_def be_val_be_bytes)
qed

lemma u32_at_be: "length pre = i \<Longrightarrow> u32_at i (pre @ be_bytes 4 (unat x) @ rest) = x"
proof -
  assume "length pre = i"
  moreover have "unat x < 4294967296" using unsigned_less [of x] by simp
  ultimately show ?thesis by (simp add: u32_at_def slice_of_def be_val_be_bytes)
qed

lemma pixel_format_read: "parse_pixel_format (pixel_format_bytes f) = f"
proof -
  note u = u16_at_be [of "[bits_per_pixel f, pf_depth f, of_bool (big_endian f), of_bool (true_colour f)]" 4 "red_max f"]
    u16_at_be [of "[bits_per_pixel f, pf_depth f, of_bool (big_endian f), of_bool (true_colour f)] @ be_bytes 2 (unat (red_max f))" 6 "green_max f"]
    u16_at_be [of "[bits_per_pixel f, pf_depth f, of_bool (big_endian f), of_bool (true_colour f)] @ be_bytes 2 (unat (red_max f)) @
      be_bytes 2 (unat (green_max f))" 8 "blue_max f"]
  show ?thesis using u
    by (simp add: parse_pixel_format_def pixel_format_bytes_def nth_append numeral_eq_Suc)
qed

lemma encoding_words_be: "encoding_words (concat (map (\<lambda>e. be_bytes 4 (unat e)) es)) = es"
proof (induction es)
  case (Cons e es)
  have "\<exists>a b c d. xs = [a, b, c, d]" if "length xs = 4" for xs :: bytes using that by (auto simp: numeral_eq_Suc length_Suc_conv)
  then obtain a b c d where "be_bytes 4 (unat e) = [a, b, c, d]" using length_be_bytes by blast
  moreover have "unat e < 4294967296" using unsigned_less [of e] by simp
  then have "(of_nat (be_val (be_bytes 4 (unat e))) :: u32) = e" by (simp add: be_val_be_bytes)
  ultimately show ?case using Cons by simp
qed simp

lemma message_len:
  assumes "viewer_ok m"
  shows "input_message_len (viewer_bytes m @ rest) = Inr (Some (length (viewer_bytes m)))"
proof (cases m)
  case (SayEncodings es)
  have n: "length es < 65536" using assms SayEncodings by (simp add: MAX_ENCODING_COUNT_def)
  have "u16_at 2 (viewer_bytes m @ rest) = of_nat (length es)"
    using u16_at_be [of "[2, 0]" 2 "of_nat (length es)"] n SayEncodings by (simp add: unat_of_nat)
  moreover have "length (concat (map (\<lambda>e. be_bytes 4 (unat e)) es)) = length es * 4" by (induction es) simp_all
  ultimately show ?thesis
    using assms SayEncodings n by (simp add: input_message_len_def Let_def unat_of_nat)
next
  case (SayCutText t)
  have n: "length t < 4294967296" using assms SayCutText by (simp add: MAX_CLIPBOARD_SIZE_def)
  have "u32_at 4 (viewer_bytes m @ rest) = of_nat (length t)"
    using u32_at_be [of "[6, 0, 0, 0]" 4 "of_nat (length t)"] n SayCutText by (simp add: unat_of_nat)
  then show ?thesis using assms SayCutText n by (simp add: input_message_len_def Let_def unat_of_nat)
qed (simp_all add: input_message_len_def Let_def pixel_format_bytes_def)

lemma enabled_buffer [simp]:
  "configured_encoding_enabled (c\<lparr>rc_input_buffer := b\<rparr>) = configured_encoding_enabled c"
  "configured_encoding_enabled (c\<lparr>rc_input_buffer := b, rc_encodings := e\<rparr>) = configured_encoding_enabled (c\<lparr>rc_encodings := e\<rparr>)"
  by (simp_all add: configured_encoding_enabled_def split: VncEncoding.splits)

lemma set_encodings_hear:
  assumes "parse_encodings (drop 4 m) = fold add_encoding es no_encodings"
  shows "set_encodings m c = hear_encodings es c"
proof -
  let ?c = "c\<lparr>rc_encodings := fold add_encoding es no_encodings\<rparr>"
  have cfg: "rc_config ?c = rc_config c" by simp
  have up: "(if p then ?c\<lparr>rc_waiting_keyframe := True\<rparr> else ?c) = ?c\<lparr>rc_waiting_keyframe := (rc_waiting_keyframe c \<or> p)\<rparr>" for p
    by (cases p) simp_all
  show ?thesis unfolding set_encodings_def hear_encodings_def Let_def assms cfg up ..
qed

lemma hear_buffer [simp]: "snd (hear m (c\<lparr>rc_input_buffer := b\<rparr>)) = (snd (hear m c))\<lparr>rc_input_buffer := b\<rparr>"
    "fst (hear m (c\<lparr>rc_input_buffer := b\<rparr>)) = fst (hear m c)"
  by (cases m; simp add: hear_encodings_def hear_request_def Let_def)+

lemma decode_message_hear: "viewer_ok m \<Longrightarrow> decode_message (viewer_bytes m) c = (Inr (fst (hear m c)), snd (hear m c))"
proof (cases m)
  case (SayPixelFormat f)
  have "slice_of 4 20 (viewer_bytes m) = pixel_format_bytes f" using SayPixelFormat by (simp add: slice_of_def pixel_format_bytes_def)
  then show ?thesis using SayPixelFormat pixel_format_read by (simp add: decode_message_def Let_def)
next
  case (SayEncodings es)
  have "drop 4 (viewer_bytes m) = concat (map (\<lambda>e. be_bytes 4 (unat e)) es)" using SayEncodings by simp
  then have "parse_encodings (drop 4 (viewer_bytes m)) = fold add_encoding es no_encodings"
    by (simp add: parse_encodings_def encoding_words_be)
  from set_encodings_hear [OF this] show ?thesis using SayEncodings
    by (simp add: decode_message_def Let_def apfst_def map_prod_def split: prod.split)
next
  case (AskUpdate q)
  note u = u16_at_be [of "[3, of_bool (fu_incremental q)]" 2 "fu_x q"]
    u16_at_be [of "[3, of_bool (fu_incremental q)] @ be_bytes 2 (unat (fu_x q))" 4 "fu_y q"]
    u16_at_be [of "[3, of_bool (fu_incremental q)] @ be_bytes 2 (unat (fu_x q)) @ be_bytes 2 (unat (fu_y q))" 6 "fu_width q"]
    u16_at_be [of "[3, of_bool (fu_incremental q)] @ be_bytes 2 (unat (fu_x q)) @ be_bytes 2 (unat (fu_y q)) @ be_bytes 2 (unat (fu_width q))"
      8 "fu_height q" "[]"]
  show ?thesis using AskUpdate u
    by (auto simp: decode_message_def Let_def update_request_def hear_request_def split: option.splits)
next
  case (SayKey down k)
  then show ?thesis using u32_at_be [of "[4, of_bool down, 0, 0]" 4 k "[]"] by (simp add: decode_message_def Let_def)
next
  case (SayPointer b x y)
  then show ?thesis using u16_at_be [of "[5, b]" 2 x] u16_at_be [of "[5, b] @ be_bytes 2 (unat x)" 4 y "[]"]
    by (simp add: decode_message_def Let_def)
next
  case (SayCutText t)
  then show ?thesis by (simp add: decode_message_def Let_def)
qed

section \<open>The decoder as an incremental decoder\<close>

definition dec_input :: "RfbClient \<Rightarrow> bytes \<Rightarrow> (AppError + RfbInputEvent option) \<times> RfbClient \<times> bytes" where
  "dec_input c b =
     (case decode_buffered_input (c\<lparr>rc_input_buffer := b\<rparr>) of (r, c') \<Rightarrow> (r, c'\<lparr>rc_input_buffer := []\<rparr>, rc_input_buffer c'))"

lemma dec_input_hear:
  "viewer_ok m \<Longrightarrow> dec_input c (viewer_bytes m @ rest) =
     (Inr (Some (fst (hear m c))), (snd (hear m c))\<lparr>rc_input_buffer := []\<rparr>, rest)"
  by (simp add: dec_input_def decode_buffered_input_def message_len decode_message_hear)

lemma u16_at_append: "i + 2 \<le> length b \<Longrightarrow> u16_at i (b @ x) = u16_at i b"
  by (simp add: u16_at_def slice_of_def)

lemma u32_at_append: "i + 4 \<le> length b \<Longrightarrow> u32_at i (b @ x) = u32_at i b"
  by (simp add: u32_at_def slice_of_def)

lemma message_len_append: "input_message_len b \<noteq> Inr None \<Longrightarrow> input_message_len (b @ x) = input_message_len b"
  by (cases "b = []") (auto simp: input_message_len_def Let_def u16_at_append u32_at_append nth_append split: if_splits)

lemma dec_input_cases:
  obtains (fail) e where "input_message_len b = Inl e" "dec_input c b = (Inl e, c\<lparr>rc_input_buffer := []\<rparr>, b)"
    | (wait) "dec_input c b = (Inr None, c\<lparr>rc_input_buffer := []\<rparr>, b)"
    | (whole) n where "input_message_len b = Inr (Some n)" "n \<le> length b"
        "\<And>x. dec_input c (b @ x) = (case decode_message (take n b) (c\<lparr>rc_input_buffer := drop n b @ x\<rparr>) of
           (Inl e, c') \<Rightarrow> (Inl e, c'\<lparr>rc_input_buffer := []\<rparr>, rc_input_buffer c')
         | (Inr ev, c') \<Rightarrow> (Inr (Some ev), c'\<lparr>rc_input_buffer := []\<rparr>, rc_input_buffer c'))"
proof (cases "input_message_len b")
  case (Inl e)
  then show thesis using fail by (simp add: dec_input_def decode_buffered_input_def)
next
  case (Inr r)
  show thesis
  proof (cases r)
    case None
    then show thesis using Inr wait by (simp add: dec_input_def decode_buffered_input_def)
  next
    case (Some n)
    show thesis
    proof (cases "n \<le> length b")
      case True
      have "dec_input c (b @ x) = (case decode_message (take n b) (c\<lparr>rc_input_buffer := drop n b @ x\<rparr>) of
           (Inl e, c') \<Rightarrow> (Inl e, c'\<lparr>rc_input_buffer := []\<rparr>, rc_input_buffer c')
         | (Inr ev, c') \<Rightarrow> (Inr (Some ev), c'\<lparr>rc_input_buffer := []\<rparr>, rc_input_buffer c'))" for x
        using True Inr Some message_len_append [of b x]
        by (simp add: dec_input_def decode_buffered_input_def split: prod.splits sum.splits)
      then show thesis using whole [of n] Inr Some True by simp
    next
      case False
      then show thesis using Inr Some wait by (simp add: dec_input_def decode_buffered_input_def)
    qed
  qed
qed

lemma decode_message_rest:
  "decode_message m (c\<lparr>rc_input_buffer := b\<rparr>) = apsnd (rc_input_buffer_update (\<lambda>_. b)) (decode_message m c)"
proof -
  have e: "set_encodings m d = hear_encodings (encoding_words (drop 4 m)) d" for d
    by (rule set_encodings_hear) (simp add: parse_encodings_def)
  have "hear_encodings es (c\<lparr>rc_input_buffer := b\<rparr>) = apsnd (rc_input_buffer_update (\<lambda>_. b)) (hear_encodings es c)" for es
    using hear_buffer [of "SayEncodings es" b c] by (simp add: prod_eq_iff)
  moreover have "update_request m (c\<lparr>rc_input_buffer := b\<rparr>) = apsnd (rc_input_buffer_update (\<lambda>_. b)) (update_request m c)"
    by (simp add: update_request_def Let_def)
  ultimately show ?thesis by (simp add: decode_message_def Let_def e apfst_def apsnd_def map_prod_def split: prod.splits)
qed

lemma dec_input_bad: "input_message_len b = Inl e \<Longrightarrow> dec_input c b = (Inl e, c\<lparr>rc_input_buffer := []\<rparr>, b)"
  by (simp add: dec_input_def decode_buffered_input_def)

lemma dec_input_Nil: "dec_input c [] = (Inr None, c\<lparr>rc_input_buffer := []\<rparr>, [])"
  by (simp add: dec_input_def decode_buffered_input_def input_message_len_def)

lemma clear_buffer: "rc_input_buffer c = b \<Longrightarrow> c\<lparr>rc_input_buffer := b\<rparr> = c"
  by (metis RfbClient.surjective RfbClient.update_convs(9))

lemma decode_not_disconnected: "decode_buffered_input c = (Inr (Some ev), c') \<Longrightarrow> ev \<noteq> Disconnected"
  by (auto simp: decode_buffered_input_def decode_message_def Let_def set_encodings_def update_request_def apfst_def map_prod_def
      split: sum.splits option.splits prod.splits if_splits)

lemma dec_input_shorter: "dec_input c b = (Inr (Some ev), c', b') \<Longrightarrow> length b' < length b"
  using decode_bufferedD(4) [of "c\<lparr>rc_input_buffer := b\<rparr>"] by (auto simp: dec_input_def split: prod.splits)

function drain_input :: "RfbClient \<Rightarrow> bytes \<Rightarrow> (AppError, RfbClient, RfbInputEvent) decoded" where
  "drain_input c b =
     (case dec_input c b of
        (Inl e, c', b') \<Rightarrow> ([], Some e, c', b')
      | (Inr None, c', b') \<Rightarrow> ([], None, c', b')
      | (Inr (Some ev), c', b') \<Rightarrow> prepend [ev] (drain_input c' b'))"
  by pat_completeness auto
termination
  by (relation "measure (\<lambda>(c, b). length b)") (auto dest!: dec_input_shorter [OF sym])

declare drain_input.simps [simp del]

fun feed_input :: "RfbClient \<Rightarrow> bytes \<Rightarrow> bytes list \<Rightarrow> (AppError, RfbClient, RfbInputEvent) decoded" where
  "feed_input c b [] = ([], None, c, b)"
| "feed_input c b (x # xs) =
     (case drain_input c (b @ x) of
        (evs, Some e, c', b') \<Rightarrow> (evs, Some e, c', b' @ concat xs)
      | (evs, None, c', b') \<Rightarrow> prepend evs (feed_input c' b' xs))"

lemma dec_input_more:
  "dec_input c b = (Inl e, c', b') \<Longrightarrow> dec_input c (b @ x) = (Inl e, c', b' @ x)"
  "dec_input c b = (Inr (Some ev), c', b') \<Longrightarrow> dec_input c (b @ x) = (Inr (Some ev), c', b' @ x)"
  "dec_input c b = (Inr None, c', b') \<Longrightarrow> dec_input c (b @ x) = dec_input c' (b' @ x)"
proof -
  have idle: "dec_input (c\<lparr>rc_input_buffer := []\<rparr>) y = dec_input c y" for y by (simp add: dec_input_def)
  have *: "(dec_input c b = (Inl e, c', b') \<longrightarrow> dec_input c (b @ x) = (Inl e, c', b' @ x)) \<and>
    (dec_input c b = (Inr (Some ev), c', b') \<longrightarrow> dec_input c (b @ x) = (Inr (Some ev), c', b' @ x)) \<and>
    (dec_input c b = (Inr None, c', b') \<longrightarrow> dec_input c (b @ x) = dec_input c' (b' @ x))"
  proof (cases rule: dec_input_cases [of b c])
    case (fail e)
    then show ?thesis using message_len_append [of b x] dec_input_bad by auto
  next
    case wait
    then show ?thesis using idle by auto
  next
    case (whole n)
    then show ?thesis using whole(3) [of "[]"] whole(3) [of x]
      by (auto simp: decode_message_rest [where c = c and m = "take n b"] apsnd_def map_prod_def split: prod.splits sum.splits)
  qed
  then show "dec_input c b = (Inl e, c', b') \<Longrightarrow> dec_input c (b @ x) = (Inl e, c', b' @ x)"
    "dec_input c b = (Inr (Some ev), c', b') \<Longrightarrow> dec_input c (b @ x) = (Inr (Some ev), c', b' @ x)"
    "dec_input c b = (Inr None, c', b') \<Longrightarrow> dec_input c (b @ x) = dec_input c' (b' @ x)" by blast+
qed

interpretation viewer: stream_decoder dec_input "\<lambda>_. 0" drain_input feed_input
  by unfold_locales (use dec_input_more dec_input_shorter in \<open>simp_all add: drain_input.simps\<close>)

lemma drain_hear:
  assumes "\<forall>m \<in> set ms. viewer_ok m" and "rc_input_buffer c = []"
  shows "drain_input c (concat (map viewer_bytes ms)) = (fst (hear_all ms c), None, snd (hear_all ms c), [])"
  using assms
proof (induction ms arbitrary: c)
  case Nil
  then show ?case by (subst drain_input.simps) (simp add: dec_input_Nil clear_buffer)
next
  case (Cons m ms)
  obtain ev c1 where h: "hear m c = (ev, c1)" by (meson surj_pair)
  have "c\<lparr>rc_input_buffer := []\<rparr> = c" by (rule clear_buffer [OF Cons.prems(2)])
  then have "c1\<lparr>rc_input_buffer := []\<rparr> = c1" using hear_buffer(1) [of m "[]" c] h by simp
  moreover from this have "rc_input_buffer c1 = []" by (metis RfbClient.select_convs(9) RfbClient.surjective RfbClient.update_convs(9))
  ultimately show ?case
    using Cons.IH [of c1] Cons.prems dec_input_hear [of m c "concat (map viewer_bytes ms)"] h clear_buffer [of c1 "[]"]
    by (subst drain_input.simps) (simp add: apfst_def map_prod_def split: prod.split)
qed

section \<open>Reading from the connection\<close>

text \<open>Reading event after event until the connection ends.\<close>

function read_events :: "(string + bytes) list \<Rightarrow> RfbClient \<Rightarrow> RfbInputEvent list \<times> AppError option \<times> RfbClient" where
  "read_events src c =
     (case read_input_loop src c of
        (Inl e, c, src) \<Rightarrow> ([], Some e, c)
      | (Inr ev, c, src) \<Rightarrow> if ev = Disconnected then ([], None, c) else apfst (Cons ev) (read_events src c))"
  by pat_completeness auto
termination
  by (relation "measure (\<lambda>(src, c). length (rc_input_buffer c) + octets_left src)") (auto dest!: read_input_loop_less [OF sym])

declare read_events.simps [simp del]

text \<open>The reads may cut the messages anywhere: reading event after event gives what decoding everything gives.\<close>

lemma read_events_drain:
  assumes "drain_input c (b @ concat chunks) = (evs, None, c', [])" and "[] \<notin> set chunks" and "rc_input_buffer c = []"
  shows "read_events (map Inr chunks) (c\<lparr>rc_input_buffer := b\<rparr>) = (evs, None, c')"
  using assms
proof (induction "2 * (length b + length (concat chunks)) + length chunks" arbitrary: b chunks c evs rule: less_induct)
  case less
  let ?c = "c\<lparr>rc_input_buffer := b\<rparr>"
  obtain r d where d: "decode_buffered_input ?c = (r, d)" by (meson surj_pair)
  then have dec: "dec_input c b = (r, d\<lparr>rc_input_buffer := []\<rparr>, rc_input_buffer d)" by (simp add: dec_input_def)
  consider (fail) e where "r = Inl e" | (none) "r = Inr None" | (some) ev where "r = Inr (Some ev)"
    by (metis sumE option.exhaust)
  then show ?case
  proof cases
    case fail
    then have "drain_input c (b @ concat chunks) = ([], Some e, d\<lparr>rc_input_buffer := []\<rparr>, rc_input_buffer d @ concat chunks)"
      using dec_input_more(1) [of c b e] dec by (subst drain_input.simps) simp
    then show ?thesis using less.prems(1) by simp
  next
    case (some ev)
    have "drain_input c (b @ concat chunks) = prepend [ev] (drain_input (d\<lparr>rc_input_buffer := []\<rparr>) (rc_input_buffer d @ concat chunks))"
      using dec_input_more(2) [of c b ev] dec some by (subst drain_input.simps) simp
    then obtain evs' where evs: "drain_input (d\<lparr>rc_input_buffer := []\<rparr>) (rc_input_buffer d @ concat chunks) = (evs', None, c', [])"
      "evs = ev # evs'" using less.prems(1) by (cases "drain_input (d\<lparr>rc_input_buffer := []\<rparr>) (rc_input_buffer d @ concat chunks)") auto
    have "length (rc_input_buffer d) < length b" using decode_bufferedD(4) [OF d some] by simp
    then have "read_events (map Inr chunks) (d\<lparr>rc_input_buffer := []\<rparr>\<lparr>rc_input_buffer := rc_input_buffer d\<rparr>) = (evs', None, c')"
      by (intro less.hyps evs(1) less.prems(2)) simp_all
    moreover have "d\<lparr>rc_input_buffer := []\<rparr>\<lparr>rc_input_buffer := rc_input_buffer d\<rparr> = d" by (simp add: clear_buffer)
    moreover have "read_input_loop (map Inr chunks) ?c = (Inr ev, d, map Inr chunks)"
      using d some by (subst read_input_loop.simps) simp
    moreover have "ev \<noteq> Disconnected" using d some by (auto dest: decode_not_disconnected)
    ultimately show ?thesis using evs(2) by (subst read_events.simps) simp
  next
    case none
    then have dc: "d = ?c" using decode_bufferedD(3) [OF d] by simp
    show ?thesis
    proof (cases chunks)
      case Nil
      have "drain_input c b = ([], None, c, b)"
        using dec none dc less.prems(3) by (subst drain_input.simps) (simp add: clear_buffer)
      then have "b = []" "evs = []" "c' = c" using less.prems(1) Nil by simp_all
      then show ?thesis using d none dc Nil less.prems(3)
        by (subst read_events.simps, subst read_input_loop.simps) (simp add: clear_buffer)
    next
      case (Cons x xs)
      have "read_input_loop (map Inr chunks) ?c = read_input_loop (map Inr xs) (c\<lparr>rc_input_buffer := b @ x\<rparr>)"
        using d none dc Cons less.prems(2) by (subst read_input_loop.simps) (auto simp: Let_def)
      then have "read_events (map Inr chunks) ?c = read_events (map Inr xs) (c\<lparr>rc_input_buffer := b @ x\<rparr>)"
        by (subst (1 2) read_events.simps) simp
      also have "\<dots> = (evs, None, c')" using less.prems Cons by (intro less.hyps) simp_all
      finally show ?thesis .
    qed
  qed
qed

text \<open>C8: However the messages of a viewer are cut into reads, the events read are what the messages say, in order, and
  the client is as they left it.\<close>

theorem vnc_messages_decoded:
  assumes "\<forall>m \<in> set ms. viewer_ok m" and "rc_input_buffer c = []" and "concat chunks = concat (map viewer_bytes ms)"
    and "[] \<notin> set chunks"
  shows "read_events (map Inr chunks) c = (fst (hear_all ms c), None, snd (hear_all ms c))"
  using read_events_drain [of c "[]" chunks] drain_hear [OF assms(1,2)] assms(2-4) by (simp add: clear_buffer)

theorem vnc_messages_decoded_witness:
  "fst (read_events [Inr [4, 1, 0], Inr [0, 0, 0, 0, 97, 5, 1, 0, 10], Inr [0, 20]]
     (RfbClient_new \<lparr>tcp_in = [], tcp_out = [], tcp_faults = []\<rparr> plain_config)) = [RfbKey True 97, RfbPointer 10 20 1 0]"
proof -
  have "\<forall>m \<in> set [SayKey True 97, SayPointer 1 10 20]. viewer_ok m" by simp
  moreover have "concat [[4, 1, 0], [0, 0, 0, 0, 97, 5, 1, 0, 10], [0, 20]] = concat (map viewer_bytes [SayKey True 97, SayPointer 1 10 20])"
    by code_simp
  ultimately show ?thesis
    using vnc_messages_decoded [of "[SayKey True 97, SayPointer 1 10 20]" "RfbClient_new \<lparr>tcp_in = [], tcp_out = [], tcp_faults = []\<rparr> plain_config"
      "[[4, 1, 0], [0, 0, 0, 0, 97, 5, 1, 0, 10], [0, 20]]"]
    by (simp add: RfbClient_new_def)
qed

text \<open>Cutting the octets otherwise changes nothing, also when they are no messages.\<close>

lemma viewer_cuts:
  "concat xs = concat ys \<Longrightarrow> feed_input c [] xs = feed_input c [] ys" if "rc_input_buffer c = []"
proof -
  have "drain_input c [] = ([], None, c, [])" using that by (subst drain_input.simps) (simp add: dec_input_Nil clear_buffer)
  from viewer.feed_drain [OF this] show "concat xs = concat ys \<Longrightarrow> feed_input c [] xs = feed_input c [] ys" by simp
qed

end
