(* ===== verification/DataChannel.thy ===== *)
theory DataChannel
  imports HidTypes
begin

text \<open>
  The binary HID messages of \<open>hid/datachannel.rs\<close>, received over the WebRTC data
  channel and the HID WebSocket.  Every parser is total: a message that is too short
  or carries an unknown type, event or key code is \<open>None\<close>.  The lemmas give the
  round trip of keyboard events, the shape of what each parser accepts, and that
  octets after the fields of a message are ignored.
\<close>

definition MSG_KEYBOARD :: u8 where "MSG_KEYBOARD = 0x01"
definition MSG_MOUSE :: u8 where "MSG_MOUSE = 0x02"
definition MSG_CONSUMER :: u8 where "MSG_CONSUMER = 0x03"
definition KB_EVENT_DOWN :: u8 where "KB_EVENT_DOWN = 0x00"
definition KB_EVENT_UP :: u8 where "KB_EVENT_UP = 0x01"
definition MS_EVENT_MOVE :: u8 where "MS_EVENT_MOVE = 0x00"
definition MS_EVENT_MOVE_ABS :: u8 where "MS_EVENT_MOVE_ABS = 0x01"
definition MS_EVENT_DOWN :: u8 where "MS_EVENT_DOWN = 0x02"
definition MS_EVENT_UP :: u8 where "MS_EVENT_UP = 0x03"
definition MS_EVENT_SCROLL :: u8 where "MS_EVENT_SCROLL = 0x04"

lemmas msg_consts =
  MSG_KEYBOARD_def MSG_MOUSE_def MSG_CONSUMER_def KB_EVENT_DOWN_def KB_EVENT_UP_def
  MS_EVENT_MOVE_def MS_EVENT_MOVE_ABS_def MS_EVENT_DOWN_def MS_EVENT_UP_def MS_EVENT_SCROLL_def

datatype HidChannelEvent =
    Keyboard KeyboardEvent
  | Mouse MouseEvent
  | Consumer ConsumerEvent

section \<open>Parsing\<close>

definition parse_keyboard_message :: "bytes \<Rightarrow> HidChannelEvent option" where
  "parse_keyboard_message data =
     (if length data < 3 then None
      else case (if data ! 0 = KB_EVENT_DOWN then Some KeyDown
                 else if data ! 0 = KB_EVENT_UP then Some KeyUp else None) of
        None \<Rightarrow> None
      | Some event_type \<Rightarrow>
          (case from_hid_usage (data ! 1) of
             None \<Rightarrow> None
           | Some key \<Rightarrow>
               (let modifiers_byte = data ! 2;
                    modifiers =
                      \<lparr>left_ctrl = modifiers_byte AND 0x01 \<noteq> 0,
                       left_shift = modifiers_byte AND 0x02 \<noteq> 0,
                       left_alt = modifiers_byte AND 0x04 \<noteq> 0,
                       left_meta = modifiers_byte AND 0x08 \<noteq> 0,
                       right_ctrl = modifiers_byte AND 0x10 \<noteq> 0,
                       right_shift = modifiers_byte AND 0x20 \<noteq> 0,
                       right_alt = modifiers_byte AND 0x40 \<noteq> 0,
                       right_meta = modifiers_byte AND 0x80 \<noteq> 0\<rparr>
                in Some (Keyboard
                     \<lparr>kb_event_type = event_type, kb_key = key, kb_modifiers = modifiers\<rparr>))))"

definition mouse_event_type :: "u8 \<Rightarrow> MouseEventType option" where
  "mouse_event_type b =
     (if b = MS_EVENT_MOVE then Some MouseMove
      else if b = MS_EVENT_MOVE_ABS then Some MouseMoveAbs
      else if b = MS_EVENT_DOWN then Some MouseDown
      else if b = MS_EVENT_UP then Some MouseUp
      else if b = MS_EVENT_SCROLL then Some MouseScroll
      else None)"

definition mouse_button_code :: "u8 \<Rightarrow> MouseButton option" where
  "mouse_button_code b =
     (if b = 0 then Some ButtonLeft
      else if b = 1 then Some ButtonMiddle
      else if b = 2 then Some ButtonRight
      else if b = 3 then Some ButtonBack
      else if b = 4 then Some ButtonForward
      else Some ButtonLeft)"

text \<open>\<open>i16::from_le_bytes([a, b]) as i32\<close>: sign extension of a little-endian 16-bit word.\<close>

definition i16_le :: "u8 \<Rightarrow> u8 \<Rightarrow> u32" where
  "i16_le a b = scast (of_nat (le_val [a, b]) :: u16)"

definition parse_mouse_message :: "bytes \<Rightarrow> HidChannelEvent option" where
  "parse_mouse_message data =
     (if length data < 6 then None
      else case mouse_event_type (data ! 0) of
        None \<Rightarrow> None
      | Some event_type \<Rightarrow>
          (let x = i16_le (data ! 1) (data ! 2);
               y = i16_le (data ! 3) (data ! 4);
               (button, scroll) =
                 (case event_type of
                    MouseDown \<Rightarrow> (mouse_button_code (data ! 5), 0)
                  | MouseUp \<Rightarrow> (mouse_button_code (data ! 5), 0)
                  | MouseScroll \<Rightarrow> (None, data ! 5)
                  | _ \<Rightarrow> (None, 0))
           in Some (Mouse \<lparr>ms_event_type = event_type, ms_x = x, ms_y = y,
                           ms_button = button, ms_scroll = scroll\<rparr>)))"

definition parse_consumer_message :: "bytes \<Rightarrow> HidChannelEvent option" where
  "parse_consumer_message data =
     (if length data < 2 then None
      else Some (Consumer \<lparr>consumer_usage = of_nat (le_val [data ! 0, data ! 1])\<rparr>))"

definition parse_hid_message :: "bytes \<Rightarrow> HidChannelEvent option" where
  "parse_hid_message data =
     (case data of
        [] \<Rightarrow> None
      | msg_type # rest \<Rightarrow>
          if msg_type = MSG_KEYBOARD then parse_keyboard_message rest
          else if msg_type = MSG_MOUSE then parse_mouse_message rest
          else if msg_type = MSG_CONSUMER then parse_consumer_message rest
          else None)"

definition encode_keyboard_event :: "KeyboardEvent \<Rightarrow> bytes" where
  "encode_keyboard_event event =
     (let event_type = (case kb_event_type event of KeyDown \<Rightarrow> KB_EVENT_DOWN | KeyUp \<Rightarrow> KB_EVENT_UP);
          modifiers = to_hid_byte (kb_modifiers event)
      in [MSG_KEYBOARD, event_type, to_hid_usage (kb_key event), modifiers])"

section \<open>Lemmas\<close>

lemma parse_keyboard_modifiers:
  "parse_keyboard_message [t, u, m] =
     (if t = KB_EVENT_DOWN \<or> t = KB_EVENT_UP then
        map_option (\<lambda>key. Keyboard
          \<lparr>kb_event_type = (if t = KB_EVENT_DOWN then KeyDown else KeyUp),
           kb_key = key, kb_modifiers = from_hid_byte m\<rparr>) (from_hid_usage u)
      else None)"
  by (auto simp: parse_keyboard_message_def from_hid_byte_def Let_def split: option.splits)

text \<open>A keyboard event survives the wire.\<close>

lemma parse_encode_keyboard:
  "parse_hid_message (encode_keyboard_event e) = Some (Keyboard e)"
  by (cases e; cases "kb_event_type e")
    (simp_all add: parse_hid_message_def encode_keyboard_event_def parse_keyboard_modifiers
      from_to_hid_byte msg_consts)

lemma parse_keyboard_append:
  "3 \<le> length d \<Longrightarrow> parse_keyboard_message (d @ extra) = parse_keyboard_message d"
  by (simp add: parse_keyboard_message_def nth_prefix [of 3 d] cong: option.case_cong)

lemma parse_mouse_append:
  "6 \<le> length d \<Longrightarrow> parse_mouse_message (d @ extra) = parse_mouse_message d"
  by (simp add: parse_mouse_message_def nth_prefix [of 6 d] cong: option.case_cong MouseEventType.case_cong)

lemma parse_consumer_append:
  "2 \<le> length d \<Longrightarrow> parse_consumer_message (d @ extra) = parse_consumer_message d"
  by (simp add: parse_consumer_message_def nth_prefix [of 2 d])

lemma parse_keyboard_Some: "parse_keyboard_message d = Some e \<Longrightarrow> 3 \<le> length d"
  by (auto simp: parse_keyboard_message_def split: if_splits)

lemma parse_mouse_Some: "parse_mouse_message d = Some e \<Longrightarrow> 6 \<le> length d"
  by (auto simp: parse_mouse_message_def split: if_splits)

lemma parse_consumer_Some: "parse_consumer_message d = Some e \<Longrightarrow> 2 \<le> length d"
  by (auto simp: parse_consumer_message_def split: if_splits)

text \<open>What follows an accepted message does not change what it means.\<close>

lemma parse_hid_message_append:
  assumes "parse_hid_message d = Some e"
  shows "parse_hid_message (d @ extra) = Some e"
proof (cases d)
  case Nil
  then show ?thesis using assms by (simp add: parse_hid_message_def)
next
  case (Cons t r)
  then show ?thesis
    using assms parse_keyboard_Some [of r e] parse_mouse_Some [of r e] parse_consumer_Some [of r e]
    by (auto simp: parse_hid_message_def parse_keyboard_append parse_mouse_append
        parse_consumer_append split: if_splits)
qed

text \<open>Coordinates of a parsed mouse event are 16-bit signed numbers.\<close>

lemma sint_i16_le: "- (2 ^ 15) \<le> sint (i16_le a b) \<and> sint (i16_le a b) < 2 ^ 15"
proof -
  define w :: u16 where "w = of_nat (le_val [a, b])"
  have w: "- (2 ^ 15) \<le> sint w \<and> sint w < 2 ^ 15"
    using sint_ge [of w] sint_lt [of w] by simp
  then have "sint (scast w :: u32) = sint w"
    by (simp add: signed_scast_eq signed_take_bit_int_eq_self_iff)
  then show ?thesis
    using w by (simp add: i16_le_def w_def)
qed

section \<open>Properties\<close>

text \<open>A keyboard event encoded for the data channel is parsed back unchanged, whatever
  follows it in the message.\<close>

theorem keyboard_wire_roundtrip:
  "parse_hid_message (encode_keyboard_event e @ extra) = Some (Keyboard e)"
  by (rule parse_hid_message_append [OF parse_encode_keyboard])

text \<open>A message that is accepted keeps its meaning when octets are appended to it, and a
  mouse event that is accepted has coordinates that fit 16 signed bits.\<close>

theorem accepted_message_stable:
  assumes "parse_hid_message d = Some e"
  shows "parse_hid_message (d @ extra) = Some e \<and>
    (case e of
       Mouse m \<Rightarrow> - 32768 \<le> sint (ms_x m) \<and> sint (ms_x m) < 32768 \<and>
                  - 32768 \<le> sint (ms_y m) \<and> sint (ms_y m) < 32768
     | _ \<Rightarrow> True)"
proof -
  have "- 32768 \<le> sint (ms_x m) \<and> sint (ms_x m) < 32768 \<and>
      - 32768 \<le> sint (ms_y m) \<and> sint (ms_y m) < 32768" if "e = Mouse m" for m
  proof -
    have "\<exists>r. parse_mouse_message r = Some (Mouse m)"
      using assms that
      by (auto simp: parse_hid_message_def parse_keyboard_message_def parse_consumer_message_def Let_def
          split: list.splits if_splits option.splits)
    then show ?thesis
      using sint_i16_le by (auto simp: parse_mouse_message_def case_prod_beta Let_def split: if_splits option.splits)
  qed
  then show ?thesis
    using parse_hid_message_append [OF assms] by (auto split: HidChannelEvent.splits)
qed

theorem accepted_message_stable_witness:
  "parse_hid_message ([MSG_MOUSE, MS_EVENT_MOVE, 0xFF, 0xFF, 1, 0, 0] @ [9]) =
     Some (Mouse \<lparr>ms_event_type = MouseMove, ms_x = - 1, ms_y = 1, ms_button = None, ms_scroll = 0\<rparr>)"
proof -
  have "parse_hid_message [MSG_MOUSE, MS_EVENT_MOVE, 0xFF, 0xFF, 1, 0, 0] =
      Some (Mouse \<lparr>ms_event_type = MouseMove, ms_x = - 1, ms_y = 1, ms_button = None, ms_scroll = 0\<rparr>)"
    by (simp add: parse_hid_message_def parse_mouse_message_def msg_consts mouse_event_type_def i16_le_def)
  from accepted_message_stable [OF this, of "[9]"] show ?thesis by simp
qed

end
