(* ===== verification/Ch9329Proto.thy ===== *)
theory Ch9329Proto
  imports Prelude
begin

text \<open>
  The serial protocol of the CH9329 chip, \<open>hid/ch9329_proto.rs\<close>: frames
  \<open>57 AB addr cmd len data sum\<close>, built by \<open>build_packet\<close> and found in the receive
  buffer by \<open>try_extract_response\<close>.  A panic of the source (an index out of range) is
  \<open>None\<close>.  The lemmas show that a built frame parses back, that the scanner finds a
  frame behind noise and returns only frames that are in the buffer with a correct
  checksum, that it always makes progress, and that one altered octet is detected.
\<close>

section \<open>Constants and types\<close>

definition PACKET_HEADER :: bytes where "PACKET_HEADER = [0x57, 0xAB]"
definition RESPONSE_SUCCESS_MASK :: u8 where "RESPONSE_SUCCESS_MASK = 0x80"
definition RESPONSE_ERROR_MASK :: u8 where "RESPONSE_ERROR_MASK = 0xC0"
definition DEFAULT_ADDR :: u8 where "DEFAULT_ADDR = 0x00"
definition DEFAULT_BAUD_RATE :: u32 where "DEFAULT_BAUD_RATE = 9600"
definition MAX_DATA_LEN :: nat where "MAX_DATA_LEN = 64"
definition MAX_PACKET_SIZE :: nat where "MAX_PACKET_SIZE = 70"

definition cmd_GET_INFO :: u8 where "cmd_GET_INFO = 0x01"
definition cmd_SEND_KB_GENERAL_DATA :: u8 where "cmd_SEND_KB_GENERAL_DATA = 0x02"
definition cmd_SEND_KB_MEDIA_DATA :: u8 where "cmd_SEND_KB_MEDIA_DATA = 0x03"
definition cmd_SEND_MS_ABS_DATA :: u8 where "cmd_SEND_MS_ABS_DATA = 0x04"
definition cmd_SEND_MS_REL_DATA :: u8 where "cmd_SEND_MS_REL_DATA = 0x05"
definition cmd_GET_PARA_CFG :: u8 where "cmd_GET_PARA_CFG = 0x08"
definition cmd_SET_PARA_CFG :: u8 where "cmd_SET_PARA_CFG = 0x09"
definition cmd_GET_USB_STRING :: u8 where "cmd_GET_USB_STRING = 0x0A"
definition cmd_SET_USB_STRING :: u8 where "cmd_SET_USB_STRING = 0x0B"
definition cmd_RESET :: u8 where "cmd_RESET = 0x0F"

lemmas cmd_consts =
  cmd_GET_INFO_def cmd_SEND_KB_GENERAL_DATA_def cmd_SEND_KB_MEDIA_DATA_def
  cmd_SEND_MS_ABS_DATA_def cmd_SEND_MS_REL_DATA_def cmd_GET_PARA_CFG_def cmd_SET_PARA_CFG_def
  cmd_GET_USB_STRING_def cmd_SET_USB_STRING_def cmd_RESET_def

datatype Ch9329Error =
    Success | Timeout | InvalidHeader | InvalidCommand | ChecksumError | ParameterError | OperationFailed

definition Ch9329Error_from :: "u8 \<Rightarrow> Ch9329Error" where
  "Ch9329Error_from code =
     (if code = 0x00 then Success
      else if code = 0xE1 then Timeout
      else if code = 0xE2 then InvalidHeader
      else if code = 0xE3 then InvalidCommand
      else if code = 0xE4 then ChecksumError
      else if code = 0xE5 then ParameterError
      else if code = 0xE6 then OperationFailed
      else OperationFailed)"

primrec Ch9329Error_fmt :: "Ch9329Error \<Rightarrow> string" where
  "Ch9329Error_fmt Success = ''Success''"
| "Ch9329Error_fmt Timeout = ''Serial receive timeout''"
| "Ch9329Error_fmt InvalidHeader = ''Invalid packet header''"
| "Ch9329Error_fmt InvalidCommand = ''Invalid command code''"
| "Ch9329Error_fmt ChecksumError = ''Checksum mismatch''"
| "Ch9329Error_fmt ParameterError = ''Parameter error''"
| "Ch9329Error_fmt OperationFailed = ''Operation failed''"

record ChipInfo =
  version :: string
  version_raw :: u8
  usb_connected :: bool
  ci_num_lock :: bool
  ci_caps_lock :: bool
  ci_scroll_lock :: bool

definition ChipInfo_from_response :: "bytes \<Rightarrow> ChipInfo option" where
  "ChipInfo_from_response data =
     (if length data < 8 then None
      else
        (let raw = data ! 0;
             led_status = data ! 2
         in Some
             \<lparr>version = ''V'' @ dec_of_nat (unat (drop_bit 4 raw)) @ ''.'' @ dec_of_nat (unat (raw AND 0x0F)),
              version_raw = raw,
              usb_connected = (data ! 1 = 0x01),
              ci_num_lock = led_status AND 0x01 \<noteq> 0,
              ci_caps_lock = led_status AND 0x02 \<noteq> 0,
              ci_scroll_lock = led_status AND 0x04 \<noteq> 0\<rparr>))"

record LedStatus =
  num_lock :: bool
  caps_lock :: bool
  scroll_lock :: bool

definition LedStatus_from :: "u8 \<Rightarrow> LedStatus" where
  "LedStatus_from byte =
     \<lparr>num_lock = byte AND 0x01 \<noteq> 0, caps_lock = byte AND 0x02 \<noteq> 0, scroll_lock = byte AND 0x04 \<noteq> 0\<rparr>"

record Response =
  resp_cmd :: u8
  resp_data :: bytes
  is_error :: bool
  error_code :: "Ch9329Error option"

section \<open>Operations\<close>

text \<open>\<open>fold(0u8, wrapping_add)\<close>; the word addition wraps at 256.\<close>

definition calculate_checksum :: "bytes \<Rightarrow> u8" where
  "calculate_checksum data = foldl (+) 0 data"

definition Response_parse :: "bytes \<Rightarrow> Response option" where
  "Response_parse bytes =
     (if length bytes < 6 \<or> bytes ! 0 \<noteq> PACKET_HEADER ! 0 \<or> bytes ! 1 \<noteq> PACKET_HEADER ! 1 then None
      else
        (let cmd = bytes ! 3;
             len = unat (bytes ! 4)
         in if length bytes < 5 + len + 1 then None
            else
              (let expected_checksum = bytes ! (5 + len);
                   calculated_checksum = foldl (+) 0 (take (5 + len) bytes)
               in if expected_checksum \<noteq> calculated_checksum then None
                  else
                    (let data = slice_of 5 (5 + len) bytes;
                         err = (cmd AND RESPONSE_ERROR_MASK = RESPONSE_ERROR_MASK);
                         code = (if err \<and> data \<noteq> [] then Some (Ch9329Error_from (data ! 0)) else None)
                     in Some \<lparr>resp_cmd = cmd, resp_data = data, is_error = err, error_code = code\<rparr>))))"

text \<open>
  \<open>build_packet_buf\<close> fills a fixed array of 70 octets.  With more than 64 octets of
  data the debug assertion fails and, without it, the stores leave the array: both
  are a panic.
\<close>

definition build_packet_buf :: "u8 \<Rightarrow> u8 \<Rightarrow> bytes \<Rightarrow> (bytes \<times> nat) option" where
  "build_packet_buf address cmd data =
     (if length data > MAX_DATA_LEN then None
      else
        (let len = (of_nat (length data) :: u8);
             packet_len = 6 + length data;
             packet = replicate MAX_PACKET_SIZE 0;
             packet = packet[0 := PACKET_HEADER ! 0];
             packet = packet[1 := PACKET_HEADER ! 1];
             packet = packet[2 := address];
             packet = packet[3 := cmd];
             packet = packet[4 := len];
             packet = copy_slice 5 data packet;
             packet = packet[5 + length data := calculate_checksum (take (5 + length data) packet)]
         in Some (packet, packet_len)))"

definition build_packet :: "u8 \<Rightarrow> u8 \<Rightarrow> bytes \<Rightarrow> bytes option" where
  "build_packet address cmd data =
     (case build_packet_buf address cmd data of
        None \<Rightarrow> None
      | Some (buf, len) \<Rightarrow> Some (take len buf))"

definition expected_response_cmd :: "u8 \<Rightarrow> bool \<Rightarrow> u8" where
  "expected_response_cmd cmd err = cmd OR (if err then RESPONSE_ERROR_MASK else RESPONSE_SUCCESS_MASK)"

function extract_from :: "bytes \<Rightarrow> nat \<Rightarrow> (Response \<times> nat) option" where
  "extract_from buffer offset =
     (if offset + 6 \<le> length buffer then
        if buffer ! offset \<noteq> PACKET_HEADER ! 0 \<or> buffer ! (offset + 1) \<noteq> PACKET_HEADER ! 1
        then extract_from buffer (offset + 1)
        else
          (let len = unat (buffer ! (offset + 4));
               frame_len = 6 + len
           in if offset + frame_len > length buffer then None
              else
                (case Response_parse (slice_of offset (offset + frame_len) buffer) of
                   Some response \<Rightarrow> Some (response, offset + frame_len)
                 | None \<Rightarrow> extract_from buffer (offset + 1)))
      else None)"
  by pat_completeness auto
termination
  by (relation "measure (\<lambda>(buffer, offset). length buffer - offset)") auto

declare extract_from.simps [simp del]

definition try_extract_response :: "bytes \<Rightarrow> (Response \<times> nat) option" where
  "try_extract_response buffer = extract_from buffer 0"

section \<open>Frames\<close>

text \<open>The frame of a command, as the protocol document draws it.\<close>

definition frame_head :: "u8 \<Rightarrow> u8 \<Rightarrow> bytes \<Rightarrow> bytes" where
  "frame_head address cmd data = [0x57, 0xAB, address, cmd, of_nat (length data)] @ data"

definition frame :: "u8 \<Rightarrow> u8 \<Rightarrow> bytes \<Rightarrow> bytes" where
  "frame address cmd data =
     frame_head address cmd data @ [calculate_checksum (frame_head address cmd data)]"

lemma length_frame_head [simp]: "length (frame_head a c d) = 5 + length d"
  by (simp add: frame_head_def)

lemma length_frame [simp]: "length (frame a c d) = 6 + length d"
  by (simp add: frame_def)

lemma build_packet_eq:
  assumes "length data \<le> 64"
  shows "build_packet address cmd data = Some (frame address cmd data)"
proof -
  let ?p = "copy_slice 5 data ([0x57, 0xAB, address, cmd, of_nat (length data)] @ replicate 65 0)"
  have cp: "copy_slice 5 data (h @ replicate 65 0) = h @ data @ replicate (65 - length data) 0"
    if "length h = 5" for h :: bytes
    using that by (simp add: copy_slice_def)
  have p: "?p = frame_head address cmd data @ replicate (65 - length data) 0"
    unfolding frame_head_def append_assoc by (rule cp) simp
  have r: "replicate 70 (0 :: u8) = [0, 0, 0, 0, 0] @ replicate 65 0"
    by (simp add: numeral_eq_Suc)
  have "build_packet_buf address cmd data =
      Some (?p[5 + length data := calculate_checksum (take (5 + length data) ?p)], 6 + length data)"
    using assms
    by (simp add: build_packet_buf_def MAX_DATA_LEN_def MAX_PACKET_SIZE_def PACKET_HEADER_def Let_def r
        list_update_append)
  moreover have "take (6 + length data)
      (?p[5 + length data := calculate_checksum (take (5 + length data) ?p)]) = frame address cmd data"
    unfolding p using assms
    by (simp add: list_update_append frame_def) (cases "65 - length data"; simp)
  ultimately show ?thesis by (simp add: build_packet_def)
qed

text \<open>A frame parses back to its command and data, whatever follows it.\<close>

definition response_of :: "u8 \<Rightarrow> bytes \<Rightarrow> Response" where
  "response_of cmd data =
     (let err = (cmd AND RESPONSE_ERROR_MASK = RESPONSE_ERROR_MASK)
      in \<lparr>resp_cmd = cmd, resp_data = data, is_error = err,
          error_code = (if err \<and> data \<noteq> [] then Some (Ch9329Error_from (data ! 0)) else None)\<rparr>)"

lemma frame_nth:
  "frame a c d ! 0 = 0x57" "frame a c d ! 1 = 0xAB" "frame a c d ! 2 = a" "frame a c d ! 3 = c"
  "frame a c d ! 4 = of_nat (length d)" "frame a c d ! (5 + length d) = calculate_checksum (frame_head a c d)"
  by (simp_all add: frame_def frame_head_def nth_append)

lemma take_frame: "take (5 + length d) (frame a c d) = frame_head a c d"
  by (simp add: frame_def)

lemma slice_frame: "slice_of 5 (5 + length d) (frame a c d) = d"
  by (simp add: frame_def frame_head_def slice_of_def)

lemma Response_parse_frame:
  assumes "length d < 256"
  shows "Response_parse (frame a c d @ rest) = Some (response_of c d)"
proof -
  have nth: "(frame a c d @ rest) ! i = frame a c d ! i" if "i < 6 + length d" for i
    using that by (simp add: nth_append)
  have "slice_of 5 (5 + length d) (frame a c d @ rest) = d"
    using slice_frame [of d a c] by (simp add: slice_of_def)
  moreover have "take (5 + length d) (frame a c d @ rest) = frame_head a c d"
    using take_frame [of d a c] by simp
  moreover have "unat (of_nat (length d) :: u8) = length d"
    using assms by simp
  ultimately show ?thesis
    using frame_nth [of a c d]
    by (simp add: Response_parse_def PACKET_HEADER_def nth Let_def response_of_def
        calculate_checksum_def [symmetric])
qed

lemma Response_parse_build:
  "length d \<le> 64 \<Longrightarrow> \<exists>p. build_packet a c d = Some p \<and> Response_parse p = Some (response_of c d)"
  using Response_parse_frame [of d a c "[]"] by (simp add: build_packet_eq)

text \<open>Conversely, what parses starts with the frame of the result.\<close>

lemma foldl_plus_sum_list: "foldl (+) (x :: u8) ys = x + sum_list ys"
  by (induction ys arbitrary: x) (simp_all add: add.assoc)

lemma calculate_checksum_sum: "calculate_checksum xs = sum_list xs"
  by (simp add: calculate_checksum_def foldl_plus_sum_list)

lemma Response_parse_sound:
  assumes "Response_parse bs = Some r"
  shows "6 + length (resp_data r) \<le> length bs \<and> length (resp_data r) = unat (bs ! 4) \<and>
    r = response_of (resp_cmd r) (resp_data r) \<and>
    take (6 + length (resp_data r)) bs = frame (bs ! 2) (resp_cmd r) (resp_data r)"
proof -
  define len where "len = unat (bs ! 4)"
  have c: "6 \<le> length bs" "bs ! 0 = 0x57" "bs ! 1 = 0xAB" "6 + len \<le> length bs"
    "bs ! (5 + len) = calculate_checksum (take (5 + len) bs)"
    and r: "r = response_of (bs ! 3) (slice_of 5 (5 + len) bs)"
    using assms
    by (auto simp: Response_parse_def Let_def PACKET_HEADER_def len_def calculate_checksum_def
        response_of_def split: if_splits)
  have data: "resp_data r = slice_of 5 (5 + len) bs" "resp_cmd r = bs ! 3"
    by (simp_all add: r response_of_def Let_def)
  have len: "length (resp_data r) = len" using c by (simp add: data)
  have "take (5 + len) bs = take 5 bs @ slice_of 5 (5 + len) bs"
    by (simp add: slice_of_def take_add)
  moreover have "take 5 bs = [0x57, 0xAB, bs ! 2, bs ! 3, of_nat len]"
    using c(1-3) by (intro nth_equalityI) (auto simp: len_def less_Suc_eq numeral_eq_Suc)
  ultimately have h: "take (5 + len) bs = frame_head (bs ! 2) (resp_cmd r) (resp_data r)"
    using len by (simp add: frame_head_def data)
  have "take (6 + len) bs = take (5 + len) bs @ [bs ! (5 + len)]"
    using c(4) take_Suc_conv_app_nth [of "5 + len" bs] by simp
  then have "take (6 + len) bs = frame (bs ! 2) (resp_cmd r) (resp_data r)"
    using c(5) h by (simp add: frame_def)
  then show ?thesis using c len r data by (simp add: len_def)
qed

section \<open>One altered octet is detected\<close>

lemma sum_list_update_group:
  "i < length xs \<Longrightarrow> sum_list (xs[i := (b :: u8)]) = sum_list xs + (b - xs ! i)"
proof (induction xs arbitrary: i)
  case Nil
  then show ?case by simp
next
  case (Cons x xs)
  then show ?case by (cases i) (simp_all add: algebra_simps)
qed

lemma Response_parse_checksum:
  assumes "Response_parse bs = Some r" and "length bs = 6 + unat (bs ! 4)"
  shows "bs ! 0 = 0x57 \<and> bs ! 1 = 0xAB \<and>
    bs ! (length bs - 1) = sum_list (take (length bs - 1) bs)"
  using assms
  by (auto simp: Response_parse_def Let_def PACKET_HEADER_def foldl_plus_sum_list split: if_splits)

lemma Response_parse_corrupt:
  assumes len: "length d < 256" and i: "i < 6 + length d" "i \<noteq> 4" and b: "b \<noteq> frame a c d ! i"
  shows "Response_parse ((frame a c d)[i := b]) = None"
proof (rule ccontr)
  let ?bs = "(frame a c d)[i := b]"
  assume "\<not> ?thesis"
  then obtain r where r: "Response_parse ?bs = Some r" by auto
  have "unat (?bs ! 4) = length d"
    using i(2) len frame_nth(5) [of a c d] by simp
  then have ck: "?bs ! 0 = 0x57" "?bs ! 1 = 0xAB"
      "?bs ! (5 + length d) = sum_list (take (5 + length d) ?bs)"
    using Response_parse_checksum [OF r] by simp_all
  have sum: "frame a c d ! (5 + length d) = sum_list (take (5 + length d) (frame a c d))"
    using frame_nth(6) [of a c d] take_frame [of d a c] by (simp add: calculate_checksum_sum)
  show False
  proof (cases "i = 5 + length d")
    case True
    then show False using ck(3) sum b by simp
  next
    case False
    then have "i < 5 + length d" using i by simp
    then have "sum_list (take (5 + length d) ?bs) =
        sum_list (take (5 + length d) (frame a c d)) + (b - frame a c d ! i)"
      by (simp add: take_update_swap sum_list_update_group)
    then show False using ck(3) sum b False by simp
  qed
qed

section \<open>The scanner\<close>

text \<open>Whatever is returned is a frame of the buffer, and it is consumed with its prefix.\<close>

lemma extract_from_sound:
  "extract_from buf off = Some (r, n) \<Longrightarrow>
     \<exists>o'. off \<le> o' \<and> n = o' + 6 + length (resp_data r) \<and> n \<le> length buf \<and>
       slice_of o' n buf = frame (buf ! (o' + 2)) (resp_cmd r) (resp_data r) \<and>
       r = response_of (resp_cmd r) (resp_data r)"
proof (induction buf off rule: extract_from.induct)
  case (1 buf off)
  note eq = extract_from.simps [of buf off]
  let ?hdr = "buf ! off \<noteq> PACKET_HEADER ! 0 \<or> buf ! (off + 1) \<noteq> PACKET_HEADER ! 1"
  let ?n = "off + (6 + unat (buf ! (off + 4)))"
  show ?case
  proof (cases "off + 6 \<le> length buf \<and> \<not> ?hdr \<and> ?n \<le> length buf \<and>
      (\<exists>r. Response_parse (slice_of off ?n buf) = Some r)")
    case True
    then obtain r' where r': "Response_parse (slice_of off ?n buf) = Some r'" by blast
    with True "1.prems" have rn: "r = r'" "n = ?n" by (auto simp: eq Let_def)
    let ?fr = "slice_of off ?n buf"
    have l: "length ?fr = 6 + unat (buf ! (off + 4))" using True by auto
    have "?fr ! 4 = buf ! (off + 4)" "?fr ! 2 = buf ! (off + 2)"
      using True by (simp_all add: nth_slice_of)
    then show ?thesis using Response_parse_sound [OF r'] rn True l by auto
  next
    case False
    then have "extract_from buf (off + 1) = Some (r, n)"
      using "1.prems" by (auto simp: eq Let_def split: if_splits option.splits)
    moreover from this have "off + 6 \<le> length buf"
      using "1.prems" by (auto simp: eq split: if_splits)
    ultimately obtain o' where "off + 1 \<le> o'" "n = o' + 6 + length (resp_data r)" "n \<le> length buf"
      "slice_of o' n buf = frame (buf ! (o' + 2)) (resp_cmd r) (resp_data r)"
      "r = response_of (resp_cmd r) (resp_data r)"
      using "1.IH" False "1.prems"
      by (auto simp: eq Let_def split: if_splits option.splits)
    then show ?thesis by (intro exI [of _ o']) auto
  qed
qed

lemma try_extract_sound:
  assumes "try_extract_response buf = Some (r, n)"
  obtains o' where "n = o' + 6 + length (resp_data r)" and "n \<le> length buf"
    and "slice_of o' n buf = frame (buf ! (o' + 2)) (resp_cmd r) (resp_data r)"
    and "r = response_of (resp_cmd r) (resp_data r)"
  using extract_from_sound [of buf 0 r n] assms by (auto simp: try_extract_response_def)

text \<open>The consumed prefix is never empty, so draining it makes the buffer shorter.\<close>

lemma try_extract_progress:
  assumes "try_extract_response buf = Some (r, n)"
  shows "6 \<le> n \<and> n \<le> length buf"
  using assms by (auto elim: try_extract_sound)

text \<open>The scanner steps over positions that do not start a header.\<close>

lemma extract_from_skip:
  assumes "\<forall>i. off \<le> i \<and> i < m \<longrightarrow> \<not> (buf ! i = 0x57 \<and> buf ! (i + 1) = 0xAB)"
    and "off \<le> m" and "m + 6 \<le> length buf"
  shows "extract_from buf off = extract_from buf m"
  using assms
proof (induction "m - off" arbitrary: off)
  case 0
  then show ?case by simp
next
  case (Suc k)
  then have "off < m" by simp
  then have "extract_from buf off = extract_from buf (off + 1)"
    using Suc.prems by (subst extract_from.simps) (auto simp: PACKET_HEADER_def)
  also have "\<dots> = extract_from buf m"
    using Suc by (intro Suc.hyps) auto
  finally show ?case .
qed

lemma extract_from_frame:
  assumes "length d < 256"
  shows "extract_from (noise @ frame a c d @ rest) (length noise) =
    Some (response_of c d, length noise + 6 + length d)"
proof -
  let ?buf = "noise @ frame a c d @ rest"
  have nth: "?buf ! (length noise + i) = frame a c d ! i" if "i < 6" for i
    using that by (simp add: nth_append)
  have "slice_of (length noise) (length noise + (6 + length d)) ?buf = frame a c d"
    by (simp add: slice_of_def)
  then show ?thesis
    using assms Response_parse_frame [of d a c "[]"] nth [of 0] nth [of 1] nth [of 4] frame_nth [of a c d]
    by (subst extract_from.simps) (simp add: PACKET_HEADER_def Let_def)
qed

text \<open>
  Behind noise that holds no header the first frame is found.  A last octet \<open>57\<close> of the
  noise does not form a header with the frame, whose first octet is \<open>57\<close> as well.
\<close>

definition no_header :: "bytes \<Rightarrow> bool" where
  "no_header noise \<longleftrightarrow> (\<forall>i. i + 1 < length noise \<longrightarrow> \<not> (noise ! i = 0x57 \<and> noise ! (i + 1) = 0xAB))"

lemma try_extract_frame:
  assumes "length d < 256" and "no_header noise"
  shows "try_extract_response (noise @ frame a c d @ rest) =
    Some (response_of c d, length noise + 6 + length d)"
proof -
  let ?buf = "noise @ frame a c d @ rest"
  have "\<not> (?buf ! i = 0x57 \<and> ?buf ! (i + 1) = 0xAB)" if "i < length noise" for i
  proof (cases "i + 1 < length noise")
    case True
    then show ?thesis using assms(2) that by (auto simp: no_header_def nth_append)
  next
    case False
    with that have "?buf ! (i + 1) = frame a c d ! 0"
      by (simp add: nth_append)
    then show ?thesis by (simp add: frame_nth)
  qed
  then show ?thesis
    unfolding try_extract_response_def
    using extract_from_skip [of 0 "length noise" ?buf] extract_from_frame [OF assms(1)] by simp
qed

section \<open>Properties\<close>

text \<open>A command with at most 64 octets of data becomes a packet of 6 octets more, and the
  parser reads the command and the data back from it whatever octets follow; with more
  data the builder panics.\<close>

theorem frame_roundtrip:
  "if length d \<le> 64
   then \<exists>p. build_packet a c d = Some p \<and> length p = 6 + length d \<and>
     Response_parse (p @ rest) = Some (response_of c d)
   else build_packet a c d = None"
  by (auto simp: build_packet_eq Response_parse_frame)
    (simp add: build_packet_def build_packet_buf_def MAX_DATA_LEN_def)

text \<open>C17: Whatever noise precedes it, as long as the noise holds no header and does not end
  with the first octet of one, the scanner returns the frame and how much of the buffer it and the
  noise take.\<close>

theorem scanner_resynchronises:
  assumes "length d < 256" and "no_header noise"
  shows "try_extract_response (noise @ frame a c d @ rest) =
    Some (response_of c d, length noise + 6 + length d)"
  by (rule try_extract_frame [OF assms])

theorem scanner_resynchronises_witness:
  "try_extract_response ([0x57, 0x00, 0xAB] @ frame 0 0x81 [0x31, 1] @ [0x57]) =
    Some (response_of 0x81 [0x31, 1], length [0x57, 0x00, 0xAB :: u8] + 6 + length [0x31, 1 :: u8])"
  by (rule scanner_resynchronises) (auto simp: no_header_def less_Suc_eq)

text \<open>A response the scanner returns is a frame with a correct checksum that lies in the
  buffer and ends where the scanner says; at least 6 octets are consumed, so the loop that
  drains the buffer terminates.\<close>

theorem scanner_sound:
  assumes "try_extract_response buf = Some (r, n)"
  shows "6 \<le> n \<and> n \<le> length buf \<and>
    (\<exists>o' a. n = o' + 6 + length (resp_data r) \<and> slice_of o' n buf = frame a (resp_cmd r) (resp_data r)) \<and>
    is_error r = (resp_cmd r AND RESPONSE_ERROR_MASK = RESPONSE_ERROR_MASK)"
proof -
  obtain o' where o': "n = o' + 6 + length (resp_data r)" "n \<le> length buf"
      "slice_of o' n buf = frame (buf ! (o' + 2)) (resp_cmd r) (resp_data r)"
      and r: "r = response_of (resp_cmd r) (resp_data r)"
    using assms by (rule try_extract_sound)
  have "is_error r = (resp_cmd r AND RESPONSE_ERROR_MASK = RESPONSE_ERROR_MASK)"
    by (subst r) (simp add: response_of_def Let_def)
  then show ?thesis using o' by auto
qed

theorem scanner_sound_witness:
  "6 \<le> (7 :: nat) \<and> 7 \<le> length (frame 0 0x81 []) + 1 \<and>
    is_error (response_of 0x81 []) = (resp_cmd (response_of 0x81 []) AND RESPONSE_ERROR_MASK = RESPONSE_ERROR_MASK)"
proof -
  have "try_extract_response ([0] @ frame 0 0x81 [] @ []) = Some (response_of 0x81 [], 7)"
    using try_extract_frame [of "[]" "[0]" 0 "0x81" "[]"] by (simp add: no_header_def)
  from scanner_sound [OF this] show ?thesis by simp
qed

text \<open>A frame in which one octet other than the length was altered on the wire is never
  accepted.\<close>

theorem corruption_detected:
  assumes "length d < 256" and "i < 6 + length d" and "i \<noteq> 4" and "b \<noteq> frame a c d ! i"
  shows "Response_parse ((frame a c d)[i := b]) = None"
  by (rule Response_parse_corrupt [OF assms])

theorem corruption_detected_witness:
  "Response_parse ((frame 0 0x81 [0x31, 1])[5 := 0x30]) = None"
  by (rule corruption_detected) (simp_all add: frame_def frame_head_def)

end
