(* ===== verification/Ch9329Port.thy ===== *)
theory Ch9329Port
  imports Ch9329Proto AppErrors
begin

text \<open>
  The serial side of \<open>hid/ch9329.rs\<close>: transactions with the chip and the reading and
  writing of its USB descriptor.  The serial port belongs to the \<open>serialport\<close> crate;
  it is a record of what the coming calls return and of what was written.  One
  transaction takes one entry of \<open>sp_writes\<close> (the outcome of \<open>write_all\<close>) and, if it
  reads, one entry of \<open>sp_reads\<close>: the outcomes of \<open>read\<close> up to the one after which
  the deadline has passed.  \<open>Panic\<close> is an unwinding panic, \<open>Fail\<close> a returned error.
\<close>

section \<open>The port\<close>

datatype read_outcome = ReadOk bytes | ReadTimedOut | ReadErr string

record serial_port =
  sp_written :: "bytes list"
  sp_writes :: "string option list"
  sp_reads :: "read_outcome list list"

datatype port_fail = Fail AppError | Panic

type_synonym 'a port_m = "serial_port \<Rightarrow> (port_fail + 'a) \<times> serial_port"

definition pm_return :: "'a \<Rightarrow> 'a port_m" where
  "pm_return a p = (Inr a, p)"

definition pm_fail :: "port_fail \<Rightarrow> 'a port_m" where
  "pm_fail e p = (Inl e, p)"

text \<open>Sequencing with the \<open>?\<close> operator.\<close>

definition pm_bind :: "'a port_m \<Rightarrow> ('a \<Rightarrow> 'b port_m) \<Rightarrow> 'b port_m" where
  "pm_bind m f p = (case m p of (Inl e, p') \<Rightarrow> (Inl e, p') | (Inr a, p') \<Rightarrow> f a p')"

definition pm_lift :: "'a app_result \<Rightarrow> 'a port_m" where
  "pm_lift r = (case r of Inl e \<Rightarrow> pm_fail (Fail e) | Inr a \<Rightarrow> pm_return a)"

text \<open>\<open>write_all\<close>: once the script is used up, writes succeed.\<close>

definition port_write_all :: "bytes \<Rightarrow> serial_port \<Rightarrow> string option \<times> serial_port" where
  "port_write_all packet p =
     ((case sp_writes p of [] \<Rightarrow> None | w # _ \<Rightarrow> w),
      p\<lparr>sp_written := sp_written p @ [packet], sp_writes := tl (sp_writes p)\<rparr>)"

definition port_take_reads :: "serial_port \<Rightarrow> read_outcome list \<times> serial_port" where
  "port_take_reads p =
     ((case sp_reads p of [] \<Rightarrow> [] | r # _ \<Rightarrow> r), p\<lparr>sp_reads := tl (sp_reads p)\<rparr>)"

section \<open>Configuration data\<close>

definition PARAM_CFG_LEN :: nat where "PARAM_CFG_LEN = 50"
definition PARAM_CFG_VID_PID_OFFSET :: nat where "PARAM_CFG_VID_PID_OFFSET = 11"
definition PARAM_CFG_STRING_FLAGS_OFFSET :: nat where "PARAM_CFG_STRING_FLAGS_OFFSET = 36"
definition DESCRIPTOR_READ_RETRIES :: nat where "DESCRIPTOR_READ_RETRIES = 3"
definition USB_STRING_MAX_LEN :: nat where "USB_STRING_MAX_LEN = 23"
definition USB_STRING_FLAG_ENABLE :: u8 where "USB_STRING_FLAG_ENABLE = 0x80"
definition USB_STRING_FLAG_MANUFACTURER :: u8 where "USB_STRING_FLAG_MANUFACTURER = 0x04"
definition USB_STRING_FLAG_PRODUCT :: u8 where "USB_STRING_FLAG_PRODUCT = 0x02"
definition USB_STRING_FLAG_SERIAL :: u8 where "USB_STRING_FLAG_SERIAL = 0x01"

lemmas usb_string_consts =
  USB_STRING_FLAG_ENABLE_def USB_STRING_FLAG_MANUFACTURER_def USB_STRING_FLAG_PRODUCT_def
  USB_STRING_FLAG_SERIAL_def

lemmas param_consts =
  PARAM_CFG_LEN_def PARAM_CFG_VID_PID_OFFSET_def PARAM_CFG_STRING_FLAGS_OFFSET_def

datatype UsbStringType = Manufacturer | Product | Serial

primrec UsbStringType_as_u8 :: "UsbStringType \<Rightarrow> u8" where
  "UsbStringType_as_u8 Manufacturer = 0x00"
| "UsbStringType_as_u8 Product = 0x01"
| "UsbStringType_as_u8 Serial = 0x02"

record Ch9329DescriptorConfig =
  vendor_id :: u16
  product_id :: u16
  manufacturer :: string
  product_name :: string
  serial_number :: "string option"

record Ch9329DescriptorState =
  descriptor :: Ch9329DescriptorConfig
  manufacturer_enabled :: bool
  product_enabled :: bool
  serial_enabled :: bool
  config_mode_available :: bool

definition backend_error :: "string \<Rightarrow> string \<Rightarrow> AppError" where
  "backend_error reason code = HidError ''ch9329'' reason code"

definition hex_bytes :: "bytes \<Rightarrow> string" where
  "hex_bytes data =
     (case data of [] \<Rightarrow> []
      | b # bs \<Rightarrow> hex02_lower b @ concat (map (\<lambda>byte. '' '' @ hex02_lower byte) bs))"

record ParameterConfig =
  cfg_bytes :: bytes

definition VALID_WORK_MODES :: bytes where
  "VALID_WORK_MODES = [0x00, 0x01, 0x02, 0x03, 0x80, 0x81, 0x82, 0x83]"

definition VALID_SERIAL_MODES :: bytes where
  "VALID_SERIAL_MODES = [0x00, 0x01, 0x02, 0x80, 0x81, 0x82]"

definition validate_parameter_layout :: "bytes \<Rightarrow> unit app_result" where
  "validate_parameter_layout bytes =
     (if bytes ! 0 \<notin> set VALID_WORK_MODES \<or> bytes ! 1 \<notin> set VALID_SERIAL_MODES then
        Inl (backend_error
          (''CH9329 did not return parameter config; enter protocol configuration mode by pulling SET low before reading or writing descriptors; response [''
             @ dec_of_nat (length bytes) @ '']: '' @ hex_bytes bytes)
          ''invalid_response'')
      else Inr ())"

definition ParameterConfig_from_response :: "bytes \<Rightarrow> ParameterConfig app_result" where
  "ParameterConfig_from_response data =
     (if length data \<noteq> PARAM_CFG_LEN then
        Inl (backend_error ''Invalid CH9329 parameter config length'' ''invalid_response'')
      else
        (case validate_parameter_layout data of
           Inl e \<Rightarrow> Inl e
         | Inr _ \<Rightarrow> Inr \<lparr>cfg_bytes = data\<rparr>))"

definition set_vid_pid :: "ParameterConfig \<Rightarrow> u16 \<Rightarrow> u16 \<Rightarrow> ParameterConfig" where
  "set_vid_pid cfg vendor product =
     (let offset = PARAM_CFG_VID_PID_OFFSET;
          b = copy_slice offset (le_bytes 2 (unat vendor)) (cfg_bytes cfg);
          b = copy_slice (offset + 2) (le_bytes 2 (unat product)) b
      in cfg\<lparr>cfg_bytes := b\<rparr>)"

definition serial_present :: "Ch9329DescriptorConfig \<Rightarrow> bool" where
  "serial_present d = (case serial_number d of None \<Rightarrow> False | Some s \<Rightarrow> s \<noteq> [])"

definition set_string_flags :: "ParameterConfig \<Rightarrow> Ch9329DescriptorConfig \<Rightarrow> ParameterConfig" where
  "set_string_flags cfg d =
     (let flags = cfg_bytes cfg ! PARAM_CFG_STRING_FLAGS_OFFSET AND 0x78;
          flags = flags OR (USB_STRING_FLAG_ENABLE OR USB_STRING_FLAG_MANUFACTURER OR USB_STRING_FLAG_PRODUCT);
          flags = (if serial_present d then flags OR USB_STRING_FLAG_SERIAL else flags)
      in cfg\<lparr>cfg_bytes := (cfg_bytes cfg)[PARAM_CFG_STRING_FLAGS_OFFSET := flags]\<rparr>)"

definition descriptor_base :: "ParameterConfig \<Rightarrow> Ch9329DescriptorConfig" where
  "descriptor_base cfg =
     (let offset = PARAM_CFG_VID_PID_OFFSET; b = cfg_bytes cfg
      in \<lparr>vendor_id = of_nat (le_val [b ! offset, b ! (offset + 1)]),
          product_id = of_nat (le_val [b ! (offset + 2), b ! (offset + 3)]),
          manufacturer = [], product_name = [], serial_number = None\<rparr>)"

definition string_flags :: "ParameterConfig \<Rightarrow> u8" where
  "string_flags cfg = cfg_bytes cfg ! PARAM_CFG_STRING_FLAGS_OFFSET"

definition build_usb_string_data :: "UsbStringType \<Rightarrow> string \<Rightarrow> bytes app_result" where
  "build_usb_string_data string_type val =
     (if length (string_bytes val) > USB_STRING_MAX_LEN then
        Inl (backend_error ''CH9329 USB string is too long'' ''invalid_config'')
      else Inr (UsbStringType_as_u8 string_type # of_nat (length (string_bytes val)) # string_bytes val))"

definition parse_usb_string_response :: "bytes \<Rightarrow> string app_result" where
  "parse_usb_string_response data =
     (if length data < 2 then
        Inl (backend_error ''Invalid CH9329 USB string response length'' ''invalid_response'')
      else
        (let len = unat (data ! 1)
         in if length data < 2 + len \<or> len > USB_STRING_MAX_LEN then
              Inl (backend_error ''Invalid CH9329 USB string response payload'' ''invalid_response'')
            else
              (case from_utf8 (slice_of 2 (2 + len) data) of
                 None \<Rightarrow> Inl (backend_error ''Invalid CH9329 USB string encoding'' ''invalid_response'')
               | Some s \<Rightarrow> Inr s)))"

section \<open>Transactions\<close>

definition write_packet :: "u8 \<Rightarrow> u8 \<Rightarrow> bytes \<Rightarrow> unit port_m" where
  "write_packet address cmd data p =
     (case build_packet address cmd data of
        None \<Rightarrow> (Inl Panic, p)
      | Some packet \<Rightarrow>
          (case port_write_all packet p of
             (Some e, p') \<Rightarrow>
               (Inl (Fail (backend_error (''Failed to write to CH9329: '' @ e) ''write_failed'')), p')
           | (None, p') \<Rightarrow> (Inr (), p')))"

text \<open>The inner \<open>while let\<close>: responses of other commands are dropped.\<close>

function take_matching :: "u8 \<Rightarrow> u8 \<Rightarrow> bytes \<Rightarrow> Response option \<times> bytes" where
  "take_matching expected_ok expected_err pending =
     (case try_extract_response pending of
        None \<Rightarrow> (None, pending)
      | Some (response, consumed) \<Rightarrow>
          if resp_cmd response = expected_ok \<or> resp_cmd response = expected_err
          then (Some response, drop consumed pending)
          else take_matching expected_ok expected_err (drop consumed pending))"
  by pat_completeness auto
termination
  by (relation "measure (\<lambda>(ok, err, pending). length pending)")
    (auto dest: try_extract_progress)

declare take_matching.simps [simp del]

definition no_response_error :: "u8 \<Rightarrow> AppError" where
  "no_response_error cmd =
     backend_error (''No matching response from CH9329 for cmd 0x'' @ hex02_upper cmd) ''no_response''"

fun xfer_loop :: "u8 \<Rightarrow> bytes \<Rightarrow> read_outcome list \<Rightarrow> Response app_result" where
  "xfer_loop cmd pending [] = Inl (no_response_error cmd)"
| "xfer_loop cmd pending (r # rs) =
     (case r of
        ReadOk chunk \<Rightarrow>
          if chunk \<noteq> [] then
            (case take_matching (expected_response_cmd cmd False) (expected_response_cmd cmd True)
                    (pending @ chunk) of
               (Some response, _) \<Rightarrow> Inr response
             | (None, pending') \<Rightarrow>
                 xfer_loop cmd
                   (if length pending' > MAX_PACKET_SIZE * 4
                    then drop (length pending' - MAX_PACKET_SIZE) pending' else pending') rs)
          else xfer_loop cmd pending rs
      | ReadTimedOut \<Rightarrow> xfer_loop cmd pending rs
      | ReadErr e \<Rightarrow> Inl (backend_error (''Failed to read from CH9329: '' @ e) ''read_failed''))"

definition xfer_packet :: "u8 \<Rightarrow> u8 \<Rightarrow> bytes \<Rightarrow> Response port_m" where
  "xfer_packet address cmd data =
     pm_bind (write_packet address cmd data) (\<lambda>_ p.
       (let (reads, p') = port_take_reads p
        in pm_lift (xfer_loop cmd [] reads) p'))"

definition ensure_success :: "Response \<Rightarrow> Response app_result" where
  "ensure_success response =
     (if is_error response then
        Inl (backend_error
          (case error_code response of
             Some e \<Rightarrow> ''CH9329 error response: '' @ Ch9329Error_fmt e
           | None \<Rightarrow> ''CH9329 returned error response'') ''protocol_error'')
      else Inr response)"

definition query_chip_info_on_port :: "u8 \<Rightarrow> ChipInfo port_m" where
  "query_chip_info_on_port address =
     pm_bind (xfer_packet address cmd_GET_INFO []) (\<lambda>r.
     pm_bind (pm_lift (ensure_success r)) (\<lambda>response.
     pm_lift (case ChipInfo_from_response (resp_data response) of
                None \<Rightarrow> Inl (backend_error ''Failed to parse chip info'' ''invalid_response'')
              | Some info \<Rightarrow> Inr info)))"

definition try_best_effort_reset :: "u8 \<Rightarrow> unit port_m" where
  "try_best_effort_reset address p =
     (case write_packet address cmd_RESET [] p of
        (Inl Panic, p') \<Rightarrow> (Inl Panic, p')
      | (_, p') \<Rightarrow> (Inr (), p'))"

fun is_invalid_response :: "AppError \<Rightarrow> bool" where
  "is_invalid_response (HidError backend _ code) =
     (backend = ''ch9329'' \<and> code = ''invalid_response'')"
| "is_invalid_response _ = False"

fun should_recover_descriptor_error :: "AppError \<Rightarrow> bool" where
  "should_recover_descriptor_error (HidError backend _ code) =
     (backend = ''ch9329'' \<and>
      code \<in> {''no_response'', ''write_failed'', ''read_failed'', ''io_error'', ''device_unavailable'',
              ''serial_error'', ''enxio'', ''enodev'', ''epipe'', ''eshutdown''})"
| "should_recover_descriptor_error _ = True"

section \<open>Reading and writing the descriptor\<close>

text \<open>
  The retry loop \<open>for attempt in 0..DESCRIPTOR_READ_RETRIES\<close> with \<open>last_error\<close>: an
  answer that is malformed is retried, any other error returns at once.
\<close>

fun retry_attempts :: "(unit \<Rightarrow> 'a app_result port_m) \<Rightarrow> AppError \<Rightarrow> nat list \<Rightarrow> AppError option \<Rightarrow> 'a port_m" where
  "retry_attempts act dflt [] last_error =
     pm_fail (Fail (case last_error of Some e \<Rightarrow> e | None \<Rightarrow> dflt))"
| "retry_attempts act dflt (attempt # attempts) last_error =
     pm_bind (act ()) (\<lambda>result.
       case result of
         Inr a \<Rightarrow> pm_return a
       | Inl err \<Rightarrow>
           if attempt + 1 < DESCRIPTOR_READ_RETRIES \<and> is_invalid_response err
           then retry_attempts act dflt attempts (Some err)
           else pm_fail (Fail err))"

definition read_parameter_config_on_port :: "u8 \<Rightarrow> ParameterConfig port_m" where
  "read_parameter_config_on_port address =
     retry_attempts
       (\<lambda>_. pm_bind (xfer_packet address cmd_GET_PARA_CFG []) (\<lambda>r.
          pm_return (case ensure_success r of
                       Inl e \<Rightarrow> Inl e
                     | Inr response \<Rightarrow> ParameterConfig_from_response (resp_data response))))
       (backend_error ''Failed to read CH9329 parameter config'' ''invalid_response'')
       [0..<DESCRIPTOR_READ_RETRIES] None"

definition write_parameter_config_on_port :: "u8 \<Rightarrow> ParameterConfig \<Rightarrow> unit port_m" where
  "write_parameter_config_on_port address cfg =
     pm_bind (xfer_packet address cmd_SET_PARA_CFG (cfg_bytes cfg)) (\<lambda>r.
     pm_bind (pm_lift (ensure_success r)) (\<lambda>_. pm_return ()))"

definition write_usb_string_on_port :: "u8 \<Rightarrow> UsbStringType \<Rightarrow> string \<Rightarrow> unit port_m" where
  "write_usb_string_on_port address string_type val =
     pm_bind (pm_lift (build_usb_string_data string_type val)) (\<lambda>data.
     pm_bind (xfer_packet address cmd_SET_USB_STRING data) (\<lambda>r.
     pm_bind (pm_lift (ensure_success r)) (\<lambda>_. pm_return ())))"

definition read_usb_string_on_port :: "u8 \<Rightarrow> UsbStringType \<Rightarrow> string port_m" where
  "read_usb_string_on_port address string_type =
     pm_bind (xfer_packet address cmd_GET_USB_STRING [UsbStringType_as_u8 string_type]) (\<lambda>r.
     pm_bind (pm_lift (ensure_success r)) (\<lambda>response.
     pm_lift (parse_usb_string_response (resp_data response))))"

text \<open>\<open>match\<close> on the result of a call: an error is a value, only a panic unwinds.\<close>

definition pm_try :: "'a port_m \<Rightarrow> 'a app_result port_m" where
  "pm_try m p =
     (case m p of
        (Inl (Fail e), p') \<Rightarrow> (Inr (Inl e), p')
      | (Inl Panic, p') \<Rightarrow> (Inl Panic, p')
      | (Inr a, p') \<Rightarrow> (Inr (Inr a), p'))"

definition read_usb_string_with_retry_on_port :: "u8 \<Rightarrow> UsbStringType \<Rightarrow> string port_m" where
  "read_usb_string_with_retry_on_port address string_type =
     retry_attempts (\<lambda>_. pm_try (read_usb_string_on_port address string_type))
       (backend_error ''Failed to read CH9329 USB string'' ''invalid_response'')
       [0..<DESCRIPTOR_READ_RETRIES] None"

definition read_device_descriptor_on_port :: "u8 \<Rightarrow> Ch9329DescriptorState port_m" where
  "read_device_descriptor_on_port address =
     pm_bind (read_parameter_config_on_port address) (\<lambda>cfg.
       (let flags = string_flags cfg;
            strings_enabled = flags AND USB_STRING_FLAG_ENABLE \<noteq> 0;
            man_enabled = strings_enabled \<and> flags AND USB_STRING_FLAG_MANUFACTURER \<noteq> 0;
            prod_enabled = strings_enabled \<and> flags AND USB_STRING_FLAG_PRODUCT \<noteq> 0;
            ser_enabled = strings_enabled \<and> flags AND USB_STRING_FLAG_SERIAL \<noteq> 0;
            base = descriptor_base cfg
        in pm_bind (if man_enabled then read_usb_string_with_retry_on_port address Manufacturer
                    else pm_return []) (\<lambda>man.
           pm_bind (if prod_enabled then read_usb_string_with_retry_on_port address Product
                    else pm_return []) (\<lambda>prod.
           pm_bind (if ser_enabled then
                      pm_bind (read_usb_string_with_retry_on_port address Serial)
                        (\<lambda>val. pm_return (if val = [] then None else Some val))
                    else pm_return None) (\<lambda>ser.
           pm_return
             \<lparr>descriptor = base\<lparr>manufacturer := man, product_name := prod, serial_number := ser\<rparr>,
              manufacturer_enabled = man_enabled, product_enabled = prod_enabled,
              serial_enabled = ser_enabled, config_mode_available = True\<rparr>)))))"

definition apply_device_descriptor_on_port ::
  "u8 \<Rightarrow> Ch9329DescriptorConfig \<Rightarrow> Ch9329DescriptorState port_m" where
  "apply_device_descriptor_on_port address d =
     pm_bind (read_parameter_config_on_port address) (\<lambda>cfg0.
       (let cfg = set_string_flags (set_vid_pid cfg0 (vendor_id d) (product_id d)) d
        in pm_bind (write_parameter_config_on_port address cfg) (\<lambda>_.
           pm_bind (write_usb_string_on_port address Manufacturer (manufacturer d)) (\<lambda>_.
           pm_bind (write_usb_string_on_port address Product (product_name d)) (\<lambda>_.
           pm_bind (case serial_number d of
                      Some s \<Rightarrow> if s \<noteq> [] then write_usb_string_on_port address Serial s else pm_return ()
                    | None \<Rightarrow> pm_return ()) (\<lambda>_.
           pm_bind (try_best_effort_reset address) (\<lambda>_.
           pm_bind (query_chip_info_on_port address) (\<lambda>_.
           pm_return
             \<lparr>descriptor = d, manufacturer_enabled = True, product_enabled = True,
              serial_enabled = serial_present d, config_mode_available = True\<rparr>))))))))"

text \<open>\<open>release_state_on_port\<close>: a transaction per idle report, whatever the chip answers.\<close>

definition reset_sequence :: "(u8 \<times> bytes) list" where
  "reset_sequence =
     [(cmd_SEND_KB_GENERAL_DATA, replicate 8 0),
      (cmd_SEND_MS_REL_DATA, [0x01, 0, 0, 0, 0]),
      (cmd_SEND_MS_ABS_DATA, [0x02, 0, 0, 0, 0, 0, 0])]"

fun xfer_all :: "u8 \<Rightarrow> (u8 \<times> bytes) list \<Rightarrow> unit port_m" where
  "xfer_all address [] = pm_return ()"
| "xfer_all address ((cmd, data) # xs) =
     pm_bind (xfer_packet address cmd data) (\<lambda>_. xfer_all address xs)"

definition release_state_on_port :: "u8 \<Rightarrow> unit port_m" where
  "release_state_on_port address = xfer_all address reset_sequence"

section \<open>The parameter block\<close>

lemma le_bytes_2: "le_bytes 2 x = [of_nat (x mod 256), of_nat (x div 256 mod 256)]"
  by (simp add: numeral_2_eq_2)

lemma le_val_2_word: "(of_nat (le_val (le_bytes 2 (unat (w :: u16)))) :: u16) = w"
  by (rule word_of_le_bytes) simp

lemma set_vid_pid_length [simp]:
  "length (cfg_bytes cfg) = 50 \<Longrightarrow> length (cfg_bytes (set_vid_pid cfg v q)) = 50"
  by (simp add: set_vid_pid_def Let_def param_consts)

lemma set_vid_pid_nth:
  assumes "length (cfg_bytes cfg) = 50" and "k < 50"
  shows "cfg_bytes (set_vid_pid cfg v q) ! k =
    (if 11 \<le> k \<and> k < 13 then le_bytes 2 (unat v) ! (k - 11)
     else if 13 \<le> k \<and> k < 15 then le_bytes 2 (unat q) ! (k - 13) else cfg_bytes cfg ! k)"
  using assms by (auto simp: set_vid_pid_def Let_def param_consts nth_copy_slice)

lemma descriptor_base_set_vid_pid:
  assumes "length (cfg_bytes cfg) = 50"
  shows "vendor_id (descriptor_base (set_vid_pid cfg v q)) = v"
    and "product_id (descriptor_base (set_vid_pid cfg v q)) = q"
proof -
  have nth: "cfg_bytes (set_vid_pid cfg v q) ! 11 = le_bytes 2 (unat v) ! 0"
    "cfg_bytes (set_vid_pid cfg v q) ! 12 = le_bytes 2 (unat v) ! 1"
    "cfg_bytes (set_vid_pid cfg v q) ! 13 = le_bytes 2 (unat q) ! 0"
    "cfg_bytes (set_vid_pid cfg v q) ! 14 = le_bytes 2 (unat q) ! 1"
    using assms by (simp_all add: set_vid_pid_nth)
  have two: "[le_bytes 2 x ! 0, le_bytes 2 x ! Suc 0] = le_bytes 2 x" for x
    by (simp add: le_bytes_2)
  show "vendor_id (descriptor_base (set_vid_pid cfg v q)) = v"
    "product_id (descriptor_base (set_vid_pid cfg v q)) = q"
    using nth le_val_2_word [of v] le_val_2_word [of q]
    by (simp_all add: descriptor_base_def Let_def param_consts two del: le_val.simps)
qed

lemma set_string_flags_length [simp]:
  "length (cfg_bytes (set_string_flags cfg d)) = length (cfg_bytes cfg)"
  by (simp add: set_string_flags_def Let_def)

lemma set_string_flags_nth:
  "k \<noteq> 36 \<Longrightarrow> cfg_bytes (set_string_flags cfg d) ! k = cfg_bytes cfg ! k"
  by (simp add: set_string_flags_def Let_def param_consts)

text \<open>The flag octet afterwards: enable, manufacturer and product set, bits 3--6 kept.\<close>

lemma string_flags_set:
  assumes "length (cfg_bytes cfg) = 50"
  shows "string_flags (set_string_flags cfg d) =
    (cfg_bytes cfg ! 36 AND 0x78) OR (if serial_present d then 0x87 else 0x86)"
proof -
  have "(x AND 0x78) OR 0x86 OR 0x01 = (x AND 0x78) OR (0x87 :: u8)" for x
    by (simp add: u8_eq_iff bit_or_iff bit_and_iff)
  then show ?thesis
    using assms
    by (simp add: string_flags_def set_string_flags_def Let_def param_consts usb_string_consts or.assoc)
qed

lemma ParameterConfig_from_response_length:
  "ParameterConfig_from_response data = Inr cfg \<Longrightarrow> length (cfg_bytes cfg) = 50 \<and> cfg_bytes cfg = data"
  by (auto simp: ParameterConfig_from_response_def param_consts split: if_splits sum.splits)

section \<open>USB strings\<close>

lemma build_usb_string_length:
  "build_usb_string_data t s = Inr data \<Longrightarrow> length data \<le> 25"
  by (auto simp: build_usb_string_data_def USB_STRING_MAX_LEN_def split: if_splits)

lemma parse_build_usb_string:
  assumes "length s \<le> 23" and "utf8_string s"
  shows "\<exists>data. build_usb_string_data t s = Inr data \<and> parse_usb_string_response data = Inr s"
proof -
  let ?d = "UsbStringType_as_u8 t # of_nat (length s) # string_bytes s"
  have "build_usb_string_data t s = Inr ?d"
    using assms by (simp add: build_usb_string_data_def USB_STRING_MAX_LEN_def)
  moreover have "slice_of 2 (2 + length s) ?d = string_bytes s"
    by (simp add: slice_of_def)
  then have "parse_usb_string_response ?d = Inr s"
    using assms by (simp add: parse_usb_string_response_def USB_STRING_MAX_LEN_def from_utf8_string_bytes)
  ultimately show ?thesis by blast
qed

section \<open>Transactions\<close>

lemma take_matching_sound:
  "take_matching ok err pending = (Some r, rest) \<Longrightarrow>
     (resp_cmd r = ok \<or> resp_cmd r = err) \<and> r = response_of (resp_cmd r) (resp_data r)"
proof (induction ok err pending rule: take_matching.induct)
  case (1 ok err pending)
  show ?case
  proof (cases "try_extract_response pending")
    case None
    then show ?thesis using "1.prems" by (simp add: take_matching.simps [of ok err pending])
  next
    case (Some rn)
    obtain r' n where rn: "rn = (r', n)" by force
    show ?thesis
    proof (cases "resp_cmd r' = ok \<or> resp_cmd r' = err")
      case True
      then have "r = r'"
        using "1.prems" Some rn by (simp add: take_matching.simps [of ok err pending])
      then show ?thesis
        using True Some rn by (auto elim: try_extract_sound)
    next
      case False
      then show ?thesis
        using "1.prems" "1.IH" [OF Some rn [symmetric] False] Some rn
        by (simp add: take_matching.simps [of ok err pending])
    qed
  qed
qed

text \<open>A transaction that succeeds returns an answer to the command it sent.\<close>

lemma xfer_loop_sound:
  "xfer_loop cmd pending rs = Inr r \<Longrightarrow>
     (resp_cmd r = expected_response_cmd cmd False \<or> resp_cmd r = expected_response_cmd cmd True) \<and>
     r = response_of (resp_cmd r) (resp_data r)"
  by (induction cmd pending rs rule: xfer_loop.induct)
    (auto split: read_outcome.splits if_splits prod.splits option.splits dest: take_matching_sound)

text \<open>An unfinished frame is left in the buffer; a finished one is taken.\<close>

lemma try_extract_partial:
  assumes "n < 6 + length d" and "length d < 256"
  shows "try_extract_response (take n (frame a c d)) = None"
proof (cases "n < 6")
  case True
  then show ?thesis
    using assms by (simp add: try_extract_response_def extract_from.simps)
next
  case False
  then have "take n (frame a c d) ! i = frame a c d ! i" if "i < 6" for i
    using that by simp
  from this [of 0] this [of 1] this [of 4] show ?thesis
    using False assms frame_nth [of a c d]
    by (simp add: try_extract_response_def extract_from.simps [of _ 0] PACKET_HEADER_def Let_def)
qed

lemma take_matching_partial:
  assumes "n < 6 + length d" and "length d < 256"
  shows "take_matching ok err (take n (frame a c d)) = (None, take n (frame a c d))"
  using try_extract_partial [OF assms] by (simp add: take_matching.simps [of ok err])

lemma take_matching_frame:
  assumes "length d < 256" and "c = ok \<or> c = err"
  shows "take_matching ok err (frame a c d) = (Some (response_of c d), [])"
proof -
  have "try_extract_response (frame a c d) = Some (response_of c d, 6 + length d)"
    using try_extract_frame [of d "[]" a c "[]"] assms by (simp add: no_header_def)
  then show ?thesis
    using assms by (simp add: take_matching.simps [of ok err] response_of_def Let_def)
qed

text \<open>An answer that arrives in any number of pieces is reassembled.\<close>

lemma xfer_loop_chunks:
  assumes "take n (frame a c d) @ concat chunks = frame a c d" and "n < 6 + length d"
    and "length d \<le> 64" and "[] \<notin> set chunks"
    and c: "c = expected_response_cmd cmd False \<or> c = expected_response_cmd cmd True"
  shows "xfer_loop cmd (take n (frame a c d)) (map ReadOk chunks) = Inr (response_of c d)"
  using assms(1,2,4)
proof (induction chunks arbitrary: n)
  case Nil
  then show ?case using length_take [of n "frame a c d"] by (metis append_Nil2 concat.simps(1)
    length_frame min_less_iff_conj nat_neq_iff)
next
  case (Cons ch chunks)
  let ?m = "n + length ch"
  have ch: "take n (frame a c d) @ ch = take ?m (frame a c d)"
    using Cons.prems by (metis append_assoc append_eq_conv_conj concat.simps(2) length_append
      length_frame length_take less_imp_le_nat min.absorb2)
  show ?case
  proof (cases "?m < 6 + length d")
    case True
    have "xfer_loop cmd (take ?m (frame a c d)) (map ReadOk chunks) = Inr (response_of c d)"
      by (rule Cons.IH) (use Cons.prems True ch in \<open>auto simp: append_assoc [symmetric]\<close>)
    then show ?thesis
      using Cons.prems True assms(3) ch take_matching_partial [of ?m d]
      by (auto simp: MAX_PACKET_SIZE_def)
  next
    case False
    then have "take ?m (frame a c d) = frame a c d" by simp
    then show ?thesis
      using Cons.prems ch c assms(3) take_matching_frame [of d c] by auto
  qed
qed

lemma xfer_loop_answer:
  assumes "concat chunks = frame a c d" and "length d \<le> 64" and "[] \<notin> set chunks"
    and "c = expected_response_cmd cmd False \<or> c = expected_response_cmd cmd True"
  shows "xfer_loop cmd [] (map ReadOk chunks) = Inr (response_of c d)"
  using xfer_loop_chunks [of 0 a c d chunks cmd] assms by simp

section \<open>Programs over the port\<close>

text \<open>
  \<open>port_safe a m\<close>: from any port the program \<open>m\<close> does not panic, and it hands
  nothing to \<open>write_all\<close> but frames to address \<open>a\<close> of at most 64 octets of data.
\<close>

definition frames :: "u8 \<Rightarrow> (u8 \<times> bytes) list \<Rightarrow> bytes list" where
  "frames a cs = map (\<lambda>(c, d). frame a c d) cs"

lemma frames_simps [simp]:
  "frames a [] = []" "frames a (x # xs) = frame a (fst x) (snd x) # frames a xs"
  "frames a (xs @ ys) = frames a xs @ frames a ys"
  by (simp_all add: frames_def case_prod_beta)

definition port_safe :: "u8 \<Rightarrow> 'a port_m \<Rightarrow> bool" where
  "port_safe a m \<longleftrightarrow> (\<forall>p. fst (m p) \<noteq> Inl Panic \<and>
     (\<exists>cs. sp_written (snd (m p)) = sp_written p @ frames a cs \<and> (\<forall>(c, d) \<in> set cs. length d \<le> 64)))"

named_theorems port_safe_intros

lemma port_safe_return [port_safe_intros]: "port_safe a (pm_return x)"
  by (auto simp: port_safe_def pm_return_def intro: exI [of _ "[]"])

lemma port_safe_fail [port_safe_intros]: "port_safe a (pm_fail (Fail e))"
  by (auto simp: port_safe_def pm_fail_def intro: exI [of _ "[]"])

lemma port_safe_lift [port_safe_intros]: "port_safe a (pm_lift r)"
  by (auto simp: pm_lift_def port_safe_return port_safe_fail split: sum.splits)

lemma port_safe_bind [port_safe_intros]:
  assumes m: "port_safe a m" and f: "\<And>x. port_safe a (f x)"
  shows "port_safe a (pm_bind m f)"
  unfolding port_safe_def
proof
  fix p
  obtain r p' where mp: "m p = (r, p')" by force
  from m mp obtain cs where cs: "r \<noteq> Inl Panic" "sp_written p' = sp_written p @ frames a cs"
    "\<forall>(c, d) \<in> set cs. length d \<le> 64"
    by (auto simp: port_safe_def) (metis fst_conv snd_conv)
  show "fst (pm_bind m f p) \<noteq> Inl Panic \<and> (\<exists>cs. sp_written (snd (pm_bind m f p)) =
      sp_written p @ frames a cs \<and> (\<forall>(c, d) \<in> set cs. length d \<le> 64))"
  proof (cases r)
    case (Inl e)
    then show ?thesis using mp cs by (auto simp: pm_bind_def)
  next
    case (Inr x)
    from f [of x] obtain cs' where "fst (f x p') \<noteq> Inl Panic"
      "sp_written (snd (f x p')) = sp_written p' @ frames a cs'" "\<forall>(c, d) \<in> set cs'. length d \<le> 64"
      by (auto simp: port_safe_def)
    then show ?thesis
      using mp cs Inr by (auto simp: pm_bind_def intro!: exI [of _ "cs @ cs'"])
  qed
qed

lemma write_packet_eq:
  "length d \<le> 64 \<Longrightarrow> write_packet a c d p =
     (case sp_writes p of
        Some e # _ \<Rightarrow> Inl (Fail (backend_error (''Failed to write to CH9329: '' @ e) ''write_failed''))
      | _ \<Rightarrow> Inr (),
      p\<lparr>sp_written := sp_written p @ [frame a c d], sp_writes := tl (sp_writes p)\<rparr>)"
  by (auto simp: write_packet_def build_packet_eq port_write_all_def split: list.splits option.splits)

lemma port_safe_write [port_safe_intros]: "length d \<le> 64 \<Longrightarrow> port_safe a (write_packet a c d)"
  by (auto simp: port_safe_def write_packet_eq split: list.splits option.splits
      intro!: exI [of _ "[(c, d)]"])

lemma port_safe_xfer [port_safe_intros]:
  assumes "length d \<le> 64"
  shows "port_safe a (xfer_packet a c d)"
proof -
  have "port_safe a (\<lambda>p. let (reads, p') = port_take_reads p in pm_lift (xfer_loop c [] reads) p')"
    by (auto simp: port_safe_def port_take_reads_def pm_lift_def pm_fail_def pm_return_def Let_def
        split: sum.splits intro!: exI [of _ "[]"])
  then show ?thesis
    unfolding xfer_packet_def using assms by (intro port_safe_bind port_safe_write)
qed

lemma port_safe_try [port_safe_intros]: "port_safe a m \<Longrightarrow> port_safe a (pm_try m)"
  unfolding port_safe_def pm_try_def
  by (auto split: prod.splits sum.splits port_fail.splits) (metis fst_conv snd_conv)+

lemma port_safe_reset [port_safe_intros]: "port_safe a (try_best_effort_reset a)"
  by (auto simp: port_safe_def try_best_effort_reset_def write_packet_eq
      split: list.splits option.splits intro!: exI [of _ "[(cmd_RESET, [])]"])

lemma port_safe_retry [port_safe_intros]:
  assumes "port_safe a (act ())"
  shows "port_safe a (retry_attempts act dflt attempts last_error)"
  using assms
  by (induction attempts arbitrary: last_error)
    (auto intro!: port_safe_intros split: sum.splits)

lemma port_safe_ops [port_safe_intros]:
  "port_safe a (query_chip_info_on_port a)"
  "port_safe a (read_parameter_config_on_port a)"
  "port_safe a (read_usb_string_on_port a t)"
  "port_safe a (read_usb_string_with_retry_on_port a t)"
  by (auto simp: query_chip_info_on_port_def read_parameter_config_on_port_def
      read_usb_string_on_port_def read_usb_string_with_retry_on_port_def intro!: port_safe_intros)

lemma port_safe_write_usb_string [port_safe_intros]: "port_safe a (write_usb_string_on_port a t s)"
proof (cases "build_usb_string_data t s")
  case (Inl e)
  then have "write_usb_string_on_port a t s = pm_fail (Fail e)"
    by (simp add: write_usb_string_on_port_def pm_bind_def pm_lift_def pm_fail_def fun_eq_iff)
  then show ?thesis by (simp add: port_safe_fail)
next
  case (Inr data)
  then have "write_usb_string_on_port a t s =
      pm_bind (xfer_packet a cmd_SET_USB_STRING data) (\<lambda>r.
      pm_bind (pm_lift (ensure_success r)) (\<lambda>_. pm_return ()))"
    by (simp add: write_usb_string_on_port_def pm_bind_def pm_lift_def pm_return_def fun_eq_iff)
  then show ?thesis
    using build_usb_string_length [OF Inr] by (auto intro!: port_safe_intros)
qed

lemma port_safe_read_descriptor [port_safe_intros]: "port_safe a (read_device_descriptor_on_port a)"
  unfolding read_device_descriptor_on_port_def Let_def
  by (intro port_safe_bind port_safe_ops) (auto intro!: port_safe_intros)

section \<open>Successful runs\<close>

lemma pm_bind_Inr:
  "pm_bind m f p = (Inr y, p') \<longleftrightarrow> (\<exists>x q. m p = (Inr x, q) \<and> f x q = (Inr y, p'))"
  by (auto simp: pm_bind_def split: prod.splits sum.splits)

lemma pm_return_Inr: "pm_return x p = (Inr y, p') \<longleftrightarrow> x = y \<and> p' = p"
  by (auto simp: pm_return_def)

lemma pm_lift_Inr: "pm_lift r p = (Inr y, p') \<longleftrightarrow> r = Inr y \<and> p' = p"
  by (auto simp: pm_lift_def pm_fail_def pm_return_def split: sum.splits)

lemma pm_fail_Inr: "pm_fail e p = (Inr y, p') \<longleftrightarrow> False"
  by (simp add: pm_fail_def)

lemmas pm_Inr = pm_bind_Inr pm_return_Inr pm_lift_Inr pm_fail_Inr

lemma xfer_packet_Inr:
  assumes "xfer_packet a c d p = (Inr r, p')" and "length d \<le> 64"
  shows "sp_written p' = sp_written p @ [frame a c d]"
  using assms
  by (auto simp: xfer_packet_def pm_Inr write_packet_eq port_take_reads_def Let_def
      split: prod.splits list.splits option.splits)

lemma query_chip_info_Inr:
  assumes "query_chip_info_on_port a p = (Inr r, p')"
  shows "sp_written p' = sp_written p @ [frame a cmd_GET_INFO []]"
  using assms by (auto simp: query_chip_info_on_port_def pm_Inr dest: xfer_packet_Inr)

lemma write_parameter_config_Inr:
  assumes "write_parameter_config_on_port a cfg p = (Inr r, p')" and "length (cfg_bytes cfg) = 50"
  shows "sp_written p' = sp_written p @ [frame a cmd_SET_PARA_CFG (cfg_bytes cfg)]"
  using assms by (auto simp: write_parameter_config_on_port_def pm_Inr dest: xfer_packet_Inr)

lemma write_usb_string_Inr:
  assumes "write_usb_string_on_port a t s p = (Inr r, p')"
  shows "length s \<le> 23 \<and> sp_written p' = sp_written p @
    [frame a cmd_SET_USB_STRING (UsbStringType_as_u8 t # of_nat (length s) # string_bytes s)]"
  using assms
  by (auto simp: write_usb_string_on_port_def pm_Inr build_usb_string_data_def USB_STRING_MAX_LEN_def
      split: if_splits dest: xfer_packet_Inr)

lemma try_best_effort_reset_Inr:
  assumes "try_best_effort_reset a p = (Inr r, p')"
  shows "sp_written p' = sp_written p @ [frame a cmd_RESET []]"
  using assms
  by (auto simp: try_best_effort_reset_def write_packet_eq split: list.splits option.splits)

text \<open>A successful read of the parameter block took between one and three requests.\<close>

lemma retry_attempts_Inr:
  assumes "retry_attempts act dflt attempts last_error p = (Inr r, p')"
    and "\<And>p res p'. act () p = (Inr res, p') \<Longrightarrow> sp_written p' = sp_written p @ [fr]"
  shows "\<exists>k q. 1 \<le> k \<and> k \<le> length attempts \<and> sp_written p' = sp_written p @ replicate k fr \<and>
    act () q = (Inr (Inr r), p')"
  using assms(1)
proof (induction attempts arbitrary: last_error p)
  case Nil
  then show ?case by (simp add: pm_Inr)
next
  case (Cons n ns)
  from Cons.prems obtain res q where res: "act () p = (Inr res, q)"
    and rest: "(case res of Inr a \<Rightarrow> pm_return a
       | Inl err \<Rightarrow> if Suc n < DESCRIPTOR_READ_RETRIES \<and> is_invalid_response err
           then retry_attempts act dflt ns (Some err) else pm_fail (Fail err)) q = (Inr r, p')"
    by (auto simp: pm_bind_Inr)
  have w: "sp_written q = sp_written p @ [fr]" by (rule assms(2) [OF res])
  show ?case
  proof (cases res)
    case (Inr a)
    then show ?thesis using rest w res by (auto simp: pm_Inr intro!: exI [of _ 1] exI [of _ p])
  next
    case (Inl err)
    then obtain k q' where "1 \<le> k" "k \<le> length ns" "sp_written p' = sp_written q @ replicate k fr"
      "act () q' = (Inr (Inr r), p')"
      using rest Cons.IH [of "Some err" q] by (auto simp: pm_Inr split: if_splits)
    then show ?thesis using w by (intro exI [of _ "Suc k"] exI [of _ q']) auto
  qed
qed

lemma read_parameter_config_Inr:
  assumes "read_parameter_config_on_port a p = (Inr cfg, p')"
  shows "length (cfg_bytes cfg) = 50 \<and> (\<exists>k. 1 \<le> k \<and> k \<le> 3 \<and>
    sp_written p' = sp_written p @ replicate k (frame a cmd_GET_PARA_CFG []))"
proof -
  let ?act = "\<lambda>_::unit. pm_bind (xfer_packet a cmd_GET_PARA_CFG []) (\<lambda>r.
     pm_return (case ensure_success r of Inl e \<Rightarrow> Inl e
                | Inr response \<Rightarrow> ParameterConfig_from_response (resp_data response)))"
  have act: "\<And>p res p'. ?act () p = (Inr res, p') \<Longrightarrow>
      sp_written p' = sp_written p @ [frame a cmd_GET_PARA_CFG []]"
    by (auto simp: pm_Inr dest: xfer_packet_Inr)
  have "\<exists>k q. 1 \<le> k \<and> k \<le> length [0..<DESCRIPTOR_READ_RETRIES] \<and>
      sp_written p' = sp_written p @ replicate k (frame a cmd_GET_PARA_CFG []) \<and>
      ?act () q = (Inr (Inr cfg), p')"
    by (rule retry_attempts_Inr [OF assms [unfolded read_parameter_config_on_port_def]]) (rule act)
  then obtain k q where "1 \<le> k" "k \<le> 3"
    "sp_written p' = sp_written p @ replicate k (frame a cmd_GET_PARA_CFG [])"
    "?act () q = (Inr (Inr cfg), p')"
    by (auto simp: DESCRIPTOR_READ_RETRIES_def)
  moreover from this have "length (cfg_bytes cfg) = 50"
    by (auto simp: pm_Inr)
      (metis ParameterConfig_from_response_length old.sum.simps(5,6) sum.exhaust sum.inject(2) sum.distinct(1))
  ultimately show ?thesis by blast
qed

section \<open>Programming the descriptor\<close>

text \<open>The commands a successful \<open>apply_device_descriptor_on_port\<close> sends after the read.\<close>

definition usb_string_cmd :: "UsbStringType \<Rightarrow> string \<Rightarrow> u8 \<times> bytes" where
  "usb_string_cmd t s =
     (cmd_SET_USB_STRING, UsbStringType_as_u8 t # of_nat (length s) # string_bytes s)"

definition apply_commands :: "bytes \<Rightarrow> Ch9329DescriptorConfig \<Rightarrow> (u8 \<times> bytes) list" where
  "apply_commands params d =
     [(cmd_SET_PARA_CFG, params), usb_string_cmd Manufacturer (manufacturer d),
      usb_string_cmd Product (product_name d)] @
     (case serial_number d of
        Some s \<Rightarrow> if s \<noteq> [] then [usb_string_cmd Serial s] else []
      | None \<Rightarrow> []) @
     [(cmd_RESET, []), (cmd_GET_INFO, [])]"

text \<open>The parameter block it sends: the chip's own, with the identifiers and flags replaced.\<close>

definition params_for :: "bytes \<Rightarrow> Ch9329DescriptorConfig \<Rightarrow> bool" where
  "params_for b d \<longleftrightarrow> length b = 50 \<and>
     vendor_id (descriptor_base \<lparr>cfg_bytes = b\<rparr>) = vendor_id d \<and>
     product_id (descriptor_base \<lparr>cfg_bytes = b\<rparr>) = product_id d \<and>
     bit (b ! 36) 7 \<and> bit (b ! 36) 2 \<and> bit (b ! 36) (Suc 0) \<and> (bit (b ! 36) 0 \<longleftrightarrow> serial_present d)"

lemma params_for_set:
  assumes "length (cfg_bytes cfg) = 50"
  shows "params_for (cfg_bytes (set_string_flags (set_vid_pid cfg (vendor_id d) (product_id d)) d)) d"
proof -
  let ?c = "set_vid_pid cfg (vendor_id d) (product_id d)"
  let ?b = "cfg_bytes (set_string_flags ?c d)"
  have l: "length (cfg_bytes ?c) = 50" using assms by simp
  have "descriptor_base \<lparr>cfg_bytes = ?b\<rparr> = descriptor_base ?c"
    by (simp add: descriptor_base_def Let_def param_consts set_string_flags_nth)
  moreover have "?b ! 36 = (cfg_bytes ?c ! 36 AND 0x78) OR (if serial_present d then 0x87 else 0x86)"
    using string_flags_set [OF l, of d] by (simp add: string_flags_def param_consts)
  ultimately show ?thesis
    using assms l descriptor_base_set_vid_pid [OF assms]
    by (simp add: params_for_def bit_or_iff bit_and_iff)
qed

lemma apply_device_descriptor_Inr:
  assumes "apply_device_descriptor_on_port a d p = (Inr st, p')"
  shows "\<exists>k params. 1 \<le> k \<and> k \<le> 3 \<and> params_for params d \<and>
    sp_written p' = sp_written p @ replicate k (frame a cmd_GET_PARA_CFG []) @
      frames a (apply_commands params d) \<and>
    descriptor st = d"
proof -
  let ?cfg = "\<lambda>cfg0. set_string_flags (set_vid_pid cfg0 (vendor_id d) (product_id d)) d"
  from assms obtain cfg0 p0 p1 p2 p3 p4 p5 i where
      s0: "read_parameter_config_on_port a p = (Inr cfg0, p0)"
    and s1: "write_parameter_config_on_port a (?cfg cfg0) p0 = (Inr (), p1)"
    and s2: "write_usb_string_on_port a Manufacturer (manufacturer d) p1 = (Inr (), p2)"
    and s3: "write_usb_string_on_port a Product (product_name d) p2 = (Inr (), p3)"
    and s4: "(case serial_number d of
        Some s \<Rightarrow> if s \<noteq> [] then write_usb_string_on_port a Serial s else pm_return ()
      | None \<Rightarrow> pm_return ()) p3 = (Inr (), p4)"
    and s5: "try_best_effort_reset a p4 = (Inr (), p5)"
    and s6: "query_chip_info_on_port a p5 = (Inr i, p')" and st: "descriptor st = d"
    by (auto simp: apply_device_descriptor_on_port_def Let_def pm_Inr)
  from read_parameter_config_Inr [OF s0] obtain k where k: "1 \<le> k" "k \<le> 3" "length (cfg_bytes cfg0) = 50"
    "sp_written p0 = sp_written p @ replicate k (frame a cmd_GET_PARA_CFG [])" by blast
  have w1: "sp_written p1 = sp_written p0 @ [frame a cmd_SET_PARA_CFG (cfg_bytes (?cfg cfg0))]"
    by (rule write_parameter_config_Inr [OF s1]) (simp add: k(3))
  have w4: "sp_written p4 = sp_written p3 @ frames a (case serial_number d of
        Some s \<Rightarrow> if s \<noteq> [] then [usb_string_cmd Serial s] else [] | None \<Rightarrow> [])"
    using s4 write_usb_string_Inr [of a Serial _ p3 "()" p4]
    by (auto simp: pm_Inr usb_string_cmd_def split: option.splits if_splits)
  have "sp_written p' = sp_written p @ replicate k (frame a cmd_GET_PARA_CFG []) @
      frames a (apply_commands (cfg_bytes (?cfg cfg0)) d)"
    using k(4) w1 w4 write_usb_string_Inr [OF s2] write_usb_string_Inr [OF s3]
      try_best_effort_reset_Inr [OF s5] query_chip_info_Inr [OF s6]
    by (simp add: apply_commands_def usb_string_cmd_def)
  then show ?thesis using k params_for_set [OF k(3), of d] st by blast
qed

section \<open>No operation panics\<close>

lemma port_safe_bind_post:
  assumes "port_safe a m" and "\<And>x. \<exists>p p'. m p = (Inr x, p') \<Longrightarrow> port_safe a (f x)"
  shows "port_safe a (pm_bind m f)"
proof -
  define g where "g = (\<lambda>x. if \<exists>p p'. m p = (Inr x, p') then f x else pm_fail (Fail Unauthorized))"
  have "pm_bind m f = pm_bind m g"
    by (auto simp: pm_bind_def g_def fun_eq_iff split: prod.splits sum.splits)
  moreover have "port_safe a (pm_bind m g)"
    using assms by (intro port_safe_bind) (auto simp: g_def port_safe_fail)
  ultimately show ?thesis by simp
qed

lemma port_safe_write_parameter_config:
  "length (cfg_bytes cfg) = 50 \<Longrightarrow> port_safe a (write_parameter_config_on_port a cfg)"
  unfolding write_parameter_config_on_port_def by (auto intro!: port_safe_intros)

lemma port_safe_apply [port_safe_intros]: "port_safe a (apply_device_descriptor_on_port a d)"
  unfolding apply_device_descriptor_on_port_def Let_def
proof (rule port_safe_bind_post [OF port_safe_ops(2)])
  fix cfg
  assume "\<exists>p p'. read_parameter_config_on_port a p = (Inr cfg, p')"
  then have "length (cfg_bytes cfg) = 50" using read_parameter_config_Inr by blast
  then show "port_safe a (pm_bind (write_parameter_config_on_port a
      (set_string_flags (set_vid_pid cfg (vendor_id d) (product_id d)) d)) (\<lambda>_.
      pm_bind (write_usb_string_on_port a Manufacturer (manufacturer d)) (\<lambda>_.
      pm_bind (write_usb_string_on_port a Product (product_name d)) (\<lambda>_.
      pm_bind (case serial_number d of
                 Some s \<Rightarrow> if s \<noteq> [] then write_usb_string_on_port a Serial s else pm_return ()
               | None \<Rightarrow> pm_return ()) (\<lambda>_.
      pm_bind (try_best_effort_reset a) (\<lambda>_.
      pm_bind (query_chip_info_on_port a) (\<lambda>_.
      pm_return \<lparr>descriptor = d, manufacturer_enabled = True, product_enabled = True,
        serial_enabled = serial_present d, config_mode_available = True\<rparr>)))))))"
    by (intro port_safe_bind port_safe_write_parameter_config port_safe_intros)
      (auto intro!: port_safe_intros split: option.splits)
qed

lemma port_safe_xfer_all [port_safe_intros]:
  "\<forall>(c, d) \<in> set xs. length d \<le> 64 \<Longrightarrow> port_safe a (xfer_all a xs)"
  by (induction xs) (auto intro!: port_safe_intros)

lemma port_safe_release [port_safe_intros]: "port_safe a (release_state_on_port a)"
  unfolding release_state_on_port_def reset_sequence_def by (intro port_safe_xfer_all) simp

lemma port_safe_no_panic: "port_safe a m \<Longrightarrow> m p \<noteq> (Inl Panic, p')"
  by (auto simp: port_safe_def) (metis fst_conv)

section \<open>Properties\<close>

lemma xfer_loop_timeouts: "xfer_loop cmd pending (replicate n ReadTimedOut @ rs) = xfer_loop cmd pending rs"
  by (induction n) simp_all

lemma xfer_packet_answer:
  assumes "length data \<le> 64" and "sp_writes p = []"
    and "sp_reads p = (replicate n ReadTimedOut @ map ReadOk chunks) # later"
    and "concat chunks = frame a' c d" and "length d \<le> 64" and "[] \<notin> set chunks"
    and "c = expected_response_cmd cmd False \<or> c = expected_response_cmd cmd True"
  shows "xfer_packet a cmd data p =
    (Inr (response_of c d), p\<lparr>sp_written := sp_written p @ [frame a cmd data], sp_reads := later\<rparr>)"
  using assms
  by (simp add: xfer_packet_def pm_bind_def write_packet_eq port_take_reads_def pm_lift_def pm_return_def
      xfer_loop_timeouts xfer_loop_answer [of chunks a' c d])

lemma xfer_packet_one_read:
  assumes "length data \<le> 64" and "sp_writes p = []" and "sp_reads p = [ReadOk (frame a' c d)] # later"
    and "length d \<le> 64" and "c = expected_response_cmd cmd False"
  shows "xfer_packet a cmd data p =
    (Inr (response_of c d), p\<lparr>sp_written := sp_written p @ [frame a cmd data], sp_reads := later\<rparr>)"
  by (rule xfer_packet_answer [of _ _ 0 "[frame a' c d]" later a']) (use assms in \<open>simp_all add: frame_def frame_head_def\<close>)

text \<open>However the serial line cuts the answer into reads, and however many reads time out
  before it, the transaction reassembles it and returns the chip's command and data; it
  wrote exactly the frame of the request.\<close>

theorem xfer_reassembles_answer:
  assumes "length data \<le> 64" and "sp_writes p = []"
    and "sp_reads p = (replicate n ReadTimedOut @ map ReadOk chunks) # later"
    and "concat chunks = frame a' c d" and "length d \<le> 64" and "[] \<notin> set chunks"
    and "c = expected_response_cmd cmd False \<or> c = expected_response_cmd cmd True"
  shows "xfer_packet a cmd data p =
    (Inr (response_of c d), p\<lparr>sp_written := sp_written p @ [frame a cmd data], sp_reads := later\<rparr>)"
  by (rule xfer_packet_answer [OF assms])

theorem xfer_reassembles_answer_witness:
  "fst (xfer_packet 0 cmd_GET_INFO []
     \<lparr>sp_written = [], sp_writes = [],
      sp_reads = [replicate 1 ReadTimedOut @ map ReadOk [[0x57], [0xAB, 0, 0x81, 1], [7, 0x8B]]]\<rparr>) =
   Inr (response_of 0x81 [7])"
  by (subst xfer_reassembles_answer [where c = "0x81" and d = "[7]" and a' = 0 and later = "[]"
        and chunks = "[[0x57], [0xAB, 0, 0x81, 1], [7, 0x8B]]" and n = 1])
    (simp_all add: frame_def frame_head_def calculate_checksum_def expected_response_cmd_def cmd_consts
      RESPONSE_SUCCESS_MASK_def)

text \<open>Storing the identifiers and the string flags of a descriptor in the 50-octet parameter
  block changes octets 11 to 14 and 36 only; the identifiers read back as written, the
  flag octet enables the manufacturer and the product string, the serial string exactly
  when there is a serial number, and keeps its bits 3 to 6.\<close>

theorem parameter_block_update:
  fixes cfg d
  defines "cfg' \<equiv> set_string_flags (set_vid_pid cfg (vendor_id d) (product_id d)) d"
  assumes "length (cfg_bytes cfg) = 50"
  shows "length (cfg_bytes cfg') = 50 \<and>
    (\<forall>k. k < 50 \<and> k \<notin> {11, 12, 13, 14, 36} \<longrightarrow> cfg_bytes cfg' ! k = cfg_bytes cfg ! k) \<and>
    vendor_id (descriptor_base cfg') = vendor_id d \<and> product_id (descriptor_base cfg') = product_id d \<and>
    string_flags cfg' = (string_flags cfg AND 0x78) OR (if serial_present d then 0x87 else 0x86)"
proof -
  have base: "descriptor_base cfg' = descriptor_base (set_vid_pid cfg (vendor_id d) (product_id d))"
    by (simp add: cfg'_def descriptor_base_def Let_def param_consts set_string_flags_nth)
  have k: "cfg_bytes cfg' ! k = cfg_bytes cfg ! k" if "k < 50" "k \<notin> {11, 12, 13, 14, 36}" for k
  proof -
    have "\<not> (11 \<le> k \<and> k < 13)" "\<not> (13 \<le> k \<and> k < 15)" "k \<noteq> 36" using that by auto
    then show ?thesis
      using set_string_flags_nth [of k "set_vid_pid cfg (vendor_id d) (product_id d)" d]
        set_vid_pid_nth [OF assms(2) that(1), of "vendor_id d" "product_id d"]
      by (simp only: cfg'_def if_False not_False_eq_True)
  qed
  have "string_flags cfg' = (string_flags cfg AND 0x78) OR (if serial_present d then 0x87 else 0x86)"
    using assms(2) string_flags_set [of "set_vid_pid cfg (vendor_id d) (product_id d)" d]
    by (simp add: cfg'_def set_vid_pid_nth) (simp add: string_flags_def param_consts)
  then show ?thesis
    using assms(2) descriptor_base_set_vid_pid [OF assms(2)] k
    by (simp add: base) (simp add: cfg'_def)
qed

theorem parameter_block_update_witness:
  "vendor_id (descriptor_base (set_string_flags (set_vid_pid \<lparr>cfg_bytes = replicate 50 0\<rparr> 0x1A86 0xE129)
      \<lparr>vendor_id = 0x1A86, product_id = 0xE129, manufacturer = ''m'', product_name = ''p'', serial_number = None\<rparr>))
   = 0x1A86"
  using parameter_block_update [of "\<lparr>cfg_bytes = replicate 50 0\<rparr>"
      "\<lparr>vendor_id = 0x1A86, product_id = 0xE129, manufacturer = ''m'', product_name = ''p'', serial_number = None\<rparr>"]
  by simp

text \<open>A USB string of at most 23 octets is encoded for the chip so that the response parser
  reads it back; a longer one is refused.\<close>

theorem usb_string_roundtrip:
  assumes "utf8_string s"
  shows "if length s \<le> 23
    then \<exists>data. build_usb_string_data t s = Inr data \<and> length data = 2 + length s \<and>
      parse_usb_string_response data = Inr s
    else build_usb_string_data t s = Inl (HidError ''ch9329'' ''CH9329 USB string is too long'' ''invalid_config'')"
proof (cases "length s \<le> 23")
  case True
  then have "build_usb_string_data t s = Inr (UsbStringType_as_u8 t # of_nat (length s) # string_bytes s)"
    by (simp add: build_usb_string_data_def USB_STRING_MAX_LEN_def)
  with True parse_build_usb_string [OF True assms, of t] show ?thesis by auto
next
  case False
  then show ?thesis by (simp add: build_usb_string_data_def USB_STRING_MAX_LEN_def backend_error_def)
qed

theorem usb_string_roundtrip_witness:
  "\<exists>data. build_usb_string_data Product ''One-KVM'' = Inr data \<and> length data = 9 \<and>
     parse_usb_string_response data = Inr ''One-KVM''"
proof -
  have "utf8_string ''One-KVM''"
    by code_simp
  from usb_string_roundtrip [OF this, of Product] show ?thesis by simp
qed

text \<open>When applying a descriptor succeeds, the chip was sent, in this order and nothing else,
  one to three reads of the parameter block, the block with the new identifiers and
  flags, the manufacturer, product and (if any) serial string, the reset and a query of
  the chip; and the state reported back is that descriptor.\<close>

theorem apply_descriptor_commands:
  assumes "apply_device_descriptor_on_port a d p = (Inr st, p')"
  shows "\<exists>k params. 1 \<le> k \<and> k \<le> 3 \<and> params_for params d \<and>
    sp_written p' = sp_written p @ replicate k (frame a cmd_GET_PARA_CFG []) @
      frames a (apply_commands params d) \<and>
    descriptor st = d"
  by (rule apply_device_descriptor_Inr [OF assms])


theorem apply_descriptor_commands_witness:
  "\<exists>k params. 1 \<le> k \<and> k \<le> (3 :: nat) \<and>
    params_for params \<lparr>vendor_id = 0x1A86, product_id = 0xE129, manufacturer = ''m'', product_name = ''p'',
      serial_number = None\<rparr>"
proof -
  let ?d = "\<lparr>vendor_id = 0x1A86, product_id = 0xE129, manufacturer = ''m'', product_name = ''p'',
      serial_number = None\<rparr>"
  let ?r = "\<lambda>c d. [ReadOk (frame 0 c d)]"
  let ?p = "\<lparr>sp_written = [], sp_writes = [],
    sp_reads = [?r 0x88 (replicate 50 0), ?r 0x89 [0], ?r 0x8B [0], ?r 0x8B [0], ?r 0x81 (replicate 8 0)]\<rparr>"
  have "\<exists>st p'. apply_device_descriptor_on_port 0 ?d ?p = (Inr st, p')"
    by (simp add: apply_device_descriptor_on_port_def read_parameter_config_on_port_def
        write_parameter_config_on_port_def write_usb_string_on_port_def try_best_effort_reset_def
        query_chip_info_on_port_def pm_bind_def pm_return_def pm_lift_def pm_fail_def Let_def
        DESCRIPTOR_READ_RETRIES_def upt_rec [of 0] xfer_packet_one_read [where a' = 0]
        ensure_success_def response_of_def RESPONSE_ERROR_MASK_def RESPONSE_SUCCESS_MASK_def
        ParameterConfig_from_response_def validate_parameter_layout_def param_consts VALID_WORK_MODES_def
        VALID_SERIAL_MODES_def build_usb_string_data_def USB_STRING_MAX_LEN_def write_packet_eq
        ChipInfo_from_response_def expected_response_cmd_def cmd_consts)
  then obtain st p' where "apply_device_descriptor_on_port 0 ?d ?p = (Inr st, p')" by blast
  from apply_descriptor_commands [OF this] show ?thesis by blast
qed

end
