(* ===== verification/Ch9329Backend.thy ===== *)
theory Ch9329Backend
  imports Ch9329Port HidTypes
begin

text \<open>
  The HID backend of \<open>hid/ch9329.rs\<close>: the runtime flags, the keyboard and mouse state,
  the operations of the \<open>HidBackend\<close> trait, and the worker thread that owns the serial
  port.  The channel to the worker is the list \<open>worker_queue\<close>; \<open>worker_tx\<close> says whether
  the backend holds a sender and \<open>worker_running\<close> whether the receiver still exists.
  Operations return the new state, with \<open>Inl\<close> for an error.  The worker is one step per
  received command (\<open>worker_step\<close>); the attempts to reopen the port are an argument.
\<close>

section \<open>Runtime state\<close>

record Ch9329RuntimeState =
  initialized :: bool
  online :: bool
  last_error :: "(string \<times> string) option"
  notified :: nat

definition RuntimeState_new :: Ch9329RuntimeState where
  "RuntimeState_new = \<lparr>initialized = False, online = False, last_error = None, notified = 0\<rparr>"

definition notify :: "Ch9329RuntimeState \<Rightarrow> Ch9329RuntimeState" where
  "notify r = r\<lparr>notified := notified r + 1\<rparr>"

definition clear_error :: "Ch9329RuntimeState \<Rightarrow> Ch9329RuntimeState" where
  "clear_error r = (if last_error r \<noteq> None then notify (r\<lparr>last_error := None\<rparr>) else r)"

definition set_online :: "Ch9329RuntimeState \<Rightarrow> Ch9329RuntimeState" where
  "set_online r =
     (let was_online = online r;
          cleared_error = (last_error r \<noteq> None);
          r' = r\<lparr>online := True, last_error := None\<rparr>
      in if \<not> was_online \<or> cleared_error then notify r' else r')"

definition set_error :: "string \<Rightarrow> string \<Rightarrow> Ch9329RuntimeState \<Rightarrow> Ch9329RuntimeState" where
  "set_error reason code r =
     (let was_online = online r;
          changed = (last_error r \<noteq> Some (reason, code));
          r' = r\<lparr>online := False, last_error := Some (reason, code)\<rparr>
      in if was_online \<or> changed then notify r' else r')"

definition set_initialized :: "bool \<Rightarrow> Ch9329RuntimeState \<Rightarrow> Ch9329RuntimeState" where
  "set_initialized b r =
     (if initialized r \<noteq> b then notify (r\<lparr>initialized := b\<rparr>) else r)"

definition set_offline :: "Ch9329RuntimeState \<Rightarrow> Ch9329RuntimeState" where
  "set_offline r = (if online r then notify (r\<lparr>online := False\<rparr>) else r)"

lemmas runtime_defs =
  RuntimeState_new_def notify_def clear_error_def set_online_def set_error_def
  set_initialized_def set_offline_def

fun record_runtime_error :: "AppError \<Rightarrow> Ch9329RuntimeState \<Rightarrow> Ch9329RuntimeState" where
  "record_runtime_error (HidError _ reason code) r = set_error reason code r"
| "record_runtime_error err r = set_error (AppError_fmt err) ''error'' r"

section \<open>Backend state\<close>

datatype WorkerCommand =
    Packet u8 bytes
  | ApplyDescriptor Ch9329DescriptorConfig nat
  | ReadDescriptor nat
  | ResetState
  | Shutdown

record Ch9329Backend =
  worker_tx :: bool
  worker_running :: bool
  worker_queue :: "WorkerCommand list"
  keyboard_state :: KeyboardReport
  mouse_buttons :: u8
  screen_resolution :: "u32 \<times> u32"
  chip_info :: "ChipInfo option"
  led_status :: LedStatus
  address :: u8
  last_abs_x :: u16
  last_abs_y :: u16
  relative_mouse_active :: bool
  hybrid_mouse :: bool
  runtime :: Ch9329RuntimeState
  replies :: "(nat \<times> Ch9329DescriptorState app_result) list"

definition with_options :: "bool \<Rightarrow> Ch9329Backend" where
  "with_options hybrid =
     \<lparr>worker_tx = False, worker_running = False, worker_queue = [],
      keyboard_state = default_report, mouse_buttons = 0, screen_resolution = (1920, 1080),
      chip_info = None, led_status = \<lparr>num_lock = False, caps_lock = False, scroll_lock = False\<rparr>,
      address = DEFAULT_ADDR, last_abs_x = 0, last_abs_y = 0, relative_mouse_active = False,
      hybrid_mouse = hybrid, runtime = RuntimeState_new, replies = []\<rparr>"

definition record_error :: "string \<Rightarrow> string \<Rightarrow> Ch9329Backend \<Rightarrow> Ch9329Backend" where
  "record_error reason code b = b\<lparr>runtime := set_error reason code (runtime b)\<rparr>"

definition enqueue_command :: "WorkerCommand \<Rightarrow> Ch9329Backend \<Rightarrow> unit app_result \<times> Ch9329Backend" where
  "enqueue_command command b =
     (if \<not> worker_tx b then
        (Inl (backend_error ''CH9329 worker is not running'' ''worker_stopped''),
         record_error ''CH9329 worker is not running'' ''worker_stopped'' b)
      else if \<not> worker_running b then
        (Inl (backend_error ''CH9329 worker stopped'' ''worker_stopped''),
         record_error ''CH9329 worker stopped'' ''worker_stopped'' b)
      else (Inr (), b\<lparr>worker_queue := worker_queue b @ [command]\<rparr>))"

definition send_packet :: "u8 \<Rightarrow> bytes \<Rightarrow> Ch9329Backend \<Rightarrow> unit app_result \<times> Ch9329Backend" where
  "send_packet cmd data b = enqueue_command (Packet cmd data) b"

definition send_keyboard_report :: "KeyboardReport \<Rightarrow> Ch9329Backend \<Rightarrow> unit app_result \<times> Ch9329Backend" where
  "send_keyboard_report report b = send_packet cmd_SEND_KB_GENERAL_DATA (report_to_bytes report) b"

definition send_media_key :: "bytes \<Rightarrow> Ch9329Backend \<Rightarrow> unit app_result \<times> Ch9329Backend" where
  "send_media_key data b =
     (if length data < 2 \<or> length data > 4 then (Inl (Internal ''Invalid media key data length''), b)
      else send_packet cmd_SEND_KB_MEDIA_DATA data b)"

definition release_media_keys :: "Ch9329Backend \<Rightarrow> unit app_result \<times> Ch9329Backend" where
  "release_media_keys b = send_media_key [0x02, 0x00, 0x00, 0x00] b"

definition send_mouse_relative :: "u8 \<Rightarrow> u8 \<Rightarrow> u8 \<Rightarrow> u8 \<Rightarrow> Ch9329Backend \<Rightarrow> unit app_result \<times> Ch9329Backend" where
  "send_mouse_relative buttons dx dy wheel b =
     send_packet cmd_SEND_MS_REL_DATA [0x01, buttons, dx, dy, wheel] b"

definition send_mouse_absolute :: "u8 \<Rightarrow> u16 \<Rightarrow> u16 \<Rightarrow> u8 \<Rightarrow> Ch9329Backend \<Rightarrow> unit app_result \<times> Ch9329Backend" where
  "send_mouse_absolute buttons x y wheel b =
     send_packet cmd_SEND_MS_ABS_DATA
       [0x02, buttons, ucast (x AND 0xFF), ucast (drop_bit 8 x),
        ucast (y AND 0xFF), ucast (drop_bit 8 y), wheel] b"

definition should_send_button_wheel_relative :: "Ch9329Backend \<Rightarrow> bool" where
  "should_send_button_wheel_relative b \<longleftrightarrow> hybrid_mouse b \<or> relative_mouse_active b"

definition absolute_move_buttons :: "Ch9329Backend \<Rightarrow> u8 \<Rightarrow> u8" where
  "absolute_move_buttons b buttons = (if hybrid_mouse b then 0 else buttons)"

section \<open>The operations of the trait\<close>

definition send_keyboard :: "KeyboardEvent \<Rightarrow> Ch9329Backend \<Rightarrow> unit app_result \<times> Ch9329Backend" where
  "send_keyboard event b =
     (let usb_key = to_hid_usage (kb_key event) in
      if is_modifier (kb_key event) then
        (let state = keyboard_state b;
             state =
               (case modifier_bit (kb_key event) of
                  Some m \<Rightarrow>
                    (case kb_event_type event of
                       KeyDown \<Rightarrow> state\<lparr>modifiers := modifiers state OR m\<rparr>
                     | KeyUp \<Rightarrow> state\<lparr>modifiers := modifiers state AND NOT m\<rparr>)
                | None \<Rightarrow> state)
         in send_keyboard_report state (b\<lparr>keyboard_state := state\<rparr>))
      else
        (let state = (keyboard_state b)\<lparr>modifiers := to_hid_byte (kb_modifiers event)\<rparr>;
             state =
               (case kb_event_type event of
                  KeyDown \<Rightarrow> fst (add_key state usb_key)
                | KeyUp \<Rightarrow> remove_key state usb_key)
         in send_keyboard_report state (b\<lparr>keyboard_state := state\<rparr>)))"

text \<open>\<open>i32::clamp\<close>, then the cast to \<open>i8\<close>.\<close>

definition clamp_i32 :: "int \<Rightarrow> int \<Rightarrow> u32 \<Rightarrow> int" where
  "clamp_i32 lo hi x = (if sint x < lo then lo else if sint x > hi then hi else sint x)"

definition clamp_i8 :: "u32 \<Rightarrow> u8" where
  "clamp_i8 x = word_of_int (clamp_i32 (- 127) 127 x)"

definition CH9329_MOUSE_RESOLUTION :: u32 where "CH9329_MOUSE_RESOLUTION = 4096"

text \<open>\<open>((v.clamp(0, 32767) as u32) * CH9329_MOUSE_RESOLUTION / 32768) as u16\<close>.\<close>

definition scale_abs :: "u32 \<Rightarrow> u16" where
  "scale_abs v = ucast ((word_of_int (clamp_i32 0 32767 v) :: u32) * CH9329_MOUSE_RESOLUTION div 32768)"

definition send_mouse_buttons :: "u8 \<Rightarrow> Ch9329Backend \<Rightarrow> unit app_result \<times> Ch9329Backend" where
  "send_mouse_buttons new_buttons b =
     (if should_send_button_wheel_relative b then send_mouse_relative new_buttons 0 0 0 b
      else send_mouse_absolute new_buttons (last_abs_x b) (last_abs_y b) 0 b)"

definition send_mouse :: "MouseEvent \<Rightarrow> Ch9329Backend \<Rightarrow> unit app_result \<times> Ch9329Backend" where
  "send_mouse event b =
     (let buttons = mouse_buttons b in
      case ms_event_type event of
        MouseMove \<Rightarrow>
          send_mouse_relative buttons (clamp_i8 (ms_x event)) (clamp_i8 (ms_y event)) 0
            (b\<lparr>relative_mouse_active := True\<rparr>)
      | MouseMoveAbs \<Rightarrow>
          (let x = scale_abs (ms_x event); y = scale_abs (ms_y event)
           in send_mouse_absolute (absolute_move_buttons b buttons) x y 0
                (b\<lparr>relative_mouse_active := False, last_abs_x := x, last_abs_y := y\<rparr>))
      | MouseDown \<Rightarrow>
          (case ms_button event of
             Some button \<Rightarrow>
               (let new_buttons = buttons OR to_hid_bit button
                in send_mouse_buttons new_buttons (b\<lparr>mouse_buttons := new_buttons\<rparr>))
           | None \<Rightarrow> (Inr (), b))
      | MouseUp \<Rightarrow>
          (case ms_button event of
             Some button \<Rightarrow>
               (let new_buttons = buttons AND NOT (to_hid_bit button)
                in send_mouse_buttons new_buttons (b\<lparr>mouse_buttons := new_buttons\<rparr>))
           | None \<Rightarrow> (Inr (), b))
      | MouseScroll \<Rightarrow>
          if should_send_button_wheel_relative b then send_mouse_relative buttons 0 0 (ms_scroll event) b
          else send_mouse_absolute buttons (last_abs_x b) (last_abs_y b) (ms_scroll event) b)"

text \<open>The trait's default: consumer keys are not supported by this backend.\<close>

definition send_consumer :: "ConsumerEvent \<Rightarrow> Ch9329Backend \<Rightarrow> unit app_result \<times> Ch9329Backend" where
  "send_consumer event b = (Inl (BadRequest ''Consumer control not supported by this backend''), b)"

definition seq :: "unit app_result \<times> Ch9329Backend \<Rightarrow> (Ch9329Backend \<Rightarrow> unit app_result \<times> Ch9329Backend)
    \<Rightarrow> unit app_result \<times> Ch9329Backend" where
  "seq m f = (case m of (Inl e, b) \<Rightarrow> (Inl e, b) | (Inr _, b) \<Rightarrow> f b)"

definition reset :: "Ch9329Backend \<Rightarrow> unit app_result \<times> Ch9329Backend" where
  "reset b =
     (let state = clear_report (keyboard_state b)
      in seq (send_keyboard_report state (b\<lparr>keyboard_state := state\<rparr>)) (\<lambda>b.
         (let b = b\<lparr>mouse_buttons := 0, last_abs_x := 0, last_abs_y := 0, relative_mouse_active := False\<rparr>
          in seq (send_mouse_relative 0 0 0 0 b) (\<lambda>b.
             seq (send_mouse_absolute 0 0 0 0 b) (\<lambda>b.
             (Inr (), snd (release_media_keys b)))))))"

record LedState =
  lst_num_lock :: bool
  lst_caps_lock :: bool
  lst_scroll_lock :: bool
  lst_compose :: bool
  lst_kana :: bool

record HidBackendRuntimeSnapshot =
  snap_initialized :: bool
  snap_online :: bool
  supports_absolute_mouse :: bool
  keyboard_leds_enabled :: bool
  led_state :: LedState
  snap_resolution :: "(u32 \<times> u32) option"
  snap_device :: "string option"
  snap_error :: "string option"
  snap_error_code :: "string option"

text \<open>The port path and whether the port exists now are what the operating system says.\<close>

definition runtime_snapshot :: "string \<Rightarrow> bool \<Rightarrow> Ch9329Backend \<Rightarrow> HidBackendRuntimeSnapshot" where
  "runtime_snapshot port_path port_still_present b =
     (let init = initialized (runtime b);
          on = (init \<and> online (runtime b));
          err = last_error (runtime b);
          (on, err) =
            (if init \<and> \<not> port_still_present
             then (False, Some (''Serial port '' @ port_path @ '' not found'', ''port_not_found''))
             else (on, err))
      in \<lparr>snap_initialized = init, snap_online = on, supports_absolute_mouse = True,
          keyboard_leds_enabled = True,
          led_state =
            \<lparr>lst_num_lock = num_lock (led_status b), lst_caps_lock = caps_lock (led_status b),
             lst_scroll_lock = scroll_lock (led_status b), lst_compose = False, lst_kana = False\<rparr>,
          snap_resolution = Some (screen_resolution b), snap_device = Some port_path,
          snap_error = map_option fst err, snap_error_code = map_option snd err\<rparr>)"

definition set_screen_resolution :: "u32 \<Rightarrow> u32 \<Rightarrow> Ch9329Backend \<Rightarrow> Ch9329Backend" where
  "set_screen_resolution width height b =
     b\<lparr>screen_resolution := (width, height), runtime := notify (runtime b)\<rparr>"

section \<open>The worker thread\<close>

text \<open>
  \<open>recv_timeout\<close> on the channel, the outcome of opening the port, and the polls made
  while waiting for the next attempt are inputs; a list of polls ends at the deadline.
\<close>

datatype recv = RecvOk WorkerCommand | RecvTimeout | RecvDisconnected

type_synonym open_attempt = "(AppError + serial_port) \<times> recv list"

datatype worker_result = Running serial_port | Stopped | Retrying | Unwound

fun reject_command_while_reconnecting :: "WorkerCommand \<Rightarrow> Ch9329Backend \<Rightarrow> Ch9329Backend" where
  "reject_command_while_reconnecting (ApplyDescriptor _ tx) b =
     b\<lparr>replies := replies b @ [(tx, Inl (backend_error ''CH9329 is reconnecting'' ''reconnecting''))]\<rparr>"
| "reject_command_while_reconnecting (ReadDescriptor tx) b =
     b\<lparr>replies := replies b @ [(tx, Inl (backend_error ''CH9329 is reconnecting'' ''reconnecting''))]\<rparr>"
| "reject_command_while_reconnecting _ b = b"

fun wait_reconnect_delay :: "recv list \<Rightarrow> Ch9329Backend \<Rightarrow> bool \<times> Ch9329Backend" where
  "wait_reconnect_delay [] b = (True, b)"
| "wait_reconnect_delay (RecvOk Shutdown # polls) b = (False, b)"
| "wait_reconnect_delay (RecvDisconnected # polls) b = (False, b)"
| "wait_reconnect_delay (RecvOk command # polls) b =
     wait_reconnect_delay polls (reject_command_while_reconnecting command b)"
| "wait_reconnect_delay (RecvTimeout # polls) b = wait_reconnect_delay polls b"

definition open_ready_port :: "u8 \<Rightarrow> AppError + serial_port \<Rightarrow> port_fail + serial_port \<times> ChipInfo" where
  "open_ready_port addr opened =
     (case opened of
        Inl e \<Rightarrow> Inl (Fail e)
      | Inr port \<Rightarrow>
          (case query_chip_info_on_port addr port of
             (Inl f, _) \<Rightarrow> Inl f
           | (Inr info, port') \<Rightarrow> Inr (port', info)))"

definition led_of :: "ChipInfo \<Rightarrow> LedStatus" where
  "led_of info =
     \<lparr>num_lock = ci_num_lock info, caps_lock = ci_caps_lock info, scroll_lock = ci_scroll_lock info\<rparr>"

definition update_chip_info_cache :: "ChipInfo \<Rightarrow> Ch9329Backend \<Rightarrow> bool \<times> Ch9329Backend" where
  "update_chip_info_cache info b =
     (let next_led_status = led_of info;
          changed = (led_status b \<noteq> next_led_status)
      in (changed, b\<lparr>chip_info := Some info, led_status := next_led_status\<rparr>))"

text \<open>The common tail of a successful query: cache, notify on a change, go online.\<close>

definition chip_seen :: "ChipInfo \<Rightarrow> Ch9329Backend \<Rightarrow> Ch9329Backend" where
  "chip_seen info b =
     (let (changed, b) = update_chip_info_cache info b;
          b = (if changed then b\<lparr>runtime := notify (runtime b)\<rparr> else b)
      in b\<lparr>runtime := set_online (runtime b)\<rparr>)"

definition note_error :: "AppError \<Rightarrow> Ch9329Backend \<Rightarrow> Ch9329Backend" where
  "note_error err b = b\<lparr>runtime := record_runtime_error err (runtime b)\<rparr>"

fun reconnect_loop :: "open_attempt list \<Rightarrow> Ch9329Backend \<Rightarrow> worker_result \<times> Ch9329Backend" where
  "reconnect_loop [] b = (Retrying, b)"
| "reconnect_loop ((opened, polls) # attempts) b =
     (case open_ready_port (address b) opened of
        Inr (port, info) \<Rightarrow> (Running port, chip_seen info b)
      | Inl (Fail err) \<Rightarrow>
          (case wait_reconnect_delay polls (note_error err b) of
             (False, b') \<Rightarrow> (Stopped, b')
           | (True, b') \<Rightarrow> reconnect_loop attempts b')
      | Inl Panic \<Rightarrow> (Unwound, b))"

definition worker_reconnect_loop :: "open_attempt list \<Rightarrow> Ch9329Backend \<Rightarrow> worker_result \<times> Ch9329Backend" where
  "worker_reconnect_loop attempts b =
     reconnect_loop attempts (b\<lparr>runtime := set_offline (runtime b)\<rparr>)"

definition recover_worker_port ::
  "open_attempt list \<Rightarrow> serial_port \<Rightarrow> Ch9329Backend \<Rightarrow> worker_result \<times> Ch9329Backend" where
  "recover_worker_port attempts port b =
     (case fst (try_best_effort_reset (address b) port) of
        Inl Panic \<Rightarrow> (Unwound, b)
      | _ \<Rightarrow> worker_reconnect_loop attempts b)"

definition finish_oneshot_command ::
  "Ch9329DescriptorState app_result \<Rightarrow> nat \<Rightarrow> Ch9329Backend \<Rightarrow> bool \<times> Ch9329Backend" where
  "finish_oneshot_command result tx b =
     (let b = (case result of Inl err \<Rightarrow> note_error err b | Inr _ \<Rightarrow> b);
          b = b\<lparr>replies := replies b @ [(tx, result)]\<rparr>
      in case result of
           Inr _ \<Rightarrow> (True, b\<lparr>runtime := set_online (runtime b)\<rparr>)
         | Inl _ \<Rightarrow> (False, b))"

definition clear_local_state :: "Ch9329Backend \<Rightarrow> Ch9329Backend" where
  "clear_local_state b =
     b\<lparr>keyboard_state := clear_report (keyboard_state b), mouse_buttons := 0,
       last_abs_x := 0, last_abs_y := 0, relative_mouse_active := False\<rparr>"

text \<open>A descriptor command: answer the caller, then recover if the port may be broken.\<close>

definition descriptor_command ::
  "Ch9329DescriptorState port_m \<Rightarrow> nat \<Rightarrow> open_attempt list \<Rightarrow> serial_port \<Rightarrow> Ch9329Backend
     \<Rightarrow> worker_result \<times> Ch9329Backend" where
  "descriptor_command m tx attempts port b =
     (case m port of
        (Inl Panic, _) \<Rightarrow> (Unwound, b)
      | (Inl (Fail e), port') \<Rightarrow>
          (let (_, b') = finish_oneshot_command (Inl e) tx b
           in if should_recover_descriptor_error e then recover_worker_port attempts port' b'
              else (Running port', b'))
      | (Inr st, port') \<Rightarrow> (Running port', snd (finish_oneshot_command (Inr st) tx b)))"

definition simple_command ::
  "unit port_m \<Rightarrow> open_attempt list \<Rightarrow> serial_port \<Rightarrow> Ch9329Backend \<Rightarrow> worker_result \<times> Ch9329Backend" where
  "simple_command m attempts port b =
     (case m port of
        (Inl Panic, _) \<Rightarrow> (Unwound, b)
      | (Inl (Fail e), port') \<Rightarrow> recover_worker_port attempts port' (note_error e b)
      | (Inr _, port') \<Rightarrow> (Running port', b\<lparr>runtime := set_online (runtime b)\<rparr>))"

fun worker_step ::
  "recv \<Rightarrow> open_attempt list \<Rightarrow> serial_port \<Rightarrow> Ch9329Backend \<Rightarrow> worker_result \<times> Ch9329Backend" where
  "worker_step (RecvOk (Packet cmd data)) attempts port b =
     simple_command (pm_bind (xfer_packet (address b) cmd data) (\<lambda>_. pm_return ())) attempts port b"
| "worker_step (RecvOk (ApplyDescriptor d tx)) attempts port b =
     descriptor_command (apply_device_descriptor_on_port (address b) d) tx attempts port b"
| "worker_step (RecvOk (ReadDescriptor tx)) attempts port b =
     descriptor_command (read_device_descriptor_on_port (address b)) tx attempts port b"
| "worker_step (RecvOk ResetState) attempts port b =
     simple_command (release_state_on_port (address b)) attempts port (clear_local_state b)"
| "worker_step (RecvOk Shutdown) attempts port b = (Stopped, b)"
| "worker_step RecvTimeout attempts port b =
     (case query_chip_info_on_port (address b) port of
        (Inr info, port') \<Rightarrow> (Running port', chip_seen info b)
      | (Inl (Fail err), port') \<Rightarrow> recover_worker_port attempts port' (note_error err b)
      | (Inl Panic, _) \<Rightarrow> (Unwound, b))"
| "worker_step RecvDisconnected attempts port b = (Stopped, b)"

text \<open>After the loop.\<close>

definition worker_exit :: "Ch9329Backend \<Rightarrow> Ch9329Backend" where
  "worker_exit b =
     b\<lparr>worker_running := False, runtime := set_initialized False (set_offline (runtime b))\<rparr>"

text \<open>
  The first part of \<open>worker_loop\<close>: open the port, telling the caller of \<open>init\<close> about
  the first attempt only.
\<close>

fun worker_open :: "open_attempt list \<Rightarrow> Ch9329Backend
    \<Rightarrow> (AppError + ChipInfo) option \<times> worker_result \<times> Ch9329Backend" where
  "worker_open [] b = (None, Retrying, b)"
| "worker_open ((opened, polls) # attempts) b =
     (case open_ready_port (address b) opened of
        Inr (port, info) \<Rightarrow> (Some (Inr info), Running port, chip_seen info b)
      | Inl (Fail err) \<Rightarrow>
          (Some (Inl err),
           (case wait_reconnect_delay polls (note_error err b) of
              (False, b') \<Rightarrow> (Stopped, worker_exit b')
            | (True, b') \<Rightarrow> (let (_, res) = worker_open attempts b' in res)))
      | Inl Panic \<Rightarrow> (None, Unwound, b))"

definition worker_begin :: "open_attempt list \<Rightarrow> Ch9329Backend
    \<Rightarrow> (AppError + ChipInfo) option \<times> worker_result \<times> Ch9329Backend" where
  "worker_begin attempts b =
     worker_open attempts
       (b\<lparr>worker_running := True, runtime := set_initialized True (runtime b)\<rparr>)"

text \<open>
  \<open>init\<close> after the worker was spawned: \<open>msg\<close> is what arrived within \<open>INIT_WAIT_MS\<close>.  On
  a timeout the worker is told to stop and joined; it has left its loop then.
\<close>

definition init_finish :: "string \<Rightarrow> nat \<Rightarrow> (AppError + ChipInfo) option \<Rightarrow> Ch9329Backend
    \<Rightarrow> unit app_result \<times> Ch9329Backend" where
  "init_finish port_path baud_rate msg b =
     (case msg of
        Some (Inr info) \<Rightarrow>
          (Inr (), b\<lparr>worker_tx := True, runtime := set_online (runtime b)\<rparr>)
      | Some (Inl err) \<Rightarrow>
          (Inr (), (record_error
             (''CH9329 not responding on '' @ port_path @ '' @ '' @ dec_of_nat baud_rate @ '' baud: ''
                @ AppError_fmt err) ''init_failed'' b)\<lparr>worker_tx := True\<rparr>)
      | None \<Rightarrow>
          (Inl (Internal ''Timed out waiting for CH9329 initialization''),
           record_error ''Timed out waiting for CH9329 worker init'' ''init_timeout'' (worker_exit b)))"

text \<open>
  \<open>shutdown\<close>: ask the worker to release everything and to stop, drop the sender, join
  the worker, then clear the flags.  \<open>joined\<close> is the state the worker leaves behind.
\<close>

definition shutdown_request :: "Ch9329Backend \<Rightarrow> Ch9329Backend" where
  "shutdown_request b =
     (let b = snd (enqueue_command ResetState b);
          b = (if worker_tx b \<and> worker_running b
               then b\<lparr>worker_queue := worker_queue b @ [Shutdown]\<rparr> else b)
      in b\<lparr>worker_tx := False\<rparr>)"

definition shutdown_finish :: "Ch9329Backend \<Rightarrow> Ch9329Backend" where
  "shutdown_finish joined =
     joined\<lparr>runtime := clear_error (set_initialized False (set_offline (runtime joined)))\<rparr>"

section \<open>Interleavings\<close>

text \<open>
  A state is the backend with the state of its worker thread.  Calls of the trait
  happen at any time; the worker takes the oldest command, or sees a timeout or a
  dropped sender when there is none.  The commands that the polls of a reconnect take
  leave the queue by \<open>step_drain\<close>.
\<close>

type_synonym ch_state = "Ch9329Backend \<times> worker_result"

definition after_step :: "worker_result \<times> Ch9329Backend \<Rightarrow> ch_state" where
  "after_step r = (case r of (Stopped, b) \<Rightarrow> (worker_exit b, Stopped) | (w, b) \<Rightarrow> (b, w))"

inductive ch_step :: "ch_state \<Rightarrow> ch_state \<Rightarrow> bool" where
  step_keyboard: "ch_step (b, w) (snd (send_keyboard e b), w)"
| step_mouse: "ch_step (b, w) (snd (send_mouse m b), w)"
| step_media: "ch_step (b, w) (snd (send_media_key data b), w)"
| step_reset: "ch_step (b, w) (snd (reset b), w)"
| step_resolution: "ch_step (b, w) (set_screen_resolution x y b, w)"
| step_apply: "ch_step (b, w) (snd (enqueue_command (ApplyDescriptor d tx) b), w)"
| step_read: "ch_step (b, w) (snd (enqueue_command (ReadDescriptor tx) b), w)"
| step_init: "worker_begin attempts (b\<lparr>worker_queue := []\<rparr>) = (Some msg, w', b') \<Longrightarrow>
    ch_step (b, Stopped) (snd (init_finish path baud (Some msg) b'), w')"
| step_init_timeout:
    "ch_step (b, Stopped) (snd (init_finish path baud None (snd (snd (worker_begin [] b)))), Stopped)"
| step_retry: "ch_step (b, Retrying) (after_step (reconnect_loop attempts b))"
| step_recv: "worker_queue b = c # q \<Longrightarrow>
    ch_step (b, Running port) (after_step (worker_step (RecvOk c) attempts port (b\<lparr>worker_queue := q\<rparr>)))"
| step_timeout: "worker_queue b = [] \<Longrightarrow>
    ch_step (b, Running port) (after_step (worker_step RecvTimeout attempts port b))"
| step_disconnect: "worker_queue b = [] \<Longrightarrow> \<not> worker_tx b \<Longrightarrow>
    ch_step (b, Running port) (after_step (worker_step RecvDisconnected attempts port b))"
| step_drain: "worker_queue b = c # q \<Longrightarrow> ch_step (b, w) (b\<lparr>worker_queue := q\<rparr>, w)"
| step_shutdown: "ch_step (b, w) (shutdown_request b, w)"
| step_shutdown_done: "ch_step (b, Stopped) (shutdown_finish b, Stopped)"

inductive ch_reachable :: "ch_state \<Rightarrow> bool" where
  reach_start: "ch_reachable (with_options hybrid, Stopped)"
| reach_step: "ch_reachable s \<Longrightarrow> ch_step s t \<Longrightarrow> ch_reachable t"

section \<open>The invariant\<close>

definition runtime_ok :: "Ch9329RuntimeState \<Rightarrow> bool" where
  "runtime_ok r \<longleftrightarrow> \<not> (online r \<and> last_error r \<noteq> None)"

definition queue_ok :: "WorkerCommand list \<Rightarrow> bool" where
  "queue_ok q \<longleftrightarrow> (\<forall>c d. Packet c d \<in> set q \<longrightarrow> length d \<le> 64)"

definition leds_ok :: "Ch9329Backend \<Rightarrow> bool" where
  "leds_ok b \<longleftrightarrow> (\<forall>i. chip_info b = Some i \<longrightarrow> led_status b = led_of i)"

definition backend_inv :: "Ch9329Backend \<Rightarrow> bool" where
  "backend_inv b \<longleftrightarrow> report_wf (keyboard_state b) \<and> packed (keys (keyboard_state b)) \<and>
     runtime_ok (runtime b) \<and> queue_ok (worker_queue b) \<and> leds_ok b"

lemma runtime_ok_ops [simp, intro]:
  "runtime_ok RuntimeState_new" "runtime_ok (set_online r)" "runtime_ok (set_error e c r)"
  "runtime_ok (set_offline r)"
  "runtime_ok r \<Longrightarrow> runtime_ok (notify r)" "runtime_ok r \<Longrightarrow> runtime_ok (clear_error r)"
  "runtime_ok r \<Longrightarrow> runtime_ok (set_initialized v r)"
  by (auto simp: runtime_ok_def runtime_defs Let_def)

lemma runtime_ok_record [simp]: "runtime_ok (record_runtime_error e r)"
  by (cases e) auto

lemma queue_ok_simps [simp]:
  "queue_ok []" "queue_ok (q @ [c]) \<longleftrightarrow> queue_ok q \<and> (\<forall>x d. c = Packet x d \<longrightarrow> length d \<le> 64)"
  "queue_ok (c # q) \<longleftrightarrow> queue_ok q \<and> (\<forall>x d. c = Packet x d \<longrightarrow> length d \<le> 64)"
  by (auto simp: queue_ok_def)

lemma enqueue_inv:
  "backend_inv b \<Longrightarrow> (\<And>x d. c = Packet x d \<Longrightarrow> length d \<le> 64) \<Longrightarrow> backend_inv (snd (enqueue_command c b))"
  by (auto simp: enqueue_command_def record_error_def backend_inv_def leds_ok_def)

lemma send_packet_inv: "backend_inv b \<Longrightarrow> length d \<le> 64 \<Longrightarrow> backend_inv (snd (send_packet c d b))"
  by (auto simp: send_packet_def intro: enqueue_inv)

lemma send_report_inv:
  "backend_inv b \<Longrightarrow> report_wf r \<Longrightarrow> backend_inv (snd (send_keyboard_report r b))"
  unfolding send_keyboard_report_def by (rule send_packet_inv) (auto simp: report_to_bytes_def report_wf_def)

lemma mouse_packet_inv:
  "backend_inv b \<Longrightarrow> backend_inv (snd (send_mouse_relative u dx dy v b))"
  "backend_inv b \<Longrightarrow> backend_inv (snd (send_mouse_absolute u x y v b))"
  by (auto simp: send_mouse_relative_def send_mouse_absolute_def intro: send_packet_inv)

lemma inv_with_keyboard:
  "backend_inv b \<Longrightarrow> report_wf r \<Longrightarrow> packed (keys r) \<Longrightarrow> backend_inv (b\<lparr>keyboard_state := r\<rparr>)"
  by (simp add: backend_inv_def leds_ok_def)

lemma inv_with_mouse [simp]:
  "backend_inv (b\<lparr>mouse_buttons := u\<rparr>) = backend_inv b" "backend_inv (b\<lparr>last_abs_x := x\<rparr>) = backend_inv b"
  "backend_inv (b\<lparr>last_abs_y := x\<rparr>) = backend_inv b"
  "backend_inv (b\<lparr>relative_mouse_active := v\<rparr>) = backend_inv b"
  "backend_inv (b\<lparr>replies := rs\<rparr>) = backend_inv b" "backend_inv (b\<lparr>worker_tx := v\<rparr>) = backend_inv b"
  "backend_inv (b\<lparr>worker_running := v\<rparr>) = backend_inv b"
  "backend_inv (b\<lparr>screen_resolution := z\<rparr>) = backend_inv b"
  by (simp_all add: backend_inv_def leds_ok_def)

lemma inv_with_runtime: "backend_inv b \<Longrightarrow> runtime_ok r \<Longrightarrow> backend_inv (b\<lparr>runtime := r\<rparr>)"
  by (simp add: backend_inv_def leds_ok_def)

lemma inv_runtime_ok: "backend_inv b \<Longrightarrow> runtime_ok (runtime b)"
  by (simp add: backend_inv_def)

lemma send_keyboard_inv:
  assumes "backend_inv b"
  shows "backend_inv (snd (send_keyboard e b))"
proof -
  have k: "report_wf (keyboard_state b)" "packed (keys (keyboard_state b))"
    using assms by (simp_all add: backend_inv_def)
  then have m: "report_wf ((keyboard_state b)\<lparr>modifiers := m\<rparr>)" "packed (keys ((keyboard_state b)\<lparr>modifiers := m\<rparr>))" for m
    by (simp_all add: report_wf_def)
  show ?thesis
    unfolding send_keyboard_def Let_def
    using assms k m
    by (auto intro!: send_report_inv inv_with_keyboard add_key_wf remove_key_wf packed_add_key
        packed_remove_key split: option.splits KeyEventType.splits)
qed

lemma send_mouse_inv: "backend_inv b \<Longrightarrow> backend_inv (snd (send_mouse m b))"
  unfolding send_mouse_def send_mouse_buttons_def Let_def
  by (auto intro!: mouse_packet_inv split: MouseEventType.splits option.splits)

lemma send_media_inv: "backend_inv b \<Longrightarrow> backend_inv (snd (send_media_key d b))"
  by (auto simp: send_media_key_def intro!: send_packet_inv)

lemma seq_inv:
  "backend_inv (snd m) \<Longrightarrow> (\<And>b. backend_inv b \<Longrightarrow> backend_inv (snd (f b))) \<Longrightarrow> backend_inv (snd (seq m f))"
  by (auto simp: seq_def split: prod.splits sum.splits)

lemma reset_inv: "backend_inv b \<Longrightarrow> backend_inv (snd (reset b))"
  unfolding reset_def Let_def
  by (intro seq_inv send_report_inv inv_with_keyboard)
    (auto intro!: seq_inv mouse_packet_inv send_media_inv simp: clear_report_def release_media_keys_def
      report_wf_def)

lemma note_error_inv: "backend_inv b \<Longrightarrow> backend_inv (note_error e b)"
  by (simp add: note_error_def inv_with_runtime)

lemma chip_seen_inv: "backend_inv b \<Longrightarrow> backend_inv (chip_seen i b)"
  by (auto simp: chip_seen_def update_chip_info_cache_def backend_inv_def leds_ok_def Let_def)

lemma reject_inv: "backend_inv b \<Longrightarrow> backend_inv (reject_command_while_reconnecting c b)"
  by (cases c) simp_all

lemma wait_inv: "backend_inv b \<Longrightarrow> backend_inv (snd (wait_reconnect_delay polls b))"
  by (induction polls b rule: wait_reconnect_delay.induct) (auto simp: reject_inv)

lemma clear_local_inv: "backend_inv b \<Longrightarrow> backend_inv (clear_local_state b)"
  by (simp add: clear_local_state_def backend_inv_def leds_ok_def clear_report_def report_wf_def)

lemma worker_exit_inv: "backend_inv b \<Longrightarrow> backend_inv (worker_exit b)"
  by (simp add: worker_exit_def inv_with_runtime)

lemma finish_inv: "backend_inv b \<Longrightarrow> backend_inv (snd (finish_oneshot_command r tx b))"
  by (auto simp: finish_oneshot_command_def Let_def note_error_inv inv_with_runtime split: sum.splits)

text \<open>\<open>step_ok\<close>: the invariant holds afterwards and the worker has not unwound.\<close>

definition step_ok :: "worker_result \<times> Ch9329Backend \<Rightarrow> bool" where
  "step_ok r \<longleftrightarrow> backend_inv (snd r) \<and> fst r \<noteq> Unwound"

lemma open_ready_no_panic: "open_ready_port a opened \<noteq> Inl Panic"
  using port_safe_no_panic [OF port_safe_ops(1)]
  by (auto simp: open_ready_port_def split: sum.splits prod.splits)

lemma reconnect_loop_ok: "backend_inv b \<Longrightarrow> step_ok (reconnect_loop attempts b)"
proof (induction attempts b rule: reconnect_loop.induct)
  case (1 b)
  then show ?case by (simp add: step_ok_def)
next
  case (2 opened polls attempts b)
  show ?case
  proof (cases "open_ready_port (address b) opened")
    case (Inr pi)
    then show ?thesis using "2.prems" by (cases pi) (simp add: step_ok_def chip_seen_inv)
  next
    case (Inl f)
    then obtain err where err: "f = Fail err"
      using open_ready_no_panic by (cases f) auto
    let ?w = "wait_reconnect_delay polls (note_error err b)"
    have inv: "backend_inv (snd ?w)" by (simp add: wait_inv note_error_inv "2.prems")
    obtain go b' where w: "?w = (go, b')" by force
    show ?thesis
      using Inl err w inv "2.IH" [OF Inl err w [symmetric]] by (cases go) (auto simp: step_ok_def)
  qed
qed

lemma recover_ok: "backend_inv b \<Longrightarrow> step_ok (recover_worker_port attempts port b)"
proof -
  assume b: "backend_inv b"
  have "fst (try_best_effort_reset (address b) port) \<noteq> Inl Panic"
    using port_safe_reset [of "address b"] by (auto simp: port_safe_def)
  moreover have "step_ok (worker_reconnect_loop attempts b)"
    unfolding worker_reconnect_loop_def by (intro reconnect_loop_ok inv_with_runtime b) simp
  ultimately show ?thesis
    by (auto simp: recover_worker_port_def split: sum.splits port_fail.splits)
qed

lemma simple_command_ok:
  "backend_inv b \<Longrightarrow> port_safe a m \<Longrightarrow> step_ok (simple_command m attempts port b)"
  using port_safe_no_panic [of a m port]
  by (auto simp: simple_command_def recover_ok note_error_inv inv_with_runtime
      split: prod.splits sum.splits port_fail.splits)
    (auto simp: step_ok_def inv_with_runtime)

lemma descriptor_command_ok:
  "backend_inv b \<Longrightarrow> port_safe a m \<Longrightarrow> step_ok (descriptor_command m tx attempts port b)"
  using finish_inv [of b _ tx]
  by (auto simp: descriptor_command_def Let_def split: prod.splits sum.splits port_fail.splits
      intro!: recover_ok dest: port_safe_no_panic)
    (metis finish_inv snd_conv | auto simp: step_ok_def)+

lemma worker_step_ok:
  assumes b: "backend_inv b" and c: "\<And>x d. r = RecvOk (Packet x d) \<Longrightarrow> length d \<le> 64"
  shows "step_ok (worker_step r attempts port b)"
proof (cases r)
  case (RecvOk cmd)
  show ?thesis
  proof (cases cmd)
    case (Packet x d)
    have "port_safe (address b) (pm_bind (xfer_packet (address b) x d) (\<lambda>_. pm_return ()))"
      using c RecvOk Packet by (auto intro!: port_safe_intros)
    then show ?thesis using RecvOk Packet by (simp add: simple_command_ok b)
  next
    case (ApplyDescriptor d tx)
    then show ?thesis
      using RecvOk descriptor_command_ok [OF b port_safe_apply] by simp
  next
    case (ReadDescriptor tx)
    then show ?thesis
      using RecvOk descriptor_command_ok [OF b port_safe_read_descriptor] by simp
  next
    case ResetState
    then show ?thesis
      using RecvOk simple_command_ok [OF clear_local_inv [OF b] port_safe_release] by simp
  next
    case Shutdown
    then show ?thesis using RecvOk b by (simp add: step_ok_def)
  qed
next
  case RecvTimeout
  then show ?thesis
    using b port_safe_no_panic [OF port_safe_ops(1) [of "address b"], of port]
    by (auto simp: recover_ok note_error_inv split: prod.splits sum.splits port_fail.splits)
      (auto simp: step_ok_def chip_seen_inv)
next
  case RecvDisconnected
  then show ?thesis using b by (simp add: step_ok_def)
qed

lemma worker_open_ok:
  "backend_inv b \<Longrightarrow> step_ok (snd (worker_open attempts b))"
proof (induction attempts b rule: worker_open.induct)
  case (1 b)
  then show ?case by (simp add: step_ok_def)
next
  case (2 opened polls attempts b)
  show ?case
  proof (cases "open_ready_port (address b) opened")
    case (Inr pi)
    then show ?thesis using "2.prems" by (cases pi) (simp add: step_ok_def chip_seen_inv)
  next
    case (Inl f)
    then obtain err where err: "f = Fail err"
      using open_ready_no_panic by (cases f) auto
    let ?w = "wait_reconnect_delay polls (note_error err b)"
    have inv: "backend_inv (snd ?w)" by (simp add: wait_inv note_error_inv "2.prems")
    obtain go b' where w: "?w = (go, b')" by force
    show ?thesis
      using Inl err w inv "2.IH" [OF Inl err w [symmetric]]
      by (cases go) (auto simp: step_ok_def worker_exit_inv case_prod_beta)
  qed
qed

lemma worker_begin_ok: "backend_inv b \<Longrightarrow> step_ok (snd (worker_begin attempts b))"
  unfolding worker_begin_def
  by (intro worker_open_ok) (simp add: inv_with_runtime inv_runtime_ok)

lemma init_finish_inv: "backend_inv b \<Longrightarrow> backend_inv (snd (init_finish path baud msg b))"
  by (auto simp: init_finish_def record_error_def inv_with_runtime worker_exit_inv
      split: option.splits sum.splits)

lemma shutdown_inv:
  "backend_inv b \<Longrightarrow> backend_inv (shutdown_request b)" "backend_inv b \<Longrightarrow> backend_inv (shutdown_finish b)"
  by (auto simp: shutdown_request_def enqueue_command_def record_error_def Let_def backend_inv_def leds_ok_def)
    (auto simp: shutdown_finish_def backend_inv_def leds_ok_def)

lemma after_step_ok:
  "step_ok r \<Longrightarrow> backend_inv (fst (after_step r)) \<and> snd (after_step r) \<noteq> Unwound"
  by (auto simp: step_ok_def after_step_def worker_exit_inv split: prod.splits worker_result.splits)

definition ch_inv :: "ch_state \<Rightarrow> bool" where
  "ch_inv s \<longleftrightarrow> backend_inv (fst s) \<and> snd s \<noteq> Unwound"

lemma ch_step_inv: "ch_step s t \<Longrightarrow> ch_inv s \<Longrightarrow> ch_inv t"
proof (induction rule: ch_step.induct)
  case (step_init attempts b msg w' b' path baud)
  have "backend_inv (b\<lparr>worker_queue := []\<rparr>)"
    using step_init.prems by (simp add: ch_inv_def backend_inv_def leds_ok_def)
  then have "step_ok (w', b')"
    using worker_begin_ok [of "b\<lparr>worker_queue := []\<rparr>" attempts] step_init.hyps by simp
  then show ?case by (simp add: ch_inv_def step_ok_def init_finish_inv)
next
  case (step_init_timeout b path baud)
  then show ?case
    using worker_begin_ok [of b "[]"] by (simp add: ch_inv_def step_ok_def init_finish_inv)
next
  case (step_recv b c q port attempts)
  have "backend_inv (b\<lparr>worker_queue := q\<rparr>)" "\<And>x d. c = Packet x d \<Longrightarrow> length d \<le> 64"
    using step_recv by (auto simp: ch_inv_def backend_inv_def leds_ok_def)
  then show ?case
    using after_step_ok [OF worker_step_ok [of "b\<lparr>worker_queue := q\<rparr>" "RecvOk c"]] by (simp add: ch_inv_def)
next
  case (step_timeout b port attempts)
  then show ?case
    using after_step_ok [OF worker_step_ok [of b RecvTimeout attempts port]] by (simp add: ch_inv_def)
next
  case (step_disconnect b port attempts)
  then show ?case
    using after_step_ok [OF worker_step_ok [of b RecvDisconnected attempts port]] by (simp add: ch_inv_def)
next
  case (step_drain b c q w)
  then show ?case by (simp add: ch_inv_def backend_inv_def leds_ok_def)
next
  case (step_apply b w d tx)
  then show ?case by (auto simp: ch_inv_def intro: enqueue_inv)
next
  case (step_read b w tx)
  then show ?case by (auto simp: ch_inv_def intro: enqueue_inv)
qed (auto simp: ch_inv_def send_keyboard_inv send_mouse_inv send_media_inv reset_inv shutdown_inv
  set_screen_resolution_def inv_with_runtime inv_runtime_ok after_step_ok reconnect_loop_ok)

lemma ch_reachable_inv: "ch_reachable s \<Longrightarrow> ch_inv s"
proof (induction rule: ch_reachable.induct)
  case (reach_start hybrid)
  show ?case
    by (simp add: ch_inv_def backend_inv_def with_options_def leds_ok_def default_report_def report_wf_def)
next
  case (reach_step s t)
  then show ?case by (blast intro: ch_step_inv)
qed

section \<open>What is sent\<close>

definition alive :: "Ch9329Backend \<Rightarrow> bool" where
  "alive b \<longleftrightarrow> worker_tx b \<and> worker_running b"

lemma send_packet_alive:
  "alive b \<Longrightarrow> send_packet c d b = (Inr (), b\<lparr>worker_queue := worker_queue b @ [Packet c d]\<rparr>)"
  by (simp add: send_packet_def enqueue_command_def alive_def)

lemma enqueue_frame [simp]:
  "keyboard_state (snd (enqueue_command c b)) = keyboard_state b"
  "mouse_buttons (snd (enqueue_command c b)) = mouse_buttons b"
  by (simp_all add: enqueue_command_def record_error_def)

lemma send_report_frame [simp]: "keyboard_state (snd (send_keyboard_report r b)) = keyboard_state b"
  by (simp add: send_keyboard_report_def send_packet_def)

text \<open>Every key event sends exactly the report the backend then holds.\<close>

lemma send_keyboard_sends:
  assumes "alive b"
  shows "fst (send_keyboard e b) = Inr ()"
    and "worker_queue (snd (send_keyboard e b)) = worker_queue b @
      [Packet cmd_SEND_KB_GENERAL_DATA (report_to_bytes (keyboard_state (snd (send_keyboard e b))))]"
proof -
  have "alive (b\<lparr>keyboard_state := r\<rparr>)" for r using assms by (simp add: alive_def)
  then show "fst (send_keyboard e b) = Inr ()"
    and "worker_queue (snd (send_keyboard e b)) = worker_queue b @
      [Packet cmd_SEND_KB_GENERAL_DATA (report_to_bytes (keyboard_state (snd (send_keyboard e b))))]"
    by (auto simp: send_keyboard_def send_keyboard_report_def send_packet_alive Let_def)
qed

lemma send_keyboard_address: "address (snd (send_keyboard e b)) = address b"
  by (simp add: send_keyboard_def send_keyboard_report_def send_packet_def enqueue_command_def record_error_def
      Let_def)

lemma send_keyboard_wf: "report_wf (keyboard_state b) \<Longrightarrow> report_wf (keyboard_state (snd (send_keyboard e b)))"
  by (auto simp: send_keyboard_def Let_def report_wf_def add_key_eq remove_key_def
      split: option.splits KeyEventType.splits)

text \<open>The keyboard state alone, as a function of the events.\<close>

definition key_ops :: "KeyboardEvent list \<Rightarrow> (bool \<times> u8) list" where
  "key_ops es = map (\<lambda>e. (kb_event_type e = KeyDown, to_hid_usage (kb_key e)))
     (filter (\<lambda>e. \<not> is_modifier (kb_key e)) es)"

definition run_keyboard :: "Ch9329Backend \<Rightarrow> KeyboardEvent list \<Rightarrow> Ch9329Backend" where
  "run_keyboard b es = foldl (\<lambda>b e. snd (send_keyboard e b)) b es"

lemma run_keyboard_simps [simp]:
  "run_keyboard b [] = b" "run_keyboard b (e # es) = run_keyboard (snd (send_keyboard e b)) es"
  by (simp_all add: run_keyboard_def)

lemma buffer_step_keys_cong:
  "keys r = keys r' \<Longrightarrow> keys (kr.buffer_step r e) = keys (kr.buffer_step r' e)"
  unfolding kr.buffer_step_def by (simp add: add_key_eq remove_key_def)

lemma buffer_run_keys_cong:
  "keys r = keys r' \<Longrightarrow> keys (kr.buffer_run r es) = keys (kr.buffer_run r' es)"
proof (induction es arbitrary: r r')
  case Nil
  then show ?case by (simp add: kr.buffer_run_def)
next
  case (Cons e es)
  show ?case
    using Cons.IH [OF buffer_step_keys_cong [OF Cons.prems, of e]] by (simp add: kr.buffer_run_def)
qed

lemma send_keyboard_keys:
  "keys (keyboard_state (snd (send_keyboard e b))) =
     (if is_modifier (kb_key e) then keys (keyboard_state b)
      else keys (kr.buffer_step (keyboard_state b) (kb_event_type e = KeyDown, to_hid_usage (kb_key e))))"
  unfolding kr.buffer_step_def
  by (auto simp: send_keyboard_def Let_def add_key_eq remove_key_def
      split: option.splits KeyEventType.splits)

text \<open>The backend drives its report exactly as the abstract key buffer prescribes.\<close>

lemma run_keyboard_refines:
  "keys (keyboard_state (run_keyboard b es)) = keys (kr.buffer_run (keyboard_state b) (key_ops es))"
proof (induction es arbitrary: b)
  case Nil
  then show ?case by (simp add: key_ops_def kr.buffer_run_def)
next
  case (Cons e es)
  let ?b = "snd (send_keyboard e b)"
  have "keys (keyboard_state (run_keyboard b (e # es))) = keys (kr.buffer_run (keyboard_state ?b) (key_ops es))"
    using Cons.IH [of ?b] by simp
  also have "\<dots> = keys (kr.buffer_run (keyboard_state b) (key_ops (e # es)))"
  proof (cases "is_modifier (kb_key e)")
    case True
    then have "keys (keyboard_state ?b) = keys (keyboard_state b)"
      by (simp add: send_keyboard_keys)
    from buffer_run_keys_cong [OF this, of "key_ops es"] show ?thesis
      using True by (simp add: key_ops_def)
  next
    case False
    then have "keys (keyboard_state ?b) =
        keys (kr.buffer_step (keyboard_state b) (kb_event_type e = KeyDown, to_hid_usage (kb_key e)))"
      by (simp add: send_keyboard_keys)
    from buffer_run_keys_cong [OF this, of "key_ops es"] show ?thesis
      using False by (simp add: key_ops_def kr.buffer_run_def)
  qed
  finally show ?case .
qed

lemma held_keys: "keys r = keys r' \<Longrightarrow> held r = held r'"
  by (simp add: held_def)

lemma key_ops_down: "(True, u) \<in> set (key_ops es) \<longleftrightarrow>
  (\<exists>e \<in> set es. \<not> is_modifier (kb_key e) \<and> kb_event_type e = KeyDown \<and> to_hid_usage (kb_key e) = u)"
  by (auto simp: key_ops_def)

lemma released_key_not_held:
  assumes "report_wf (keyboard_state b)" and "\<not> is_modifier k"
    and "\<forall>e \<in> set es. \<not> (kb_event_type e = KeyDown \<and> kb_key e = k)"
  shows "to_hid_usage k \<notin># held (keyboard_state (run_keyboard b (key_up k m # es)))"
proof -
  let ?ops = "key_ops es"
  have "(True, to_hid_usage k) \<notin> set ?ops"
    using assms(3) by (auto simp: key_ops_down to_hid_usage_inj)
  moreover have "\<forall>e \<in> set ?ops. snd e \<noteq> 0"
    by (auto simp: key_ops_def)
  ultimately have "to_hid_usage k \<notin>#
      held (kr.buffer_run (remove_key (keyboard_state b) (to_hid_usage k)) ?ops)"
    by (intro kr.released_absent assms(1))
  moreover have "keys (keyboard_state (run_keyboard b (key_up k m # es))) =
      keys (kr.buffer_run (remove_key (keyboard_state b) (to_hid_usage k)) ?ops)"
    using assms(2) run_keyboard_refines [of b "key_up k m # es"]
    by (simp add: key_ops_def key_up_def kr.buffer_run_def kr.buffer_step_def)
  ultimately show ?thesis by (metis held_keys)
qed

text \<open>Modifier keys own one bit each.\<close>

lemma send_modifier:
  "modifiers (keyboard_state (snd (send_keyboard \<lparr>kb_event_type = t, kb_key = Modifier m, kb_modifiers = ms\<rparr> b))) =
     (let v = the (modifier_bit (Modifier m)); old = modifiers (keyboard_state b)
      in if t = KeyDown then old OR v else old AND NOT v)"
  by (cases m; cases t) (simp_all add: send_keyboard_def Let_def)

section \<open>Mouse reports\<close>

lemma clamp_i32_range: "lo \<le> hi \<Longrightarrow> lo \<le> clamp_i32 lo hi x \<and> clamp_i32 lo hi x \<le> hi"
  by (auto simp: clamp_i32_def)

lemma sint_clamp_i8: "sint (clamp_i8 x) = clamp_i32 (- 127) 127 x"
proof -
  have "- 127 \<le> clamp_i32 (- 127) 127 x \<and> clamp_i32 (- 127) 127 x \<le> 127"
    by (rule clamp_i32_range) simp
  then show ?thesis
    by (simp add: clamp_i8_def signed_of_int signed_take_bit_int_eq_self_iff)
qed

lemma unat_scale_abs: "unat (scale_abs v) = nat (clamp_i32 0 32767 v) div 8"
proof -
  define c where "c = nat (clamp_i32 0 32767 v)"
  have c: "c \<le> 32767" "clamp_i32 0 32767 v = int c"
    using clamp_i32_range [of 0 32767 v] by (auto simp: c_def nat_le_iff)
  have "unat ((of_nat c :: u32) * 4096) = c * 4096"
    using c(1) by (simp add: unat_word_ariths unat_of_nat)
  then have q: "unat ((of_nat c :: u32) * 4096 div 32768) = c div 8"
    by (simp add: unat_div)
  have "unat (scale_abs v) = unat (ucast ((of_nat c :: u32) * 4096 div 32768) :: u16)"
    by (simp add: scale_abs_def CH9329_MOUSE_RESOLUTION_def c(2))
  also have "\<dots> = c div 8"
    using c(1) q by (simp add: unsigned_ucast_eq take_bit_nat_eq_self_iff)
  finally show ?thesis by (simp add: c_def)
qed

lemma scale_abs_bound: "unat (scale_abs v) < 4096"
  using clamp_i32_range [of 0 32767 v] by (simp add: unat_scale_abs nat_less_iff div_less_iff_less_mult)

text \<open>The octets of an absolute report carry the two coordinates.\<close>

lemma le_val_u16_octets: "le_val [ucast (x AND 0xFF), ucast (drop_bit 8 x)] = unat (x :: u16)"
proof -
  have "n AND 255 = take_bit 8 n" for n :: nat
    by (simp add: take_bit_eq_mask mask_eq_exp_minus_1)
  then have lo: "unat (ucast (x AND 0xFF) :: u8) = unat x mod 256"
    by (simp add: unsigned_ucast_eq unsigned_and_eq take_bit_eq_mod)
  have "unat x < 65536" using unsigned_less [of x] by simp
  then have hi: "unat (ucast (drop_bit 8 x) :: u8) = unat x div 256"
    by (simp add: unsigned_ucast_eq unsigned_drop_bit_eq drop_bit_eq_div take_bit_nat_eq_self_iff
        div_less_iff_less_mult unat_div)
  show ?thesis by (simp add: lo hi)
qed

lemma mouse_packets_alive:
  assumes "alive b"
  shows "send_mouse_relative u dx dy v b =
      (Inr (), b\<lparr>worker_queue := worker_queue b @ [Packet cmd_SEND_MS_REL_DATA [0x01, u, dx, dy, v]]\<rparr>)"
    and "send_mouse_absolute u x y v b =
      (Inr (), b\<lparr>worker_queue := worker_queue b @ [Packet cmd_SEND_MS_ABS_DATA
        [0x02, u, ucast (x AND 0xFF), ucast (drop_bit 8 x), ucast (y AND 0xFF), ucast (drop_bit 8 y), v]]\<rparr>)"
  using assms by (simp_all add: send_mouse_relative_def send_mouse_absolute_def send_packet_alive)

text \<open>In hybrid mode an absolute report never carries a button or the wheel.\<close>

lemma hybrid_absolute_no_buttons:
  assumes "hybrid_mouse b" and "Packet cmd_SEND_MS_ABS_DATA d \<in> set (worker_queue (snd (send_mouse m b)))"
    and "Packet cmd_SEND_MS_ABS_DATA d \<notin> set (worker_queue b)"
  shows "d ! 1 = 0 \<and> d ! 6 = 0"
  using assms
  by (auto simp: send_mouse_def send_mouse_buttons_def should_send_button_wheel_relative_def
      absolute_move_buttons_def send_mouse_relative_def send_mouse_absolute_def send_packet_def
      enqueue_command_def record_error_def cmd_consts Let_def
      split: MouseEventType.splits option.splits if_splits)

text \<open>After a reset nothing is held and the idle reports are on their way.\<close>

lemma reset_alive:
  assumes "alive b"
  shows "\<exists>b'. reset b = (Inr (), b') \<and> held (keyboard_state b') = {#} \<and>
    modifiers (keyboard_state b') = 0 \<and> mouse_buttons b' = 0 \<and>
    worker_queue b' = worker_queue b @
      [Packet cmd_SEND_KB_GENERAL_DATA (0 # reserved (keyboard_state b) # replicate 6 0),
       Packet cmd_SEND_MS_REL_DATA [0x01, 0, 0, 0, 0],
       Packet cmd_SEND_MS_ABS_DATA [0x02, 0, 0, 0, 0, 0, 0],
       Packet cmd_SEND_KB_MEDIA_DATA [0x02, 0, 0, 0]]"
proof -
  have a: "alive (b\<lparr>keyboard_state := r\<rparr>)" "alive (b\<lparr>keyboard_state := r, worker_queue := q\<rparr>)"
    "alive (b\<lparr>keyboard_state := r, worker_queue := q, mouse_buttons := u, last_abs_x := x, last_abs_y := y,
       relative_mouse_active := v\<rparr>)"
    for r q u x y v using assms by (simp_all add: alive_def)
  show ?thesis
    using a
    by (simp add: reset_def Let_def seq_def send_keyboard_report_def send_packet_alive
        mouse_packets_alive release_media_keys_def send_media_key_def alive_def clear_report_def
        held_def report_to_bytes_def)
qed

text \<open>A stopped worker is reported, and no operation of the trait hides it.\<close>

lemma send_keyboard_stopped:
  assumes "\<not> alive b"
  shows "\<exists>reason. fst (send_keyboard e b) = Inl (HidError ''ch9329'' reason ''worker_stopped'') \<and>
    last_error (runtime (snd (send_keyboard e b))) = Some (reason, ''worker_stopped'') \<and>
    \<not> online (runtime (snd (send_keyboard e b)))"
  using assms
  by (auto simp: send_keyboard_def send_keyboard_report_def send_packet_def enqueue_command_def
      record_error_def backend_error_def set_error_def notify_def alive_def Let_def
      split: option.splits KeyEventType.splits)

section \<open>Requests are answered\<close>

text \<open>The answers given so far are never taken back.\<close>

lemma reject_replies: "\<exists>rs. replies (reject_command_while_reconnecting c b) = replies b @ rs"
  by (cases "(c, b)" rule: reject_command_while_reconnecting.cases) auto

lemma wait_replies: "\<exists>rs. replies (snd (wait_reconnect_delay polls b)) = replies b @ rs"
proof (induction polls b rule: wait_reconnect_delay.induct)
qed (use reject_replies in \<open>force+\<close>)

lemma chip_seen_replies [simp]: "replies (chip_seen i b) = replies b"
  by (simp add: chip_seen_def update_chip_info_cache_def Let_def)

lemma reconnect_replies: "\<exists>rs. replies (snd (reconnect_loop attempts b)) = replies b @ rs"
proof (induction attempts b rule: reconnect_loop.induct)
  case (1 b)
  then show ?case by simp
next
  case (2 opened polls attempts b)
  show ?case
  proof (cases "open_ready_port (address b) opened")
    case (Inr pi)
    then show ?thesis by (cases pi) simp
  next
    case (Inl f)
    show ?thesis
    proof (cases f)
      case Panic
      then show ?thesis using Inl by simp
    next
      case (Fail err)
      obtain go b' where w: "wait_reconnect_delay polls (note_error err b) = (go, b')" by force
      obtain rs where "replies b' = replies b @ rs"
        using wait_replies [of polls "note_error err b"] w by (auto simp: note_error_def)
      then show ?thesis
        using Inl Fail w "2" [OF Inl Fail w [symmetric]] by (cases go) auto
    qed
  qed
qed

lemma recover_replies: "\<exists>rs. replies (snd (recover_worker_port attempts port b)) = replies b @ rs"
  using reconnect_replies [of attempts "b\<lparr>runtime := set_offline (runtime b)\<rparr>"]
  by (auto simp: recover_worker_port_def worker_reconnect_loop_def split: sum.splits port_fail.splits)

lemma descriptor_command_replies:
  assumes "\<And>p'. m port \<noteq> (Inl Panic, p')"
  shows "\<exists>r rs. replies (snd (descriptor_command m tx attempts port b)) = replies b @ (tx, r) # rs"
proof (cases "m port")
  case (Pair res port')
  show ?thesis
  proof (cases res)
    case (Inr st)
    then show ?thesis using Pair by (simp add: descriptor_command_def finish_oneshot_command_def Let_def)
  next
    case (Inl f)
    then obtain e where f: "f = Fail e" using Pair assms by (cases f) auto
    show ?thesis
      using Pair Inl f
        recover_replies [of attempts port' "(note_error e b)\<lparr>replies := replies b @ [(tx, Inl e)]\<rparr>"]
      by (auto simp: descriptor_command_def finish_oneshot_command_def note_error_def Let_def)
  qed
qed

section \<open>Properties\<close>




text \<open>C3: Typing refines the abstract key buffer: after any sequence of events the report holds the
  non-modifier keys the buffer prescribes, and with the worker running every event queues
  one keyboard packet, the one of the state after it.\<close>

theorem typing_refines_bag:
  assumes "report_wf (keyboard_state b)"
  shows "held (keyboard_state (run_keyboard b es)) = foldl (bag_step 6) (held (keyboard_state b)) (key_ops es) \<and>
    (alive b \<longrightarrow> fst (send_keyboard e b) = Inr () \<and>
       worker_queue (snd (send_keyboard e b)) = worker_queue b @
         [Packet cmd_SEND_KB_GENERAL_DATA (report_to_bytes (keyboard_state (snd (send_keyboard e b))))])"
proof -
  have "\<forall>e \<in> set (key_ops es). snd e \<noteq> 0" by (auto simp: key_ops_def)
  then show ?thesis
    using kr.run_refines [OF assms] held_keys [OF run_keyboard_refines [of b es]] send_keyboard_sends [of b e]
    by simp
qed

theorem typing_refines_bag_witness:
  "held (keyboard_state (run_keyboard (with_options False)
     [key_down (Letter KeyA) (from_hid_byte 2), key_down (Letter KeyB) (from_hid_byte 0)])) = {#4, 5#}"
  using typing_refines_bag [of "with_options False"
      "[key_down (Letter KeyA) (from_hid_byte 2), key_down (Letter KeyB) (from_hid_byte 0)]"]
  by (simp add: with_options_def key_ops_def key_down_def bag_step_def add_mset_commute)

text \<open>A key that was released is not in any later report until it is pressed again, whatever
  other keys are pressed and released in between.\<close>

theorem released_key_not_stuck:
  assumes "report_wf (keyboard_state b)" and "\<not> is_modifier k"
    and "\<forall>e \<in> set es. \<not> (kb_event_type e = KeyDown \<and> kb_key e = k)"
  shows "to_hid_usage k \<notin># held (keyboard_state (run_keyboard b (key_up k m # es)))"
  by (rule released_key_not_held [OF assms])

theorem released_key_not_stuck_witness:
  "to_hid_usage (Letter KeyA) \<notin># held (keyboard_state (run_keyboard
     (run_keyboard (with_options False) [key_down (Letter KeyA) (from_hid_byte 0)])
     (key_up (Letter KeyA) (from_hid_byte 0) # [key_down (Letter KeyB) (from_hid_byte 0)])))"
proof (rule released_key_not_stuck)
  show "report_wf (keyboard_state (run_keyboard (with_options False) [key_down (Letter KeyA) (from_hid_byte 0)]))"
    by (simp add: send_keyboard_def key_down_def with_options_def default_report_def Let_def report_wf_def add_key_eq)
qed (simp_all add: key_down_def)

text \<open>A move of the mouse queues one packet: an absolute one carries both coordinates, scaled
  from 0--32767 to below 4096, as little-endian octets and remembers them; a relative one
  carries both distances limited to 127 either way.\<close>

theorem mouse_moves_bounded:
  assumes "alive b"
  shows "(\<exists>xl xh yl yh. worker_queue (snd (send_mouse (m\<lparr>ms_event_type := MouseMoveAbs\<rparr>) b)) = worker_queue b @
      [Packet cmd_SEND_MS_ABS_DATA [0x02, absolute_move_buttons b (mouse_buttons b), xl, xh, yl, yh, 0]] \<and>
    le_val [xl, xh] = nat (clamp_i32 0 32767 (ms_x m)) div 8 \<and> le_val [xl, xh] < 4096 \<and>
    le_val [yl, yh] = nat (clamp_i32 0 32767 (ms_y m)) div 8 \<and> le_val [yl, yh] < 4096) \<and>
    (\<exists>dx dy. worker_queue (snd (send_mouse (m\<lparr>ms_event_type := MouseMove\<rparr>) b)) = worker_queue b @
      [Packet cmd_SEND_MS_REL_DATA [0x01, mouse_buttons b, dx, dy, 0]] \<and>
    sint dx = clamp_i32 (- 127) 127 (ms_x m) \<and> sint dy = clamp_i32 (- 127) 127 (ms_y m))"
proof -
  have "alive (b\<lparr>relative_mouse_active := v, last_abs_x := x, last_abs_y := y\<rparr>)"
    "alive (b\<lparr>relative_mouse_active := v\<rparr>)" for v x y
    using assms by (simp_all add: alive_def)
  then show ?thesis
    using le_val_u16_octets [of "scale_abs (ms_x m)"] le_val_u16_octets [of "scale_abs (ms_y m)"]
      scale_abs_bound [of "ms_x m"] scale_abs_bound [of "ms_y m"]
    by (auto simp: send_mouse_def mouse_packets_alive Let_def sint_clamp_i8 simp flip: unat_scale_abs
        simp del: le_val.simps)
qed

theorem mouse_moves_bounded_witness:
  "\<exists>dx dy. worker_queue (snd (send_mouse (move_rel 300 (- 300))
      ((with_options True)\<lparr>worker_tx := True, worker_running := True\<rparr>))) =
     [Packet cmd_SEND_MS_REL_DATA [0x01, 0, dx, dy, 0]] \<and> sint dx = 127 \<and> sint dy = - 127"
  using mouse_moves_bounded [of "(with_options True)\<lparr>worker_tx := True, worker_running := True\<rparr>" "move_rel 300 (- 300)"]
  by (simp add: alive_def with_options_def move_rel_def clamp_i32_def)

text \<open>In hybrid mode no absolute mouse packet that an event adds carries a button or the wheel.\<close>

theorem hybrid_absolute_clean:
  assumes "hybrid_mouse b" and "Packet cmd_SEND_MS_ABS_DATA d \<in> set (worker_queue (snd (send_mouse m b)))"
    and "Packet cmd_SEND_MS_ABS_DATA d \<notin> set (worker_queue b)"
  shows "d ! 1 = 0 \<and> d ! 6 = 0"
  by (rule hybrid_absolute_no_buttons [OF assms])

theorem hybrid_absolute_clean_witness:
  "[0x02, 0, 0x40, 0x01, 0x20, 0x03, 0 :: u8] ! 1 = 0 \<and> [0x02, 0, 0x40, 0x01, 0x20, 0x03, 0 :: u8] ! 6 = 0"
proof (rule hybrid_absolute_clean)
  let ?b = "(with_options True)\<lparr>worker_tx := True, worker_running := True, mouse_buttons := 1\<rparr>"
  show "hybrid_mouse ?b" by (simp add: with_options_def)
  show "Packet cmd_SEND_MS_ABS_DATA [0x02, 0, 0x40, 0x01, 0x20, 0x03, 0] \<in>
      set (worker_queue (snd (send_mouse (move_abs 2560 6400) ?b)))"
    by (simp add: send_mouse_def move_abs_def with_options_def send_mouse_absolute_def send_packet_def
        enqueue_command_def absolute_move_buttons_def scale_abs_def clamp_i32_def CH9329_MOUSE_RESOLUTION_def Let_def)
  show "Packet cmd_SEND_MS_ABS_DATA [0x02, 0, 0x40, 0x01, 0x20, 0x03, 0] \<notin> set (worker_queue ?b)"
    by (simp add: with_options_def)
qed

text \<open>A reset leaves no key, modifier or button held and queues the four idle reports in order;
  without a running worker typing fails with the error \<open>worker_stopped\<close>, which the
  runtime state then shows, and the backend is offline.\<close>

theorem reset_and_stop:
  "if alive b then
     \<exists>b'. reset b = (Inr (), b') \<and> held (keyboard_state b') = {#} \<and>
       modifiers (keyboard_state b') = 0 \<and> mouse_buttons b' = 0 \<and>
       worker_queue b' = worker_queue b @
         [Packet cmd_SEND_KB_GENERAL_DATA (0 # reserved (keyboard_state b) # replicate 6 0),
          Packet cmd_SEND_MS_REL_DATA [0x01, 0, 0, 0, 0],
          Packet cmd_SEND_MS_ABS_DATA [0x02, 0, 0, 0, 0, 0, 0],
          Packet cmd_SEND_KB_MEDIA_DATA [0x02, 0, 0, 0]]
   else
     \<exists>reason. fst (send_keyboard e b) = Inl (HidError ''ch9329'' reason ''worker_stopped'') \<and>
       last_error (runtime (snd (send_keyboard e b))) = Some (reason, ''worker_stopped'') \<and>
       \<not> online (runtime (snd (send_keyboard e b)))"
  using reset_alive [of b] send_keyboard_stopped [of b e] by simp

end
