(* ===== verification/HidController.thy ===== *)
theory HidController
  imports DataChannel Ch9329Backend "HOL-Library.Sublist"
begin

text \<open>
  The HID controller (\<open>src/hid/mod.rs\<close>) and the HID WebSocket (\<open>src/hid/websocket.rs\<close>): the
  bounded event queue, the coalescing of mouse moves when it is full, the event worker that
  hands events to the backend, and the life cycle of the backend.  A backend is used through
  the table of its trait methods, \<open>HidBackendOps\<close>.  Calls of the controller and the worker
  run concurrently: each critical section is a step, and the state keeps the calls that are
  between two of their steps.  The receiving end of the channel lives in the controller and
  then in its worker, which never leaves its loop, so the channel is never closed.  The fields \<open>hc_entered\<close>, \<open>hc_processed\<close>, \<open>hc_dropped\<close> and
  \<open>hc_sent\<close> only record what happened.
\<close>

section \<open>Types\<close>

datatype HidBackendType = Otg | Ch9329 string u32 bool | BackendNone

fun name_str :: "HidBackendType \<Rightarrow> string" where
  "name_str Otg = ''otg''"
| "name_str (Ch9329 _ _ _) = ''ch9329''"
| "name_str BackendNone = ''none''"

fun device_for_backend_type :: "HidBackendType \<Rightarrow> string option" where
  "device_for_backend_type (Ch9329 port _ _) = Some port"
| "device_for_backend_type _ = None"

definition LedState_default :: LedState where
  "LedState_default = \<lparr>lst_num_lock = False, lst_caps_lock = False, lst_scroll_lock = False,
     lst_compose = False, lst_kana = False\<rparr>"

record HidRuntimeState =
  rs_available :: bool
  rs_backend :: string
  rs_initialized :: bool
  rs_online :: bool
  rs_supports_absolute_mouse :: bool
  rs_keyboard_leds_enabled :: bool
  rs_led_state :: LedState
  rs_screen_resolution :: "(u32 \<times> u32) option"
  rs_device :: "string option"
  rs_error :: "string option"
  rs_error_code :: "string option"

definition from_backend_type :: "HidBackendType \<Rightarrow> HidRuntimeState" where
  "from_backend_type t =
     \<lparr>rs_available = (t \<noteq> BackendNone), rs_backend = name_str t, rs_initialized = False, rs_online = False,
      rs_supports_absolute_mouse = False, rs_keyboard_leds_enabled = False, rs_led_state = LedState_default,
      rs_screen_resolution = None, rs_device = device_for_backend_type t, rs_error = None, rs_error_code = None\<rparr>"

definition from_backend :: "HidBackendType \<Rightarrow> HidBackendRuntimeSnapshot \<Rightarrow> HidRuntimeState" where
  "from_backend t s =
     \<lparr>rs_available = (t \<noteq> BackendNone), rs_backend = name_str t, rs_initialized = snap_initialized s,
      rs_online = snap_online s, rs_supports_absolute_mouse = supports_absolute_mouse s,
      rs_keyboard_leds_enabled = keyboard_leds_enabled s, rs_led_state = led_state s,
      rs_screen_resolution = snap_resolution s,
      rs_device = (case snap_device s of Some d \<Rightarrow> Some d | None \<Rightarrow> device_for_backend_type t),
      rs_error = snap_error s, rs_error_code = snap_error_code s\<rparr>"

definition with_error :: "HidBackendType \<Rightarrow> HidRuntimeState \<Rightarrow> string \<Rightarrow> string \<Rightarrow> HidRuntimeState" where
  "with_error t current reason code =
     current\<lparr>rs_available := (t \<noteq> BackendNone), rs_backend := name_str t, rs_initialized := False,
       rs_online := False, rs_keyboard_leds_enabled := False, rs_led_state := LedState_default,
       rs_device := device_for_backend_type t, rs_error := Some reason, rs_error_code := Some code\<rparr>"

definition HID_EVENT_QUEUE_CAPACITY :: nat where
  "HID_EVENT_QUEUE_CAPACITY = 64"

datatype QueuedHidEvent =
    QKeyboard KeyboardEvent
  | QMouse MouseEvent
  | QConsumer ConsumerEvent
  | QReset

text \<open>The methods of \<open>dyn HidBackend\<close> the controller calls.\<close>

record 'b HidBackendOps =
  op_send_keyboard :: "KeyboardEvent \<Rightarrow> 'b \<Rightarrow> unit app_result \<times> 'b"
  op_send_mouse :: "MouseEvent \<Rightarrow> 'b \<Rightarrow> unit app_result \<times> 'b"
  op_send_consumer :: "ConsumerEvent \<Rightarrow> 'b \<Rightarrow> unit app_result \<times> 'b"
  op_reset :: "'b \<Rightarrow> unit app_result \<times> 'b"
  op_shutdown :: "'b \<Rightarrow> unit app_result \<times> 'b"
  op_prepare_rebuild :: "'b \<Rightarrow> unit app_result \<times> 'b"
  op_runtime_snapshot :: "'b \<Rightarrow> HidBackendRuntimeSnapshot"

text \<open>Where the event worker is in its loop: before \<open>recv\<close>, before the test of the flag,
  before \<open>take\<close>.\<close>

datatype worker_phase = AtRecv | AtSwap | AtTake

record 'b HidController =
  hc_backend :: "'b option"
  hc_backend_type :: HidBackendType
  hc_event_bus :: bool
  hc_dirty_marks :: nat
  hc_runtime_state :: HidRuntimeState
  hid_queue :: "QueuedHidEvent list"
  hid_waiting :: "QueuedHidEvent list"
  hid_movers :: "MouseEvent list"
  hid_flaggers :: nat
  pending_move :: "MouseEvent option"
  pending_move_flag :: bool
  hid_worker :: "worker_phase option"
  runtime_worker :: bool
  backend_available :: bool
  hc_sent :: "QueuedHidEvent list"
  hc_entered :: "QueuedHidEvent list"
  hc_processed :: "(bool \<times> QueuedHidEvent) list"
  hc_dropped :: "QueuedHidEvent list"

definition HidController_new :: "HidBackendType \<Rightarrow> 'b HidController" where
  "HidController_new t =
     \<lparr>hc_backend = None, hc_backend_type = t, hc_event_bus = False, hc_dirty_marks = 0,
      hc_runtime_state = from_backend_type t, hid_queue = [], hid_waiting = [], hid_movers = [],
      hid_flaggers = 0, pending_move = None, pending_move_flag = False, hid_worker = None,
      runtime_worker = False, backend_available = False, hc_sent = [], hc_entered = [],
      hc_processed = [], hc_dropped = []\<rparr>"

section \<open>Sending events\<close>

definition set_event_bus :: "'b HidController \<Rightarrow> 'b HidController" where
  "set_event_bus c = c\<lparr>hc_event_bus := True\<rparr>"

text \<open>A call answers at once, or waits for a free slot (\<open>None\<close>).\<close>

type_synonym call_answer = "unit app_result option"

definition enqueue_event :: "QueuedHidEvent \<Rightarrow> 'b HidController \<Rightarrow> call_answer \<times> 'b HidController" where
  "enqueue_event ev c =
     (if length (hid_queue c) < HID_EVENT_QUEUE_CAPACITY
      then (Some (Inr ()), c\<lparr>hid_queue := hid_queue c @ [ev], hc_entered := hc_entered c @ [ev],
                              hc_sent := hc_sent c @ [ev]\<rparr>)
      else (None, c\<lparr>hid_waiting := hid_waiting c @ [ev], hc_sent := hc_sent c @ [ev]\<rparr>))"

text \<open>The timeout of a waiting call: the event is dropped and the call answers \<open>Ok\<close>.\<close>

definition send_timeout :: "nat \<Rightarrow> 'b HidController \<Rightarrow> unit app_result \<times> 'b HidController" where
  "send_timeout i c =
     (Inr (), c\<lparr>hid_waiting := take i (hid_waiting c) @ drop (Suc i) (hid_waiting c),
                hc_dropped := hc_dropped c @ [hid_waiting c ! i]\<rparr>)"

text \<open>\<open>enqueue_mouse_move\<close> up to \<open>try_send\<close>; on a full queue the call goes on to store the
  event (\<open>store_move\<close>) and to raise the flag (\<open>flag_move\<close>).\<close>

definition enqueue_mouse_move :: "MouseEvent \<Rightarrow> 'b HidController \<Rightarrow> call_answer \<times> 'b HidController" where
  "enqueue_mouse_move m c =
     (if length (hid_queue c) < HID_EVENT_QUEUE_CAPACITY
      then (Some (Inr ()), c\<lparr>hid_queue := hid_queue c @ [QMouse m], hc_entered := hc_entered c @ [QMouse m]\<rparr>)
      else (None, c\<lparr>hid_movers := hid_movers c @ [m]\<rparr>))"

definition store_move :: "nat \<Rightarrow> 'b HidController \<Rightarrow> 'b HidController" where
  "store_move i c =
     c\<lparr>pending_move := Some (hid_movers c ! i),
       hid_movers := take i (hid_movers c) @ drop (Suc i) (hid_movers c), hid_flaggers := hid_flaggers c + 1\<rparr>"

definition flag_move :: "'b HidController \<Rightarrow> unit app_result \<times> 'b HidController" where
  "flag_move c = (Inr (), c\<lparr>pending_move_flag := True, hid_flaggers := hid_flaggers c - 1\<rparr>)"

definition not_available :: AppError where
  "not_available = BadRequest ''HID backend not available''"

definition controller_send_keyboard :: "KeyboardEvent \<Rightarrow> 'b HidController \<Rightarrow> call_answer \<times> 'b HidController" where
  "controller_send_keyboard e c =
     (if \<not> backend_available c then (Some (Inl not_available), c) else enqueue_event (QKeyboard e) c)"

definition is_move :: "MouseEvent \<Rightarrow> bool" where
  "is_move m \<longleftrightarrow> ms_event_type m = MouseMove \<or> ms_event_type m = MouseMoveAbs"

definition controller_send_mouse :: "MouseEvent \<Rightarrow> 'b HidController \<Rightarrow> call_answer \<times> 'b HidController" where
  "controller_send_mouse m c =
     (if \<not> backend_available c then (Some (Inl not_available), c)
      else if is_move m then enqueue_mouse_move m c
      else enqueue_event (QMouse m) c)"

definition controller_send_consumer :: "ConsumerEvent \<Rightarrow> 'b HidController \<Rightarrow> call_answer \<times> 'b HidController" where
  "controller_send_consumer e c =
     (if \<not> backend_available c then (Some (Inl not_available), c) else enqueue_event (QConsumer e) c)"

definition controller_reset :: "'b HidController \<Rightarrow> call_answer \<times> 'b HidController" where
  "controller_reset c =
     (if \<not> backend_available c then (Some (Inr ()), c) else enqueue_event QReset c)"

section \<open>The event worker\<close>

definition process_hid_event :: "'b HidBackendOps \<Rightarrow> QueuedHidEvent \<Rightarrow> 'b option \<Rightarrow> 'b option" where
  "process_hid_event ops event backend =
     (case backend of
        None \<Rightarrow> None
      | Some b \<Rightarrow>
          Some (snd (case event of
            QKeyboard e \<Rightarrow> op_send_keyboard ops e b
          | QMouse m \<Rightarrow> op_send_mouse ops m b
          | QConsumer e \<Rightarrow> op_send_consumer ops e b
          | QReset \<Rightarrow> op_reset ops b)))"

definition deliver_event :: "'b HidBackendOps \<Rightarrow> bool \<Rightarrow> QueuedHidEvent \<Rightarrow> 'b HidController \<Rightarrow> 'b HidController" where
  "deliver_event ops coalesced ev c =
     c\<lparr>hc_backend := process_hid_event ops ev (hc_backend c), hc_processed := hc_processed c @ [(coalesced, ev)]\<rparr>"

text \<open>Taking an event frees a slot, which goes to the longest waiting call.\<close>

definition refill :: "'b HidController \<Rightarrow> 'b HidController" where
  "refill c =
     (case hid_waiting c of
        [] \<Rightarrow> c
      | w # ws \<Rightarrow> c\<lparr>hid_waiting := ws, hid_queue := hid_queue c @ [w], hc_entered := hc_entered c @ [w]\<rparr>)"

definition worker_recv :: "'b HidBackendOps \<Rightarrow> 'b HidController \<Rightarrow> 'b HidController" where
  "worker_recv ops c =
     (case hid_queue c of
        [] \<Rightarrow> c
      | ev # evs \<Rightarrow> deliver_event ops False ev (refill (c\<lparr>hid_queue := evs, hid_worker := Some AtSwap\<rparr>)))"

definition worker_swap :: "'b HidController \<Rightarrow> 'b HidController" where
  "worker_swap c =
     (if pending_move_flag c then c\<lparr>pending_move_flag := False, hid_worker := Some AtTake\<rparr>
      else c\<lparr>hid_worker := Some AtRecv\<rparr>)"

definition worker_take :: "'b HidBackendOps \<Rightarrow> 'b HidController \<Rightarrow> 'b HidController" where
  "worker_take ops c =
     (case pending_move c of
        None \<Rightarrow> c\<lparr>hid_worker := Some AtRecv\<rparr>
      | Some m \<Rightarrow> deliver_event ops True (QMouse m) (c\<lparr>pending_move := None, hid_worker := Some AtRecv\<rparr>))"

definition start_event_worker :: "'b HidController \<Rightarrow> 'b HidController" where
  "start_event_worker c = (case hid_worker c of Some _ \<Rightarrow> c | None \<Rightarrow> c\<lparr>hid_worker := Some AtRecv\<rparr>)"

section \<open>The life cycle\<close>

definition apply_runtime_state :: "HidRuntimeState \<Rightarrow> 'b HidController \<Rightarrow> 'b HidController" where
  "apply_runtime_state next c =
     (if hc_runtime_state c = next then c
      else
        let c = c\<lparr>hc_runtime_state := next\<rparr> in
        if hc_event_bus c then c\<lparr>hc_dirty_marks := hc_dirty_marks c + 1\<rparr> else c)"

definition apply_backend_runtime_state :: "'b HidBackendOps \<Rightarrow> 'b HidController \<Rightarrow> 'b HidController" where
  "apply_backend_runtime_state ops c =
     (let next = (case hc_backend c of
                    Some b \<Rightarrow> from_backend (hc_backend_type c) (op_runtime_snapshot ops b)
                  | None \<Rightarrow> from_backend_type (hc_backend_type c))
      in apply_runtime_state next (c\<lparr>backend_available := rs_initialized next\<rparr>))"

definition restart_runtime_worker :: "'b HidController \<Rightarrow> 'b HidController" where
  "restart_runtime_worker c = c\<lparr>runtime_worker := (hc_backend c \<noteq> None)\<rparr>"

definition stop_runtime_worker :: "'b HidController \<Rightarrow> 'b HidController" where
  "stop_runtime_worker c = c\<lparr>runtime_worker := False\<rparr>"

text \<open>\<open>created\<close> is what the factory's \<open>create_initialized\<close> answers.\<close>

definition controller_init :: "'b HidBackendOps \<Rightarrow> 'b option app_result \<Rightarrow> 'b HidController
    \<Rightarrow> unit app_result \<times> 'b HidController" where
  "controller_init ops created c =
     (case created of
        Inr (Some b) \<Rightarrow>
          (let c = c\<lparr>hc_backend := Some b\<rparr>;
               c = apply_backend_runtime_state ops c;
               c = start_event_worker c
           in (Inr (), restart_runtime_worker c))
      | Inr None \<Rightarrow> (Inr (), c)
      | Inl error \<Rightarrow>
          (let c = c\<lparr>backend_available := False\<rparr>
           in (Inl error, apply_runtime_state
                 (with_error (hc_backend_type c) (hc_runtime_state c)
                    (''Failed to initialize HID backend: '' @ AppError_fmt error) ''init_failed'') c)))"

definition controller_shutdown :: "'b HidBackendOps \<Rightarrow> 'b HidController \<Rightarrow> unit app_result \<times> 'b HidController" where
  "controller_shutdown ops c =
     (let c = stop_runtime_worker c;
          c = c\<lparr>hc_backend := None, backend_available := False\<rparr>;
          s = from_backend_type (hc_backend_type c);
          s = (if hc_backend_type c = BackendNone then s\<lparr>rs_available := False\<rparr>
               else s\<lparr>rs_error := Some ''HID backend stopped'', rs_error_code := Some ''shutdown''\<rparr>)
      in (Inr (), apply_runtime_state s c))"

definition prepare_otg_rebuild :: "'b HidBackendOps \<Rightarrow> 'b HidController \<Rightarrow> unit app_result \<times> 'b HidController" where
  "prepare_otg_rebuild ops c =
     (if hc_backend_type c \<noteq> Otg then (Inr (), c)
      else
        let c = stop_runtime_worker (c\<lparr>backend_available := False\<rparr>);
            b = hc_backend c;
            c = c\<lparr>hc_backend := None\<rparr>;
            rebuilding = apply_runtime_state
              (with_error Otg (hc_runtime_state c) ''OTG gadget is rebuilding'' ''rebuilding'') c
        in case b of
             None \<Rightarrow> (Inr (), rebuilding)
           | Some b \<Rightarrow>
               (case fst (op_prepare_rebuild ops b) of
                  Inl e \<Rightarrow> (Inl e, c)
                | Inr _ \<Rightarrow> (Inr (), rebuilding)))"

definition controller_reload :: "'b HidBackendOps \<Rightarrow> HidBackendType \<Rightarrow> 'b option app_result \<Rightarrow> 'b HidController
    \<Rightarrow> unit app_result \<times> 'b HidController" where
  "controller_reload ops new_type created c =
     (let c = stop_runtime_worker (c\<lparr>backend_available := False\<rparr>);
          c = c\<lparr>hc_backend := None\<rparr>
      in case (created, new_type) of
           (Inl error, BackendNone) \<Rightarrow> (Inl error, c)
         | _ \<Rightarrow>
             let c = c\<lparr>hc_backend := (case created of Inl _ \<Rightarrow> None | Inr b \<Rightarrow> b)\<rparr> in
             if new_type = BackendNone
             then (Inr (), apply_runtime_state (from_backend_type BackendNone) (c\<lparr>hc_backend_type := BackendNone\<rparr>))
             else if hc_backend c \<noteq> None then
               let c = start_event_worker c;
                   c = c\<lparr>hc_backend_type := new_type\<rparr>;
                   c = apply_backend_runtime_state ops c
               in (Inr (), restart_runtime_worker c)
             else
               let c = c\<lparr>backend_available := False, hc_backend_type := new_type\<rparr> in
               (Inl (Internal ''Failed to reload HID backend''),
                apply_runtime_state (with_error new_type (hc_runtime_state c)
                  ''Failed to initialize HID backend'' ''init_failed'') c))"

definition ch9329_backend :: "'b HidController \<Rightarrow> 'b app_result" where
  "ch9329_backend c =
     (case hc_backend_type c of
        Ch9329 _ _ _ \<Rightarrow>
          (case hc_backend c of
             Some b \<Rightarrow> Inr b
           | None \<Rightarrow> Inl (BadRequest ''CH9329 backend not available''))
      | _ \<Rightarrow> Inl (BadRequest ''Current HID backend is not CH9329''))"


section \<open>The HID WebSocket\<close>

datatype WsMessage = WsBinary bytes | WsText nat | WsPing bytes | WsClose | WsError | WsOther

datatype WsAnswer = AnswerBinary bytes | AnswerPong bytes

definition RESP_OK :: u8 where "RESP_OK = 0x00"

definition RESP_ERR_HID_UNAVAILABLE :: u8 where "RESP_ERR_HID_UNAVAILABLE = 0x01"

definition RESP_ERR_INVALID_MESSAGE :: u8 where "RESP_ERR_INVALID_MESSAGE = 0x02"

text \<open>A waiting call is answered later; an error is only logged.\<close>

definition handle_binary_message :: "bytes \<Rightarrow> 'b HidController \<Rightarrow> (string + unit) option \<times> 'b HidController" where
  "handle_binary_message data c =
     (case parse_hid_message data of
        None \<Rightarrow> (Some (Inl ''Invalid binary HID message''), c)
      | Some event \<Rightarrow>
          (case (case event of
                   Keyboard e \<Rightarrow> controller_send_keyboard e c
                 | Mouse m \<Rightarrow> controller_send_mouse m c
                 | Consumer e \<Rightarrow> controller_send_consumer e c) of
             (Some (Inl err), c') \<Rightarrow> (Some (Inl (AppError_fmt err)), c')
           | (Some (Inr _), c') \<Rightarrow> (Some (Inr ()), c')
           | (None, c') \<Rightarrow> (None, c')))"

text \<open>One iteration of the receive loop: whether the loop goes on, the answers, the controller.\<close>

definition ws_message :: "WsMessage \<Rightarrow> 'b HidController \<Rightarrow> bool \<times> WsAnswer list \<times> 'b HidController" where
  "ws_message msg c =
     (case msg of
        WsBinary data \<Rightarrow>
          if \<not> backend_available c then (True, [AnswerBinary [RESP_ERR_HID_UNAVAILABLE]], c)
          else (True, [], snd (handle_binary_message data c))
      | WsText len \<Rightarrow> (True, [AnswerBinary [RESP_ERR_INVALID_MESSAGE]], c)
      | WsPing data \<Rightarrow> (True, [AnswerPong data], c)
      | WsClose \<Rightarrow> (False, [], c)
      | WsError \<Rightarrow> (False, [], c)
      | WsOther \<Rightarrow> (True, [], c))"

definition ws_open :: "'b HidController \<Rightarrow> bytes" where
  "ws_open c = (if backend_available c then [RESP_OK] else [RESP_ERR_HID_UNAVAILABLE])"

text \<open>The whole connection without other activity: the messages until it closes, then the
  reset that releases what the client may have left pressed.\<close>

fun ws_loop :: "WsMessage list \<Rightarrow> 'b HidController \<Rightarrow> WsAnswer list \<times> 'b HidController" where
  "ws_loop [] c = ([], snd (controller_reset c))"
| "ws_loop (m # ms) c =
     (case ws_message m c of (go, out, c') \<Rightarrow>
        if go then (case ws_loop ms c' of (outs, c'') \<Rightarrow> (out @ outs, c''))
        else (out, snd (controller_reset c')))"

definition handle_hid_socket :: "bool \<Rightarrow> WsMessage list \<Rightarrow> 'b HidController \<Rightarrow> WsAnswer list \<times> 'b HidController" where
  "handle_hid_socket initial_sent ms c =
     (if \<not> initial_sent then ([], c)
      else case ws_loop ms c of (outs, c') \<Rightarrow> (AnswerBinary (ws_open c) # outs, c'))"

lemma enqueue_available [simp]:
  "backend_available (snd (enqueue_event ev c)) = backend_available c"
  "backend_available (snd (enqueue_mouse_move m c)) = backend_available c"
  by (simp_all add: enqueue_event_def enqueue_mouse_move_def)

lemma handle_binary_available: "backend_available (snd (handle_binary_message data c)) = backend_available c"
  by (auto simp: handle_binary_message_def controller_send_keyboard_def controller_send_mouse_def
      controller_send_consumer_def split: option.splits HidChannelEvent.splits prod.splits sum.splits)
    (metis enqueue_available snd_conv)+

text \<open>A client that leaves, in whatever way, makes the controller send a reset as its last event.\<close>

lemma disconnect_resets:
  "backend_available c \<Longrightarrow> \<exists>evs. hc_sent (snd (ws_loop ms c)) = evs @ [QReset]"
proof (induction ms arbitrary: c)
  case Nil
  then show ?case by (simp add: controller_reset_def enqueue_event_def)
next
  case (Cons m ms)
  have "backend_available (snd (snd (ws_message m c)))"
    using Cons.prems by (simp add: ws_message_def handle_binary_available split: WsMessage.split)
  moreover from this have "\<exists>evs. hc_sent (snd (controller_reset (snd (snd (ws_message m c))))) = evs @ [QReset]"
    by (simp add: controller_reset_def enqueue_event_def)
  ultimately show ?case
    using Cons.IH [of "snd (snd (ws_message m c))"] by (auto split: prod.splits)
qed

section \<open>Interleavings\<close>

text \<open>The steps of sending calls and of the event worker.\<close>

inductive flow_step :: "'b HidBackendOps \<Rightarrow> 'b HidController \<Rightarrow> 'b HidController \<Rightarrow> bool" for ops where
  flow_keyboard: "flow_step ops c (snd (controller_send_keyboard e c))"
| flow_mouse: "flow_step ops c (snd (controller_send_mouse m c))"
| flow_consumer: "flow_step ops c (snd (controller_send_consumer u c))"
| flow_reset: "flow_step ops c (snd (controller_reset c))"
| flow_timeout: "i < length (hid_waiting c) \<Longrightarrow> flow_step ops c (snd (send_timeout i c))"
| flow_store: "i < length (hid_movers c) \<Longrightarrow> flow_step ops c (store_move i c)"
| flow_flag: "0 < hid_flaggers c \<Longrightarrow> flow_step ops c (snd (flag_move c))"
| flow_recv: "hid_worker c = Some AtRecv \<Longrightarrow> flow_step ops c (worker_recv ops c)"
| flow_swap: "hid_worker c = Some AtSwap \<Longrightarrow> flow_step ops c (worker_swap c)"
| flow_take: "hid_worker c = Some AtTake \<Longrightarrow> flow_step ops c (worker_take ops c)"

inductive_cases flow_stepE: "flow_step ops c c'"

text \<open>With the life cycle: the backend is created, reloaded, rebuilt and shut down, changes
  by itself, and reports a change of its runtime state.\<close>

inductive hid_step :: "'b HidBackendOps \<Rightarrow> 'b HidController \<Rightarrow> 'b HidController \<Rightarrow> bool" for ops where
  hid_flow: "flow_step ops c c' \<Longrightarrow> hid_step ops c c'"
| hid_bus: "hid_step ops c (set_event_bus c)"
| hid_init: "hid_step ops c (snd (controller_init ops created c))"
| hid_shutdown: "hid_step ops c (snd (controller_shutdown ops c))"
| hid_rebuild: "hid_step ops c (snd (prepare_otg_rebuild ops c))"
| hid_reload: "hid_step ops c (snd (controller_reload ops t created c))"
| hid_backend: "hc_backend c = Some b \<Longrightarrow> hid_step ops c (c\<lparr>hc_backend := Some b'\<rparr>)"
| hid_runtime: "runtime_worker c \<Longrightarrow> hid_step ops c (apply_backend_runtime_state ops c)"

inductive_cases hid_stepE: "hid_step ops c c'"

inductive hid_reachable :: "'b HidBackendOps \<Rightarrow> 'b HidController \<Rightarrow> bool" for ops where
  reach_new: "hid_reachable ops (HidController_new t)"
| reach_more: "hid_reachable ops c \<Longrightarrow> hid_step ops c c' \<Longrightarrow> hid_reachable ops c'"

section \<open>Invariants\<close>

definition coalescible :: "QueuedHidEvent \<Rightarrow> bool" where
  "coalescible ev \<longleftrightarrow> (case ev of QMouse m \<Rightarrow> is_move m | _ \<Rightarrow> False)"

definition firm :: "QueuedHidEvent list \<Rightarrow> QueuedHidEvent list" where
  "firm evs = filter (\<lambda>ev. \<not> coalescible ev) evs"

lemma firm_simps [simp]:
  "firm [] = []" "firm (xs @ ys) = firm xs @ firm ys"
  "firm (ev # evs) = (if coalescible ev then firm evs else ev # firm evs)"
  "coalescible (QKeyboard e) = False" "coalescible (QConsumer u) = False" "coalescible QReset = False"
  "coalescible (QMouse m) = is_move m"
  by (simp_all add: firm_def coalescible_def)

text \<open>The queue discipline.\<close>

definition queue_inv :: "'b HidController \<Rightarrow> bool" where
  "queue_inv c \<longleftrightarrow>
     length (hid_queue c) \<le> HID_EVENT_QUEUE_CAPACITY \<and>
     (hid_waiting c \<noteq> [] \<longrightarrow> length (hid_queue c) = HID_EVENT_QUEUE_CAPACITY) \<and>
     map snd (filter (\<lambda>p. \<not> fst p) (hc_processed c)) @ hid_queue c = hc_entered c \<and>
     (\<forall>ev. (True, ev) \<in> set (hc_processed c) \<longrightarrow> coalescible ev) \<and>
     (\<forall>m. pending_move c = Some m \<longrightarrow> is_move m) \<and> (\<forall>m \<in> set (hid_movers c). is_move m) \<and>
     (\<forall>ev \<in> set (hid_waiting c). \<not> coalescible ev) \<and>
     subseq (firm (hc_entered c) @ hid_waiting c) (hc_sent c) \<and>
     length (hc_sent c) = length (firm (hc_entered c)) + length (hid_waiting c) + length (hc_dropped c)"

lemma subseq_snoc: "subseq xs ys \<Longrightarrow> subseq (xs @ [a]) (ys @ [a])"
  by (rule list_emb_append_mono) simp_all

lemma subseq_remove: "i < length w \<Longrightarrow> subseq (take i w @ drop (Suc i) w) w"
proof -
  assume "i < length w"
  then have "w = take i w @ [w ! i] @ drop (Suc i) w"
    by (simp add: Cons_nth_drop_Suc)
  moreover have "subseq (take i w @ drop (Suc i) w) (take i w @ [w ! i] @ drop (Suc i) w)"
    by (intro list_emb_append_mono) (simp_all add: list_emb_Cons)
  ultimately show ?thesis by simp
qed

lemma enqueue_event_inv:
  assumes "queue_inv c" and "\<not> coalescible ev"
  shows "queue_inv (snd (enqueue_event ev c))"
proof (cases "length (hid_queue c) < HID_EVENT_QUEUE_CAPACITY")
  case True
  then have "hid_waiting c = []"
    using assms(1) by (auto simp: queue_inv_def)
  then have "subseq (firm (hc_entered c) @ [ev]) (hc_sent c @ [ev])"
    using assms(1) by (intro subseq_snoc) (simp add: queue_inv_def)
  with True show ?thesis
    using assms \<open>hid_waiting c = []\<close> by (auto simp: queue_inv_def enqueue_event_def)
next
  case False
  have "subseq ((firm (hc_entered c) @ hid_waiting c) @ [ev]) (hc_sent c @ [ev])"
    using assms(1) by (intro subseq_snoc) (simp add: queue_inv_def)
  with False show ?thesis
    using assms by (auto simp: queue_inv_def enqueue_event_def)
qed

lemma enqueue_mouse_move_inv:
  assumes "queue_inv c" and "is_move m"
  shows "queue_inv (snd (enqueue_mouse_move m c))"
  using assms by (auto simp: queue_inv_def enqueue_mouse_move_def)

lemma send_timeout_inv:
  assumes "queue_inv c" and "i < length (hid_waiting c)"
  shows "queue_inv (snd (send_timeout i c))"
proof -
  have "subseq (firm (hc_entered c) @ take i (hid_waiting c) @ drop (Suc i) (hid_waiting c))
      (firm (hc_entered c) @ hid_waiting c)"
    using subseq_remove [OF assms(2)] by (intro list_emb_append_mono) simp_all
  then have "subseq (firm (hc_entered c) @ take i (hid_waiting c) @ drop (Suc i) (hid_waiting c)) (hc_sent c)"
    using assms(1) subseq_order.order_trans by (auto simp: queue_inv_def)
  moreover have "hid_waiting c \<noteq> []"
    using assms(2) by auto
  ultimately show ?thesis
    using assms by (auto simp: queue_inv_def send_timeout_def dest: in_set_takeD in_set_dropD)
qed

lemma store_flag_inv:
  assumes "queue_inv c"
  shows "i < length (hid_movers c) \<Longrightarrow> queue_inv (store_move i c)" and "queue_inv (snd (flag_move c))"
  using assms by (auto simp: queue_inv_def store_move_def flag_move_def dest: in_set_takeD in_set_dropD)

lemma refill_inv:
  assumes "queue_inv c" and "hid_queue c = ev # evs"
  shows "queue_inv (deliver_event ops False ev (refill (c\<lparr>hid_queue := evs, hid_worker := w\<rparr>)))"
proof (cases "hid_waiting c")
  case Nil
  then show ?thesis
    using assms by (auto simp: queue_inv_def deliver_event_def refill_def)
next
  case (Cons x xs)
  then show ?thesis
    using assms by (auto simp: queue_inv_def deliver_event_def refill_def)
qed

lemma worker_inv:
  assumes "queue_inv c"
  shows "queue_inv (worker_recv ops c)" and "queue_inv (worker_swap c)" and "queue_inv (worker_take ops c)"
proof -
  show "queue_inv (worker_recv ops c)"
    using assms refill_inv [OF assms] by (cases "hid_queue c") (auto simp: worker_recv_def)
  show "queue_inv (worker_swap c)" "queue_inv (worker_take ops c)"
    using assms by (auto simp: queue_inv_def worker_swap_def worker_take_def deliver_event_def
        split: option.splits)
qed

lemma flow_step_inv:
  assumes "flow_step ops c c'" and "queue_inv c"
  shows "queue_inv c'"
  using assms
  by (cases rule: flow_step.cases)
     (auto simp: controller_send_keyboard_def controller_send_mouse_def controller_send_consumer_def
       controller_reset_def intro: enqueue_event_inv enqueue_mouse_move_inv send_timeout_inv store_flag_inv worker_inv)

text \<open>The life cycle does not touch the queue.\<close>

lemma queue_inv_frame:
  "queue_inv (c\<lparr>hc_backend := x\<rparr>) = queue_inv c" "queue_inv (c\<lparr>hc_backend_type := t\<rparr>) = queue_inv c"
  "queue_inv (c\<lparr>hc_event_bus := e\<rparr>) = queue_inv c" "queue_inv (c\<lparr>hc_dirty_marks := n\<rparr>) = queue_inv c"
  "queue_inv (c\<lparr>hc_runtime_state := r\<rparr>) = queue_inv c" "queue_inv (c\<lparr>hid_worker := w\<rparr>) = queue_inv c"
  "queue_inv (c\<lparr>runtime_worker := v\<rparr>) = queue_inv c" "queue_inv (c\<lparr>backend_available := a\<rparr>) = queue_inv c"
  by (simp_all add: queue_inv_def)

text \<open>A controller that takes events has a backend, and says that it is initialised.\<close>

definition available_inv :: "'b HidController \<Rightarrow> bool" where
  "available_inv c \<longleftrightarrow> (backend_available c \<longrightarrow> hc_backend c \<noteq> None \<and> rs_initialized (hc_runtime_state c))"

lemma apply_runtime_state_simps [simp]:
  "queue_inv (apply_runtime_state r c) = queue_inv c"
  "hc_backend (apply_runtime_state r c) = hc_backend c"
  "hc_runtime_state (apply_runtime_state r c) = r"
  "backend_available (apply_runtime_state r c) = backend_available c"
  by (simp_all add: apply_runtime_state_def queue_inv_frame Let_def)

lemma apply_backend_inv:
  "queue_inv (apply_backend_runtime_state ops c) = queue_inv c"
  "available_inv (apply_backend_runtime_state ops c)"
  by (auto simp: apply_backend_runtime_state_def Let_def queue_inv_frame available_inv_def from_backend_type_def
      split: option.splits)

lemma workers_frame [simp]:
  "queue_inv (start_event_worker c) = queue_inv c" "available_inv (start_event_worker c) = available_inv c"
  "queue_inv (restart_runtime_worker c) = queue_inv c" "available_inv (restart_runtime_worker c) = available_inv c"
  "queue_inv (stop_runtime_worker c) = queue_inv c" "hc_backend (start_event_worker c) = hc_backend c"
  "backend_available (stop_runtime_worker c) = backend_available c"
  by (auto simp: start_event_worker_def restart_runtime_worker_def stop_runtime_worker_def queue_inv_frame
      available_inv_def split: option.splits)

lemma lifecycle_queue_inv:
  assumes "queue_inv c"
  shows "queue_inv (snd (controller_init ops created c))" and "queue_inv (snd (controller_shutdown ops c))"
    and "queue_inv (snd (prepare_otg_rebuild ops c))" and "queue_inv (snd (controller_reload ops t created c))"
  using assms
  by (auto simp: controller_init_def controller_shutdown_def prepare_otg_rebuild_def controller_reload_def
      apply_backend_inv queue_inv_frame Let_def split: sum.splits option.splits HidBackendType.splits)

lemma lifecycle_available_inv:
  assumes "available_inv c"
  shows "available_inv (snd (controller_init ops created c))" and "available_inv (snd (controller_shutdown ops c))"
    and "available_inv (snd (prepare_otg_rebuild ops c))" and "available_inv (snd (controller_reload ops t created c))"
proof -
  show "available_inv (snd (controller_init ops created c))"
    using assms by (auto simp: controller_init_def apply_backend_inv Let_def split: sum.splits option.splits)
       (simp_all add: available_inv_def)
  show "available_inv (snd (controller_shutdown ops c))"
    by (simp add: controller_shutdown_def available_inv_def Let_def)
  show "available_inv (snd (prepare_otg_rebuild ops c))"
    using assms by (auto simp: prepare_otg_rebuild_def available_inv_def Let_def split: sum.splits option.splits)
  show "available_inv (snd (controller_reload ops t created c))"
    by (auto simp: controller_reload_def apply_backend_inv Let_def split: sum.splits option.splits HidBackendType.splits)
       (auto simp: available_inv_def)
qed

lemma flow_step_available:
  assumes "flow_step ops c c'" and "available_inv c"
  shows "available_inv c'"
  using assms
  by (cases rule: flow_step.cases)
     (auto simp: available_inv_def controller_send_keyboard_def controller_send_mouse_def
       controller_send_consumer_def controller_reset_def enqueue_event_def enqueue_mouse_move_def
       send_timeout_def store_move_def flag_move_def worker_recv_def worker_swap_def worker_take_def
       deliver_event_def refill_def process_hid_event_def split: list.splits option.splits if_splits)

lemma hid_reachable_inv: "hid_reachable ops c \<Longrightarrow> queue_inv c \<and> available_inv c"
proof (induction rule: hid_reachable.induct)
  case (reach_new t)
  show ?case
    by (simp add: HidController_new_def queue_inv_def available_inv_def)
next
  case (reach_more c c')
  from reach_more(2) show ?case
  proof cases
    case (hid_flow)
    then show ?thesis
      using reach_more.IH by (blast intro: flow_step_inv flow_step_available)
  qed (use reach_more.IH in \<open>auto simp: lifecycle_queue_inv lifecycle_available_inv apply_backend_inv
      queue_inv_frame set_event_bus_def\<close>, auto simp: available_inv_def)
qed


section \<open>What the backend is told\<close>

text \<open>
  The contract of a HID backend towards the controller, for the keys that are down: key
  events change the bag of held keys as a six-slot report does, a reset empties it, mouse
  and consumer events leave it alone.
\<close>

definition key_effect :: "QueuedHidEvent \<Rightarrow> u8 multiset \<Rightarrow> u8 multiset" where
  "key_effect ev M =
     (case ev of
        QKeyboard e \<Rightarrow>
          if is_modifier (kb_key e) then M
          else bag_step 6 M (kb_event_type e = KeyDown, to_hid_usage (kb_key e))
      | QReset \<Rightarrow> {#}
      | _ \<Rightarrow> M)"

locale hid_backend =
  fixes ops :: "'b HidBackendOps"
    and invar :: "'b \<Rightarrow> bool"
    and keys_down :: "'b \<Rightarrow> u8 multiset"
  assumes keyboard_invar: "invar b \<Longrightarrow> invar (snd (op_send_keyboard ops e b))"
    and mouse_invar: "invar b \<Longrightarrow> invar (snd (op_send_mouse ops m b))"
    and consumer_invar: "invar b \<Longrightarrow> invar (snd (op_send_consumer ops u b))"
    and reset_invar: "invar b \<Longrightarrow> invar (snd (op_reset ops b))"
    and keyboard_keys: "invar b \<Longrightarrow> keys_down (snd (op_send_keyboard ops e b)) = key_effect (QKeyboard e) (keys_down b)"
    and mouse_keys: "invar b \<Longrightarrow> keys_down (snd (op_send_mouse ops m b)) = keys_down b"
    and consumer_keys: "invar b \<Longrightarrow> keys_down (snd (op_send_consumer ops u b)) = keys_down b"
    and reset_keys: "invar b \<Longrightarrow> keys_down (snd (op_reset ops b)) = {#}"
begin

lemma process_keys:
  assumes "invar b"
  shows "\<exists>b'. process_hid_event ops ev (Some b) = Some b' \<and> invar b' \<and> keys_down b' = key_effect ev (keys_down b)"
  using assms
  by (cases ev) (simp_all add: process_hid_event_def key_effect_def keyboard_invar mouse_invar consumer_invar
    reset_invar keyboard_keys mouse_keys consumer_keys reset_keys)

text \<open>Along any interleaving of sends and worker steps, the keys are those of the events
  the worker handed over.\<close>

lemma flow_keys:
  assumes "rtranclp (flow_step ops) c c'" and "hc_backend c = Some b" and "invar b" and "hc_processed c = []"
  shows "\<exists>b'. hc_backend c' = Some b' \<and> invar b' \<and>
    keys_down b' = fold key_effect (map snd (hc_processed c')) (keys_down b)"
  using assms(1)
proof (induction rule: rtranclp_induct)
  case base
  then show ?case using assms by simp
next
  case (step c1 c2)
  then obtain b1 where b1: "hc_backend c1 = Some b1" "invar b1"
      "keys_down b1 = fold key_effect (map snd (hc_processed c1)) (keys_down b)"
    by blast
  have deliver: "\<exists>b'. hc_backend (deliver_event ops k ev c) = Some b' \<and> invar b' \<and>
      keys_down b' = fold key_effect (map snd (hc_processed (deliver_event ops k ev c))) (keys_down b)"
    if "hc_backend c = Some b1" "hc_processed c = hc_processed c1" for k ev and c :: "'b HidController"
    using that b1 process_keys [OF b1(2), of ev] by (auto simp: deliver_event_def)
  from step(2) show ?case
  proof cases
    case flow_recv
    then show ?thesis
      using b1 by (cases "hid_queue c1")
        (auto simp: worker_recv_def refill_def intro!: deliver split: list.splits)
  next
    case flow_take
    then show ?thesis
      using b1 by (cases "pending_move c1") (auto simp: worker_take_def intro!: deliver)
  qed (use b1 in \<open>auto simp: controller_send_keyboard_def controller_send_mouse_def
       controller_send_consumer_def controller_reset_def enqueue_event_def enqueue_mouse_move_def
       send_timeout_def store_move_def flag_move_def worker_swap_def\<close>)
qed

end

text \<open>The CH9329 backend keeps the contract.\<close>

definition ch9329_ops :: "string \<Rightarrow> bool \<Rightarrow> Ch9329Backend HidBackendOps" where
  "ch9329_ops port_path port_present =
     \<lparr>op_send_keyboard = send_keyboard, op_send_mouse = send_mouse, op_send_consumer = send_consumer,
      op_reset = reset, op_shutdown = (\<lambda>b. (Inr (), shutdown_finish (worker_exit (shutdown_request b)))),
      op_prepare_rebuild = (\<lambda>b. (Inr (), shutdown_finish (worker_exit (shutdown_request b)))),
      op_runtime_snapshot = runtime_snapshot port_path port_present\<rparr>"

lemma send_packet_keyboard [simp]: "keyboard_state (snd (send_packet x d b)) = keyboard_state b"
  by (simp add: send_packet_def)

lemma send_mouse_keyboard: "keyboard_state (snd (send_mouse m b)) = keyboard_state b"
  by (simp add: send_mouse_def send_mouse_relative_def send_mouse_absolute_def send_mouse_buttons_def Let_def
      split: MouseEventType.split option.split)

lemma seq_keyboard:
  "(\<And>b'. keyboard_state (snd (f b')) = keyboard_state b') \<Longrightarrow> keyboard_state (snd (seq m f)) = keyboard_state (snd m)"
  by (auto simp: seq_def split: prod.split sum.split)

lemma reset_keyboard: "keyboard_state (snd (reset b)) = clear_report (keyboard_state b)"
proof -
  have media: "keyboard_state (snd (release_media_keys b')) = keyboard_state b'" for b'
    by (simp add: release_media_keys_def send_media_key_def)
  show ?thesis
    unfolding reset_def Let_def
    by (subst seq_keyboard, subst seq_keyboard, subst seq_keyboard)
       (simp_all add: media send_mouse_relative_def send_mouse_absolute_def)
qed

interpretation ch9329: hid_backend "ch9329_ops port present" "\<lambda>b. report_wf (keyboard_state b)"
  "\<lambda>b. held (keyboard_state b)"
proof
  fix b :: Ch9329Backend and e m u
  assume wf: "report_wf (keyboard_state b)"
  show "report_wf (keyboard_state (snd (op_send_keyboard (ch9329_ops port present) e b)))"
    using send_keyboard_wf [OF wf] by (simp add: ch9329_ops_def)
  have "held (keyboard_state (snd (send_keyboard e b))) =
      (if is_modifier (kb_key e) then held (keyboard_state b)
       else held (kr.buffer_step (keyboard_state b) (kb_event_type e = KeyDown, to_hid_usage (kb_key e))))"
    using send_keyboard_keys [of e b] by (auto intro: held_keys)
  then show "held (keyboard_state (snd (op_send_keyboard (ch9329_ops port present) e b))) =
      key_effect (QKeyboard e) (held (keyboard_state b))"
    using kr.step_refines [OF wf] by (simp add: ch9329_ops_def key_effect_def)
  show "report_wf (keyboard_state (snd (op_send_mouse (ch9329_ops port present) m b)))"
    "held (keyboard_state (snd (op_send_mouse (ch9329_ops port present) m b))) = held (keyboard_state b)"
    using wf by (simp_all add: ch9329_ops_def send_mouse_keyboard)
  show "report_wf (keyboard_state (snd (op_send_consumer (ch9329_ops port present) u b)))"
    "held (keyboard_state (snd (op_send_consumer (ch9329_ops port present) u b))) = held (keyboard_state b)"
    using wf by (simp_all add: ch9329_ops_def send_consumer_def)
  show "report_wf (keyboard_state (snd (op_reset (ch9329_ops port present) b)))"
    "held (keyboard_state (snd (op_reset (ch9329_ops port present) b))) = {#}"
    using wf by (simp_all add: ch9329_ops_def reset_keyboard clear_report_wf clear_report_held)
qed


section \<open>Properties\<close>

lemma coalescible_no_key: "coalescible ev \<Longrightarrow> key_effect ev M = M"
  by (cases ev) (simp_all add: key_effect_def)

lemma fold_firm: "fold key_effect (firm evs) M = fold key_effect evs M"
  by (induction evs arbitrary: M) (auto simp: coalescible_no_key)

lemma firm_processed:
  assumes "queue_inv c"
  shows "firm (map snd (hc_processed c)) @ firm (hid_queue c) = firm (hc_entered c)"
proof -
  have "firm (map snd ps) = firm (map snd (filter (\<lambda>p. \<not> fst p) ps))"
    if "\<forall>p \<in> set ps. fst p \<longrightarrow> coalescible (snd p)" for ps :: "(bool \<times> QueuedHidEvent) list"
    using that by (induction ps) auto
  moreover have "\<forall>p \<in> set (hc_processed c). fst p \<longrightarrow> coalescible (snd p)"
    using assms by (auto simp: queue_inv_def)
  ultimately have "firm (map snd (hc_processed c)) = firm (map snd (filter (\<lambda>p. \<not> fst p) (hc_processed c)))" (is ?firm)
    by blast
  have "map snd (filter (\<lambda>p. \<not> fst p) (hc_processed c)) @ hid_queue c = hc_entered c"
    using assms by (simp add: queue_inv_def)
  from arg_cong [OF this, of firm]
  have "firm (map snd (filter (\<lambda>p. \<not> fst p) (hc_processed c))) @ firm (hid_queue c) = firm (hc_entered c)"
    by simp
  with \<open>?firm\<close> show ?thesis by simp
qed

context hid_backend
begin

lemma drained_keys:
  assumes "rtranclp (flow_step ops) c c'" and "queue_inv c" and "hc_processed c = []"
    and "hc_sent c = []" and "hc_backend c = Some b" and "invar b"
    and "hid_queue c' = []" and "hid_waiting c' = []" and "hc_dropped c' = []"
  shows "\<exists>b'. hc_backend c' = Some b' \<and> invar b' \<and> keys_down b' = fold key_effect (hc_sent c') (keys_down b)"
proof -
  have inv: "queue_inv c'"
    using assms(1,2) by (induction rule: rtranclp_induct) (auto intro: flow_step_inv)
  have "subseq (firm (map snd (hc_processed c'))) (hc_sent c')"
    "length (firm (map snd (hc_processed c'))) = length (hc_sent c')"
    using inv firm_processed [OF inv] assms(7-9) by (auto simp: queue_inv_def)
  then have sent: "firm (map snd (hc_processed c')) = hc_sent c'"
    by (rule subseq_same_length)
  obtain b' where "hc_backend c' = Some b'" "invar b'"
    "keys_down b' = fold key_effect (map snd (hc_processed c')) (keys_down b)"
    using flow_keys [OF assms(1,5,6,3)] by blast
  then show ?thesis
    using fold_firm [of "map snd (hc_processed c')"] sent by auto
qed

end



text \<open>C28: End to end, whatever the interleaving of senders and worker and however moves are
  coalesced: when the queue has drained and no call timed out, the keys the CH9329 backend
  holds down are those of the key events and resets in the order they were sent.\<close>

theorem typing_through_controller:
  assumes "rtranclp (flow_step (ch9329_ops port present)) c c'" and "queue_inv c" and "hc_processed c = []"
    and "hc_sent c = []" and "hc_backend c = Some b" and "report_wf (keyboard_state b)"
    and "hid_queue c' = []" and "hid_waiting c' = []" and "hc_dropped c' = []"
  shows "\<exists>b'. hc_backend c' = Some b' \<and> report_wf (keyboard_state b') \<and>
    held (keyboard_state b') = fold key_effect (hc_sent c') (held (keyboard_state b))"
  using ch9329.drained_keys [OF assms] .

lemma one_key_flow:
  fixes c :: "'b HidController" and ops :: "'b HidBackendOps" and e :: KeyboardEvent
  assumes "hid_queue c = []" and "hid_waiting c = []" and "backend_available c" and "hid_worker c = Some AtRecv"
  defines "c' \<equiv> worker_recv ops (snd (controller_send_keyboard e c))"
  shows "rtranclp (flow_step ops) c c'" and "hid_queue c' = []" and "hid_waiting c' = []"
    and "hc_sent c' = hc_sent c @ [QKeyboard e]" and "hc_dropped c' = hc_dropped c"
proof -
  have "flow_step ops c (snd (controller_send_keyboard e c))"
    by (rule flow_keyboard)
  moreover have "flow_step ops (snd (controller_send_keyboard e c)) c'"
    unfolding c'_def using assms
    by (intro flow_recv) (simp add: controller_send_keyboard_def enqueue_event_def HID_EVENT_QUEUE_CAPACITY_def)
  ultimately show "rtranclp (flow_step ops) c c'"
    by (meson rtranclp.rtrancl_into_rtrancl rtranclp.rtrancl_refl)
  show "hid_queue c' = []" "hid_waiting c' = []" "hc_sent c' = hc_sent c @ [QKeyboard e]" "hc_dropped c' = hc_dropped c"
    using assms by (simp_all add: c'_def controller_send_keyboard_def enqueue_event_def worker_recv_def refill_def
        deliver_event_def HID_EVENT_QUEUE_CAPACITY_def)
qed

definition typing_start :: "Ch9329Backend HidController" where
  "typing_start = (HidController_new (Ch9329 [] 9600 False))
     \<lparr>hc_backend := Some (with_options False), backend_available := True, hid_worker := Some AtRecv\<rparr>"

theorem typing_through_controller_witness:
  "\<exists>c' b'. rtranclp (flow_step (ch9329_ops [] True)) typing_start c' \<and> hc_backend c' = Some b' \<and>
     held (keyboard_state b') = {#to_hid_usage (Letter KeyA)#}"
proof -
  let ?ops = "ch9329_ops [] True"
  let ?e = "key_down (Letter KeyA) (from_hid_byte 0)"
  let ?c = "worker_recv ?ops (snd (controller_send_keyboard ?e typing_start))"
  have start: "hid_queue typing_start = []" "hid_waiting typing_start = []" "backend_available typing_start"
    "hid_worker typing_start = Some AtRecv" "hc_sent typing_start = []" "hc_dropped typing_start = []"
    "hc_processed typing_start = []" "hc_backend typing_start = Some (with_options False)" "queue_inv typing_start"
    by (simp_all add: typing_start_def HidController_new_def queue_inv_def)
  have idle: "report_wf (keyboard_state (with_options False))" "held (keyboard_state (with_options False)) = {#}"
    by (simp_all add: with_options_def default_report_wf default_report_held)
  note flow = one_key_flow [OF start(1-4), of ?ops ?e]
  obtain b' where "hc_backend ?c = Some b'"
    "held (keyboard_state b') = fold key_effect (hc_sent ?c) (held (keyboard_state (with_options False)))"
    using typing_through_controller [OF flow(1) start(9,7,5,8) idle(1) flow(2,3)] flow(5) start(6) by auto
  then have "held (keyboard_state b') = {#to_hid_usage (Letter KeyA)#}"
    using flow(4) start(5) idle(2) by (simp add: key_effect_def key_down_def bag_step_def)
  then show ?thesis
    using flow(1) \<open>hc_backend ?c = Some b'\<close> by blast
qed

text \<open>When the queue is full, the coalesced move is delivered right after the next event
  and before everything that was queued earlier: a button press sent before the move is seen
  by the target after it, and an older queued move overrides it.\<close>

theorem coalesced_move_overtakes:
  assumes "hid_queue c = ev # evs" and "length (hid_queue c) = 64" and "hid_waiting c = []" and "hid_movers c = []"
    and "hid_flaggers c = 0" and "hid_worker c = Some AtRecv" and "hc_processed c = []"
    and "backend_available c" and "is_move m"
  shows "\<exists>c'. rtranclp (flow_step ops) c c' \<and> hid_queue c' = evs \<and>
    hc_processed c' = [(False, ev), (True, QMouse m)]"
proof -
  let ?c1 = "snd (controller_send_mouse m c)"
  let ?c2 = "store_move 0 ?c1"
  let ?c3 = "snd (flag_move ?c2)"
  let ?c4 = "worker_recv ops ?c3"
  let ?c5 = "worker_swap ?c4"
  let ?c6 = "worker_take ops ?c5"
  have c1: "?c1 = c\<lparr>hid_movers := [m]\<rparr>"
    using assms by (simp add: controller_send_mouse_def enqueue_mouse_move_def HID_EVENT_QUEUE_CAPACITY_def)
  have 4: "hid_worker ?c4 = Some AtSwap" "pending_move_flag ?c4" "pending_move ?c4 = Some m"
    "hid_queue ?c4 = evs" "hc_processed ?c4 = [(False, ev)]"
    using assms(1,3,7) by (simp_all add: c1 store_move_def flag_move_def worker_recv_def refill_def deliver_event_def)
  have s1: "flow_step ops c ?c1" by (rule flow_mouse)
  have s2: "flow_step ops ?c1 ?c2" by (rule flow_store) (simp add: c1)
  have s3: "flow_step ops ?c2 ?c3" by (rule flow_flag) (simp add: store_move_def)
  have s4: "flow_step ops ?c3 ?c4" by (rule flow_recv) (simp add: c1 store_move_def flag_move_def assms(6))
  have s5: "flow_step ops ?c4 ?c5" by (rule flow_swap) (rule 4)
  have s6: "flow_step ops ?c5 ?c6" by (rule flow_take) (simp add: worker_swap_def 4)
  have "rtranclp (flow_step ops) c ?c6"
    using s1 s2 s3 s4 s5 s6 by (meson rtranclp.rtrancl_into_rtrancl rtranclp.rtrancl_refl)
  moreover have "hid_queue ?c6 = evs" "hc_processed ?c6 = [(False, ev), (True, QMouse m)]"
    by (simp_all add: worker_take_def worker_swap_def deliver_event_def 4)
  ultimately show ?thesis by blast
qed

theorem coalesced_move_overtakes_witness:
  "\<exists>c'. rtranclp (flow_step (ch9329_ops [] True))
      (typing_start\<lparr>hid_queue := QReset # replicate 63 (QMouse (button_down ButtonLeft))\<rparr>) c' \<and>
    hid_queue c' = replicate 63 (QMouse (button_down ButtonLeft)) \<and>
    hc_processed c' = [(False, QReset), (True, QMouse (move_abs 5 5))]"
  by (rule coalesced_move_overtakes) (simp_all add: typing_start_def HidController_new_def is_move_def move_abs_def)

end
