(* ===== verification/UsbConfig.thy ===== *)
theory UsbConfig
  imports Ch9329Port StateError
begin

text \<open>
  The configuration of the USB side (\<open>src/config/schema/hid.rs\<close>, \<open>otg_network.rs\<close>, \<open>uac.rs\<close> and the \<open>MsdConfig\<close> of
  \<open>web.rs\<close>) with its validators, and which settings they let through.  Strings are ASCII text.
\<close>

unbundle bit_operations_syntax

section \<open>HID\<close>

datatype HidBackend = HidOtg | HidCh9329 | HidNone

record OtgDescriptorConfig =
  od_vendor_id :: u16
  od_product_id :: u16
  od_manufacturer :: string
  od_product :: string
  od_serial_number :: "string option"

definition OtgDescriptorConfig_default :: OtgDescriptorConfig where
  "OtgDescriptorConfig_default =
     \<lparr>od_vendor_id = 0x1d6b, od_product_id = 0x0104, od_manufacturer = ''One-KVM'', od_product = ''One-KVM USB Device'',
      od_serial_number = None\<rparr>"

definition Ch9329DescriptorConfig_default :: Ch9329DescriptorConfig where
  "Ch9329DescriptorConfig_default =
     \<lparr>vendor_id = 0x1a86, product_id = 0xe129, manufacturer = ''WCH.CN'', product_name = ''CH9329'', serial_number = None\<rparr>"

datatype OtgHidProfile = Full | FullNoConsumer | LegacyKeyboard | LegacyMouseRelative | Custom

record OtgHidFunctions =
  hf_keyboard :: bool
  hf_mouse_relative :: bool
  hf_mouse_absolute :: bool
  hf_consumer :: bool

definition hf_full :: OtgHidFunctions where
  "hf_full = \<lparr>hf_keyboard = True, hf_mouse_relative = True, hf_mouse_absolute = True, hf_consumer = True\<rparr>"

definition hf_full_no_consumer :: OtgHidFunctions where
  "hf_full_no_consumer = \<lparr>hf_keyboard = True, hf_mouse_relative = True, hf_mouse_absolute = True, hf_consumer = False\<rparr>"

definition hf_legacy_keyboard :: OtgHidFunctions where
  "hf_legacy_keyboard = \<lparr>hf_keyboard = True, hf_mouse_relative = False, hf_mouse_absolute = False, hf_consumer = False\<rparr>"

definition hf_legacy_mouse_relative :: OtgHidFunctions where
  "hf_legacy_mouse_relative = \<lparr>hf_keyboard = False, hf_mouse_relative = True, hf_mouse_absolute = False, hf_consumer = False\<rparr>"

definition hf_is_empty :: "OtgHidFunctions \<Rightarrow> bool" where
  "hf_is_empty f \<longleftrightarrow> \<not> hf_keyboard f \<and> \<not> hf_mouse_relative f \<and> \<not> hf_mouse_absolute f \<and> \<not> hf_consumer f"

definition from_legacy_str :: "string \<Rightarrow> OtgHidProfile option" where
  "from_legacy_str v =
     (if v = ''full'' \<or> v = ''full_no_msd'' then Some Full
      else if v = ''full_no_consumer'' \<or> v = ''full_no_consumer_no_msd'' then Some FullNoConsumer
      else if v = ''legacy_keyboard'' then Some LegacyKeyboard
      else if v = ''legacy_mouse_relative'' then Some LegacyMouseRelative
      else if v = ''custom'' then Some Custom
      else None)"

fun resolve_functions :: "OtgHidProfile \<Rightarrow> OtgHidFunctions \<Rightarrow> OtgHidFunctions" where
  "resolve_functions Full custom = hf_full"
| "resolve_functions FullNoConsumer custom = hf_full_no_consumer"
| "resolve_functions LegacyKeyboard custom = hf_legacy_keyboard"
| "resolve_functions LegacyMouseRelative custom = hf_legacy_mouse_relative"
| "resolve_functions Custom custom = custom"

record HidConfig =
  hcfg_backend :: HidBackend
  hcfg_otg_udc :: "string option"
  hcfg_otg_descriptor :: OtgDescriptorConfig
  hcfg_otg_profile :: OtgHidProfile
  hcfg_otg_functions :: OtgHidFunctions
  hcfg_otg_keyboard_leds :: bool
  hcfg_ch9329_port :: string
  hcfg_ch9329_baudrate :: u32
  hcfg_ch9329_hybrid_mouse :: bool
  hcfg_ch9329_descriptor :: Ch9329DescriptorConfig
  hcfg_mouse_absolute :: bool

definition HidConfig_default :: HidConfig where
  "HidConfig_default =
     \<lparr>hcfg_backend = HidNone, hcfg_otg_udc = None, hcfg_otg_descriptor = OtgDescriptorConfig_default, hcfg_otg_profile = Full,
      hcfg_otg_functions = hf_full, hcfg_otg_keyboard_leds = False, hcfg_ch9329_port = ''/dev/ttyUSB0'',
      hcfg_ch9329_baudrate = 9600, hcfg_ch9329_hybrid_mouse = False, hcfg_ch9329_descriptor = Ch9329DescriptorConfig_default,
      hcfg_mouse_absolute = True\<rparr>"

definition effective_otg_functions :: "HidConfig \<Rightarrow> OtgHidFunctions" where
  "effective_otg_functions c = resolve_functions (hcfg_otg_profile c) (hcfg_otg_functions c)"

definition effective_otg_keyboard_leds :: "HidConfig \<Rightarrow> bool" where
  "effective_otg_keyboard_leds c \<longleftrightarrow> hcfg_otg_keyboard_leds c \<and> hf_keyboard (effective_otg_functions c)"

definition constrained_otg_functions :: "HidConfig \<Rightarrow> OtgHidFunctions" where
  "constrained_otg_functions c = effective_otg_functions c"

definition validate_otg_functions :: "HidConfig \<Rightarrow> unit app_result" where
  "validate_otg_functions c =
     (if hcfg_backend c \<noteq> HidOtg then Inr ()
      else if hf_is_empty (effective_otg_functions c) then Inl (BadRequest ''OTG HID functions cannot be empty'')
      else Inr ())"

text \<open>The device nodes of the HID functions (\<open>src/otg/service.rs\<close>).\<close>

record HidDevicePaths =
  hp_keyboard :: "string option"
  hp_mouse_relative :: "string option"
  hp_mouse_absolute :: "string option"
  hp_consumer :: "string option"
  hp_udc :: "string option"
  hp_keyboard_leds_enabled :: bool

section \<open>Network function\<close>

datatype OtgNetworkDriverMode = Ncm | Ecm | Rndis

primrec function_name :: "OtgNetworkDriverMode \<Rightarrow> string" where
  "function_name Ncm = ''ncm''"
| "function_name Ecm = ''ecm''"
| "function_name Rndis = ''rndis''"

record OtgNetworkConfig =
  nc_enabled :: bool
  nc_driver_mode :: OtgNetworkDriverMode
  nc_bridge_interface :: string
  nc_host_mac :: string
  nc_device_mac :: string

definition OtgNetworkConfig_default :: OtgNetworkConfig where
  "OtgNetworkConfig_default =
     \<lparr>nc_enabled = False, nc_driver_mode = Ncm, nc_bridge_interface = [], nc_host_mac = [], nc_device_mac = []\<rparr>"

text \<open>\<open>str::split\<close> at a character: one part more than there are separators.\<close>

fun split_at_char :: "char \<Rightarrow> string \<Rightarrow> string list" where
  "split_at_char sep [] = [[]]"
| "split_at_char sep (c # s) =
     (if c = sep then [] # split_at_char sep s
      else case split_at_char sep s of [] \<Rightarrow> [[c]] | p # ps \<Rightarrow> (c # p) # ps)"

text \<open>\<open>u8::from_str_radix\<close> at base 16: an optional plus sign, digits, no overflow.\<close>

definition hex_digit :: "char \<Rightarrow> nat option" where
  "hex_digit c =
     (let n = (of_char c :: nat) in
      if 48 \<le> n \<and> n \<le> 57 then Some (n - 48)
      else if 65 \<le> n \<and> n \<le> 70 then Some (n - 55)
      else if 97 \<le> n \<and> n \<le> 102 then Some (n - 87)
      else None)"

fun hex_value :: "nat \<Rightarrow> string \<Rightarrow> nat option" where
  "hex_value acc [] = Some acc"
| "hex_value acc (c # s) =
     (case hex_digit c of
        None \<Rightarrow> None
      | Some d \<Rightarrow> if acc * 16 + d \<le> 255 then hex_value (acc * 16 + d) s else None)"

definition u8_from_hex :: "string \<Rightarrow> nat option" where
  "u8_from_hex s =
     (let digits = (case s of c # rest \<Rightarrow> if c = CHR ''+'' then rest else s | [] \<Rightarrow> [])
      in if digits = [] then None else hex_value 0 digits)"

fun collect_options :: "'a option list \<Rightarrow> 'a list option" where
  "collect_options [] = Some []"
| "collect_options (None # xs) = None"
| "collect_options (Some x # xs) = map_option ((#) x) (collect_options xs)"

definition mac_octets :: "string \<Rightarrow> nat list option" where
  "mac_octets value = collect_options (map u8_from_hex (split_at_char CHR '':'' value))"

definition is_valid_unicast_mac :: "string \<Rightarrow> bool" where
  "is_valid_unicast_mac value =
     (case mac_octets value of
        Some bs \<Rightarrow> length bs = 6 \<and> (of_nat (bs ! 0) :: u8) AND 0x03 = 0x02
      | None \<Rightarrow> False)"

definition ascii_lower :: "char \<Rightarrow> char" where
  "ascii_lower c = (let n = (of_char c :: nat) in if 65 \<le> n \<and> n \<le> 90 then char_of (n + 32) else c)"

definition mac_check :: "string \<Rightarrow> string \<Rightarrow> unit app_result" where
  "mac_check name value =
     (if value \<noteq> [] \<and> \<not> is_valid_unicast_mac value
      then Inl (BadRequest (''OTG network '' @ name @ '' must be a locally administered unicast MAC address''))
      else Inr ())"

definition validate_network :: "OtgNetworkConfig \<Rightarrow> unit app_result" where
  "validate_network c =
     (case mac_check ''host_mac'' (nc_host_mac c) of
        Inl e \<Rightarrow> Inl e
      | Inr _ \<Rightarrow>
          case mac_check ''device_mac'' (nc_device_mac c) of
            Inl e \<Rightarrow> Inl e
          | Inr _ \<Rightarrow>
              if nc_host_mac c \<noteq> [] \<and> nc_device_mac c \<noteq> [] \<and>
                 map ascii_lower (nc_host_mac c) = map ascii_lower (nc_device_mac c)
              then Inl (BadRequest ''OTG network host_mac and device_mac must be different'')
              else if CHR ''/'' \<in> set (nc_bridge_interface c) \<or> CHR 0x00 \<in> set (nc_bridge_interface c)
              then Inl (BadRequest ''Invalid OTG network bridge interface'')
              else Inr ())"

section \<open>Audio function\<close>

record UacConfig =
  uac_enabled :: bool
  uac_sample_rate :: u32
  uac_channels :: u8

definition UacConfig_default :: UacConfig where
  "UacConfig_default = \<lparr>uac_enabled = False, uac_sample_rate = 48000, uac_channels = 2\<rparr>"

definition validate_uac :: "UacConfig \<Rightarrow> unit app_result" where
  "validate_uac c =
     (if \<not> uac_enabled c then Inr ()
      else if uac_sample_rate c \<noteq> 48000 then
        Inl (BadRequest (''unsupported UAC sample rate '' @ dec_of_nat (unat (uac_sample_rate c)) @ '' (expected 48000)''))
      else if uac_channels c \<noteq> 2 then
        Inl (BadRequest (''unsupported UAC channel count '' @ dec_of_nat (unat (uac_channels c)) @ '' (expected 2)''))
      else Inr ())"

section \<open>Mass storage function\<close>

record MsdConfig =
  mc_enabled :: bool
  mc_msd_dir :: string
  mc_flash_inquiry_string :: string
  mc_cdrom_inquiry_string :: string

definition DEFAULT_FLASH_INQUIRY_STRING :: string where "DEFAULT_FLASH_INQUIRY_STRING = ''One-KVM Virtual Flash''"
definition DEFAULT_CDROM_INQUIRY_STRING :: string where "DEFAULT_CDROM_INQUIRY_STRING = ''One-KVM Virtual CD-ROM''"
definition MAX_INQUIRY_STRING_BYTES :: nat where "MAX_INQUIRY_STRING_BYTES = 28"

definition MsdConfig_default :: MsdConfig where
  "MsdConfig_default =
     \<lparr>mc_enabled = True, mc_msd_dir = [], mc_flash_inquiry_string = DEFAULT_FLASH_INQUIRY_STRING,
      mc_cdrom_inquiry_string = DEFAULT_CDROM_INQUIRY_STRING\<rparr>"

definition printable :: "char \<Rightarrow> bool" where
  "printable c \<longleftrightarrow> 0x20 \<le> (of_char c :: nat) \<and> (of_char c :: nat) \<le> 0x7e"

definition validate_inquiry_string :: "string \<Rightarrow> string \<Rightarrow> unit app_result" where
  "validate_inquiry_string kind value =
     (let v = trim value in
      if v = [] then Inl (BadRequest (''MSD '' @ kind @ '' inquiry string cannot be empty''))
      else if length v > MAX_INQUIRY_STRING_BYTES then
        Inl (BadRequest (''MSD '' @ kind @ '' inquiry string must be at most 28 bytes''))
      else if \<not> list_all printable v then
        Inl (BadRequest (''MSD '' @ kind @ '' inquiry string must contain printable ASCII characters only''))
      else Inr ())"

definition validate_msd :: "MsdConfig \<Rightarrow> unit app_result" where
  "validate_msd c =
     (case validate_inquiry_string ''Flash'' (mc_flash_inquiry_string c) of
        Inl e \<Rightarrow> Inl e
      | Inr _ \<Rightarrow> validate_inquiry_string ''CD-ROM'' (mc_cdrom_inquiry_string c))"

end
