(* ===== verification/OtgBackend.thy ===== *)
theory OtgBackend
  imports HidController UsbConfig
begin

text \<open>
  The USB gadget backend (\<open>src/hid/otg.rs\<close>, \<open>src/hid/otg_device.rs\<close>, \<open>src/hid/factory.rs\<close>): reports
  written to the \<open>/dev/hidg*\<close> nodes, their opening and reopening, the runtime state and the
  monitor thread that reads the keyboard LEDs.  What the kernel answers is a script in the
  state (\<open>otg_os\<close>): the answers of the next calls of \<open>exists\<close>, \<open>open\<close>, \<open>poll\<close> and \<open>write\<close>, with
  the undisturbed answer once a script is used up, so a theorem about all states is a theorem
  about every behaviour of the kernel.  \<open>os_accepted\<close> records the reports the kernel took.
  The event worker of the controller is the only caller of the sending methods, and the
  monitor touches only the LEDs and the controller name, so each method is one step.
  Log lines are not part of the state.
\<close>

unbundle bit_operations_syntax

section \<open>Devices\<close>

datatype DeviceType = KeyboardDev | MouseRelative | MouseAbsolute | ConsumerControl

text \<open>An I/O error has an error number of the system or none, and a text.\<close>

datatype IoError = OsError int string | OtherError string

primrec raw_os_error :: "IoError \<Rightarrow> int option" where
  "raw_os_error (OsError n t) = Some n"
| "raw_os_error (OtherError t) = None"

primrec io_error_fmt :: "IoError \<Rightarrow> string" where
  "io_error_fmt (OsError n t) = t"
| "io_error_fmt (OtherError t) = t"

datatype poll_answer = PollReady bool | PollTimeout | PollOther | PollError string

datatype write_answer = WroteN nat | WInterrupted | WError IoError

record otg_os =
  os_exists :: "bool list"
  os_opens :: "string option list"
  os_polls :: "poll_answer list"
  os_writes :: "write_answer list"
  os_accepted :: "(DeviceType \<times> bytes) list"

definition os_quiet :: otg_os where
  "os_quiet = \<lparr>os_exists = [], os_opens = [], os_polls = [], os_writes = [], os_accepted = []\<rparr>"

text \<open>\<open>Write::write_all\<close> of the standard library: the pieces the kernel took, the outcome, and
  the rest of the script.\<close>

fun write_all :: "write_answer list \<Rightarrow> bytes \<Rightarrow> bytes list \<times> (IoError + unit) \<times> write_answer list" where
  "write_all ws [] = ([], Inr (), ws)"
| "write_all [] buf = ([buf], Inr (), [])"
| "write_all (WInterrupted # ws) buf = write_all ws buf"
| "write_all (WError e # ws) buf = ([], Inl e, ws)"
| "write_all (WroteN n # ws) buf =
     (if n = 0 then ([], Inl (OtherError ''failed to write whole buffer''), ws)
      else case write_all ws (drop n buf) of (taken, r, ws') \<Rightarrow> (take n buf # taken, r, ws'))"

definition write_with_timeout :: "DeviceType \<Rightarrow> bytes \<Rightarrow> otg_os \<Rightarrow> (IoError + bool) \<times> otg_os" where
  "write_with_timeout dt data os =
     (let (answer, polls) = (case os_polls os of [] \<Rightarrow> (PollReady False, []) | p # ps \<Rightarrow> (p, ps));
          os = os\<lparr>os_polls := polls\<rparr>
      in case answer of
           PollReady True \<Rightarrow> (Inl (OtherError ''Device error or hangup''), os)
         | PollReady False \<Rightarrow>
             (case write_all (os_writes os) data of (taken, r, ws) \<Rightarrow>
                (map_sum id (\<lambda>_. True) r,
                 os\<lparr>os_writes := ws, os_accepted := os_accepted os @ map (Pair dt) taken\<rparr>))
         | PollTimeout \<Rightarrow> (Inr False, os)
         | PollOther \<Rightarrow> (Inr False, os)
         | PollError t \<Rightarrow> (Inl (OtherError t), os))"

section \<open>The backend\<close>

definition LedState_from_byte :: "u8 \<Rightarrow> LedState" where
  "LedState_from_byte b =
     \<lparr>lst_num_lock = (b AND 0x01 \<noteq> 0), lst_caps_lock = (b AND 0x02 \<noteq> 0), lst_scroll_lock = (b AND 0x04 \<noteq> 0),
      lst_compose = (b AND 0x08 \<noteq> 0), lst_kana = (b AND 0x10 \<noteq> 0)\<rparr>"

definition LedState_to_byte :: "LedState \<Rightarrow> u8" where
  "LedState_to_byte l =
     (let b = 0;
          b = (if lst_num_lock l then b OR 0x01 else b);
          b = (if lst_caps_lock l then b OR 0x02 else b);
          b = (if lst_scroll_lock l then b OR 0x04 else b);
          b = (if lst_compose l then b OR 0x08 else b);
          b = (if lst_kana l then b OR 0x10 else b)
      in b)"

text \<open>A device is a path and whether the node is open; a handle is not looked into.\<close>

record OtgBackend =
  ob_keyboard_path :: "string option"
  ob_mouse_rel_path :: "string option"
  ob_mouse_abs_path :: "string option"
  ob_consumer_path :: "string option"
  ob_keyboard_dev :: bool
  ob_mouse_rel_dev :: bool
  ob_mouse_abs_dev :: bool
  ob_consumer_dev :: bool
  ob_keyboard_leds_enabled :: bool
  ob_keyboard_state :: KeyboardReport
  ob_mouse_buttons :: u8
  ob_led_state :: LedState
  ob_screen_resolution :: "(u32 \<times> u32) option"
  ob_udc_name :: "string option"
  ob_initialized :: bool
  ob_online :: bool
  ob_last_error :: "(string \<times> string) option"
  ob_last_error_log :: nat
  ob_error_count :: u8
  ob_notified :: nat
  ob_worker_stop :: bool
  ob_worker :: bool
  ob_os :: otg_os

type_synonym 'a otg = "(OtgBackend, 'a) sx"

definition from_handles :: "nat \<Rightarrow> HidDevicePaths \<Rightarrow> otg_os \<Rightarrow> OtgBackend" where
  "from_handles now paths os =
     \<lparr>ob_keyboard_path = hp_keyboard paths, ob_mouse_rel_path = hp_mouse_relative paths,
      ob_mouse_abs_path = hp_mouse_absolute paths, ob_consumer_path = hp_consumer paths,
      ob_keyboard_dev = False, ob_mouse_rel_dev = False, ob_mouse_abs_dev = False, ob_consumer_dev = False,
      ob_keyboard_leds_enabled = hp_keyboard_leds_enabled paths,
      ob_keyboard_state = default_report, ob_mouse_buttons = 0, ob_led_state = LedState_default,
      ob_screen_resolution = Some (1920, 1080), ob_udc_name = hp_udc paths, ob_initialized = False,
      ob_online = False, ob_last_error = None, ob_last_error_log = now, ob_error_count = 0,
      ob_notified = 0, ob_worker_stop = False, ob_worker = False, ob_os = os\<rparr>"

definition notify_runtime_changed :: "OtgBackend \<Rightarrow> OtgBackend" where
  "notify_runtime_changed b = b\<lparr>ob_notified := ob_notified b + 1\<rparr>"

definition otg_clear_error :: "OtgBackend \<Rightarrow> OtgBackend" where
  "otg_clear_error b =
     (if ob_last_error b \<noteq> None then notify_runtime_changed (b\<lparr>ob_last_error := None\<rparr>) else b)"

definition otg_record_error :: "string \<Rightarrow> string \<Rightarrow> OtgBackend \<Rightarrow> OtgBackend" where
  "otg_record_error reason code b =
     (let was_online = ob_online b;
          changed = (ob_last_error b \<noteq> Some (reason, code));
          b = b\<lparr>ob_online := False, ob_last_error := Some (reason, code)\<rparr>
      in if was_online \<or> changed then notify_runtime_changed b else b)"

definition mark_online :: "OtgBackend \<Rightarrow> OtgBackend" where
  "mark_online b =
     (let was_online = ob_online b;
          cleared_error = (ob_last_error b \<noteq> None);
          b = b\<lparr>ob_online := True, ob_last_error := None\<rparr>
      in if \<not> was_online \<or> cleared_error then notify_runtime_changed b else b)"

text \<open>The clock counts seconds; the counter wraps.\<close>

definition log_throttled_error :: "nat \<Rightarrow> OtgBackend \<Rightarrow> OtgBackend" where
  "log_throttled_error now b =
     (if now - ob_last_error_log b \<ge> 1 then b\<lparr>ob_error_count := 0, ob_last_error_log := now\<rparr>
      else b\<lparr>ob_error_count := ob_error_count b + 1\<rparr>)"

definition reset_error_count :: "OtgBackend \<Rightarrow> OtgBackend" where
  "reset_error_count b = b\<lparr>ob_error_count := 0\<rparr>"

definition set_udc_name :: "string \<Rightarrow> OtgBackend \<Rightarrow> OtgBackend" where
  "set_udc_name udc b = b\<lparr>ob_udc_name := Some udc\<rparr>"

text \<open>What \<open>/sys/class/udc\<close> shows: the first controller, and the content of a state file.\<close>

record udc_env =
  udc_found :: "string option"
  udc_state :: "string \<Rightarrow> string option"

definition to_lowercase :: "string \<Rightarrow> string" where
  "to_lowercase = map (\<lambda>c. if 65 \<le> (of_char c :: nat) \<and> (of_char c :: nat) \<le> 90
     then char_of ((of_char c :: nat) + 32) else c)"

definition read_udc_configured :: "udc_env \<Rightarrow> string option \<Rightarrow> bool \<times> string option" where
  "read_udc_configured env udc_name =
     (let current_udc = (case udc_name of Some u \<Rightarrow> Some u | None \<Rightarrow> udc_found env)
      in case current_udc of
           Some udc \<Rightarrow>
             (case udc_state env udc of
                Some content \<Rightarrow> (to_lowercase (trim content) = ''configured'', Some udc)
              | None \<Rightarrow> (True, Some udc))
         | None \<Rightarrow> (True, None))"

definition is_udc_configured :: "udc_env \<Rightarrow> OtgBackend \<Rightarrow> bool \<times> OtgBackend" where
  "is_udc_configured env b =
     (case read_udc_configured env (ob_udc_name b) of (r, u) \<Rightarrow> (r, b\<lparr>ob_udc_name := u\<rparr>))"

section \<open>Opening devices\<close>

primrec dev_path :: "DeviceType \<Rightarrow> OtgBackend \<Rightarrow> string option" where
  "dev_path KeyboardDev b = ob_keyboard_path b"
| "dev_path MouseRelative b = ob_mouse_rel_path b"
| "dev_path MouseAbsolute b = ob_mouse_abs_path b"
| "dev_path ConsumerControl b = ob_consumer_path b"

primrec dev_open :: "DeviceType \<Rightarrow> OtgBackend \<Rightarrow> bool" where
  "dev_open KeyboardDev b = ob_keyboard_dev b"
| "dev_open MouseRelative b = ob_mouse_rel_dev b"
| "dev_open MouseAbsolute b = ob_mouse_abs_dev b"
| "dev_open ConsumerControl b = ob_consumer_dev b"

primrec set_dev :: "DeviceType \<Rightarrow> bool \<Rightarrow> OtgBackend \<Rightarrow> OtgBackend" where
  "set_dev KeyboardDev v b = b\<lparr>ob_keyboard_dev := v\<rparr>"
| "set_dev MouseRelative v b = b\<lparr>ob_mouse_rel_dev := v\<rparr>"
| "set_dev MouseAbsolute v b = b\<lparr>ob_mouse_abs_dev := v\<rparr>"
| "set_dev ConsumerControl v b = b\<lparr>ob_consumer_dev := v\<rparr>"

definition path_exists :: "bool otg" where
  "path_exists b =
     (case os_exists (ob_os b) of
        [] \<Rightarrow> (Inr True, b)
      | x # xs \<Rightarrow> (Inr x, b\<lparr>ob_os := (ob_os b)\<lparr>os_exists := xs\<rparr>\<rparr>))"

definition open_device :: "string \<Rightarrow> unit otg" where
  "open_device path b =
     (case os_opens (ob_os b) of
        [] \<Rightarrow> (Inr (), b)
      | x # xs \<Rightarrow>
          ((case x of None \<Rightarrow> Inr ()
            | Some e \<Rightarrow> Inl (Internal (''Failed to open HID device '' @ path @ '': '' @ e))),
           b\<lparr>ob_os := (ob_os b)\<lparr>os_opens := xs\<rparr>\<rparr>))"

definition ensure_device :: "DeviceType \<Rightarrow> unit otg" where
  "ensure_device dt b =
     (case dev_path dt b of
        None \<Rightarrow> (Inl (HidError ''otg'' ''Device disabled'' ''disabled''),
                 otg_record_error ''Device disabled'' ''disabled'' b)
      | Some path \<Rightarrow>
          sx_bind path_exists (\<lambda>found b.
            if \<not> found then
              (let b = (if dev_open dt b then set_dev dt False b else b);
                   reason = ''Device not found: '' @ path
               in (Inl (HidError ''otg'' reason ''enoent''), otg_record_error reason ''enoent'' b))
            else if \<not> dev_open dt b then
              (case open_device path b of
                 (Inr _, b) \<Rightarrow> (Inr (), mark_online (set_dev dt True b))
               | (Inl e, b) \<Rightarrow>
                   (Inl e, otg_record_error
                      (''Failed to reopen HID device '' @ path @ '': '' @ AppError_fmt e) ''not_opened'' b))
            else (Inr (), mark_online b)) b)"

definition io_error_code :: "IoError \<Rightarrow> string" where
  "io_error_code e =
     (case raw_os_error e of
        None \<Rightarrow> ''io_error''
      | Some n \<Rightarrow>
          if n = 32 then ''epipe'' else if n = 108 then ''eshutdown'' else if n = 11 then ''eagain''
          else if n = 6 then ''enxio'' else if n = 19 then ''enodev'' else if n = 5 then ''eio''
          else if n = 2 then ''enoent'' else ''io_error'')"

definition io_error_to_hid_error :: "IoError \<Rightarrow> string \<Rightarrow> AppError" where
  "io_error_to_hid_error e operation =
     HidError ''otg'' (operation @ '': '' @ io_error_fmt e) (io_error_code e)"

definition handle_write_error :: "DeviceType \<Rightarrow> IoError \<Rightarrow> string \<Rightarrow> unit otg" where
  "handle_write_error dt err operation b =
     (if raw_os_error err = Some 108 then
        (Inl (io_error_to_hid_error err operation),
         otg_record_error (operation @ '': '' @ io_error_fmt err) ''eshutdown'' (set_dev dt False b))
      else if raw_os_error err = Some 11 then (Inr (), b)
      else
        (Inl (io_error_to_hid_error err operation),
         otg_record_error (operation @ '': '' @ io_error_fmt err) (io_error_code err) b))"

definition os_write :: "DeviceType \<Rightarrow> bytes \<Rightarrow> OtgBackend \<Rightarrow> (IoError + bool) \<times> OtgBackend" where
  "os_write dt data b =
     (case write_with_timeout dt data (ob_os b) of (r, os) \<Rightarrow> (r, b\<lparr>ob_os := os\<rparr>))"

text \<open>The four report methods are one pattern: the reading of \<open>Ok(false)\<close>, of the other
  errors, and what follows a success, are arguments.\<close>

definition send_report_to :: "DeviceType \<Rightarrow> bytes \<Rightarrow> string \<Rightarrow> string \<Rightarrow> (OtgBackend \<Rightarrow> OtgBackend)
    \<Rightarrow> (OtgBackend \<Rightarrow> OtgBackend) \<Rightarrow> unit otg" where
  "send_report_to dt data operation not_opened after dropped b =
     (if dev_path dt b = None then (Inr (), b)
      else
        sx_bind (ensure_device dt) (\<lambda>_ b.
          if dev_open dt b then
            (case os_write dt data b of
               (Inr True, b) \<Rightarrow> (Inr (), reset_error_count (mark_online (after b)))
             | (Inr False, b) \<Rightarrow> (Inr (), dropped b)
             | (Inl e, b) \<Rightarrow> handle_write_error dt e operation b)
          else (Inl (HidError ''otg'' not_opened ''not_opened''), b)) b)"

definition otg_send_keyboard_report :: "nat \<Rightarrow> KeyboardReport \<Rightarrow> unit otg" where
  "otg_send_keyboard_report now report =
     send_report_to KeyboardDev (report_to_bytes report) ''Failed to write keyboard report''
       ''Keyboard device not opened'' id (log_throttled_error now)"

definition send_mouse_report_relative :: "u8 \<Rightarrow> u8 \<Rightarrow> u8 \<Rightarrow> u8 \<Rightarrow> unit otg" where
  "send_mouse_report_relative buttons dx dy wheel =
     send_report_to MouseRelative [buttons, dx, dy, wheel] ''Failed to write mouse report''
       ''Relative mouse device not opened'' id id"

definition send_mouse_report_absolute :: "u8 \<Rightarrow> u16 \<Rightarrow> u16 \<Rightarrow> u8 \<Rightarrow> unit otg" where
  "send_mouse_report_absolute buttons x y wheel =
     send_report_to MouseAbsolute
       [buttons, ucast (x AND 0xFF), ucast (drop_bit 8 x), ucast (y AND 0xFF), ucast (drop_bit 8 y), wheel]
       ''Failed to write mouse report'' ''Absolute mouse device not opened'' id id"

definition send_consumer_report :: "u16 \<Rightarrow> unit otg" where
  "send_consumer_report usage =
     send_report_to ConsumerControl [ucast (usage AND 0xFF), ucast (drop_bit 8 usage)]
       ''Failed to write consumer report'' ''Consumer control device not opened''
       (\<lambda>b. snd (os_write ConsumerControl [0, 0] b)) id"

section \<open>Runtime state\<close>

definition configured_paths :: "OtgBackend \<Rightarrow> string list" where
  "configured_paths b =
     concat (map (\<lambda>p. case p of Some q \<Rightarrow> [q] | None \<Rightarrow> [])
       [ob_keyboard_path b, ob_mouse_rel_path b, ob_mouse_abs_path b, ob_consumer_path b])"

text \<open>A snapshot asks the file system several times; the answers are those of one moment.\<close>

definition check_devices_exist :: "(string \<Rightarrow> bool) \<Rightarrow> OtgBackend \<Rightarrow> bool" where
  "check_devices_exist present b \<longleftrightarrow>
     (case ob_keyboard_path b of None \<Rightarrow> True | Some p \<Rightarrow> present p) \<and>
     (case ob_mouse_rel_path b of None \<Rightarrow> True | Some p \<Rightarrow> present p) \<and>
     (case ob_mouse_abs_path b of None \<Rightarrow> True | Some p \<Rightarrow> present p) \<and>
     (case ob_consumer_path b of None \<Rightarrow> True | Some p \<Rightarrow> present p)"

definition get_missing_devices :: "(string \<Rightarrow> bool) \<Rightarrow> OtgBackend \<Rightarrow> string list" where
  "get_missing_devices present b =
     (let missing = (\<lambda>p. case p of None \<Rightarrow> [] | Some path \<Rightarrow> if present path then [] else [path])
      in missing (ob_keyboard_path b) @ missing (ob_mouse_rel_path b) @ missing (ob_mouse_abs_path b))"

fun join_strings :: "string \<Rightarrow> string list \<Rightarrow> string" where
  "join_strings sep [] = []"
| "join_strings sep [x] = x"
| "join_strings sep (x # xs) = x @ sep @ join_strings sep xs"

definition build_runtime_snapshot ::
  "(string \<Rightarrow> bool) \<Rightarrow> udc_env \<Rightarrow> OtgBackend \<Rightarrow> HidBackendRuntimeSnapshot \<times> OtgBackend" where
  "build_runtime_snapshot present env b =
     (let init = ob_initialized b;
          on = (init \<and> ob_online b);
          err = ob_last_error b;
          (on, err, b) =
            (if init \<and> \<not> check_devices_exist present b then
               (False, Some (''HID device node missing: '' @ join_strings '', '' (get_missing_devices present b), ''enoent''), b)
             else if init then
               (case is_udc_configured env b of
                  (True, b) \<Rightarrow> (on, err, b)
                | (False, b) \<Rightarrow> (False, Some (''UDC is not in configured state'', ''udc_not_configured''), b))
             else (on, err, b))
      in (\<lparr>snap_initialized = init, snap_online = on,
           supports_absolute_mouse = (case ob_mouse_abs_path b of None \<Rightarrow> False | Some p \<Rightarrow> present p),
           keyboard_leds_enabled = ob_keyboard_leds_enabled b, led_state = ob_led_state b,
           snap_resolution = ob_screen_resolution b, snap_device = ob_udc_name b,
           snap_error = map_option fst err, snap_error_code = map_option snd err\<rparr>, b))"

definition otg_set_screen_resolution :: "u32 \<Rightarrow> u32 \<Rightarrow> OtgBackend \<Rightarrow> OtgBackend" where
  "otg_set_screen_resolution width height b =
     notify_runtime_changed (b\<lparr>ob_screen_resolution := Some (width, height)\<rparr>)"

section \<open>The monitor thread\<close>

datatype led_poll = LedTimeout | LedNoEvents | LedEvents bool bool | LedPollFailed

datatype led_read = LedByte u8 | LedShort | LedWouldBlock | LedReadFailed

text \<open>The events of a successful poll are whether an error or a hang-up is among them, and
  whether input is.  \<open>open_fails\<close> is the answer of \<open>open\<close>, asked only when no file is open.  The
  result says whether something changed.\<close>

definition poll_keyboard_led_once :: "bool \<Rightarrow> led_poll \<Rightarrow> led_read \<Rightarrow> bool \<times> LedState \<Rightarrow> bool \<times> bool \<times> LedState" where
  "poll_keyboard_led_once open_fails answer input st =
     (case st of (file, leds) \<Rightarrow>
        if \<not> file \<and> open_fails then (False, False, leds)
        else
          (case answer of
             LedTimeout \<Rightarrow> (False, True, leds)
           | LedNoEvents \<Rightarrow> (False, True, leds)
           | LedEvents broken readable \<Rightarrow>
               if broken then (True, False, leds)
               else if \<not> readable then (False, True, leds)
               else
                 (case input of
                    LedByte x \<Rightarrow>
                      (let next = LedState_from_byte x
                       in if leds = next then (False, True, leds) else (True, True, next))
                  | LedShort \<Rightarrow> (False, True, leds)
                  | LedWouldBlock \<Rightarrow> (False, True, leds)
                  | LedReadFailed \<Rightarrow> (True, False, leds))
           | LedPollFailed \<Rightarrow> (True, False, leds)))"

text \<open>The locals of the monitor's loop.\<close>

record otg_monitor =
  mon_last_configured :: "bool option"
  mon_led_file :: bool

definition monitor_start :: "udc_env \<Rightarrow> OtgBackend \<Rightarrow> otg_monitor \<times> OtgBackend" where
  "monitor_start env b =
     (case is_udc_configured env b of (c, b) \<Rightarrow>
        (\<lparr>mon_last_configured = Some c, mon_led_file = False\<rparr>, b))"

definition monitor_step ::
  "udc_env \<Rightarrow> bool \<Rightarrow> led_poll \<Rightarrow> led_read \<Rightarrow> otg_monitor \<Rightarrow> OtgBackend \<Rightarrow> otg_monitor \<times> OtgBackend" where
  "monitor_step env open_fails answer input m b =
     (let (configured, b) = is_udc_configured env b;
          changed = (mon_last_configured m \<noteq> Some configured);
          m = m\<lparr>mon_last_configured := Some configured\<rparr>;
          (changed, m, b) =
            (if ob_keyboard_leds_enabled b \<and> configured then
               (if ob_keyboard_path b \<noteq> None then
                  (case poll_keyboard_led_once open_fails answer input (mon_led_file m, ob_led_state b) of
                     (ch, file, leds) \<Rightarrow>
                       (changed \<or> ch, m\<lparr>mon_led_file := file\<rparr>, b\<lparr>ob_led_state := leds\<rparr>))
                else (changed, m, b))
             else (changed, m\<lparr>mon_led_file := False\<rparr>, b))
      in (m, if changed then notify_runtime_changed b else b))"

definition start_runtime_worker :: "bool \<Rightarrow> OtgBackend \<Rightarrow> OtgBackend" where
  "start_runtime_worker spawned b =
     (if ob_worker b then b else b\<lparr>ob_worker_stop := False, ob_worker := spawned\<rparr>)"

definition otg_stop_runtime_worker :: "OtgBackend \<Rightarrow> OtgBackend" where
  "otg_stop_runtime_worker b = b\<lparr>ob_worker_stop := True, ob_worker := False\<rparr>"

section \<open>The methods of the trait\<close>

fun all_exist :: "string list \<Rightarrow> bool otg" where
  "all_exist [] = sx_return True"
| "all_exist (p # ps) = sx_bind path_exists (\<lambda>found. if found then all_exist ps else sx_return False)"

text \<open>\<open>rounds\<close> is how often the loop comes around before the deadline.\<close>

fun wait_for_hid_devices :: "nat \<Rightarrow> string list \<Rightarrow> bool otg" where
  "wait_for_hid_devices 0 device_paths = sx_return False"
| "wait_for_hid_devices (Suc rounds) device_paths =
     sx_bind (all_exist device_paths) (\<lambda>found.
       if found then sx_return True else wait_for_hid_devices rounds device_paths)"

definition init_device :: "DeviceType \<Rightarrow> unit otg" where
  "init_device dt b =
     (case dev_path dt b of
        None \<Rightarrow> (Inr (), b)
      | Some path \<Rightarrow>
          sx_bind path_exists (\<lambda>found.
            if found then sx_bind (open_device path) (\<lambda>_. sx_update (set_dev dt True))
            else sx_return ()) b)"

definition otg_init :: "string option \<Rightarrow> nat \<Rightarrow> bool \<Rightarrow> unit otg" where
  "otg_init found_udc rounds spawned =
     sx_bind (sx_update (\<lambda>b.
        if ob_udc_name b = None then (case found_udc of Some udc \<Rightarrow> set_udc_name udc b | None \<Rightarrow> b) else b)) (\<lambda>_.
     sx_bind (sx_read configured_paths) (\<lambda>device_paths.
       if device_paths = [] then sx_fail (Internal ''No HID devices configured for OTG backend'')
       else
         sx_bind (wait_for_hid_devices rounds device_paths) (\<lambda>appeared.
           if \<not> appeared then sx_fail (Internal ''HID devices did not appear'')
           else
             sx_bind (init_device KeyboardDev) (\<lambda>_.
             sx_bind (init_device MouseRelative) (\<lambda>_.
             sx_bind (init_device MouseAbsolute) (\<lambda>_.
             sx_bind (init_device ConsumerControl) (\<lambda>_.
             sx_update (\<lambda>b.
               mark_online (start_runtime_worker spawned
                 (notify_runtime_changed (b\<lparr>ob_initialized := True\<rparr>)))))))))))"

definition apply_key :: "KeyboardEvent \<Rightarrow> KeyboardReport \<Rightarrow> KeyboardReport" where
  "apply_key event state =
     (if is_modifier (kb_key event) then
        (case modifier_bit (kb_key event) of
           Some m \<Rightarrow>
             (case kb_event_type event of
                KeyDown \<Rightarrow> state\<lparr>modifiers := modifiers state OR m\<rparr>
              | KeyUp \<Rightarrow> state\<lparr>modifiers := modifiers state AND NOT m\<rparr>)
         | None \<Rightarrow> state)
      else
        (let state = state\<lparr>modifiers := to_hid_byte (kb_modifiers event)\<rparr>
         in case kb_event_type event of
              KeyDown \<Rightarrow> fst (add_key state (to_hid_usage (kb_key event)))
            | KeyUp \<Rightarrow> remove_key state (to_hid_usage (kb_key event))))"

definition otg_send_keyboard :: "nat \<Rightarrow> KeyboardEvent \<Rightarrow> unit otg" where
  "otg_send_keyboard now event b =
     (let report = apply_key event (ob_keyboard_state b)
      in otg_send_keyboard_report now report (b\<lparr>ob_keyboard_state := report\<rparr>))"

definition otg_send_mouse :: "MouseEvent \<Rightarrow> unit otg" where
  "otg_send_mouse event b =
     (let buttons = ob_mouse_buttons b in
      case ms_event_type event of
        MouseMove \<Rightarrow> send_mouse_report_relative buttons (clamp_i8 (ms_x event)) (clamp_i8 (ms_y event)) 0 b
      | MouseMoveAbs \<Rightarrow>
          send_mouse_report_absolute 0 (word_of_int (clamp_i32 0 32767 (ms_x event)))
            (word_of_int (clamp_i32 0 32767 (ms_y event))) 0 b
      | MouseDown \<Rightarrow>
          (case ms_button event of
             None \<Rightarrow> (Inr (), b)
           | Some button \<Rightarrow>
               (let new_buttons = buttons OR to_hid_bit button
                in send_mouse_report_relative new_buttons 0 0 0 (b\<lparr>ob_mouse_buttons := new_buttons\<rparr>)))
      | MouseUp \<Rightarrow>
          (case ms_button event of
             None \<Rightarrow> (Inr (), b)
           | Some button \<Rightarrow>
               (let new_buttons = buttons AND NOT (to_hid_bit button)
                in send_mouse_report_relative new_buttons 0 0 0 (b\<lparr>ob_mouse_buttons := new_buttons\<rparr>)))
      | MouseScroll \<Rightarrow> send_mouse_report_relative buttons 0 0 (ms_scroll event) b)"

definition otg_send_consumer :: "ConsumerEvent \<Rightarrow> unit otg" where
  "otg_send_consumer event = send_consumer_report (consumer_usage event)"

definition otg_reset :: "nat \<Rightarrow> unit otg" where
  "otg_reset now b =
     (let report = clear_report (ob_keyboard_state b) in
      sx_bind (otg_send_keyboard_report now report) (\<lambda>_.
      sx_bind (sx_update (\<lambda>b. b\<lparr>ob_mouse_buttons := 0\<rparr>)) (\<lambda>_.
      sx_bind (send_mouse_report_relative 0 0 0 0) (\<lambda>_.
      send_mouse_report_absolute 0 0 0 0))) (b\<lparr>ob_keyboard_state := report\<rparr>))"

definition close_devices :: "OtgBackend \<Rightarrow> OtgBackend" where
  "close_devices b =
     b\<lparr>ob_keyboard_dev := False, ob_mouse_rel_dev := False, ob_mouse_abs_dev := False, ob_consumer_dev := False\<rparr>"

definition otg_prepare_rebuild :: "unit otg" where
  "otg_prepare_rebuild b =
     (Inr (), notify_runtime_changed
        ((close_devices (otg_stop_runtime_worker b))\<lparr>ob_initialized := False, ob_online := False\<rparr>))"

definition otg_shutdown :: "nat \<Rightarrow> unit otg" where
  "otg_shutdown now =
     sx_bind (sx_update otg_stop_runtime_worker) (\<lambda>_.
     sx_bind (otg_reset now) (\<lambda>_.
     sx_update (\<lambda>b. notify_runtime_changed (otg_clear_error
       ((close_devices b)\<lparr>ob_initialized := False, ob_online := False\<rparr>)))))"

definition otg_drop :: "OtgBackend \<Rightarrow> OtgBackend" where
  "otg_drop b = close_devices (otg_stop_runtime_worker b)"

section \<open>The factory\<close>

text \<open>A backend of either kind, with the answers of its environment; the gadget's paths come
  from the gadget service when there is one.\<close>

datatype AnyBackend = OtgBackendOf OtgBackend | Ch9329BackendOf Ch9329Backend

definition create_otg_backend ::
  "nat \<Rightarrow> otg_os \<Rightarrow> HidDevicePaths option option \<Rightarrow> OtgBackend app_result" where
  "create_otg_backend now os otg_service =
     (case otg_service of
        None \<Rightarrow> Inl (Config ''OTG backend not available'')
      | Some None \<Rightarrow> Inl (Config ''OTG HID paths are not available'')
      | Some (Some paths) \<Rightarrow> Inr (from_handles now paths os))"

definition create_backend ::
  "nat \<Rightarrow> otg_os \<Rightarrow> HidDevicePaths option option \<Rightarrow> HidBackendType \<Rightarrow> AnyBackend option app_result" where
  "create_backend now os otg_service t =
     (case t of
        Otg \<Rightarrow> map_sum id (\<lambda>b. Some (OtgBackendOf b)) (create_otg_backend now os otg_service)
      | Ch9329 port baud_rate hybrid \<Rightarrow> Inr (Some (Ch9329BackendOf (with_options hybrid)))
      | BackendNone \<Rightarrow> Inr None)"

definition create_initialized ::
  "(AnyBackend \<Rightarrow> unit app_result \<times> AnyBackend) \<Rightarrow> nat \<Rightarrow> otg_os \<Rightarrow> HidDevicePaths option option
    \<Rightarrow> HidBackendType \<Rightarrow> AnyBackend option app_result" where
  "create_initialized init now os otg_service t =
     (case create_backend now os otg_service t of
        Inl e \<Rightarrow> Inl e
      | Inr None \<Rightarrow> Inr None
      | Inr (Some b) \<Rightarrow> (case init b of (Inl e, _) \<Rightarrow> Inl e | (Inr _, b) \<Rightarrow> Inr (Some b)))"

section \<open>What a report method does\<close>

lemmas otg_runtime_defs = notify_runtime_changed_def otg_clear_error_def otg_record_error_def mark_online_def
  log_throttled_error_def reset_error_count_def set_udc_name_def start_runtime_worker_def
  otg_stop_runtime_worker_def close_devices_def otg_set_screen_resolution_def

text \<open>What the methods that send leave alone: the report, the buttons, the configuration.\<close>

definition same_input :: "OtgBackend \<Rightarrow> OtgBackend \<Rightarrow> bool" where
  "same_input b b' \<longleftrightarrow> ob_keyboard_state b' = ob_keyboard_state b \<and> ob_mouse_buttons b' = ob_mouse_buttons b \<and>
     (\<forall>dt. dev_path dt b' = dev_path dt b) \<and> ob_initialized b' = ob_initialized b"

lemma same_input_refl [simp]: "same_input b b"
  by (simp add: same_input_def)

lemma same_input_trans: "same_input a b \<Longrightarrow> same_input b c \<Longrightarrow> same_input a c"
  by (simp add: same_input_def)

lemma dev_path_cases:
  "(\<forall>dt. dev_path dt b' = dev_path dt b) \<longleftrightarrow>
     ob_keyboard_path b' = ob_keyboard_path b \<and> ob_mouse_rel_path b' = ob_mouse_rel_path b \<and>
     ob_mouse_abs_path b' = ob_mouse_abs_path b \<and> ob_consumer_path b' = ob_consumer_path b"
  by (metis DeviceType.exhaust dev_path.simps)

lemma same_input_runtime [simp]:
  "same_input b (otg_record_error r c b') \<longleftrightarrow> same_input b b'"
  "same_input b (mark_online b') \<longleftrightarrow> same_input b b'"
  "same_input b (log_throttled_error n b') \<longleftrightarrow> same_input b b'"
  "same_input b (reset_error_count b') \<longleftrightarrow> same_input b b'"
  "same_input b (set_dev dt v b') \<longleftrightarrow> same_input b b'"
  "same_input b (b'\<lparr>ob_os := os\<rparr>) \<longleftrightarrow> same_input b b'"
  by (cases dt; simp add: same_input_def dev_path_cases otg_runtime_defs Let_def)+

lemma ob_os_runtime [simp]:
  "ob_os (otg_record_error r c b) = ob_os b" "ob_os (mark_online b) = ob_os b"
  "ob_os (log_throttled_error n b) = ob_os b" "ob_os (reset_error_count b) = ob_os b"
  "ob_os (set_dev dt v b) = ob_os b"
  by (cases dt; simp add: otg_runtime_defs Let_def)+

lemma dev_open_runtime [simp]:
  "dev_open dt (otg_record_error r c b) = dev_open dt b" "dev_open dt (mark_online b) = dev_open dt b"
  "dev_open dt (b\<lparr>ob_os := os\<rparr>) = dev_open dt b" "dev_open dt (log_throttled_error n b) = dev_open dt b"
  "dev_open dt (reset_error_count b) = dev_open dt b"
  "dev_open dt (set_dev d v b) = (if d = dt then v else dev_open dt b)"
  by (cases dt; cases d; simp add: otg_runtime_defs Let_def)+

lemma dev_path_runtime [simp]:
  "dev_path dt (otg_record_error r c b) = dev_path dt b" "dev_path dt (mark_online b) = dev_path dt b"
  "dev_path dt (b\<lparr>ob_os := os\<rparr>) = dev_path dt b" "dev_path dt (set_dev d v b) = dev_path dt b"
  "dev_path dt (log_throttled_error n b) = dev_path dt b" "dev_path dt (reset_error_count b) = dev_path dt b"
  by (cases dt; cases d; simp add: otg_runtime_defs Let_def)+

lemma runtime_flags [simp]:
  "ob_online (mark_online b)" "ob_last_error (mark_online b) = None"
  "\<not> ob_online (otg_record_error r c b)" "ob_last_error (otg_record_error r c b) = Some (r, c)"
  "ob_online (reset_error_count b) = ob_online b" "ob_last_error (reset_error_count b) = ob_last_error b"
  "ob_online (log_throttled_error n b) = ob_online b" "ob_last_error (log_throttled_error n b) = ob_last_error b"
  "ob_online (set_dev dt v b) = ob_online b" "ob_last_error (set_dev dt v b) = ob_last_error b"
  by (cases dt; simp add: otg_runtime_defs Let_def)+

lemma keyboard_state_runtime [simp]:
  "ob_keyboard_state (otg_record_error r c b) = ob_keyboard_state b" "ob_keyboard_state (mark_online b) = ob_keyboard_state b"
  "ob_keyboard_state (log_throttled_error n b) = ob_keyboard_state b"
  "ob_keyboard_state (reset_error_count b) = ob_keyboard_state b" "ob_keyboard_state (set_dev dt v b) = ob_keyboard_state b"
  by (cases dt; simp add: otg_runtime_defs Let_def)+

lemma dev_fields [simp]:
  "dev_open dt (b\<lparr>ob_keyboard_state := k\<rparr>) = dev_open dt b" "dev_path dt (b\<lparr>ob_keyboard_state := k\<rparr>) = dev_path dt b"
  "dev_open dt (b\<lparr>ob_mouse_buttons := m\<rparr>) = dev_open dt b" "dev_path dt (b\<lparr>ob_mouse_buttons := m\<rparr>) = dev_path dt b"
  by (cases dt; simp)+

lemma write_all_prefix:
  "write_all ws buf = (taken, r, ws') \<Longrightarrow>
     prefix (concat taken) buf \<and> (r = Inr () \<longrightarrow> concat taken = buf) \<and> (ws = [] \<longrightarrow> ws' = [] \<and> r = Inr ())"
proof (induction ws buf arbitrary: taken rule: write_all.induct)
  case (5 n ws v va)
  show ?case
  proof (cases "n = 0")
    case False
    obtain taken' where w: "write_all ws (drop n (v # va)) = (taken', r, ws')" "taken = take n (v # va) # taken'"
      using 5(2) False by (auto split: prod.splits)
    from 5(1) [OF False w(1)] have "prefix (concat taken') (drop n (v # va))" "r = Inr () \<longrightarrow> concat taken' = drop n (v # va)"
      by simp_all
    then show ?thesis
      using w(2) same_prefix_prefix [of "take n (v # va)" "concat taken'" "drop n (v # va)"] by auto
  qed (use 5(2) in auto)
qed auto

lemma write_all_one: "buf \<noteq> [] \<Longrightarrow> write_all [] buf = ([buf], Inr (), [])"
  by (cases buf) auto

lemma os_same [simp]:
  "b\<lparr>ob_os := (ob_os b)\<lparr>os_exists := os_exists (ob_os b)\<rparr>\<rparr> = b"
  "b\<lparr>ob_os := (ob_os b)\<lparr>os_opens := os_opens (ob_os b)\<rparr>\<rparr> = b"
  by simp_all

lemma os_answer:
  "\<exists>x xs. path_exists b = (Inr x, b\<lparr>ob_os := (ob_os b)\<lparr>os_exists := xs\<rparr>\<rparr>)"
  "\<exists>r xs. open_device p b = (r, b\<lparr>ob_os := (ob_os b)\<lparr>os_opens := xs\<rparr>\<rparr>)"
proof -
  have "path_exists b = (Inr (case os_exists (ob_os b) of [] \<Rightarrow> True | x # xs \<Rightarrow> x),
      b\<lparr>ob_os := (ob_os b)\<lparr>os_exists := tl (os_exists (ob_os b))\<rparr>\<rparr>)"
    using os_same(1) [of b] by (cases "os_exists (ob_os b)") (simp_all add: path_exists_def)
  then show "\<exists>x xs. path_exists b = (Inr x, b\<lparr>ob_os := (ob_os b)\<lparr>os_exists := xs\<rparr>\<rparr>)"
    by blast
  have "open_device p b = (fst (open_device p b), b\<lparr>ob_os := (ob_os b)\<lparr>os_opens := tl (os_opens (ob_os b))\<rparr>\<rparr>)"
    using os_same(2) [of b] by (cases "os_opens (ob_os b)") (simp_all add: open_device_def)
  then show "\<exists>r xs. open_device p b = (r, b\<lparr>ob_os := (ob_os b)\<lparr>os_opens := xs\<rparr>\<rparr>)"
    by blast
qed

text \<open>A successful \<open>ensure_device\<close> leaves the device open and the backend online; a failed one
  leaves a reason.  Neither writes.\<close>

lemma ensure_device_outcome:
  assumes "ensure_device dt b = (r, b')"
  shows "same_input b b' \<and> os_accepted (ob_os b') = os_accepted (ob_os b) \<and> os_writes (ob_os b') = os_writes (ob_os b) \<and>
    os_polls (ob_os b') = os_polls (ob_os b) \<and>
    (if r = Inr () then dev_open dt b' \<and> ob_online b' \<and> ob_last_error b' = None
     else \<not> ob_online b' \<and> ob_last_error b' \<noteq> None) \<and>
    (\<forall>d. dev_open d b' \<longrightarrow> dev_open d b \<or> dev_path d b \<noteq> None)"
proof (cases "dev_path dt b")
  case None
  with assms show ?thesis by (auto simp: ensure_device_def)
next
  case (Some path)
  obtain x xs where x: "path_exists b = (Inr x, b\<lparr>ob_os := (ob_os b)\<lparr>os_exists := xs\<rparr>\<rparr>)"
    using os_answer(1) by blast
  let ?b = "b\<lparr>ob_os := (ob_os b)\<lparr>os_exists := xs\<rparr>\<rparr>"
  obtain q ys where q: "open_device path ?b = (q, ?b\<lparr>ob_os := (ob_os ?b)\<lparr>os_opens := ys\<rparr>\<rparr>)"
    using os_answer(2) by blast
  show ?thesis
  proof (cases "x \<and> \<not> dev_open dt b")
    case True
    then show ?thesis
      using assms Some x q by (cases q) (auto simp: ensure_device_def sx_bind_def split: if_splits)
  next
    case False
    then show ?thesis
      using assms Some x by (cases x) (auto simp: ensure_device_def sx_bind_def Let_def split: if_splits)
  qed
qed

text \<open>The outcome of a report method.  Success means that the kernel took the report whole, or
  that it was dropped on purpose: the device is disabled, the node was not ready in time, or
  the kernel answered \<open>EAGAIN\<close>.\<close>

lemma os_write_outcome:
  assumes "os_write dt data b = (r, b')"
  shows "\<exists>os taken. b' = b\<lparr>ob_os := os\<rparr> \<and> os_accepted os = os_accepted (ob_os b) @ map (Pair dt) taken \<and>
    prefix (concat taken) data \<and> (r = Inr True \<longrightarrow> concat taken = data) \<and> (r = Inr False \<longrightarrow> taken = []) \<and>
    (os_writes (ob_os b) = [] \<longrightarrow> os_writes os = [] \<and>
      (data \<noteq> [] \<longrightarrow> taken = (if r = Inr True then [data] else [])))"
proof (cases "case os_polls (ob_os b) of [] \<Rightarrow> True | p # ps \<Rightarrow> p = PollReady False")
  case ready: True
  obtain taken w ws where w: "write_all (os_writes (ob_os b)) data = (taken, w, ws)"
    by (metis prod_cases3)
  let ?os = "(ob_os b)\<lparr>os_polls := tl (os_polls (ob_os b)), os_writes := ws,
    os_accepted := os_accepted (ob_os b) @ map (Pair dt) taken\<rparr>"
  have "b' = b\<lparr>ob_os := ?os\<rparr>" "r = map_sum id (\<lambda>_. True) w"
    using assms ready w
    by (auto simp: os_write_def write_with_timeout_def Let_def split: list.splits)
  moreover have "os_writes (ob_os b) = [] \<Longrightarrow> data \<noteq> [] \<Longrightarrow> taken = [data] \<and> w = Inr ()"
    using w write_all_one [of data] by simp
  ultimately show ?thesis
    using write_all_prefix [OF w] by (intro exI [of _ ?os] exI [of _ taken]) (cases w; auto)
next
  case False
  let ?os = "(ob_os b)\<lparr>os_polls := tl (os_polls (ob_os b))\<rparr>"
  have "b' = b\<lparr>ob_os := ?os\<rparr>" "r \<noteq> Inr True"
    using assms False
    by (auto simp: os_write_def write_with_timeout_def Let_def split: list.splits poll_answer.splits bool.splits)
  then show ?thesis
    by (intro exI [of _ ?os] exI [of _ "[]"]) auto
qed

text \<open>The invariant: an online backend has no error, and only configured devices are open.\<close>

definition otg_inv :: "OtgBackend \<Rightarrow> bool" where
  "otg_inv b \<longleftrightarrow> report_wf (ob_keyboard_state b) \<and> (ob_online b \<longrightarrow> ob_last_error b = None) \<and>
     (\<forall>d. dev_open d b \<longrightarrow> dev_path d b \<noteq> None)"

lemma same_input_wf: "same_input b b' \<Longrightarrow> report_wf (ob_keyboard_state b') = report_wf (ob_keyboard_state b)"
  by (simp add: same_input_def)

lemma same_input_path: "same_input b b' \<Longrightarrow> dev_path d b' = dev_path d b"
  by (simp add: same_input_def)

definition report_sent :: "DeviceType \<Rightarrow> bytes \<Rightarrow> OtgBackend \<Rightarrow> unit app_result \<Rightarrow> OtgBackend \<Rightarrow> bool" where
  "report_sent dt data b r b' \<longleftrightarrow>
     same_input b b' \<and> (otg_inv b \<longrightarrow> otg_inv b') \<and>
     (r \<noteq> Inr () \<longrightarrow> \<not> ob_online b' \<and> ob_last_error b' \<noteq> None) \<and>
     (\<exists>taken. os_accepted (ob_os b') = os_accepted (ob_os b) @ map (Pair dt) taken \<and> prefix (concat taken) data \<and>
        (os_writes (ob_os b) = [] \<longrightarrow> os_writes (ob_os b') = [] \<and>
           (taken = [] \<or> taken = [data] \<and> r = Inr () \<and> ob_online b')))"

lemma report_sent_handle_error:
  assumes "otg_inv b \<longrightarrow> otg_inv b1" and "same_input b b1" and "os_accepted (ob_os b1) = os_accepted (ob_os b) @ map (Pair dt) taken"
    and "prefix (concat taken) data" and "os_writes (ob_os b) = [] \<longrightarrow> os_writes (ob_os b1) = [] \<and> taken = []"
  shows "report_sent dt data b (fst (handle_write_error dt e operation b1)) (snd (handle_write_error dt e operation b1))"
  using assms unfolding report_sent_def
  by (auto simp: handle_write_error_def otg_inv_def same_input_wf same_input_path split: if_splits)

lemma send_report_outcome:
  assumes "send_report_to dt data operation not_opened id dropped b = (r, b')" and "data \<noteq> []"
    and "dropped = id \<or> (\<exists>n. dropped = log_throttled_error n)"
  shows "report_sent dt data b r b'"
proof (cases "dev_path dt b")
  case None
  with assms show ?thesis by (auto simp: send_report_to_def report_sent_def)
next
  case (Some path)
  obtain q b1 where q: "ensure_device dt b = (q, b1)"
    by fastforce
  note e = ensure_device_outcome [OF q]
  have inv: "otg_inv b \<Longrightarrow> otg_inv b1"
    using e by (auto simp: otg_inv_def same_input_wf same_input_path split: if_splits)
  show ?thesis
  proof (cases q)
    case (Inl err)
    then show ?thesis
      using assms(1) Some q e inv by (auto simp: send_report_to_def sx_bind_def report_sent_def)
  next
    case (Inr u)
    then have opened: "dev_open dt b1"
      using e by simp
    obtain w b2 where w: "os_write dt data b1 = (w, b2)"
      by fastforce
    obtain os taken where o: "b2 = b1\<lparr>ob_os := os\<rparr>" "os_accepted os = os_accepted (ob_os b1) @ map (Pair dt) taken"
      "prefix (concat taken) data" "w = Inr False \<longrightarrow> taken = []"
      "os_writes (ob_os b1) = [] \<longrightarrow> os_writes os = [] \<and> (data \<noteq> [] \<longrightarrow> taken = (if w = Inr True then [data] else []))"
      using os_write_outcome [OF w] by blast
    have inv2: "otg_inv b \<longrightarrow> otg_inv b2"
      using inv o(1) by (auto simp: otg_inv_def)
    have r: "(r, b') = (case w of Inr True \<Rightarrow> (Inr (), reset_error_count (mark_online b2))
        | Inr False \<Rightarrow> (Inr (), dropped b2) | Inl e \<Rightarrow> handle_write_error dt e operation b2)"
      using assms(1) Some q Inr opened w
      by (auto simp: send_report_to_def sx_bind_def split: sum.splits bool.splits)
    show ?thesis
    proof (cases w)
      case (Inl err)
      then have "r = fst (handle_write_error dt err operation b2)" "b' = snd (handle_write_error dt err operation b2)"
        using r by (metis fst_conv old.sum.simps(5), metis snd_conv old.sum.simps(5))
      moreover have "report_sent dt data b (fst (handle_write_error dt err operation b2)) (snd (handle_write_error dt err operation b2))"
        by (rule report_sent_handle_error [OF inv2, where taken = taken]) (use e o Inl assms(2) in auto)
      ultimately show ?thesis
        by simp
    next
      case (Inr ok)
      then show ?thesis
        using r e o inv2 assms(2,3)
        by (cases ok) (auto simp: report_sent_def otg_inv_def same_input_wf same_input_path)
    qed
  qed
qed

text \<open>The same without a claim on the reports, for any action after a success.\<close>

definition quiet_on :: "OtgBackend \<Rightarrow> OtgBackend \<Rightarrow> bool" where
  "quiet_on b b' \<longleftrightarrow> same_input b b' \<and> (otg_inv b \<longrightarrow> otg_inv b')"

lemma quiet_refl [simp]: "quiet_on b b"
  by (simp add: quiet_on_def)

lemma quiet_trans: "quiet_on a b \<Longrightarrow> quiet_on b c \<Longrightarrow> quiet_on a c"
  by (auto simp: quiet_on_def intro: same_input_trans)

lemma report_sent_quiet: "report_sent dt data b r b' \<Longrightarrow> quiet_on b b'"
  by (simp add: report_sent_def quiet_on_def)

lemma quiet_os_write: "os_write dt data b = (r, b') \<Longrightarrow> quiet_on b b'"
  using os_write_outcome [of dt data b r b'] by (auto simp: quiet_on_def otg_inv_def)

lemma quiet_ensure: "ensure_device dt b = (r, b') \<Longrightarrow> quiet_on b b'"
  using ensure_device_outcome [of dt b r b']
  by (auto simp: quiet_on_def otg_inv_def same_input_wf same_input_path split: if_splits)

lemma quiet_online: "quiet_on b b' \<Longrightarrow> quiet_on b (reset_error_count (mark_online b'))"
  by (auto simp: quiet_on_def otg_inv_def same_input_wf same_input_path)

lemma quiet_handle_error: "handle_write_error dt e operation b = (r, b') \<Longrightarrow> quiet_on b b'"
  by (auto simp: handle_write_error_def quiet_on_def otg_inv_def split: if_splits)

lemma quiet_consumer: "quiet_on b (snd (send_consumer_report usage b))"
proof -
  let ?data = "[ucast (usage AND 0xFF), ucast (drop_bit 8 usage)] :: bytes"
  obtain q b1 where q: "ensure_device ConsumerControl b = (q, b1)"
    by fastforce
  obtain w b2 where w: "os_write ConsumerControl ?data b1 = (w, b2)"
    by fastforce
  obtain v b3 where v: "os_write ConsumerControl [0, 0] b2 = (v, b3)"
    by fastforce
  have 12: "quiet_on b b2"
    using quiet_trans [OF quiet_ensure [OF q] quiet_os_write [OF w]] .
  have 13: "quiet_on b b3"
    using quiet_trans [OF 12 quiet_os_write [OF v]] .
  have 14: "quiet_on b (snd (handle_write_error ConsumerControl e operation b2))" for e operation
    using quiet_trans [OF 12 quiet_handle_error] by (metis prod.collapse)
  show ?thesis
    using q w v 12 13 14 quiet_ensure [OF q] quiet_online [OF 13]
    by (auto simp: send_consumer_report_def send_report_to_def sx_bind_def split: sum.splits bool.splits)
qed

lemma keyboard_report_sent:
  "otg_send_keyboard_report now report b = (r, b') \<Longrightarrow> report_sent KeyboardDev (report_to_bytes report) b r b'"
  by (rule send_report_outcome) (auto simp: otg_send_keyboard_report_def report_to_bytes_def)

lemma mouse_report_sent:
  "send_mouse_report_relative buttons dx dy wheel b = (r, b') \<Longrightarrow>
     report_sent MouseRelative [buttons, dx, dy, wheel] b r b'"
  "send_mouse_report_absolute buttons x y wheel b = (r, b') \<Longrightarrow>
     report_sent MouseAbsolute [buttons, ucast (x AND 0xFF), ucast (drop_bit 8 x),
       ucast (y AND 0xFF), ucast (drop_bit 8 y), wheel] b r b'"
  by (rule send_report_outcome; force simp: send_mouse_report_relative_def send_mouse_report_absolute_def)+

lemma quiet_reports:
  "quiet_on b (snd (otg_send_keyboard_report now report b))"
  "quiet_on b (snd (send_mouse_report_relative buttons dx dy wheel b))"
  "quiet_on b (snd (send_mouse_report_absolute buttons x y wheel b))"
  using keyboard_report_sent mouse_report_sent report_sent_quiet by (metis prod.collapse)+

section \<open>The backend keeps the contract of the controller\<close>

text \<open>Both backends keep the same report for the same events.\<close>

lemma apply_key_ch9329: "apply_key e r = keyboard_state (snd (send_keyboard e (b\<lparr>keyboard_state := r\<rparr>)))"
  by (simp add: apply_key_def send_keyboard_def Let_def)

lemma apply_key_effect:
  assumes "report_wf r"
  shows "report_wf (apply_key e r)" and "held (apply_key e r) = key_effect (QKeyboard e) (held r)"
  using ch9329.keyboard_invar [of "(with_options False)\<lparr>keyboard_state := r\<rparr>" "[]" True e]
    ch9329.keyboard_keys [of "(with_options False)\<lparr>keyboard_state := r\<rparr>" "[]" True e] assms
  by (simp_all add: ch9329_ops_def apply_key_ch9329 [of e r "with_options False"])

lemma otg_inv_input:
  "otg_inv b \<Longrightarrow> report_wf r \<Longrightarrow> otg_inv (b\<lparr>ob_keyboard_state := r\<rparr>)"
  "otg_inv (b\<lparr>ob_mouse_buttons := m\<rparr>) = otg_inv b"
  by (auto simp: otg_inv_def)

lemma otg_send_keyboard_outcome:
  assumes "otg_send_keyboard now e b = (r, b')"
  shows "report_sent KeyboardDev (report_to_bytes (apply_key e (ob_keyboard_state b)))
      (b\<lparr>ob_keyboard_state := apply_key e (ob_keyboard_state b)\<rparr>) r b'"
    and "ob_keyboard_state b' = apply_key e (ob_keyboard_state b)" and "otg_inv b \<Longrightarrow> otg_inv b'"
proof -
  show *: "report_sent KeyboardDev (report_to_bytes (apply_key e (ob_keyboard_state b)))
      (b\<lparr>ob_keyboard_state := apply_key e (ob_keyboard_state b)\<rparr>) r b'"
    using assms by (intro keyboard_report_sent [of now]) (simp add: otg_send_keyboard_def Let_def)
  then show "ob_keyboard_state b' = apply_key e (ob_keyboard_state b)"
    by (simp add: report_sent_def same_input_def)
  assume "otg_inv b"
  then show "otg_inv b'"
    using * apply_key_effect(1) [of "ob_keyboard_state b" e] by (simp add: report_sent_def otg_inv_input(1) otg_inv_def [of b])
qed

lemma otg_send_mouse_keeps:
  "ob_keyboard_state (snd (otg_send_mouse m b)) = ob_keyboard_state b"
  "otg_inv b \<Longrightarrow> otg_inv (snd (otg_send_mouse m b))"
proof -
  let ?with = "\<lambda>x. b\<lparr>ob_mouse_buttons := x\<rparr>"
  have "\<exists>x. quiet_on (?with x) (snd (otg_send_mouse m b))"
  proof (cases "ms_event_type m")
    case MouseDown
    then show ?thesis
      using quiet_reports(2) [of "?with (ob_mouse_buttons b OR to_hid_bit (the (ms_button m)))"]
      by (cases "ms_button m")
        (simp_all add: otg_send_mouse_def Let_def, rule exI [of _ "ob_mouse_buttons b"], simp, blast)
  next
    case MouseUp
    then show ?thesis
      using quiet_reports(2) [of "?with (ob_mouse_buttons b AND NOT (to_hid_bit (the (ms_button m))))"]
      by (cases "ms_button m")
        (simp_all add: otg_send_mouse_def Let_def, rule exI [of _ "ob_mouse_buttons b"], simp, blast)
  qed (use quiet_reports(2,3) [of b] in \<open>auto simp: otg_send_mouse_def Let_def intro!: exI [of _ "ob_mouse_buttons b"]\<close>)
  then obtain x where x: "quiet_on (?with x) (snd (otg_send_mouse m b))"
    by blast
  show "ob_keyboard_state (snd (otg_send_mouse m b)) = ob_keyboard_state b"
    using x by (simp add: quiet_on_def same_input_def)
  show "otg_inv b \<Longrightarrow> otg_inv (snd (otg_send_mouse m b))"
    using x by (simp add: quiet_on_def otg_inv_input)
qed

lemma otg_reset_keeps:
  "ob_keyboard_state (snd (otg_reset now b)) = clear_report (ob_keyboard_state b)"
  "otg_inv b \<Longrightarrow> otg_inv (snd (otg_reset now b))"
proof -
  let ?b = "b\<lparr>ob_keyboard_state := clear_report (ob_keyboard_state b)\<rparr>"
  define ok where "ok = (\<lambda>c. ob_keyboard_state c = clear_report (ob_keyboard_state b) \<and> (otg_inv ?b \<longrightarrow> otg_inv c))"
  have step: "ok c \<Longrightarrow> quiet_on c c' \<Longrightarrow> ok c'" for c c'
    by (auto simp: ok_def quiet_on_def same_input_def)
  have keeps: "sx_keeps ok (otg_send_keyboard_report now report)" "sx_keeps ok (send_mouse_report_relative 0 0 0 0)"
    "sx_keeps ok (send_mouse_report_absolute 0 0 0 0)" for report
    unfolding sx_keeps_def using step quiet_reports by blast+
  have buttons: "sx_keeps ok (sx_update (\<lambda>b. b\<lparr>ob_mouse_buttons := 0\<rparr>))"
    by (simp add: sx_keeps_def sx_update_def ok_def otg_inv_input)
  have "sx_keeps ok (sx_bind (otg_send_keyboard_report now (clear_report (ob_keyboard_state b))) (\<lambda>_.
      sx_bind (sx_update (\<lambda>b. b\<lparr>ob_mouse_buttons := 0\<rparr>)) (\<lambda>_.
      sx_bind (send_mouse_report_relative 0 0 0 0) (\<lambda>_. send_mouse_report_absolute 0 0 0 0))))"
    by (intro sx_keeps_bind keeps buttons)
  moreover have "ok ?b"
    by (simp add: ok_def)
  ultimately have "ok (snd (otg_reset now b))"
    by (simp add: otg_reset_def Let_def sx_keeps_def)
  then show "ob_keyboard_state (snd (otg_reset now b)) = clear_report (ob_keyboard_state b)"
    "otg_inv b \<Longrightarrow> otg_inv (snd (otg_reset now b))"
    by (auto simp: ok_def intro: otg_inv_input(1) clear_report_wf simp: otg_inv_def [of b])
qed

text \<open>The clock only counts suppressed log lines.  A snapshot may note the controller's name, as
  the monitor also does; the controller keeps the snapshot.\<close>

definition otg_ops :: "(string \<Rightarrow> bool) \<Rightarrow> udc_env \<Rightarrow> nat \<Rightarrow> OtgBackend HidBackendOps" where
  "otg_ops present env now =
     \<lparr>op_send_keyboard = otg_send_keyboard now, op_send_mouse = otg_send_mouse, op_send_consumer = otg_send_consumer,
      op_reset = otg_reset now, op_shutdown = otg_shutdown now, op_prepare_rebuild = otg_prepare_rebuild,
      op_runtime_snapshot = (\<lambda>b. fst (build_runtime_snapshot present env b))\<rparr>"

interpretation otg: hid_backend "otg_ops present env now" otg_inv "\<lambda>b. held (ob_keyboard_state b)"
proof
  fix b :: OtgBackend and e m u
  assume inv: "otg_inv b"
  then have wf: "report_wf (ob_keyboard_state b)"
    by (simp add: otg_inv_def)
  obtain r b' where k: "otg_send_keyboard now e b = (r, b')"
    by fastforce
  show "otg_inv (snd (op_send_keyboard (otg_ops present env now) e b))"
    using otg_send_keyboard_outcome(3) [OF k inv] k by (simp add: otg_ops_def)
  show "held (ob_keyboard_state (snd (op_send_keyboard (otg_ops present env now) e b))) =
      key_effect (QKeyboard e) (held (ob_keyboard_state b))"
    using otg_send_keyboard_outcome(2) [OF k] k apply_key_effect(2) [OF wf, of e] by (simp add: otg_ops_def)
  show "otg_inv (snd (op_send_mouse (otg_ops present env now) m b))"
    "held (ob_keyboard_state (snd (op_send_mouse (otg_ops present env now) m b))) = held (ob_keyboard_state b)"
    using otg_send_mouse_keeps inv by (simp_all add: otg_ops_def)
  show "otg_inv (snd (op_send_consumer (otg_ops present env now) u b))"
    "held (ob_keyboard_state (snd (op_send_consumer (otg_ops present env now) u b))) = held (ob_keyboard_state b)"
    using quiet_consumer [of b "consumer_usage u"] inv
    by (simp_all add: otg_ops_def otg_send_consumer_def quiet_on_def same_input_def)
  show "otg_inv (snd (op_reset (otg_ops present env now) b))"
    "held (ob_keyboard_state (snd (op_reset (otg_ops present env now) b))) = {#}"
    using otg_reset_keeps [where now = now and b = b] inv wf by (simp_all add: otg_ops_def clear_report_held)
qed

lemma LedState_roundtrip: "LedState_from_byte (LedState_to_byte l) = l"
  by (cases l) (simp add: LedState_from_byte_def LedState_to_byte_def)

section \<open>Runs of the backend\<close>

text \<open>Method calls, iterations of the monitor and new answers of the kernel, in any order.  The
  monitor's locals do not matter for the backend and are arbitrary.\<close>

inductive otg_reachable :: "OtgBackend \<Rightarrow> bool" where
  otg_new: "otg_reachable (from_handles now paths os)"
| otg_step_init: "otg_reachable b \<Longrightarrow> otg_reachable (snd (otg_init udc rounds spawned b))"
| otg_step_keyboard: "otg_reachable b \<Longrightarrow> otg_reachable (snd (otg_send_keyboard now e b))"
| otg_step_mouse: "otg_reachable b \<Longrightarrow> otg_reachable (snd (otg_send_mouse m b))"
| otg_step_consumer: "otg_reachable b \<Longrightarrow> otg_reachable (snd (otg_send_consumer u b))"
| otg_step_reset: "otg_reachable b \<Longrightarrow> otg_reachable (snd (otg_reset now b))"
| otg_step_rebuild: "otg_reachable b \<Longrightarrow> otg_reachable (snd (otg_prepare_rebuild b))"
| otg_step_shutdown: "otg_reachable b \<Longrightarrow> otg_reachable (snd (otg_shutdown now b))"
| otg_step_resolution: "otg_reachable b \<Longrightarrow> otg_reachable (otg_set_screen_resolution x y b)"
| otg_step_snapshot: "otg_reachable b \<Longrightarrow> otg_reachable (snd (build_runtime_snapshot present env b))"
| otg_step_monitor: "otg_reachable b \<Longrightarrow> otg_reachable (snd (monitor_step env f a i m b))"
| otg_step_kernel: "otg_reachable b \<Longrightarrow> otg_reachable (b\<lparr>ob_os := os\<lparr>os_accepted := os_accepted (ob_os b)\<rparr>\<rparr>)"

lemma otg_inv_cong:
  assumes "ob_keyboard_state b' = ob_keyboard_state b" and "ob_online b' = ob_online b" and "ob_last_error b' = ob_last_error b"
    and "\<And>d. dev_open d b' = dev_open d b" and "\<And>d. dev_path d b' = dev_path d b"
  shows "otg_inv b' = otg_inv b"
  using assms by (simp add: otg_inv_def)

lemma dev_other_fields [simp]:
  "dev_open d (b\<lparr>ob_udc_name := u\<rparr>) = dev_open d b" "dev_path d (b\<lparr>ob_udc_name := u\<rparr>) = dev_path d b"
  "dev_open d (b\<lparr>ob_led_state := l\<rparr>) = dev_open d b" "dev_path d (b\<lparr>ob_led_state := l\<rparr>) = dev_path d b"
  "dev_open d (b\<lparr>ob_screen_resolution := s\<rparr>) = dev_open d b" "dev_path d (b\<lparr>ob_screen_resolution := s\<rparr>) = dev_path d b"
  "dev_open d (b\<lparr>ob_notified := n\<rparr>) = dev_open d b" "dev_path d (b\<lparr>ob_notified := n\<rparr>) = dev_path d b"
  "dev_open d (b\<lparr>ob_initialized := v\<rparr>) = dev_open d b" "dev_path d (b\<lparr>ob_initialized := v\<rparr>) = dev_path d b"
  "dev_open d (b\<lparr>ob_online := v\<rparr>) = dev_open d b" "dev_path d (b\<lparr>ob_online := v\<rparr>) = dev_path d b"
  "dev_open d (b\<lparr>ob_last_error := e\<rparr>) = dev_open d b" "dev_path d (b\<lparr>ob_last_error := e\<rparr>) = dev_path d b"
  "dev_open d (b\<lparr>ob_worker := v\<rparr>) = dev_open d b" "dev_path d (b\<lparr>ob_worker := v\<rparr>) = dev_path d b"
  "dev_open d (b\<lparr>ob_worker_stop := v\<rparr>) = dev_open d b" "dev_path d (b\<lparr>ob_worker_stop := v\<rparr>) = dev_path d b"
  by (cases d; simp)+

lemma close_devices_simps [simp]:
  "dev_open d (close_devices b) = False" "dev_path d (close_devices b) = dev_path d b"
  "ob_keyboard_state (close_devices b) = ob_keyboard_state b"
  by (cases d; simp add: close_devices_def)+

lemma otg_inv_small [simp]:
  "otg_inv (b\<lparr>ob_udc_name := u\<rparr>) = otg_inv b" "otg_inv (b\<lparr>ob_led_state := l\<rparr>) = otg_inv b"
  "otg_inv (notify_runtime_changed b) = otg_inv b" "otg_inv (b\<lparr>ob_initialized := v\<rparr>) = otg_inv b"
  "otg_inv (start_runtime_worker w b) = otg_inv b" "otg_inv (otg_stop_runtime_worker b) = otg_inv b"
  "otg_inv (b\<lparr>ob_os := os\<rparr>) = otg_inv b" "otg_inv (otg_set_screen_resolution x y b) = otg_inv b"
  "otg_inv (set_udc_name n b) = otg_inv b"
  by (rule otg_inv_cong; simp add: notify_runtime_changed_def start_runtime_worker_def otg_stop_runtime_worker_def
      otg_set_screen_resolution_def set_udc_name_def)+

lemma otg_inv_closed: "otg_inv b \<Longrightarrow> otg_inv ((close_devices b)\<lparr>ob_initialized := i, ob_online := False\<rparr>)"
  by (simp add: otg_inv_def)

lemma otg_inv_runtime: "otg_inv b \<Longrightarrow> otg_inv (mark_online b)" "otg_inv b \<Longrightarrow> otg_inv (otg_clear_error b)"
  "otg_inv b \<Longrightarrow> dev_path dt b \<noteq> None \<Longrightarrow> otg_inv (set_dev dt v b)"
  by (auto simp: otg_inv_def otg_clear_error_def notify_runtime_changed_def)

lemma otg_init_keeps: "sx_keeps otg_inv (otg_init udc rounds spawned)"
proof -
  have ex: "sx_keeps otg_inv path_exists" "sx_keeps otg_inv (open_device p)" for p
    unfolding sx_keeps_def using os_answer by (metis otg_inv_small(7) snd_conv)+
  have all: "sx_keeps otg_inv (all_exist ps)" for ps
    by (induction ps) (auto intro!: sx_keeps_intros ex)
  have wait: "sx_keeps otg_inv (wait_for_hid_devices n ps)" for n ps
    by (induction n) (auto intro!: sx_keeps_intros all)
  have dev: "sx_keeps otg_inv (init_device dt)" for dt
    unfolding sx_keeps_def
  proof (intro allI impI)
    fix b
    assume "otg_inv b"
    obtain x xs where x: "path_exists b = (Inr x, b\<lparr>ob_os := (ob_os b)\<lparr>os_exists := xs\<rparr>\<rparr>)"
      using os_answer(1) by blast
    let ?b = "b\<lparr>ob_os := (ob_os b)\<lparr>os_exists := xs\<rparr>\<rparr>"
    obtain q ys where q: "open_device (the (dev_path dt b)) ?b = (q, ?b\<lparr>ob_os := (ob_os ?b)\<lparr>os_opens := ys\<rparr>\<rparr>)"
      using os_answer(2) by blast
    show "otg_inv (snd (init_device dt b))"
      using \<open>otg_inv b\<close> x q
      by (cases "dev_path dt b"; cases q) (auto simp: init_device_def sx_bind_def sx_apply intro: otg_inv_runtime)
  qed
  show ?thesis
    unfolding otg_init_def
    by (intro sx_keeps_bind sx_keeps_if sx_keeps_basic sx_keeps_update wait dev) (auto intro: otg_inv_runtime split: option.split)
qed

lemma otg_reachable_inv: "otg_reachable b \<Longrightarrow> otg_inv b"
proof (induction rule: otg_reachable.induct)
  case (otg_new now paths os)
  have "\<not> dev_open d (from_handles now paths os)" for d
    by (cases d) (simp_all add: from_handles_def)
  then show ?case
    by (simp add: otg_inv_def) (simp add: from_handles_def default_report_wf)
next
  case (otg_step_init b udc rounds spawned)
  then show ?case using otg_init_keeps by (simp add: sx_keeps_def)
next
  case (otg_step_keyboard b now e)
  then show ?case using otg_send_keyboard_outcome(3) by (metis prod.collapse)
next
  case (otg_step_consumer b u)
  then show ?case using quiet_consumer by (simp add: otg_send_consumer_def quiet_on_def)
next
  case (otg_step_shutdown b now)
  have "sx_keeps otg_inv (otg_shutdown now)"
    unfolding otg_shutdown_def
    by (intro sx_keeps_bind sx_keeps_update)
      (auto simp: sx_keeps_def otg_reset_keeps(2) intro: otg_inv_runtime(2) otg_inv_closed)
  then show ?case using otg_step_shutdown.IH by (simp add: sx_keeps_def)
next
  case (otg_step_snapshot b present env)
  then show ?case
    by (auto simp: build_runtime_snapshot_def is_udc_configured_def Let_def split: prod.splits bool.splits)
next
  case (otg_step_monitor b env f a i m)
  then show ?case
    by (auto simp: monitor_step_def is_udc_configured_def Let_def split: prod.splits)
qed (auto simp: otg_send_mouse_keeps(2) otg_reset_keeps(2) otg_prepare_rebuild_def intro: otg_inv_closed)

definition otg_run :: "(nat \<times> KeyboardEvent) list \<Rightarrow> OtgBackend \<Rightarrow> OtgBackend" where
  "otg_run es b = fold (\<lambda>(now, e) b. snd (otg_send_keyboard now e b)) es b"

definition keyboard_reports :: "OtgBackend \<Rightarrow> bytes list" where
  "keyboard_reports b = map snd (filter (\<lambda>p. fst p = KeyboardDev) (os_accepted (ob_os b)))"

lemma otg_run_Cons: "otg_run (p # es) b = otg_run es (snd (otg_send_keyboard (fst p) (snd p) b))"
  by (cases p) (simp add: otg_run_def)

lemma otg_run_state: "ob_keyboard_state (otg_run es b) = fold apply_key (map snd es) (ob_keyboard_state b)"
proof (induction es arbitrary: b)
  case (Cons p es)
  then show ?case
    using otg_send_keyboard_outcome(2) [OF prod.collapse [symmetric]] by (simp add: otg_run_Cons)
qed (simp add: otg_run_def)

lemma otg_run_writes: "os_writes (ob_os b) = [] \<Longrightarrow> os_writes (ob_os (otg_run es b)) = []"
proof (induction es arbitrary: b)
  case (Cons p es)
  then show ?case
    using otg_send_keyboard_outcome(1) [OF prod.collapse [symmetric], where now = "fst p" and e = "snd p" and b = b]
    by (auto simp: otg_run_Cons report_sent_def)
qed (simp add: otg_run_def)

section \<open>Properties\<close>

text \<open>C35: The gadget backend keeps the contract too: whatever the interleaving of senders and
  the event worker, and whatever the kernel answers, once the queue has drained without a
  time-out the keys the gadget backend holds are those of the key events and resets in the
  order sent.\<close>

theorem typing_through_gadget:
  assumes "rtranclp (flow_step (otg_ops present env now)) c c'" and "queue_inv c" and "hc_processed c = []"
    and "hc_sent c = []" and "hc_backend c = Some b" and "otg_inv b"
    and "hid_queue c' = []" and "hid_waiting c' = []" and "hc_dropped c' = []"
  shows "\<exists>b'. hc_backend c' = Some b' \<and> otg_inv b' \<and>
    held (ob_keyboard_state b') = fold key_effect (hc_sent c') (held (ob_keyboard_state b))"
  using otg.drained_keys [OF assms] .

definition gadget :: OtgBackend where
  "gadget = (from_handles 0 \<lparr>hp_keyboard = Some ''/dev/hidg0'', hp_mouse_relative = None, hp_mouse_absolute = None,
     hp_consumer = None, hp_udc = None, hp_keyboard_leds_enabled = False\<rparr> os_quiet)"

definition gadget_start :: "OtgBackend HidController" where
  "gadget_start = (HidController_new Otg)
     \<lparr>hc_backend := Some gadget, backend_available := True, hid_worker := Some AtRecv\<rparr>"

lemma gadget_inv: "otg_inv gadget"
  unfolding gadget_def by (rule otg_reachable_inv [OF otg_new])

theorem typing_through_gadget_witness:
  "\<exists>b'. hc_backend (worker_recv (otg_ops (\<lambda>_. True) \<lparr>udc_found = None, udc_state = \<lambda>_. None\<rparr> 0)
      (snd (controller_send_keyboard (key_down (Letter KeyA) (from_hid_byte 0)) gadget_start))) = Some b' \<and>
    held (ob_keyboard_state b') = {#4#}"
proof -
  let ?ops = "otg_ops (\<lambda>_. True) \<lparr>udc_found = None, udc_state = \<lambda>_. None\<rparr> 0"
  let ?e = "key_down (Letter KeyA) (from_hid_byte 0)"
  have start: "hid_queue gadget_start = []" "hid_waiting gadget_start = []" "backend_available gadget_start"
    "hid_worker gadget_start = Some AtRecv" "hc_sent gadget_start = []" "hc_dropped gadget_start = []"
    "hc_processed gadget_start = []" "queue_inv gadget_start"
    by (simp_all add: gadget_start_def HidController_new_def queue_inv_def)
  note flow = one_key_flow [OF start(1-4), of ?ops ?e]
  have "held (ob_keyboard_state gadget) = {#}"
    by (simp add: gadget_def from_handles_def default_report_held)
  moreover have "fold key_effect [QKeyboard ?e] {#} = {#4#}"
    by (simp add: key_effect_def key_down_def bag_step_def)
  ultimately show ?thesis
    using typing_through_gadget [OF flow(1) start(8,7,5), of gadget] flow gadget_inv start
    by (auto simp: gadget_start_def)
qed

text \<open>The kernel taking a report whole or not at all, but dropping, failing and losing devices
  at will: as soon as one keyboard report is taken again, the call succeeds, the backend is
  online, and that report is the one of all key events so far, so that nothing lost in between
  stays lost.\<close>

theorem target_catches_up:
  assumes "otg_inv b" and "os_writes (ob_os b) = []"
    and "otg_send_keyboard now e (otg_run es b) = (r, b')" and "os_accepted (ob_os b') \<noteq> os_accepted (ob_os (otg_run es b))"
  shows "r = Inr () \<and> ob_online b' \<and>
    keyboard_reports b' = keyboard_reports (otg_run es b) @
      [report_to_bytes (fold apply_key (map snd es @ [e]) (ob_keyboard_state b))] \<and>
    held (fold apply_key (map snd es @ [e]) (ob_keyboard_state b)) =
      fold key_effect (map (QKeyboard \<circ> snd) es @ [QKeyboard e]) (held (ob_keyboard_state b))"
proof -
  have held: "report_wf k \<Longrightarrow> held (fold apply_key xs k) = fold key_effect (map QKeyboard xs) (held k)" for xs k
    by (induction xs arbitrary: k) (simp_all add: apply_key_effect)
  show ?thesis
    using otg_send_keyboard_outcome(1) [OF assms(3)] assms otg_run_writes [OF assms(2), of es]
      held [of "ob_keyboard_state b" "map snd es @ [e]"]
    by (auto simp: report_sent_def otg_run_state keyboard_reports_def otg_inv_def)
qed

definition busy_gadget :: OtgBackend where
  "busy_gadget = gadget\<lparr>ob_os := os_quiet\<lparr>os_polls := [PollTimeout]\<rparr>\<rparr>"

lemma busy_gadget_inv: "otg_inv busy_gadget" "os_writes (ob_os busy_gadget) = []"
  by (simp_all add: busy_gadget_def gadget_inv os_quiet_def)

lemma busy_gadget_run:
  "os_accepted (ob_os (otg_run [(0, key_down (Letter KeyA) (from_hid_byte 0))] busy_gadget)) = []"
  "os_accepted (ob_os (snd (otg_send_keyboard 0 (key_down (Letter KeyB) (from_hid_byte 0))
     (otg_run [(0, key_down (Letter KeyA) (from_hid_byte 0))] busy_gadget)))) = [(KeyboardDev, [0, 0, 4, 5, 0, 0, 0, 0])]"
  by code_simp+

theorem target_catches_up_witness:
  "keyboard_reports (snd (otg_send_keyboard 0 (key_down (Letter KeyB) (from_hid_byte 0))
     (otg_run [(0, key_down (Letter KeyA) (from_hid_byte 0))] busy_gadget))) =
   [report_to_bytes (fold apply_key [key_down (Letter KeyA) (from_hid_byte 0), key_down (Letter KeyB) (from_hid_byte 0)]
      (ob_keyboard_state busy_gadget))]"
proof -
  let ?b = "otg_run [(0, key_down (Letter KeyA) (from_hid_byte 0))] busy_gadget"
  have "os_accepted (ob_os (snd (otg_send_keyboard 0 (key_down (Letter KeyB) (from_hid_byte 0)) ?b))) \<noteq> os_accepted (ob_os ?b)"
    by (simp add: busy_gadget_run)
  from target_catches_up [OF busy_gadget_inv prod.collapse [symmetric] this] show ?thesis
    by (simp add: keyboard_reports_def [of ?b] busy_gadget_run(1))
qed

text \<open>A report the node is not ready for in time is dropped and the call still succeeds: after a
  key-up event the target goes on seeing the key pressed, the backend holds it released, and
  neither an error nor a change of state is reported.\<close>

theorem dropped_key_up_unnoticed:
  assumes "dev_path KeyboardDev b = Some path" and "dev_open KeyboardDev b" and "ob_online b" and "ob_last_error b = None"
    and "os_exists (ob_os b) = []" and "os_polls (ob_os b) = PollTimeout # later" and "kb_event_type e = KeyUp"
  shows "\<exists>b'. otg_send_keyboard now e b = (Inr (), b') \<and> keyboard_reports b' = keyboard_reports b \<and>
    ob_keyboard_state b' = apply_key e (ob_keyboard_state b) \<and> ob_notified b' = ob_notified b \<and>
    ob_online b' \<and> ob_last_error b' = None"
  using assms
  by (auto simp: otg_send_keyboard_def otg_send_keyboard_report_def send_report_to_def ensure_device_def path_exists_def
      sx_bind_def os_write_def write_with_timeout_def Let_def keyboard_reports_def otg_runtime_defs)

theorem dropped_key_up_unnoticed_witness:
  "\<exists>b b'. keyboard_reports b = [[0, 0, 4, 0, 0, 0, 0, 0]] \<and>
    otg_send_keyboard 0 (key_up (Letter KeyA) (from_hid_byte 0)) b = (Inr (), b') \<and> keyboard_reports b' = keyboard_reports b"
proof -
  let ?b = "(snd (otg_send_keyboard 0 (key_down (Letter KeyA) (from_hid_byte 0)) gadget))"
  let ?c = "?b\<lparr>ob_os := (ob_os ?b)\<lparr>os_polls := [PollTimeout]\<rparr>\<rparr>"
  have "dev_path KeyboardDev ?c = Some ''/dev/hidg0''" "dev_open KeyboardDev ?c" "ob_online ?c" "ob_last_error ?c = None"
    "os_exists (ob_os ?c) = []" "keyboard_reports ?c = [[0, 0, 4, 0, 0, 0, 0, 0]]"
    by code_simp+
  moreover have "os_polls (ob_os ?c) = [PollTimeout]" "kb_event_type (key_up (Letter KeyA) (from_hid_byte 0)) = KeyUp"
    by (simp_all add: key_up_def)
  ultimately show ?thesis
    using dropped_key_up_unnoticed [of ?c "''/dev/hidg0''" "[]" "key_up (Letter KeyA) (from_hid_byte 0)" 0] by metis
qed



end
