(* ===== verification/Configfs.thy ===== *)
theory Configfs
  imports StateError "HOL-Library.List_Lexorder" "HOL-Library.Char_ord"
begin

text \<open>
  The configfs helpers of \<open>src/otg/configfs.rs\<close>.  The kernel is a parameter: a function from the calls made so far and
  their answers to the answer of the next call, so it may do anything at any time.  The state is the log of the calls.
  \<open>cf_only\<close> says which calls a program makes at most; \<open>backing\<close> is what a log says of the backing file of a LUN.
\<close>

section \<open>Calls of the kernel\<close>

datatype cf_call =
    CfExists string
  | CfRead string
  | CfOpen string
  | CfCreate string
  | CfWrite string string
  | CfMkdir string
  | CfRmdir string
  | CfUnlink string
  | CfSymlink string string
  | CfList string
  | CfRename string string
  | CfModprobe string
  | BridgeRecover
  | BridgeActivate string string
  | BridgeDeactivate

text \<open>An error has a number of the system or none, and a text.\<close>

datatype cf_reply = Granted "string list" | Denied "int option" string

type_synonym cf_log = "(cf_call \<times> cf_reply) list"

type_synonym cf_kernel = "cf_log \<Rightarrow> cf_call \<Rightarrow> cf_reply"

type_synonym 'a cf = "(cf_log, 'a) sx"

definition cf_ask :: "cf_kernel \<Rightarrow> cf_call \<Rightarrow> cf_reply cf" where
  "cf_ask k c h = (let r = k h c in (Inr r, h @ [(c, r)]))"

definition granted :: "cf_reply \<Rightarrow> bool" where
  "granted r \<longleftrightarrow> (case r of Granted _ \<Rightarrow> True | Denied _ _ \<Rightarrow> False)"

definition cf_call_or :: "cf_kernel \<Rightarrow> cf_call \<Rightarrow> (string \<Rightarrow> AppError) \<Rightarrow> string list cf" where
  "cf_call_or k c f = sx_bind (cf_ask k c) (\<lambda>r. case r of Granted ss \<Rightarrow> sx_return ss | Denied _ t \<Rightarrow> sx_fail (f t))"

definition cf_exists :: "cf_kernel \<Rightarrow> string \<Rightarrow> bool cf" where
  "cf_exists k p = sx_bind (cf_ask k (CfExists p)) (\<lambda>r. sx_return (granted r))"

definition cf_read_or_default :: "cf_kernel \<Rightarrow> string \<Rightarrow> string cf" where
  "cf_read_or_default k p =
     sx_bind (cf_ask k (CfRead p)) (\<lambda>r. sx_return (case r of Granted ss \<Rightarrow> concat ss | Denied _ _ \<Rightarrow> []))"

text \<open>Running a program for its result, also when it fails, and for the text of its error.\<close>

definition sx_attempt :: "('e, 's, 'a) rx \<Rightarrow> ('e2, 's, 'e + 'a) rx" where
  "sx_attempt m s = (case m s of (r, s') \<Rightarrow> (Inr r, s'))"

definition gripe :: "(AppError \<Rightarrow> string) \<Rightarrow> 'a cf \<Rightarrow> string list cf" where
  "gripe label m = sx_bind (sx_attempt m) (\<lambda>r. sx_return (case r of Inl e \<Rightarrow> [label e] | Inr _ \<Rightarrow> []))"

primrec gather :: "('b \<Rightarrow> string list cf) \<Rightarrow> 'b list \<Rightarrow> string list cf" where
  "gather f [] = sx_return []"
| "gather f (x # xs) = sx_bind (f x) (\<lambda>es. sx_bind (gather f xs) (\<lambda>es'. sx_return (es @ es')))"

primrec each :: "('b \<Rightarrow> (cf_log, unit) sx) \<Rightarrow> 'b list \<Rightarrow> unit cf" where
  "each f [] = sx_return ()"
| "each f (x # xs) = sx_bind (f x) (\<lambda>_. each f xs)"

fun join_with :: "string \<Rightarrow> string list \<Rightarrow> string" where
  "join_with sep [] = []"
| "join_with sep [s] = s"
| "join_with sep (s # t # ss) = s @ sep @ join_with sep (t # ss)"

fun contains_str :: "string \<Rightarrow> string \<Rightarrow> bool" where
  "contains_str needle [] = (needle = [])"
| "contains_str needle (c # s) = (take (length needle) (c # s) = needle \<or> contains_str needle s)"

section \<open>Helpers\<close>

definition CONFIGFS_PATH :: string where "CONFIGFS_PATH = ''/sys/kernel/config/usb_gadget''"
definition DEFAULT_GADGET_NAME :: string where "DEFAULT_GADGET_NAME = ''one-kvm''"
definition DEFAULT_USB_VENDOR_ID :: u16 where "DEFAULT_USB_VENDOR_ID = 0x1d6b"
definition DEFAULT_USB_PRODUCT_ID :: u16 where "DEFAULT_USB_PRODUCT_ID = 0x0104"
definition DEFAULT_USB_BCD_DEVICE :: u16 where "DEFAULT_USB_BCD_DEVICE = 0x0100"
definition USB_BCD_USB :: u16 where "USB_BCD_USB = 0x0200"

text \<open>\<open>Path::join\<close> with a relative component.\<close>

definition join :: "string \<Rightarrow> string \<Rightarrow> string" where
  "join p q = p @ CHR ''/'' # q"

definition newline :: char where "newline = CHR 0x0A"

definition line_of :: "string \<Rightarrow> string" where
  "line_of content = (if content \<noteq> [] \<and> last content = newline then content else content @ [newline])"

definition is_configfs_available :: "cf_kernel \<Rightarrow> bool cf" where
  "is_configfs_available k = cf_exists k CONFIGFS_PATH"

text \<open>A program that ran and failed has a status and no error number.\<close>

definition modprobe :: "cf_kernel \<Rightarrow> unit cf" where
  "modprobe k =
     sx_bind (cf_ask k (CfModprobe ''libcomposite'')) (\<lambda>r.
       case r of
         Granted _ \<Rightarrow> sx_return ()
       | Denied errno t \<Rightarrow> sx_fail (Internal
           ((if errno = None then ''modprobe libcomposite failed with status '' else ''Failed to run modprobe libcomposite: '') @ t)))"

definition ensure_libcomposite_loaded :: "cf_kernel \<Rightarrow> unit cf" where
  "ensure_libcomposite_loaded k =
     sx_bind (is_configfs_available k) (\<lambda>available.
     if available then sx_return ()
     else
       sx_bind (cf_exists k ''/sys/module/libcomposite'') (\<lambda>loaded.
       sx_bind (if loaded then sx_return () else modprobe k) (\<lambda>_.
       sx_bind (is_configfs_available k) (\<lambda>available.
         if available then sx_return ()
         else sx_fail (Internal ''libcomposite is not available after modprobe; check configfs mount and kernel support'')))))"

definition list_udcs :: "cf_kernel \<Rightarrow> string list cf" where
  "list_udcs k =
     sx_bind (cf_ask k (CfList ''/sys/class/udc'')) (\<lambda>r.
       sx_return (case r of
         Granted names \<Rightarrow> remdups_adj (sort (filter (\<lambda>n. n \<noteq> []) (map trim names)))
       | Denied _ _ \<Rightarrow> []))"

definition find_udc :: "cf_kernel \<Rightarrow> string option cf" where
  "find_udc k = sx_bind (list_udcs k) (\<lambda>us. sx_return (case us of [] \<Rightarrow> None | u # _ \<Rightarrow> Some u))"

definition open_error :: "string \<Rightarrow> string \<Rightarrow> AppError" where
  "open_error path t = Internal (''Failed to open '' @ path @ '': '' @ t)"

text \<open>One write of the whole line; a file that does not exist is created.\<close>

definition cf_write_file :: "cf_kernel \<Rightarrow> string \<Rightarrow> string \<Rightarrow> unit cf" where
  "cf_write_file k path content =
     sx_bind (cf_ask k (CfOpen path)) (\<lambda>opened.
     sx_bind
       (case opened of
          Granted _ \<Rightarrow> sx_return ()
        | Denied _ t \<Rightarrow>
            sx_bind (cf_exists k path) (\<lambda>there.
              if there then sx_fail (open_error path t)
              else sx_bind (cf_call_or k (CfCreate path) (open_error path)) (\<lambda>_. sx_return ()))) (\<lambda>_.
     sx_bind (cf_call_or k (CfWrite path (line_of content))
       (\<lambda>t. Internal (''Failed to write to '' @ path @ '': '' @ t))) (\<lambda>_. sx_return ())))"

definition write_file_if_exists :: "cf_kernel \<Rightarrow> string \<Rightarrow> string \<Rightarrow> bool cf" where
  "write_file_if_exists k path content =
     sx_bind (cf_exists k path) (\<lambda>there.
       if \<not> there then sx_return False
       else sx_bind (cf_write_file k path content) (\<lambda>_. sx_return True))"

definition write_bytes :: "cf_kernel \<Rightarrow> string \<Rightarrow> bytes \<Rightarrow> unit cf" where
  "write_bytes k path data =
     sx_bind (cf_call_or k (CfCreate path) (\<lambda>t. Internal (''Failed to create '' @ path @ '': '' @ t))) (\<lambda>_.
     sx_bind (cf_call_or k (CfWrite path (bytes_string data))
       (\<lambda>t. Internal (''Failed to write to '' @ path @ '': '' @ t))) (\<lambda>_. sx_return ()))"

definition create_dir :: "cf_kernel \<Rightarrow> string \<Rightarrow> unit cf" where
  "create_dir k path =
     sx_bind (cf_call_or k (CfMkdir path) (\<lambda>t. Internal (''Failed to create directory '' @ path @ '': '' @ t)))
       (\<lambda>_. sx_return ())"

definition remove_dir :: "cf_kernel \<Rightarrow> string \<Rightarrow> unit cf" where
  "remove_dir k path =
     sx_bind (cf_exists k path) (\<lambda>there.
       if \<not> there then sx_return ()
       else sx_bind (cf_call_or k (CfRmdir path) (\<lambda>t. Internal (''Failed to remove directory '' @ path @ '': '' @ t)))
              (\<lambda>_. sx_return ()))"

definition remove_file :: "cf_kernel \<Rightarrow> string \<Rightarrow> unit cf" where
  "remove_file k path =
     sx_bind (cf_exists k path) (\<lambda>there.
       if \<not> there then sx_return ()
       else sx_bind (cf_call_or k (CfUnlink path) (\<lambda>t. Internal (''Failed to remove file '' @ path @ '': '' @ t)))
              (\<lambda>_. sx_return ()))"

definition create_symlink :: "cf_kernel \<Rightarrow> string \<Rightarrow> string \<Rightarrow> unit cf" where
  "create_symlink k src dest =
     sx_bind (cf_call_or k (CfSymlink src dest)
       (\<lambda>t. Internal (''Failed to create symlink '' @ dest @ '' -> '' @ src @ '': '' @ t))) (\<lambda>_. sx_return ())"

section \<open>Which calls a program makes\<close>

definition cf_only :: "(cf_call \<Rightarrow> bool) \<Rightarrow> 'a cf \<Rightarrow> bool" where
  "cf_only P m \<longleftrightarrow> (\<forall>h. \<exists>new. snd (m h) = h @ new \<and> (\<forall>e \<in> set new. P (fst e)))"

named_theorems cf_only_intros

lemma cf_onlyD: "cf_only P m \<Longrightarrow> m h = (r, h') \<Longrightarrow> \<exists>new. h' = h @ new \<and> (\<forall>e \<in> set new. P (fst e))"
  by (metis cf_only_def snd_conv)

lemma cf_onlyI: "(\<And>h. \<exists>new. snd (m h) = h @ new \<and> (\<forall>e \<in> set new. P (fst e))) \<Longrightarrow> cf_only P m"
  by (simp add: cf_only_def)

lemma cf_only_mono: "cf_only P m \<Longrightarrow> (\<And>c. P c \<Longrightarrow> Q c) \<Longrightarrow> cf_only Q m"
  unfolding cf_only_def by meson

lemma cf_only_basic [cf_only_intros]:
  "cf_only P (sx_return a)" "cf_only P (sx_fail e)" "cf_only P (sx_lift r)" "cf_only P (sx_ok_or e o1)"
  by (simp_all add: cf_only_def sx_apply)

lemma cf_only_ask [cf_only_intros]: "P c \<Longrightarrow> cf_only P (cf_ask k c)"
  by (simp add: cf_only_def cf_ask_def Let_def)

lemma cf_only_bind_result:
  assumes "cf_only P m" and "\<And>a h h'. m h = (Inr a, h') \<Longrightarrow> cf_only P (f a)"
  shows "cf_only P (sx_bind m f)"
proof (rule cf_onlyI)
  fix h
  obtain r h1 where m: "m h = (r, h1)" by (meson surj_pair)
  obtain new where new: "h1 = h @ new" "\<forall>e \<in> set new. P (fst e)" using cf_onlyD [OF assms(1) m] by blast
  show "\<exists>new. snd (sx_bind m f h) = h @ new \<and> (\<forall>e \<in> set new. P (fst e))"
  proof (cases r)
    case (Inl e)
    then show ?thesis using m new by (simp add: sx_bind_def)
  next
    case (Inr a)
    obtain more where "snd (f a h1) = h1 @ more" "\<forall>e \<in> set more. P (fst e)" using assms(2) [of h a h1] m Inr unfolding cf_only_def by blast
    then show ?thesis using m new Inr by (intro exI [of _ "new @ more"]) (auto simp: sx_bind_def)
  qed
qed

lemma cf_only_bind [cf_only_intros]:
  "cf_only P m \<Longrightarrow> (\<And>a. cf_only P (f a)) \<Longrightarrow> cf_only P (sx_bind m f)"
  by (rule cf_only_bind_result)

lemma cf_only_if [cf_only_intros]: "cf_only P m \<Longrightarrow> cf_only P m' \<Longrightarrow> cf_only P (if b then m else m')"
  by simp

lemma cf_only_option [cf_only_intros]:
  "cf_only P m \<Longrightarrow> (\<And>x. cf_only P (f x)) \<Longrightarrow> cf_only P (case v of None \<Rightarrow> m | Some x \<Rightarrow> f x)"
  by (cases v) simp_all

lemma cf_only_sum [cf_only_intros]:
  "(\<And>x. cf_only P (f x)) \<Longrightarrow> (\<And>x. cf_only P (g x)) \<Longrightarrow> cf_only P (case v of Inl x \<Rightarrow> f x | Inr x \<Rightarrow> g x)"
  by (cases v) simp_all

lemma cf_only_reply [cf_only_intros]:
  "(\<And>x. cf_only P (f x)) \<Longrightarrow> (\<And>n t. cf_only P (g n t)) \<Longrightarrow> cf_only P (case v of Granted x \<Rightarrow> f x | Denied n t \<Rightarrow> g n t)"
  by (cases v) simp_all

lemma cf_only_prod [cf_only_intros]: "(\<And>x y. cf_only P (f x y)) \<Longrightarrow> cf_only P (case v of (x, y) \<Rightarrow> f x y)"
  by (cases v) simp_all

lemma cf_only_attempt [cf_only_intros]: "cf_only P m \<Longrightarrow> cf_only P (sx_attempt m)"
  unfolding cf_only_def sx_attempt_def by (auto split: prod.splits) (metis snd_conv)

lemma cf_only_gripe [cf_only_intros]: "cf_only P m \<Longrightarrow> cf_only P (gripe label m)"
  unfolding gripe_def by (intro cf_only_intros)

lemma cf_only_each [cf_only_intros]:
  "(\<And>x. x \<in> set xs \<Longrightarrow> cf_only P (f x)) \<Longrightarrow> cf_only P (each f xs)"
  "(\<And>x. x \<in> set xs \<Longrightarrow> cf_only P (g x)) \<Longrightarrow> cf_only P (gather g xs)"
  by (induction xs) (auto intro!: cf_only_intros)

lemma cf_only_calls [cf_only_intros]:
  "P c \<Longrightarrow> cf_only P (cf_call_or k c f)"
  "P (CfExists p) \<Longrightarrow> cf_only P (cf_exists k p)"
  "P (CfRead p) \<Longrightarrow> cf_only P (cf_read_or_default k p)"
  unfolding cf_call_or_def cf_exists_def cf_read_or_default_def by (intro cf_only_intros; assumption)+

lemma cf_only_write_file [cf_only_intros]:
  "P (CfOpen p) \<Longrightarrow> P (CfExists p) \<Longrightarrow> P (CfCreate p) \<Longrightarrow> P (CfWrite p (line_of c)) \<Longrightarrow> cf_only P (cf_write_file k p c)"
  unfolding cf_write_file_def by (intro cf_only_intros; assumption)

lemma cf_only_helpers [cf_only_intros]:
  "P (CfOpen p) \<Longrightarrow> P (CfExists p) \<Longrightarrow> P (CfCreate p) \<Longrightarrow> P (CfWrite p (line_of c)) \<Longrightarrow> cf_only P (write_file_if_exists k p c)"
  "P (CfCreate p) \<Longrightarrow> P (CfWrite p (bytes_string d)) \<Longrightarrow> cf_only P (write_bytes k p d)"
  "P (CfMkdir p) \<Longrightarrow> cf_only P (create_dir k p)"
  "P (CfExists p) \<Longrightarrow> P (CfRmdir p) \<Longrightarrow> cf_only P (remove_dir k p)"
  "P (CfExists p) \<Longrightarrow> P (CfUnlink p) \<Longrightarrow> cf_only P (remove_file k p)"
  "P (CfSymlink p q) \<Longrightarrow> cf_only P (create_symlink k p q)"
  unfolding write_file_if_exists_def write_bytes_def create_dir_def remove_dir_def remove_file_def create_symlink_def
  by (intro cf_only_intros; assumption)+

lemma cf_call_or_Inr: "cf_call_or k c f h = (Inr ss, h') \<longleftrightarrow> k h c = Granted ss \<and> h' = h @ [(c, Granted ss)]"
  by (auto simp: cf_call_or_def cf_ask_def sx_bind_def sx_apply Let_def split: cf_reply.splits)

lemma cf_call_Inr:
  "cf_ask k c h = (Inr r, h') \<longleftrightarrow> r = k h c \<and> h' = h @ [(c, r)]"
  "cf_exists k p h = (Inr b, h') \<longleftrightarrow> b = granted (k h (CfExists p)) \<and> h' = h @ [(CfExists p, k h (CfExists p))]"
  by (auto simp: cf_ask_def cf_exists_def sx_bind_def sx_apply Let_def)

text \<open>A write that succeeds is the last call.\<close>

lemma write_file_last:
  assumes "cf_write_file k p c h = (Inr u, h')"
  shows "\<exists>new ss. h' = h @ new @ [(CfWrite p (line_of c), Granted ss)]"
proof -
  let ?opening = "\<lambda>opened. case opened of
        Granted _ \<Rightarrow> sx_return ()
      | Denied _ t \<Rightarrow>
          sx_bind (cf_exists k p) (\<lambda>there.
            if there then sx_fail (open_error p t)
            else sx_bind (cf_call_or k (CfCreate p) (open_error p)) (\<lambda>_. sx_return ()))"
  obtain opened w h1 h2 ss where "cf_ask k (CfOpen p) h = (Inr opened, h1)" and o: "?opening opened h1 = (Inr w, h2)"
    and "h' = h2 @ [(CfWrite p (line_of c), Granted ss)]"
    using assms unfolding cf_write_file_def sx_bind_Inr sx_Inr cf_call_or_Inr by blast
  moreover have only: "cf_only (\<lambda>_. True) (?opening opened)" by (intro cf_only_intros TrueI)
  obtain new where "h2 = h1 @ new" using cf_onlyD [OF only o] by blast
  ultimately show ?thesis by (auto simp: cf_call_Inr)
qed

section \<open>What the kernel shows of a LUN\<close>

text \<open>A LUN is backed by the file whose path was last stored in its \<open>file\<close> attribute; a write to \<open>forced_eject\<close>
  detaches it.\<close>

definition stored_name :: "string \<Rightarrow> string" where
  "stored_name d = (if d \<noteq> [] \<and> last d = newline then butlast d else d)"

fun lun_effect :: "string \<Rightarrow> cf_call \<times> cf_reply \<Rightarrow> string \<Rightarrow> string" where
  "lun_effect lun (CfWrite q d, Granted _) b =
     (if q = join lun ''file'' then stored_name d else if q = join lun ''forced_eject'' then [] else b)"
| "lun_effect lun _ b = b"

definition backing :: "string \<Rightarrow> cf_log \<Rightarrow> string" where
  "backing lun h = fold (lun_effect lun) h []"

definition touches :: "string \<Rightarrow> cf_call \<Rightarrow> bool" where
  "touches lun c \<longleftrightarrow> (\<exists>d. c = CfWrite (join lun ''file'') d \<or> c = CfWrite (join lun ''forced_eject'') d)"

lemma lun_effect_untouched: "\<not> touches lun (fst e) \<Longrightarrow> lun_effect lun e b = b"
  by (cases "(lun, e, b)" rule: lun_effect.cases) (auto simp: touches_def)

lemma backing_append: "backing lun (h @ new) = fold (lun_effect lun) new (backing lun h)"
  by (simp add: backing_def)

lemma backing_untouched: "\<forall>e \<in> set new. \<not> touches lun (fst e) \<Longrightarrow> backing lun (h @ new) = backing lun h"
  unfolding backing_append by (induction new arbitrary: h) (simp_all add: lun_effect_untouched backing_def)

lemma backing_kept: "cf_only (\<lambda>c. \<not> touches lun c) m \<Longrightarrow> m h = (r, h') \<Longrightarrow> backing lun h' = backing lun h"
  using cf_onlyD backing_untouched by fastforce

lemma backing_stored:
  "cf_write_file k (join lun ''file'') f h = (Inr u, h') \<Longrightarrow> backing lun h' = stored_name (line_of f)"
  using write_file_last by (fastforce simp: backing_append)

end
