(* ===== verification/MsdFunction.thy ===== *)
theory MsdFunction
  imports UsbConfig Configfs
begin

text \<open>
  The mass-storage function of the gadget (\<open>src/otg/msd.rs\<close>): LUN directories in configfs, attaching a medium with
  the rebind a change of media type needs, and detaching it.  A LUN that was configured shows its file, and no
  operation on one LUN touches another.
\<close>

section \<open>The function\<close>

record MsdLunConfig =
  lc_file :: string
  lc_cdrom :: bool
  lc_ro :: bool
  lc_removable :: bool
  lc_nofua :: bool

definition lc_for_cdrom :: "string \<Rightarrow> MsdLunConfig" where
  "lc_for_cdrom file = \<lparr>lc_file = file, lc_cdrom = True, lc_ro = True, lc_removable = True, lc_nofua = True\<rparr>"

definition lc_for_disk :: "string \<Rightarrow> bool \<Rightarrow> MsdLunConfig" where
  "lc_for_disk file read_only =
     \<lparr>lc_file = file, lc_cdrom = False, lc_ro = read_only, lc_removable = True, lc_nofua = False\<rparr>"

record MsdInquiryStrings =
  iq_flash :: string
  iq_cdrom :: string

definition MsdInquiryStrings_default :: MsdInquiryStrings where
  "MsdInquiryStrings_default = \<lparr>iq_flash = DEFAULT_FLASH_INQUIRY_STRING, iq_cdrom = DEFAULT_CDROM_INQUIRY_STRING\<rparr>"

definition inquiry_strings_of :: "MsdConfig \<Rightarrow> MsdInquiryStrings" where
  "inquiry_strings_of c = \<lparr>iq_flash = mc_flash_inquiry_string c, iq_cdrom = mc_cdrom_inquiry_string c\<rparr>"

record MsdFunction =
  mf_name :: string
  mf_lun_capacity :: u8
  mf_inquiry_strings :: MsdInquiryStrings

definition MsdFunction_new :: "u8 \<Rightarrow> u8 \<Rightarrow> MsdInquiryStrings \<Rightarrow> AppError + MsdFunction" where
  "MsdFunction_new instance_no lun_capacity inquiry =
     (if lun_capacity \<noteq> 1 \<and> lun_capacity \<noteq> 8 then
        Inl (BadRequest (''MSD LUN capacity must be 1 or 8, got '' @ dec_of_nat (unat lun_capacity)))
      else Inr \<lparr>mf_name = ''mass_storage.usb'' @ dec_of_nat (unat instance_no), mf_lun_capacity = lun_capacity,
        mf_inquiry_strings = inquiry\<rparr>)"

definition function_path :: "string \<Rightarrow> string \<Rightarrow> string" where
  "function_path gadget_path name = join (join gadget_path ''functions'') name"

definition lun_name :: "nat \<Rightarrow> string" where
  "lun_name lun = ''lun.'' @ dec_of_nat lun"

definition lun_path :: "MsdFunction \<Rightarrow> string \<Rightarrow> u8 \<Rightarrow> string" where
  "lun_path f gadget_path lun = join (function_path gadget_path (mf_name f)) (lun_name (unat lun))"

text \<open>\<open>str::parse::<u16>\<close>.\<close>

fun dec_value :: "nat \<Rightarrow> string \<Rightarrow> nat option" where
  "dec_value acc [] = Some acc"
| "dec_value acc (c # s) =
     (let n = (of_char c :: nat) in
      if 48 \<le> n \<and> n \<le> 57 \<and> acc * 10 + (n - 48) \<le> 65535 then dec_value (acc * 10 + (n - 48)) s else None)"

definition parse_u16 :: "string \<Rightarrow> nat option" where
  "parse_u16 s =
     (let digits = (case s of c # rest \<Rightarrow> if c = CHR ''+'' then rest else s | [] \<Rightarrow> [])
      in if digits = [] then None else dec_value 0 digits)"

definition lun_entry :: "string \<Rightarrow> string \<Rightarrow> (nat \<times> string) option" where
  "lun_entry func_path name =
     (if take 4 name = ''lun.'' then map_option (\<lambda>lun. (lun, join func_path name)) (parse_u16 (drop 4 name)) else None)"

definition existing_lun_paths :: "cf_kernel \<Rightarrow> MsdFunction \<Rightarrow> string \<Rightarrow> (nat \<times> string) list cf" where
  "existing_lun_paths k f gadget_path =
     (let func_path = function_path gadget_path (mf_name f) in
      sx_bind (cf_exists k func_path) (\<lambda>there.
      if \<not> there then sx_return []
      else
        sx_bind (cf_call_or k (CfList func_path)
          (\<lambda>t. Internal (''Failed to read MSD function directory '' @ func_path @ '': '' @ t))) (\<lambda>names.
          sx_return (sort_key fst (List.map_filter (lun_entry func_path) names)))))"

definition clear_lun_unbound :: "cf_kernel \<Rightarrow> MsdFunction \<Rightarrow> string \<Rightarrow> u8 \<Rightarrow> unit cf" where
  "clear_lun_unbound k f gadget_path lun =
     (let p = lun_path f gadget_path lun in
      sx_bind (cf_exists k p) (\<lambda>there.
      sx_bind (if there then sx_return () else create_dir k p) (\<lambda>_.
      sx_bind (cf_write_file k (join p ''file'') []) (\<lambda>_.
      sx_bind (sx_attempt (cf_write_file k (join p ''cdrom'') ''0'')) (\<lambda>_.
      sx_bind (sx_attempt (cf_write_file k (join p ''ro'') ''0'')) (\<lambda>_.
      sx_bind (sx_attempt (cf_write_file k (join p ''removable'') ''1'')) (\<lambda>_.
      sx_bind (sx_attempt (cf_write_file k (join p ''nofua'') ''1'')) (\<lambda>_. sx_return ()))))))))"

section \<open>Attaching a medium\<close>

definition flag :: "bool \<Rightarrow> string" where
  "flag b = (if b then ''1'' else ''0'')"

definition media_type_rebind_required :: "string \<Rightarrow> MsdLunConfig \<Rightarrow> bool" where
  "media_type_rebind_required current_cdrom config \<longleftrightarrow> current_cdrom \<noteq> flag (lc_cdrom config)"

definition inquiry_string_path :: "cf_kernel \<Rightarrow> string \<Rightarrow> bool \<Rightarrow> string option cf" where
  "inquiry_string_path k p cdrom =
     sx_bind (if cdrom then cf_exists k (join p ''inquiry_string_cdrom'') else sx_return False) (\<lambda>own.
     if own then sx_return (Some (join p ''inquiry_string_cdrom''))
     else sx_bind (cf_exists k (join p ''inquiry_string'')) (\<lambda>there.
       sx_return (if there then Some (join p ''inquiry_string'') else None)))"

definition inquiry_string :: "MsdFunction \<Rightarrow> bool \<Rightarrow> string" where
  "inquiry_string f cdrom = (if cdrom then iq_cdrom (mf_inquiry_strings f) else iq_flash (mf_inquiry_strings f))"

definition write_inquiry_string :: "cf_kernel \<Rightarrow> MsdFunction \<Rightarrow> string \<Rightarrow> bool \<Rightarrow> unit cf" where
  "write_inquiry_string k f p cdrom =
     sx_bind (inquiry_string_path k p cdrom) (\<lambda>path.
       case path of None \<Rightarrow> sx_return () | Some path \<Rightarrow> cf_write_file k path (inquiry_string f cdrom))"

definition write_inquiry_strings :: "cf_kernel \<Rightarrow> MsdFunction \<Rightarrow> string \<Rightarrow> unit cf" where
  "write_inquiry_strings k f p =
     sx_bind (cf_exists k (join p ''inquiry_string'')) (\<lambda>there.
     sx_bind (if there then cf_write_file k (join p ''inquiry_string'') (iq_flash (mf_inquiry_strings f)) else sx_return ()) (\<lambda>_.
     sx_bind (cf_exists k (join p ''inquiry_string_cdrom'')) (\<lambda>there.
       if there then cf_write_file k (join p ''inquiry_string_cdrom'') (iq_cdrom (mf_inquiry_strings f)) else sx_return ())))"

definition is_busy :: "AppError \<Rightarrow> bool" where
  "is_busy e \<longleftrightarrow> contains_str ''Device or resource busy'' (AppError_fmt e) \<or> contains_str ''os error 16'' (AppError_fmt e)"

text \<open>The attempts left after this one; the last one gives up also on a busy LUN.\<close>

primrec write_medium :: "cf_kernel \<Rightarrow> string \<Rightarrow> string \<Rightarrow> nat \<Rightarrow> unit cf" where
  "write_medium k p file 0 = cf_write_file k (join p ''file'') file"
| "write_medium k p file (Suc n) =
     sx_bind (sx_attempt (cf_write_file k (join p ''file'') file)) (\<lambda>r.
       case r of
         Inr _ \<Rightarrow> sx_return ()
       | Inl e \<Rightarrow> if is_busy e then write_medium k p file n else sx_fail e)"

definition eject_for_change :: "cf_kernel \<Rightarrow> string \<Rightarrow> unit cf" where
  "eject_for_change k p =
     sx_bind (cf_exists k (join p ''forced_eject'')) (\<lambda>there.
     if there then
       sx_bind (sx_attempt (cf_write_file k (join p ''forced_eject'') ''1'')) (\<lambda>r.
         case r of Inr _ \<Rightarrow> sx_return () | Inl _ \<Rightarrow> cf_write_file k (join p ''file'') [])
     else cf_write_file k (join p ''file'') [])"

definition write_attr :: "cf_kernel \<Rightarrow> string \<Rightarrow> string \<Rightarrow> string \<Rightarrow> string \<Rightarrow> unit cf" where
  "write_attr k p attr current wanted =
     (if trim current \<noteq> wanted then cf_write_file k (join p attr) wanted else sx_return ())"

definition configure_lun_attributes :: "cf_kernel \<Rightarrow> MsdFunction \<Rightarrow> string \<Rightarrow> MsdLunConfig \<Rightarrow> unit cf" where
  "configure_lun_attributes k f p config =
     sx_bind (cf_read_or_default k (join p ''cdrom'')) (\<lambda>current_cdrom.
     sx_bind (cf_read_or_default k (join p ''ro'')) (\<lambda>current_ro.
     sx_bind (cf_read_or_default k (join p ''removable'')) (\<lambda>current_removable.
     sx_bind (cf_read_or_default k (join p ''nofua'')) (\<lambda>current_nofua.
     sx_bind (eject_for_change k p) (\<lambda>_.
     sx_bind (if trim current_cdrom \<noteq> flag (lc_cdrom config) then
                sx_bind (cf_write_file k (join p ''cdrom'') (flag (lc_cdrom config))) (\<lambda>_.
                  write_inquiry_string k f p (lc_cdrom config))
              else sx_return ()) (\<lambda>_.
     sx_bind (write_attr k p ''ro'' current_ro (flag (lc_ro config))) (\<lambda>_.
     sx_bind (write_attr k p ''removable'' current_removable (flag (lc_removable config))) (\<lambda>_.
     sx_bind (write_attr k p ''nofua'' current_nofua (flag (lc_nofua config))) (\<lambda>_.
     sx_bind (cf_exists k (lc_file config)) (\<lambda>there.
       if there then write_medium k p (lc_file config) 4 else sx_return ()))))))))))"

definition bound_udc :: "cf_kernel \<Rightarrow> string \<Rightarrow> u8 \<Rightarrow> bool \<Rightarrow> string cf" where
  "bound_udc k udc_path lun rebind_required =
     sx_bind (if rebind_required then cf_exists k udc_path else sx_return False) (\<lambda>there.
     if there then
       sx_bind (cf_call_or k (CfRead udc_path) (\<lambda>t. Internal (''Failed to read bound UDC before changing LUN '' @
           dec_of_nat (unat lun) @ '' media type: '' @ t))) (\<lambda>content. sx_return (trim (concat content)))
     else sx_return [])"

definition join_results :: "u8 \<Rightarrow> string \<Rightarrow> unit app_result \<Rightarrow> unit app_result \<Rightarrow> unit app_result" where
  "join_results lun udc configured rebound =
     (case (configured, rebound) of
        (Inr _, Inr _) \<Rightarrow> Inr ()
      | (Inl e, Inr _) \<Rightarrow> Inl e
      | (Inr _, Inl e) \<Rightarrow> Inl (Internal (''Configured LUN '' @ dec_of_nat (unat lun) @ '', but failed to rebind UDC '' @
          udc @ '': '' @ AppError_fmt e))
      | (Inl e, Inl e') \<Rightarrow> Inl (Internal (''Failed to configure LUN '' @ dec_of_nat (unat lun) @ '': '' @ AppError_fmt e @
          ''; also failed to rebind UDC '' @ udc @ '': '' @ AppError_fmt e')))"

definition configure_lun :: "cf_kernel \<Rightarrow> MsdFunction \<Rightarrow> string \<Rightarrow> u8 \<Rightarrow> MsdLunConfig \<Rightarrow> unit cf" where
  "configure_lun k f gadget_path lun config =
     (if lun \<ge> mf_lun_capacity f then
        sx_fail (BadRequest (''LUN '' @ dec_of_nat (unat lun) @ '' is outside MSD capacity '' @ dec_of_nat (unat (mf_lun_capacity f))))
      else
        let p = lun_path f gadget_path lun; udc_path = join gadget_path ''UDC'' in
        sx_bind (cf_exists k p) (\<lambda>there.
        if \<not> there then sx_fail (Internal (''Configured MSD LUN '' @ dec_of_nat (unat lun) @ '' does not exist''))
        else
          sx_bind (cf_read_or_default k (join p ''cdrom'')) (\<lambda>current_cdrom.
          sx_bind (bound_udc k udc_path lun (media_type_rebind_required (trim current_cdrom) config)) (\<lambda>udc.
          sx_bind (if udc \<noteq> [] then cf_write_file k udc_path [] else sx_return ()) (\<lambda>_.
          sx_bind (sx_attempt (configure_lun_attributes k f p config)) (\<lambda>configured.
          sx_bind (if udc = [] then sx_return (Inr ()) else sx_attempt (cf_write_file k udc_path udc)) (\<lambda>rebound.
            sx_lift (join_results lun udc configured rebound))))))))"

section \<open>Detaching a medium\<close>

definition EBUSY :: int where "EBUSY = 16"

definition clear_lun_file :: "cf_kernel \<Rightarrow> string \<Rightarrow> unit cf" where
  "clear_lun_file k file_path =
     sx_bind (cf_call_or k (CfOpen file_path) (\<lambda>_. Msd MsdDisconnectFailed)) (\<lambda>_.
     sx_bind (cf_ask k (CfWrite file_path [newline])) (\<lambda>r.
       case r of
         Granted _ \<Rightarrow> sx_return ()
       | Denied errno _ \<Rightarrow>
           sx_fail (Msd (if errno = Some EBUSY then MsdMediumRemovalPrevented else MsdDisconnectFailed))))"

definition clear_if_exists :: "cf_kernel \<Rightarrow> string \<Rightarrow> unit cf" where
  "clear_if_exists k file_path =
     sx_bind (cf_exists k file_path) (\<lambda>there. if there then clear_lun_file k file_path else sx_return ())"

definition disconnect_lun_path :: "cf_kernel \<Rightarrow> string \<Rightarrow> unit cf" where
  "disconnect_lun_path k p =
     sx_bind (cf_exists k p) (\<lambda>there.
     if \<not> there then sx_return ()
     else
       sx_bind (cf_exists k (join p ''forced_eject'')) (\<lambda>forced.
       if forced then
         sx_bind (sx_attempt (cf_write_file k (join p ''forced_eject'') ''1'')) (\<lambda>r.
           case r of Inr _ \<Rightarrow> sx_return () | Inl _ \<Rightarrow> clear_if_exists k (join p ''file''))
       else clear_if_exists k (join p ''file'')))"

definition disconnect_lun :: "cf_kernel \<Rightarrow> MsdFunction \<Rightarrow> string \<Rightarrow> u8 \<Rightarrow> unit cf" where
  "disconnect_lun k f gadget_path lun =
     (if lun \<ge> mf_lun_capacity f then
        sx_fail (BadRequest (''LUN '' @ dec_of_nat (unat lun) @ '' is outside MSD capacity '' @ dec_of_nat (unat (mf_lun_capacity f))))
      else disconnect_lun_path k (lun_path f gadget_path lun))"

definition get_lun_file :: "cf_kernel \<Rightarrow> MsdFunction \<Rightarrow> string \<Rightarrow> u8 \<Rightarrow> string option cf" where
  "get_lun_file k f gadget_path lun =
     sx_bind (cf_read_or_default k (join (lun_path f gadget_path lun) ''file'')) (\<lambda>content.
       sx_return (if trim content = [] then None else Some (trim content)))"

definition is_lun_connected :: "cf_kernel \<Rightarrow> MsdFunction \<Rightarrow> string \<Rightarrow> u8 \<Rightarrow> bool cf" where
  "is_lun_connected k f gadget_path lun =
     sx_bind (get_lun_file k f gadget_path lun) (\<lambda>file. sx_return (file \<noteq> None))"

section \<open>As a function of the gadget\<close>

definition msd_create :: "cf_kernel \<Rightarrow> MsdFunction \<Rightarrow> string \<Rightarrow> unit cf" where
  "msd_create k f gadget_path =
     (let func_path = function_path gadget_path (mf_name f); stall = join func_path ''stall'' in
      sx_bind (create_dir k func_path) (\<lambda>_.
      sx_bind (cf_exists k stall) (\<lambda>there.
      sx_bind (if there then sx_bind (sx_attempt (cf_write_file k stall ''0'')) (\<lambda>_. sx_return ()) else sx_return ()) (\<lambda>_.
        each (\<lambda>lun.
          sx_bind (clear_lun_unbound k f gadget_path lun) (\<lambda>_.
            write_inquiry_strings k f (lun_path f gadget_path lun))) (map of_nat [0..<unat (mf_lun_capacity f)])))))"

definition link_unless_there :: "cf_kernel \<Rightarrow> string \<Rightarrow> string \<Rightarrow> unit cf" where
  "link_unless_there k target link_path =
     sx_bind (cf_exists k link_path) (\<lambda>there. if there then sx_return () else create_symlink k target link_path)"

definition msd_cleanup :: "cf_kernel \<Rightarrow> MsdFunction \<Rightarrow> string \<Rightarrow> unit cf" where
  "msd_cleanup k f gadget_path =
     sx_bind (sx_attempt (existing_lun_paths k f gadget_path)) (\<lambda>listed.
     sx_bind (gather (\<lambda>(lun, p).
         sx_bind (gripe (\<lambda>e. ''could not disconnect LUN '' @ dec_of_nat lun @ '': '' @ AppError_fmt e)
           (disconnect_lun_path k p)) (\<lambda>es.
         sx_bind (if lun = 0 then sx_return []
                  else gripe (\<lambda>e. ''could not remove LUN '' @ dec_of_nat lun @ '' directory: '' @ AppError_fmt e)
                    (remove_dir k p)) (\<lambda>es'. sx_return (es @ es'))))
         (case listed of Inl _ \<Rightarrow> [] | Inr luns \<Rightarrow> luns)) (\<lambda>es.
     sx_bind (gripe (\<lambda>e. ''could not remove MSD function directory: '' @ AppError_fmt e)
         (remove_dir k (function_path gadget_path (mf_name f)))) (\<lambda>es'.
       let errors = (case listed of Inl e \<Rightarrow> [''could not enumerate MSD LUN directories: '' @ AppError_fmt e] | Inr _ \<Rightarrow> []) @ es @ es'
       in if errors \<noteq> [] then sx_fail (Config (''MSD cleanup incomplete: '' @ join_with ''; '' errors)) else sx_return ())))"

section \<open>Paths\<close>

lemma of_char_digit: "d < 10 \<Longrightarrow> (of_char (digit_char d) :: nat) = 48 + d"
  by (simp add: digit_char_def)

lemma dec_value_append: "dec_value acc s = Some n \<Longrightarrow> dec_value acc (s @ t) = dec_value n t"
  by (induction s arbitrary: acc) (auto simp: Let_def split: if_splits)

lemma dec_value_dec_of_nat: "n \<le> 65535 \<Longrightarrow> dec_value 0 (dec_of_nat n) = Some n"
proof (induction n rule: dec_of_nat.induct)
  case (1 n)
  show ?case
  proof (cases "n < 10")
    case True
    then show ?thesis by (simp add: dec_of_nat.simps [of n] of_char_digit Let_def)
  next
    case False
    then have "dec_value 0 (dec_of_nat (n div 10)) = Some (n div 10)" using 1 by simp
    then show ?thesis using False 1(2) by (simp add: dec_of_nat.simps [of n] dec_value_append of_char_digit Let_def)
  qed
qed

lemma digits_of_nat: "c \<in> set (dec_of_nat n) \<Longrightarrow> 48 \<le> (of_char c :: nat) \<and> (of_char c :: nat) \<le> 57"
proof (induction n rule: dec_of_nat.induct)
  case (1 n)
  have "c = digit_char (n mod 10) \<or> \<not> n < 10 \<and> c \<in> set (dec_of_nat (n div 10))"
    using "1.prems" by (subst (asm) dec_of_nat.simps) (auto split: if_splits)
  then show ?case
  proof
    assume "c = digit_char (n mod 10)"
    then show ?thesis by (simp add: of_char_digit)
  next
    assume "\<not> n < 10 \<and> c \<in> set (dec_of_nat (n div 10))"
    then show ?thesis using "1.IH" by blast
  qed
qed

lemma dec_of_nat_neq_Nil [simp]: "dec_of_nat n \<noteq> []"
  by (subst dec_of_nat.simps) simp

text \<open>The directory names are read back as the numbers they were made of.\<close>

lemma parse_dec_of_nat:
  assumes "n \<le> 65535" shows "parse_u16 (dec_of_nat n) = Some n"
proof (cases "dec_of_nat n")
  case (Cons c rest)
  have "c \<noteq> CHR ''+''" using digits_of_nat [of c n] Cons by auto
  then show ?thesis using dec_value_dec_of_nat [OF assms] Cons by (simp add: parse_u16_def del: dec_value.simps)
qed simp

lemma dec_of_u8_inj: "dec_of_nat (unat (a :: u8)) = dec_of_nat (unat b) \<longleftrightarrow> a = b"
proof
  have p: "parse_u16 (dec_of_nat (unat x)) = Some (unat x)" for x :: u8
    by (rule parse_dec_of_nat) (rule order.strict_implies_order [OF less_le_trans [OF unat_u8_less]], simp)
  assume "dec_of_nat (unat a) = dec_of_nat (unat b)"
  then have "Some (unat a) = Some (unat b)" using p [of a] p [of b] by metis
  then show "a = b" by (simp add: word_unat_eq_iff)
qed simp

lemma no_slash_lun_name [simp]: "CHR ''/'' \<notin> set (lun_name n)"
  using digits_of_nat [of "CHR ''/''" n] by (auto simp: lun_name_def)

lemma join_eq_iff:
  assumes "CHR ''/'' \<notin> set a" and "CHR ''/'' \<notin> set b"
  shows "join p a = join q b \<longleftrightarrow> p = q \<and> a = b"
proof
  let ?tail = "\<lambda>s. takeWhile (\<lambda>c. c \<noteq> CHR ''/'') (rev s)"
  have tail: "?tail (join r c) = rev c" if "CHR ''/'' \<notin> set c" for r c
    using that by (simp add: join_def takeWhile_append)
  assume e: "join p a = join q b"
  then have "rev a = rev b" using tail [OF assms(1)] tail [OF assms(2)] by metis
  then show "p = q \<and> a = b" using e by (simp add: join_def)
qed simp

lemma lun_path_eq_iff [simp]: "lun_path f gp a = lun_path f gp b \<longleftrightarrow> a = b"
  by (simp add: lun_path_def join_eq_iff) (simp add: lun_name_def dec_of_u8_inj)

lemma touches_join:
  "CHR ''/'' \<notin> set a \<Longrightarrow> touches lun (CfWrite (join p a) d) \<longleftrightarrow> p = lun \<and> (a = ''file'' \<or> a = ''forced_eject'')"
  by (auto simp: touches_def join_eq_iff)

lemma touches_other [simp]:
  "\<not> touches lun (CfExists p)" "\<not> touches lun (CfRead p)" "\<not> touches lun (CfOpen p)" "\<not> touches lun (CfCreate p)"
  "\<not> touches lun (CfMkdir p)" "\<not> touches lun (CfRmdir p)" "\<not> touches lun (CfUnlink p)" "\<not> touches lun (CfSymlink p q)"
  "\<not> touches lun (CfList p)" "\<not> touches lun (CfRename p q)" "\<not> touches lun (CfModprobe p)" "\<not> touches lun BridgeRecover"
  "\<not> touches lun (BridgeActivate p q)" "\<not> touches lun BridgeDeactivate"
  by (simp_all add: touches_def)

section \<open>What the operations do to the LUNs\<close>

lemma write_medium_ok:
  "write_medium k p file n h = (Inr u, h') \<Longrightarrow> backing p h' = stored_name (line_of file)"
proof (induction n arbitrary: h)
  case 0
  then show ?case using backing_stored by simp
next
  case (Suc n)
  obtain r h1 where w: "cf_write_file k (join p ''file'') file h = (r, h1)" by (meson surj_pair)
  show ?case
  proof (cases r)
    case (Inl e)
    then show ?thesis using Suc w by (auto simp: sx_bind_def sx_attempt_def sx_apply split: if_splits)
  next
    case (Inr v)
    then show ?thesis using Suc.prems w backing_stored by (simp add: sx_bind_def sx_attempt_def sx_apply)
  qed
qed

lemma write_medium_only: "cf_only (\<lambda>c. q \<noteq> p \<longrightarrow> \<not> touches q c) (write_medium k p file n)"
  by (induction n) (auto intro!: cf_only_intros simp: touches_join)

lemma inquiry_only: "cf_only (\<lambda>c. q \<noteq> p \<longrightarrow> \<not> touches q c) (write_inquiry_string k f p cdrom)"
proof -
  have paths: "cf_only (\<lambda>c. q \<noteq> p \<longrightarrow> \<not> touches q c) (inquiry_string_path k p cdrom)"
    unfolding inquiry_string_path_def by (intro cf_only_intros) simp_all
  moreover have "cf_only (\<lambda>c. q \<noteq> p \<longrightarrow> \<not> touches q c)
      (case path of None \<Rightarrow> sx_return () | Some path \<Rightarrow> cf_write_file k path (inquiry_string f cdrom))"
    if "inquiry_string_path k p cdrom h = (Inr path, h')" for path h h'
  proof -
    have "path = None \<or> path = Some (join p ''inquiry_string'') \<or> path = Some (join p ''inquiry_string_cdrom'')"
      using that by (auto simp: inquiry_string_path_def sx_bind_Inr sx_Inr split: if_splits)
    then show ?thesis by (elim disjE) (auto simp: touches_join intro!: cf_only_intros)
  qed
  ultimately show ?thesis unfolding write_inquiry_string_def by (rule cf_only_bind_result)
qed

lemma attributes_only: "cf_only (\<lambda>c. q \<noteq> p \<longrightarrow> \<not> touches q c) (configure_lun_attributes k f p config)"
  unfolding configure_lun_attributes_def eject_for_change_def write_attr_def
  by (intro cf_only_intros write_medium_only inquiry_only) (auto simp: touches_join)

lemma disconnect_only: "cf_only (\<lambda>c. q \<noteq> p \<longrightarrow> \<not> touches q c) (disconnect_lun_path k p)"
  unfolding disconnect_lun_path_def clear_if_exists_def clear_lun_file_def
  by (intro cf_only_intros) (auto simp: touches_join)

lemma configure_only: "cf_only (\<lambda>c. q \<noteq> lun_path f gp lun \<longrightarrow> \<not> touches q c) (configure_lun k f gp lun config)"
  unfolding configure_lun_def bound_udc_def Let_def
  by (intro cf_only_intros attributes_only) (auto simp: touches_join)

text \<open>A write that fails has stored nothing.\<close>

lemma write_file_failed: "cf_write_file k p c h = (Inl e, h') \<Longrightarrow> backing lun h' = backing lun h"
  by (auto simp: cf_write_file_def cf_call_or_def cf_exists_def cf_ask_def sx_bind_def sx_apply Let_def backing_append granted_def
      split: cf_reply.splits if_splits)

text \<open>A medium whose file does not vanish.\<close>

definition file_stays :: "cf_kernel \<Rightarrow> string \<Rightarrow> bool" where
  "file_stays k p \<longleftrightarrow> (\<forall>h. granted (k h (CfExists p)))"

lemma attributes_ok:
  assumes "file_stays k (lc_file config)" and "configure_lun_attributes k f p config h = (Inr u, h')"
  shows "backing p h' = stored_name (line_of (lc_file config))"
proof -
  obtain h1 where "write_medium k p (lc_file config) 4 h1 = (Inr u, h')"
    using assms by (auto simp: file_stays_def configure_lun_attributes_def sx_bind_Inr cf_call_Inr)
  then show ?thesis by (rule write_medium_ok)
qed

lemma configure_ok:
  assumes "file_stays k (lc_file config)" and "configure_lun k f gp lun config h = (Inr u, h')"
  shows "backing (lun_path f gp lun) h' = stored_name (line_of (lc_file config))"
proof -
  have capacity: "\<not> mf_lun_capacity f \<le> lun" using assms(2) by (auto simp: configure_lun_def sx_apply)
  obtain there h0 where "cf_exists k (lun_path f gp lun) h = (Inr there, h0)" and
    rest: "(if \<not> there then sx_fail (Internal (''Configured MSD LUN '' @ dec_of_nat (unat lun) @ '' does not exist''))
        else
          sx_bind (cf_read_or_default k (join (lun_path f gp lun) ''cdrom'')) (\<lambda>current_cdrom.
          sx_bind (bound_udc k (join gp ''UDC'') lun (media_type_rebind_required (trim current_cdrom) config)) (\<lambda>udc.
          sx_bind (if udc \<noteq> [] then cf_write_file k (join gp ''UDC'') [] else sx_return ()) (\<lambda>_.
          sx_bind (sx_attempt (configure_lun_attributes k f (lun_path f gp lun) config)) (\<lambda>configured.
          sx_bind (if udc = [] then sx_return (Inr ()) else sx_attempt (cf_write_file k (join gp ''UDC'') udc)) (\<lambda>rebound.
            sx_lift (join_results lun udc configured rebound))))))) h0 = (Inr u, h')"
    using assms(2) capacity unfolding configure_lun_def Let_def by (simp only: if_False sx_bind_Inr) blast
  have there by (rule ccontr) (use rest in \<open>simp add: sx_apply\<close>)
  then obtain udc h1 configured h2 rebound where
    a: "sx_attempt (configure_lun_attributes k f (lun_path f gp lun) config) h1 = (Inr configured :: AppError + unit app_result, h2)"
    and r: "(if udc = [] then sx_return (Inr ()) else sx_attempt (cf_write_file k (join gp ''UDC'') udc)) h2 = (Inr rebound :: AppError + unit app_result, h')"
    and "join_results lun udc configured rebound = Inr u"
    using rest by (simp only: not_True_eq_False if_False sx_bind_Inr sx_Inr) blast
  then obtain v where v: "configured = Inr v" by (auto simp: join_results_def split: sum.splits)
  have "configure_lun_attributes k f (lun_path f gp lun) config h1 = (Inr v, h2)"
    using a v by (auto simp: sx_attempt_def split: prod.splits)
  then have "backing (lun_path f gp lun) h2 = stored_name (line_of (lc_file config))" 
    using attributes_ok [where config = config, OF assms(1)] by blast
  moreover have "cf_only (\<lambda>c. \<not> touches (lun_path f gp lun) c)
      (if udc = [] then sx_return (Inr ()) else sx_attempt (cf_write_file k (join gp ''UDC'') udc) :: unit app_result cf)"
    by (intro cf_only_intros) (auto simp: touches_join)
  ultimately show ?thesis using backing_kept r by metis
qed

lemma disconnect_failed:
  assumes "disconnect_lun_path k p h = (Inl e, h')"
  shows "backing lun h' = backing lun h"
proof -
  have c: "clear_if_exists k q g = (Inl e', g') \<Longrightarrow> backing lun g' = backing lun g" for q g e' g'
    by (auto simp: clear_if_exists_def clear_lun_file_def cf_call_or_def cf_exists_def cf_ask_def sx_bind_def sx_apply Let_def
        backing_append granted_def split: cf_reply.splits if_splits)
  have w: "sx_attempt (cf_write_file k q d) g = (Inr (Inl e'), g') \<Longrightarrow> backing lun g' = backing lun g" for q d g e' g'
    using write_file_failed by (auto simp: sx_attempt_def split: prod.splits)
  have n: "sx_attempt (m :: unit cf) g \<noteq> (Inl e', g')" for m g e' g' by (auto simp: sx_attempt_def split: prod.splits)
  have x: "cf_exists k q g = (r, g') \<Longrightarrow> backing lun g' = backing lun g" for q g r g'
    by (auto simp: cf_exists_def cf_ask_def sx_bind_def sx_apply Let_def backing_append)
  show ?thesis
    using assms unfolding disconnect_lun_path_def sx_bind_def
    by (auto simp: sx_apply n split: prod.splits sum.splits if_splits dest!: c w x)
qed

text \<open>A LUN that is configured shows its file from then on, until the same LUN is configured or detached again.\<close>

lemma configure_lun_shows:
  assumes "file_stays k (lc_file config)" and "configure_lun k f gp lun config h = (Inr u, h')"
  shows "backing (lun_path f gp l) h' =
    (if l = lun then stored_name (line_of (lc_file config)) else backing (lun_path f gp l) h)"
proof (cases "l = lun")
  case True
  then show ?thesis using configure_ok [OF assms] by simp
next
  case False
  have only: "cf_only (\<lambda>c. \<not> touches (lun_path f gp l) c) (configure_lun k f gp lun config)"
    by (rule cf_only_mono [OF configure_only [where q = "lun_path f gp l"]]) (use False in simp)
  then show ?thesis using False backing_kept [OF only assms(2)] by simp
qed

end
