(* ===== verification/UsbGadget.thy ===== *)
theory UsbGadget
  imports MsdFunction
begin

text \<open>
  The functions of the gadget (\<open>src/otg/hid.rs\<close>, \<open>report_desc.rs\<close>, \<open>uac.rs\<close>, \<open>network.rs\<close>) and the gadget manager
  (\<open>src/otg/manager.rs\<close>), which builds the gadget in configfs, binds it to a controller and takes it down.  A manager
  runs together with the log of the kernel calls.  The hash that derives network addresses is a parameter.
\<close>

unbundle bit_operations_syntax

section \<open>Report descriptors\<close>

definition KEYBOARD :: bytes where
  "KEYBOARD =
    [0x05, 0x01, 0x09, 0x06, 0xA1, 0x01, 0x05, 0x07, 0x19, 0xE0, 0x29, 0xE7, 0x15, 0x00, 0x25, 0x01,
     0x75, 0x01, 0x95, 0x08, 0x81, 0x02, 0x95, 0x01, 0x75, 0x08, 0x81, 0x01, 0x95, 0x06, 0x75, 0x08,
     0x15, 0x00, 0x26, 0xFF, 0x00, 0x05, 0x07, 0x19, 0x00, 0x2A, 0xFF, 0x00, 0x81, 0x00, 0xC0]"

definition KEYBOARD_WITH_LED :: bytes where
  "KEYBOARD_WITH_LED =
    [0x05, 0x01, 0x09, 0x06, 0xA1, 0x01, 0x05, 0x07, 0x19, 0xE0, 0x29, 0xE7, 0x15, 0x00, 0x25, 0x01,
     0x75, 0x01, 0x95, 0x08, 0x81, 0x02, 0x95, 0x01, 0x75, 0x08, 0x81, 0x01, 0x95, 0x05, 0x75, 0x01,
     0x05, 0x08, 0x19, 0x01, 0x29, 0x05, 0x91, 0x02, 0x95, 0x01, 0x75, 0x03, 0x91, 0x01, 0x95, 0x06,
     0x75, 0x08, 0x15, 0x00, 0x26, 0xFF, 0x00, 0x05, 0x07, 0x19, 0x00, 0x2A, 0xFF, 0x00, 0x81, 0x00,
     0xC0]"

definition MOUSE_RELATIVE :: bytes where
  "MOUSE_RELATIVE =
    [0x05, 0x01, 0x09, 0x02, 0xA1, 0x01, 0x09, 0x01, 0xA1, 0x00, 0x05, 0x09, 0x19, 0x01, 0x29, 0x05,
     0x15, 0x00, 0x25, 0x01, 0x95, 0x05, 0x75, 0x01, 0x81, 0x02, 0x95, 0x01, 0x75, 0x03, 0x81, 0x01,
     0x05, 0x01, 0x09, 0x30, 0x09, 0x31, 0x15, 0x81, 0x25, 0x7F, 0x75, 0x08, 0x95, 0x02, 0x81, 0x06,
     0x09, 0x38, 0x15, 0x81, 0x25, 0x7F, 0x75, 0x08, 0x95, 0x01, 0x81, 0x06, 0xC0, 0xC0]"

definition MOUSE_ABSOLUTE :: bytes where
  "MOUSE_ABSOLUTE =
    [0x05, 0x01, 0x09, 0x02, 0xA1, 0x01, 0x09, 0x01, 0xA1, 0x00, 0x05, 0x09, 0x19, 0x01, 0x29, 0x05,
     0x15, 0x00, 0x25, 0x01, 0x95, 0x05, 0x75, 0x01, 0x81, 0x02, 0x95, 0x01, 0x75, 0x03, 0x81, 0x01,
     0x05, 0x01, 0x09, 0x30, 0x16, 0x00, 0x00, 0x26, 0xFF, 0x7F, 0x75, 0x10, 0x95, 0x01, 0x81, 0x02,
     0x09, 0x31, 0x16, 0x00, 0x00, 0x26, 0xFF, 0x7F, 0x75, 0x10, 0x95, 0x01, 0x81, 0x02, 0x09, 0x38,
     0x15, 0x81, 0x25, 0x7F, 0x75, 0x08, 0x95, 0x01, 0x81, 0x06, 0xC0, 0xC0]"

definition CONSUMER_CONTROL :: bytes where
  "CONSUMER_CONTROL =
    [0x05, 0x0C, 0x09, 0x01, 0xA1, 0x01, 0x15, 0x00, 0x26, 0xFF, 0x03, 0x19, 0x00, 0x2A, 0xFF, 0x03,
     0x75, 0x10, 0x95, 0x01, 0x81, 0x00, 0xC0]"

section \<open>HID functions\<close>

datatype HidFunctionType = FnKeyboard | FnMouseRelative | FnMouseAbsolute | FnConsumerControl

primrec hid_protocol :: "HidFunctionType \<Rightarrow> u8" where
  "hid_protocol FnKeyboard = 1"
| "hid_protocol FnMouseRelative = 2"
| "hid_protocol FnMouseAbsolute = 2"
| "hid_protocol FnConsumerControl = 0"

primrec hid_subclass :: "HidFunctionType \<Rightarrow> u8" where
  "hid_subclass FnKeyboard = 1"
| "hid_subclass FnMouseRelative = 1"
| "hid_subclass FnMouseAbsolute = 0"
| "hid_subclass FnConsumerControl = 0"

primrec report_length :: "HidFunctionType \<Rightarrow> u8" where
  "report_length FnKeyboard = 8"
| "report_length FnMouseRelative = 4"
| "report_length FnMouseAbsolute = 6"
| "report_length FnConsumerControl = 2"

primrec report_desc :: "HidFunctionType \<Rightarrow> bool \<Rightarrow> bytes" where
  "report_desc FnKeyboard leds = (if leds then KEYBOARD_WITH_LED else KEYBOARD)"
| "report_desc FnMouseRelative leds = MOUSE_RELATIVE"
| "report_desc FnMouseAbsolute leds = MOUSE_ABSOLUTE"
| "report_desc FnConsumerControl leds = CONSUMER_CONTROL"

record HidFunction =
  hfn_instance :: u8
  hfn_type :: HidFunctionType
  hfn_name :: string
  hfn_keyboard_leds :: bool

definition HidFunction_of :: "HidFunctionType \<Rightarrow> u8 \<Rightarrow> bool \<Rightarrow> HidFunction" where
  "HidFunction_of ty instance_no leds =
     \<lparr>hfn_instance = instance_no, hfn_type = ty, hfn_name = ''hid.usb'' @ dec_of_nat (unat instance_no), hfn_keyboard_leds = leds\<rparr>"

definition device_path :: "HidFunction \<Rightarrow> string" where
  "device_path f = ''/dev/hidg'' @ dec_of_nat (unat (hfn_instance f))"

definition hid_create :: "cf_kernel \<Rightarrow> HidFunction \<Rightarrow> string \<Rightarrow> unit cf" where
  "hid_create k f gadget_path =
     (let p = function_path gadget_path (hfn_name f) in
      sx_bind (create_dir k p) (\<lambda>_.
      sx_bind (cf_write_file k (join p ''protocol'') (dec_of_nat (unat (hid_protocol (hfn_type f))))) (\<lambda>_.
      sx_bind (cf_write_file k (join p ''subclass'') (dec_of_nat (unat (hid_subclass (hfn_type f))))) (\<lambda>_.
      sx_bind (cf_write_file k (join p ''report_length'') (dec_of_nat (unat (report_length (hfn_type f))))) (\<lambda>_.
      sx_bind (write_bytes k (join p ''report_desc'') (report_desc (hfn_type f) (hfn_keyboard_leds f))) (\<lambda>_.
      sx_bind (write_file_if_exists k (join p ''wakeup_on_write'') ''1'') (\<lambda>_. sx_return ())))))))"

section \<open>Audio function\<close>

record UacFunction =
  uf_name :: string
  uf_sample_rate :: u32
  uf_channels :: u8

definition UacFunction_new :: "u8 \<Rightarrow> u32 \<Rightarrow> u8 \<Rightarrow> AppError + UacFunction" where
  "UacFunction_new instance_no sample_rate channels =
     (if sample_rate = 0 \<or> sample_rate > 384000 then
        Inl (BadRequest (''invalid UAC sample rate: '' @ dec_of_nat (unat sample_rate)))
      else if channels = 0 \<or> channels > 8 then
        Inl (BadRequest (''invalid UAC channel count: '' @ dec_of_nat (unat channels)))
      else Inr \<lparr>uf_name = ''uac1.usb'' @ dec_of_nat (unat instance_no), uf_sample_rate = sample_rate, uf_channels = channels\<rparr>)"

definition uac_create :: "cf_kernel \<Rightarrow> UacFunction \<Rightarrow> string \<Rightarrow> unit cf" where
  "uac_create k f gadget_path =
     (let p = function_path gadget_path (uf_name f); chmask = push_bit (unat (uf_channels f)) 1 - (1 :: u32) in
      sx_bind (create_dir k p) (\<lambda>_.
      sx_bind (cf_write_file k (join p ''p_chmask'') (dec_of_nat (unat chmask))) (\<lambda>_.
      sx_bind (cf_write_file k (join p ''p_srate'') (dec_of_nat (unat (uf_sample_rate f)))) (\<lambda>_.
      sx_bind (cf_write_file k (join p ''p_ssize'') ''2'') (\<lambda>_.
      sx_bind (cf_write_file k (join p ''p_volume_res'') ''256'') (\<lambda>_.
      sx_bind (cf_write_file k (join p ''c_chmask'') ''0'') (\<lambda>_.
      sx_bind (cf_write_file k (join p ''c_volume_present'') ''0'') (\<lambda>_.
      sx_bind (sx_attempt (cf_write_file k (join p ''req_number'') ''4'')) (\<lambda>_. sx_return ())))))))))"

definition uac_unlink :: "cf_kernel \<Rightarrow> UacFunction \<Rightarrow> string \<Rightarrow> unit cf" where
  "uac_unlink k f config_path =
     (let p = join config_path (uf_name f) in
      sx_bind (cf_exists k p) (\<lambda>there.
        if there then
          sx_bind (cf_call_or k (CfUnlink p) (\<lambda>t. Internal (''Failed to unlink UAC1 function '' @ uf_name f @ '': '' @ t)))
            (\<lambda>_. sx_return ())
        else sx_return ()))"

definition uac_cleanup :: "cf_kernel \<Rightarrow> UacFunction \<Rightarrow> string \<Rightarrow> unit cf" where
  "uac_cleanup k f gadget_path =
     (let p = function_path gadget_path (uf_name f) in
      sx_bind (cf_exists k p) (\<lambda>there.
        if there then
          sx_bind (sx_attempt (remove_dir k p)) (\<lambda>r.
            case r of
              Inr _ \<Rightarrow> sx_return ()
            | Inl e \<Rightarrow> sx_fail (Internal (''Failed to remove UAC1 function '' @ uf_name f @ '': '' @ AppError_fmt e)))
        else sx_return ()))"

section \<open>Network function\<close>

record NetworkFunction =
  nf_name :: string
  nf_mode :: OtgNetworkDriverMode
  nf_host_mac :: string
  nf_device_mac :: string

text \<open>The addresses derived from the identity of the machine, with octets 1 to 5 of its hash.\<close>

definition colon_hex :: "bytes \<Rightarrow> string" where
  "colon_hex bs = concat (map (\<lambda>b. CHR '':'' # hex02_lower b) bs)"

definition resolved_mac_pair :: "(string \<Rightarrow> u64) \<Rightarrow> cf_kernel \<Rightarrow> OtgNetworkConfig \<Rightarrow> (string \<times> string) cf" where
  "resolved_mac_pair hash k c =
     (if nc_device_mac c \<noteq> [] \<and> nc_host_mac c \<noteq> [] then sx_return (nc_device_mac c, nc_host_mac c)
      else
        sx_bind (cf_ask k (CfRead ''/etc/machine-id'')) (\<lambda>machine_id.
        sx_bind (case machine_id of
                   Granted ss \<Rightarrow> sx_return (concat ss)
                 | Denied _ _ \<Rightarrow>
                     sx_bind (cf_ask k (CfRead ''/etc/hostname'')) (\<lambda>r.
                       sx_return (case r of Granted ss \<Rightarrow> concat ss | Denied _ _ \<Rightarrow> ''one-kvm''))) (\<lambda>identity.
          let v = be_bytes 8 (unat (hash (trim identity)));
              device = ''02'' @ colon_hex (slice_of 1 6 v);
              host = ''02'' @ colon_hex (slice_of 1 5 v @ [v ! 5 XOR 0x01])
          in sx_return (if nc_device_mac c = [] then device else nc_device_mac c,
                        if nc_host_mac c = [] then host else nc_host_mac c))))"

definition NetworkFunction_new :: "(string \<Rightarrow> u64) \<Rightarrow> cf_kernel \<Rightarrow> u8 \<Rightarrow> OtgNetworkConfig \<Rightarrow> NetworkFunction cf" where
  "NetworkFunction_new hash k instance_no c =
     sx_bind (sx_lift (validate_network c)) (\<lambda>_.
     sx_bind (resolved_mac_pair hash k c) (\<lambda>(device, host).
       sx_return \<lparr>nf_name = function_name (nc_driver_mode c) @ ''.usb'' @ dec_of_nat (unat instance_no),
         nf_mode = nc_driver_mode c, nf_host_mac = host, nf_device_mac = device\<rparr>))"

definition interface_name :: "cf_kernel \<Rightarrow> NetworkFunction \<Rightarrow> string \<Rightarrow> string cf" where
  "interface_name k f gadget_path =
     (let path = join (function_path gadget_path (nf_name f)) ''ifname'' in
      sx_bind (cf_call_or k (CfRead path) (\<lambda>t. Internal (''Failed to read OTG network interface from '' @ path @ '': '' @ t))) (\<lambda>ss.
        let v = trim (concat ss) in
        if v = [] \<or> CHR ''%'' \<in> set v then
          sx_fail (Internal (''Kernel did not allocate an OTG network interface for '' @ nf_name f))
        else sx_return v))"

definition network_create :: "cf_kernel \<Rightarrow> NetworkFunction \<Rightarrow> string \<Rightarrow> unit cf" where
  "network_create k f gadget_path =
     (let p = function_path gadget_path (nf_name f) in
      sx_bind (create_dir k p) (\<lambda>_.
      sx_bind (cf_write_file k (join p ''dev_addr'') (nf_device_mac f)) (\<lambda>_.
      sx_bind (cf_write_file k (join p ''host_addr'') (nf_host_mac f)) (\<lambda>_.
      sx_bind (sx_attempt (cf_write_file k (join p ''ifname'') (''okvm-'' @ function_name (nf_mode f) @ ''%d''))) (\<lambda>_.
      if nf_mode f \<noteq> Rndis then sx_return ()
      else
        sx_bind (cf_write_file k (join gadget_path ''bDeviceClass'') ''0xEF'') (\<lambda>_.
        sx_bind (cf_write_file k (join gadget_path ''bDeviceSubClass'') ''0x02'') (\<lambda>_.
        sx_bind (cf_write_file k (join gadget_path ''bDeviceProtocol'') ''0x01'') (\<lambda>_.
        sx_bind (cf_write_file k (join gadget_path ''os_desc/use'') ''1'') (\<lambda>_.
        sx_bind (cf_write_file k (join gadget_path ''os_desc/b_vendor_code'') ''0xcd'') (\<lambda>_.
        sx_bind (write_bytes k (join gadget_path ''os_desc/qw_sign'') (string_bytes ''MSFT100'')) (\<lambda>_.
        sx_bind (cf_write_file k (join p ''os_desc/interface.rndis/compatible_id'') ''RNDIS'') (\<lambda>_.
          cf_write_file k (join p ''os_desc/interface.rndis/sub_compatible_id'') ''5162001''))))))))))))"

text \<open>\<open>Path::parent\<close> of a path with a separator inside.\<close>

definition path_parent :: "string \<Rightarrow> string option" where
  "path_parent p = (if CHR ''/'' \<in> set p then Some (rev (drop 1 (dropWhile (\<lambda>c. c \<noteq> CHR ''/'') (rev p)))) else None)"

definition network_link :: "cf_kernel \<Rightarrow> NetworkFunction \<Rightarrow> string \<Rightarrow> string \<Rightarrow> unit cf" where
  "network_link k f config_path gadget_path =
     sx_bind (link_unless_there k (function_path gadget_path (nf_name f)) (join config_path (nf_name f))) (\<lambda>_.
       if nf_mode f = Rndis then link_unless_there k config_path (join gadget_path ''os_desc/c.1'') else sx_return ())"

definition network_unlink :: "cf_kernel \<Rightarrow> NetworkFunction \<Rightarrow> string \<Rightarrow> unit cf" where
  "network_unlink k f config_path =
     sx_bind (case (if nf_mode f = Rndis then Option.bind (path_parent config_path) path_parent else None) of
                None \<Rightarrow> sx_return []
              | Some gadget_path \<Rightarrow> gripe AppError_fmt (remove_file k (join gadget_path ''os_desc/c.1''))) (\<lambda>es.
     sx_bind (gripe AppError_fmt (remove_file k (join config_path (nf_name f)))) (\<lambda>es'.
       if es @ es' = [] then sx_return ()
       else sx_fail (Config (''Failed to unlink OTG network function '' @ nf_name f @ '': '' @ join_with ''; '' (es @ es')))))"

section \<open>The trait of the functions\<close>

datatype gadget_function = HidFn HidFunction | MsdFn MsdFunction | NetFn NetworkFunction | UacFn UacFunction

primrec gf_name :: "gadget_function \<Rightarrow> string" where
  "gf_name (HidFn f) = hfn_name f"
| "gf_name (MsdFn f) = mf_name f"
| "gf_name (NetFn f) = nf_name f"
| "gf_name (UacFn f) = uf_name f"

primrec gf_create :: "cf_kernel \<Rightarrow> gadget_function \<Rightarrow> string \<Rightarrow> unit cf" where
  "gf_create k (HidFn f) gadget_path = hid_create k f gadget_path"
| "gf_create k (MsdFn f) gadget_path = msd_create k f gadget_path"
| "gf_create k (NetFn f) gadget_path = network_create k f gadget_path"
| "gf_create k (UacFn f) gadget_path = uac_create k f gadget_path"

primrec gf_link :: "cf_kernel \<Rightarrow> gadget_function \<Rightarrow> string \<Rightarrow> string \<Rightarrow> unit cf" where
  "gf_link k (HidFn f) config_path gadget_path =
     link_unless_there k (function_path gadget_path (hfn_name f)) (join config_path (hfn_name f))"
| "gf_link k (MsdFn f) config_path gadget_path =
     link_unless_there k (function_path gadget_path (mf_name f)) (join config_path (mf_name f))"
| "gf_link k (NetFn f) config_path gadget_path = network_link k f config_path gadget_path"
| "gf_link k (UacFn f) config_path gadget_path =
     create_symlink k (function_path gadget_path (uf_name f)) (join config_path (uf_name f))"

primrec gf_unlink :: "cf_kernel \<Rightarrow> gadget_function \<Rightarrow> string \<Rightarrow> unit cf" where
  "gf_unlink k (HidFn f) config_path = remove_file k (join config_path (hfn_name f))"
| "gf_unlink k (MsdFn f) config_path = remove_file k (join config_path (mf_name f))"
| "gf_unlink k (NetFn f) config_path = network_unlink k f config_path"
| "gf_unlink k (UacFn f) config_path = uac_unlink k f config_path"

primrec gf_cleanup :: "cf_kernel \<Rightarrow> gadget_function \<Rightarrow> string \<Rightarrow> unit cf" where
  "gf_cleanup k (HidFn f) gadget_path = remove_dir k (function_path gadget_path (hfn_name f))"
| "gf_cleanup k (MsdFn f) gadget_path = msd_cleanup k f gadget_path"
| "gf_cleanup k (NetFn f) gadget_path = remove_dir k (function_path gadget_path (nf_name f))"
| "gf_cleanup k (UacFn f) gadget_path = uac_cleanup k f gadget_path"

end
