(* ===== verification/UsbReports.thy ===== *)
theory UsbReports
  imports OtgBackend UsbGadget
begin

text \<open>
  The report descriptors the gadget declares, read item by item, against the reports the backend writes to the nodes.
\<close>

unbundle bit_operations_syntax

section \<open>The items of a report descriptor\<close>

text \<open>The short items of the HID standard: the low two bits of the prefix give the length of the data, the others the tag.\<close>

definition item_length :: "u8 \<Rightarrow> nat" where
  "item_length item = [0, 1, 2, 4] ! unat (item AND 3)"

text \<open>The bits of input and of output a descriptor declares, with the current report size and report count.\<close>

fun declared_bits :: "nat \<Rightarrow> nat \<Rightarrow> nat \<times> nat \<Rightarrow> bytes \<Rightarrow> (nat \<times> nat) option" where
  "declared_bits sz n (i, ou) [] = Some (i, ou)"
| "declared_bits sz n (i, ou) (item # bs) =
     (let len = item_length item; v = le_val (take len bs); rest = drop len bs; tag = item AND 0xFC
      in if length bs < len then None
         else if tag = 0x74 then declared_bits v n (i, ou) rest
         else if tag = 0x94 then declared_bits sz v (i, ou) rest
         else if tag = 0x80 then declared_bits sz n (i + sz * n, ou) rest
         else if tag = 0x90 then declared_bits sz n (i, ou + sz * n) rest
         else declared_bits sz n (i, ou) rest)"

primrec function_of :: "DeviceType \<Rightarrow> HidFunctionType" where
  "function_of KeyboardDev = FnKeyboard"
| "function_of MouseRelative = FnMouseRelative"
| "function_of MouseAbsolute = FnMouseAbsolute"
| "function_of ConsumerControl = FnConsumerControl"

lemma declared_each:
  "declared_bits 0 0 (0, 0) KEYBOARD = Some (64, 0)"
  "declared_bits 0 0 (0, 0) KEYBOARD_WITH_LED = Some (64, 8)"
  "declared_bits 0 0 (0, 0) MOUSE_RELATIVE = Some (32, 0)"
  "declared_bits 0 0 (0, 0) MOUSE_ABSOLUTE = Some (48, 0)"
  "declared_bits 0 0 (0, 0) CONSUMER_CONTROL = Some (16, 0)"
  by code_simp+

lemma declared: "declared_bits 0 0 (0, 0) (report_desc ty leds) =
  Some (8 * unat (report_length ty), if ty = FnKeyboard \<and> leds then 8 else 0)"
  by (cases ty) (simp_all add: declared_each)

section \<open>What the backend writes\<close>

definition pieces_fit :: "OtgBackend \<Rightarrow> OtgBackend \<Rightarrow> bool" where
  "pieces_fit b b' \<longleftrightarrow> os_writes (ob_os b') = [] \<and>
     (\<exists>new. os_accepted (ob_os b') = os_accepted (ob_os b) @ new \<and>
       (\<forall>(dt, piece) \<in> set new. length piece = unat (report_length (function_of dt))))"

lemma pieces_fit_trans: "pieces_fit a b \<Longrightarrow> pieces_fit b c \<Longrightarrow> pieces_fit a c"
  unfolding pieces_fit_def by fastforce

lemma sent_fits:
  assumes "report_sent dt data b r b'" and "os_writes (ob_os b) = []" and "length data = unat (report_length (function_of dt))"
  shows "pieces_fit b b'"
proof -
  obtain taken where "os_accepted (ob_os b') = os_accepted (ob_os b) @ map (Pair dt) taken" "os_writes (ob_os b') = []"
    "taken = [] \<or> taken = [data]"
    using assms(1,2) unfolding report_sent_def by blast
  then show ?thesis using assms(3) unfolding pieces_fit_def by auto
qed

lemma written_fits:
  assumes "os_write dt data b = (r, b')" and "os_writes (ob_os b) = []" and "length data = unat (report_length (function_of dt))"
    and "data \<noteq> []"
  shows "pieces_fit b b'"
  using os_write_outcome [OF assms(1)] assms(2-4) unfolding pieces_fit_def by (fastforce split: if_splits)

lemma error_fits: "os_writes (ob_os b) = [] \<Longrightarrow> pieces_fit b (snd (handle_write_error dt e operation b))"
  by (auto simp: handle_write_error_def pieces_fit_def split: if_splits)

lemma consumer_fits:
  assumes "os_writes (ob_os b) = []"
  shows "pieces_fit b (snd (send_consumer_report usage b))"
proof -
  let ?data = "[ucast (usage AND 0xFF), ucast (drop_bit 8 usage)] :: bytes"
  obtain q b1 where q: "ensure_device ConsumerControl b = (q, b1)" by fastforce
  obtain w b2 where w: "os_write ConsumerControl ?data b1 = (w, b2)" by fastforce
  obtain v b3 where v: "os_write ConsumerControl [0, 0] b2 = (v, b3)" by fastforce
  have 1: "pieces_fit b b1" using ensure_device_outcome [OF q] assms by (auto simp: pieces_fit_def)
  have 2: "pieces_fit b1 b2" by (rule written_fits [OF w]) (use 1 in \<open>simp_all add: pieces_fit_def\<close>)
  have 3: "pieces_fit b2 b3" by (rule written_fits [OF v]) (use 2 in \<open>simp_all add: pieces_fit_def\<close>)
  have 4: "pieces_fit b2 (snd (handle_write_error ConsumerControl e operation b2))" for e operation
    by (rule error_fits) (use 2 in \<open>simp add: pieces_fit_def\<close>)
  have 5: "pieces_fit b3 (reset_error_count (mark_online b3))" using 3 by (simp add: pieces_fit_def)
  have self: "pieces_fit b b" using assms by (simp add: pieces_fit_def)
  have "snd (send_consumer_report usage b) = (
      if dev_path ConsumerControl b = None then b
      else case q of
        Inl _ \<Rightarrow> b1
      | Inr _ \<Rightarrow> if dev_open ConsumerControl b1
          then (case w of Inl e \<Rightarrow> snd (handle_write_error ConsumerControl e ''Failed to write consumer report'' b2)
            | Inr True \<Rightarrow> reset_error_count (mark_online b3) | Inr False \<Rightarrow> b2)
          else b1)"
    using q w v by (auto simp: send_consumer_report_def send_report_to_def sx_bind_def split: sum.splits bool.splits)
  then show ?thesis
    using self 1 pieces_fit_trans [OF 1 2] pieces_fit_trans [OF pieces_fit_trans [OF 1 2] 4]
      pieces_fit_trans [OF pieces_fit_trans [OF pieces_fit_trans [OF 1 2] 3] 5]
    by (simp split: sum.splits bool.splits)
qed

text \<open>C15: 
  C0: Every report that the backend hands to a HID node has exactly the size the gadget declared for that node in its
  report descriptor, whose items are counted here bit by bit, and in its \<open>report_length\<close>.
\<close>
theorem reports_fit_descriptors:
  assumes "report_wf report" and "os_writes (ob_os b) = []"
    and "b' \<in> {snd (otg_send_keyboard_report now report b), snd (send_mouse_report_relative buttons dx dy wheel b),
      snd (send_mouse_report_absolute buttons x y wheel b), snd (send_consumer_report usage b)}"
  shows "\<exists>new. os_accepted (ob_os b') = os_accepted (ob_os b) @ new \<and>
    (\<forall>(dt, piece) \<in> set new. length piece = unat (report_length (function_of dt)) \<and>
      declared_bits 0 0 (0, 0) (report_desc (function_of dt) leds) =
        Some (8 * length piece, if dt = KeyboardDev \<and> leds then 8 else 0))"
proof -
  note sent = sent_fits [OF send_report_outcome [OF prod.collapse [symmetric]] assms(2)]
  have "pieces_fit b (snd (otg_send_keyboard_report now report b))"
    unfolding otg_send_keyboard_report_def
    by (rule sent) (use assms(1) in \<open>auto simp: report_wf_def report_to_bytes_def\<close>)
  moreover have "pieces_fit b (snd (send_mouse_report_relative buttons dx dy wheel b))"
    "pieces_fit b (snd (send_mouse_report_absolute buttons x y wheel b))"
    unfolding send_mouse_report_relative_def send_mouse_report_absolute_def by (rule sent; simp)+
  ultimately have "pieces_fit b b'" using assms(3) consumer_fits [OF assms(2)] by auto
  moreover have "function_of dt = FnKeyboard \<longleftrightarrow> dt = KeyboardDev" for dt by (cases dt) simp_all
  ultimately show ?thesis using declared unfolding pieces_fit_def by fastforce
qed


theorem reports_fit_descriptors_witness:
  "os_accepted (ob_os (snd (otg_send_keyboard_report 0 default_report gadget))) = [(KeyboardDev, replicate 8 0)] \<and>
   declared_bits 0 0 (0, 0) (report_desc FnKeyboard True) = Some (8 * 8, 8)"
proof -
  have sent: "os_accepted (ob_os (snd (otg_send_keyboard_report 0 default_report gadget))) = [(KeyboardDev, replicate 8 0)]"
    by code_simp
  have start: "report_wf default_report" "os_writes (ob_os gadget) = []" "os_accepted (ob_os gadget) = []" by code_simp+
  show ?thesis
    using reports_fit_descriptors [OF start(1,2), of "snd (otg_send_keyboard_report 0 default_report gadget)" 0 0 0 0 0 0 0 0 True] sent start(3)
    by simp
qed

end
