(* ===== verification/GadgetManager.thy ===== *)
theory GadgetManager
  imports UsbGadget
begin

text \<open>
  The gadget manager (\<open>src/otg/manager.rs\<close>): the list of functions, building the gadget in configfs, binding it, and
  taking it down again.  A manager runs together with the log of the kernel calls.
\<close>

section \<open>State\<close>

record GadgetDescriptor =
  gd_vendor_id :: u16
  gd_product_id :: u16
  gd_device_version :: u16
  gd_manufacturer :: string
  gd_product :: string
  gd_serial_number :: string

definition GadgetDescriptor_default :: GadgetDescriptor where
  "GadgetDescriptor_default =
     \<lparr>gd_vendor_id = DEFAULT_USB_VENDOR_ID, gd_product_id = DEFAULT_USB_PRODUCT_ID, gd_device_version = DEFAULT_USB_BCD_DEVICE,
      gd_manufacturer = ''One-KVM'', gd_product = ''One-KVM USB Device'', gd_serial_number = ''0123456789''\<rparr>"

record OtgGadgetManager =
  gm_gadget_name :: string
  gm_gadget_path :: string
  gm_config_path :: string
  gm_descriptor :: GadgetDescriptor
  gm_hid_instance :: u8
  gm_msd_instance :: u8
  gm_network_instance :: u8
  gm_uac_instance :: u8
  gm_functions :: "gadget_function list"
  gm_bound_udc :: "string option"
  gm_created_by_us :: bool

definition with_descriptor :: "string \<Rightarrow> GadgetDescriptor \<Rightarrow> OtgGadgetManager" where
  "with_descriptor gadget_name desc =
     (let gadget_path = join CONFIGFS_PATH gadget_name in
      \<lparr>gm_gadget_name = gadget_name, gm_gadget_path = gadget_path, gm_config_path = join gadget_path ''configs/c.1'',
       gm_descriptor = desc, gm_hid_instance = 0, gm_msd_instance = 0, gm_network_instance = 0, gm_uac_instance = 0,
       gm_functions = [], gm_bound_udc = None, gm_created_by_us = False\<rparr>)"

type_synonym 'a gadget = "(OtgGadgetManager \<times> cf_log, 'a) sx"

definition on_kernel :: "'a cf \<Rightarrow> 'a gadget" where
  "on_kernel m = sx_zoom snd (\<lambda>h s. (fst s, h)) m"

definition on_manager :: "(OtgGadgetManager \<Rightarrow> OtgGadgetManager) \<Rightarrow> unit gadget" where
  "on_manager f = sx_update (\<lambda>(m, h). (f m, h))"

text \<open>Running kernel calls that depend on the manager.\<close>

definition with_manager :: "(OtgGadgetManager \<Rightarrow> 'a cf) \<Rightarrow> 'a gadget" where
  "with_manager f s = on_kernel (f (fst s)) s"

section \<open>Adding functions\<close>

definition add_function :: "gadget_function \<Rightarrow> OtgGadgetManager \<Rightarrow> OtgGadgetManager" where
  "add_function f m = m\<lparr>gm_functions := gm_functions m @ [f]\<rparr>"

definition add_hid :: "HidFunctionType \<Rightarrow> bool \<Rightarrow> OtgGadgetManager \<Rightarrow> string \<times> OtgGadgetManager" where
  "add_hid ty leds m =
     (let f = HidFunction_of ty (gm_hid_instance m) leds in
      (device_path f, (add_function (HidFn f) m)\<lparr>gm_hid_instance := gm_hid_instance m + 1\<rparr>))"

definition add_keyboard :: "bool \<Rightarrow> OtgGadgetManager \<Rightarrow> string \<times> OtgGadgetManager" where
  "add_keyboard leds = add_hid FnKeyboard leds"

definition add_mouse_relative :: "OtgGadgetManager \<Rightarrow> string \<times> OtgGadgetManager" where
  "add_mouse_relative = add_hid FnMouseRelative False"

definition add_mouse_absolute :: "OtgGadgetManager \<Rightarrow> string \<times> OtgGadgetManager" where
  "add_mouse_absolute = add_hid FnMouseAbsolute False"

definition add_consumer_control :: "OtgGadgetManager \<Rightarrow> string \<times> OtgGadgetManager" where
  "add_consumer_control = add_hid FnConsumerControl False"

definition add_msd :: "u8 \<Rightarrow> MsdInquiryStrings \<Rightarrow> OtgGadgetManager \<Rightarrow> AppError + MsdFunction \<times> OtgGadgetManager" where
  "add_msd capacity inquiry m =
     (case MsdFunction_new (gm_msd_instance m) capacity inquiry of
        Inl e \<Rightarrow> Inl e
      | Inr f \<Rightarrow> Inr (f, (add_function (MsdFn f) m)\<lparr>gm_msd_instance := gm_msd_instance m + 1\<rparr>))"

definition add_network :: "(string \<Rightarrow> u64) \<Rightarrow> cf_kernel \<Rightarrow> OtgNetworkConfig \<Rightarrow> NetworkFunction gadget" where
  "add_network hash k c =
     sx_bind (with_manager (\<lambda>m. NetworkFunction_new hash k (gm_network_instance m) c)) (\<lambda>f.
     sx_bind (on_manager (\<lambda>m. (add_function (NetFn f) m)\<lparr>gm_network_instance := gm_network_instance m + 1\<rparr>)) (\<lambda>_.
       sx_return f))"

definition add_uac :: "u32 \<Rightarrow> u8 \<Rightarrow> OtgGadgetManager \<Rightarrow> AppError + UacFunction \<times> OtgGadgetManager" where
  "add_uac sample_rate channels m =
     (case UacFunction_new (gm_uac_instance m) sample_rate channels of
        Inl e \<Rightarrow> Inl e
      | Inr f \<Rightarrow> Inr (f, (add_function (UacFn f) m)\<lparr>gm_uac_instance := gm_uac_instance m + 1\<rparr>))"

section \<open>Binding and taking down\<close>

definition is_bound :: "cf_kernel \<Rightarrow> OtgGadgetManager \<Rightarrow> bool cf" where
  "is_bound k m =
     sx_bind (cf_ask k (CfRead (join (gm_gadget_path m) ''UDC''))) (\<lambda>r.
       sx_return (case r of Granted ss \<Rightarrow> trim (concat ss) \<noteq> [] | Denied _ _ \<Rightarrow> False))"

definition unbind :: "cf_kernel \<Rightarrow> unit gadget" where
  "unbind k =
     sx_bind (with_manager (is_bound k)) (\<lambda>is_up.
     if is_up then
       sx_bind (with_manager (\<lambda>m. cf_write_file k (join (gm_gadget_path m) ''UDC'') [])) (\<lambda>_.
         on_manager (\<lambda>m. m\<lparr>gm_bound_udc := None\<rparr>))
     else sx_return ())"

text \<open>The steps of the teardown; each goes on after an error, and the errors are collected.\<close>

definition teardown :: "cf_kernel \<Rightarrow> OtgGadgetManager \<Rightarrow> string list cf" where
  "teardown k m =
     (let functions = rev (gm_functions m) in
      sx_bind (gather (\<lambda>f. gripe (\<lambda>e. ''unlink '' @ gf_name f @ '' failed: '' @ AppError_fmt e) (gf_unlink k f (gm_config_path m))) functions) (\<lambda>es1.
      sx_bind (gripe AppError_fmt (remove_dir k (join (gm_config_path m) ''strings/0x409''))) (\<lambda>es2.
      sx_bind (gripe AppError_fmt (remove_dir k (gm_config_path m))) (\<lambda>es3.
      sx_bind (gather (\<lambda>f. gripe (\<lambda>e. ''cleanup '' @ gf_name f @ '' failed: '' @ AppError_fmt e) (gf_cleanup k f (gm_gadget_path m))) functions) (\<lambda>es4.
      sx_bind (gripe AppError_fmt (remove_dir k (join (gm_gadget_path m) ''strings/0x409''))) (\<lambda>es5.
      sx_bind (gripe AppError_fmt (remove_dir k (gm_gadget_path m))) (\<lambda>es6.
        sx_return (es1 @ es2 @ es3 @ es4 @ es5 @ es6))))))))"

definition gm_cleanup :: "cf_kernel \<Rightarrow> unit gadget" where
  "gm_cleanup k =
     sx_bind (with_manager (\<lambda>m. cf_exists k (gm_gadget_path m))) (\<lambda>there.
     if \<not> there then on_manager (\<lambda>m. m\<lparr>gm_created_by_us := False\<rparr>)
     else
       sx_bind (sx_attempt (unbind k)) (\<lambda>unbound.
       sx_bind (with_manager (teardown k)) (\<lambda>es.
         let errors = (case unbound of Inl e \<Rightarrow> [''unbind failed: '' @ AppError_fmt e] | Inr _ \<Rightarrow> []) @ es in
         if errors \<noteq> [] then sx_fail (Config (''OTG gadget cleanup incomplete: '' @ join_with ''; '' errors))
         else on_manager (\<lambda>m. m\<lparr>gm_created_by_us := False\<rparr>))))"

text \<open>\<open>Drop\<close>: a gadget this manager made is taken down; an error is only logged.\<close>

definition gm_drop :: "cf_kernel \<Rightarrow> OtgGadgetManager \<Rightarrow> cf_log \<Rightarrow> cf_log" where
  "gm_drop k m h = (if gm_created_by_us m then snd (snd (gm_cleanup k (m, h))) else h)"

section \<open>Building\<close>

definition hex04_lower :: "u16 \<Rightarrow> string" where
  "hex04_lower w = concat (map hex02_lower (be_bytes 2 (unat w)))"

definition set_device_descriptors :: "cf_kernel \<Rightarrow> OtgGadgetManager \<Rightarrow> unit cf" where
  "set_device_descriptors k m =
     (let p = gm_gadget_path m; d = gm_descriptor m in
      each (\<lambda>(attr, value). cf_write_file k (join p attr) value)
        [(''idVendor'', ''0x'' @ hex04_lower (gd_vendor_id d)), (''idProduct'', ''0x'' @ hex04_lower (gd_product_id d)),
         (''bcdDevice'', ''0x'' @ hex04_lower (gd_device_version d)), (''bcdUSB'', ''0x'' @ hex04_lower USB_BCD_USB),
         (''bDeviceClass'', ''0x00''), (''bDeviceSubClass'', ''0x00''), (''bDeviceProtocol'', ''0x00'')])"

definition create_strings :: "cf_kernel \<Rightarrow> OtgGadgetManager \<Rightarrow> unit cf" where
  "create_strings k m =
     (let p = join (gm_gadget_path m) ''strings/0x409''; d = gm_descriptor m in
      sx_bind (create_dir k p) (\<lambda>_.
      sx_bind (cf_write_file k (join p ''serialnumber'') (gd_serial_number d)) (\<lambda>_.
      sx_bind (cf_write_file k (join p ''manufacturer'') (gd_manufacturer d)) (\<lambda>_.
        cf_write_file k (join p ''product'') (gd_product d)))))"

definition name_starts :: "string \<Rightarrow> string \<Rightarrow> bool" where
  "name_starts prefix s \<longleftrightarrow> take (length prefix) s = prefix"

definition configuration_label :: "OtgGadgetManager \<Rightarrow> string" where
  "configuration_label m =
     (let has_msd = list_ex (\<lambda>f. name_starts ''mass_storage.'' (gf_name f)) (gm_functions m);
          has_network = list_ex (\<lambda>f. list_ex (\<lambda>p. name_starts p (gf_name f)) [''ncm.'', ''ecm.'', ''rndis.'']) (gm_functions m)
      in if has_msd \<and> has_network then ''Config 1: HID + MSD + NET''
         else if has_msd then ''Config 1: HID + MSD''
         else if has_network then ''Config 1: HID + NET''
         else ''Config 1: HID'')"

definition create_configuration :: "cf_kernel \<Rightarrow> OtgGadgetManager \<Rightarrow> unit cf" where
  "create_configuration k m =
     sx_bind (create_dir k (gm_config_path m)) (\<lambda>_.
     sx_bind (create_dir k (join (gm_config_path m) ''strings/0x409'')) (\<lambda>_.
     sx_bind (cf_write_file k (join (join (gm_config_path m) ''strings/0x409'') ''configuration'') (configuration_label m)) (\<lambda>_.
       cf_write_file k (join (gm_config_path m) ''MaxPower'') ''500'')))"

text \<open>\<open>Iterator::any\<close>: the calls stop at the first function that supports it.\<close>

primrec hid_wakeup_supported :: "cf_kernel \<Rightarrow> string \<Rightarrow> gadget_function list \<Rightarrow> bool cf" where
  "hid_wakeup_supported k gadget_path [] = sx_return False"
| "hid_wakeup_supported k gadget_path (f # fs) =
     (if name_starts ''hid.'' (gf_name f) then
        sx_bind (cf_exists k (join (function_path gadget_path (gf_name f)) ''wakeup_on_write'')) (\<lambda>there.
          if there then sx_return True else hid_wakeup_supported k gadget_path fs)
      else hid_wakeup_supported k gadget_path fs)"

definition create_functions :: "cf_kernel \<Rightarrow> OtgGadgetManager \<Rightarrow> unit cf" where
  "create_functions k m =
     each (\<lambda>f. sx_bind (gf_create k f (gm_gadget_path m)) (\<lambda>_. gf_link k f (gm_config_path m) (gm_gadget_path m))) (gm_functions m)"

definition build :: "cf_kernel \<Rightarrow> unit gadget" where
  "build k =
     sx_bind (with_manager (\<lambda>m. create_dir k (gm_gadget_path m))) (\<lambda>_.
     sx_bind (on_manager (\<lambda>m. m\<lparr>gm_created_by_us := True\<rparr>)) (\<lambda>_.
     with_manager (\<lambda>m.
       sx_bind (set_device_descriptors k m) (\<lambda>_.
       sx_bind (create_strings k m) (\<lambda>_.
       sx_bind (create_configuration k m) (\<lambda>_.
       sx_bind (create_functions k m) (\<lambda>_.
       sx_bind (hid_wakeup_supported k (gm_gadget_path m) (gm_functions m)) (\<lambda>wakeup.
         if wakeup then
           sx_bind (write_file_if_exists k (join (gm_config_path m) ''bmAttributes'') ''0xA0'') (\<lambda>_. sx_return ())
         else sx_return ()))))))))"

definition gm_setup :: "cf_kernel \<Rightarrow> unit gadget" where
  "gm_setup k =
     sx_bind (on_kernel (is_configfs_available k)) (\<lambda>available.
     if \<not> available then sx_fail (Internal (''ConfigFS not available at '' @ CONFIGFS_PATH))
     else
       sx_bind (with_manager (\<lambda>m. cf_exists k (gm_gadget_path m))) (\<lambda>there.
       if \<not> there then build k
       else
         sx_bind (with_manager (is_bound k)) (\<lambda>is_up.
         if is_up then sx_return ()
         else sx_bind (gm_cleanup k) (\<lambda>_. build k))))"

text \<open>The links are made anew in the order the directory lists them; a link that cannot be removed is left.\<close>

definition recreate_link :: "cf_kernel \<Rightarrow> OtgGadgetManager \<Rightarrow> string \<Rightarrow> unit cf" where
  "recreate_link k m name =
     (let src = join (join (gm_gadget_path m) ''functions'') name; dest = join (gm_config_path m) name in
      if \<not> contains_str ''.usb'' name then sx_return ()
      else
        sx_bind (cf_exists k dest) (\<lambda>there.
        if there then
          sx_bind (sx_attempt (remove_file k dest)) (\<lambda>r.
            case r of Inl _ \<Rightarrow> sx_return () | Inr _ \<Rightarrow> create_symlink k src dest)
        else create_symlink k src dest))"

definition recreate_config_links :: "cf_kernel \<Rightarrow> OtgGadgetManager \<Rightarrow> unit cf" where
  "recreate_config_links k m =
     (let functions_path = join (gm_gadget_path m) ''functions'' in
      sx_bind (cf_exists k functions_path) (\<lambda>functions.
      sx_bind (if functions then cf_exists k (gm_config_path m) else sx_return False) (\<lambda>there.
      if \<not> there then sx_return ()
      else
        sx_bind (cf_call_or k (CfList functions_path)
          (\<lambda>t. Internal (''Failed to read functions directory '' @ functions_path @ '': '' @ t))) (\<lambda>names.
          each (recreate_link k m) names))))"

definition bind_udc :: "cf_kernel \<Rightarrow> string \<Rightarrow> unit gadget" where
  "bind_udc k udc =
     sx_bind (sx_attempt (with_manager (recreate_config_links k))) (\<lambda>_.
     sx_bind (with_manager (\<lambda>m. cf_write_file k (join (gm_gadget_path m) ''UDC'') udc)) (\<lambda>_.
       on_manager (\<lambda>m. m\<lparr>gm_bound_udc := Some udc\<rparr>)))"

end
