(* ===== verification/OtgService.thy ===== *)
theory OtgService
  imports GadgetManager
begin

text \<open>
  The OTG service (\<open>src/otg/service.rs\<close>): the desired state of the gadget, and its reconciliation with what is built.
  The network bridge (\<open>src/otg/bridge.rs\<close>) is part of the environment: activating and restoring it are calls in the log.
  Waiting for the HID nodes after the gadget is bound only writes a log line and is left out.
\<close>

section \<open>State\<close>

datatype OtgRuntimeHealth = OtgHealthy | OtgApplying | OtgDegraded

record OtgDesiredState =
  ds_udc :: "string option"
  ds_descriptor :: GadgetDescriptor
  ds_hid_functions :: "OtgHidFunctions option"
  ds_keyboard_leds :: bool
  ds_msd_enabled :: bool
  ds_msd_lun_capacity :: u8
  ds_msd_inquiry_strings :: MsdInquiryStrings
  ds_network :: OtgNetworkConfig
  ds_uac :: UacConfig

definition OtgDesiredState_default :: OtgDesiredState where
  "OtgDesiredState_default =
     \<lparr>ds_udc = None, ds_descriptor = GadgetDescriptor_default, ds_hid_functions = None, ds_keyboard_leds = False,
      ds_msd_enabled = False, ds_msd_lun_capacity = 1, ds_msd_inquiry_strings = MsdInquiryStrings_default,
      ds_network = OtgNetworkConfig_default, ds_uac = UacConfig_default\<rparr>"

definition hid_enabled :: "OtgDesiredState \<Rightarrow> bool" where
  "hid_enabled d \<longleftrightarrow> ds_hid_functions d \<noteq> None"

definition network_enabled :: "OtgDesiredState \<Rightarrow> bool" where
  "network_enabled d \<longleftrightarrow> nc_enabled (ds_network d)"

record OtgServiceState =
  ot_health :: OtgRuntimeHealth
  ot_gadget_active :: bool
  ot_hid_enabled :: bool
  ot_msd_enabled :: bool
  ot_msd_lun_capacity :: u8
  ot_msd_inquiry_strings :: MsdInquiryStrings
  ot_network :: OtgNetworkConfig
  ot_uac :: UacConfig
  ot_configured_udc :: "string option"
  ot_hid_paths :: "HidDevicePaths option"
  ot_hid_functions :: "OtgHidFunctions option"
  ot_keyboard_leds_enabled :: bool
  ot_descriptor :: "GadgetDescriptor option"
  ot_error :: "string option"

definition OtgServiceState_default :: OtgServiceState where
  "OtgServiceState_default =
     \<lparr>ot_health = OtgHealthy, ot_gadget_active = False, ot_hid_enabled = False, ot_msd_enabled = False,
      ot_msd_lun_capacity = 1, ot_msd_inquiry_strings = MsdInquiryStrings_default, ot_network = OtgNetworkConfig_default,
      ot_uac = UacConfig_default, ot_configured_udc = None, ot_hid_paths = None, ot_hid_functions = None,
      ot_keyboard_leds_enabled = False, ot_descriptor = None, ot_error = None\<rparr>"

record OtgService =
  og_manager :: "OtgGadgetManager option"
  og_state :: OtgServiceState
  og_msd_function :: "MsdFunction option"
  og_network_bridge :: bool
  og_desired :: OtgDesiredState
  og_recovery_checked :: bool
  og_log :: cf_log

definition OtgService_new :: OtgService where
  "OtgService_new =
     \<lparr>og_manager = None, og_state = OtgServiceState_default, og_msd_function = None, og_network_bridge = False,
      og_desired = OtgDesiredState_default, og_recovery_checked = False, og_log = []\<rparr>"

type_synonym 'a otg_service = "(OtgService, 'a) sx"

definition og_kernel :: "'a cf \<Rightarrow> 'a otg_service" where
  "og_kernel m = sx_zoom og_log (\<lambda>h s. s\<lparr>og_log := h\<rparr>) m"

definition og_update_state :: "(OtgServiceState \<Rightarrow> OtgServiceState) \<Rightarrow> unit otg_service" where
  "og_update_state f = sx_update (\<lambda>s. s\<lparr>og_state := f (og_state s)\<rparr>)"

definition bridge_error :: "int option \<Rightarrow> string \<Rightarrow> AppError" where
  "bridge_error errno t = (if errno = None then Config t else Internal t)"

section \<open>The desired state\<close>

definition gadget_descriptor_of :: "OtgDescriptorConfig \<Rightarrow> GadgetDescriptor" where
  "gadget_descriptor_of c =
     \<lparr>gd_vendor_id = od_vendor_id c, gd_product_id = od_product_id c, gd_device_version = DEFAULT_USB_BCD_DEVICE,
      gd_manufacturer = od_manufacturer c, gd_product = od_product c,
      gd_serial_number = (case od_serial_number c of None \<Rightarrow> ''0123456789'' | Some n \<Rightarrow> n)\<rparr>"

definition chosen_udc :: "cf_kernel \<Rightarrow> string option \<Rightarrow> string option cf" where
  "chosen_udc k configured =
     (case map_option trim configured of
        Some u \<Rightarrow> if u \<noteq> [] then sx_return (Some u) else find_udc k
      | None \<Rightarrow> find_udc k)"

definition from_config :: "cf_kernel \<Rightarrow> HidConfig \<Rightarrow> MsdConfig \<Rightarrow> OtgNetworkConfig \<Rightarrow> UacConfig \<Rightarrow> OtgDesiredState cf" where
  "from_config k hid msd network uac =
     sx_bind (sx_lift (validate_network network)) (\<lambda>_.
     sx_bind (sx_lift (validate_uac uac)) (\<lambda>_.
     sx_bind (sx_lift (validate_msd msd)) (\<lambda>_.
     let hid_functions = (if hcfg_backend hid = HidOtg then Some (constrained_otg_functions hid) else None) in
     sx_bind (sx_lift (validate_otg_functions hid)) (\<lambda>_.
     sx_bind (if hid_functions \<noteq> None \<or> mc_enabled msd \<or> nc_enabled network \<or> uac_enabled uac
              then chosen_udc k (hcfg_otg_udc hid) else sx_return None) (\<lambda>udc.
       sx_return
         \<lparr>ds_udc = udc, ds_descriptor = gadget_descriptor_of (hcfg_otg_descriptor hid), ds_hid_functions = hid_functions,
          ds_keyboard_leds = effective_otg_keyboard_leds hid, ds_msd_enabled = mc_enabled msd, ds_msd_lun_capacity = 1,
          ds_msd_inquiry_strings = inquiry_strings_of msd, ds_network = network,
          ds_uac = (if uac_enabled uac then uac else UacConfig_default)\<rparr>)))))"

definition desired_from_config_preserving_runtime ::
    "cf_kernel \<Rightarrow> HidConfig \<Rightarrow> MsdConfig \<Rightarrow> OtgNetworkConfig \<Rightarrow> UacConfig \<Rightarrow> OtgDesiredState otg_service" where
  "desired_from_config_preserving_runtime k hid msd network uac =
     sx_bind (og_kernel (from_config k hid msd network uac)) (\<lambda>desired.
     sx_bind (sx_read og_desired) (\<lambda>current.
       sx_return (desired\<lparr>ds_msd_lun_capacity := ds_msd_lun_capacity current\<rparr>)))"

section \<open>Reconciliation\<close>

definition matches_desired :: "OtgServiceState \<Rightarrow> OtgDesiredState \<Rightarrow> bool" where
  "matches_desired st d \<longleftrightarrow>
     ot_health st \<noteq> OtgDegraded \<and> ot_gadget_active st \<and> ot_hid_enabled st = hid_enabled d \<and>
     ot_msd_enabled st = ds_msd_enabled d \<and> ot_msd_lun_capacity st = ds_msd_lun_capacity d \<and>
     ot_msd_inquiry_strings st = ds_msd_inquiry_strings d \<and> ot_network st = ds_network d \<and> ot_uac st = ds_uac d \<and>
     ot_configured_udc st = ds_udc d \<and> ot_hid_functions st = ds_hid_functions d \<and>
     ot_keyboard_leds_enabled st = ds_keyboard_leds d \<and> ot_descriptor st = Some (ds_descriptor d)"

definition restore_network :: "cf_kernel \<Rightarrow> unit otg_service" where
  "restore_network k =
     sx_bind (sx_read og_network_bridge) (\<lambda>active.
     if \<not> active then sx_return ()
     else
       sx_bind (og_kernel (cf_ask k BridgeDeactivate)) (\<lambda>r.
         case r of
           Denied errno t \<Rightarrow> sx_fail (bridge_error errno t)
         | Granted _ \<Rightarrow> sx_update (\<lambda>s. s\<lparr>og_network_bridge := False\<rparr>)))"

text \<open>The manager is kept when its cleanup fails and dropped, without further calls, when it succeeds.\<close>

definition remove_manager :: "cf_kernel \<Rightarrow> (AppError \<Rightarrow> AppError) \<Rightarrow> unit otg_service" where
  "remove_manager k f s =
     (case og_manager s of
        None \<Rightarrow> (Inr (), s)
      | Some m \<Rightarrow>
          (case gm_cleanup k (m, og_log s) of
             (Inl e, (m', h)) \<Rightarrow> (Inl (f e), s\<lparr>og_manager := Some m', og_log := h\<rparr>)
           | (Inr _, (m', h)) \<Rightarrow> (Inr (), s\<lparr>og_manager := None, og_log := gm_drop k m' h\<rparr>)))"

definition reset_runtime :: "OtgServiceState \<Rightarrow> OtgServiceState" where
  "reset_runtime st =
     st\<lparr>ot_gadget_active := False, ot_hid_enabled := False, ot_msd_enabled := False, ot_msd_lun_capacity := 1,
        ot_msd_inquiry_strings := MsdInquiryStrings_default, ot_network := OtgNetworkConfig_default,
        ot_uac := UacConfig_default, ot_configured_udc := None, ot_hid_paths := None, ot_hid_functions := None,
        ot_keyboard_leds_enabled := False, ot_descriptor := None, ot_error := None\<rparr>"

definition take_down :: "cf_kernel \<Rightarrow> unit otg_service" where
  "take_down k =
     sx_bind (restore_network k) (\<lambda>_.
     sx_bind (remove_manager k (\<lambda>e. Internal (''Failed to clean up existing OTG gadget: '' @ AppError_fmt e))) (\<lambda>_.
     sx_bind (sx_update (\<lambda>s. s\<lparr>og_msd_function := None\<rparr>)) (\<lambda>_. og_update_state reset_runtime)))"

text \<open>A new manager next to the service.\<close>

type_synonym 'a building = "(OtgGadgetManager \<times> OtgService, 'a) sx"

definition in_gadget :: "'a gadget \<Rightarrow> 'a building" where
  "in_gadget g = sx_zoom (\<lambda>(m, s). (m, og_log s)) (\<lambda>(m, h) (_, s). (m, s\<lparr>og_log := h\<rparr>)) g"

definition set_ot_error :: "string \<Rightarrow> unit building" where
  "set_ot_error t = sx_update (\<lambda>(m, s). (m, s\<lparr>og_state := (og_state s)\<lparr>ot_error := Some t\<rparr>\<rparr>))"

text \<open>\<open>cleanup_manager_or_combine\<close>.\<close>

definition give_up :: "cf_kernel \<Rightarrow> string \<Rightarrow> 'a building" where
  "give_up k primary =
     sx_bind (set_ot_error primary) (\<lambda>_.
     sx_bind (in_gadget (sx_attempt (gm_cleanup k))) (\<lambda>r.
       case r of
         Inr _ \<Rightarrow> sx_fail (Internal primary)
       | Inl e \<Rightarrow> sx_fail (Config (primary @ ''; gadget rollback failed: '' @ AppError_fmt e))))"

definition or_give_up :: "cf_kernel \<Rightarrow> (AppError \<Rightarrow> string) \<Rightarrow> 'a gadget \<Rightarrow> 'a building" where
  "or_give_up k primary g =
     sx_bind (in_gadget (sx_attempt g)) (\<lambda>r. case r of Inr a \<Rightarrow> sx_return a | Inl e \<Rightarrow> give_up k (primary e))"

definition on_added :: "(OtgGadgetManager \<Rightarrow> 'a \<times> OtgGadgetManager) \<Rightarrow> 'a building" where
  "on_added add = (\<lambda>(m, s). case add m of (a, m') \<Rightarrow> (Inr a, (m', s)))"

definition on_added_or :: "(AppError \<Rightarrow> string) \<Rightarrow> bool \<Rightarrow> (OtgGadgetManager \<Rightarrow> AppError + 'a \<times> OtgGadgetManager) \<Rightarrow> 'a building" where
  "on_added_or text recorded add = (\<lambda>(m, s).
     case add m of
       Inr (a, m') \<Rightarrow> (Inr a, (m', s))
     | Inl e \<Rightarrow> (if recorded then sx_bind (set_ot_error (text e)) (\<lambda>_. sx_fail (Internal (text e))) else sx_fail (Internal (text e))) (m, s))"

text \<open>A HID function is added when it is asked for, and its node is noted.\<close>

definition add_if :: "bool \<Rightarrow> (OtgGadgetManager \<Rightarrow> string \<times> OtgGadgetManager) \<Rightarrow> string option building" where
  "add_if wanted add = (if wanted then sx_bind (on_added add) (\<lambda>p. sx_return (Some p)) else sx_return None)"

definition add_hid_functions :: "OtgDesiredState \<Rightarrow> string \<Rightarrow> HidDevicePaths option building" where
  "add_hid_functions d udc =
     (case ds_hid_functions d of
        None \<Rightarrow> sx_return None
      | Some fs \<Rightarrow>
          sx_bind (add_if (hf_keyboard fs) (add_keyboard (ds_keyboard_leds d))) (\<lambda>keyboard.
          sx_bind (add_if (hf_mouse_relative fs) add_mouse_relative) (\<lambda>mouse_relative.
          sx_bind (add_if (hf_mouse_absolute fs) add_mouse_absolute) (\<lambda>mouse_absolute.
          sx_bind (add_if (hf_consumer fs) add_consumer_control) (\<lambda>consumer.
            sx_return (Some
              \<lparr>hp_keyboard = keyboard, hp_mouse_relative = mouse_relative, hp_mouse_absolute = mouse_absolute,
               hp_consumer = consumer, hp_udc = Some udc, hp_keyboard_leds_enabled = ds_keyboard_leds d\<rparr>))))))"

definition add_functions ::
    "(string \<Rightarrow> u64) \<Rightarrow> cf_kernel \<Rightarrow> OtgDesiredState \<Rightarrow> string \<Rightarrow>
     (HidDevicePaths option \<times> MsdFunction option \<times> NetworkFunction option) building" where
  "add_functions hash k d udc =
     sx_bind (if uac_enabled (ds_uac d) then
                sx_bind (on_added_or (\<lambda>e. ''Failed to add UAC function: '' @ AppError_fmt e) False
                  (add_uac (uac_sample_rate (ds_uac d)) (uac_channels (ds_uac d)))) (\<lambda>_. sx_return ())
              else sx_return ()) (\<lambda>_.
     sx_bind (add_hid_functions d udc) (\<lambda>hid_paths.
     sx_bind (if ds_msd_enabled d then
                sx_bind (on_added_or (\<lambda>e. ''Failed to add MSD function: '' @ AppError_fmt e) True
                  (add_msd (ds_msd_lun_capacity d) (ds_msd_inquiry_strings d))) (\<lambda>f. sx_return (Some f))
              else sx_return None) (\<lambda>msd.
     sx_bind (if network_enabled d then
                sx_bind (in_gadget (sx_attempt (add_network hash k (ds_network d)))) (\<lambda>r.
                  case r of
                    Inr f \<Rightarrow> sx_return (Some f)
                  | Inl e \<Rightarrow> sx_fail (Internal (''Failed to add OTG network function: '' @ AppError_fmt e)))
              else sx_return None) (\<lambda>network.
       sx_return (hid_paths, msd, network)))))"

definition start_network :: "cf_kernel \<Rightarrow> OtgDesiredState \<Rightarrow> NetworkFunction option \<Rightarrow> bool building" where
  "start_network k d network =
     (case network of
        None \<Rightarrow> sx_return False
      | Some f \<Rightarrow>
          sx_bind (or_give_up k (\<lambda>e. ''Failed to resolve OTG network interface: '' @ AppError_fmt e)
              (with_manager (\<lambda>m. interface_name k f (gm_gadget_path m)))) (\<lambda>usb_interface.
          sx_bind (in_gadget (on_kernel (cf_ask k (BridgeActivate (nc_bridge_interface (ds_network d)) usb_interface)))) (\<lambda>r.
            case r of
              Granted _ \<Rightarrow> sx_return True
            | Denied _ t \<Rightarrow> give_up k (''Failed to activate OTG network bridge: '' @ t))))"

definition bring_up ::
    "(string \<Rightarrow> u64) \<Rightarrow> cf_kernel \<Rightarrow> OtgDesiredState \<Rightarrow> string \<Rightarrow> (HidDevicePaths option \<times> MsdFunction option \<times> bool) building" where
  "bring_up hash k d udc =
     sx_bind (add_functions hash k d udc) (\<lambda>(hid_paths, msd, network).
     sx_bind (or_give_up k (\<lambda>e. ''Failed to setup gadget: '' @ AppError_fmt e) (gm_setup k)) (\<lambda>_.
     sx_bind (or_give_up k (\<lambda>e. ''Failed to bind gadget to UDC '' @ udc @ '': '' @ AppError_fmt e) (bind_udc k udc)) (\<lambda>_.
     sx_bind (start_network k d network) (\<lambda>bridge.
       sx_return (hid_paths, msd, bridge)))))"

definition runtime_of :: "OtgDesiredState \<Rightarrow> string \<Rightarrow> HidDevicePaths option \<Rightarrow> OtgServiceState \<Rightarrow> OtgServiceState" where
  "runtime_of d udc hid_paths st =
     st\<lparr>ot_gadget_active := True, ot_hid_enabled := hid_enabled d, ot_msd_enabled := ds_msd_enabled d,
        ot_msd_lun_capacity := ds_msd_lun_capacity d, ot_msd_inquiry_strings := ds_msd_inquiry_strings d,
        ot_network := ds_network d, ot_uac := ds_uac d, ot_configured_udc := Some udc, ot_hid_paths := hid_paths,
        ot_hid_functions := ds_hid_functions d, ot_keyboard_leds_enabled := ds_keyboard_leds d,
        ot_descriptor := Some (ds_descriptor d), ot_error := None\<rparr>"

definition build_new :: "(string \<Rightarrow> u64) \<Rightarrow> cf_kernel \<Rightarrow> OtgDesiredState \<Rightarrow> string \<Rightarrow> unit otg_service" where
  "build_new hash k d udc s =
     (case bring_up hash k d udc (with_descriptor DEFAULT_GADGET_NAME (ds_descriptor d), s) of
        (Inl e, (m, s)) \<Rightarrow> (Inl e, s\<lparr>og_log := gm_drop k m (og_log s)\<rparr>)
      | (Inr (hid_paths, msd, bridge), (m, s)) \<Rightarrow>
          (Inr (), s\<lparr>og_manager := Some m, og_msd_function := msd, og_network_bridge := bridge,
             og_state := runtime_of d udc hid_paths (og_state s)\<rparr>))"

definition nothing_desired :: "OtgDesiredState \<Rightarrow> bool" where
  "nothing_desired d \<longleftrightarrow> \<not> hid_enabled d \<and> \<not> ds_msd_enabled d \<and> \<not> network_enabled d \<and> \<not> uac_enabled (ds_uac d)"

definition rebuild :: "(string \<Rightarrow> u64) \<Rightarrow> cf_kernel \<Rightarrow> OtgDesiredState \<Rightarrow> unit otg_service" where
  "rebuild hash k d =
     sx_bind (og_kernel (sx_attempt (ensure_libcomposite_loaded k))) (\<lambda>_.
     sx_bind (og_kernel (is_configfs_available k)) (\<lambda>available.
     if \<not> available then
       sx_bind (og_update_state (\<lambda>st. st\<lparr>ot_error := Some ''OTG not available: ConfigFS not mounted''\<rparr>)) (\<lambda>_.
         sx_fail (Internal ''OTG not available: ConfigFS not mounted''))
     else
       sx_bind (sx_ok_or (Internal ''OTG not available: no UDC found'') (ds_udc d)) (build_new hash k d)))"

definition reconcile_gadget :: "(string \<Rightarrow> u64) \<Rightarrow> cf_kernel \<Rightarrow> unit otg_service" where
  "reconcile_gadget hash k s =
     (let d = og_desired s in
      if matches_desired (og_state s) d then (Inr (), s)
      else sx_bind (take_down k) (\<lambda>_. if nothing_desired d then sx_return () else rebuild hash k d) s)"

definition apply_desired_state :: "(string \<Rightarrow> u64) \<Rightarrow> cf_kernel \<Rightarrow> OtgDesiredState \<Rightarrow> unit otg_service" where
  "apply_desired_state hash k d =
     sx_bind (sx_update (\<lambda>s. s\<lparr>og_desired := d\<rparr>)) (\<lambda>_. reconcile_gadget hash k)"

section \<open>Operations\<close>

definition mark_degraded :: "string \<Rightarrow> unit otg_service" where
  "mark_degraded e = og_update_state (\<lambda>st. st\<lparr>ot_health := OtgDegraded, ot_error := Some e\<rparr>)"

definition mark_healthy :: "unit otg_service" where
  "mark_healthy = og_update_state (\<lambda>st. st\<lparr>ot_health := OtgHealthy, ot_error := None\<rparr>)"

definition recover_once :: "cf_kernel \<Rightarrow> unit otg_service" where
  "recover_once k =
     sx_bind (sx_read og_recovery_checked) (\<lambda>checked.
     if checked then sx_return ()
     else
       sx_bind (og_kernel (cf_ask k BridgeRecover)) (\<lambda>r.
         case r of
           Granted _ \<Rightarrow> sx_update (\<lambda>s. s\<lparr>og_recovery_checked := True\<rparr>)
         | Denied errno t \<Rightarrow>
             let message = ''Failed to recover stale OTG network transaction: '' @ AppError_fmt (bridge_error errno t) in
             sx_bind (mark_degraded message) (\<lambda>_. sx_fail (Config message))))"

definition apply_config ::
    "(string \<Rightarrow> u64) \<Rightarrow> cf_kernel \<Rightarrow> HidConfig \<Rightarrow> MsdConfig \<Rightarrow> OtgNetworkConfig \<Rightarrow> UacConfig \<Rightarrow> unit otg_service" where
  "apply_config hash k hid msd network uac =
     sx_bind (recover_once k) (\<lambda>_.
     sx_bind (sx_read og_desired) (\<lambda>previous.
     sx_bind (desired_from_config_preserving_runtime k hid msd network uac) (\<lambda>desired.
     sx_bind (og_update_state (\<lambda>st. st\<lparr>ot_health := OtgApplying, ot_error := None\<rparr>)) (\<lambda>_.
     sx_bind (sx_attempt (apply_desired_state hash k desired)) (\<lambda>applied.
       case applied of
         Inr _ \<Rightarrow> mark_healthy
       | Inl e \<Rightarrow>
           sx_bind (mark_degraded (AppError_fmt e)) (\<lambda>_.
           sx_bind (sx_attempt (apply_desired_state hash k previous)) (\<lambda>rolled_back.
             case rolled_back of
               Inr _ \<Rightarrow> sx_bind mark_healthy (\<lambda>_. sx_fail e)
             | Inl e' \<Rightarrow>
                 let message = AppError_fmt e @ ''; OTG runtime rollback failed: '' @ AppError_fmt e' in
                 sx_bind (mark_degraded message) (\<lambda>_. sx_fail (Config message)))))))))"

definition set_msd_lun_capacity :: "(string \<Rightarrow> u64) \<Rightarrow> cf_kernel \<Rightarrow> u8 \<Rightarrow> unit otg_service" where
  "set_msd_lun_capacity hash k capacity =
     (if capacity \<noteq> 1 \<and> capacity \<noteq> 8 then
        sx_fail (BadRequest (''MSD LUN capacity must be 1 or 8, got '' @ dec_of_nat (unat capacity)))
      else
        sx_bind (sx_read og_desired) (\<lambda>desired.
        if \<not> ds_msd_enabled desired then sx_fail (Internal ''MSD is not enabled in the OTG gadget'')
        else apply_desired_state hash k (desired\<lparr>ds_msd_lun_capacity := capacity\<rparr>)))"

definition og_gadget_path :: "OtgService \<Rightarrow> string option" where
  "og_gadget_path s = map_option gm_gadget_path (og_manager s)"

definition configure_msd_lun :: "cf_kernel \<Rightarrow> u8 \<Rightarrow> MsdLunConfig \<Rightarrow> unit otg_service" where
  "configure_msd_lun k lun config =
     sx_bind (sx_read og_gadget_path) (\<lambda>path.
     sx_bind (sx_ok_or (Internal ''OTG gadget is not active'') path) (\<lambda>gadget_path.
     sx_bind (sx_read og_msd_function) (\<lambda>f.
     sx_bind (sx_ok_or (Internal ''MSD function is not active'') f) (\<lambda>f.
       og_kernel (configure_lun k f gadget_path lun config)))))"

definition og_shutdown :: "cf_kernel \<Rightarrow> unit otg_service" where
  "og_shutdown k =
     sx_bind (sx_update (\<lambda>s. s\<lparr>og_desired := OtgDesiredState_default\<rparr>)) (\<lambda>_.
     sx_bind (restore_network k) (\<lambda>_.
     sx_bind (remove_manager k (\<lambda>e. Internal (''Failed to clean up gadget during shutdown: '' @ AppError_fmt e))) (\<lambda>_.
     sx_bind (sx_update (\<lambda>s. s\<lparr>og_msd_function := None\<rparr>)) (\<lambda>_.
       og_update_state (\<lambda>_. OtgServiceState_default)))))"

end
