(* ===== verification/OtgReconcile.thy ===== *)
theory OtgReconcile
  imports OtgService
begin

text \<open>
  What a change of the OTG configuration leaves behind: the desired gadget, the previous one, or a degraded service that
  says why; and a way back that does nothing.
\<close>

section \<open>The desired state is not touched by building and taking down\<close>

definition leaves :: "('s \<Rightarrow> 't) \<Rightarrow> ('s, 'a) sx \<Rightarrow> bool" where
  "leaves f m \<longleftrightarrow> (\<forall>s. f (snd (m s)) = f s)"

named_theorems leaves_intros

lemma leavesD: "leaves f m \<Longrightarrow> m s = (r, s') \<Longrightarrow> f s' = f s"
  unfolding leaves_def by (metis snd_conv)

lemma leaves_basic [leaves_intros]:
  "leaves f (sx_return a)" "leaves f (sx_fail e)" "leaves f (sx_lift r)" "leaves f (sx_ok_or e o1)" "leaves f (sx_read g)"
  by (simp_all add: leaves_def sx_apply)

lemma leaves_update [leaves_intros]: "(\<And>s. f (g s) = f s) \<Longrightarrow> leaves f (sx_update g)"
  by (simp add: leaves_def sx_apply)

lemma leaves_bind [leaves_intros]:
  assumes "leaves f m" and "\<And>a. leaves f (g a)"
  shows "leaves f (sx_bind m g)"
proof -
  have "f (snd (sx_bind m g s)) = f s" for s
  proof (cases "m s")
    case (Pair r s1)
    have "f s1 = f s" using leavesD [OF assms(1) Pair] .
    then show ?thesis using Pair assms(2) by (cases r) (simp_all add: sx_bind_def leaves_def)
  qed
  then show ?thesis by (simp add: leaves_def)
qed

lemma leaves_if [leaves_intros]: "leaves f m \<Longrightarrow> leaves f m' \<Longrightarrow> leaves f (if b then m else m')"
  by simp

lemma leaves_option [leaves_intros]:
  "leaves f m \<Longrightarrow> (\<And>x. leaves f (g x)) \<Longrightarrow> leaves f (case v of None \<Rightarrow> m | Some x \<Rightarrow> g x)"
  by (cases v) simp_all

lemma leaves_sum [leaves_intros]:
  "(\<And>x. leaves f (g x)) \<Longrightarrow> (\<And>x. leaves f (h x)) \<Longrightarrow> leaves f (case v of Inl x \<Rightarrow> g x | Inr x \<Rightarrow> h x)"
  by (cases v) simp_all

lemma leaves_reply [leaves_intros]:
  "(\<And>x. leaves f (g x)) \<Longrightarrow> (\<And>n t. leaves f (h n t)) \<Longrightarrow> leaves f (case v of Granted x \<Rightarrow> g x | Denied n t \<Rightarrow> h n t)"
  by (cases v) simp_all

lemma leaves_prod [leaves_intros]: "(\<And>x y. leaves f (g x y)) \<Longrightarrow> leaves f (case v of (x, y) \<Rightarrow> g x y)"
  by (cases v) simp

lemma leaves_attempt [leaves_intros]: "leaves f m \<Longrightarrow> leaves f (sx_attempt m)"
  by (simp add: leaves_def sx_attempt_def split: prod.splits) (metis snd_conv)

lemma leaves_kernel [leaves_intros]: "(\<And>h s. f (s\<lparr>og_log := h\<rparr>) = f s) \<Longrightarrow> leaves f (og_kernel m)"
  by (simp add: leaves_def og_kernel_def sx_zoom_def split: prod.splits)

text \<open>Building a manager next to the service changes its error and the log.\<close>

abbreviation essence :: "OtgService \<Rightarrow> OtgDesiredState \<times> OtgServiceState \<times> OtgGadgetManager option \<times> MsdFunction option" where
  "essence s \<equiv> (og_desired s, (og_state s)\<lparr>ot_error := None\<rparr>, og_manager s, og_msd_function s)"

lemma leaves_in_gadget [leaves_intros]: "leaves (\<lambda>x. essence (snd x)) (in_gadget g)"
  by (auto simp: leaves_def in_gadget_def sx_zoom_def split: prod.splits)

lemma leaves_set_error [leaves_intros]: "leaves (\<lambda>x. essence (snd x)) (set_ot_error t)"
  unfolding set_ot_error_def by (intro leaves_intros) (auto split: prod.splits)

lemma leaves_give_up [leaves_intros]: "leaves (\<lambda>x. essence (snd x)) (give_up k primary)"
  unfolding give_up_def by (intro leaves_intros)

lemma leaves_or_give_up [leaves_intros]: "leaves (\<lambda>x. essence (snd x)) (or_give_up k primary g)"
  unfolding or_give_up_def by (intro leaves_intros)

lemma leaves_added [leaves_intros]:
  "leaves (\<lambda>x. essence (snd x)) (on_added add)" "leaves (\<lambda>x. essence (snd x)) (on_added_or t b add')"
  using leaves_set_error [of "t e" for e]
  by (auto simp: leaves_def on_added_def on_added_or_def sx_bind_def sx_apply set_ot_error_def split: prod.splits sum.splits)

lemma leaves_bring_up: "leaves (\<lambda>x. essence (snd x)) (bring_up hash k d udc)"
  unfolding bring_up_def add_functions_def add_hid_functions_def add_if_def start_network_def Let_def
  by (intro leaves_intros)

lemma leaves_desired_take_down: "leaves og_desired (take_down k)"
proof -
  have "leaves og_desired (remove_manager k f)" for f
    by (auto simp: leaves_def remove_manager_def split: option.splits prod.splits sum.splits)
  then show ?thesis
    unfolding take_down_def restore_network_def og_update_state_def
    by (intro leaves_intros) (simp_all add: sx_apply)
qed


section \<open>The outcome of a change\<close>

text \<open>The state is that of the desired gadget, or nothing is desired and the gadget is gone.\<close>

definition settled :: "OtgServiceState \<Rightarrow> OtgDesiredState \<Rightarrow> bool" where
  "settled st d \<longleftrightarrow> matches_desired st d \<or> nothing_desired d \<and> \<not> ot_gadget_active st"

definition healthy :: "OtgServiceState \<Rightarrow> OtgServiceState" where
  "healthy st = st\<lparr>ot_health := OtgHealthy, ot_error := None\<rparr>"

lemma settled_healthy: "matches_desired st d \<Longrightarrow> matches_desired (healthy st) d"
  by (simp add: matches_desired_def healthy_def)

lemma take_down_ok: "take_down k s = (Inr u, s') \<Longrightarrow> \<not> ot_gadget_active (og_state s')"
  by (auto simp: take_down_def sx_bind_Inr sx_Inr og_update_state_def reset_runtime_def)

lemma build_new_desired: "build_new hash k d udc s = (r, s') \<Longrightarrow> og_desired s' = og_desired s"
  using leavesD [OF leaves_bring_up [of hash k d udc]] by (fastforce simp: build_new_def split: sum.splits prod.splits)

lemma build_new_ok: "build_new hash k d udc s = (Inr u, s') \<Longrightarrow> ds_udc d = Some udc \<Longrightarrow> matches_desired (healthy (og_state s')) d"
  by (auto simp: build_new_def runtime_of_def matches_desired_def healthy_def split: sum.splits prod.splits)

lemma rebuild_ok: "rebuild hash k d s = (Inr u, s') \<Longrightarrow> matches_desired (healthy (og_state s')) d"
  by (auto simp: rebuild_def sx_bind_Inr sx_Inr build_new_ok split: if_splits)

lemma leaves_rebuild: "leaves og_desired (rebuild hash k d)"
proof -
  have "leaves og_desired (build_new hash k d udc)" for udc
    unfolding leaves_def using build_new_desired by (metis prod.collapse)
  then show ?thesis unfolding rebuild_def og_update_state_def by (intro leaves_intros) simp_all
qed

lemma leaves_reconcile: "leaves og_desired (reconcile_gadget hash k)"
proof -
  have "leaves og_desired (sx_bind (take_down k) (\<lambda>_. if nothing_desired d then sx_return () else rebuild hash k d))" for d
    by (intro leaves_intros leaves_desired_take_down leaves_rebuild)
  then show ?thesis by (simp add: leaves_def reconcile_gadget_def Let_def)
qed

lemma apply_desired: "apply_desired_state hash k d s = (r, s') \<Longrightarrow> og_desired s' = d"
  using leavesD [OF leaves_reconcile] by (fastforce simp: apply_desired_state_def sx_bind_def sx_apply)

lemma apply_settles: "apply_desired_state hash k d s = (Inr u, s') \<Longrightarrow> settled (healthy (og_state s')) d"
  using take_down_ok [of k "s\<lparr>og_desired := d\<rparr>"]
  by (auto simp: apply_desired_state_def reconcile_gadget_def sx_bind_Inr sx_Inr settled_def settled_healthy rebuild_ok Let_def
      split: if_splits) (auto simp: healthy_def)

lemma leaves_chosen: "leaves f (desired_from_config_preserving_runtime k hid msd network uac)" if "\<And>h s. f (s\<lparr>og_log := h\<rparr>) = f s"
  unfolding desired_from_config_preserving_runtime_def using that by (intro leaves_intros)



definition hid_on :: "string \<Rightarrow> HidConfig" where
  "hid_on udc = HidConfig_default\<lparr>hcfg_backend := HidOtg, hcfg_otg_udc := Some udc\<rparr>"

text \<open>A machine without configfs.\<close>

definition no_configfs :: "cf_log \<Rightarrow> cf_call \<Rightarrow> cf_reply" where
  "no_configfs h c = (case c of CfExists p \<Rightarrow> Denied (Some 2) ''No such file'' | _ \<Rightarrow> Granted [])"



section \<open>Going back to the previous number of LUNs\<close>

text \<open>Taking the gadget down only forgets what was built when every step of it succeeded.\<close>

lemma take_down_failed: "take_down k s = (Inl e, s') \<Longrightarrow> og_state s' = og_state s"
  by (auto simp: take_down_def sx_bind_def sx_apply restore_network_def remove_manager_def og_kernel_def sx_zoom_def cf_ask_def Let_def
      og_update_state_def split: if_splits option.splits prod.splits sum.splits cf_reply.splits)

text \<open>C39: 
  C0: When a change of the number of LUNs fails while the gadget is taken down, asking for the previous number again
  succeeds without a single kernel call, whatever state the interrupted teardown left the gadget in: the way back that
  the controller takes reports success over a gadget that may be unbound or half removed.
\<close>
theorem lun_capacity_way_back_is_empty:
  assumes "matches_desired (og_state s) (og_desired s)" and "ds_msd_enabled (og_desired s)"
    and "ds_msd_lun_capacity (og_desired s) = previous" and "previous \<in> {1, 8}"
    and "take_down k (s\<lparr>og_desired := (og_desired s)\<lparr>ds_msd_lun_capacity := capacity\<rparr>\<rparr>) = (Inl e, s')"
    and "capacity \<in> {1, 8} - {previous}"
  shows "set_msd_lun_capacity hash k capacity s = (Inl e, s') \<and>
    set_msd_lun_capacity hash k previous s' = (Inr (), s'\<lparr>og_desired := og_desired s\<rparr>)"
proof
  let ?d = "(og_desired s)\<lparr>ds_msd_lun_capacity := capacity\<rparr>"
  have "\<not> matches_desired (og_state s) ?d" using assms(1,3,6) by (auto simp: matches_desired_def)
  then show first: "set_msd_lun_capacity hash k capacity s = (Inl e, s')"
    using assms(2,5,6) by (auto simp: set_msd_lun_capacity_def apply_desired_state_def reconcile_gadget_def sx_bind_def sx_apply Let_def)
  have d': "og_desired s' = ?d" using leavesD [OF leaves_desired_take_down assms(5)] by simp
  have st': "og_state s' = og_state s" using take_down_failed [OF assms(5)] by simp
  have "(?d)\<lparr>ds_msd_lun_capacity := previous\<rparr> = og_desired s" using assms(3) by simp
  then show "set_msd_lun_capacity hash k previous s' = (Inr (), s'\<lparr>og_desired := og_desired s\<rparr>)"
    using assms(1,2,4) d' st'
    by (auto simp: set_msd_lun_capacity_def apply_desired_state_def reconcile_gadget_def sx_bind_def sx_apply Let_def)
qed

text \<open>The gadget is bound; the write that unbinds it is taken, and the removal of directories is refused.\<close>

definition only_unbinds :: "cf_log \<Rightarrow> cf_call \<Rightarrow> cf_reply" where
  "only_unbinds h c =
     (case c of CfRead p \<Rightarrow> Granted [''fe980000.usb''] | CfRmdir p \<Rightarrow> Denied (Some 16) ''Device or resource busy'' | _ \<Rightarrow> Granted [])"

definition msd_service :: OtgService where
  "msd_service =
     (let d = OtgDesiredState_default\<lparr>ds_udc := Some ''fe980000.usb'', ds_msd_enabled := True\<rparr>
      in OtgService_new\<lparr>og_desired := d, og_state := runtime_of d ''fe980000.usb'' None OtgServiceState_default,
           og_manager := Some (with_descriptor DEFAULT_GADGET_NAME GadgetDescriptor_default)\<rparr>)"

theorem lun_capacity_way_back_is_empty_witness:
  "case set_msd_lun_capacity (\<lambda>_. 0) only_unbinds 8 msd_service of
     (Inl _, s') \<Rightarrow> (CfWrite (join (join CONFIGFS_PATH ''one-kvm'') ''UDC'') [newline], Granted []) \<in> set (og_log s') \<and>
       set_msd_lun_capacity (\<lambda>_. 0) only_unbinds 1 s' = (Inr (), s'\<lparr>og_desired := og_desired msd_service\<rparr>)
   | _ \<Rightarrow> False"
proof -
  let ?s = "msd_service\<lparr>og_desired := (og_desired msd_service)\<lparr>ds_msd_lun_capacity := 8\<rparr>\<rparr>"
  have "(case fst (take_down only_unbinds ?s) of Inl _ \<Rightarrow> True | Inr _ \<Rightarrow> False)" by code_simp
  then obtain e s' where s': "take_down only_unbinds ?s = (Inl e, s')" by (cases "take_down only_unbinds ?s") (auto split: sum.splits)
  have "list_ex (\<lambda>c. c = (CfWrite (join (join CONFIGFS_PATH ''one-kvm'') ''UDC'') [newline], Granted [])) (og_log (snd (take_down only_unbinds ?s)))"
    by code_simp
  then have unbound: "(CfWrite (join (join CONFIGFS_PATH ''one-kvm'') ''UDC'') [newline], Granted []) \<in> set (og_log s')"
    using s' by (simp add: list_ex_iff)
  have start: "matches_desired (og_state msd_service) (og_desired msd_service)" "ds_msd_enabled (og_desired msd_service)"
    "ds_msd_lun_capacity (og_desired msd_service) = 1" by code_simp+
  show ?thesis
    using lun_capacity_way_back_is_empty [OF start _ s', where hash = "\<lambda>_. 0"] unbound by simp
qed

end
