(* ===== verification/MsdImages.thy ===== *)
theory MsdImages
  imports MsdFunction
begin

text \<open>
  The image directory (\<open>src/msd/image.rs\<close>): names, identifiers, listing, deletion and uploads.  What a file is, its size
  and age come from a parameter \<open>stat\<close>; the parts of an upload are a script.  File names are octets in UTF-8; white space
  is that of ASCII.  Downloads, which drive an HTTP client, are not modelled.
\<close>

unbundle bit_operations_syntax

section \<open>Names and identifiers\<close>

definition MAX_IMAGE_SIZE :: nat where "MAX_IMAGE_SIZE = 32 * 1024 * 1024 * 1024"

fun hash_name :: "u64 \<Rightarrow> nat \<Rightarrow> bytes \<Rightarrow> u64" where
  "hash_name hash i [] = hash"
| "hash_name hash i (b # bs) = hash_name ((hash + ucast b * (of_nat i + 1)) * 31) (i + 1) bs"

fun hex_of_nat :: "nat \<Rightarrow> string" where
  "hex_of_nat n = (if n < 16 then [hex_char_lower n] else hex_of_nat (n div 16) @ [hex_char_lower (n mod 16)])"

declare hex_of_nat.simps [simp del]

definition stable_image_id_from_filename :: "string \<Rightarrow> string" where
  "stable_image_id_from_filename name = hex_of_nat (unat (hash_name 0 0 (string_bytes name)))"

definition forbidden :: "char \<Rightarrow> bool" where
  "forbidden c \<longleftrightarrow> c \<in> set [CHR ''/'', CHR 0x5C, CHR 0x00, CHR '':'', CHR ''*'', CHR ''?'', CHR 0x22, CHR ''<'', CHR ''>'', CHR ''|'']"

text \<open>\<open>None\<close>: slicing a string in the middle of a character panics.\<close>

definition sanitize_filename :: "string \<Rightarrow> string option" where
  "sanitize_filename name =
     (let name = map (\<lambda>c. if forbidden c then CHR ''_'' else c) (trim name);
          name = dropWhile (\<lambda>c. c = CHR ''.'') name
      in if length name > 255
         then (if is_cont (string_bytes name ! 255) then None else Some (take 255 name))
         else Some name)"

section \<open>The directory\<close>

record ImageInfo =
  im_id :: string
  im_name :: string
  im_path :: string
  im_size :: u64
  im_created_at :: int

record file_stat =
  fs_is_file :: bool
  fs_len :: u64
  fs_created :: int

type_synonym stat_oracle = "cf_log \<Rightarrow> string \<Rightarrow> file_stat option"

definition storage_io_error :: "int option \<Rightarrow> AppError" where
  "storage_io_error errno =
     Msd (if errno = Some 27 then MsdImageTooLarge
          else if errno = Some 28 then MsdStorageFull
          else if errno = Some 30 then MsdStorageReadOnly
          else if errno = Some 13 \<or> errno = Some 1 then MsdStoragePermissionDenied
          else MsdOperationFailed)"

definition storage_call :: "cf_kernel \<Rightarrow> cf_call \<Rightarrow> string list cf" where
  "storage_call k c =
     sx_bind (cf_ask k c) (\<lambda>r. case r of Granted ss \<Rightarrow> sx_return ss | Denied errno _ \<Rightarrow> sx_fail (storage_io_error errno))"

definition ensure_dir :: "cf_kernel \<Rightarrow> string \<Rightarrow> unit cf" where
  "ensure_dir k images_path = sx_bind (storage_call k (CfMkdir images_path)) (\<lambda>_. sx_return ())"

definition get_image_info :: "stat_oracle \<Rightarrow> string \<Rightarrow> string \<Rightarrow> cf_log \<Rightarrow> ImageInfo option" where
  "get_image_info stat images_path name h =
     map_option (\<lambda>st. \<lparr>im_id = stable_image_id_from_filename name, im_name = name, im_path = join images_path name,
         im_size = fs_len st, im_created_at = fs_created st\<rparr>) (stat h (join images_path name))"

definition listed_image :: "stat_oracle \<Rightarrow> string \<Rightarrow> cf_log \<Rightarrow> string \<Rightarrow> ImageInfo option" where
  "listed_image stat images_path h name =
     (case stat h (join images_path name) of
        None \<Rightarrow> None
      | Some st \<Rightarrow> if fs_is_file st then get_image_info stat images_path name h else None)"

text \<open>Newest first; the sort is stable.\<close>

definition image_list :: "cf_kernel \<Rightarrow> stat_oracle \<Rightarrow> string \<Rightarrow> ImageInfo list cf" where
  "image_list k stat images_path =
     sx_bind (ensure_dir k images_path) (\<lambda>_.
     sx_bind (storage_call k (CfList images_path)) (\<lambda>names h.
       (Inr (sort_key (\<lambda>i. - im_created_at i) (List.map_filter (listed_image stat images_path h) names)), h)))"

definition image_get :: "cf_kernel \<Rightarrow> stat_oracle \<Rightarrow> string \<Rightarrow> string \<Rightarrow> ImageInfo cf" where
  "image_get k stat images_path id' =
     sx_bind (image_list k stat images_path) (\<lambda>images.
       sx_ok_or (Msd MsdResourceNotFound) (find (\<lambda>i. im_id i = id') images))"

definition image_get_by_name :: "stat_oracle \<Rightarrow> string \<Rightarrow> string \<Rightarrow> ImageInfo cf" where
  "image_get_by_name stat images_path name h =
     (case get_image_info stat images_path name h of None \<Rightarrow> (Inl (Msd MsdResourceNotFound), h) | Some i \<Rightarrow> (Inr i, h))"

definition image_delete :: "cf_kernel \<Rightarrow> stat_oracle \<Rightarrow> string \<Rightarrow> string \<Rightarrow> unit cf" where
  "image_delete k stat images_path id' =
     sx_bind (image_get k stat images_path id') (\<lambda>image.
     sx_bind (storage_call k (CfUnlink (im_path image))) (\<lambda>_. sx_return ()))"

section \<open>Uploads\<close>

text \<open>A part of an upload is a chunk or an error of the connection.  The loop gives the octets written.\<close>

primrec write_chunks :: "cf_kernel \<Rightarrow> string \<Rightarrow> nat \<Rightarrow> (unit + bytes) list \<Rightarrow> nat cf" where
  "write_chunks k temp n [] = sx_return n"
| "write_chunks k temp n (part # parts) =
     (case part of
        Inl _ \<Rightarrow> sx_fail (Msd MsdOperationFailed)
      | Inr chunk \<Rightarrow>
          if n + length chunk > MAX_IMAGE_SIZE then
            sx_bind (cf_ask k (CfUnlink temp)) (\<lambda>_. sx_fail (Msd MsdImageTooLarge))
          else
            sx_bind (storage_call k (CfWrite temp (bytes_string chunk))) (\<lambda>_. write_chunks k temp (n + length chunk) parts))"

definition commit_upload :: "cf_kernel \<Rightarrow> string \<Rightarrow> string \<Rightarrow> unit cf" where
  "commit_upload k temp final =
     sx_bind (cf_ask k (CfRename temp final)) (\<lambda>r.
       case r of
         Granted _ \<Rightarrow> sx_return ()
       | Denied errno _ \<Rightarrow> sx_bind (cf_ask k (CfUnlink temp)) (\<lambda>_. sx_fail (storage_io_error errno)))"

text \<open>\<open>create_from_multipart_field\<close>, after the name was sanitised; \<open>upload_id\<close> is the random part of the temporary name.\<close>

definition receive_upload ::
    "cf_kernel \<Rightarrow> stat_oracle \<Rightarrow> string \<Rightarrow> string \<Rightarrow> string \<Rightarrow> (unit + bytes) list \<Rightarrow> ImageInfo cf" where
  "receive_upload k stat images_path upload_id name parts =
     (let temp = join images_path (''.upload_'' @ upload_id); final = join images_path name in
      if name = [] then sx_fail (Msd MsdInvalidRequest)
      else
        sx_bind (cf_exists k final) (\<lambda>there.
        if there then sx_fail (Msd MsdResourceAlreadyExists)
        else
          sx_bind (storage_call k (CfCreate temp)) (\<lambda>_.
          sx_bind (write_chunks k temp 0 parts) (\<lambda>_.
          sx_bind (commit_upload k temp final) (\<lambda>_. image_get_by_name stat images_path name)))))"

definition create_from_multipart_field ::
    "cf_kernel \<Rightarrow> stat_oracle \<Rightarrow> string \<Rightarrow> string \<Rightarrow> string \<Rightarrow> (unit + bytes) list \<Rightarrow> cf_log \<Rightarrow> ((AppError + ImageInfo) \<times> cf_log) option" where
  "create_from_multipart_field k stat images_path upload_id name parts h =
     (case ensure_dir k images_path h of
        (Inl e, h) \<Rightarrow> Some (Inl e, h)
      | (Inr _, h) \<Rightarrow>
          (case sanitize_filename name of
             None \<Rightarrow> None
           | Some name \<Rightarrow> Some (receive_upload k stat images_path upload_id name parts h)))"

end
