(* ===== verification/MsdController.thy ===== *)
theory MsdController
  imports OtgService MsdImages
begin

text \<open>
  The virtual media controller (\<open>src/msd/controller.rs\<close>, \<open>types.rs\<close>, \<open>monitor.rs\<close>) on top of the OTG service.  The
  operation lock makes each operation one step, except the switch of the disk mode, which releases the state between
  its beginning and its end; another operation then finds the lock taken.  Log lines and the throttler of the monitor,
  which only decides on them, are left out, and so are downloads.
\<close>

section \<open>Types\<close>

datatype DiskMode = SingleDisk | MultiDisk

definition SINGLE_DISK_MSD_LUNS :: u8 where "SINGLE_DISK_MSD_LUNS = 1"
definition MULTI_DISK_MSD_LUNS :: u8 where "MULTI_DISK_MSD_LUNS = 8"

primrec slot_capacity :: "DiskMode \<Rightarrow> u8" where
  "slot_capacity SingleDisk = SINGLE_DISK_MSD_LUNS"
| "slot_capacity MultiDisk = MULTI_DISK_MSD_LUNS"

datatype MountedMediaKind = DriveMedia | ImageMedia

record MountedMedia =
  mm_id :: string
  mm_kind :: MountedMediaKind
  mm_name :: string
  mm_cdrom :: bool
  mm_read_only :: bool
  mm_size :: u64
  mm_lun :: u8
  mm_path :: string

record DriveInfo =
  dr_size :: u64
  dr_used :: u64
  dr_free :: u64
  dr_initialized :: bool
  dr_path :: string

definition media_of_image :: "u8 \<Rightarrow> ImageInfo \<Rightarrow> bool \<Rightarrow> bool \<Rightarrow> MountedMedia" where
  "media_of_image lun img cdrom read_only =
     \<lparr>mm_id = im_id img, mm_kind = ImageMedia, mm_name = im_name img, mm_cdrom = cdrom,
      mm_read_only = (cdrom \<or> read_only), mm_size = im_size img, mm_lun = lun, mm_path = im_path img\<rparr>"

definition media_of_drive :: "u8 \<Rightarrow> DriveInfo \<Rightarrow> MountedMedia" where
  "media_of_drive lun info =
     \<lparr>mm_id = ''drive'', mm_kind = DriveMedia, mm_name = ''Virtual USB'', mm_cdrom = False, mm_read_only = False,
      mm_size = dr_size info, mm_lun = lun, mm_path = dr_path info\<rparr>"

record MsdState =
  md_available :: bool
  md_disk_mode :: DiskMode
  md_mounted_media :: "MountedMedia list"
  md_drive_info :: "DriveInfo option"
  md_usb_reenumerating :: bool

definition MsdState_default :: MsdState where
  "MsdState_default =
     \<lparr>md_available = False, md_disk_mode = SingleDisk, md_mounted_media = [], md_drive_info = None, md_usb_reenumerating = False\<rparr>"

section \<open>Health\<close>

datatype MsdHealthStatus = MsdHealthy | MsdUnhealthy string string

record MsdHealthMonitor =
  hm_status :: MsdHealthStatus
  hm_error_count :: u32
  hm_last_error_code :: "string option"

definition MsdHealthMonitor_default :: MsdHealthMonitor where
  "MsdHealthMonitor_default = \<lparr>hm_status = MsdHealthy, hm_error_count = 0, hm_last_error_code = None\<rparr>"

definition report_error :: "string \<Rightarrow> string \<Rightarrow> MsdHealthMonitor \<Rightarrow> MsdHealthMonitor" where
  "report_error reason code m =
     m\<lparr>hm_error_count := hm_error_count m + 1, hm_last_error_code := Some code, hm_status := MsdUnhealthy reason code\<rparr>"

definition report_recovered :: "MsdHealthMonitor \<Rightarrow> MsdHealthMonitor" where
  "report_recovered m =
     (if hm_status m \<noteq> MsdHealthy
      then m\<lparr>hm_error_count := 0, hm_last_error_code := None, hm_status := MsdHealthy\<rparr> else m)"

definition monitor_is_error :: "MsdHealthMonitor \<Rightarrow> bool" where
  "monitor_is_error m \<longleftrightarrow> (case hm_status m of MsdUnhealthy _ _ \<Rightarrow> True | MsdHealthy \<Rightarrow> False)"

definition monitor_reset :: "MsdHealthMonitor \<Rightarrow> MsdHealthMonitor" where
  "monitor_reset m = m\<lparr>hm_error_count := 0, hm_last_error_code := None, hm_status := MsdHealthy\<rparr>"

definition error_message :: "MsdHealthMonitor \<Rightarrow> string option" where
  "error_message m = (case hm_status m of MsdUnhealthy reason _ \<Rightarrow> Some reason | MsdHealthy \<Rightarrow> None)"

section \<open>The controller\<close>

text \<open>\<open>ct_operating\<close>: the operation lock is held; \<open>ct_dirty\<close> counts the marks of the device information.\<close>

record MsdController =
  ct_service :: OtgService
  ct_msd_function :: "MsdFunction option"
  ct_state :: MsdState
  ct_images_path :: string
  ct_drive_path :: string
  ct_operating :: bool
  ct_monitor :: MsdHealthMonitor
  ct_dirty :: nat

definition MsdController_new :: "OtgService \<Rightarrow> string \<Rightarrow> MsdController" where
  "MsdController_new service msd_dir =
     \<lparr>ct_service = service, ct_msd_function = None, ct_state = MsdState_default, ct_images_path = join msd_dir ''images'',
      ct_drive_path = join (join msd_dir ''ventoy'') ''ventoy.img'', ct_operating = False,
      ct_monitor = MsdHealthMonitor_default, ct_dirty = 0\<rparr>"

type_synonym 'a msd = "(MsdController, 'a) sx"

definition on_service :: "'a otg_service \<Rightarrow> 'a msd" where
  "on_service m = sx_zoom ct_service (\<lambda>s c. c\<lparr>ct_service := s\<rparr>) m"

definition ct_kernel :: "'a cf \<Rightarrow> 'a msd" where
  "ct_kernel m = on_service (og_kernel m)"

definition update_msd_state :: "(MsdState \<Rightarrow> MsdState) \<Rightarrow> unit msd" where
  "update_msd_state f = sx_update (\<lambda>c. c\<lparr>ct_state := f (ct_state c)\<rparr>)"

definition report :: "string \<Rightarrow> string \<Rightarrow> unit msd" where
  "report reason code = sx_update (\<lambda>c. c\<lparr>ct_monitor := report_error reason code (ct_monitor c)\<rparr>)"

definition mark_device_info_dirty :: "unit msd" where
  "mark_device_info_dirty = sx_update (\<lambda>c. c\<lparr>ct_dirty := ct_dirty c + 1\<rparr>)"

definition try_operation :: "unit msd" where
  "try_operation c = (if ct_operating c then (Inl (Msd MsdOperationInProgress), c) else (Inr (), c))"

definition assert_available :: "unit msd" where
  "assert_available =
     sx_bind (sx_read (\<lambda>c. md_available (ct_state c))) (\<lambda>available.
     if available then sx_return ()
     else sx_bind (report ''MSD not available'' ''not_available'') (\<lambda>_. sx_fail (Msd MsdUnavailable)))"

definition drive_info_of :: "string \<Rightarrow> u64 \<Rightarrow> DriveInfo" where
  "drive_info_of path len = \<lparr>dr_size = len, dr_used = 0, dr_free = len, dr_initialized = True, dr_path = path\<rparr>"

definition drive_metadata :: "stat_oracle \<Rightarrow> DriveInfo option msd" where
  "drive_metadata stat =
     sx_read (\<lambda>c. map_option (\<lambda>st. drive_info_of (ct_drive_path c) (fs_len st)) (stat (og_log (ct_service c)) (ct_drive_path c)))"

text \<open>The preparation of the Ventoy resources and of the directories is not looked into: its errors are only logged.\<close>

definition msd_init :: "cf_kernel \<Rightarrow> stat_oracle \<Rightarrow> unit msd" where
  "msd_init k stat =
     sx_bind (sx_read (\<lambda>c. og_msd_function (ct_service c))) (\<lambda>f.
     sx_bind (sx_ok_or (Msd MsdUnavailable) f) (\<lambda>f.
     sx_bind (sx_update (\<lambda>c. c\<lparr>ct_msd_function := Some f\<rparr>)) (\<lambda>_.
     sx_bind (sx_read (\<lambda>c. ds_msd_lun_capacity (og_desired (ct_service c)))) (\<lambda>capacity.
     sx_bind (update_msd_state (\<lambda>st. st\<lparr>md_disk_mode := (if capacity = 1 then SingleDisk else MultiDisk), md_available := True\<rparr>)) (\<lambda>_.
     sx_bind (sx_read ct_drive_path) (\<lambda>drive_path.
     sx_bind (ct_kernel (cf_exists k drive_path)) (\<lambda>there.
     if \<not> there then sx_return ()
     else
       sx_bind (drive_metadata stat) (\<lambda>info.
         case info of None \<Rightarrow> sx_return () | Some i \<Rightarrow> update_msd_state (\<lambda>st. st\<lparr>md_drive_info := Some i\<rparr>)))))))))"

section \<open>LUNs\<close>

definition media_config :: "MountedMedia \<Rightarrow> MsdLunConfig" where
  "media_config m = (if mm_cdrom m then lc_for_cdrom (mm_path m) else lc_for_disk (mm_path m) (mm_read_only m))"

definition lun_taken :: "MsdState \<Rightarrow> u8 \<Rightarrow> bool" where
  "lun_taken st lun \<longleftrightarrow> list_ex (\<lambda>m. mm_lun m = lun) (md_mounted_media st)"

definition lowest_free_lun :: "MsdState \<Rightarrow> u8 option" where
  "lowest_free_lun st = find (\<lambda>lun. \<not> lun_taken st lun) (map of_nat [0..<unat (slot_capacity (md_disk_mode st))])"

definition select_lun :: "MsdState \<Rightarrow> u8 option \<Rightarrow> AppError + u8" where
  "select_lun st requested =
     (case requested of
        None \<Rightarrow> (case lowest_free_lun st of None \<Rightarrow> Inl (Msd MsdMediaSlotsFull) | Some lun \<Rightarrow> Inr lun)
      | Some lun \<Rightarrow>
          if lun \<ge> slot_capacity (md_disk_mode st) then Inl (Msd MsdInvalidRequest)
          else if lun_taken st lun then Inl (Msd MsdMediaSlotsFull)
          else Inr lun)"

definition reset_mounts_for_mode :: "DiskMode \<Rightarrow> MsdState \<Rightarrow> MsdState" where
  "reset_mounts_for_mode mode st = st\<lparr>md_disk_mode := mode, md_mounted_media := []\<rparr>"

definition configure_media :: "cf_kernel \<Rightarrow> MountedMedia \<Rightarrow> unit msd" where
  "configure_media k m =
     sx_bind (sx_attempt (on_service (configure_msd_lun k (mm_lun m) (media_config m)))) (\<lambda>r.
       case r of
         Inr _ \<Rightarrow> sx_return ()
       | Inl e \<Rightarrow>
           sx_bind (report (''Failed to configure LUN '' @ dec_of_nat (unat (mm_lun m)) @ '': '' @ AppError_fmt e) ''configfs_error'') (\<lambda>_.
             sx_fail (case e of Msd code \<Rightarrow> Msd code | _ \<Rightarrow> Msd MsdOperationFailed)))"

definition ct_disconnect_lun :: "cf_kernel \<Rightarrow> u8 \<Rightarrow> unit msd" where
  "ct_disconnect_lun k lun =
     sx_bind (sx_read (\<lambda>c. og_gadget_path (ct_service c))) (\<lambda>path.
     sx_bind (sx_ok_or (Msd MsdUnavailable) path) (\<lambda>gadget_path.
     sx_bind (sx_read ct_msd_function) (\<lambda>f.
     sx_bind (sx_ok_or (Msd MsdUnavailable) f) (\<lambda>f.
       ct_kernel (disconnect_lun k f gadget_path lun)))))"

definition finish_connect_success :: "unit msd" where
  "finish_connect_success =
     sx_bind (sx_update (\<lambda>c. if monitor_is_error (ct_monitor c) then c\<lparr>ct_monitor := report_recovered (ct_monitor c)\<rparr> else c)) (\<lambda>_.
       mark_device_info_dirty)"

text \<open>A failed configuration puts the state back, and the medium is not listed.\<close>

definition attach :: "cf_kernel \<Rightarrow> MsdState \<Rightarrow> MountedMedia \<Rightarrow> unit msd" where
  "attach k previous m =
     sx_bind (sx_attempt (configure_media k m)) (\<lambda>r.
       case r of
         Inl e \<Rightarrow> sx_bind (update_msd_state (\<lambda>_. previous)) (\<lambda>_. sx_fail e)
       | Inr _ \<Rightarrow>
           sx_bind (update_msd_state (\<lambda>st. st\<lparr>md_mounted_media := md_mounted_media st @ [m]\<rparr>)) (\<lambda>_.
             finish_connect_success))"

definition mount_image_in_slot :: "cf_kernel \<Rightarrow> ImageInfo \<Rightarrow> bool \<Rightarrow> bool \<Rightarrow> u8 option \<Rightarrow> unit msd" where
  "mount_image_in_slot k img cdrom read_only requested =
     sx_bind try_operation (\<lambda>_.
     sx_bind (sx_read ct_state) (\<lambda>previous.
     sx_bind assert_available (\<lambda>_.
     sx_bind (ct_kernel (cf_exists k (im_path img))) (\<lambda>there.
     if \<not> there then
       sx_bind (report (''Image file not found: '' @ im_path img) ''image_not_found'') (\<lambda>_. sx_fail (Msd MsdResourceNotFound))
     else if list_ex (\<lambda>m. mm_kind m = ImageMedia \<and> mm_id m = im_id img) (md_mounted_media previous) then
       sx_fail (Msd MsdMediaAlreadyMounted)
     else
       sx_bind (sx_lift (select_lun previous requested)) (\<lambda>lun.
         attach k previous (media_of_image lun img cdrom read_only))))))"

definition mount_image :: "cf_kernel \<Rightarrow> ImageInfo \<Rightarrow> bool \<Rightarrow> bool \<Rightarrow> unit msd" where
  "mount_image k img cdrom read_only = mount_image_in_slot k img cdrom read_only None"

definition mount_image_at_lun :: "cf_kernel \<Rightarrow> ImageInfo \<Rightarrow> bool \<Rightarrow> bool \<Rightarrow> u8 \<Rightarrow> unit msd" where
  "mount_image_at_lun k img cdrom read_only lun = mount_image_in_slot k img cdrom read_only (Some lun)"

definition mount_drive :: "cf_kernel \<Rightarrow> stat_oracle \<Rightarrow> unit msd" where
  "mount_drive k stat =
     sx_bind try_operation (\<lambda>_.
     sx_bind (sx_read ct_state) (\<lambda>previous.
     sx_bind assert_available (\<lambda>_.
     sx_bind (sx_read ct_drive_path) (\<lambda>drive_path.
     sx_bind (ct_kernel (cf_exists k drive_path)) (\<lambda>there.
     if \<not> there then
       sx_bind (report ''Virtual drive not initialized'' ''drive_not_found'') (\<lambda>_. sx_fail (Msd MsdDriveNotInitialized))
     else
       sx_bind (case md_drive_info previous of Some i \<Rightarrow> sx_return (Some i) | None \<Rightarrow> drive_metadata stat) (\<lambda>info.
       sx_bind (update_msd_state (\<lambda>st. if md_drive_info st = None then st\<lparr>md_drive_info := info\<rparr> else st)) (\<lambda>_.
       if list_ex (\<lambda>m. mm_kind m = DriveMedia) (md_mounted_media previous) then sx_fail (Msd MsdMediaAlreadyMounted)
       else
         sx_bind (sx_ok_or (Msd MsdDriveNotInitialized) info) (\<lambda>info.
         sx_bind (sx_ok_or (Msd MsdMediaSlotsFull) (lowest_free_lun previous)) (\<lambda>lun.
           attach k previous (media_of_drive lun info))))))))))"

section \<open>Unmounting\<close>

text \<open>The index and the medium found there.\<close>

fun position :: "('a \<Rightarrow> bool) \<Rightarrow> 'a list \<Rightarrow> nat option" where
  "position P [] = None"
| "position P (x # xs) = (if P x then Some 0 else map_option Suc (position P xs))"

definition remove_at :: "nat \<Rightarrow> 'a list \<Rightarrow> 'a list" where
  "remove_at i xs = take i xs @ drop (Suc i) xs"

definition unmount_media :: "cf_kernel \<Rightarrow> (MountedMedia \<Rightarrow> bool) \<Rightarrow> bool msd" where
  "unmount_media k P =
     sx_bind try_operation (\<lambda>_.
     sx_bind (sx_read (\<lambda>c. md_mounted_media (ct_state c))) (\<lambda>media.
     case position P media of
       None \<Rightarrow> sx_return False
     | Some i \<Rightarrow>
         sx_bind (ct_disconnect_lun k (mm_lun (media ! i))) (\<lambda>_.
         sx_bind (update_msd_state (\<lambda>st. st\<lparr>md_mounted_media := remove_at i (md_mounted_media st)\<rparr>)) (\<lambda>_.
         sx_bind mark_device_info_dirty (\<lambda>_. sx_return True)))))"

definition unmount_image :: "cf_kernel \<Rightarrow> string \<Rightarrow> unit msd" where
  "unmount_image k image_id =
     sx_bind (unmount_media k (\<lambda>m. mm_kind m = ImageMedia \<and> mm_id m = image_id)) (\<lambda>_. sx_return ())"

definition unmount_drive :: "cf_kernel \<Rightarrow> unit msd" where
  "unmount_drive k = sx_bind (unmount_media k (\<lambda>m. mm_kind m = DriveMedia)) (\<lambda>_. sx_return ())"

definition unmount_lun :: "cf_kernel \<Rightarrow> u8 \<Rightarrow> bool msd" where
  "unmount_lun k lun = unmount_media k (\<lambda>m. mm_lun m = lun)"

text \<open>The media disconnected before an error are configured again; when that fails, too, the service is given up.\<close>

primrec reconnect :: "cf_kernel \<Rightarrow> MountedMedia list \<Rightarrow> unit msd" where
  "reconnect k [] = sx_return ()"
| "reconnect k (m # ms) = sx_bind (configure_media k m) (\<lambda>_. reconnect k ms)"

fun disconnect_each :: "cf_kernel \<Rightarrow> MountedMedia list \<Rightarrow> MountedMedia list \<Rightarrow> unit msd" where
  "disconnect_each k disconnected [] = sx_return ()"
| "disconnect_each k disconnected (m # ms) =
     sx_bind (sx_attempt (ct_disconnect_lun k (mm_lun m))) (\<lambda>r.
       case r of
         Inr _ \<Rightarrow> disconnect_each k (disconnected @ [m]) ms
       | Inl e \<Rightarrow>
           sx_bind (sx_attempt (reconnect k disconnected)) (\<lambda>restored.
             case restored of
               Inr _ \<Rightarrow> sx_fail e
             | Inl _ \<Rightarrow>
                 sx_bind (update_msd_state (\<lambda>st. st\<lparr>md_available := False\<rparr>)) (\<lambda>_. sx_fail (Msd MsdDisconnectFailed))))"

definition disconnect :: "cf_kernel \<Rightarrow> unit msd" where
  "disconnect k =
     sx_bind try_operation (\<lambda>_.
     sx_bind (sx_read (\<lambda>c. md_mounted_media (ct_state c))) (\<lambda>media.
     if media = [] then sx_return ()
     else
       sx_bind (disconnect_each k [] media) (\<lambda>_.
       sx_bind (update_msd_state (\<lambda>st. st\<lparr>md_mounted_media := []\<rparr>)) (\<lambda>_. mark_device_info_dirty))))"

section \<open>The disk mode\<close>

text \<open>The beginning: \<open>None\<close> when the mode is already set.  From here the operation lock is held.\<close>

definition begin_switch :: "DiskMode \<Rightarrow> MsdState option msd" where
  "begin_switch mode =
     sx_bind try_operation (\<lambda>_.
     sx_bind assert_available (\<lambda>_.
     sx_bind (sx_read ct_state) (\<lambda>previous.
     if md_disk_mode previous = mode then sx_return None
     else
       sx_bind (update_msd_state (\<lambda>st. st\<lparr>md_usb_reenumerating := True\<rparr>)) (\<lambda>_.
       sx_bind (sx_update (\<lambda>c. c\<lparr>ct_operating := True\<rparr>)) (\<lambda>_.
       sx_bind mark_device_info_dirty (\<lambda>_. sx_return (Some previous)))))))"

definition switch_capacity :: "(string \<Rightarrow> u64) \<Rightarrow> cf_kernel \<Rightarrow> DiskMode \<Rightarrow> MsdFunction msd" where
  "switch_capacity hash k mode =
     sx_bind (on_service (set_msd_lun_capacity hash k (slot_capacity mode))) (\<lambda>_.
     sx_bind (sx_read (\<lambda>c. og_msd_function (ct_service c))) (\<lambda>f. sx_ok_or (Msd MsdOperationFailed) f))"

definition rollback_mode_switch :: "(string \<Rightarrow> u64) \<Rightarrow> cf_kernel \<Rightarrow> MsdState \<Rightarrow> unit msd" where
  "rollback_mode_switch hash k previous =
     sx_bind (switch_capacity hash k (md_disk_mode previous)) (\<lambda>f.
     sx_bind (sx_update (\<lambda>c. c\<lparr>ct_msd_function := Some f\<rparr>)) (\<lambda>_.
       reconnect k (md_mounted_media previous)))"

definition abandon_switch :: "(string \<Rightarrow> u64) \<Rightarrow> cf_kernel \<Rightarrow> MsdState \<Rightarrow> AppError \<Rightarrow> unit msd" where
  "abandon_switch hash k previous switch_error =
     sx_bind (sx_attempt (rollback_mode_switch hash k previous)) (\<lambda>r.
     sx_bind
       (case r of
          Inl rollback_error \<Rightarrow>
            sx_bind (update_msd_state (\<lambda>st. st\<lparr>md_available := False, md_mounted_media := [], md_usb_reenumerating := False\<rparr>)) (\<lambda>_.
            sx_bind (sx_update (\<lambda>c. c\<lparr>ct_msd_function := None\<rparr>)) (\<lambda>_.
              report (''Failed to switch MSD disk mode: '' @ AppError_fmt switch_error @ ''; rollback failed: '' @
                AppError_fmt rollback_error) ''disk_mode_rollback_failed''))
        | Inr _ \<Rightarrow>
            sx_bind (update_msd_state (\<lambda>_. previous\<lparr>md_usb_reenumerating := False\<rparr>)) (\<lambda>_.
              report (''Failed to switch MSD disk mode: '' @ AppError_fmt switch_error) ''disk_mode_switch_failed'')) (\<lambda>_.
     sx_bind mark_device_info_dirty (\<lambda>_. sx_fail (Msd MsdOperationFailed))))"

text \<open>The end of the switch, which gives the lock back on every path.\<close>

definition end_switch :: "(string \<Rightarrow> u64) \<Rightarrow> cf_kernel \<Rightarrow> DiskMode \<Rightarrow> MsdState \<Rightarrow> bool msd" where
  "end_switch hash k mode previous =
     sx_bind (sx_attempt (switch_capacity hash k mode)) (\<lambda>switched.
     sx_bind
       (sx_attempt (case switched of
          Inl e \<Rightarrow> abandon_switch hash k previous e
        | Inr f \<Rightarrow>
            sx_bind (sx_update (\<lambda>c. c\<lparr>ct_msd_function := Some f\<rparr>)) (\<lambda>_.
            sx_bind (update_msd_state (\<lambda>st. (reset_mounts_for_mode mode st)\<lparr>md_usb_reenumerating := False\<rparr>)) (\<lambda>_.
              mark_device_info_dirty)))) (\<lambda>r.
     sx_bind (sx_update (\<lambda>c. c\<lparr>ct_operating := False\<rparr>)) (\<lambda>_.
     sx_bind (sx_lift r) (\<lambda>_. sx_return True))))"

definition set_disk_mode :: "(string \<Rightarrow> u64) \<Rightarrow> cf_kernel \<Rightarrow> DiskMode \<Rightarrow> bool msd" where
  "set_disk_mode hash k mode =
     sx_bind (begin_switch mode) (\<lambda>previous.
       case previous of None \<Rightarrow> sx_return False | Some previous \<Rightarrow> end_switch hash k mode previous)"

section \<open>Images and the end\<close>

definition is_drive_connected :: "MsdController \<Rightarrow> bool" where
  "is_drive_connected c = list_ex (\<lambda>m. mm_kind m = DriveMedia) (md_mounted_media (ct_state c))"

definition delete_image :: "cf_kernel \<Rightarrow> stat_oracle \<Rightarrow> string \<Rightarrow> unit msd" where
  "delete_image k stat image_id =
     sx_bind try_operation (\<lambda>_.
     sx_bind (sx_read ct_state) (\<lambda>st.
     if list_ex (\<lambda>m. mm_kind m = ImageMedia \<and> mm_id m = image_id) (md_mounted_media st) then sx_fail (Msd MsdMediaInUse)
     else sx_bind (sx_read ct_images_path) (\<lambda>images_path. ct_kernel (image_delete k stat images_path image_id))))"

definition msd_shutdown :: "cf_kernel \<Rightarrow> unit msd" where
  "msd_shutdown k =
     sx_bind (sx_attempt (disconnect k)) (\<lambda>_.
     sx_bind (sx_update (\<lambda>c. c\<lparr>ct_msd_function := None\<rparr>)) (\<lambda>_.
       update_msd_state (\<lambda>st. st\<lparr>md_available := False, md_mounted_media := [], md_usb_reenumerating := False\<rparr>)))"

end
