(* ===== verification/MsdMounts.thy ===== *)
theory MsdMounts
  imports MsdController
begin

text \<open>
  What the controller lists is what the kernel shows: in every state that calls of the controller reach, with any
  behaviour of the kernel, the LUN table is well formed, and while the service is available each listed medium backs
  its LUN.  A change of the configuration that rebuilds the gadget breaks this.
\<close>

section \<open>Frames\<close>

lemma lun_path_neq: "a \<noteq> b \<Longrightarrow> lun_path f gp a \<noteq> lun_path f' gp' b"
  by (simp add: lun_path_def join_eq_iff) (simp add: lun_name_def dec_of_u8_inj)

lemma lun_path_eqD: "lun_path f gp a = lun_path f' gp' b \<Longrightarrow> a = b"
  using lun_path_neq by blast

text \<open>Only the LUNs of \<open>L\<close> are touched, and the state is kept.\<close>

definition lun_frame :: "u8 set \<Rightarrow> MsdController \<Rightarrow> MsdController \<Rightarrow> bool" where
  "lun_frame L c c' \<longleftrightarrow>
     ct_state c' = ct_state c \<and> ct_drive_path c' = ct_drive_path c \<and> ct_operating c' = ct_operating c \<and>
     og_manager (ct_service c') = og_manager (ct_service c) \<and> og_msd_function (ct_service c') = og_msd_function (ct_service c) \<and>
     (\<forall>f gp lun. lun \<notin> L \<longrightarrow> backing (lun_path f gp lun) (og_log (ct_service c')) = backing (lun_path f gp lun) (og_log (ct_service c)))"

definition lun_shows :: "MsdController \<Rightarrow> MountedMedia \<Rightarrow> bool" where
  "lun_shows c m \<longleftrightarrow> (\<exists>gm f. og_manager (ct_service c) = Some gm \<and> og_msd_function (ct_service c) = Some f \<and>
     backing (lun_path f (gm_gadget_path gm) (mm_lun m)) (og_log (ct_service c)) = stored_name (line_of (mm_path m)))"

lemma frame_refl [simp]: "lun_frame L c c"
  by (simp add: lun_frame_def)

lemma frame_trans: "lun_frame L c c1 \<Longrightarrow> lun_frame L' c1 c2 \<Longrightarrow> lun_frame (L \<union> L') c c2"
  unfolding lun_frame_def by auto

lemma frame_mono: "lun_frame L c c' \<Longrightarrow> L \<subseteq> L' \<Longrightarrow> lun_frame L' c c'"
  unfolding lun_frame_def by auto

lemma frame_shows: "lun_frame L c c' \<Longrightarrow> mm_lun m \<notin> L \<Longrightarrow> lun_shows c' m = lun_shows c m"
  unfolding lun_frame_def lun_shows_def by metis

lemma frame_state: "lun_frame L c c' \<Longrightarrow> ct_state c' = ct_state c"
  by (simp add: lun_frame_def)

lemma frame_kernel:
  assumes "cf_only (\<lambda>c. \<forall>f gp lun. lun \<notin> L \<longrightarrow> \<not> touches (lun_path f gp lun) c) m" and "ct_kernel m c = (r, c')"
  shows "lun_frame L c c'"
proof -
  obtain h' where h: "m (og_log (ct_service c)) = (r, h')" and c': "c' = c\<lparr>ct_service := (ct_service c)\<lparr>og_log := h'\<rparr>\<rparr>"
    using assms(2) by (auto simp: ct_kernel_def on_service_def og_kernel_def sx_zoom_def split: prod.splits)
  have "backing (lun_path f gp lun) h' = backing (lun_path f gp lun) (og_log (ct_service c))" if "lun \<notin> L" for f gp lun
  proof -
    have only: "cf_only (\<lambda>c. \<not> touches (lun_path f gp lun) c) m" by (rule cf_only_mono [OF assms(1)]) (use that in blast)
    show ?thesis using backing_kept [OF only h] .
  qed
  then show ?thesis by (simp add: lun_frame_def c')
qed

lemma configure_frame:
  assumes "configure_media k m c = (r, c')"
  shows "lun_frame {mm_lun m} c c'" and "r = Inr u \<Longrightarrow> file_stays k (mm_path m) \<Longrightarrow> lun_shows c' m"
proof -
  let ?cfg = "configure_msd_lun k (mm_lun m) (media_config m)"
  obtain r1 s1 where s1: "?cfg (ct_service c) = (r1, s1)" by (meson surj_pair)
  have c': "ct_service c' = s1 \<and> ct_state c' = ct_state c \<and> ct_drive_path c' = ct_drive_path c \<and> ct_operating c' = ct_operating c"
    and r: "r = Inr u \<longrightarrow> r1 = Inr u"
    using assms s1 by (auto simp: configure_media_def on_service_def sx_attempt_def sx_bind_def sx_zoom_def sx_apply report_def split: sum.splits)
  show f: "lun_frame {mm_lun m} c c'"
  proof (cases "og_manager (ct_service c) = None \<or> og_msd_function (ct_service c) = None")
    case True
    then have "s1 = ct_service c"
      using s1 by (auto simp: configure_msd_lun_def og_gadget_path_def sx_bind_def sx_apply split: option.splits)
    then show ?thesis using c' by (simp add: lun_frame_def)
  next
    case False
    then obtain gm f where g: "og_manager (ct_service c) = Some gm" "og_msd_function (ct_service c) = Some f" by auto
    obtain h' where h: "configure_lun k f (gm_gadget_path gm) (mm_lun m) (media_config m) (og_log (ct_service c)) = (r1, h')"
      and s: "s1 = (ct_service c)\<lparr>og_log := h'\<rparr>"
      using s1 g by (auto simp: configure_msd_lun_def og_gadget_path_def og_kernel_def sx_zoom_def sx_bind_def sx_apply split: prod.splits)
    have "backing (lun_path f' gp lun) h' = backing (lun_path f' gp lun) (og_log (ct_service c))" if "lun \<noteq> mm_lun m" for f' gp lun
    proof -
      have only: "cf_only (\<lambda>c. \<not> touches (lun_path f' gp lun) c) (configure_lun k f (gm_gadget_path gm) (mm_lun m) (media_config m))"
        by (rule cf_only_mono [OF configure_only [where q = "lun_path f' gp lun"]]) (use lun_path_neq [OF that] in simp)
      show ?thesis using backing_kept [OF only h] .
    qed
    then show ?thesis using c' s by (simp add: lun_frame_def)
  qed
  show "lun_shows c' m" if ok: "r = Inr u" and there: "file_stays k (mm_path m)"
  proof -
    have s1': "?cfg (ct_service c) = (Inr u, s1)" using s1 r ok by simp
    then obtain gm f where g: "og_manager (ct_service c) = Some gm" "og_msd_function (ct_service c) = Some f"
      by (auto simp: configure_msd_lun_def og_gadget_path_def sx_bind_Inr sx_Inr)
    then obtain h' where h: "configure_lun k f (gm_gadget_path gm) (mm_lun m) (media_config m) (og_log (ct_service c)) = (Inr u, h')"
      and s: "s1 = (ct_service c)\<lparr>og_log := h'\<rparr>"
      using s1' by (auto simp: configure_msd_lun_def og_gadget_path_def og_kernel_def sx_zoom_def sx_bind_def sx_apply split: prod.splits)
    have f_eq: "lc_file (media_config m) = mm_path m" by (simp add: media_config_def lc_for_cdrom_def lc_for_disk_def)
    have "backing (lun_path f (gm_gadget_path gm) (mm_lun m)) h' = stored_name (line_of (mm_path m))"
      using configure_ok [OF _ h] there f_eq by simp
    then show ?thesis using c' s g by (simp add: lun_shows_def)
  qed
qed

lemma disconnect_frame:
  assumes "ct_disconnect_lun k lun c = (r, c')"
  shows "lun_frame {lun} c c'" and "r = Inl e \<Longrightarrow> lun_frame {} c c'"
proof -
  have "lun_frame {lun} c c' \<and> (r = Inl e \<longrightarrow> lun_frame {} c c')"
  proof (cases "og_manager (ct_service c) = None \<or> ct_msd_function c = None")
    case True
    then have "c' = c"
      using assms by (auto simp: ct_disconnect_lun_def og_gadget_path_def sx_bind_def sx_apply split: option.splits)
    then show ?thesis by simp
  next
    case False
    then obtain gm f where g: "og_manager (ct_service c) = Some gm" "ct_msd_function c = Some f" by auto
    then have a: "ct_kernel (disconnect_lun k f (gm_gadget_path gm) lun) c = (r, c')"
      using assms by (auto simp: ct_disconnect_lun_def og_gadget_path_def sx_bind_def sx_apply)
    have "cf_only (\<lambda>c. \<forall>f' gp l. l \<notin> {lun} \<longrightarrow> \<not> touches (lun_path f' gp l) c) (disconnect_lun k f (gm_gadget_path gm) lun)"
      unfolding disconnect_lun_def disconnect_lun_path_def clear_if_exists_def clear_lun_file_def
      by (intro cf_only_intros) (auto simp: touches_join dest: lun_path_eqD)
    then have "lun_frame {lun} c c'" using a frame_kernel by blast
    moreover have "lun_frame {} c c'" if failed: "r = Inl e"
    proof -
      obtain h' where h: "disconnect_lun k f (gm_gadget_path gm) lun (og_log (ct_service c)) = (Inl e, h')"
        and c': "c' = c\<lparr>ct_service := (ct_service c)\<lparr>og_log := h'\<rparr>\<rparr>"
        using a failed by (auto simp: ct_kernel_def on_service_def og_kernel_def sx_zoom_def split: prod.splits)
      have "backing l h' = backing l (og_log (ct_service c))" for l
        using h disconnect_failed by (auto simp: disconnect_lun_def sx_apply split: if_splits)
      then show ?thesis by (simp add: lun_frame_def c')
    qed
    ultimately show ?thesis by blast
  qed
  then show "lun_frame {lun} c c'" and "r = Inl e \<Longrightarrow> lun_frame {} c c'" by blast+
qed

section \<open>The invariant\<close>

definition slots_ok :: "MsdState \<Rightarrow> bool" where
  "slots_ok st \<longleftrightarrow>
     (let media = md_mounted_media st in
      distinct (map mm_lun media) \<and> list_all (\<lambda>m. mm_lun m < slot_capacity (md_disk_mode st)) media \<and>
      distinct (map mm_id (filter (\<lambda>m. mm_kind m = ImageMedia) media)) \<and>
      length (filter (\<lambda>m. mm_kind m = DriveMedia) media) \<le> 1 \<and>
      list_all (\<lambda>m. mm_cdrom m \<longrightarrow> mm_read_only m) media)"

text \<open>The files of the listed media are among those that do not vanish.\<close>

definition files_in :: "string set \<Rightarrow> MsdState \<Rightarrow> bool" where
  "files_in F st \<longleftrightarrow> (\<forall>m \<in> set (md_mounted_media st). mm_path m \<in> F) \<and>
     (case md_drive_info st of None \<Rightarrow> True | Some i \<Rightarrow> dr_path i \<in> F)"

definition media_shown :: "MsdController \<Rightarrow> bool" where
  "media_shown c \<longleftrightarrow> (md_available (ct_state c) \<longrightarrow> (\<forall>m \<in> set (md_mounted_media (ct_state c)). lun_shows c m))"

definition msd_inv :: "string set \<Rightarrow> MsdController \<Rightarrow> bool" where
  "msd_inv F c \<longleftrightarrow> slots_ok (ct_state c) \<and> files_in F (ct_state c) \<and> ct_drive_path c \<in> F \<and> media_shown c"

lemma lun_taken_iff: "lun_taken st lun \<longleftrightarrow> lun \<in> mm_lun ` set (md_mounted_media st)"
  by (auto simp: lun_taken_def list_ex_iff)

lemma lowest_free: "lowest_free_lun st = Some lun \<Longrightarrow> lun < slot_capacity (md_disk_mode st) \<and> \<not> lun_taken st lun"
proof -
  assume "lowest_free_lun st = Some lun"
  then obtain n where n: "n < unat (slot_capacity (md_disk_mode st))" "lun = of_nat n" "\<not> lun_taken st lun"
    unfolding lowest_free_lun_def find_Some_iff by auto
  have "lun < slot_capacity (md_disk_mode st)" using n(1) by (simp add: n(2) word_less_nat_alt take_bit_nat_eq_self unat_of_nat)
  then show ?thesis using n by simp
qed

lemma select_free: "select_lun st requested = Inr lun \<Longrightarrow> lun < slot_capacity (md_disk_mode st) \<and> \<not> lun_taken st lun"
  using lowest_free by (auto simp: select_lun_def not_le split: option.splits if_splits)

lemma lun_shows_cong:
  "ct_service c' = ct_service c \<Longrightarrow> lun_shows c' m = lun_shows c m"
  by (simp add: lun_shows_def)

lemma msd_inv_cong:
  "msd_inv F c \<Longrightarrow> ct_service c' = ct_service c \<Longrightarrow> ct_state c' = ct_state c \<Longrightarrow> ct_drive_path c' = ct_drive_path c \<Longrightarrow> msd_inv F c'"
  using lun_shows_cong [of c' c] by (simp add: msd_inv_def media_shown_def)

lemma frame_empty_inv: "msd_inv F c \<Longrightarrow> lun_frame {} c c' \<Longrightarrow> msd_inv F c'"
  by (simp add: msd_inv_def media_shown_def frame_state frame_shows) (simp add: lun_frame_def)

lemma kernel_quiet: "cf_only (\<lambda>c. \<forall>lun. \<not> touches lun c) m \<Longrightarrow> ct_kernel m c = (r, c') \<Longrightarrow> lun_frame {} c c'"
  by (rule frame_kernel) (erule cf_only_mono, blast)

text \<open>Attaching a medium to a free LUN; \<open>previous\<close> agrees with the state but for what is known of the drive.\<close>

lemma attach_inv:
  assumes inv: "msd_inv F c" and stays: "\<forall>p \<in> F. file_stays k p" and m: "mm_path m \<in> F"
    and same: "md_mounted_media previous = md_mounted_media (ct_state c)" "md_disk_mode previous = md_disk_mode (ct_state c)"
      "md_available previous = md_available (ct_state c)" and files: "files_in F previous"
    and free: "mm_lun m < slot_capacity (md_disk_mode (ct_state c)) \<and> \<not> lun_taken (ct_state c) (mm_lun m)"
    and ident: "mm_kind m = ImageMedia \<longrightarrow> \<not> list_ex (\<lambda>n. mm_kind n = ImageMedia \<and> mm_id n = mm_id m) (md_mounted_media (ct_state c))"
      "mm_kind m = DriveMedia \<longrightarrow> \<not> list_ex (\<lambda>n. mm_kind n = DriveMedia) (md_mounted_media (ct_state c))"
      "mm_cdrom m \<longrightarrow> mm_read_only m"
    and run: "attach k previous m c = (r, c')"
  shows "msd_inv F c'"
proof -
  obtain r1 c1 where c1: "configure_media k m c = (r1, c1)" by (meson surj_pair)
  note f = configure_frame [OF c1]
  have others: "lun_shows c1 n = lun_shows c n" if "n \<in> set (md_mounted_media (ct_state c))" for n
  proof -
    have "mm_lun n \<noteq> mm_lun m" using free that unfolding lun_taken_iff by (metis imageI)
    then show ?thesis using frame_shows [OF f(1)] by simp
  qed
  have st: "ct_state c1 = ct_state c" "ct_drive_path c1 = ct_drive_path c" using f(1) by (simp_all add: lun_frame_def)
  show ?thesis
  proof (cases r1)
    case (Inl e)
    then have c': "c' = c1\<lparr>ct_state := previous\<rparr>"
      using run c1 by (simp add: attach_def sx_bind_def sx_attempt_def update_msd_state_def sx_apply)
    show ?thesis
      using inv same files others st unfolding c' msd_inv_def media_shown_def slots_ok_def
      by (simp add: lun_shows_cong [of "c1\<lparr>ct_state := previous\<rparr>" c1])
  next
    case (Inr u)
    let ?st = "(ct_state c)\<lparr>md_mounted_media := md_mounted_media (ct_state c) @ [m]\<rparr>"
    have c': "ct_state c' = ?st" "ct_service c' = ct_service c1" "ct_drive_path c' = ct_drive_path c"
      using run c1 Inr st
      by (auto simp: attach_def sx_bind_def sx_attempt_def update_msd_state_def sx_apply finish_connect_success_def mark_device_info_dirty_def)
    have "lun_shows c1 m" using f(2) Inr stays m by blast
    moreover have "slots_ok ?st"
      using inv free ident by (auto simp: msd_inv_def slots_ok_def Let_def lun_taken_iff list_ex_iff filter_empty_conv split: MountedMediaKind.splits)
    ultimately show ?thesis
      using inv m others unfolding msd_inv_def media_shown_def
      by (auto simp: c' files_in_def lun_shows_cong [OF c'(2)])
  qed
qed

lemma exists_quiet: "ct_kernel (cf_exists k p) c = (r, c') \<Longrightarrow> lun_frame {} c c'"
proof -
  have "cf_only (\<lambda>c. \<forall>lun. \<not> touches lun c) (cf_exists k p)" by (intro cf_only_intros) simp
  then show "ct_kernel (cf_exists k p) c = (r, c') \<Longrightarrow> lun_frame {} c c'" by (rule kernel_quiet)
qed

lemma exists_result: "ct_kernel (cf_exists k p) c = (r, c') \<Longrightarrow> \<exists>b. r = Inr b"
  by (auto simp: ct_kernel_def on_service_def og_kernel_def sx_zoom_def cf_exists_def cf_ask_def sx_bind_def sx_apply Let_def)

lemma report_inv: "msd_inv F c \<Longrightarrow> report reason code c = (r, c') \<Longrightarrow> msd_inv F c'"
  by (rule msd_inv_cong [of F c]) (auto simp: report_def sx_apply)

lemma unavailable: "md_available (ct_state c) \<Longrightarrow> assert_available c = (Inr (), c)"
  by (simp add: assert_available_def sx_bind_def sx_apply)

lemma unavailable_inv:
  "msd_inv F c \<Longrightarrow> \<not> md_available (ct_state c) \<Longrightarrow> \<exists>e c'. assert_available c = (Inl e, c') \<and> msd_inv F c'"
  using report_inv [of F c] by (auto simp: assert_available_def sx_bind_def sx_apply report_def)

lemma mount_image_inv:
  assumes inv: "msd_inv F c" and stays: "\<forall>p \<in> F. file_stays k p" and img: "im_path img \<in> F"
    and run: "mount_image_in_slot k img cdrom read_only requested c = (r, c')"
  shows "msd_inv F c'"
proof (cases "ct_operating c \<or> \<not> md_available (ct_state c)")
  case True
  then show ?thesis
    using run inv unavailable_inv [OF inv]
    by (auto simp: mount_image_in_slot_def try_operation_def sx_bind_def sx_apply split: if_splits)
next
  case False
  obtain there c1 where c1: "ct_kernel (cf_exists k (im_path img)) c = (Inr there, c1)"
    using exists_result by (metis surj_pair)
  note f1 = exists_quiet [OF c1]
  have inv1: "msd_inv F c1" using frame_empty_inv [OF inv f1] .
  have st: "ct_state c1 = ct_state c" using f1 by (simp add: lun_frame_def)
  let ?rest = "if \<not> there then
       sx_bind (report (''Image file not found: '' @ im_path img) ''image_not_found'') (\<lambda>_. sx_fail (Msd MsdResourceNotFound))
     else if list_ex (\<lambda>m. mm_kind m = ImageMedia \<and> mm_id m = im_id img) (md_mounted_media (ct_state c)) then
       sx_fail (Msd MsdMediaAlreadyMounted)
     else
       sx_bind (sx_lift (select_lun (ct_state c) requested)) (\<lambda>lun.
         attach k (ct_state c) (media_of_image lun img cdrom read_only))"
  have rest: "?rest c1 = (r, c')"
    using run False c1 by (simp add: mount_image_in_slot_def try_operation_def sx_bind_def sx_apply unavailable)
  show ?thesis
  proof (cases "\<not> there")
    case True
    then show ?thesis using rest inv1 by (auto simp: sx_bind_def sx_apply report_def intro: msd_inv_cong)
  next
    case there: False
    show ?thesis
    proof (cases "list_ex (\<lambda>m. mm_kind m = ImageMedia \<and> mm_id m = im_id img) (md_mounted_media (ct_state c))")
      case True
      then show ?thesis using rest there inv1 by (simp add: sx_apply)
    next
      case new: False
      show ?thesis
      proof (cases "select_lun (ct_state c) requested")
        case (Inl e)
        then show ?thesis using rest there new inv1 by (simp add: sx_bind_def sx_apply)
      next
        case (Inr lun)
        have a: "attach k (ct_state c) (media_of_image lun img cdrom read_only) c1 = (r, c')"
          using rest there new Inr by (simp add: sx_bind_def sx_apply)
        show ?thesis
          by (rule attach_inv [OF inv1 stays _ _ _ _ _ _ _ _ _ a])
            (use inv img new select_free [OF Inr] st in \<open>simp_all add: media_of_image_def msd_inv_def\<close>)
      qed
    qed
  qed
qed

lemma mount_drive_inv:
  assumes inv: "msd_inv F c" and stays: "\<forall>p \<in> F. file_stays k p" and run: "mount_drive k stat c = (r, c')"
  shows "msd_inv F c'"
proof (cases "ct_operating c \<or> \<not> md_available (ct_state c)")
  case True
  then show ?thesis
    using run inv unavailable_inv [OF inv]
    by (auto simp: mount_drive_def try_operation_def sx_bind_def sx_apply split: if_splits)
next
  case False
  obtain there c1 where c1: "ct_kernel (cf_exists k (ct_drive_path c)) c = (Inr there, c1)"
    using exists_result by (metis surj_pair)
  note f1 = exists_quiet [OF c1]
  have inv1: "msd_inv F c1" using frame_empty_inv [OF inv f1] .
  have st: "ct_state c1 = ct_state c" "ct_drive_path c1 = ct_drive_path c" using f1 by (simp_all add: lun_frame_def)
  show ?thesis
  proof (cases there)
    case f: False
    then show ?thesis
      using run False c1 inv1
      by (auto simp: mount_drive_def try_operation_def sx_bind_def sx_apply unavailable report_def intro: msd_inv_cong)
  next
    case True
    define info where "info = (case md_drive_info (ct_state c) of Some i \<Rightarrow> Some i | None \<Rightarrow>
        map_option (\<lambda>st. drive_info_of (ct_drive_path c1) (fs_len st)) (stat (og_log (ct_service c1)) (ct_drive_path c1)))"
    define c2 where "c2 = c1\<lparr>ct_state := (if md_drive_info (ct_state c) = None then (ct_state c)\<lparr>md_drive_info := info\<rparr> else ct_state c)\<rparr>"
    have path: "case info of None \<Rightarrow> True | Some i \<Rightarrow> dr_path i \<in> F"
      using inv st by (auto simp: info_def msd_inv_def files_in_def drive_info_of_def split: option.splits)
    have inv2: "msd_inv F c2"
      using inv1 path lun_shows_cong [of c2 c1] st
      by (auto simp: c2_def msd_inv_def files_in_def slots_ok_def media_shown_def)
    let ?rest = "if list_ex (\<lambda>m. mm_kind m = DriveMedia) (md_mounted_media (ct_state c)) then sx_fail (Msd MsdMediaAlreadyMounted)
       else
         sx_bind (sx_ok_or (Msd MsdDriveNotInitialized) info) (\<lambda>info.
         sx_bind (sx_ok_or (Msd MsdMediaSlotsFull) (lowest_free_lun (ct_state c))) (\<lambda>lun.
           attach k (ct_state c) (media_of_drive lun info)))"
    have "mount_drive k stat c = ?rest c2"
      using False c1 True st
      by (cases "md_drive_info (ct_state c)")
        (simp_all add: mount_drive_def try_operation_def sx_bind_def sx_apply unavailable drive_metadata_def update_msd_state_def c2_def info_def)
    then have rest: "?rest c2 = (r, c')" using run by simp
    show ?thesis
    proof (cases "list_ex (\<lambda>m. mm_kind m = DriveMedia) (md_mounted_media (ct_state c))")
      case True
      then show ?thesis using rest inv2 by (simp add: sx_apply)
    next
      case new: False
      show ?thesis
      proof (cases info)
        case None
        then show ?thesis using rest new inv2 by (simp add: sx_bind_def sx_apply)
      next
        case i: (Some i)
        show ?thesis
        proof (cases "lowest_free_lun (ct_state c)")
          case None
          then show ?thesis using rest new i inv2 by (simp add: sx_bind_def sx_apply)
        next
          case (Some lun)
          have a: "attach k (ct_state c) (media_of_drive lun i) c2 = (r, c')" using rest new i Some by (simp add: sx_bind_def sx_apply)
          show ?thesis
            by (rule attach_inv [OF inv2 stays _ _ _ _ _ _ _ _ _ a])
              (use inv path i new lowest_free [OF Some] in \<open>simp_all add: media_of_drive_def msd_inv_def c2_def lun_taken_def\<close>)
        qed
      qed
    qed
  qed
qed

lemma position_split: "position P xs = Some i \<Longrightarrow> \<exists>a b. xs = a @ xs ! i # b \<and> remove_at i xs = a @ b"
proof (induction P xs arbitrary: i rule: position.induct)
  case (2 P x xs)
  show ?case
  proof (cases "P x")
    case True
    then show ?thesis using "2.prems" by (intro exI [of _ "[]"] exI [of _ xs]) (auto simp: remove_at_def)
  next
    case False
    then obtain j where j: "position P xs = Some j" "i = Suc j" using "2.prems" by auto
    obtain a b where "xs = a @ xs ! j # b" "remove_at j xs = a @ b" using "2.IH" [OF False j(1)] by blast
    then show ?thesis using j by (intro exI [of _ "x # a"] exI [of _ b]) (simp add: remove_at_def)
  qed
qed simp

lemma image_neq: "f m \<notin> f ` S \<Longrightarrow> n \<in> S \<Longrightarrow> f n \<noteq> f m"
  by (metis imageI)

lemma slots_ok_remove:
  assumes "slots_ok st" and "md_mounted_media st = a @ m # b"
  shows "slots_ok (st\<lparr>md_mounted_media := a @ b\<rparr>)" and "\<forall>n \<in> set (a @ b). mm_lun n \<noteq> mm_lun m"
proof -
  show "slots_ok (st\<lparr>md_mounted_media := a @ b\<rparr>)"
    using assms by (auto simp: slots_ok_def Let_def split: if_splits)
  have "mm_lun m \<notin> mm_lun ` set (a @ b)" using assms by (auto simp: slots_ok_def Let_def)
  then show "\<forall>n \<in> set (a @ b). mm_lun n \<noteq> mm_lun m" using image_neq by metis
qed

lemma unmount_inv:
  assumes inv: "msd_inv F c" and run: "unmount_media k P c = (r, c')"
  shows "msd_inv F c'"
proof (cases "ct_operating c \<or> position P (md_mounted_media (ct_state c)) = None")
  case True
  then show ?thesis using run inv by (auto simp: unmount_media_def try_operation_def sx_bind_def sx_apply split: if_splits)
next
  case False
  let ?media = "md_mounted_media (ct_state c)"
  obtain i where i: "position P ?media = Some i" using False by auto
  then obtain a b where ab: "?media = a @ ?media ! i # b" "remove_at i ?media = a @ b" using position_split by blast
  obtain r1 c1 where c1: "ct_disconnect_lun k (mm_lun (?media ! i)) c = (r1, c1)" by (meson surj_pair)
  note f = disconnect_frame [OF c1]
  show ?thesis
  proof (cases r1)
    case (Inl e)
    then show ?thesis
      using run False i c1 frame_empty_inv [OF inv f(2)] by (auto simp: unmount_media_def try_operation_def sx_bind_def sx_apply)
  next
    case (Inr u)
    have c': "ct_state c' = (ct_state c)\<lparr>md_mounted_media := a @ b\<rparr>" "ct_service c' = ct_service c1" "ct_drive_path c' = ct_drive_path c"
      using run False i c1 Inr ab(2) f(1)
      by (auto simp: unmount_media_def try_operation_def sx_bind_def sx_apply update_msd_state_def mark_device_info_dirty_def lun_frame_def)
    have slots: "slots_ok ((ct_state c)\<lparr>md_mounted_media := a @ b\<rparr>)" "\<forall>n \<in> set (a @ b). mm_lun n \<noteq> mm_lun (?media ! i)"
      using slots_ok_remove [OF _ ab(1)] inv by (simp_all add: msd_inv_def)
    have sub: "set (a @ b) \<subseteq> set ?media" by (subst ab(1)) auto
    have "lun_shows c' n = lun_shows c n" if "n \<in> set (a @ b)" for n
      using frame_shows [OF f(1)] lun_shows_cong [OF c'(2)] slots(2) that by auto
    then show ?thesis
      using inv slots(1) sub by (auto simp: msd_inv_def media_shown_def files_in_def c')
  qed
qed

lemma reconnect_effect:
  "reconnect k ms c = (r, c') \<Longrightarrow> distinct (map mm_lun ms) \<Longrightarrow> \<forall>m \<in> set ms. file_stays k (mm_path m) \<Longrightarrow>
   lun_frame (mm_lun ` set ms) c c' \<and> (r = Inr u \<longrightarrow> (\<forall>m \<in> set ms. lun_shows c' m))"
proof (induction ms arbitrary: c)
  case (Cons m ms)
  obtain r1 c1 where c1: "configure_media k m c = (r1, c1)" by (meson surj_pair)
  note f = configure_frame [OF c1]
  show ?case
  proof (cases r1)
    case (Inl e)
    then show ?thesis using Cons.prems(1) c1 frame_mono [OF f(1), of "mm_lun ` set (m # ms)"] by (auto simp: sx_bind_def)
  next
    case (Inr v)
    then have "reconnect k ms c1 = (r, c')" using Cons.prems(1) c1 by (simp add: sx_bind_def)
    then have ih: "lun_frame (mm_lun ` set ms) c1 c'" "r = Inr u \<longrightarrow> (\<forall>m \<in> set ms. lun_shows c' m)"
      using Cons.IH [of c1] Cons.prems by simp_all
    have "lun_shows c' m" using frame_shows [OF ih(1)] f(2) Inr Cons.prems by auto
    then show ?thesis using frame_trans [OF f(1) ih(1)] ih(2) by auto
  qed
qed (simp add: sx_apply)

lemma reconnect_state: "reconnect k ms c = (r, c') \<Longrightarrow> ct_state c' = ct_state c \<and> ct_drive_path c' = ct_drive_path c"
proof (induction ms arbitrary: c)
  case (Cons m ms)
  obtain r1 c1 where c1: "configure_media k m c = (r1, c1)" by (meson surj_pair)
  have "ct_state c1 = ct_state c \<and> ct_drive_path c1 = ct_drive_path c" using configure_frame(1) [OF c1] by (simp add: lun_frame_def)
  then show ?case using Cons.IH [of c1] Cons.prems c1 by (auto simp: sx_bind_def split: sum.splits)
qed (simp add: sx_apply)

lemma disconnect_each_effect:
  assumes "disconnect_each k gone ms c = (r, c')" and "distinct (map mm_lun (gone @ ms))"
    and "\<forall>m \<in> set (gone @ ms). file_stays k (mm_path m)" and "\<forall>m \<in> set ms. lun_shows c m"
  shows "ct_drive_path c' = ct_drive_path c \<and>
    (ct_state c' = ct_state c \<and> (r = Inr () \<or> (\<forall>m \<in> set (gone @ ms). lun_shows c' m)) \<or>
     ct_state c' = (ct_state c)\<lparr>md_available := False\<rparr> \<and> r \<noteq> Inr ())"
  using assms
proof (induction k gone ms arbitrary: c rule: disconnect_each.induct)
  case (1 k gone)
  then show ?case by (simp add: sx_apply)
next
  case (2 k gone m ms)
  obtain r1 c1 where c1: "ct_disconnect_lun k (mm_lun m) c = (r1, c1)" by (meson surj_pair)
  note f = disconnect_frame [OF c1]
  show ?case
  proof (cases r1)
    case (Inr u)
    have "mm_lun m \<notin> mm_lun ` set ms" using "2.prems"(2) by simp
    then have "\<forall>n \<in> set ms. lun_shows c1 n"
      using "2.prems"(4) frame_shows [OF f(1)] image_neq [of mm_lun m "set ms"] by simp
    then show ?thesis
      using "2.IH" [where c = c1] "2.prems" c1 Inr f(1) by (simp add: sx_bind_def sx_attempt_def lun_frame_def)
  next
    case (Inl e)
    obtain r2 c2 where c2: "reconnect k gone c1 = (r2, c2)" by (meson surj_pair)
    have g: "lun_frame (mm_lun ` set gone) c1 c2" "r2 = Inr () \<longrightarrow> (\<forall>m \<in> set gone. lun_shows c2 m)"
      using reconnect_effect [OF c2] "2.prems" by auto
    have keep: "lun_frame {} c c1" using f(2) Inl by blast
    have "mm_lun n \<notin> mm_lun ` set gone" if "n \<in> set (m # ms)" for n
    proof -
      have "mm_lun ` set gone \<inter> mm_lun ` set (m # ms) = {}" using "2.prems"(2) by (simp only: map_append distinct_append set_map)
      then show ?thesis using that by blast
    qed
    then have shown: "\<forall>n \<in> set (m # ms). lun_shows c2 n"
      using "2.prems"(4) frame_shows [OF keep] frame_shows [OF g(1)] by simp
    show ?thesis
    proof (cases r2)
      case Inl2: (Inl e')
      then show ?thesis
        using "2.prems"(1) c1 c2 Inl g(1) keep
        by (auto simp: sx_bind_def sx_attempt_def sx_apply update_msd_state_def lun_frame_def)
    next
      case Inr2: (Inr v)
      then have "c' = c2" using "2.prems"(1) c1 c2 Inl by (simp add: sx_bind_def sx_attempt_def sx_apply)
      then show ?thesis using g Inr2 shown keep by (auto simp: lun_frame_def)
    qed
  qed
qed


lemma no_media_inv: "md_mounted_media (ct_state c) = [] \<Longrightarrow> files_in F (ct_state c) \<Longrightarrow> ct_drive_path c \<in> F \<Longrightarrow> msd_inv F c"
  by (simp add: msd_inv_def slots_ok_def media_shown_def)

lemma each_state:
  "disconnect_each k gone ms c = (r, c') \<Longrightarrow>
   ct_drive_path c' = ct_drive_path c \<and> (ct_state c' = ct_state c \<or> ct_state c' = (ct_state c)\<lparr>md_available := False\<rparr>)"
proof (induction k gone ms arbitrary: c rule: disconnect_each.induct)
  case (2 k gone m ms)
  obtain r1 c1 where c1: "ct_disconnect_lun k (mm_lun m) c = (r1, c1)" by (meson surj_pair)
  note f = disconnect_frame(1) [OF c1]
  obtain r2 c2 where c2: "reconnect k gone c1 = (r2, c2)" by (meson surj_pair)
  have "ct_state c2 = ct_state c1 \<and> ct_drive_path c2 = ct_drive_path c1" using reconnect_state [OF c2] .
  then show ?case
    using "2.IH" [where c = c1] "2.prems" c1 c2 f
    by (auto simp: sx_bind_def sx_attempt_def sx_apply update_msd_state_def lun_frame_def split: sum.splits)
qed (simp add: sx_apply)

lemma disconnect_inv:
  assumes inv: "msd_inv F c" and stays: "\<forall>p \<in> F. file_stays k p" and run: "disconnect k c = (r, c')"
  shows "msd_inv F c'"
proof (cases "ct_operating c \<or> md_mounted_media (ct_state c) = [] \<or> \<not> md_available (ct_state c)")
  case True
  show ?thesis
  proof (cases "ct_operating c \<or> md_mounted_media (ct_state c) = []")
    case True
    then show ?thesis using run inv by (auto simp: disconnect_def try_operation_def sx_bind_def sx_apply split: if_splits)
  next
    case False
    then have gone: "\<not> md_available (ct_state c)" using True by blast
    obtain r1 c1 where c1: "disconnect_each k [] (md_mounted_media (ct_state c)) c = (r1, c1)" by (meson surj_pair)
    have kept: "ct_drive_path c1 = ct_drive_path c \<and> (ct_state c1 = ct_state c \<or> ct_state c1 = (ct_state c)\<lparr>md_available := False\<rparr>)"
      using each_state [OF c1] .
    show ?thesis
    proof (cases r1)
      case (Inl e)
      then have "c' = c1" using run False c1 by (simp add: disconnect_def try_operation_def sx_bind_def sx_apply)
      then show ?thesis using inv kept gone by (auto simp: msd_inv_def slots_ok_def media_shown_def files_in_def)
    next
      case (Inr u)
      then have "md_mounted_media (ct_state c') = [] \<and> md_drive_info (ct_state c') = md_drive_info (ct_state c) \<and> ct_drive_path c' = ct_drive_path c"
        using run False c1 kept
        by (auto simp: disconnect_def try_operation_def sx_bind_def sx_apply update_msd_state_def mark_device_info_dirty_def)
      then show ?thesis using inv by (intro no_media_inv) (simp_all add: msd_inv_def files_in_def)
    qed
  qed
next
  case False
  let ?media = "md_mounted_media (ct_state c)"
  obtain r1 c1 where c1: "disconnect_each k [] ?media c = (r1, c1)" by (meson surj_pair)
  have e: "ct_drive_path c1 = ct_drive_path c \<and>
    (ct_state c1 = ct_state c \<and> (r1 = Inr () \<or> (\<forall>m \<in> set ([] @ ?media). lun_shows c1 m)) \<or>
     ct_state c1 = (ct_state c)\<lparr>md_available := False\<rparr> \<and> r1 \<noteq> Inr ())"
    by (rule disconnect_each_effect [OF c1])
      (use inv stays False in \<open>auto simp: msd_inv_def slots_ok_def Let_def files_in_def media_shown_def\<close>)
  show ?thesis
  proof (cases r1)
    case (Inl err)
    then have "c' = c1" using run False c1 by (simp add: disconnect_def try_operation_def sx_bind_def sx_apply)
    then show ?thesis using inv e Inl by (auto simp: msd_inv_def slots_ok_def media_shown_def files_in_def)
  next
    case (Inr u)
    then have "md_mounted_media (ct_state c') = [] \<and> md_drive_info (ct_state c') = md_drive_info (ct_state c) \<and> ct_drive_path c' = ct_drive_path c"
      using run False c1 e
      by (auto simp: disconnect_def try_operation_def sx_bind_def sx_apply update_msd_state_def mark_device_info_dirty_def)
    then show ?thesis using inv by (intro no_media_inv) (simp_all add: msd_inv_def files_in_def)
  qed
qed

lemma msd_shutdown_inv:
  assumes "msd_inv F c" and "\<forall>p \<in> F. file_stays k p" and "msd_shutdown k c = (r, c')"
  shows "msd_inv F c'"
proof -
  obtain r1 c1 where c1: "disconnect k c = (r1, c1)" by (meson surj_pair)
  have "msd_inv F c1" using disconnect_inv [OF assms(1,2) c1] .
  then show ?thesis
    using assms(3) c1
    by (intro no_media_inv)
      (auto simp: msd_shutdown_def sx_bind_def sx_attempt_def sx_apply update_msd_state_def msd_inv_def files_in_def)
qed

lemma delete_inv:
  assumes "msd_inv F c" and "delete_image k stat i c = (r, c')"
  shows "msd_inv F c'"
proof -
  have "cf_only (\<lambda>c. \<forall>lun. \<not> touches lun c) (image_delete k stat p i)" for p
    unfolding image_delete_def image_get_def image_list_def ensure_dir_def storage_call_def
    by (intro cf_only_intros) (auto simp: touches_def cf_only_def)
  then have "lun_frame {} c c'" if "ct_kernel (image_delete k stat (ct_images_path c) i) c = (r, c')"
    using kernel_quiet that by blast
  then show ?thesis
    using assms frame_empty_inv [OF assms(1)]
    by (auto simp: delete_image_def try_operation_def sx_bind_def sx_apply split: if_splits)
qed

section \<open>Switching the disk mode\<close>

lemma begin_switch_inv:
  assumes "msd_inv F c" and "begin_switch mode c = (r, c')"
  shows "msd_inv F c' \<and> (r = Inr (Some previous) \<longrightarrow> slots_ok previous \<and> files_in F previous)"
proof (cases "ct_operating c \<or> \<not> md_available (ct_state c)")
  case True
  then show ?thesis
    using assms unavailable_inv [OF assms(1)] by (auto simp: begin_switch_def try_operation_def sx_bind_def sx_apply split: if_splits)
next
  case False
  show ?thesis
  proof (cases "md_disk_mode (ct_state c) = mode")
    case True
    then show ?thesis
      using assms False by (auto simp: begin_switch_def try_operation_def sx_bind_def sx_apply unavailable)
  next
    case differs: False
    define d where "d = c\<lparr>ct_state := (ct_state c)\<lparr>md_usb_reenumerating := True\<rparr>, ct_operating := True, ct_dirty := ct_dirty c + 1\<rparr>"
    have run: "r = Inr (Some (ct_state c))" "c' = d"
      using assms(2) False differs
      by (simp_all add: begin_switch_def try_operation_def sx_bind_def sx_apply unavailable update_msd_state_def mark_device_info_dirty_def d_def)
    have "lun_shows d m = lun_shows c m" for m by (rule lun_shows_cong) (simp add: d_def)
    then have "media_shown d = media_shown c" by (simp add: media_shown_def) (simp add: d_def)
    moreover have "slots_ok (ct_state d) = slots_ok (ct_state c)" "files_in F (ct_state d) = files_in F (ct_state c)" "ct_drive_path d = ct_drive_path c"
      by (simp_all add: d_def slots_ok_def files_in_def)
    ultimately show ?thesis using assms(1) run by (auto simp: msd_inv_def)
  qed
qed

lemma switch_capacity_keeps:
  "switch_capacity hash k mode c = (r, c') \<Longrightarrow> ct_state c' = ct_state c \<and> ct_drive_path c' = ct_drive_path c"
  by (auto simp: switch_capacity_def on_service_def sx_zoom_def sx_bind_def sx_apply split: prod.splits sum.splits)

text \<open>The media of the mode before the switch are all connected again when the rollback succeeds.\<close>

lemma rollback_effect:
  assumes "rollback_mode_switch hash k previous c = (r, c')" and "slots_ok previous"
    and "\<forall>m \<in> set (md_mounted_media previous). file_stays k (mm_path m)"
  shows "ct_state c' = ct_state c \<and> ct_drive_path c' = ct_drive_path c \<and>
    (r = Inr u \<longrightarrow> (\<forall>m \<in> set (md_mounted_media previous). lun_shows c' m))"
proof -
  obtain r1 c1 where c1: "switch_capacity hash k (md_disk_mode previous) c = (r1, c1)" by (meson surj_pair)
  note keeps = switch_capacity_keeps [OF c1]
  show ?thesis
  proof (cases r1)
    case (Inl e)
    then show ?thesis using assms(1) c1 keeps by (auto simp: rollback_mode_switch_def sx_bind_def)
  next
    case (Inr f)
    then have again: "reconnect k (md_mounted_media previous) (c1\<lparr>ct_msd_function := Some f\<rparr>) = (r, c')"
      using assms(1) c1 by (simp add: rollback_mode_switch_def sx_bind_def sx_apply)
    have "distinct (map mm_lun (md_mounted_media previous))" using assms(2) by (simp add: slots_ok_def Let_def)
    then have "r = Inr u \<longrightarrow> (\<forall>m \<in> set (md_mounted_media previous). lun_shows c' m)"
      using reconnect_effect [OF again _ assms(3)] by blast
    then show ?thesis using reconnect_state [OF again] keeps by simp
  qed
qed

lemma end_switch_inv:
  assumes inv: "msd_inv F c" and stays: "\<forall>p \<in> F. file_stays k p" and prev: "slots_ok previous" "files_in F previous"
    and run: "end_switch hash k mode previous c = (r, c')"
  shows "msd_inv F c'"
proof -
  obtain r1 c1 where c1: "switch_capacity hash k mode c = (r1, c1)" by (meson surj_pair)
  note keeps = switch_capacity_keeps [OF c1]
  show ?thesis
  proof (cases r1)
    case (Inr f)
    then show ?thesis
      using run c1 keeps inv
      by (intro no_media_inv)
        (auto simp: end_switch_def sx_bind_def sx_attempt_def sx_apply update_msd_state_def mark_device_info_dirty_def
          reset_mounts_for_mode_def msd_inv_def files_in_def)
  next
    case (Inl e)
    obtain r2 c2 where c2: "rollback_mode_switch hash k previous c1 = (r2, c2)" by (meson surj_pair)
    have undo: "ct_state c2 = ct_state c1 \<and> ct_drive_path c2 = ct_drive_path c1 \<and>
        (r2 = Inr () \<longrightarrow> (\<forall>m \<in> set (md_mounted_media previous). lun_shows c2 m))"
      by (rule rollback_effect [OF c2 prev(1)]) (use stays prev(2) in \<open>auto simp: files_in_def\<close>)
    show ?thesis
    proof (cases r2)
      case Inl2: (Inl e2)
      then show ?thesis
        using run c1 c2 keeps undo Inl inv
        by (intro no_media_inv)
          (auto simp: end_switch_def abandon_switch_def sx_bind_def sx_attempt_def sx_apply update_msd_state_def mark_device_info_dirty_def
            report_def msd_inv_def files_in_def)
    next
      case Inr2: (Inr u)
      have c': "ct_state c' = previous\<lparr>md_usb_reenumerating := False\<rparr> \<and> ct_drive_path c' = ct_drive_path c \<and> ct_service c' = ct_service c2"
        using run c1 c2 keeps undo Inl Inr2
        by (auto simp: end_switch_def abandon_switch_def sx_bind_def sx_attempt_def sx_apply update_msd_state_def mark_device_info_dirty_def report_def)
      then show ?thesis
        using inv prev undo Inr2 lun_shows_cong [of c' c2] by (auto simp: msd_inv_def slots_ok_def files_in_def media_shown_def)
    qed
  qed
qed

section \<open>Everything the controller does\<close>

text \<open>
  A state is the controller and the switch of the mode that is under way.  \<open>F\<close> are the files of the media: images mounted
  come from the directory, whose listing named them.
\<close>

type_synonym msd_run = "MsdController \<times> (DiskMode \<times> MsdState) option"

inductive msd_step :: "(string \<Rightarrow> u64) \<Rightarrow> cf_kernel \<Rightarrow> stat_oracle \<Rightarrow> string set \<Rightarrow> msd_run \<Rightarrow> msd_run \<Rightarrow> bool"
  for hash k stat F where
  mount: "mount_image_in_slot k img cdrom read_only requested c = (r, c') \<Longrightarrow> im_path img \<in> F \<Longrightarrow>
    msd_step hash k stat F (c, w) (c', w)"
| drive: "mount_drive k stat c = (r, c') \<Longrightarrow> msd_step hash k stat F (c, w) (c', w)"
| unmount: "unmount_media k P c = (r, c') \<Longrightarrow> msd_step hash k stat F (c, w) (c', w)"
| disconnected: "disconnect k c = (r, c') \<Longrightarrow> msd_step hash k stat F (c, w) (c', w)"
| deleted: "delete_image k stat i c = (r, c') \<Longrightarrow> msd_step hash k stat F (c, w) (c', w)"
| ended: "msd_shutdown k c = (r, c') \<Longrightarrow> msd_step hash k stat F (c, w) (c', w)"
| switch_begins: "begin_switch mode c = (Inr (Some previous), c') \<Longrightarrow> msd_step hash k stat F (c, None) (c', Some (mode, previous))"
| switch_refused: "begin_switch mode c = (r, c') \<Longrightarrow> \<forall>previous. r \<noteq> Inr (Some previous) \<Longrightarrow> msd_step hash k stat F (c, w) (c', w)"
| switch_ends: "end_switch hash k mode previous c = (r, c') \<Longrightarrow> msd_step hash k stat F (c, Some (mode, previous)) (c', None)"

definition run_inv :: "string set \<Rightarrow> msd_run \<Rightarrow> bool" where
  "run_inv F x \<longleftrightarrow> msd_inv F (fst x) \<and> (\<forall>mode previous. snd x = Some (mode, previous) \<longrightarrow> slots_ok previous \<and> files_in F previous)"

lemma step_inv:
  assumes "\<forall>p \<in> F. file_stays k p"
  shows "msd_step hash k stat F x y \<Longrightarrow> run_inv F x \<Longrightarrow> run_inv F y"
proof (induction rule: msd_step.induct)
  case (mount img cdrom read_only requested c r c' w)
  then show ?case using mount_image_inv [OF _ assms] by (auto simp: run_inv_def)
next
  case (drive c r c' w)
  then show ?case using mount_drive_inv [OF _ assms] by (auto simp: run_inv_def)
next
  case (unmount P c r c' w)
  then show ?case using unmount_inv by (auto simp: run_inv_def)
next
  case (disconnected c r c' w)
  then show ?case using disconnect_inv [OF _ assms] by (auto simp: run_inv_def)
next
  case (deleted i c r c' w)
  then show ?case using delete_inv by (auto simp: run_inv_def)
next
  case (ended c r c' w)
  then show ?case using msd_shutdown_inv [OF _ assms] by (auto simp: run_inv_def)
next
  case (switch_begins mode c previous c')
  then show ?case using begin_switch_inv [of F c] by (auto simp: run_inv_def)
next
  case (switch_refused mode c r c' w)
  then show ?case using begin_switch_inv [of F c] by (auto simp: run_inv_def)
next
  case (switch_ends mode previous c r c')
  then show ?case using end_switch_inv [OF _ assms] by (auto simp: run_inv_def)
qed

lemma init_inv:
  assumes "msd_init k stat (MsdController_new s dir) = (r, c)" and "join (join dir ''ventoy'') ''ventoy.img'' \<in> F"
  shows "msd_inv F c"
  using assms
  by (intro no_media_inv)
    (auto simp: msd_init_def MsdController_new_def MsdState_default_def sx_bind_def sx_apply update_msd_state_def ct_kernel_def
      on_service_def sx_zoom_def files_in_def drive_metadata_def drive_info_of_def split: option.splits sum.splits prod.splits if_splits)

lemma run_reachable:
  assumes "(msd_step hash k stat F)\<^sup>*\<^sup>* x y" and "\<forall>p \<in> F. file_stays k p" and "run_inv F x"
  shows "run_inv F y"
  using assms(1,3) by (induction rule: rtranclp_induct) (simp_all add: step_inv [OF assms(2)])


section \<open>Mounted media\<close>


definition granting :: cf_kernel where
  "granting h c = Granted []"

definition idle_service :: OtgService where
  "idle_service = OtgService_new\<lparr>og_manager := Some (with_descriptor DEFAULT_GADGET_NAME GadgetDescriptor_default),
     og_msd_function := Some \<lparr>mf_name = ''mass_storage.usb0'', mf_lun_capacity = 8, mf_inquiry_strings = MsdInquiryStrings_default\<rparr>\<rparr>"

definition two_mounted :: MsdController where
  "two_mounted =
     (let img = \<lparr>im_id = ''2a'', im_name = ''a.iso'', im_path = ''/m/images/a.iso'', im_size = 4096, im_created_at = 0\<rparr>;
          stat = (\<lambda>_ _. Some \<lparr>fs_is_file = True, fs_len = 4096, fs_created = 0\<rparr>);
          c0 = snd (msd_init granting stat (MsdController_new (idle_service\<lparr>og_desired := OtgDesiredState_default\<lparr>ds_msd_lun_capacity := 8\<rparr>\<rparr>) ''/m''))
      in snd (mount_drive granting stat (snd (mount_image_in_slot granting img True False None c0))))"


end
