(* ===== verification/MsdUploads.thy ===== *)
theory MsdUploads
  imports MsdImages
begin

text \<open>
  Uploads of images: what was received is what is stored, under a name inside the directory; and two names that share an
  identifier, so that deleting one image removes the other.
\<close>

section \<open>Names\<close>

lemma sanitized:
  assumes "sanitize_filename name = Some name'"
  shows "set name' \<inter> {c. forbidden c} = {}" and "length name' \<le> 255" and "name' \<noteq> [] \<Longrightarrow> hd name' \<noteq> CHR ''.''"
proof -
  define plain where "plain = map (\<lambda>c. if forbidden c then CHR ''_'' else c) (trim name)"
  define bare where "bare = dropWhile (\<lambda>c. c = CHR ''.'') plain"
  have name': "name' = take 255 bare"
    using assms by (auto simp: sanitize_filename_def plain_def bare_def Let_def split: if_splits)
  have "set plain \<inter> {c. forbidden c} = {}" by (auto simp: plain_def) (simp add: forbidden_def)
  moreover have "set name' \<subseteq> set plain" using set_take_subset set_dropWhileD unfolding name' bare_def by fast
  ultimately show "set name' \<inter> {c. forbidden c} = {}" by blast
  show "length name' \<le> 255" by (simp add: name')
  show "hd name' \<noteq> CHR ''.''" if "name' \<noteq> []"
  proof -
    have "bare \<noteq> []" "hd name' = hd bare" using that by (auto simp: name')
    then show ?thesis using hd_dropWhile [of "\<lambda>c. c = CHR ''.''" plain] by (simp add: bare_def)
  qed
qed

section \<open>Uploads\<close>

text \<open>What a log stored in a file: the data of its granted writes.\<close>

fun data_written :: "string \<Rightarrow> cf_log \<Rightarrow> string list" where
  "data_written p [] = []"
| "data_written p ((c, r) # h) =
     (case (c, r) of (CfWrite q d, Granted _) \<Rightarrow> if q = p then d # data_written p h else data_written p h
      | _ \<Rightarrow> data_written p h)"

lemma data_written_append [simp]: "data_written p (h @ h') = data_written p h @ data_written p h'"
  by (induction h) (auto split: cf_call.splits cf_reply.splits)

lemma storage_ok: "storage_call k c h = (Inr ss, h') \<longleftrightarrow> k h c = Granted ss \<and> h' = h @ [(c, Granted ss)]"
  by (auto simp: storage_call_def sx_bind_def cf_ask_def sx_apply Let_def split: cf_reply.splits)

lemma chunks_ok:
  "write_chunks k temp n parts h = (Inr m, h') \<Longrightarrow>
   \<exists>chunks new. parts = map Inr chunks \<and> m = n + length (concat chunks) \<and> (chunks \<noteq> [] \<longrightarrow> m \<le> MAX_IMAGE_SIZE) \<and>
     h' = h @ new \<and> data_written temp new = map bytes_string chunks"
proof (induction parts arbitrary: n h)
  case (Cons part parts)
  show ?case
  proof (cases part)
    case (Inl e)
    then show ?thesis using Cons.prems by (simp add: sx_apply)
  next
    case (Inr chunk)
    then have small: "n + length chunk \<le> MAX_IMAGE_SIZE"
      using Cons.prems by (auto simp: sx_bind_Inr sx_Inr split: if_splits)
    then obtain ss where w: "k h (CfWrite temp (bytes_string chunk)) = Granted ss"
      and rest: "write_chunks k temp (n + length chunk) parts (h @ [(CfWrite temp (bytes_string chunk), Granted ss)]) = (Inr m, h')"
      using Cons.prems Inr by (auto simp: sx_bind_Inr storage_ok)
    obtain chunks new where "parts = map Inr chunks" "m = n + length chunk + length (concat chunks)"
      "chunks \<noteq> [] \<longrightarrow> m \<le> MAX_IMAGE_SIZE" "h' = (h @ [(CfWrite temp (bytes_string chunk), Granted ss)]) @ new"
      "data_written temp new = map bytes_string chunks"
      using Cons.IH [OF rest] by blast
    then show ?thesis
      using Inr small
      by (intro exI [of _ "chunk # chunks"] exI [of _ "(CfWrite temp (bytes_string chunk), Granted ss) # new"]) auto
  qed
qed (simp add: sx_apply)



definition one_file :: stat_oracle where
  "one_file h p = Some \<lparr>fs_is_file = True, fs_len = 3, fs_created = 7\<rparr>"

definition empty_directory :: cf_kernel where
  "empty_directory h c = (case c of CfExists p \<Rightarrow> Denied (Some 2) ''No such file'' | _ \<Rightarrow> Granted [])"


section \<open>Two images, one identifier\<close>

lemma same_identifier:
  "stable_image_id_from_filename (CHR ''a'' # CHR ''~'' # rest) = stable_image_id_from_filename (CHR ''c'' # CHR ''_'' # rest)"
  by (simp add: stable_image_id_from_filename_def string_bytes_def)

text \<open>C40: 
  C0: Identifiers are not unique: two files whose names differ only in their first two characters share theirs, and
  deleting the older image by its identifier removes the newer one.
\<close>
theorem wrong_image_deleted:
  assumes "\<And>h. k h (CfMkdir dir) = Granted []" and "\<And>h. k h (CfList dir) = Granted [''a~'' @ rest, ''c_'' @ rest]"
    and "\<And>h. stat h (join dir (''a~'' @ rest)) = Some older" and "\<And>h. stat h (join dir (''c_'' @ rest)) = Some newer"
    and "fs_is_file older" and "fs_is_file newer" and "fs_created older < fs_created newer"
    and "\<And>h p. k h (CfUnlink p) = Granted []"
  shows "\<exists>h'. image_delete k stat dir (stable_image_id_from_filename (''a~'' @ rest)) h = (Inr (), h') \<and>
    last h' = (CfUnlink (join dir (''c_'' @ rest)), Granted [])"
  using assms same_identifier [of rest]
  by (simp add: image_delete_def image_get_def image_list_def ensure_dir_def storage_call_def cf_ask_def sx_bind_def sx_apply
      listed_image_def get_image_info_def Let_def map_filter_simps)

theorem wrong_image_deleted_witness:
  "\<exists>k stat h'. (\<forall>h. k h (CfList ''/m'') = Granted [''a~.iso'', ''c_.iso'']) \<and>
     image_delete k stat ''/m'' (stable_image_id_from_filename ''a~.iso'') [] = (Inr (), h') \<and>
     last h' = (CfUnlink (join ''/m'' ''c_.iso''), Granted [])"
proof -
  let ?k = "\<lambda>h c. case c of CfList p \<Rightarrow> Granted [''a~.iso'', ''c_.iso''] | _ \<Rightarrow> Granted []"
  let ?stat = "\<lambda>(h :: cf_log) p. Some \<lparr>fs_is_file = True, fs_len = 3, fs_created = (if p = join ''/m'' ''a~.iso'' then 1 else 2)\<rparr>"
  have "\<exists>h'. image_delete ?k ?stat ''/m'' (stable_image_id_from_filename (''a~'' @ ''.iso'')) [] = (Inr (), h') \<and>
      last h' = (CfUnlink (join ''/m'' (''c_'' @ ''.iso'')), Granted [])"
    by (rule wrong_image_deleted [where older = "\<lparr>fs_is_file = True, fs_len = 3, fs_created = 1\<rparr>"
          and newer = "\<lparr>fs_is_file = True, fs_len = 3, fs_created = 2\<rparr>"]) (simp_all add: join_def)
  then obtain h' where "image_delete ?k ?stat ''/m'' (stable_image_id_from_filename (''a~'' @ ''.iso'')) [] = (Inr (), h') \<and>
      last h' = (CfUnlink (join ''/m'' (''c_'' @ ''.iso'')), Granted [])" by blast
  then show ?thesis by (intro exI [of _ ?k] exI [of _ ?stat] exI [of _ h']) simp
qed

end
