(* ===== verification/Spec2Isabelle.thy ===== *)
theory Spec2Isabelle
  imports WebAuth RustdeskCodec VideoTrack ExfatStreaming VncServer VncStream UsbReports OtgReconcile MsdMounts MsdUploads
begin

text \<open>
  A verification library for One-KVM, an IP-KVM server: a daemon that forwards keyboard and
  mouse events of remote clients to a target machine, streams the target's video to them,
  and guards both behind a login.  Paths below are relative to the repository.

  \<^bold>\<open>Parts and how they interact.\<close>  A client's input arrives over a WebRTC data channel
  (\<open>src/hid/datachannel.rs\<close>) or a WebSocket (\<open>src/hid/websocket.rs\<close>), is decoded to HID
  events (\<open>src/hid/types.rs\<close>, \<open>keyboard.rs\<close>, \<open>consumer.rs\<close>) and put into the bounded queue of
  the HID controller (\<open>src/hid/mod.rs\<close>).  The controller's event worker hands the events to the
  active backend; the CH9329 backend (\<open>src/hid/ch9329.rs\<close>) keeps the report state and
  queues commands for a worker thread, which speaks the chip's serial protocol
  (\<open>src/hid/ch9329_proto.rs\<close>), reconnects and programs USB descriptors.  Video goes the other
  way: encoded frames are cleaned and scanned (\<open>src/video/codec/h264_bitstream.rs\<close>,
  \<open>src/rtsp/bitstream.rs\<close>), cut into RTP packets (\<open>src/webrtc/h265_payloader.rs\<close>,
  \<open>video_track.rs\<close>) or wrapped into RustDesk messages (\<open>src/rustdesk/frame_adapters.rs\<close>), which
  travel as length-prefixed frames (\<open>src/rustdesk/bytes_codec.rs\<close>), or sent to VNC viewers, whose keys and pointer
  go to the HID controller (\<open>src/vnc\<close>).  When the server is itself the USB device, the gadget backend
  (\<open>src/hid/otg.rs\<close>) writes reports to nodes of a gadget that \<open>src/otg\<close> builds in configfs and rebuilds whenever the
  configuration (\<open>src/config/schema\<close>) asks for another one; its mass-storage function shows the target the images and
  the drive that the virtual media controller (\<open>src/msd\<close>) mounts.  HTTP requests pass the
  gates of \<open>src/auth/middleware.rs\<close> and \<open>src/redfish/auth.rs\<close>, which consult the session store
  (\<open>src/auth/session.rs\<close>); sessions are created by the login handlers
  (\<open>src/web/handlers/auth.rs\<close>, \<open>src/redfish/routes/session.rs\<close>) after the password
  (\<open>src/auth/user.rs\<close>) and the second factor (\<open>src/auth/two_factor.rs\<close>).

  \<^bold>\<open>Theories.\<close>
  \<^item> \<open>Prelude\<close>: type names of the Rust integers as words, octet codecs with their round
    trips, UTF-8 validity, slices.
  \<^item> \<open>Keyboard\<close>, \<open>HidTypes\<close>: key tables, modifier octet, the six-slot boot report.  The report
    refines a multiset of at most six keys.
  \<^item> \<open>DataChannel\<close>: the parsers and the encoder of the binary HID protocol; round trips,
    and stability of accepted messages under trailing octets.
  \<^item> \<open>Ch9329Proto\<close>: frames, checksum and the scanner of answers: round trip,
    soundness, resynchronisation after noise, detection of a corrupted octet.
  \<^item> \<open>Ch9329Port\<close>: transactions on the serial port, retries and descriptor programming.  The
    port is a scripted environment: what its reads and writes will answer is part of the
    state, so theorems quantify over every behaviour of the line.
  \<^item> \<open>Ch9329Backend\<close>: the backend's operations and the worker thread, each iteration of its loop
    one function, composed by a step relation; the invariant of the reachable states
    excludes panics.  The number of reconnect attempts is a list supplied by the
    environment, consumed one per attempt, so the reconnect loop is structural.
  \<^item> \<open>HidController\<close>: queue, coalescing of moves, event worker and life cycle as two step
    relations (data flow, and life cycle on top), critical section by critical section;
    and the WebSocket loop.  The locale \<open>hid_backend\<close> is the contract a backend gives the
    controller (its keyboard operations refine a multiset of keys); it is interpreted on the
    CH9329 backend, and the end-to-end typing property comes from that interpretation.
  \<^item> \<open>OtgBackend\<close>: the USB gadget backend (\<open>src/hid/otg.rs\<close>, \<open>otg_device.rs\<close>, \<open>factory.rs\<close>), its
    reports, reopening of nodes and monitor thread, over a kernel that is a script of answers; the
    second interpretation of \<open>hid_backend\<close>.
  \<^item> \<open>UsbConfig\<close>: the configuration sections of the gadget, their defaults, profiles and validators.
  \<^item> \<open>Configfs\<close>: the kernel and the helpers of \<open>src/otg/configfs.rs\<close>.  The kernel is a function from the log of the calls
    made so far and the next call to its answer, so that theorems quantify over every behaviour; \<open>backing\<close> reads off a
    log which file a LUN shows, and \<open>cf_only\<close> bounds the calls of a program.
  \<^item> \<open>MsdFunction\<close>, \<open>UsbGadget\<close>, \<open>GadgetManager\<close>: the functions of the gadget and the manager that builds, binds and
    removes it (\<open>src/otg/msd.rs\<close>, \<open>hid.rs\<close>, \<open>report_desc.rs\<close>, \<open>network.rs\<close>, \<open>uac.rs\<close>, \<open>manager.rs\<close>).  Configuring one LUN shows its
    medium and touches no other LUN.
  \<^item> \<open>UsbReports\<close>: the report descriptors, read item by item, against the reports of the gadget backend.
  \<^item> \<open>OtgService\<close>, \<open>OtgReconcile\<close>: the desired state and its reconciliation (\<open>src/otg/service.rs\<close>); how a change of the
    configuration ends, and a way back that does nothing.
  \<^item> \<open>MsdImages\<close>, \<open>MsdUploads\<close>: the image directory (\<open>src/msd/image.rs\<close>); uploads are complete and stay inside it.
  \<^item> \<open>MsdController\<close>, \<open>MsdMounts\<close>: the controller (\<open>src/msd/controller.rs\<close>, \<open>types.rs\<close>, \<open>monitor.rs\<close>); a step relation of its
    calls, with the switch of the disk mode in two steps, over which what it lists is what the kernel shows.
  \<^item> \<open>AppErrors\<close>: error values, codes, HTTP statuses and bodies.
  \<^item> \<open>HashMaps\<close>, \<open>StateError\<close>: the hash map as an interface (locale \<open>hash_map\<close>, interpreted on
    association lists, so that iteration order stays arbitrary) and the monad of
    stateful calls with errors and its rules.
  \<^item> \<open>Sessions\<close>: the session store, refined to the map of live sessions, and the log throttler.
  \<^item> \<open>TwoFactor\<close>: challenges, enrolment, code verification and the failure limit, also as
    interleavings of critical sections.
  \<^item> \<open>WebAuth\<close>: users, both gates, login, logout and the account handlers.
  \<^item> \<open>RustdeskCodec\<close>: frame encoders, streaming decoder and asynchronous reader.  The
    reader is the state machine the compiler derives from \<open>read_frame\<close>: a poll
    consumes what has arrived and keeps its place; dropping the future loses that place.
  \<^item> \<open>StreamDecoder\<close>: the interface of an incremental decoder (locale \<open>stream_decoder\<close>): what it reads does not
    depend on how the stream is cut into chunks.  It is interpreted on both RustDesk decoders and on the VNC one.
  \<^item> \<open>AnnexB\<close>: the scanners of H.264 byte streams, each proved equal to one reference
    reading as a list of NAL units, and the AVCC conversion.
  \<^item> \<open>H265Payloader\<close>: the payloader, with its loops as partial functions that are proved to
    return, against a receiver of RFC 7798.
  \<^item> \<open>VideoTrack\<close>: the WebRTC track and the RustDesk video adapter on top of these.

  \<^item> \<open>VncRfb\<close>: the RFB protocol of \<open>src/vnc/rfb.rs\<close>: handshake, client messages, key and pointer translation,
    frames.  The connection is a script: what its reads will return, and which writes will fail after how many octets.
  \<^item> \<open>VncWire\<close>, \<open>VncStream\<close>: a reader of the server's updates and an encoder of a viewer's messages; frames and
    messages round trip, however they are cut, and only an authenticated viewer gets past the handshake.
  \<^item> \<open>VncServer\<close>: the select loop of one client and the service of \<open>src/vnc/mod.rs\<close>; a loop over a list of wakes,
    shown to be runs of a smaller relation, \<open>client_run\<close>, over which the invariants are proved.
  \<^item> \<open>ExfatVolume\<close>, \<open>ExfatEntries\<close>, \<open>ExfatDir\<close>, \<open>ExfatFiles\<close>, \<open>ExfatStream\<close>: the exFAT library that fills the
    virtual drive (\<open>exfat/ops.rs\<close> in \<open>libs/ventoy-img-rs/src\<close>): allocation table and its cache, bitmap, entry sets, directories, whole-file and
    streaming operations, on a disk that is its octets and a script of failing accesses.
  \<^item> \<open>ExfatScan\<close>, \<open>ExfatStore\<close>, \<open>ExfatRoot\<close>, \<open>ExfatStreaming\<close>: what they do on a sound volume.  A directory
    cluster is a list of items, its operations change the list of live files, and the root
    directory refines a map from lower-case names to contents (locale \<open>name_store\<close>).  A run that would
    not end is \<open>None\<close> (\<open>list_files_recursive\<close>, \<open>fw_write_loop\<close>); the recursion of
    \<open>delete_recursive\<close> is bounded by a stack depth supplied by the caller.

  \<^bold>\<open>Conventions.\<close>  A struct is a record, an enum a datatype, a fixed-width integer a word
  whose arithmetic wraps; \<open>usize\<close> indices into buffers in memory are \<open>nat\<close> except where the code
  can wrap (the fragment size of the H.265 payloader is computed on 64-bit words).
  Results are sums with the error on the left; calls that may panic have a constructor for
  it.  Methods under a lock are one step; a method that takes a lock several times is several
  steps with its own locals in between, and the theorems quantify over the interleavings.
  Clocks are arguments.  Third-party code is a parameter: password hashing, TOTP, the
  database, base64 and cookie parsing, the writers of the WebRTC stack, the serial port.
  Where a property needs something of a parameter the hypothesis states it, and the witness
  instantiates it by a concrete function.

  \<^bold>\<open>Not modelled.\<close>  Within reach of the same techniques, and not done: the request parser and the sessions of
  \<open>src/rtsp\<close>, the relay frames and the wake-on-LAN packet of \<open>src/atx\<close>, the validators of
  \<open>src/web/handlers/config/types.rs\<close>, the message dispatch of \<open>src/rustdesk/connection.rs\<close>, the creation of the drive image
  around the exFAT volume.  Left out for good: device and process I/O (video capture, audio,
  GPIO, extensions, update), orchestration of the webrtc crate, foreign-function
  bindings (\<open>libs/hwcodec\<close>, \<open>libs/v4l2r\<close>, \<open>res/vcpkg\<close>), JSON documents assembled from other
  components, and the browser client under \<open>web/\<close>.  Inside modelled components, opening the
  serial device, HTTP parsing, image downloads, the network bridge of the gadget and protobuf serialisation are environment.
\<close>

section \<open>From the data channel to the serial line\<close>

text \<open>C1: A keyboard event that arrives on the data channel, whatever octets follow it, is
  decoded; the running backend queues one command for it, and the worker, when the chip
  acknowledges, has written exactly one frame, the one of the report the backend then
  holds, and the backend is online without an error.\<close>

theorem keystroke_reaches_wire:
  assumes "alive b" and "worker_queue b = []" and "report_wf (keyboard_state b)"
    and "sp_writes port = []" and "sp_reads port = [ReadOk (frame a' 0x82 d)] # later" and "length d \<le> 64"
  shows "\<exists>e' b' c port' b''.
    parse_hid_message (encode_keyboard_event e @ extra) = Some (Keyboard e') \<and> e' = e \<and>
    send_keyboard e' b = (Inr (), b') \<and> worker_queue b' = [c] \<and>
    worker_step (RecvOk c) attempts port (b'\<lparr>worker_queue := []\<rparr>) = (Running port', b'') \<and>
    sp_written port' = sp_written port @ [frame (address b) 0x02 (report_to_bytes (keyboard_state b'))] \<and>
    keyboard_state b'' = keyboard_state b' \<and> online (runtime b'') \<and> last_error (runtime b'') = None"
proof -
  obtain b' where b': "send_keyboard e b = (Inr (), b')"
    using send_keyboard_sends(1) [OF assms(1), of e] by (metis prod.collapse)
  have q: "worker_queue b' = [Packet cmd_SEND_KB_GENERAL_DATA (report_to_bytes (keyboard_state b'))]"
    using send_keyboard_sends(2) [OF assms(1), of e] assms(2) b' by simp
  have len: "length (report_to_bytes (keyboard_state b')) \<le> 64"
    using send_keyboard_wf [OF assms(3), of e] b' by (simp add: report_to_bytes_def report_wf_def)
  have x: "xfer_packet (address b) cmd_SEND_KB_GENERAL_DATA (report_to_bytes (keyboard_state b')) port =
      (Inr (response_of 0x82 d), port\<lparr>sp_written := sp_written port @
         [frame (address b) cmd_SEND_KB_GENERAL_DATA (report_to_bytes (keyboard_state b'))], sp_reads := later\<rparr>)"
    by (rule xfer_packet_one_read [OF len assms(4-6)])
      (simp add: expected_response_cmd_def RESPONSE_SUCCESS_MASK_def cmd_consts)
  have addr: "address b' = address b"
    using send_keyboard_address [of e b] b' by simp
  show ?thesis
    using parse_hid_message_append [OF parse_encode_keyboard] b' q x addr
    by (auto simp: simple_command_def pm_bind_def pm_return_def set_online_def notify_def Let_def
        cmd_SEND_KB_GENERAL_DATA_def)
qed

theorem keystroke_reaches_wire_witness:
  "\<exists>e' b' c port' b''.
    parse_hid_message (encode_keyboard_event (key_down (Letter KeyA) (from_hid_byte 0)) @ []) = Some (Keyboard e') \<and>
    e' = key_down (Letter KeyA) (from_hid_byte 0) \<and>
    send_keyboard e' ((with_options False)\<lparr>worker_tx := True, worker_running := True\<rparr>) = (Inr (), b') \<and>
    worker_queue b' = [c] \<and>
    worker_step (RecvOk c) [] \<lparr>sp_written = [], sp_writes = [], sp_reads = [[ReadOk (frame 0 0x82 [0])]]\<rparr>
      (b'\<lparr>worker_queue := []\<rparr>) = (Running port', b'') \<and>
    sp_written port' = [frame 0 0x02 (report_to_bytes (keyboard_state b'))] \<and>
    keyboard_state b'' = keyboard_state b' \<and> online (runtime b'') \<and> last_error (runtime b'') = None"
  using keystroke_reaches_wire [of "(with_options False)\<lparr>worker_tx := True, worker_running := True\<rparr>"
      "\<lparr>sp_written = [], sp_writes = [], sp_reads = [[ReadOk (frame 0 0x82 [0])]]\<rparr>" 0 "[0]" "[]"
      "key_down (Letter KeyA) (from_hid_byte 0)" "[]" "[]"]
  by (simp add: alive_def with_options_def DEFAULT_ADDR_def)

end
